(* ===== verification/A2S_Prelude.thy ===== *)
theory A2S_Prelude
  imports Main "HOL-Library.Monad_Syntax"
begin

text \<open>
  The prelude of the development: the theorem collections, the iteration combinators of the
  Rust loops that may panic, and the locales of the two contracts that several components share.

  A computation that may panic has type \<open>'a option\<close>: \<open>None\<close> is the panic, \<open>Some x\<close> the value
  it returns. \<open>foldM\<close> is a \<open>for\<close> loop over a slice with one mutable variable,
  \<open>concatM\<close> a loop that pushes onto a vector. Both run front to back and stop at the first panic.
\<close>

section \<open>Theorem collections\<close>

named_theorems text_simps \<open>equations of the string model\<close>
named_theorems sev_simps \<open>facts about severities\<close>
named_theorems panic_free \<open>operations that return a value\<close>

section \<open>Loops that may panic\<close>

fun foldM :: "('s \<Rightarrow> 'a \<Rightarrow> 's option) \<Rightarrow> 's \<Rightarrow> 'a list \<Rightarrow> 's option" where
  "foldM f s [] = Some s"
| "foldM f s (x # xs) = do { s' \<leftarrow> f s x; foldM f s' xs }"

fun mapM :: "('a \<Rightarrow> 'b option) \<Rightarrow> 'a list \<Rightarrow> 'b list option" where
  "mapM f [] = Some []"
| "mapM f (x # xs) = do { y \<leftarrow> f x; ys \<leftarrow> mapM f xs; Some (y # ys) }"

definition concatM :: "('a \<Rightarrow> 'b list option) \<Rightarrow> 'a list \<Rightarrow> 'b list option" where
  "concatM f xs = map_option concat (mapM f xs)"

text \<open>\<open>find_map\<close> is a loop that returns the first answer its body gives.\<close>

fun find_map :: "('a \<Rightarrow> 'b option) \<Rightarrow> 'a list \<Rightarrow> 'b option" where
  "find_map f [] = None"
| "find_map f (x # xs) = (case f x of None \<Rightarrow> find_map f xs | Some y \<Rightarrow> Some y)"

text \<open>
  Congruence rules: a loop only calls its body on elements of the list, which is what the
  termination proofs of functions that recurse inside a loop need.
\<close>

lemma foldM_cong [fundef_cong]:
  assumes "xs = ys" "s = t" "\<And>s x. x \<in> set ys \<Longrightarrow> f s x = g s x"
  shows "foldM f s xs = foldM g t ys"
  using assms by (induction ys arbitrary: xs s t) (auto intro!: Option.bind_cong)

lemma mapM_cong [fundef_cong]:
  assumes "xs = ys" "\<And>x. x \<in> set ys \<Longrightarrow> f x = g x"
  shows "mapM f xs = mapM g ys"
  using assms by (induction ys arbitrary: xs) auto

lemma concatM_cong [fundef_cong]:
  assumes "xs = ys" "\<And>x. x \<in> set ys \<Longrightarrow> f x = g x"
  shows "concatM f xs = concatM g ys"
  using mapM_cong [OF assms] by (simp add: concatM_def)

lemma find_map_cong [fundef_cong]:
  assumes "xs = ys" "\<And>x. x \<in> set ys \<Longrightarrow> f x = g x"
  shows "find_map f xs = find_map g ys"
  using assms by (induction ys arbitrary: xs) (auto split: option.splits)

lemma find_map_Some: "find_map f xs = Some y \<Longrightarrow> \<exists>x \<in> set xs. f x = Some y"
  by (induction xs) (auto split: option.splits)

lemma find_map_None: "find_map f xs = None \<longleftrightarrow> (\<forall>x \<in> set xs. f x = None)"
  by (induction xs) (auto split: option.splits)

lemma mapM_total [panic_free]:
  "(\<And>x. x \<in> set xs \<Longrightarrow> \<exists>y. f x = Some y) \<Longrightarrow> \<exists>ys. mapM f xs = Some ys"
  by (induction xs) (auto simp: bind_eq_Some_conv)

lemma concatM_total [panic_free]:
  "(\<And>x. x \<in> set xs \<Longrightarrow> \<exists>y. f x = Some y) \<Longrightarrow> \<exists>ys. concatM f xs = Some ys"
  using mapM_total [of xs f] by (auto simp: concatM_def)

lemma foldM_total [panic_free]:
  "(\<And>s x. x \<in> set xs \<Longrightarrow> \<exists>y. f s x = Some y) \<Longrightarrow> \<exists>t. foldM f s xs = Some t"
  by (induction xs arbitrary: s) (auto simp: bind_eq_Some_conv, metis)

lemma foldM_append: "foldM f s (xs @ ys) = foldM f s xs \<bind> (\<lambda>t. foldM f t ys)"
  by (induction xs arbitrary: s) (auto intro!: Option.bind_cong)

lemma mapM_Some: "mapM (\<lambda>x. Some (f x)) xs = Some (map f xs)"
  by (induction xs) auto

lemma mapM_eq_Some:
  "mapM f xs = Some ys \<Longrightarrow> list_all2 (\<lambda>x y. f x = Some y) xs ys"
  by (induction xs arbitrary: ys) (auto simp: bind_eq_Some_conv)

lemma mapM_SomeD:
  "mapM f xs = Some ys \<Longrightarrow> x \<in> set xs \<Longrightarrow> \<exists>y \<in> set ys. f x = Some y"
  by (induction xs arbitrary: ys) (auto simp: bind_eq_Some_conv)

section \<open>Contracts shared by components\<close>

text \<open>
  A component with a state and a set of operations: \<open>step s e\<close> is the state after operation \<open>e\<close>,
  \<open>enabled s e\<close> what the environment guarantees when it happens (such as the freshness of a
  generated id), and \<open>inv\<close> is kept by every operation. The client's view is a whole run.
\<close>

fun admissible :: "('s \<Rightarrow> 'e \<Rightarrow> 's) \<Rightarrow> ('s \<Rightarrow> 'e \<Rightarrow> bool) \<Rightarrow> 's \<Rightarrow> 'e list \<Rightarrow> bool" where
  "admissible step enabled s [] = True"
| "admissible step enabled s (e # es) = (enabled s e \<and> admissible step enabled (step s e) es)"

lemma admissible_append:
  "admissible step enabled s (es @ fs) \<longleftrightarrow>
     admissible step enabled s es \<and> admissible step enabled (foldl step s es) fs"
  by (induction es arbitrary: s) auto

locale state_machine =
  fixes step :: "'s \<Rightarrow> 'e \<Rightarrow> 's"
    and enabled :: "'s \<Rightarrow> 'e \<Rightarrow> bool"
    and inv :: "'s \<Rightarrow> bool"
  assumes step_inv: "inv s \<Longrightarrow> enabled s e \<Longrightarrow> inv (step s e)"
begin

lemma run_inv: "inv s \<Longrightarrow> admissible step enabled s es \<Longrightarrow> inv (foldl step s es)"
  by (induction es arbitrary: s) (auto intro: step_inv)

end

text \<open>
  A state machine with a relation between the state before and after that every operation
  respects and that composes: the state at the end of a run is related to the one at its start,
  and any two states along it are.
\<close>

locale progress_machine = state_machine step enabled inv
  for step :: "'s \<Rightarrow> 'e \<Rightarrow> 's" and enabled :: "'s \<Rightarrow> 'e \<Rightarrow> bool" and inv :: "'s \<Rightarrow> bool" +
  fixes rel :: "'s \<Rightarrow> 's \<Rightarrow> bool"
  assumes rel_refl: "rel s s"
    and rel_trans: "rel s t \<Longrightarrow> rel t u \<Longrightarrow> rel s u"
    and step_rel: "inv s \<Longrightarrow> enabled s e \<Longrightarrow> rel s (step s e)"
begin

lemma run_rel: "inv s \<Longrightarrow> admissible step enabled s es \<Longrightarrow> rel s (foldl step s es)"
proof (induction es arbitrary: s)
  case Nil
  show ?case by (simp add: rel_refl)
next
  case (Cons e es)
  then have "rel (step s e) (foldl step (step s e) es)"
    by (auto intro: Cons.IH step_inv)
  with step_rel [OF Cons.prems(1), of e] Cons.prems(2) show ?case by (auto intro: rel_trans)
qed

lemma run_rel_between:
  assumes "inv s" "admissible step enabled s (es @ fs)"
  shows "rel (foldl step s es) (foldl step s (es @ fs))"
  using assms by (simp add: admissible_append run_inv run_rel)

end

text \<open>
  An ordered rule list that the first matching rule decides. \<open>matches r x\<close> is the rule's
  condition, \<open>eval\<close> the component's evaluation of a rule list, \<open>verdict\<close> what a matching rule
  says and \<open>dflt\<close> the answer when no rule matches.
\<close>

locale first_match =
  fixes matches :: "'r \<Rightarrow> 'x \<Rightarrow> bool"
    and verdict :: "'r \<Rightarrow> 'd"
    and dflt :: 'd
    and eval :: "'r list \<Rightarrow> 'x \<Rightarrow> 'd"
  assumes eval_Nil: "eval [] x = dflt"
    and eval_Cons: "eval (r # rs) x = (if matches r x then verdict r else eval rs x)"
begin

lemma skip_prefix:
  "\<forall>r \<in> set rs. \<not> matches r x \<Longrightarrow> eval (rs @ qs) x = eval qs x"
  by (induction rs) (auto simp: eval_Cons)

lemma first_decides:
  "\<forall>r \<in> set rs. \<not> matches r x \<Longrightarrow> matches r x \<Longrightarrow> eval (rs @ r # qs) x = verdict r"
  by (simp add: skip_prefix eval_Cons)

lemma no_match: "\<forall>r \<in> set rs. \<not> matches r x \<Longrightarrow> eval rs x = dflt"
  using skip_prefix [of rs x "[]"] by (simp add: eval_Nil)

lemma eval_find:
  "eval rs x = (case List.find (\<lambda>r. matches r x) rs of None \<Rightarrow> dflt | Some r \<Rightarrow> verdict r)"
  by (induction rs) (auto simp: eval_Nil eval_Cons)

lemma eval_in: "eval rs x = dflt \<or> (\<exists>r \<in> set rs. matches r x \<and> eval rs x = verdict r)"
  by (induction rs) (auto simp: eval_Nil eval_Cons)

lemma eval_dflt:
  "(\<And>r. verdict r \<noteq> dflt) \<Longrightarrow> eval rs x = dflt \<longleftrightarrow> (\<forall>r \<in> set rs. \<not> matches r x)"
  by (induction rs) (auto simp: eval_Nil eval_Cons)

lemma eval_cases:
  assumes "eval rs x = d" "d \<noteq> dflt"
  obtains ps r qs where "rs = ps @ r # qs" "\<forall>p \<in> set ps. \<not> matches p x" "matches r x"
    "verdict r = d"
proof (cases "\<exists>r \<in> set rs. matches r x")
  case True
  from split_list_first_prop [OF this] obtain ps r qs where split: "rs = ps @ r # qs" "matches r x"
      "\<forall>p \<in> set ps. \<not> matches p x"
    by blast
  have "verdict r = d"
    using first_decides [OF split(3,2), of qs] assms(1) split(1) by simp
  with split show thesis by (intro that [of ps r qs])
next
  case False
  with assms show thesis using no_match by blast
qed

end

end
