(* ===== verification/Rust_Text.thy ===== *)
theory Rust_Text
  imports A2S_Prelude "HOL-Library.Word" "HOL-Library.Sublist"
begin

text \<open>
  The part of Rust's \<open>str\<close>, \<open>char\<close> and integer parsing that the modelled code uses.

  A \<open>str\<close> is the sequence of the UTF-8 bytes of a Rust string, so \<open>length\<close> is \<open>str::len\<close> and an
  index is a byte index, as in the source. \<open>chars\<close> groups the bytes into Rust characters where the
  source iterates over characters and the difference shows. Two library functions are modelled on
  the ASCII range only and leave every other byte as it is: \<open>to_lowercase\<close> (ASCII letters)
  and \<open>is_whitespace\<close> (the six ASCII white-space characters).
\<close>

type_synonym str = string

section \<open>Characters\<close>

abbreviation bslash :: char where "bslash \<equiv> CHR 0x5C"
abbreviation squote :: char where "squote \<equiv> CHR 0x27"
abbreviation dquote :: char where "dquote \<equiv> CHR 0x22"
abbreviation newline :: char where "newline \<equiv> CHR 0x0A"

definition is_ws :: "char \<Rightarrow> bool" where
  "is_ws c \<longleftrightarrow> c \<in> {CHR 0x09, CHR 0x0A, CHR 0x0B, CHR 0x0C, CHR 0x0D, CHR 0x20}"

definition is_ascii_upper :: "char \<Rightarrow> bool" where
  "is_ascii_upper c \<longleftrightarrow> (of_char c :: nat) \<in> {65..90}"

definition is_ascii_lower :: "char \<Rightarrow> bool" where
  "is_ascii_lower c \<longleftrightarrow> (of_char c :: nat) \<in> {97..122}"

definition is_ascii_digit :: "char \<Rightarrow> bool" where
  "is_ascii_digit c \<longleftrightarrow> (of_char c :: nat) \<in> {48..57}"

definition is_ascii_alphanumeric :: "char \<Rightarrow> bool" where
  "is_ascii_alphanumeric c \<longleftrightarrow> is_ascii_upper c \<or> is_ascii_lower c \<or> is_ascii_digit c"

definition lower_char :: "char \<Rightarrow> char" where
  "lower_char c = (if is_ascii_upper c then char_of (of_char c + (32 :: nat)) else c)"

text \<open>A UTF-8 continuation byte is \<open>10xxxxxx\<close>; every other byte starts a character.\<close>

definition is_cont_byte :: "char \<Rightarrow> bool" where
  "is_cont_byte c \<longleftrightarrow> digit7 c \<and> \<not> digit6 c"

definition is_ascii :: "char \<Rightarrow> bool" where
  "is_ascii c \<longleftrightarrow> \<not> digit7 c"

text \<open>Bit-level equations, by which closed terms evaluate.\<close>

lemma is_ascii_upper_code [code, text_simps]:
  "is_ascii_upper (Char b0 b1 b2 b3 b4 b5 b6 b7) \<longleftrightarrow>
     \<not> b7 \<and> b6 \<and> \<not> b5 \<and> (b4 \<or> b3 \<or> b2 \<or> b1 \<or> b0) \<and> \<not> (b4 \<and> b3 \<and> (b2 \<or> b1 \<and> b0))"
  by (cases b0; cases b1; cases b2; cases b3; cases b4; cases b5; cases b6; cases b7)
     (simp_all add: is_ascii_upper_def)

lemma is_ascii_lower_code [code, text_simps]:
  "is_ascii_lower (Char b0 b1 b2 b3 b4 b5 b6 b7) \<longleftrightarrow>
     \<not> b7 \<and> b6 \<and> b5 \<and> (b4 \<or> b3 \<or> b2 \<or> b1 \<or> b0) \<and> \<not> (b4 \<and> b3 \<and> (b2 \<or> b1 \<and> b0))"
  by (cases b0; cases b1; cases b2; cases b3; cases b4; cases b5; cases b6; cases b7)
     (simp_all add: is_ascii_lower_def)

lemma is_ascii_digit_code [code, text_simps]:
  "is_ascii_digit (Char b0 b1 b2 b3 b4 b5 b6 b7) \<longleftrightarrow>
     \<not> b7 \<and> \<not> b6 \<and> b5 \<and> b4 \<and> \<not> (b3 \<and> (b2 \<or> b1))"
  by (cases b0; cases b1; cases b2; cases b3; cases b4; cases b5; cases b6; cases b7)
     (simp_all add: is_ascii_digit_def)

lemma lower_char_code [code, text_simps]:
  "lower_char (Char b0 b1 b2 b3 b4 b5 b6 b7) =
     (if is_ascii_upper (Char b0 b1 b2 b3 b4 b5 b6 b7) then Char b0 b1 b2 b3 b4 True b6 b7
      else Char b0 b1 b2 b3 b4 b5 b6 b7)"
  by (cases b0; cases b1; cases b2; cases b3; cases b4; cases b5; cases b6; cases b7)
     (simp_all add: lower_char_def is_ascii_upper_def char_of_def bit_0)

lemma lower_char_not_upper [simp]: "\<not> is_ascii_upper (lower_char c)"
  by (cases c) (simp add: text_simps)

lemma lower_char_idem [simp]: "lower_char (lower_char c) = lower_char c"
  by (metis lower_char_def lower_char_not_upper)

lemma is_ascii_lower_char [simp]: "is_ascii (lower_char c) = is_ascii c"
  by (cases c) (simp add: text_simps is_ascii_def)

lemma is_cont_lower_char [simp]: "is_cont_byte (lower_char c) = is_cont_byte c"
  by (cases c) (simp add: text_simps is_cont_byte_def)

lemma ascii_not_cont: "is_ascii c \<Longrightarrow> \<not> is_cont_byte c"
  by (simp add: is_ascii_def is_cont_byte_def)

section \<open>Case, trimming, splitting\<close>

definition to_lowercase :: "str \<Rightarrow> str" where
  "to_lowercase s = map lower_char s"

definition eq_ignore_ascii_case :: "str \<Rightarrow> str \<Rightarrow> bool" where
  "eq_ignore_ascii_case a b \<longleftrightarrow> map lower_char a = map lower_char b"

definition trim_start :: "str \<Rightarrow> str" where
  "trim_start s = dropWhile is_ws s"

definition trim_end :: "str \<Rightarrow> str" where
  "trim_end s = rev (dropWhile is_ws (rev s))"

definition trim :: "str \<Rightarrow> str" where
  "trim s = trim_end (trim_start s)"

fun split_ws_go :: "str \<Rightarrow> str \<Rightarrow> str list" where
  "split_ws_go cur [] = (if cur = [] then [] else [rev cur])"
| "split_ws_go cur (c # s) =
     (if is_ws c then (if cur = [] then split_ws_go [] s else rev cur # split_ws_go [] s)
      else split_ws_go (c # cur) s)"

text \<open>\<open>str::split_whitespace\<close>: the maximal runs of non-white-space, never an empty one.\<close>

definition split_whitespace :: "str \<Rightarrow> str list" where
  "split_whitespace s = split_ws_go [] s"

text \<open>\<open>str::split\<close> on one character: \<open>n\<close> separators give \<open>n + 1\<close> pieces.\<close>

fun split_char :: "char \<Rightarrow> str \<Rightarrow> str list" where
  "split_char d [] = [[]]"
| "split_char d (c # s) =
     (if c = d then [] # split_char d s
      else case split_char d s of [] \<Rightarrow> [[c]] | p # ps \<Rightarrow> (c # p) # ps)"

fun join :: "str \<Rightarrow> str list \<Rightarrow> str" where
  "join sep [] = []"
| "join sep [p] = p"
| "join sep (p # q # ps) = p @ sep @ join sep (q # ps)"

section \<open>Searching\<close>

fun starts_with :: "str \<Rightarrow> str \<Rightarrow> bool" where
  "starts_with s [] = True"
| "starts_with [] (p # ps) = False"
| "starts_with (c # s) (p # ps) = (c = p \<and> starts_with s ps)"

definition ends_with :: "str \<Rightarrow> str \<Rightarrow> bool" where
  "ends_with s p = starts_with (rev s) (rev p)"

definition strip_prefix :: "str \<Rightarrow> str \<Rightarrow> str option" where
  "strip_prefix s p = (if starts_with s p then Some (drop (length p) s) else None)"

definition strip_suffix :: "str \<Rightarrow> str \<Rightarrow> str option" where
  "strip_suffix s p = (if ends_with s p then Some (take (length s - length p) s) else None)"

fun contains :: "str \<Rightarrow> str \<Rightarrow> bool" where
  "contains [] p = (p = [])"
| "contains (c # s) p = (starts_with (c # s) p \<or> contains s p)"

text \<open>\<open>s.find(p)\<close> followed by skipping past the match: what is left of \<open>s\<close> after the first
  occurrence of \<open>p\<close>.\<close>

fun after_first :: "str \<Rightarrow> str \<Rightarrow> str option" where
  "after_first [] p = (if p = [] then Some [] else None)"
| "after_first (c # s) p =
     (if starts_with (c # s) p then Some (drop (length p) (c # s)) else after_first s p)"

lemma starts_with_prefix: "starts_with s p \<longleftrightarrow> prefix p s"
  by (induction s p rule: starts_with.induct) auto

lemma ends_with_suffix: "ends_with s p \<longleftrightarrow> suffix p s"
  by (simp add: ends_with_def starts_with_prefix suffix_to_prefix)

lemma contains_sublist: "contains s p \<longleftrightarrow> sublist p s"
  by (induction s) (simp_all add: starts_with_prefix sublist_Cons_right del: starts_with.simps)

lemma contains_append: "contains (u @ p @ v) p"
  by (auto simp: contains_sublist)

lemma contains_obtain: "contains s p \<Longrightarrow> \<exists>u v. s = u @ p @ v"
  by (auto simp: contains_sublist sublist_def)

lemma after_first_None: "after_first s p = None \<longleftrightarrow> \<not> contains s p"
  by (induction s) auto

lemma after_first_Some: "after_first s p = Some t \<Longrightarrow> \<exists>u. s = u @ p @ t"
proof (induction s)
  case Nil
  then show ?case by (simp split: if_splits)
next
  case (Cons c s)
  show ?case
  proof (cases "starts_with (c # s) p")
    case True
    then have "c # s = p @ drop (length p) (c # s)"
      by (metis append_eq_conv_conj prefixE starts_with_prefix)
    with True Cons.prems show ?thesis
      by (metis after_first.simps(2) append_Nil option.inject)
  next
    case False
    with Cons obtain u where "s = u @ p @ t" by auto
    then show ?thesis by (metis append_Cons)
  qed
qed

section \<open>Byte slices and characters\<close>

text \<open>
  \<open>&s[i..j]\<close> panics (\<open>None\<close>) unless \<open>i \<le> j \<le> s.len()\<close> and both ends fall on character boundaries.
\<close>

definition is_char_boundary :: "str \<Rightarrow> nat \<Rightarrow> bool" where
  "is_char_boundary s i \<longleftrightarrow> i = length s \<or> i < length s \<and> \<not> is_cont_byte (s ! i)"

definition slice :: "str \<Rightarrow> nat \<Rightarrow> nat \<Rightarrow> str option" where
  "slice s i j =
     (if i \<le> j \<and> j \<le> length s \<and> is_char_boundary s i \<and> is_char_boundary s j
      then Some (take (j - i) (drop i s)) else None)"

text \<open>\<open>s.chars()\<close>: each character as the string of its bytes.\<close>

fun chars :: "str \<Rightarrow> str list" where
  "chars [] = []"
| "chars (c # s) =
     (case chars s of
        [] \<Rightarrow> [[c]]
      | p # ps \<Rightarrow> (if is_cont_byte (hd p) then (c # p) # ps else [c] # p # ps))"

lemma concat_chars [simp]: "concat (chars s) = s"
  by (induction s) (auto split: list.splits)

lemma chars_ascii: "list_all is_ascii s \<Longrightarrow> chars s = map (\<lambda>c. [c]) s"
  by (induction s) (auto split: list.splits dest: ascii_not_cont)

lemma slice_ascii:
  "list_all is_ascii s \<Longrightarrow> i \<le> j \<Longrightarrow> j \<le> length s \<Longrightarrow> slice s i j = Some (take (j - i) (drop i s))"
  by (auto simp: slice_def is_char_boundary_def list_all_length ascii_not_cont)

text \<open>The UTF-8 encoding of a code point (\<open>String::push\<close>); \<open>char_from_u32\<close> rejects surrogates and
  values above \<open>0x10FFFF\<close>.\<close>

definition encode_utf8 :: "nat \<Rightarrow> str" where
  "encode_utf8 n =
     (if n < 0x80 then [char_of n]
      else if n < 0x800 then [char_of (0xC0 + n div 0x40), char_of (0x80 + n mod 0x40)]
      else if n < 0x10000 then
        [char_of (0xE0 + n div 0x1000), char_of (0x80 + n div 0x40 mod 0x40),
         char_of (0x80 + n mod 0x40)]
      else
        [char_of (0xF0 + n div 0x40000), char_of (0x80 + n div 0x1000 mod 0x40),
         char_of (0x80 + n div 0x40 mod 0x40), char_of (0x80 + n mod 0x40)])"

definition char_from_u32 :: "nat \<Rightarrow> str option" where
  "char_from_u32 n =
     (if n \<le> 0x10FFFF \<and> \<not> (0xD800 \<le> n \<and> n \<le> 0xDFFF) then Some (encode_utf8 n) else None)"

section \<open>Parsing integers\<close>

definition digit_value :: "nat \<Rightarrow> char \<Rightarrow> nat option" where
  "digit_value radix c =
     (let n = (of_char c :: nat);
          v = (if is_ascii_digit c then Some (n - 48)
               else if is_ascii_lower c then Some (n - 97 + 10)
               else if is_ascii_upper c then Some (n - 65 + 10) else None)
      in case v of None \<Rightarrow> None | Some d \<Rightarrow> if d < radix then Some d else None)"

fun digits_value :: "nat \<Rightarrow> nat \<Rightarrow> str \<Rightarrow> nat option" where
  "digits_value radix acc [] = Some acc"
| "digits_value radix acc (c # s) =
     (case digit_value radix c of None \<Rightarrow> None | Some d \<Rightarrow> digits_value radix (acc * radix + d) s)"

text \<open>
  \<open>uN::from_str_radix\<close>: an optional leading \<open>+\<close>, then at least one digit, no overflow of \<open>w\<close> bits.
\<close>

definition from_str_radix :: "nat \<Rightarrow> nat \<Rightarrow> str \<Rightarrow> nat option" where
  "from_str_radix w radix s =
     (let body = (case s of [] \<Rightarrow> [] | c # r \<Rightarrow> if c = CHR ''+'' \<and> r \<noteq> [] then r else s)
      in if body = [] then None
         else case digits_value radix 0 body of
           None \<Rightarrow> None
         | Some n \<Rightarrow> if n < 2 ^ w then Some n else None)"

definition parse_u64 :: "str \<Rightarrow> nat option" where
  "parse_u64 = from_str_radix 64 10"

lemma from_str_radix_bound: "from_str_radix w radix s = Some n \<Longrightarrow> n < 2 ^ w"
  by (auto simp: from_str_radix_def Let_def split: option.splits if_splits)

section \<open>Facts used by the components\<close>

lemma length_to_lowercase [simp]: "length (to_lowercase s) = length s"
  by (simp add: to_lowercase_def)

lemma to_lowercase_idem [simp]: "to_lowercase (to_lowercase s) = to_lowercase s"
  by (simp add: to_lowercase_def)

lemma to_lowercase_append: "to_lowercase (s @ t) = to_lowercase s @ to_lowercase t"
  by (simp add: to_lowercase_def)

lemma eq_ignore_ascii_case_lower: "eq_ignore_ascii_case a b \<longleftrightarrow> to_lowercase a = to_lowercase b"
  by (simp add: eq_ignore_ascii_case_def to_lowercase_def)

lemma eq_ignore_ascii_case_refl [simp]: "eq_ignore_ascii_case a a"
  by (simp add: eq_ignore_ascii_case_def)

lemma eq_ignore_ascii_case_sym: "eq_ignore_ascii_case a b = eq_ignore_ascii_case b a"
  by (auto simp: eq_ignore_ascii_case_def)

lemma split_char_not_Nil [simp]: "split_char d s \<noteq> []"
  by (induction s) (auto split: list.splits)

lemma length_trim_start: "length (trim_start s) \<le> length s"
  by (simp add: trim_start_def length_dropWhile_le)

lemma length_trim: "length (trim s) \<le> length s"
  by (metis length_dropWhile_le length_rev length_trim_start order_trans trim_def trim_end_def)

lemma trim_start_idem [simp]: "trim_start (trim_start s) = trim_start s"
  by (simp add: trim_start_def)

lemma trim_end_idem [simp]: "trim_end (trim_end s) = trim_end s"
  by (simp add: trim_end_def)

lemma trim_end_Cons: "trim_end (c # s) = (if trim_end s = [] \<and> is_ws c then [] else c # trim_end s)"
  by (auto simp: trim_end_def dropWhile_append)

lemma trim_start_trim_end: "trim_start (trim_end s) = trim_end (trim_start s)"
  by (induction s) (auto simp: trim_start_def trim_end_Cons, auto simp: trim_end_def)

lemma trim_idem [simp]: "trim (trim s) = trim s"
  by (simp add: trim_def trim_start_trim_end [symmetric])

lemma is_ws_lower [simp]: "is_ws (lower_char c) = is_ws c"
  by (cases c) (auto simp: is_ws_def text_simps)

lemma split_ws_go_nonempty: "t \<in> set (split_ws_go cur s) \<Longrightarrow> t \<noteq> []"
  by (induction cur s rule: split_ws_go.induct) (auto split: if_splits)

lemma split_whitespace_nonempty: "t \<in> set (split_whitespace s) \<Longrightarrow> t \<noteq> []"
  by (simp add: split_whitespace_def split_ws_go_nonempty)

end
