(* ===== verification/Risk_Level.thy ===== *)
theory Risk_Level
  imports Rust_Text
begin

text \<open>
  Severities (\<open>types.rs\<close>, \<open>RiskLevel\<close>) and the three places where two of them are combined:
  \<open>max_severity\<close>, the user rules that may only escalate (\<open>risk_config.rs\<close>) and the trusted
  override of a host or playbook (\<open>core.rs\<close>). The linear order of the type class library is the
  order of \<open>rank\<close>, so that \<open>max_severity\<close> is \<open>max\<close> and the order automation applies.
\<close>

datatype risk_level = Low | Medium | High | Blocked

fun rank :: "risk_level \<Rightarrow> nat" where
  "rank Low = 0"
| "rank Medium = 1"
| "rank High = 2"
| "rank Blocked = 3"

definition max_severity :: "risk_level \<Rightarrow> risk_level \<Rightarrow> risk_level" where
  "max_severity a b = (if rank a \<ge> rank b then a else b)"

lemma rank_inj [simp]: "rank a = rank b \<longleftrightarrow> a = b"
  by (cases a; cases b) simp_all

instantiation risk_level :: linorder
begin

definition less_eq_risk_level :: "risk_level \<Rightarrow> risk_level \<Rightarrow> bool" where
  "less_eq_risk_level a b \<longleftrightarrow> rank a \<le> rank b"

definition less_risk_level :: "risk_level \<Rightarrow> risk_level \<Rightarrow> bool" where
  "less_risk_level a b \<longleftrightarrow> rank a < rank b"

instance
  by standard (auto simp: less_eq_risk_level_def less_risk_level_def)

end

text \<open>\<open>approval.rs\<close> keeps a second copy of the ranking for policy comparisons.\<close>

fun risk_ordinal :: "risk_level \<Rightarrow> nat" where
  "risk_ordinal Low = 0"
| "risk_ordinal Medium = 1"
| "risk_ordinal High = 2"
| "risk_ordinal Blocked = 3"

definition merge_user_risk :: "risk_level \<Rightarrow> risk_level \<Rightarrow> risk_level" where
  "merge_user_risk built_in user_risk = max_severity built_in user_risk"

definition apply_risk_override :: "risk_level \<Rightarrow> risk_level option \<Rightarrow> risk_level" where
  "apply_risk_override classified override_level =
     (if classified = Blocked then Blocked
      else case override_level of None \<Rightarrow> classified | Some r \<Rightarrow> r)"

fun display_risk :: "risk_level \<Rightarrow> str" where
  "display_risk Low = ''low''"
| "display_risk Medium = ''medium''"
| "display_risk High = ''high''"
| "display_risk Blocked = ''blocked''"

section \<open>Facts\<close>

lemma max_severity_max [sev_simps]: "max_severity a b = max a b"
  by (simp add: max_severity_def max_def less_eq_risk_level_def)

lemma risk_ordinal_le [sev_simps]: "risk_ordinal a \<le> risk_ordinal b \<longleftrightarrow> a \<le> b"
  by (cases a; cases b) (simp_all add: less_eq_risk_level_def)

lemma risk_ordinal_less [sev_simps]: "risk_ordinal a < risk_ordinal b \<longleftrightarrow> a < b"
  by (cases a; cases b) (simp_all add: less_risk_level_def)

lemma risk_bounds [simp]: "Low \<le> r" "r \<le> Blocked"
  by (cases r; simp add: less_eq_risk_level_def)+

lemma risk_le_iff [simp]:
  "Blocked \<le> r \<longleftrightarrow> r = Blocked" "r \<le> Low \<longleftrightarrow> r = Low" "\<not> r < Low" "\<not> Blocked < r"
  by (cases r; simp add: less_eq_risk_level_def less_risk_level_def)+

lemma risk_less_simps [simp]:
  "Low < Medium" "Low < High" "Low < Blocked" "Medium < High" "Medium < Blocked" "High < Blocked"
  "Medium \<le> High" "\<not> High \<le> Medium"
  by (simp_all add: less_risk_level_def less_eq_risk_level_def)

lemma max_Low [simp]: "max Low r = r" "max r Low = r"
  by (simp_all add: max_def)

lemma max_Blocked [simp]: "max Blocked r = Blocked" "max r Blocked = Blocked"
  by (simp_all add: max_def)

lemma risk_level_cases_le: "r \<noteq> Blocked \<longleftrightarrow> r \<le> High"
  by (cases r) (simp_all add: less_eq_risk_level_def)

lemma apply_risk_override_Blocked [simp]: "apply_risk_override Blocked ov = Blocked"
  by (simp add: apply_risk_override_def)

lemma apply_risk_override_None [simp]: "apply_risk_override r None = r"
  by (simp add: apply_risk_override_def)

lemma merge_user_risk_ge [sev_simps]: "merge_user_risk b u = max b u"
  by (simp add: merge_user_risk_def sev_simps)

end
