(* ===== verification/Shell_Words.thy ===== *)
theory Shell_Words
  imports Rust_Text
begin

text \<open>
  The word and path helpers of \<open>risk_extra.rs\<close>: the POSIX word splitter, option splitting, path
  normalisation and quoting. \<open>words_go\<close> is the loop of \<open>shell_words\<close> over the rest of the input
  with its two variables \<open>current\<close> and \<open>in_word\<close>; the words it pushes come out in front.
\<close>

section \<open>Splitting into words\<close>

text \<open>The inner loop for a double-quoted part: the characters pushed and the input left.\<close>

fun dq_run :: "str \<Rightarrow> str \<times> str" where
  "dq_run [] = ([], [])"
| "dq_run (q # qs) =
     (if q = dquote then ([], qs)
      else if q = bslash then
        (case qs of
           [] \<Rightarrow> ([bslash], [])
         | n # r \<Rightarrow>
             if n \<in> {dquote, bslash, CHR ''$'', CHR 0x60}
             then (case dq_run r of (p, rest) \<Rightarrow> (n # p, rest))
             else (case dq_run qs of (p, rest) \<Rightarrow> (bslash # p, rest)))
      else (case dq_run qs of (p, rest) \<Rightarrow> (q # p, rest)))"

lemma dq_run_length: "length (snd (dq_run s)) \<le> length s"
proof (induction s rule: dq_run.induct)
  case (2 q qs)
  consider "q = dquote" | "q = bslash" "qs = []"
    | n r where "q = bslash" "qs = n # r" | "q \<noteq> dquote" "q \<noteq> bslash"
    by (cases qs) auto
  then show ?case
  proof cases
    case 3
    then show ?thesis
      using "2.IH"(1) [of n r] "2.IH"(2) [of n r]
      by (cases "n \<in> {dquote, bslash, CHR ''$'', CHR 0x60}")
         (simp_all add: case_prod_beta)
  next
    case 4
    then show ?thesis using "2.IH"(3) by (simp add: case_prod_beta)
  qed simp_all
qed simp

function words_go :: "str \<Rightarrow> bool \<Rightarrow> str \<Rightarrow> str list" where
  "words_go current in_word [] = (if in_word then [current] else [])"
| "words_go current in_word (c # s) =
     (if c = squote then
        words_go (current @ takeWhile (\<lambda>q. q \<noteq> squote) s) True
          (drop 1 (dropWhile (\<lambda>q. q \<noteq> squote) s))
      else if c = dquote then words_go (current @ fst (dq_run s)) True (snd (dq_run s))
      else if c = bslash then
        (case s of [] \<Rightarrow> words_go current True [] | n # r \<Rightarrow> words_go (current @ [n]) True r)
      else if is_ws c then
        (if in_word then current # words_go [] False s else words_go current False s)
      else words_go (current @ [c]) True s)"
  by pat_completeness auto
termination
proof (relation "measure (\<lambda>(cur, w, s). length s)", goal_cases)
  case (2 current in_word c s)
  have "length (drop 1 (dropWhile (\<lambda>q. q \<noteq> squote) s)) \<le> length s"
    by (metis diff_le_self le_trans length_drop length_dropWhile_le)
  then show ?case by simp
next
  case (3 current in_word c s)
  then show ?case using dq_run_length [of s] by simp
qed auto

definition shell_words :: "str \<Rightarrow> str list" where
  "shell_words input = words_go [] False input"

section \<open>Options\<close>

record options =
  short :: str
  long :: "str list"
  positional :: "str list"

fun split_options_go :: "options \<Rightarrow> bool \<Rightarrow> str list \<Rightarrow> options" where
  "split_options_go opts only_positional [] = opts"
| "split_options_go opts only_positional (arg # args) =
     (if only_positional \<or> \<not> starts_with arg ''-'' \<or> arg = ''-'' then
        split_options_go (opts\<lparr>positional := positional opts @ [arg]\<rparr>) only_positional args
      else if arg = ''--'' then split_options_go opts True args
      else case strip_prefix arg ''--'' of
        Some l \<Rightarrow>
          split_options_go (opts\<lparr>long := long opts @ [hd (split_char (CHR ''='') l)]\<rparr>)
            only_positional args
      | None \<Rightarrow> split_options_go (opts\<lparr>short := short opts @ drop 1 arg\<rparr>) only_positional args)"

definition split_options :: "str list \<Rightarrow> options" where
  "split_options args = split_options_go \<lparr>short = [], long = [], positional = []\<rparr> False args"

section \<open>Paths and names\<close>

function strip_trailing_slashes :: "str \<Rightarrow> str" where
  "strip_trailing_slashes p =
     (if length p > 1 \<and> ends_with p ''/'' then strip_trailing_slashes (butlast p) else p)"
  by pat_completeness auto
termination by (relation "measure length") auto

declare strip_trailing_slashes.simps [simp del]

definition normalize_path :: "str \<Rightarrow> str" where
  "normalize_path path =
     (let p = strip_trailing_slashes (to_lowercase (trim path))
      in if p \<noteq> [] \<and> list_all (\<lambda>c. c = CHR ''/'') p then ''/'' else p)"

definition is_root_target :: "str \<Rightarrow> bool" where
  "is_root_target path \<longleftrightarrow>
     normalize_path path \<in> {''/'', ''/*'', ''/.'', ''/..'', ''/.*'', ''/./'', ''/../''}"

definition PROTECTED_DIRS :: "str list" where
  "PROTECTED_DIRS =
     [''/bin'', ''/boot'', ''/etc'', ''/home'', ''/lib'', ''/lib64'', ''/root'', ''/sbin'',
      ''/usr'', ''/var'']"

definition is_protected_target :: "str \<Rightarrow> bool" where
  "is_protected_target path \<longleftrightarrow>
     (let p = normalize_path path;
          q = (case strip_suffix p ''/*'' of Some r \<Rightarrow> r | None \<Rightarrow> p)
      in q \<in> set PROTECTED_DIRS \<or> is_root_target path)"

definition SYSTEM_WRITE_PREFIXES :: "str list" where
  "SYSTEM_WRITE_PREFIXES =
     [''/etc/'', ''/boot/'', ''/proc/'', ''/sys/'', ''/usr/'', ''/bin/'', ''/sbin/'', ''/lib/'',
      ''/lib64/'']"

definition is_system_destination :: "str \<Rightarrow> bool" where
  "is_system_destination path \<longleftrightarrow>
     (let p = to_lowercase path
      in list_ex (starts_with p) SYSTEM_WRITE_PREFIXES \<or> ends_with p ''authorized_keys'')"

definition BLOCK_DEVICE_PREFIXES :: "str list" where
  "BLOCK_DEVICE_PREFIXES =
     [''/dev/sd'', ''/dev/hd'', ''/dev/vd'', ''/dev/xvd'', ''/dev/nvme'', ''/dev/disk'',
      ''/dev/md'', ''/dev/mapper'', ''/dev/dm-'', ''/dev/loop'', ''/dev/mmcblk'']"

definition is_block_device :: "str \<Rightarrow> bool" where
  "is_block_device path \<longleftrightarrow> list_ex (starts_with (to_lowercase path)) BLOCK_DEVICE_PREFIXES"

definition name_matches :: "str \<Rightarrow> str \<Rightarrow> bool" where
  "name_matches word head \<longleftrightarrow>
     (let base = to_lowercase (last (split_char (CHR ''/'') word))
      in base = head \<or> base = CHR ''g'' # head)"

definition is_assignment :: "str \<Rightarrow> bool" where
  "is_assignment word \<longleftrightarrow>
     CHR ''='' \<in> set word \<and>
     (let name = takeWhile (\<lambda>c. c \<noteq> CHR ''='') word
      in name \<noteq> [] \<and> \<not> is_ascii_digit (hd name) \<and>
         list_all (\<lambda>c. is_ascii_alphanumeric c \<or> c = CHR ''_'') name)"

section \<open>Quoting\<close>

definition quote_safe :: "char \<Rightarrow> bool" where
  "quote_safe c \<longleftrightarrow> is_ascii_alphanumeric c \<or> c \<in> set ''-_./=:,@%+''"

definition escape_squotes :: "str \<Rightarrow> str" where
  "escape_squotes w =
     concat (map (\<lambda>c. if c = squote then [squote, bslash, squote, squote] else [c]) w)"

definition shell_quote :: "str \<Rightarrow> str" where
  "shell_quote word =
     (if word \<noteq> [] \<and> list_all quote_safe word then word
      else squote # escape_squotes word @ [squote])"

section \<open>Quoting and splitting are inverse\<close>

lemma quote_safe_plain:
  "quote_safe c \<Longrightarrow> c \<noteq> squote \<and> c \<noteq> dquote \<and> c \<noteq> bslash \<and> \<not> is_ws c"
  by (cases c) (auto simp: quote_safe_def is_ascii_alphanumeric_def text_simps is_ws_def)

lemma words_go_safe:
  "list_all quote_safe w \<Longrightarrow> words_go cur True (w @ s) = words_go (cur @ w) True s"
proof (induction w arbitrary: cur)
  case Nil
  then show ?case by simp
next
  case (Cons c w)
  then have "c \<noteq> squote \<and> c \<noteq> dquote \<and> c \<noteq> bslash \<and> \<not> is_ws c" "list_all quote_safe w"
    by (auto dest: quote_safe_plain)
  with Cons.IH show ?case by simp
qed

lemma words_go_escaped:
  "words_go cur b (squote # escape_squotes w @ squote # s) = words_go (cur @ w) True s"
proof (induction w arbitrary: cur b)
  case Nil
  then show ?case by (simp add: escape_squotes_def)
next
  case (Cons c w)
  show ?case
  proof (cases "c = squote")
    case True
    with Cons [of "cur @ [squote]" True] show ?thesis
      by (simp add: escape_squotes_def)
  next
    case False
    have "words_go cur b (squote # escape_squotes (c # w) @ squote # s) =
          words_go (cur @ [c]) b (squote # escape_squotes w @ squote # s)"
      using False by (simp add: escape_squotes_def)
    also have "\<dots> = words_go (cur @ c # w) True s"
      using Cons [of "cur @ [c]" b] by simp
    finally show ?thesis .
  qed
qed

lemma words_go_quoted: "words_go cur b (shell_quote w @ s) = words_go (cur @ w) True s"
proof (cases "w \<noteq> [] \<and> list_all quote_safe w")
  case True
  then obtain c w' where w: "w = c # w'" by (cases w) auto
  with True have "words_go cur b (w @ s) = words_go (cur @ [c]) True (w' @ s)"
    by (auto dest: quote_safe_plain)
  also have "\<dots> = words_go (cur @ w) True s"
    using True w by (simp add: words_go_safe)
  finally show ?thesis using True by (simp add: shell_quote_def)
next
  case False
  then show ?thesis using words_go_escaped [of cur b w s] by (auto simp: shell_quote_def)
qed

lemma words_go_space: "words_go cur True (CHR '' '' # s) = cur # words_go [] False s"
  by (simp add: is_ws_def)

text \<open>Rebuilding a command line from its words and splitting it again gives the
  words back, so the \<open>find -exec\<close> body that is classified is the one that would run.\<close>

theorem shell_quote_roundtrip:
  "shell_words (join '' '' (map shell_quote ws)) = ws"
proof (induction ws rule: induct_list012)
  case 1
  then show ?case by (simp add: shell_words_def)
next
  case (2 w)
  then show ?case using words_go_quoted [of "[]" False w "[]"] by (simp add: shell_words_def)
next
  case (3 w v ws)
  then show ?case
    by (simp add: shell_words_def words_go_quoted words_go_space del: words_go.simps)
qed

end
