(* ===== verification/Syntax_Tree.thy ===== *)
theory Syntax_Tree
  imports Rust_Text
begin

text \<open>
  The interface to the bash parser. tree-sitter and its bash grammar are third-party code: the
  sources see a parse as a tree of nodes with a kind, two error flags, a byte range and children
  that may carry a field name. The parser itself is a parameter \<open>parse :: str \<Rightarrow> ts_node option\<close> of
  every definition that parses; \<open>None\<close> stands for both ways of getting no tree (the grammar cannot
  be loaded, \<open>Parser::parse\<close> returns nothing), which the sources treat alike.
\<close>

datatype ts_node =
  TsNode (kind: str) (is_error: bool) (is_missing: bool) (start_byte: nat) (end_byte: nat)
    (fields: "(str option \<times> ts_node) list")

type_synonym parser = "str \<Rightarrow> ts_node option"

definition children :: "ts_node \<Rightarrow> ts_node list" where
  "children n = map snd (fields n)"

lemma children_size [simp, termination_simp]: "c \<in> set (children n) \<Longrightarrow> size c < size n"
proof -
  assume "c \<in> set (children n)"
  then obtain f where f: "(f, c) \<in> set (fields n)" by (auto simp: children_def)
  then have "size c < size_list (size_prod (\<lambda>_. 0) size) (fields n)"
    by (induction "fields n" arbitrary: n)
       (force simp: size_list_estimation less_Suc_eq_le elim: size_list_estimation)+
  then show ?thesis by (cases n) simp
qed

definition child_by_field_name :: "ts_node \<Rightarrow> str \<Rightarrow> ts_node option" where
  "child_by_field_name n f = map_option snd (List.find (\<lambda>x. fst x = Some f) (fields n))"

text \<open>
  \<open>Node::utf8_text\<close>: slicing the source with a range outside it panics (the outer \<open>None\<close>); a range
  that cuts a character in two gives an \<open>Err\<close> (the inner \<open>None\<close>).
\<close>

definition utf8_text :: "str \<Rightarrow> ts_node \<Rightarrow> str option option" where
  "utf8_text src n =
     (let s = start_byte n; e = end_byte n
      in if e < s \<or> length src < e then None
         else if is_char_boundary src s \<and> is_char_boundary src e
         then Some (Some (take (e - s) (drop s src)))
         else Some None)"

text \<open>
  What the parser guarantees of a tree for \<open>src\<close>: byte ranges are ordered and inside the source, and
  a quoted token is closed (it is not a lone opening quote).
\<close>

definition token_closed :: "str \<Rightarrow> bool" where
  "token_closed s \<longleftrightarrow> s \<noteq> [squote] \<and> s \<noteq> [CHR ''$'', squote]"

fun tree_wf :: "str \<Rightarrow> ts_node \<Rightarrow> bool" where
  "tree_wf src n \<longleftrightarrow>
     start_byte n \<le> end_byte n \<and> end_byte n \<le> length src \<and>
     token_closed (take (end_byte n - start_byte n) (drop (start_byte n) src)) \<and>
     (\<forall>c \<in> set (children n). tree_wf src c)"

declare tree_wf.simps [simp del]

lemma tree_wf_child: "tree_wf src n \<Longrightarrow> c \<in> set (children n) \<Longrightarrow> tree_wf src c"
  by (subst (asm) tree_wf.simps) blast

lemma utf8_text_total [panic_free]:
  "tree_wf src n \<Longrightarrow> \<exists>t. utf8_text src n = Some t"
  by (subst (asm) tree_wf.simps) (auto simp: utf8_text_def Let_def)

lemma utf8_text_closed:
  "tree_wf src n \<Longrightarrow> utf8_text src n = Some (Some t) \<Longrightarrow> token_closed t"
  by (subst (asm) tree_wf.simps) (auto simp: utf8_text_def Let_def split: if_splits)

lemma utf8_text_ascii:
  "list_all is_ascii src \<Longrightarrow> utf8_text src n = Some (Some t) \<Longrightarrow> list_all is_ascii t"
  by (auto simp: utf8_text_def Let_def list_all_iff split: if_splits
      dest!: in_set_takeD in_set_dropD)

lemma child_by_field_name_child:
  "child_by_field_name n f = Some c \<Longrightarrow> c \<in> set (children n)"
  by (auto simp: child_by_field_name_def children_def find_Some_iff)
     (metis image_eqI nth_mem snd_conv)

lemma children_TsNode [simp]: "children (TsNode k e m s t fs) = map snd fs"
  by (simp add: children_def)

end
