(* ===== verification/Sanitize.thy ===== *)
theory Sanitize
  imports Syntax_Tree
begin

text \<open>
  \<open>sanitize.rs\<close>, first half: from a parse tree to the words of a command and its canonical head.

  \<open>words_of_command\<close> is \<open>collect_command_words\<close>; \<open>strip_wrappers\<close> is the loop of
  \<open>extract_head_from_command\<close>, with the index into \<open>words\<close> replaced by the list of words from that
  index on (\<open>idx += 2\<close> past the end is \<open>drop\<close>); \<open>normalize_name\<close> maps aliases and strips the path.
\<close>

section \<open>Decoding quoted tokens\<close>

text \<open>\<open>decode_ansi_c_escapes\<close>: the loop over the characters between the quotes.\<close>

fun decode_chars :: "str list \<Rightarrow> str" where
  "decode_chars [] = []"
| "decode_chars (c # cs) =
     (if c = [bslash] then
        (case cs of
           [] \<Rightarrow> [bslash]
         | e # rest \<Rightarrow>
             if e \<in> {''x'', ''u'', ''U''} then
               (let hex_len = (if e = ''x'' then 2 else if e = ''u'' then 4 else 8);
                    hex = concat (take hex_len rest);
                    out = (case from_str_radix 32 16 hex of
                             None \<Rightarrow> []
                           | Some code \<Rightarrow>
                               (case char_from_u32 code of None \<Rightarrow> [] | Some ch \<Rightarrow> ch))
                in out @ decode_chars (drop hex_len rest))
             else if e = ''n'' then newline # decode_chars rest
             else if e = ''t'' then CHR 0x09 # decode_chars rest
             else if e = ''r'' then CHR 0x0D # decode_chars rest
             else if e = [bslash] then bslash # decode_chars rest
             else if e = [squote] then squote # decode_chars rest
             else if e = [dquote] then dquote # decode_chars rest
             else bslash # e @ decode_chars rest)
      else c @ decode_chars cs)"

text \<open>\<open>&s[2..s.len() - 1]\<close> panics on \<open>$'\<close> alone and \<open>&s[1..s.len() - 1]\<close> on a lone quote.\<close>

definition decode_ansi_c_escapes :: "str \<Rightarrow> str option" where
  "decode_ansi_c_escapes s =
     (if starts_with s [CHR ''$'', squote] \<and> ends_with s [squote]
      then map_option (\<lambda>inner. decode_chars (chars inner)) (slice s 2 (length s - 1))
      else if starts_with s [squote] \<and> ends_with s [squote]
      then map_option (\<lambda>inner. decode_chars (chars inner)) (slice s 1 (length s - 1))
      else Some s)"

definition strip_quotes :: "str \<Rightarrow> str" where
  "strip_quotes s =
     (if starts_with s [dquote] \<and> ends_with s [dquote] \<and> length s \<ge> 2 \<or>
         starts_with s [squote] \<and> ends_with s [squote] \<and> length s \<ge> 2
      then take (length s - 2) (drop 1 s) else s)"

text \<open>The loop of \<open>extract_concatenation_text\<close> stops at the first child that is not word-like.\<close>

fun concatenation_parts :: "str \<Rightarrow> ts_node list \<Rightarrow> str option" where
  "concatenation_parts src [] = Some []"
| "concatenation_parts src (c # cs) =
     (if kind c \<in> {''word'', ''raw_string'', ''string''} then
        do { t \<leftarrow> utf8_text src c;
             d \<leftarrow> (case t of None \<Rightarrow> Some [] | Some s \<Rightarrow> decode_ansi_c_escapes s);
             rest \<leftarrow> concatenation_parts src cs;
             Some (d @ rest) }
      else Some [])"

definition extract_concatenation_text :: "str \<Rightarrow> ts_node \<Rightarrow> str option option" where
  "extract_concatenation_text src n =
     map_option (\<lambda>r. if r = [] then None else Some r) (concatenation_parts src (children n))"

section \<open>The words of a command node\<close>

fun first_token :: "str \<Rightarrow> ts_node list \<Rightarrow> str option option" where
  "first_token src [] = Some None"
| "first_token src (c # cs) =
     (if kind c = ''word'' then utf8_text src c
      else if kind c \<in> {''raw_string'', ''ansi_c_string''} then
        do { t \<leftarrow> utf8_text src c;
             case t of None \<Rightarrow> Some None | Some s \<Rightarrow> map_option Some (decode_ansi_c_escapes s) }
      else if kind c = ''string'' then map_option (map_option strip_quotes) (utf8_text src c)
      else if kind c = ''concatenation'' then extract_concatenation_text src c
      else first_token src cs)"

definition extract_token_text :: "str \<Rightarrow> ts_node \<Rightarrow> str option option" where
  "extract_token_text src n = first_token src (children n)"

definition opt_list :: "'a option \<Rightarrow> 'a list" where
  "opt_list x = (case x of None \<Rightarrow> [] | Some y \<Rightarrow> [y])"

definition word_of_child :: "str \<Rightarrow> ts_node \<Rightarrow> str list option" where
  "word_of_child src c =
     (if kind c = ''command_name'' then map_option opt_list (extract_token_text src c)
      else if kind c \<in> {''word'', ''number''} then map_option opt_list (utf8_text src c)
      else if kind c = ''raw_string'' then
        do { t \<leftarrow> utf8_text src c;
             case t of None \<Rightarrow> Some [] | Some s \<Rightarrow> map_option (\<lambda>d. [d]) (decode_ansi_c_escapes s) }
      else if kind c = ''string'' then
        map_option (\<lambda>t. opt_list (map_option strip_quotes t)) (utf8_text src c)
      else if kind c = ''concatenation'' then map_option opt_list (extract_concatenation_text src c)
      else Some [])"

definition words_of_command :: "str \<Rightarrow> ts_node \<Rightarrow> str list option" where
  "words_of_command src n = concatM (word_of_child src) (children n)"

section \<open>Names\<close>

definition WRAPPERS :: "str list" where
  "WRAPPERS =
     [''sudo'', ''env'', ''timeout'', ''nohup'', ''doas'', ''su'', ''pkexec'', ''nice'', ''ionice'',
      ''stdbuf'', ''time'', ''command'', ''builtin'', bslash # ''source'', ''.'', ''xargs'',
      ''setsid'', ''flock'', ''exec'', ''strace'', ''ltrace'', ''chrt'', ''taskset'', ''chroot'',
      ''unshare'', ''fakeroot'', ''eatmydata'']"

definition POSITIONAL_WRAPPERS :: "str list" where
  "POSITIONAL_WRAPPERS = [''flock'', ''chroot'', ''unshare'']"

definition wrapper_value_flags :: "str \<Rightarrow> str list" where
  "wrapper_value_flags w =
     (if w = ''nice'' then [''-n'', ''--adjustment'']
      else if w = ''ionice'' then [''-c'', ''-n'', ''-p'', ''--class'', ''--classdata'', ''--pid'']
      else if w = ''stdbuf'' then [''-i'', ''-o'', ''-e'', ''--input'', ''--output'', ''--error'']
      else if w = ''chrt'' then [''-p'', ''-m'', ''--pid'', ''--max'']
      else if w = ''taskset'' then [''-c'', ''-p'', ''--cpu-list'', ''--pid'']
      else if w = ''flock'' then
        [''-w'', ''-W'', ''-E'', ''-c'', ''--wait'', ''--conflict-exit-code'', ''--command'']
      else if w = ''strace'' \<or> w = ''ltrace'' then
        [''-o'', ''-e'', ''-p'', ''-s'', ''-S'', ''--output'', ''--expr'', ''--pid'',
         ''--string-limit'', ''--summary'']
      else if w = ''xargs'' then
        [''-I'', ''-P'', ''-L'', ''-n'', ''-s'', ''-t'', ''-r'', ''--replace'', ''--max-procs'',
         ''--max-lines'', ''--max-args'', ''--max-chars'', ''--arg-file'', ''-a'']
      else if w = ''setsid'' then [''-w'', ''--wait'']
      else if w = ''unshare'' then [''-r'', ''-R'', ''--root'', ''--mount-proc'']
      else [])"

definition BREW_PREFIXES :: "(str \<times> str) list" where
  "BREW_PREFIXES =
     [(''gcp'', ''cp''), (''gmv'', ''mv''), (''grm'', ''rm''), (''gls'', ''ls''),
      (''gcat'', ''cat''), (''ghead'', ''head''), (''gtail'', ''tail''), (''gchmod'', ''chmod''),
      (''gchown'', ''chown''), (''gmkdir'', ''mkdir''), (''grmdir'', ''rmdir''), (''gdd'', ''dd''),
      (''gtruncate'', ''truncate''), (''gstat'', ''stat''), (''gwc'', ''wc''),
      (''gsort'', ''sort''), (''guniq'', ''uniq''), (''gcut'', ''cut''), (''gpaste'', ''paste''),
      (''gtr'', ''tr''), (''gtee'', ''tee''), (''gfind'', ''find''), (''gxargs'', ''xargs''),
      (''grealpath'', ''realpath''), (''greadlink'', ''readlink''),
      (''gbasename'', ''basename''), (''gdirname'', ''dirname''), (''gmktemp'', ''mktemp''),
      (''gdu'', ''du''), (''gdf'', ''df''), (''gln'', ''ln''), (''gtouch'', ''touch''),
      (''guptime'', ''uptime''), (''gwhoami'', ''whoami''), (''gid'', ''id''),
      (''ggroups'', ''groups''), (''gdate'', ''date''), (''ghostname'', ''hostname''),
      (''garch'', ''arch''), (''gnproc'', ''nproc''), (''gexpr'', ''expr''),
      (''gfactor'', ''factor''), (''gseq'', ''seq''), (''gshuf'', ''shuf'')]"

definition AWK_VARIANTS :: "str list" where
  "AWK_VARIANTS = [''gawk'', ''mawk'', ''nawk'']"

definition basename :: "str \<Rightarrow> str" where
  "basename s = last (split_char (CHR ''/'') s)"

definition normalize_name :: "str \<Rightarrow> str" where
  "normalize_name name =
     (let lower = to_lowercase name
      in if lower \<in> set AWK_VARIANTS then ''awk''
         else case map_of BREW_PREFIXES lower of
           Some canonical \<Rightarrow> canonical
         | None \<Rightarrow> basename lower)"

section \<open>Stripping wrappers\<close>

text \<open>
  The flag loops. \<open>skip_flags\<close> is shared by \<open>sudo\<close>, \<open>doas\<close>, \<open>env\<close> and, with a positional argument
  still to skip, by the generic branch.
\<close>

fun skip_flags :: "str list \<Rightarrow> bool \<Rightarrow> str list \<Rightarrow> str list" where
  "skip_flags value_flags positional [] = []"
| "skip_flags value_flags positional (w # ws) =
     (if starts_with w ''-'' then
        (if CHR ''='' \<in> set w then skip_flags value_flags positional ws
         else if w \<in> set value_flags then skip_flags value_flags positional (drop 1 ws)
         else skip_flags value_flags positional ws)
      else if positional then skip_flags value_flags False ws
      else w # ws)"

fun skip_timeout :: "bool \<Rightarrow> str list \<Rightarrow> str list" where
  "skip_timeout skipped_duration [] = []"
| "skip_timeout skipped_duration (w # ws) =
     (if starts_with w ''-'' then skip_timeout skipped_duration ws
      else if \<not> skipped_duration then skip_timeout True ws
      else w # ws)"

definition first_word :: "str \<Rightarrow> str" where
  "first_word v = (case split_whitespace v of [] \<Rightarrow> [] | t # _ \<Rightarrow> t)"

text \<open>\<open>su\<close>: only the value of \<open>-c\<close> is a command; its first word replaces the token.\<close>

fun skip_su :: "str list \<Rightarrow> str list" where
  "skip_su [] = []"
| "skip_su (w # ws) =
     (if starts_with w ''-'' then
        (case strip_prefix w ''--command='' of
           Some v \<Rightarrow> first_word v # ws
         | None \<Rightarrow>
             if starts_with w ''-c='' then first_word (drop 3 w) # ws
             else if CHR ''='' \<in> set w then skip_su ws
             else if w = ''-c'' \<or> w = ''--command'' then
               (case ws of [] \<Rightarrow> [] | v # vs \<Rightarrow> first_word v # vs)
             else skip_su ws)
      else skip_su ws)"

definition sudo_value_flags :: "str list" where
  "sudo_value_flags =
     [''-u'', ''--user'', ''-g'', ''--group'', ''-C'', ''--close-from'', ''-D'', ''--chdir'',
      ''-R'', ''-T'', ''-P'']"

definition skip_wrapper :: "str \<Rightarrow> str list \<Rightarrow> str list" where
  "skip_wrapper w ws =
     (if w = ''timeout'' then skip_timeout False ws
      else if w = ''sudo'' then skip_flags sudo_value_flags False ws
      else if w = ''doas'' then skip_flags [''-u'', ''--user''] False ws
      else if w = ''su'' then skip_su ws
      else if w = ''env'' then
        dropWhile (\<lambda>t. starts_with t ''-'')
          (dropWhile (\<lambda>t. CHR ''='' \<in> set t) (skip_flags [''-u'', ''--unset''] False ws))
      else skip_flags (wrapper_value_flags w) (w \<in> set POSITIONAL_WRAPPERS) ws)"

lemma length_skip_flags: "length (skip_flags vf p ws) \<le> length ws"
proof (induction vf p ws rule: skip_flags.induct)
  case (2 vf p w ws)
  then show ?case
    by (cases "starts_with w ''-''"; cases "CHR ''='' \<in> set w"; cases "w \<in> set vf"; cases p)
       simp_all
qed simp

lemma length_skip_timeout: "length (skip_timeout d ws) \<le> length ws"
  by (induction d ws rule: skip_timeout.induct) auto

lemma length_skip_su: "length (skip_su ws) \<le> length ws"
proof (induction ws rule: skip_su.induct)
  case (2 w ws)
  then show ?case
    by (cases "starts_with w ''-''"; cases "strip_prefix w ''--command=''";
        cases "starts_with w ''-c=''"; cases "CHR ''='' \<in> set w";
        cases "w = ''-c'' \<or> w = ''--command''"; cases ws) simp_all
qed simp

lemma length_skip_wrapper: "length (skip_wrapper w ws) \<le> length ws"
  by (auto simp: skip_wrapper_def length_skip_flags length_skip_timeout length_skip_su
      intro!: order_trans [OF length_dropWhile_le] length_skip_flags)

function strip_wrappers :: "str \<Rightarrow> str list \<Rightarrow> str" where
  "strip_wrappers head rest =
     (if to_lowercase head \<in> set WRAPPERS then
        (case skip_wrapper (to_lowercase head) rest of
           [] \<Rightarrow> normalize_name head
         | h # t \<Rightarrow> strip_wrappers h t)
      else normalize_name head)"
  by pat_completeness auto
termination
proof (relation "measure (\<lambda>(h, r). length r)")
  fix head :: str and rest h t
  assume "skip_wrapper (to_lowercase head) rest = h # t"
  then show "((h, t), (head, rest)) \<in> measure (\<lambda>(h, r). length r)"
    using length_skip_wrapper [of "to_lowercase head" rest] by simp
qed simp

declare strip_wrappers.simps [simp del]

definition head_of_words :: "str list \<Rightarrow> str option" where
  "head_of_words words = (case words of [] \<Rightarrow> None | h # t \<Rightarrow> Some (strip_wrappers h t))"

definition extract_head_from_command :: "str \<Rightarrow> ts_node \<Rightarrow> str option option" where
  "extract_head_from_command src n = map_option head_of_words (words_of_command src n)"

fun find_first_node_of_type :: "str \<Rightarrow> ts_node \<Rightarrow> ts_node option" where
  "find_first_node_of_type ty n =
     (if kind n = ty then Some n
      else find_map (find_first_node_of_type ty) (children n))"

declare find_first_node_of_type.simps [simp del]

definition find_first_command_head :: "str \<Rightarrow> ts_node \<Rightarrow> str option option" where
  "find_first_command_head src root =
     (case find_first_node_of_type ''command'' root of
        None \<Rightarrow> Some None
      | Some n \<Rightarrow> extract_head_from_command src n)"

fun has_errors :: "ts_node \<Rightarrow> bool" where
  "has_errors n \<longleftrightarrow> is_error n \<or> is_missing n \<or> list_ex has_errors (children n)"

declare has_errors.simps [simp del]

end
