(* ===== verification/Sanitize_Shapes.thy ===== *)
theory Sanitize_Shapes
  imports Sanitize
begin

text \<open>
  \<open>sanitize.rs\<close>, second half: redirect detection, the per-command shape rules, \<open>analyze_command\<close>
  and \<open>split_commands\<close>. The warnings are the texts the code pushes, in its order. The only place
  here that can panic beyond reading the tree is \<open>check_interpreter_shape\<close>, which cuts a preview
  of the inline code with \<open>&s[..60]\<close>.
\<close>

datatype shape_risk = Interactive | UnboundedLoop

record command_analysis =
  canonical_head :: "str option"
  had_parse_errors :: bool
  redirect_warnings :: "str list"
  shape_warnings :: "str list"
  shape :: "shape_risk option"

section \<open>Splitting a chain into its commands\<close>

fun collect_command_ranges :: "ts_node \<Rightarrow> (nat \<times> nat) list" where
  "collect_command_ranges n =
     (if kind n = ''command'' then [(start_byte n, end_byte n)] else []) @
     concat (map collect_command_ranges (children n))"

declare collect_command_ranges.simps [simp del]

text \<open>\<open>command[start..end]\<close> panics outside the string; \<open>None\<close> is that panic.\<close>

definition split_commands :: "parser \<Rightarrow> str \<Rightarrow> str list option" where
  "split_commands parse command =
     (case parse command of
        None \<Rightarrow> Some [command]
      | Some root \<Rightarrow>
          (let ranges = collect_command_ranges root
           in if ranges = [] then Some [command]
              else mapM (\<lambda>(s, e). slice command s e) ranges))"

section \<open>Redirects\<close>

definition redirect_warning :: "str \<Rightarrow> str" where
  "redirect_warning dest =
     ''redirect to '' @ [squote] @ dest @ [squote] @
     '' (file write bypasses patch_file; only /dev/null is allowed)''"

definition check_one_file_redirect :: "str \<Rightarrow> ts_node \<Rightarrow> str list option" where
  "check_one_file_redirect src r =
     do { r_text \<leftarrow> utf8_text src r;
          case r_text of
            None \<Rightarrow> Some []
          | Some t \<Rightarrow>
              if CHR ''>'' \<notin> set t then Some []
              else case child_by_field_name r ''destination'' of
                None \<Rightarrow> Some []
              | Some dest \<Rightarrow>
                  if kind dest = ''number'' then Some []
                  else do { dest_raw \<leftarrow> utf8_text src dest;
                            Some (case dest_raw of
                                    None \<Rightarrow> []
                                  | Some d \<Rightarrow>
                                      (let dest_norm = strip_quotes d
                                       in if dest_norm = ''/dev/null'' then []
                                          else [redirect_warning dest_norm])) } }"

fun check_redirects_recursive :: "str \<Rightarrow> ts_node \<Rightarrow> str list option" where
  "check_redirects_recursive src n =
     do { here \<leftarrow> (if kind n = ''file_redirect'' then check_one_file_redirect src n else Some []);
          below \<leftarrow> concatM (check_redirects_recursive src) (children n);
          Some (here @ below) }"

declare check_redirects_recursive.simps [simp del]

definition check_all_redirects :: "str \<Rightarrow> ts_node \<Rightarrow> str list option" where
  "check_all_redirects src root = check_redirects_recursive src root"

section \<open>Command lists for the shape rules\<close>

text \<open>
  The simplified wrapper skipping of \<open>collect_commands_recursive\<close>: from the words after a wrapper,
  drop its flags, for \<open>timeout\<close> one more word (the duration), and continue with the next word while
  it is a wrapper that is not the last word. The loop reads \<open>words[idx]\<close> after skipping the
  duration, which panics when no word is left.
\<close>

function skip_to_args :: "str \<Rightarrow> str list \<Rightarrow> str list option" where
  "skip_to_args current_head rest =
     (if current_head \<in> set WRAPPERS \<and> rest \<noteq> [] then
        (let rest1 = dropWhile (\<lambda>w. starts_with w ''-'') rest
         in if rest1 = [] then Some []
            else (case (if current_head = ''timeout'' then drop 1 rest1 else rest1) of
                    [] \<Rightarrow> None
                  | h # t \<Rightarrow> skip_to_args (to_lowercase h) t))
      else Some rest)"
  by pat_completeness auto
termination
proof (relation "measure (\<lambda>(h, r). length r)")
  fix current_head :: str and rest rest1 h t
  assume "rest1 = dropWhile (\<lambda>w. starts_with w ''-'') rest"
    and "(if current_head = ''timeout'' then drop 1 rest1 else rest1) = h # t"
  then have "length (h # t) = length (if current_head = ''timeout'' then drop 1 rest1 else rest1)"
    by simp
  also have "\<dots> \<le> length rest1" by simp
  also have "\<dots> \<le> length rest"
    by (simp add: \<open>rest1 = _\<close> length_dropWhile_le)
  finally show "((to_lowercase h, t), (current_head, rest)) \<in> measure (\<lambda>(h, r). length r)"
    by simp
qed simp

declare skip_to_args.simps [simp del]

definition command_args :: "str list \<Rightarrow> str list option" where
  "command_args words =
     (case words of
        [] \<Rightarrow> Some []
      | w # ws \<Rightarrow> skip_to_args (to_lowercase w) ws)"

definition command_entry :: "str \<Rightarrow> ts_node \<Rightarrow> (str \<times> str list) list option" where
  "command_entry src n =
     (if kind n = ''command'' then
        do { words \<leftarrow> words_of_command src n;
             if words = [] then Some []
             else do { head' \<leftarrow> extract_head_from_command src n;
                       args \<leftarrow> command_args words;
                       Some [(case head' of Some h \<Rightarrow> h | None \<Rightarrow> normalize_name (hd words), args)] } }
      else Some [])"

fun collect_commands_recursive :: "str \<Rightarrow> ts_node \<Rightarrow> (str \<times> str list) list option" where
  "collect_commands_recursive src n =
     do { here \<leftarrow> command_entry src n;
          below \<leftarrow> concatM (collect_commands_recursive src) (children n);
          Some (here @ below) }"

declare collect_commands_recursive.simps [simp del]

section \<open>Shape rules\<close>

definition COUNTED_LOOP_COMMANDS :: "str list" where
  "COUNTED_LOOP_COMMANDS = [''vmstat'', ''iostat'', ''mpstat'', ''sar'', ''pidstat'', ''dstat'']"

definition INTERACTIVE_FULLSCREEN_COMMANDS :: "str list" where
  "INTERACTIVE_FULLSCREEN_COMMANDS =
     [''htop'', ''watch'', ''vim'', ''vi'', ''less'', ''more'', ''tmux'', ''screen'', ''nano'',
      ''emacs'', ''top'']"

definition INTERPRETER_COMMANDS :: "str list" where
  "INTERPRETER_COMMANDS =
     [''python'', ''python3'', ''python2'', ''pypy'', ''pypy3'', ''bash'', ''sh'', ''zsh'',
      ''dash'', ''ksh'', ''fish'', ''csh'', ''tcsh'', ''perl'', ''ruby'', ''node'', ''nodejs'',
      ''deno'', ''bun'', ''php'', ''lua'', ''luajit'', ''tclsh'', ''wish'', ''awk'', ''gawk'',
      ''mawk'', ''ocaml'', ''ghc'', ''ghci'', ''scala'', ''clojure'', ''rscript'', ''Rscript'',
      ''powershell'', ''pwsh'']"

definition quoted :: "str \<Rightarrow> str" where
  "quoted t = [squote] @ t @ [squote]"

definition check_find_shape :: "str list \<Rightarrow> str list" where
  "check_find_shape args =
     concat (map (\<lambda>t.
       if t = ''-exec'' \<or> t = ''-execdir'' then
         [''find '' @ t @ '' (executes arbitrary command per match, bypasses sanitize)'']
       else if t = ''-delete'' then
         [''find -delete (directly removes files without patch_file)'']
       else []) args)"

fun curl_go :: "bool \<Rightarrow> str list \<Rightarrow> str list" where
  "curl_go prev_is_output [] = []"
| "curl_go prev_is_output (t # ts) =
     (if t \<in> {''-O'', ''--remote-name'', ''--remote-name-all''} then
        (''curl '' @ t @ '' (writes URL basename to disk; use stdout redirect instead)'')
          # curl_go prev_is_output ts
      else if prev_is_output then
        (if t \<noteq> ''/dev/null'' \<and> t \<noteq> ''-'' then
           [''curl -o '' @ quoted t @ '' (file write; only /dev/null or stdout allowed)'']
         else []) @ curl_go False ts
      else if t = ''-o'' \<or> t = ''--output'' then curl_go True ts
      else (case strip_prefix t ''--output='' of
              None \<Rightarrow> []
            | Some path \<Rightarrow>
                if path \<noteq> ''/dev/null'' \<and> path \<noteq> ''-'' then
                  [''curl --output='' @ path @ '' (file write; only /dev/null or stdout allowed)'']
                else []) @ curl_go False ts)"

definition check_curl_shape :: "str list \<Rightarrow> str list" where
  "check_curl_shape args = curl_go False args"

fun wget_go :: "bool \<Rightarrow> str list \<Rightarrow> str list" where
  "wget_go prev_is_output [] = []"
| "wget_go prev_is_output (t # ts) =
     (if prev_is_output then
        (if t \<noteq> ''/dev/null'' \<and> t \<noteq> ''-'' then
           [''wget -O '' @ quoted t @ '' (file write; only /dev/null or stdout allowed)'']
         else []) @ wget_go False ts
      else if t = ''-O'' \<or> t = ''--output-document'' then wget_go True ts
      else (case strip_prefix t ''--output-document='' of
              None \<Rightarrow> []
            | Some path \<Rightarrow>
                if path \<noteq> ''/dev/null'' \<and> path \<noteq> ''-'' then
                  [''wget --output-document='' @ path @
                   '' (file write; only /dev/null or stdout allowed)'']
                else []) @ wget_go False ts)"

definition check_wget_shape :: "str list \<Rightarrow> str list" where
  "check_wget_shape args = wget_go False args"

definition check_sed_shape :: "str list \<Rightarrow> str list" where
  "check_sed_shape args =
     concat (map (\<lambda>t.
       (if t = ''-i'' \<or> t = ''--in-place'' then
          [''sed -i (in-place file modification; use patch_file workflow)''] else []) @
       (if starts_with t ''--in-place='' then
          [''sed --in-place= (in-place file modification; use patch_file workflow)''] else []) @
       (if starts_with t ''-i'' \<and> length t > 2 \<and> \<not> starts_with t ''--'' then
          [''sed '' @ t @ '' (in-place file modification; use patch_file workflow)''] else []))
     args)"

definition check_tail_follow_shape :: "str list \<Rightarrow> str list \<times> bool" where
  "check_tail_follow_shape args =
     (let ws = concat (map (\<lambda>t.
        (if t = ''-f'' \<or> t = ''--follow'' then
           [''tail -f (follows file indefinitely; interactive blocking command)''] else []) @
        (if starts_with t ''-f'' \<and> length t > 2 \<and> \<not> starts_with t ''--'' then
           [''tail '' @ t @ '' (follows file indefinitely; interactive blocking command)'']
         else [])) args)
      in (ws, ws \<noteq> []))"

definition check_touch_shape :: "str list \<Rightarrow> str list" where
  "check_touch_shape args =
     concat (map (\<lambda>t.
       if t \<in> {''-a'', ''-m'', ''-am'', ''-ma'', ''--date'', ''--time'', ''--reference''} \<or>
          starts_with t ''-d'' \<or> starts_with t ''-t'' \<or> starts_with t ''-r'' \<or>
          starts_with t ''--date='' \<or> starts_with t ''--time='' \<or> starts_with t ''--reference=''
       then [''touch '' @ t @ '' (timestamp change; touch may only create empty files)'']
       else []) args)"

text \<open>The longest run of consecutive numeric arguments.\<close>

fun numeric_runs :: "nat \<Rightarrow> nat \<Rightarrow> str list \<Rightarrow> nat" where
  "numeric_runs consecutive maxc [] = maxc"
| "numeric_runs consecutive maxc (t # ts) =
     (if parse_u64 t \<noteq> None then numeric_runs (consecutive + 1) (max maxc (consecutive + 1)) ts
      else numeric_runs 0 maxc ts)"

definition check_counted_loop_shape :: "str \<Rightarrow> str list \<Rightarrow> str list \<times> bool" where
  "check_counted_loop_shape head args =
     (if numeric_runs 0 0 args < 2 then
        ([head @ '' requires two consecutive numbers '' @ quoted ''interval count'' @
          '' to prevent unbounded loop''], True)
      else ([], False))"

definition check_interactive_shape :: "str \<Rightarrow> str list \<Rightarrow> str list \<times> bool" where
  "check_interactive_shape head args =
     (if head = ''top'' then
        (let batched = list_ex (\<lambda>t. t \<in> {''-b'', ''--batch'', ''-l'', ''-n''} \<or>
               starts_with t ''-b'' \<or> starts_with t ''-n'' \<or> starts_with t ''-l'') args
         in if \<not> batched then
              ([''top (interactive full-screen command; use `top -bn1` or `top -l 1` for batch output)''],
               True)
            else ([], False))
      else ([head @ '' (interactive full-screen command; blocks a non-interactive exec channel)''],
            True))"

section \<open>Interpreters: the preview that can panic\<close>

definition inline_flags :: "str \<Rightarrow> str list" where
  "inline_flags head =
     (if head \<in> {''perl'', ''ruby'', ''node'', ''nodejs'', ''deno'', ''bun''} then
        [''-e'', ''--eval'', ''--execute'']
      else if head = ''php'' then [''-r'', ''--run'']
      else if head \<in> {''lua'', ''luajit''} then [''-e'', ''--execute'']
      else if head \<in> {''tclsh'', ''wish''} then [''-c'', ''--command'']
      else if head \<in> {''awk'', ''gawk'', ''mawk''} then [''-e'', ''--source'']
      else [''-c'', ''-e'', ''--eval'', ''--execute'', ''--script''])"

definition code_preview :: "str option \<Rightarrow> str option" where
  "code_preview code =
     (case code of
        None \<Rightarrow> Some ''<empty>''
      | Some c \<Rightarrow>
          (let s = trim c
           in if length s > 60 then map_option (\<lambda>p. p @ ''...'') (slice s 0 60) else Some s))"

fun interpreter_go :: "str \<Rightarrow> str list \<Rightarrow> str list option" where
  "interpreter_go head [] = Some []"
| "interpreter_go head (t # ts) =
     do { w1 \<leftarrow> (if t \<in> set (inline_flags head) then
                  map_option (\<lambda>p. [head @ '' '' @ t @
                      '' (deferred execution: inline code bypasses sanitize: '' @ p @ '')''])
                    (code_preview (case ts of [] \<Rightarrow> None | n # _ \<Rightarrow> Some n))
                else Some []);
          rest \<leftarrow> interpreter_go head ts;
          Some (w1 @
            (if starts_with t ''-c'' \<and> length t > 2 \<and> \<not> starts_with t ''--'' then
               [head @ '' '' @ t @ '' (deferred execution: inline code bypasses sanitize)''] else []) @
            (if starts_with t ''--eval='' \<or> starts_with t ''--execute='' \<or> starts_with t ''--run='' then
               [head @ '' '' @ t @ '' (deferred execution: inline code bypasses sanitize)''] else []) @
            rest) }"

definition check_interpreter_shape :: "str \<Rightarrow> str list \<Rightarrow> str list option" where
  "check_interpreter_shape head args = interpreter_go head args"

section \<open>All commands, and the analysis\<close>

text \<open>One iteration of \<open>check_command_shapes\<close>: the new warnings and the shape if the rule fires.\<close>

definition shape_of_command :: "str \<Rightarrow> str list \<Rightarrow> (str list \<times> shape_risk option) option" where
  "shape_of_command head args =
     (let normalized = normalize_name (to_lowercase head)
      in if normalized = ''find'' then Some (check_find_shape args, None)
         else if normalized = ''curl'' then Some (check_curl_shape args, None)
         else if normalized = ''wget'' then Some (check_wget_shape args, None)
         else if normalized = ''sed'' then Some (check_sed_shape args, None)
         else if normalized = ''tail'' \<or> normalized = ''gtail'' then
           (case check_tail_follow_shape args of (ws, hit) \<Rightarrow>
              Some (ws, if hit then Some Interactive else None))
         else if normalized = ''touch'' \<or> normalized = ''gtouch'' then
           Some (check_touch_shape args, None)
         else if normalized \<in> set COUNTED_LOOP_COMMANDS then
           (case check_counted_loop_shape normalized args of (ws, hit) \<Rightarrow>
              Some (ws, if hit then Some UnboundedLoop else None))
         else if normalized \<in> set INTERACTIVE_FULLSCREEN_COMMANDS then
           (case check_interactive_shape normalized args of (ws, hit) \<Rightarrow>
              Some (ws, if hit then Some Interactive else None))
         else if normalized \<in> set INTERPRETER_COMMANDS then
           map_option (\<lambda>ws. (ws, None)) (check_interpreter_shape normalized args)
         else if normalized = ''eval'' then
           Some ([''eval (deferred execution: evaluates string as command, bypasses sanitize)''], None)
         else Some ([], None))"

definition opt_or :: "'a option \<Rightarrow> 'a option \<Rightarrow> 'a option" where
  "opt_or a b = (case a of None \<Rightarrow> b | Some _ \<Rightarrow> a)"

definition check_command_shapes :: "str \<Rightarrow> ts_node \<Rightarrow> (str list \<times> shape_risk option) option" where
  "check_command_shapes src root =
     do { commands \<leftarrow> collect_commands_recursive src root;
          foldM (\<lambda>(warnings, sh) (head, args).
                   map_option (\<lambda>(ws, hit). (warnings @ ws, opt_or sh hit))
                     (shape_of_command head args))
            ([], None) commands }"

definition unparsed_analysis :: command_analysis where
  "unparsed_analysis =
     \<lparr>canonical_head = None, had_parse_errors = True, redirect_warnings = [],
      shape_warnings = [], shape = None\<rparr>"

definition analyze_command :: "parser \<Rightarrow> str \<Rightarrow> command_analysis option" where
  "analyze_command parse command =
     (case parse command of
        None \<Rightarrow> Some unparsed_analysis
      | Some root \<Rightarrow>
          do { head' \<leftarrow> find_first_command_head command root;
               redirects \<leftarrow> check_all_redirects command root;
               shapes \<leftarrow> check_command_shapes command root;
               Some \<lparr>canonical_head = head', had_parse_errors = has_errors root,
                     redirect_warnings = redirects, shape_warnings = fst shapes,
                     shape = snd shapes\<rparr> })"

end
