(* ===== verification/Risk_Extra.thy ===== *)
theory Risk_Extra
  imports Risk_Level Shell_Words Sanitize_Shapes
begin

text \<open>
  \<open>risk_extra.rs\<close>: the word-level pass over a command. \<open>classify_extra\<close> takes the classifier of
  nested commands as an argument, as the source does (\<open>recurse: &dyn Fn(&str, usize) -> RiskLevel\<close>);
  the knot is tied in \<open>Risk_Classify\<close>. A classifier returns \<open>None\<close> when the analysis it calls panics.
\<close>

type_synonym classifier = "str \<Rightarrow> nat \<Rightarrow> risk_level option"

definition MAX_DEPTH :: nat where
  "MAX_DEPTH = 4"

definition SHELLS :: "str list" where
  "SHELLS =
     [''sh'', ''bash'', ''zsh'', ''dash'', ''ksh'', ''ash'', ''fish'', ''csh'', ''tcsh'']"

definition INLINE_INTERPRETERS :: "str list" where
  "INLINE_INTERPRETERS =
     [''python'', ''python2'', ''python3'', ''perl'', ''ruby'', ''node'', ''php'']"

definition INLINE_CODE_DANGER :: "str list" where
  "INLINE_CODE_DANGER =
     [''rmtree'', ''os.remove'', ''os.unlink'', ''os.rmdir'', ''unlink'', ''rmdir'',
      ''os.system'', ''subprocess'', ''popen'', ''child_process'', ''fs.rm'', ''system('',
      ''exec('', ''eval('', ''`'']"

section \<open>Rules on parsed arguments\<close>

definition risk_if :: "bool \<Rightarrow> risk_level \<Rightarrow> risk_level" where
  "risk_if b r = (if b then r else Low)"

definition classify_sql :: "str \<Rightarrow> risk_level" where
  "classify_sql command =
     (let collapsed = join '' '' (split_whitespace (to_lowercase command))
      in risk_if (list_ex (contains collapsed)
           [''drop table'', ''drop database'', ''drop schema'', ''truncate table'']) High)"

definition classify_rm :: "str list \<Rightarrow> risk_level" where
  "classify_rm args =
     (let opts = split_options args;
          recursive = CHR ''r'' \<in> set (short opts) \<or> CHR ''R'' \<in> set (short opts) \<or>
                      ''recursive'' \<in> set (long opts);
          no_preserve_root = ''no-preserve-root'' \<in> set (long opts)
      in if recursive \<and> (no_preserve_root \<or> list_ex is_root_target (positional opts)) then Blocked
         else if recursive then High
         else Low)"

definition classify_mv :: "str list \<Rightarrow> risk_level" where
  "classify_mv args = risk_if (list_ex is_protected_target (positional (split_options args))) High"

definition classify_dd :: "str list \<Rightarrow> risk_level" where
  "classify_dd args =
     risk_if (list_ex is_block_device (List.map_filter (\<lambda>a. strip_prefix a ''of='') args)) Blocked"

definition classify_file_writer :: "str \<Rightarrow> str list \<Rightarrow> risk_level" where
  "classify_file_writer head args =
     (let pos = positional (split_options args)
      in if list_ex is_block_device pos \<and> head \<noteq> ''ln'' then Blocked
         else if list_ex is_system_destination pos \<and> (head = ''tee'' \<or> head = ''install'') then High
         else if (head = ''cp'' \<or> head = ''ln'') \<and> pos \<noteq> [] \<and> is_system_destination (last pos)
         then High
         else Low)"

definition classify_disk_tool :: "str \<Rightarrow> str list \<Rightarrow> risk_level" where
  "classify_disk_tool head args =
     (let opts = split_options args;
          on_device = list_ex is_block_device (positional opts)
      in if head = ''fdisk'' \<or> head = ''parted'' then risk_if on_device High
         else if head = ''wipefs'' then
           (if on_device \<and> (CHR ''a'' \<in> set (short opts) \<or> ''all'' \<in> set (long opts)) then Blocked
            else if CHR ''a'' \<in> set (short opts) \<or> CHR ''f'' \<in> set (short opts) \<or>
                    list_ex (\<lambda>l. l = ''all'' \<or> l = ''force'') (long opts) then High
            else Low)
         else if head = ''shred'' then (if on_device then Blocked else High)
         else risk_if on_device Blocked)"

definition classify_systemctl :: "str list \<Rightarrow> risk_level" where
  "classify_systemctl args =
     (case map_option to_lowercase (List.find (\<lambda>a. \<not> starts_with a ''-'') args) of
        None \<Rightarrow> Low
      | Some verb \<Rightarrow>
          if verb \<in> {''stop'', ''kill'', ''mask''} then High
          else if verb \<in> {''poweroff'', ''halt'', ''reboot'', ''kexec''} then Blocked
          else Low)"

definition classify_firewall :: "str \<Rightarrow> str list \<Rightarrow> risk_level" where
  "classify_firewall head args =
     (let lowered = map to_lowercase args;
          has = (\<lambda>needle. needle \<in> set lowered);
          destructive =
            (if head = ''iptables'' \<or> head = ''ip6tables'' then
               has ''-f'' \<or> has ''--flush'' \<or> has ''-x'' \<or> has ''--delete-chain'' \<or> has ''-p''
             else if head = ''nft'' then has ''flush''
             else if head = ''ufw'' then has ''disable'' \<or> has ''reset''
             else if head = ''firewall-cmd'' then
               has ''--panic-on'' \<or> has ''--remove-service'' \<or> has ''--remove-port''
             else False)
      in risk_if destructive High)"

definition is_mode_arg :: "str \<Rightarrow> bool" where
  "is_mode_arg a \<longleftrightarrow> a \<noteq> [] \<and> (is_ascii_digit (hd a) \<or> hd a \<in> set ''ugoa+'')"

definition classify_chmod :: "str list \<Rightarrow> risk_level" where
  "classify_chmod args =
     (let opts = split_options args;
          recursive = CHR ''R'' \<in> set (short opts) \<or> ''recursive'' \<in> set (long opts);
          bad_mode =
            (case map_option to_lowercase (List.find is_mode_arg args) of
               None \<Rightarrow> False
             | Some mode \<Rightarrow>
                 dropWhile (\<lambda>c. c = CHR ''0'') mode = ''777'' \<or>
                 mode \<in> {''a+rwx'', ''ugo+rwx'', ''a=rwx'', ''ugo=rwx'', ''o+w'', ''o+rwx'', ''a+w''} \<or>
                 contains mode ''+s'')
      in if bad_mode then High
         else risk_if (recursive \<and>
                list_ex (\<lambda>p. is_root_target p \<or> is_protected_target p) (positional opts)) High)"

definition classify_inline_interpreter :: "str list \<Rightarrow> risk_level" where
  "classify_inline_interpreter args =
     (case dropWhile (\<lambda>a. a \<notin> {''-c'', ''-e'', ''-E'', ''-r'', ''--eval'', ''--command''}) args of
        [] \<Rightarrow> Low
      | _ # rest \<Rightarrow>
          (let code = to_lowercase (case rest of [] \<Rightarrow> [] | c # _ \<Rightarrow> c)
           in if list_ex (contains code) INLINE_CODE_DANGER then High else Medium))"

section \<open>Rules that classify a nested command\<close>

definition is_c_flag :: "str \<Rightarrow> bool" where
  "is_c_flag a \<longleftrightarrow> starts_with a ''-'' \<and> \<not> starts_with a ''--'' \<and> CHR ''c'' \<in> set (drop 1 a)"

definition classify_shell :: "str list \<Rightarrow> bool \<Rightarrow> nat \<Rightarrow> classifier \<Rightarrow> risk_level option" where
  "classify_shell args has_pipe depth recurse =
     (case dropWhile (\<lambda>a. \<not> is_c_flag a) args of
        _ # inner # _ \<Rightarrow> recurse inner (depth + 1)
      | [_] \<Rightarrow> Some Low
      | [] \<Rightarrow>
          (let reads_stdin = list_all (\<lambda>a. starts_with a ''-'') args \<or> ''-s'' \<in> set args;
               stdin_path = list_ex (\<lambda>a. a = ''/dev/stdin'' \<or> starts_with a ''/dev/fd/'') args
           in Some (risk_if (has_pipe \<and> reads_stdin \<or> stdin_path) High)))"

definition classify_eval :: "str list \<Rightarrow> nat \<Rightarrow> classifier \<Rightarrow> risk_level option" where
  "classify_eval args depth recurse =
     (if args = [] then Some Low
      else (let joined = join '' '' args
            in if CHR ''$'' \<in> set joined \<or> CHR 0x60 \<in> set joined then Some High
               else recurse joined (depth + 1)))"

definition exec_terminator :: "str \<Rightarrow> bool" where
  "exec_terminator a \<longleftrightarrow> a \<in> {'';'', ''+'', bslash # '';''}"

function find_go :: "risk_level \<Rightarrow> str list \<Rightarrow> nat \<Rightarrow> classifier \<Rightarrow> risk_level option" where
  "find_go risk [] depth recurse = Some risk"
| "find_go risk (a # rest) depth recurse =
     (if a \<in> {''-exec'', ''-execdir'', ''-ok'', ''-okdir''} then
        (let inner = takeWhile (\<lambda>w. \<not> exec_terminator w) rest
         in do { r \<leftarrow> recurse (join '' '' (map shell_quote inner)) (depth + 1);
                 find_go (max_severity (max_severity risk Medium) r)
                   (drop (length inner + 1) rest) depth recurse })
      else find_go risk rest depth recurse)"
  by pat_completeness auto
termination by (relation "measure (\<lambda>(r, args, d, f). length args)") auto

definition classify_find :: "str list \<Rightarrow> nat \<Rightarrow> classifier \<Rightarrow> risk_level option" where
  "classify_find args depth recurse =
     find_go (if ''-delete'' \<in> set args then High else Low) args depth recurse"

section \<open>One command, and the whole chain\<close>

definition dispatch_head ::
  "str \<Rightarrow> str list \<Rightarrow> bool \<Rightarrow> nat \<Rightarrow> classifier \<Rightarrow> risk_level option" where
  "dispatch_head head args has_pipe depth recurse =
     (if head \<in> set SHELLS then classify_shell args has_pipe depth recurse
      else if list_ex (\<lambda>name. head = name \<or> starts_with head (name @ ''3'')) INLINE_INTERPRETERS
      then Some (classify_inline_interpreter args)
      else if head = ''eval'' then classify_eval args depth recurse
      else if head = ''find'' then classify_find args depth recurse
      else if head = ''rm'' then Some (classify_rm args)
      else if head = ''mv'' then Some (classify_mv args)
      else if head = ''dd'' then Some (classify_dd args)
      else if head \<in> {''tee'', ''cp'', ''install'', ''ln''} then Some (classify_file_writer head args)
      else if head \<in> {''shred'', ''wipefs'', ''blkdiscard'', ''sfdisk'', ''sgdisk'', ''fdisk'',
                      ''parted'', ''mkswap'', ''truncate''} then Some (classify_disk_tool head args)
      else if head = ''systemctl'' then Some (classify_systemctl args)
      else if head = ''service'' then
        Some (risk_if (list_ex (\<lambda>a. eq_ignore_ascii_case a ''stop'') args) High)
      else if head \<in> {''iptables'', ''ip6tables'', ''nft'', ''ufw'', ''firewall-cmd''}
      then Some (classify_firewall head args)
      else if head = ''chmod'' then Some (classify_chmod args)
      else if head = ''crontab'' then Some (risk_if (''-r'' \<in> set args) High)
      else if head = ''chattr'' then Some Medium
      else Some Low)"

definition dynamic_head :: "str list \<Rightarrow> bool" where
  "dynamic_head words \<longleftrightarrow>
     (case List.find (\<lambda>w. \<not> is_assignment w) words of
        None \<Rightarrow> False
      | Some w \<Rightarrow> CHR ''$'' \<in> set w \<or> CHR 0x60 \<in> set w)"

definition classify_segment ::
  "parser \<Rightarrow> str \<Rightarrow> bool \<Rightarrow> nat \<Rightarrow> classifier \<Rightarrow> risk_level option" where
  "classify_segment parse segment has_pipe depth recurse =
     (let words = shell_words segment
      in if dynamic_head words then Some High
         else do { analysis \<leftarrow> analyze_command parse segment;
                   case canonical_head analysis of
                     None \<Rightarrow> Some Low
                   | Some head \<Rightarrow>
                       (case dropWhile (\<lambda>w. \<not> name_matches w head) words of
                          [] \<Rightarrow> Some Low
                        | _ # args \<Rightarrow> dispatch_head head args has_pipe depth recurse) })"

definition strictest_segment ::
  "parser \<Rightarrow> bool \<Rightarrow> nat \<Rightarrow> classifier \<Rightarrow> risk_level \<Rightarrow> str \<Rightarrow> risk_level option" where
  "strictest_segment parse has_pipe depth recurse risk segment =
     map_option (max_severity risk) (classify_segment parse segment has_pipe depth recurse)"

definition classify_extra :: "parser \<Rightarrow> str \<Rightarrow> nat \<Rightarrow> classifier \<Rightarrow> risk_level option" where
  "classify_extra parse command depth recurse =
     (if depth \<ge> MAX_DEPTH then Some High
      else do { segments \<leftarrow> split_commands parse command;
                foldM (strictest_segment parse (CHR ''|'' \<in> set command) depth recurse)
                  (classify_sql command) segments })"

section \<open>Nested classification happens one level deeper and only below the bound\<close>

lemma find_go_cong:
  "(\<And>c. f c (depth + 1) = g c (depth + 1)) \<Longrightarrow> find_go risk args depth f = find_go risk args depth g"
  by (induction risk args depth f rule: find_go.induct) (auto simp: Let_def intro!: Option.bind_cong)

lemma dispatch_head_cong:
  assumes "\<And>c. f c (depth + 1) = g c (depth + 1)"
  shows "dispatch_head head args has_pipe depth f = dispatch_head head args has_pipe depth g"
proof -
  have "classify_shell args has_pipe depth f = classify_shell args has_pipe depth g"
    "classify_eval args depth f = classify_eval args depth g"
    "classify_find args depth f = classify_find args depth g"
    using assms find_go_cong [of f depth g]
    by (simp_all add: classify_shell_def classify_eval_def classify_find_def Let_def
        cong: list.case_cong)
  then show ?thesis by (simp add: dispatch_head_def)
qed

lemma classify_segment_cong:
  "(\<And>c. f c (depth + 1) = g c (depth + 1)) \<Longrightarrow>
   classify_segment parse segment has_pipe depth f = classify_segment parse segment has_pipe depth g"
  using dispatch_head_cong [of f depth g]
  by (simp add: classify_segment_def Let_def cong: option.case_cong list.case_cong)

lemma strictest_segment_cong:
  "(\<And>c. f c (depth + 1) = g c (depth + 1)) \<Longrightarrow>
   strictest_segment parse has_pipe depth f = strictest_segment parse has_pipe depth g"
  using classify_segment_cong [of f depth g] by (simp add: strictest_segment_def fun_eq_iff)

lemma classify_extra_cong [fundef_cong]:
  assumes "parse = parse'" "command = command'" "depth = depth'"
    "\<And>c. depth' < MAX_DEPTH \<Longrightarrow> f c (depth' + 1) = g c (depth' + 1)"
  shows "classify_extra parse command depth f = classify_extra parse' command' depth' g"
  using assms strictest_segment_cong [of f depth' g]
  by (cases "depth' < MAX_DEPTH") (simp_all add: classify_extra_def)

end
