(* ===== verification/Risk_Classify.thy ===== *)
theory Risk_Classify
  imports Risk_Extra
begin

text \<open>
  \<open>core.rs\<close>: \<open>classify_risk\<close>. \<open>classify_risk_single\<close> is the substring pass over one command with its
  rules grouped by the severity they return, in the source's order; consecutive rules with the
  same result are one disjunction. \<open>classify_risk_at_depth\<close> keeps the strictest of this pass, the
  word-level pass and every strictly shorter segment. It recurses on shorter segments at the same
  depth and on unwrapped commands one level deeper, of any length, up to \<open>MAX_DEPTH\<close>.
\<close>

section \<open>One command\<close>

text \<open>The synthetic \<open>sftp \<dots>\<close> strings: \<open>Some r\<close> is an early return.\<close>

definition sftp_risk :: "str list \<Rightarrow> risk_level option" where
  "sftp_risk tokens =
     (case tokens of
        t0 # t1 # _ \<Rightarrow>
          if t0 \<noteq> ''sftp'' then None
          else if t1 = ''rm-rf'' then
            Some (if last tokens \<in> {''/'', ''/*'', ''/.''} then Blocked else High)
          else if t1 = ''rename'' then Some Medium
          else None
      | _ \<Rightarrow> None)"

definition last_token :: "str list \<Rightarrow> str" where
  "last_token tokens = (if tokens = [] then [] else last tokens)"

definition blocked_rule :: "str \<Rightarrow> str list \<Rightarrow> str \<Rightarrow> bool" where
  "blocked_rule lower tokens head \<longleftrightarrow>
     contains lower ''mkfs'' \<or>
     contains lower '':(){ :|:& }'' \<or> contains lower '':(){ :|: & }'' \<or>
     head = ''dd'' \<and>
       (contains lower ''of=/dev/sd'' \<or> contains lower ''of=/dev/nvme'' \<or>
        contains lower ''of=/dev/xvd'' \<or> contains lower ''of=/dev/disk'') \<or>
     contains lower ''> /dev/sd'' \<or> contains lower ''> /dev/nvme'' \<or>
       contains lower ''> /dev/xvd'' \<or>
     head = ''rm'' \<and>
       (contains lower ''-rf'' \<or> contains lower ''-fr'' \<or> contains lower ''-r -f'' \<or>
        contains lower ''-f -r'') \<and>
       last_token tokens \<in> {''/'', ''/*'', ''/.''} \<or>
     head \<in> {''shutdown'', ''halt'', ''poweroff'', ''reboot''} \<or>
     head = ''init'' \<and> (contains lower ''init 0'' \<or> contains lower ''init 6'')"

definition high_rule :: "str \<Rightarrow> str \<Rightarrow> bool" where
  "high_rule lower head \<longleftrightarrow>
     starts_with lower ''sudo '' \<or> starts_with lower ''doas '' \<or>
     head = ''rm'' \<and>
       (contains lower ''-rf'' \<or> contains lower ''-fr'' \<or> contains lower '' -r '' \<or>
        ends_with lower '' -r'') \<or>
     contains lower ''kill -9 -1'' \<or> contains lower ''killall -9'' \<or> contains lower ''pkill -9'' \<or>
     contains lower ''iptables -f'' \<or> contains lower ''ufw disable'' \<or>
       contains lower ''ufw reset'' \<or>
     contains lower ''chmod 777'' \<or> contains lower ''chmod -r 777'' \<or>
       contains lower ''chmod a+rwx'' \<or>
     head \<in> {''passwd'', ''useradd'', ''userdel'', ''usermod'', ''chpasswd''} \<or>
     contains lower ''> /etc/'' \<or> contains lower ''> /proc/'' \<or> contains lower ''> /sys/'' \<or>
       contains lower ''> /boot/'' \<or>
     contains lower ''systemctl stop'' \<or> contains lower ''systemctl kill'' \<or>
     contains lower ''service '' \<and> contains lower '' stop'' \<or>
     contains lower ''drop table'' \<or> contains lower ''drop database'' \<or>
       contains lower ''drop schema'' \<or> contains lower ''truncate table'' \<or>
     head = ''chown'' \<and> (contains lower ''-r'' \<or> contains lower ''--recursive'')"

definition BLOCK_DEVICES :: "str list" where
  "BLOCK_DEVICES =
     [''/dev/sd'', ''/dev/nvme'', ''/dev/xvd'', ''/dev/disk'', ''/dev/md'', ''/dev/mapper'']"

definition block_device_warning :: "str \<Rightarrow> bool" where
  "block_device_warning warning \<longleftrightarrow>
     list_ex (\<lambda>dev. contains warning (''redirect to '' @ [squote] @ dev)) BLOCK_DEVICES"

definition medium_contains :: "str list" where
  "medium_contains =
     [''apt install'', ''apt-get install'', ''yum install'', ''dnf install'', ''pip install'',
      ''pip3 install'', ''npm install'', ''brew install'', ''systemctl restart'',
      ''systemctl enable'', ''systemctl disable'', ''systemctl start'', ''sed -i'', ''git push'',
      ''chmod'', ''chown'', ''unzip'', ''tar -x'', ''tar xf'', ''tar xvf'', ''tar xzf'',
      ''curl -o '', ''wget -o '', ''truncate'', ''mv /'']"

definition medium_rule :: "str \<Rightarrow> str \<Rightarrow> bool" where
  "medium_rule lower head \<longleftrightarrow>
     list_ex (contains lower) medium_contains \<or> contains lower '' > '' \<or> head = ''service''"

definition single_rules :: "str \<Rightarrow> str list \<Rightarrow> command_analysis \<Rightarrow> risk_level" where
  "single_rules lower tokens analysis =
     (let head = (case canonical_head analysis of None \<Rightarrow> [] | Some h \<Rightarrow> h)
      in if had_parse_errors analysis \<and> head = [] then High
         else if blocked_rule lower tokens head then Blocked
         else if high_rule lower head then High
         else if redirect_warnings analysis \<noteq> [] then
           (if list_ex block_device_warning (redirect_warnings analysis) then Blocked else Medium)
         else if medium_rule lower head then Medium
         else case shape analysis of
           Some Interactive \<Rightarrow> Medium
         | Some UnboundedLoop \<Rightarrow> Medium
         | None \<Rightarrow> Low)"

definition classify_risk_single :: "parser \<Rightarrow> str \<Rightarrow> risk_level option" where
  "classify_risk_single parse command =
     (let lower = to_lowercase (trim command);
          tokens = split_whitespace lower
      in case sftp_risk tokens of
           Some r \<Rightarrow> Some r
         | None \<Rightarrow> map_option (single_rules lower tokens) (analyze_command parse command))"

section \<open>Chains and nesting\<close>

text \<open>One iteration of the loop over the segments of a chain.\<close>

definition strictest_with ::
  "classifier \<Rightarrow> nat \<Rightarrow> risk_level \<Rightarrow> str \<Rightarrow> risk_level option" where
  "strictest_with recurse depth strictest segment =
     map_option (max_severity strictest) (recurse segment depth)"

lemma strictest_with_cong [fundef_cong]:
  "recurse segment depth = recurse' segment depth \<Longrightarrow>
   strictest_with recurse depth strictest segment = strictest_with recurse' depth strictest segment"
  by (simp add: strictest_with_def)

lemma foldM_strictest_cong [fundef_cong]:
  assumes "xs = ys" "s = t" "depth = depth'"
    "\<And>segment. segment \<in> set ys \<Longrightarrow> f segment depth' = g segment depth'"
  shows "foldM (strictest_with f depth) s xs = foldM (strictest_with g depth') t ys"
  using assms by (intro foldM_cong) (auto intro: strictest_with_cong)

function classify_risk_at_depth :: "parser \<Rightarrow> str \<Rightarrow> nat \<Rightarrow> risk_level option" where
  "classify_risk_at_depth parse command depth =
     do { single \<leftarrow> classify_risk_single parse command;
          extra \<leftarrow> classify_extra parse command depth (classify_risk_at_depth parse);
          segments \<leftarrow> split_commands parse command;
          foldM (strictest_with (classify_risk_at_depth parse) depth) (max_severity single extra)
            (filter (\<lambda>segment. length segment < length command) segments) }"
  by pat_completeness auto
termination
  by (relation "measures [\<lambda>(p, c, d). MAX_DEPTH - d, \<lambda>(p, c, d). length c]") auto

declare classify_risk_at_depth.simps [simp del]

definition classify_risk :: "parser \<Rightarrow> str \<Rightarrow> risk_level option" where
  "classify_risk parse command = classify_risk_at_depth parse command 0"

end
