(* ===== verification/Risk_Rules.thy ===== *)
theory Risk_Rules
  imports Risk_Classify
begin

text \<open>
  \<open>risk_config.rs\<close>: the user's escalation rules. The rule file is read elsewhere; a load is
  \<open>Some rules\<close> or \<open>None\<close> when reading or parsing it fails, which \<open>classify_with_user_rules\<close> turns
  into \<open>no rule matched\<close>.
\<close>

record rule_group =
  patterns :: "str list"

record risk_rules =
  blocked_rules :: rule_group
  high_rules :: rule_group
  medium_rules :: rule_group

text \<open>The loop of \<open>matches_pattern\<close>: each non-empty part is searched after the previous match.\<close>

fun parts_in_order :: "str \<Rightarrow> str list \<Rightarrow> bool" where
  "parts_in_order rest [] = True"
| "parts_in_order rest (part # parts) =
     (if part = [] then parts_in_order rest parts
      else case after_first rest part of
        Some rest' \<Rightarrow> parts_in_order rest' parts
      | None \<Rightarrow> False)"

definition matches_pattern :: "str \<Rightarrow> str \<Rightarrow> bool" where
  "matches_pattern command pattern =
     (let pattern = to_lowercase (trim pattern)
      in if CHR ''*'' \<in> set pattern
         then parts_in_order command (split_char (CHR ''*'') pattern)
         else contains command pattern)"

definition classify_with_user_rules :: "risk_rules option \<Rightarrow> str \<Rightarrow> risk_level option" where
  "classify_with_user_rules loaded command =
     (case loaded of
        None \<Rightarrow> None
      | Some rules \<Rightarrow>
          (let lower = to_lowercase (trim command)
           in if list_ex (matches_pattern lower) (patterns (blocked_rules rules)) then Some Blocked
              else if list_ex (matches_pattern lower) (patterns (high_rules rules)) then Some High
              else if list_ex (matches_pattern lower) (patterns (medium_rules rules)) then Some Medium
              else None))"

definition classify_effective_risk :: "risk_rules option \<Rightarrow> str \<Rightarrow> risk_level \<Rightarrow> risk_level" where
  "classify_effective_risk loaded command built_in =
     (case classify_with_user_rules loaded command of
        Some user_risk \<Rightarrow> merge_user_risk built_in user_risk
      | None \<Rightarrow> built_in)"

section \<open>The greedy search is complete\<close>

text \<open>Specification: the parts occur in the text one after another, without overlap.\<close>

fun scattered :: "str list \<Rightarrow> str \<Rightarrow> bool" where
  "scattered [] s = True"
| "scattered (p # ps) s = (\<exists>u v. s = u @ p @ v \<and> scattered ps v)"

lemma scattered_suffix: "scattered ps v \<Longrightarrow> scattered ps (u @ v)"
  by (cases ps) (auto, metis append.assoc)

lemma scattered_Nil_part: "scattered ([] # ps) s \<longleftrightarrow> scattered ps s"
  by (auto intro: scattered_suffix)

text \<open>The first occurrence leaves the longest rest.\<close>

lemma after_first_longest:
  "s = u @ p @ v \<Longrightarrow> p \<noteq> [] \<Longrightarrow> \<exists>t w. after_first s p = Some t \<and> t = w @ v"
proof (induction u arbitrary: s)
  case Nil
  then have s: "starts_with s p" "drop (length p) s = v" by (auto simp: starts_with_prefix)
  moreover obtain c cs where "s = c # cs" using Nil by (cases p) auto
  ultimately show ?case by (auto simp del: starts_with.simps)
next
  case (Cons c u)
  then obtain s' where s: "s = c # s'" "s' = u @ p @ v" by simp
  show ?case
  proof (cases "starts_with s p")
    case True
    then obtain t where t: "s = p @ t" by (auto simp: starts_with_prefix prefix_def)
    with Cons.prems(1) have "suffix v t"
      by (metis append_Cons append_assoc suffixI suffix_append suffix_length_suffix
          length_append add_le_cancel_left le_add2 length_Cons le_SucI)
    moreover have "after_first s p = Some t"
    proof -
      have "drop (length p) s = t" using t by simp
      then show ?thesis using True s(1) by simp
    qed
    ultimately show ?thesis by (auto simp: suffix_def)
  next
    case False
    with Cons.IH [OF s(2) Cons.prems(2)] s(1) show ?thesis by simp
  qed
qed

lemma parts_in_order_scattered: "parts_in_order s ps \<longleftrightarrow> scattered ps s"
proof (induction s ps rule: parts_in_order.induct)
  case (2 rest part parts)
  show ?case
  proof (cases "part = []")
    case True
    then show ?thesis using 2(1) scattered_Nil_part by simp
  next
    case ne: False
    show ?thesis
    proof (cases "after_first rest part")
      case None
      have "rest \<noteq> u @ part @ v" for u v
        using after_first_longest [of rest u part v] ne None by auto
      then show ?thesis using ne None by auto
    next
      case (Some t)
      then obtain u where u: "rest = u @ part @ t" using after_first_Some by blast
      have "scattered parts t" if "rest = u' @ part @ v" "scattered parts v" for u' v
        using after_first_longest [OF that(1) ne] Some that(2) scattered_suffix by auto
      with u show ?thesis using ne Some 2(2) [OF ne Some] by auto
    qed
  qed
qed simp

section \<open>Properties\<close>

text \<open>
  A user pattern with wildcards matches exactly the commands in which its parts
  occur in order and without overlap; the leftmost search loses no match.
\<close>

theorem matches_pattern_complete:
  "matches_pattern command pattern \<longleftrightarrow>
     (let p = to_lowercase (trim pattern)
      in if CHR ''*'' \<in> set p then scattered (split_char (CHR ''*'') p) command
         else sublist p command)"
  by (simp add: matches_pattern_def parts_in_order_scattered contains_sublist Let_def)

text \<open>
  User rules only escalate. The effective risk is the stricter of the built-in
  level and the strictest rule group with a match; without a loadable rule file it is the built-in.
\<close>

theorem effective_risk_only_escalates:
  "classify_effective_risk loaded command built_in =
     max built_in (case classify_with_user_rules loaded command of None \<Rightarrow> Low | Some r \<Rightarrow> r)"
  by (simp add: classify_effective_risk_def sev_simps split: option.split)

lemma effective_risk_ge: "built_in \<le> classify_effective_risk loaded command built_in"
  by (simp add: classify_effective_risk_def sev_simps split: option.split)

lemma effective_risk_Blocked [simp]: "classify_effective_risk loaded command Blocked = Blocked"
  by (simp add: classify_effective_risk_def sev_simps split: option.split)

lemma user_rule_strictest:
  assumes "classify_with_user_rules (Some rules) command = Some r"
  shows "r = Blocked \<or> (r = High \<or> r = Medium \<and>
           \<not> list_ex (matches_pattern (to_lowercase (trim command))) (patterns (high_rules rules))) \<and>
           \<not> list_ex (matches_pattern (to_lowercase (trim command))) (patterns (blocked_rules rules))"
  using assms by (auto simp: classify_with_user_rules_def Let_def split: if_splits)

end
