(* ===== verification/Sample_Parser.thy ===== *)
theory Sample_Parser
  imports Syntax_Tree
begin

text \<open>
  A small concrete instance of the parser parameter, for the closed examples of the development:
  commands made of plain words separated by blanks and chained by the operator words \<open>&&\<close>, \<open>||\<close>,
  \<open>;\<close> and \<open>|\<close>, with the node kinds tree-sitter-bash gives them. It is not a model of tree-sitter.
\<close>

fun word_spans :: "nat \<Rightarrow> nat option \<Rightarrow> str \<Rightarrow> (nat \<times> nat) list" where
  "word_spans i None [] = []"
| "word_spans i (Some b) [] = [(b, i)]"
| "word_spans i None (c # s) =
     (if is_ws c then word_spans (i + 1) None s else word_spans (i + 1) (Some i) s)"
| "word_spans i (Some b) (c # s) =
     (if is_ws c then (b, i) # word_spans (i + 1) None s else word_spans (i + 1) (Some b) s)"

definition leaf :: "str \<Rightarrow> nat \<times> nat \<Rightarrow> str option \<times> ts_node" where
  "leaf k w = (None, TsNode k False False (fst w) (snd w) [])"

definition command_node :: "(nat \<times> nat) list \<Rightarrow> str option \<times> ts_node" where
  "command_node ws =
     (None, TsNode ''command'' False False (fst (hd ws)) (snd (last ws))
        ((None, TsNode ''command_name'' False False (fst (hd ws)) (snd (hd ws)) [leaf ''word'' (hd ws)])
         # map (leaf ''word'') (tl ws)))"

definition is_operator :: "str \<Rightarrow> nat \<times> nat \<Rightarrow> bool" where
  "is_operator s w \<longleftrightarrow>
     take (snd w - fst w) (drop (fst w) s) \<in> {''&&'', ''||'', '';'', ''|''}"

fun group_words :: "str \<Rightarrow> (nat \<times> nat) list \<Rightarrow> (nat \<times> nat) list \<Rightarrow> (nat \<times> nat) list list" where
  "group_words s cur [] = (if cur = [] then [] else [rev cur])"
| "group_words s cur (w # ws) =
     (if is_operator s w then (if cur = [] then [] else [rev cur]) @ group_words s [] ws
      else group_words s (w # cur) ws)"

definition sample_parse :: parser where
  "sample_parse s =
     Some (TsNode ''program'' False False 0 (length s)
       (map command_node (group_words s [] (word_spans 0 None s))))"

end
