(* ===== verification/Exec_Gate.thy ===== *)
theory Exec_Gate
  imports Rust_Text
begin

text \<open>
  \<open>gate.rs\<close>: the operator's switch that pauses execution. The status lives in one JSON file;
  \<open>load_execution_gate\<close> on the stored content is \<open>Inl ()\<close> when reading or parsing fails, and a
  missing file is the default. The clock is an argument.
\<close>

datatype execution_gate_mode = Active | Paused

record execution_gate_status =
  gate_mode :: execution_gate_mode
  gate_updated_at :: "int option"
  gate_updated_by :: "str option"
  gate_reason :: "str option"

fun display_gate_mode :: "execution_gate_mode \<Rightarrow> str" where
  "display_gate_mode Active = ''active''"
| "display_gate_mode Paused = ''paused''"

definition default_gate :: execution_gate_status where
  "default_gate =
     \<lparr>gate_mode = Active, gate_updated_at = None, gate_updated_by = None, gate_reason = None\<rparr>"

text \<open>The gate file: absent, unreadable, or holding a status.\<close>

datatype gate_file = NoFile | Unreadable | Stored execution_gate_status

fun load_execution_gate :: "gate_file \<Rightarrow> unit + execution_gate_status" where
  "load_execution_gate NoFile = Inr default_gate"
| "load_execution_gate Unreadable = Inl ()"
| "load_execution_gate (Stored status) = Inr status"

definition save_execution_gate ::
  "int \<Rightarrow> execution_gate_mode \<Rightarrow> str option \<Rightarrow> str option \<Rightarrow> gate_file \<times> execution_gate_status" where
  "save_execution_gate now mode source reason =
     (let status = \<lparr>gate_mode = mode, gate_updated_at = Some now, gate_updated_by = source,
                    gate_reason = reason\<rparr>
      in (Stored status, status))"

definition source_can_bypass_gate :: "str \<Rightarrow> bool" where
  "source_can_bypass_gate source \<longleftrightarrow> eq_ignore_ascii_case (trim source) ''desktop''"

definition gate_blocks_source :: "execution_gate_status \<Rightarrow> str \<Rightarrow> bool" where
  "gate_blocks_source status source \<longleftrightarrow>
     gate_mode status = Paused \<and> \<not> source_can_bypass_gate source"

definition execution_gate_blocks_source :: "gate_file \<Rightarrow> str \<Rightarrow> unit + bool" where
  "execution_gate_blocks_source file source =
     (case load_execution_gate file of
        Inl e \<Rightarrow> Inl e
      | Inr status \<Rightarrow> Inr (gate_blocks_source status source))"

section \<open>Properties\<close>

text \<open>
  Once paused, the gate lets nobody through but the desktop source, and resuming
  lets everyone through; which source set it and why plays no part.
\<close>

theorem gate_after_save:
  "execution_gate_blocks_source (fst (save_execution_gate now mode by reason)) source =
     Inr (mode = Paused \<and> to_lowercase (trim source) \<noteq> ''desktop'')"
  by (simp add: execution_gate_blocks_source_def save_execution_gate_def Let_def
      gate_blocks_source_def source_can_bypass_gate_def eq_ignore_ascii_case_lower
      to_lowercase_def lower_char_def is_ascii_upper_def)

end
