(* ===== verification/Glob.thy ===== *)
theory Glob
  imports Rust_Text
begin

text \<open>
  \<open>store.rs\<close>, \<open>glob_match\<close>: the case-insensitive matcher for \<open>*\<close> and \<open>?\<close> behind the approval
  policies' command patterns and the daemon token scopes. The code fills one row of a table per
  pattern character; \<open>glob_row\<close> is one iteration of its outer loop, with the two inner loops
  written as folds over the same index range. The abstract specification says what a match is: the
  text cut into one segment per pattern character, each segment fitting its character.
\<close>

section \<open>The table\<close>

definition star_row :: "nat \<Rightarrow> bool list \<Rightarrow> bool list" where
  "star_row n prev =
     foldl (\<lambda>next i. next[i := prev ! i \<or> next ! (i - 1)])
       ((replicate (n + 1) False)[0 := prev ! 0]) [1..<n + 1]"

definition char_row :: "str \<Rightarrow> str list \<Rightarrow> bool list \<Rightarrow> bool list" where
  "char_row pattern_char txt prev =
     foldl (\<lambda>next i. next[i := prev ! (i - 1) \<and>
              (pattern_char = ''?'' \<or> pattern_char = txt ! (i - 1))])
       (replicate (length txt + 1) False) [1..<length txt + 1]"

definition glob_row :: "str list \<Rightarrow> bool list \<Rightarrow> str \<Rightarrow> bool list" where
  "glob_row txt prev pattern_char =
     (if pattern_char = ''*'' then star_row (length txt) prev
      else char_row pattern_char txt prev)"

definition glob_match :: "str \<Rightarrow> str \<Rightarrow> bool" where
  "glob_match pattern text' =
     (let pat = chars (to_lowercase pattern);
          txt = chars (to_lowercase text')
      in foldl (glob_row txt) ((replicate (length txt + 1) False)[0 := True]) pat ! length txt)"

section \<open>Specification\<close>

definition seg_ok :: "str \<Rightarrow> str list \<Rightarrow> bool" where
  "seg_ok p seg \<longleftrightarrow> p = ''*'' \<or> (\<exists>c. seg = [c] \<and> (p = ''?'' \<or> p = c))"

definition glob_spec :: "str list \<Rightarrow> str list \<Rightarrow> bool" where
  "glob_spec P t \<longleftrightarrow> (\<exists>segs. list_all2 seg_ok P segs \<and> concat segs = t)"

lemma glob_spec_Nil: "glob_spec [] t \<longleftrightarrow> t = []"
  by (auto simp: glob_spec_def)

lemma glob_spec_snoc: "glob_spec (P @ [p]) t \<longleftrightarrow> (\<exists>u v. t = u @ v \<and> glob_spec P u \<and> seg_ok p v)"
proof
  assume "glob_spec (P @ [p]) t"
  then obtain segs where "list_all2 seg_ok (P @ [p]) segs" "concat segs = t"
    by (auto simp: glob_spec_def)
  then obtain s1 v where "segs = s1 @ [v]" "list_all2 seg_ok P s1" "seg_ok p v"
    by (auto simp: list_all2_append1 list_all2_Cons1)
  with \<open>concat segs = t\<close> show "\<exists>u v. t = u @ v \<and> glob_spec P u \<and> seg_ok p v"
    by (auto simp: glob_spec_def)
next
  assume "\<exists>u v. t = u @ v \<and> glob_spec P u \<and> seg_ok p v"
  then obtain s1 v where "t = concat s1 @ v" "list_all2 seg_ok P s1" "seg_ok p v"
    by (auto simp: glob_spec_def)
  then have "list_all2 seg_ok (P @ [p]) (s1 @ [v])" "concat (s1 @ [v]) = t"
    by (auto intro: list_all2_appendI)
  then show "glob_spec (P @ [p]) t" unfolding glob_spec_def by blast
qed

lemma glob_spec_star:
  "glob_spec (P @ [''*'']) t \<longleftrightarrow>
     glob_spec P t \<or> (t \<noteq> [] \<and> glob_spec (P @ [''*'']) (butlast t))"
proof
  assume "glob_spec (P @ [''*'']) t"
  then obtain u v where uv: "t = u @ v" "glob_spec P u" by (auto simp: glob_spec_snoc)
  show "glob_spec P t \<or> (t \<noteq> [] \<and> glob_spec (P @ [''*'']) (butlast t))"
  proof (cases "v = []")
    case True
    with uv show ?thesis by simp
  next
    case False
    with uv have "butlast t = u @ butlast v" "t \<noteq> []" by (simp_all add: butlast_append)
    with uv(2) show ?thesis by (auto simp: glob_spec_snoc seg_ok_def)
  qed
next
  assume "glob_spec P t \<or> (t \<noteq> [] \<and> glob_spec (P @ [''*'']) (butlast t))"
  then show "glob_spec (P @ [''*'']) t"
  proof
    assume "glob_spec P t"
    then show ?thesis by (auto simp: glob_spec_snoc seg_ok_def)
  next
    assume "t \<noteq> [] \<and> glob_spec (P @ [''*'']) (butlast t)"
    then obtain u v where "t = (u @ v) @ [last t]" "glob_spec P u"
      by (metis append_butlast_last_id glob_spec_snoc)
    then show ?thesis by (auto simp: glob_spec_snoc seg_ok_def)
  qed
qed

lemma glob_spec_char:
  "p \<noteq> ''*'' \<Longrightarrow> glob_spec (P @ [p]) t \<longleftrightarrow>
     t \<noteq> [] \<and> glob_spec P (butlast t) \<and> (p = ''?'' \<or> p = last t)"
  by (auto simp: glob_spec_snoc seg_ok_def)
     (metis append_butlast_last_id)+

section \<open>The rows compute the specification\<close>

text \<open>A loop that assigns each index of a range once, reading only what lies before it.\<close>

lemma foldl_update_length:
  "length (foldl (\<lambda>xs i. xs[i := f xs i]) xs is) = length xs"
  by (induction "is" arbitrary: xs) auto

lemma char_row_nth:
  assumes "i \<le> length txt"
  shows "char_row p txt prev ! i =
    (i > 0 \<and> prev ! (i - 1) \<and> (p = ''?'' \<or> p = txt ! (i - 1)))"
proof -
  let ?g = "\<lambda>i. prev ! (i - 1) \<and> (p = ''?'' \<or> p = txt ! (i - 1))"
  let ?row = "\<lambda>m. foldl (\<lambda>next i. next[i := ?g i]) (replicate (length txt + 1) False) [1..<m]"
  have "m \<le> length txt + 1 \<Longrightarrow> ?row m ! i = (0 < i \<and> i < m \<and> ?g i)" for m
  proof (induction m)
    case 0
    show ?case using assms by (simp add: nth_Cons')
  next
    case (Suc m)
    have len: "length (?row m) = length txt + 1"
      by (simp add: foldl_update_length)
    show ?case
    proof (cases m)
      case 0
      then show ?thesis using assms by (simp add: nth_Cons')
    next
      case (Suc k)
      then have "?row (Suc m) = (?row m)[m := ?g m]" by simp
      with Suc.IH Suc.prems len assms Suc show ?thesis
        by (auto simp: nth_list_update)
    qed
  qed
  from this [of "length txt + 1"] assms show ?thesis
    by (simp add: char_row_def)
qed

lemma star_row_nth:
  assumes "i \<le> n" "length prev = n + 1"
  shows "star_row n prev ! i = (prev ! i \<or> (i > 0 \<and> star_row n prev ! (i - 1)))"
proof -
  let ?f = "\<lambda>next i. next[i := prev ! i \<or> next ! (i - 1)]"
  let ?init = "(replicate (n + 1) False)[0 := prev ! 0]"
  let ?row = "\<lambda>m. foldl ?f ?init [1..<m]"
  have len: "length (?row m) = n + 1" for m
    by (simp add: foldl_update_length)
  have step: "?row (Suc m) = ?f (?row m) m" if "1 \<le> m" for m
    using that by simp
  have frozen: "?row (m + k) ! j = ?row m ! j" if "j < m" "1 \<le> m" for m k j
    using that
  proof (induction k)
    case 0
    show ?case by simp
  next
    case (Suc k)
    have "?row (m + Suc k) = ?f (?row (m + k)) (m + k)" using Suc.prems step by simp
    with Suc show ?case by simp
  qed
  have init0: "?row 1 ! 0 = prev ! 0" by simp
  show ?thesis
  proof (cases i)
    case 0
    with frozen [of 0 1 n] init0 show ?thesis by (simp add: star_row_def)
  next
    case (Suc k)
    have "star_row n prev ! i = ?row (Suc i) ! i"
      using frozen [of i "Suc i" "n - i"] assms(1) by (simp add: star_row_def)
    also have "\<dots> = (prev ! i \<or> ?row i ! (i - 1))"
      using step [of i] Suc len [of i] assms(1) by simp
    also have "?row i ! (i - 1) = star_row n prev ! (i - 1)"
      using frozen [of "i - 1" i "n + 1 - i"] Suc assms(1) by (simp add: star_row_def)
    finally show ?thesis using Suc by simp
  qed
qed

lemma glob_row_length: "length (glob_row txt prev p) = length txt + 1"
  by (simp add: glob_row_def star_row_def char_row_def foldl_update_length)

lemma take_butlast_last:
  "0 < i \<Longrightarrow> i \<le> length t \<Longrightarrow> butlast (take i t) = take (i - 1) t \<and> last (take i t) = t ! (i - 1)"
  by (cases i) (auto simp: butlast_take take_Suc_conv_app_nth)

definition row_ok :: "str list \<Rightarrow> str list \<Rightarrow> bool list \<Rightarrow> bool" where
  "row_ok txt P row \<longleftrightarrow>
     length row = length txt + 1 \<and> (\<forall>i \<le> length txt. row ! i = glob_spec P (take i txt))"

lemma glob_row_ok:
  assumes "row_ok txt P prev"
  shows "row_ok txt (P @ [p]) (glob_row txt prev p)"
proof -
  have len: "length prev = length txt + 1" and
    prev: "\<And>i. i \<le> length txt \<Longrightarrow> prev ! i = glob_spec P (take i txt)"
    using assms by (auto simp: row_ok_def)
  have "glob_row txt prev p ! i = glob_spec (P @ [p]) (take i txt)" if "i \<le> length txt" for i
  proof (cases "p = ''*''")
    case True
    show ?thesis using that
    proof (induction i)
      case 0
      with True len prev [of 0] star_row_nth [of 0 "length txt" prev]
        glob_spec_star [of P "take 0 txt"] show ?case
        by (simp add: glob_row_def)
    next
      case (Suc i)
      then have "take (Suc i) txt \<noteq> []" "butlast (take (Suc i) txt) = take i txt"
        by (auto simp: butlast_take)
      with Suc True len prev [of "Suc i"] star_row_nth [of "Suc i" "length txt" prev]
        glob_spec_star [of P "take (Suc i) txt"] show ?case
        by (simp add: glob_row_def)
    qed
  next
    case False
    show ?thesis
    proof (cases "i = 0")
      case True
      with False show ?thesis
        by (simp add: glob_row_def char_row_nth glob_spec_char)
    next
      case False
      note pos = this
      with that take_butlast_last [of i "txt"] have
        "butlast (take i txt) = take (i - 1) txt" "last (take i txt) = txt ! (i - 1)"
        "take i txt \<noteq> []" by auto
      with \<open>p \<noteq> ''*''\<close> pos that prev [of "i - 1"] show ?thesis
        by (simp add: glob_row_def char_row_nth glob_spec_char)
    qed
  qed
  then show ?thesis by (simp add: row_ok_def glob_row_length)
qed

lemma glob_rows_ok: "row_ok txt P row \<Longrightarrow> row_ok txt (P @ Q) (foldl (glob_row txt) row Q)"
proof (induction Q arbitrary: P row)
  case Nil
  then show ?case by simp
next
  case (Cons q Q)
  from Cons.IH [OF glob_row_ok [OF Cons.prems, of q]] show ?case by simp
qed

lemma init_row_ok: "row_ok txt [] ((replicate (length txt + 1) False)[0 := True])"
  by (auto simp: row_ok_def glob_spec_Nil nth_Cons' split: if_splits)

text \<open>Property (C22): the dynamic-programming matcher implements the segment specification.\<close>

theorem glob_match_refines_spec:
  "glob_match pattern text' =
     glob_spec (chars (to_lowercase pattern)) (chars (to_lowercase text'))"
proof -
  let ?txt = "chars (to_lowercase text')"
  have "row_ok ?txt (chars (to_lowercase pattern))
      (foldl (glob_row ?txt) ((replicate (length ?txt + 1) False)[0 := True])
        (chars (to_lowercase pattern)))"
    using glob_rows_ok [OF init_row_ok] by simp
  then show ?thesis by (simp add: row_ok_def glob_match_def Let_def)
qed

end
