(* ===== verification/Daemon_Scope.thy ===== *)
theory Daemon_Scope
  imports Glob Syntax_Tree
begin

text \<open>
  \<open>remote.rs\<close>: what a token of a remote daemon may do (\<open>DaemonScope\<close>, \<open>check_daemon_scope\<close>,
  \<open>daemon_scope_allows_host\<close>) and the version comparison (\<open>check_version_compatibility\<close>). Error and
  status texts are values of a datatype, with the parts the code formats into them.
\<close>

record daemon_scope =
  allowed_hosts :: "str list"
  allowed_tags :: "str list"
  allowed_commands :: "str list"
  denied_commands :: "str list"

datatype scope_error =
    DeniedByPattern str str
  | HostNotAllowed str
  | NoAllowedTag str "str list"
  | NoAllowedCommand str

definition daemon_scope_allows_host :: "daemon_scope \<Rightarrow> str \<Rightarrow> str list \<Rightarrow> bool" where
  "daemon_scope_allows_host scope host_name host_tags \<longleftrightarrow>
     (allowed_hosts scope = [] \<or>
      list_ex (\<lambda>allowed. eq_ignore_ascii_case allowed host_name) (allowed_hosts scope)) \<and>
     (allowed_tags scope = [] \<or>
      list_ex (\<lambda>allowed. list_ex (\<lambda>tag. eq_ignore_ascii_case tag allowed) host_tags)
        (allowed_tags scope))"

text \<open>The \<open>for\<close> loop over the denied patterns: the first match returns.\<close>

fun first_denied :: "str list \<Rightarrow> str \<Rightarrow> str option" where
  "first_denied [] command = None"
| "first_denied (pattern # ps) command =
     (if glob_match pattern command then Some pattern else first_denied ps command)"

definition check_daemon_scope ::
  "daemon_scope option \<Rightarrow> str \<Rightarrow> str list \<Rightarrow> str \<Rightarrow> scope_error + unit" where
  "check_daemon_scope scope_opt host_name host_tags command =
     (case scope_opt of
        None \<Rightarrow> Inr ()
      | Some scope \<Rightarrow>
          (case first_denied (denied_commands scope) command of
             Some pattern \<Rightarrow> Inl (DeniedByPattern command pattern)
           | None \<Rightarrow>
               if \<not> daemon_scope_allows_host scope host_name host_tags then
                 (if allowed_hosts scope \<noteq> [] \<and>
                     \<not> list_ex (\<lambda>h. eq_ignore_ascii_case h host_name) (allowed_hosts scope)
                  then Inl (HostNotAllowed host_name)
                  else Inl (NoAllowedTag host_name (allowed_tags scope)))
               else if allowed_commands scope \<noteq> [] \<and>
                       \<not> list_ex (\<lambda>pattern. glob_match pattern command) (allowed_commands scope)
               then Inl (NoAllowedCommand command)
               else Inr ()))"

section \<open>Version compatibility\<close>

datatype version_note =
    UnknownRemote | InvalidRemote str | MajorMismatch str str | MinorDifference str str
  | VersionsMatch str str

record version_compatibility =
  local_version :: str
  remote_version :: "str option"
  compatible :: bool
  version_message :: version_note

text \<open>The prefix up to the first \<open>-\<close> or \<open>+\<close>, its dot-separated numbers, at least two of them.\<close>

fun parse_parts :: "str list \<Rightarrow> nat list option" where
  "parse_parts [] = Some []"
| "parse_parts (p # ps) =
     (case parse_u64 p of
        None \<Rightarrow> None
      | Some n \<Rightarrow> map_option ((#) n) (parse_parts ps))"

definition normalize_version :: "str \<Rightarrow> nat list option" where
  "normalize_version version =
     (let core = takeWhile (\<lambda>c. c \<noteq> CHR ''-'' \<and> c \<noteq> CHR ''+'')
                   (dropWhile (\<lambda>c. c = CHR ''v'' \<or> c = CHR ''V'') (trim version))
      in case parse_parts (split_char (CHR ''.'') core) of
           None \<Rightarrow> None
         | Some parts \<Rightarrow> if length parts \<ge> 2 then Some parts else None)"

definition part :: "nat list \<Rightarrow> nat \<Rightarrow> nat" where
  "part parts i = (if i < length parts then parts ! i else 0)"

text \<open>\<open>None\<close> is the panic of \<open>expect\<close> when the local version is not numeric.\<close>

definition check_version_compatibility :: "str \<Rightarrow> str option \<Rightarrow> version_compatibility option" where
  "check_version_compatibility local_v remote_v =
     (case remote_v of
        None \<Rightarrow> Some \<lparr>local_version = local_v, remote_version = None, compatible = True,
                       version_message = UnknownRemote\<rparr>
      | Some rv \<Rightarrow>
          (case normalize_version local_v of
             None \<Rightarrow> None
           | Some local_parts \<Rightarrow>
               Some (case normalize_version rv of
                  None \<Rightarrow> \<lparr>local_version = local_v, remote_version = Some rv, compatible = False,
                            version_message = InvalidRemote rv\<rparr>
                | Some remote_parts \<Rightarrow>
                    if part local_parts 0 \<noteq> part remote_parts 0 then
                      \<lparr>local_version = local_v, remote_version = Some rv, compatible = False,
                       version_message = MajorMismatch local_v rv\<rparr>
                    else if part local_parts 1 \<noteq> part remote_parts 1 then
                      \<lparr>local_version = local_v, remote_version = Some rv, compatible = True,
                       version_message = MinorDifference local_v rv\<rparr>
                    else
                      \<lparr>local_version = local_v, remote_version = Some rv, compatible = True,
                       version_message = VersionsMatch local_v rv\<rparr>)))"

section \<open>The deny list is an ordered rule list\<close>

interpretation denied: first_match glob_match Some None first_denied
  by unfold_locales simp_all

lemma first_denied_None: "first_denied ps c = None \<longleftrightarrow> (\<forall>p \<in> set ps. \<not> glob_match p c)"
  by (simp add: denied.eval_dflt)

section \<open>Properties\<close>

text \<open>
  A scoped token may run a command on a host exactly when no denied pattern matches
  it, the host and its tags are within the allowed lists, and some allowed command pattern matches
  it; an empty list of hosts, tags or commands allows all of them.
\<close>

theorem check_daemon_scope_ok:
  "check_daemon_scope (Some scope) host tags command = Inr () \<longleftrightarrow>
     \<not> (\<exists>p \<in> set (denied_commands scope). glob_match p command) \<and>
     (allowed_hosts scope = [] \<or>
        (\<exists>h \<in> set (allowed_hosts scope). to_lowercase h = to_lowercase host)) \<and>
     (allowed_tags scope = [] \<or>
        (\<exists>t \<in> set (allowed_tags scope). \<exists>u \<in> set tags. to_lowercase u = to_lowercase t)) \<and>
     (allowed_commands scope = [] \<or> (\<exists>p \<in> set (allowed_commands scope). glob_match p command))"
proof (cases "first_denied (denied_commands scope) command")
  case None
  then have "check_daemon_scope (Some scope) host tags command = Inr () \<longleftrightarrow>
      daemon_scope_allows_host scope host tags \<and>
      (allowed_commands scope = [] \<or> list_ex (\<lambda>p. glob_match p command) (allowed_commands scope))"
    by (simp add: check_daemon_scope_def)
  moreover have "\<not> (\<exists>p \<in> set (denied_commands scope). glob_match p command)"
    using None by (simp add: first_denied_None)
  ultimately show ?thesis
    by (simp add: daemon_scope_allows_host_def list_ex_iff eq_ignore_ascii_case_lower disj_imp)
next
  case (Some p)
  then have "\<exists>p \<in> set (denied_commands scope). glob_match p command"
    using denied.eval_in [of "denied_commands scope" command] by auto
  with Some show ?thesis by (auto simp: check_daemon_scope_def)
qed

end
