(* ===== verification/Approval_Store.thy ===== *)
theory Approval_Store
  imports Risk_Level "HOL-Library.Word" "HOL-Library.Signed_Division"
begin

text \<open>
  \<open>approval.rs\<close>, the store half: approval requests, their life cycle and their journal. The store
  is the map of requests behind the tokio mutex; the journal is the append-only JSONL file that
  every change is written to, newest line last. An operation is one critical section: it returns
  its result, the new map, and the effects it performs after the lock is released (the journal
  line it appends and the event it publishes). Instants are nanoseconds, ids come from the
  environment, and the risk of a rewritten command and the override of its host are arguments.
\<close>

type_synonym uuid = nat

datatype approval_status = Pending | Approved | Rejected | TimedOut | Revoked

record approval_history_entry =
  hist_command :: str
  hist_exit_code :: "int option"
  hist_risk_level :: risk_level
  hist_ts :: str

record risk_details =
  built_in_risk :: risk_level
  user_risk_override :: "risk_level option"
  final_risk :: risk_level
  matched_policy :: "str option"
  risk_unclassified :: bool

record approval_context =
  host_address :: "str option"
  host_env :: "str option"
  host_role :: "str option"
  ctx_source :: "str option"
  recent_commands :: "approval_history_entry list"
  ctx_risk_details :: "risk_details option"
  ctx_reason :: "str option"
  ctx_change_id :: "str option"
  rewritable :: bool

record approval_request =
  req_id :: uuid
  req_host :: str
  req_command :: str
  req_risk :: risk_level
  requested_at :: int
  ttl_secs :: "64 word"
  req_status :: approval_status
  req_context :: "approval_context option"
  revoked_at :: "int option"
  approved_command_snapshot :: "str option"
  rewritten_command :: "str option"

type_synonym approvals = "uuid \<rightharpoonup> approval_request"

datatype approval_error =
    UnknownApproval uuid
  | HasTimedOut uuid
  | AlreadyDecided uuid approval_status
  | RewriteEmpty
  | NotRewritable uuid
  | RewriteBlocked
  | RewriteRiskier risk_level risk_level
  | CannotRevoke uuid approval_status

datatype approval_effect =
    AppendLine approval_request
  | ApprovalRequested uuid str str risk_level
  | ApprovalResponded uuid bool approval_status "str option"

definition DEFAULT_APPROVAL_TTL_SECS :: "64 word" where
  "DEFAULT_APPROVAL_TTL_SECS = 300"

section \<open>Operations\<close>

text \<open>
  \<open>elapsed.num_seconds() as u64 > ttl\<close>: whole seconds, rounded towards zero, and a negative elapsed
  time wraps to a huge one.
\<close>

definition elapsed_secs :: "int \<Rightarrow> int \<Rightarrow> 64 word" where
  "elapsed_secs now since = word_of_int ((now - since) sdiv 1000000000)"

definition past_ttl :: "int \<Rightarrow> approval_request \<Rightarrow> bool" where
  "past_ttl now req \<longleftrightarrow> elapsed_secs now (requested_at req) > ttl_secs req"

definition new_request ::
  "uuid \<Rightarrow> int \<Rightarrow> str \<Rightarrow> str \<Rightarrow> risk_level \<Rightarrow> 64 word \<Rightarrow> approval_context option \<Rightarrow> approval_request" where
  "new_request i now host command risk ttl context =
     \<lparr>req_id = i, req_host = host, req_command = command, req_risk = risk, requested_at = now,
      ttl_secs = ttl, req_status = Pending, req_context = context, revoked_at = None,
      approved_command_snapshot = None, rewritten_command = None\<rparr>"

definition insert_request ::
  "approval_request \<Rightarrow> approvals \<Rightarrow> uuid \<times> approvals \<times> approval_effect list" where
  "insert_request req m =
     (req_id req, m(req_id req \<mapsto> req),
      [AppendLine req,
       ApprovalRequested (req_id req) (req_host req) (req_command req) (req_risk req)])"

definition approval_request_with_ttl ::
  "uuid \<Rightarrow> int \<Rightarrow> str \<Rightarrow> str \<Rightarrow> risk_level \<Rightarrow> 64 word \<Rightarrow> approvals \<Rightarrow>
   uuid \<times> approvals \<times> approval_effect list" where
  "approval_request_with_ttl i now host command risk ttl m =
     insert_request (new_request i now host command risk ttl None) m"

definition approval_request_default ::
  "uuid \<Rightarrow> int \<Rightarrow> str \<Rightarrow> str \<Rightarrow> risk_level \<Rightarrow> approvals \<Rightarrow> uuid \<times> approvals \<times> approval_effect list" where
  "approval_request_default i now host command risk m =
     approval_request_with_ttl i now host command risk DEFAULT_APPROVAL_TTL_SECS m"

definition approval_request_with_context ::
  "uuid \<Rightarrow> int \<Rightarrow> str \<Rightarrow> str \<Rightarrow> risk_level \<Rightarrow> 64 word \<Rightarrow> approval_context \<Rightarrow> approvals \<Rightarrow>
   uuid \<times> approvals \<times> approval_effect list" where
  "approval_request_with_context i now host command risk ttl context m =
     insert_request (new_request i now host command risk ttl (Some context)) m"

definition expire :: "int \<Rightarrow> approval_request \<Rightarrow> approval_request option" where
  "expire now req =
     (if req_status req = Pending \<and> past_ttl now req
      then Some (req\<lparr>req_status := TimedOut\<rparr>) else None)"

definition approval_poll ::
  "int \<Rightarrow> uuid \<Rightarrow> approvals \<Rightarrow> approval_status option \<times> approvals \<times> approval_effect list" where
  "approval_poll now i m =
     (case m i of
        None \<Rightarrow> (None, m, [])
      | Some req \<Rightarrow>
          (case expire now req of
             None \<Rightarrow> (Some (req_status req), m, [])
           | Some req' \<Rightarrow> (Some TimedOut, m(i \<mapsto> req'), [AppendLine req'])))"

definition approval_respond_inner ::
  "int \<Rightarrow> uuid \<Rightarrow> bool \<Rightarrow> str option \<Rightarrow> approvals \<Rightarrow>
   (approval_error + unit) \<times> approvals \<times> approval_effect list" where
  "approval_respond_inner now i approved rewrite m =
     (case m i of
        None \<Rightarrow> (Inl (UnknownApproval i), m, [])
      | Some req \<Rightarrow>
          if past_ttl now req then
            (let req' = (if req_status req = Pending then req\<lparr>req_status := TimedOut\<rparr> else req)
             in (Inl (HasTimedOut i), m(i \<mapsto> req'), [AppendLine req']))
          else if req_status req \<noteq> Pending then
            (Inl (AlreadyDecided i (req_status req)), m, [])
          else
            (let req' =
               (if approved then
                  req\<lparr>approved_command_snapshot :=
                        Some (case rewrite of None \<Rightarrow> req_command req | Some c \<Rightarrow> c),
                      rewritten_command := rewrite, req_status := Approved\<rparr>
                else req\<lparr>req_status := Rejected\<rparr>)
             in (Inr (), m(i \<mapsto> req'),
                 [AppendLine req', ApprovalResponded i approved (req_status req') rewrite])))"

definition approval_respond ::
  "int \<Rightarrow> uuid \<Rightarrow> bool \<Rightarrow> approvals \<Rightarrow> (approval_error + unit) \<times> approvals \<times> approval_effect list" where
  "approval_respond now i approved m = approval_respond_inner now i approved None m"

text \<open>
  \<open>approval_approve_rewritten\<close> takes the lock twice: once to read the request and once inside
  \<open>approval_respond_inner\<close>; \<open>check_rewrite\<close> is the part before the second.
\<close>

definition check_rewrite ::
  "(str \<Rightarrow> risk_level) \<Rightarrow> (str \<Rightarrow> risk_level option) \<Rightarrow> uuid \<Rightarrow> str \<Rightarrow> approvals \<Rightarrow>
   approval_error + str option" where
  "check_rewrite effective_risk override_of i command m =
     (let new_command = trim command
      in if new_command = [] then Inl RewriteEmpty
         else case m i of
           None \<Rightarrow> Inl (UnknownApproval i)
         | Some req \<Rightarrow>
             if \<not> (case req_context req of None \<Rightarrow> False | Some ctx \<Rightarrow> rewritable ctx)
             then Inl (NotRewritable i)
             else if new_command \<noteq> req_command req then
               (let risk = apply_risk_override (effective_risk new_command) (override_of (req_host req))
                in if risk = Blocked then Inl RewriteBlocked
                   else if risk_ordinal risk > risk_ordinal (req_risk req)
                   then Inl (RewriteRiskier risk (req_risk req))
                   else Inr (Some new_command))
             else Inr None)"

definition approval_approve_rewritten ::
  "(str \<Rightarrow> risk_level) \<Rightarrow> (str \<Rightarrow> risk_level option) \<Rightarrow> int \<Rightarrow> uuid \<Rightarrow> str \<Rightarrow> approvals \<Rightarrow>
   (approval_error + unit) \<times> approvals \<times> approval_effect list" where
  "approval_approve_rewritten effective_risk override_of now i command m =
     (case check_rewrite effective_risk override_of i command m of
        Inl e \<Rightarrow> (Inl e, m, [])
      | Inr rewrite \<Rightarrow> approval_respond_inner now i True rewrite m)"

definition approval_rewritten_command :: "uuid \<Rightarrow> approvals \<Rightarrow> str option" where
  "approval_rewritten_command i m = Option.bind (m i) rewritten_command"

definition revoke_approval ::
  "int \<Rightarrow> uuid \<Rightarrow> approvals \<Rightarrow> (approval_error + unit) \<times> approvals \<times> approval_effect list" where
  "revoke_approval now i m =
     (case m i of
        None \<Rightarrow> (Inl (UnknownApproval i), m, [])
      | Some req \<Rightarrow>
          if req_status req \<noteq> Approved then (Inl (CannotRevoke i (req_status req)), m, [])
          else (let req' = req\<lparr>req_status := Revoked, revoked_at := Some now\<rparr>
                in (Inr (), m(i \<mapsto> req'),
                    [AppendLine req', ApprovalResponded i False Revoked None])))"

definition get_approved_command_snapshot :: "uuid \<Rightarrow> approvals \<Rightarrow> str option" where
  "get_approved_command_snapshot i m = Option.bind (m i) approved_command_snapshot"

text \<open>\<open>approval_list\<close> walks the map in the order the hash map gives, here the list of its keys.\<close>

fun expire_all :: "int \<Rightarrow> uuid list \<Rightarrow> approvals \<Rightarrow> approvals \<times> approval_effect list" where
  "expire_all now [] m = (m, [])"
| "expire_all now (i # is) m =
     (case Option.bind (m i) (expire now) of
        None \<Rightarrow> expire_all now is m
      | Some req' \<Rightarrow>
          (case expire_all now is (m(i \<mapsto> req')) of (m', effects) \<Rightarrow> (m', AppendLine req' # effects)))"

definition approval_list ::
  "int \<Rightarrow> uuid list \<Rightarrow> approvals \<Rightarrow> approval_request list \<times> approvals \<times> approval_effect list" where
  "approval_list now keys m =
     (case expire_all now keys m of (m', effects) \<Rightarrow>
        (List.map_filter m' keys, m', effects))"

text \<open>
  \<open>approval_wait\<close> polls until the request is decided. The list holds the instants of its polls;
  \<open>None\<close> means that it is still waiting when the list ends.
\<close>

fun approval_wait :: "int list \<Rightarrow> uuid \<Rightarrow> approvals \<Rightarrow> (approval_status \<times> approvals \<times> approval_effect list) option" where
  "approval_wait [] i m = None"
| "approval_wait (now # nows) i m =
     (case approval_poll now i m of (status, m', effects) \<Rightarrow>
        (case status of
           None \<Rightarrow> Some (Rejected, m', effects)
         | Some s \<Rightarrow>
             if s = Pending then
               map_option (\<lambda>(s', m'', effects'). (s', m'', effects @ effects')) (approval_wait nows i m')
             else Some (s, m', effects)))"

end
