(* ===== verification/Approval_Laws.thy ===== *)
theory Approval_Laws
  imports Approval_Store
begin

text \<open>
  The life cycle of approvals. Every operation of \<open>Approval_Store\<close> is shown to be a sequence of
  updates of single requests, each with its journal line; the invariant of the store, the law that
  requests only move forward, and the agreement of the journal with the store follow for all runs.
\<close>

record approval_state =
  requests :: approvals
  journal :: "approval_request list"
  published :: "approval_effect list"

text \<open>Appending to the journal assumes that persistence is on and the write succeeds.\<close>

fun perform :: "approval_state \<Rightarrow> approval_effect \<Rightarrow> approval_state" where
  "perform s (AppendLine r) = s\<lparr>journal := journal s @ [r]\<rparr>"
| "perform s e = s\<lparr>published := published s @ [e]\<rparr>"

datatype approval_event =
    Request uuid int str str risk_level "64 word" "approval_context option"
  | Poll int uuid
  | Respond int uuid bool
  | ApproveRewritten "str \<Rightarrow> risk_level" "str \<Rightarrow> risk_level option" int uuid str
  | Revoke int uuid
  | ListAll int "uuid list"

fun run_event :: "approval_event \<Rightarrow> approvals \<Rightarrow> approvals \<times> approval_effect list" where
  "run_event (Request i now host command risk ttl None) m =
     snd (approval_request_with_ttl i now host command risk ttl m)"
| "run_event (Request i now host command risk ttl (Some ctx)) m =
     snd (approval_request_with_context i now host command risk ttl ctx m)"
| "run_event (Poll now i) m = snd (approval_poll now i m)"
| "run_event (Respond now i approved) m = snd (approval_respond now i approved m)"
| "run_event (ApproveRewritten risk_of override_of now i command) m =
     snd (approval_approve_rewritten risk_of override_of now i command m)"
| "run_event (Revoke now i) m = snd (revoke_approval now i m)"
| "run_event (ListAll now keys) m = snd (approval_list now keys m)"

definition approval_step :: "approval_state \<Rightarrow> approval_event \<Rightarrow> approval_state" where
  "approval_step s e =
     (case run_event e (requests s) of (m, effects) \<Rightarrow> foldl perform (s\<lparr>requests := m\<rparr>) effects)"

text \<open>\<open>Uuid::new_v4\<close> gives an id not yet in the store.\<close>

fun approval_enabled :: "approval_state \<Rightarrow> approval_event \<Rightarrow> bool" where
  "approval_enabled s (Request i now host command risk ttl ctx) \<longleftrightarrow> requests s i = None"
| "approval_enabled s _ \<longleftrightarrow> True"

definition empty_store :: approval_state where
  "empty_store = \<lparr>requests = Map.empty, journal = [], published = []\<rparr>"

definition replay :: "approval_request list \<Rightarrow> approvals" where
  "replay lines = foldl (\<lambda>m r. m(req_id r \<mapsto> r)) Map.empty lines"

section \<open>The invariant and the order of a request's states\<close>

definition approved_text :: "approval_request \<Rightarrow> str" where
  "approved_text r = (case rewritten_command r of None \<Rightarrow> req_command r | Some c \<Rightarrow> c)"

definition is_rewritable :: "approval_request \<Rightarrow> bool" where
  "is_rewritable r \<longleftrightarrow> (case req_context r of None \<Rightarrow> False | Some ctx \<Rightarrow> rewritable ctx)"

definition request_ok :: "uuid \<Rightarrow> approval_request \<Rightarrow> bool" where
  "request_ok i r \<longleftrightarrow>
     req_id r = i \<and>
     approved_command_snapshot r =
       (if req_status r \<in> {Approved, Revoked} then Some (approved_text r) else None) \<and>
     (rewritten_command r \<noteq> None \<longrightarrow> req_status r \<in> {Approved, Revoked} \<and> is_rewritable r) \<and>
     (revoked_at r \<noteq> None \<longleftrightarrow> req_status r = Revoked)"

fun status_leads :: "approval_status \<Rightarrow> approval_status \<Rightarrow> bool" where
  "status_leads Pending s = True"
| "status_leads Approved s = (s = Approved \<or> s = Revoked)"
| "status_leads q s = (s = q)"

definition same_question :: "approval_request \<Rightarrow> approval_request \<Rightarrow> bool" where
  "same_question r q \<longleftrightarrow>
     req_id q = req_id r \<and> req_host q = req_host r \<and> req_command q = req_command r \<and>
     req_risk q = req_risk r \<and> requested_at q = requested_at r \<and> ttl_secs q = ttl_secs r \<and>
     req_context q = req_context r"

definition evolves :: "approval_request \<Rightarrow> approval_request \<Rightarrow> bool" where
  "evolves r q \<longleftrightarrow>
     same_question r q \<and> status_leads (req_status r) (req_status q) \<and>
     (req_status r \<noteq> Pending \<longrightarrow>
        approved_command_snapshot q = approved_command_snapshot r \<and>
        rewritten_command q = rewritten_command r) \<and>
     (req_status q = req_status r \<longrightarrow> q = r)"

lemma status_leads_refl [simp]: "status_leads s s"
  by (cases s) simp_all

lemma status_leads_trans: "status_leads a b \<Longrightarrow> status_leads b c \<Longrightarrow> status_leads a c"
  by (cases a; cases b; cases c) simp_all

lemma status_leads_antisym: "status_leads a b \<Longrightarrow> status_leads b a \<Longrightarrow> a = b"
  by (cases a; cases b) simp_all

lemma status_leads_Pending: "status_leads a Pending \<Longrightarrow> a = Pending"
  by (cases a) simp_all

lemma evolves_refl [simp]: "evolves r r"
  by (simp add: evolves_def same_question_def)

lemma evolves_trans:
  assumes "evolves a b" "evolves b c"
  shows "evolves a c"
proof -
  have leads: "status_leads (req_status a) (req_status c)"
    using assms by (auto simp: evolves_def intro: status_leads_trans)
  have "c = a" if "req_status c = req_status a"
  proof -
    have "req_status b = req_status a"
      using assms that by (auto simp: evolves_def intro: status_leads_antisym)
    then show ?thesis using assms that by (auto simp: evolves_def)
  qed
  moreover have "approved_command_snapshot c = approved_command_snapshot a \<and>
      rewritten_command c = rewritten_command a" if "req_status a \<noteq> Pending"
  proof -
    have "req_status b \<noteq> Pending"
      using assms(1) that status_leads_Pending by (auto simp: evolves_def)
    then show ?thesis using assms that by (auto simp: evolves_def)
  qed
  ultimately show ?thesis
    using assms leads by (auto simp: evolves_def same_question_def)
qed

section \<open>Every operation is a sequence of updates\<close>

inductive updates :: "approvals \<Rightarrow> approval_effect list \<Rightarrow> approvals \<Rightarrow> bool" where
  done_updates: "updates m [] m"
| create: "m i = None \<Longrightarrow> request_ok i r \<Longrightarrow> updates (m(i \<mapsto> r)) effects m' \<Longrightarrow>
    updates m (AppendLine r # effects) m'"
| change: "m i = Some r \<Longrightarrow> evolves r r' \<Longrightarrow> (request_ok i r \<Longrightarrow> request_ok i r') \<Longrightarrow>
    updates (m(i \<mapsto> r')) effects m' \<Longrightarrow> updates m (AppendLine r' # effects) m'"
| requested: "updates m effects m' \<Longrightarrow> updates m (ApprovalRequested i h c k # effects) m'"
| responded: "updates m effects m' \<Longrightarrow> updates m (ApprovalResponded i b st c # effects) m'"

lemmas update_simps = request_ok_def evolves_def same_question_def approved_text_def
  is_rewritable_def

lemma insert_updates:
  "m (req_id r) = None \<Longrightarrow> request_ok (req_id r) r \<Longrightarrow>
   insert_request r m = (i, m', effects) \<Longrightarrow> updates m effects m'"
  by (auto simp: insert_request_def intro!: create requested done_updates)

lemma new_request_ok: "request_ok i (new_request i now host command risk ttl ctx)"
  by (simp add: update_simps new_request_def)

lemma expire_update:
  "expire now r = Some r' \<Longrightarrow> evolves r r' \<and> (request_ok i r \<longrightarrow> request_ok i r')"
  by (auto simp: expire_def update_simps split: if_splits)

lemma poll_updates: "approval_poll now i m = (st, m', effects) \<Longrightarrow> updates m effects m'"
  by (auto simp: approval_poll_def split: option.splits
      intro!: change done_updates dest: expire_update)

lemma respond_updates:
  assumes "approval_respond_inner now i approved rewrite m = (res, m', effects)"
    and "rewrite \<noteq> None \<Longrightarrow> \<exists>r. m i = Some r \<and> is_rewritable r"
    and "rewrite \<noteq> None \<Longrightarrow> approved"
  shows "updates m effects m'"
proof (cases "m i")
  case None
  with assms show ?thesis by (auto simp: approval_respond_inner_def intro: done_updates)
next
  case (Some r)
  consider (late) "past_ttl now r" | (decided) "\<not> past_ttl now r" "req_status r \<noteq> Pending"
    | (open_yes) "\<not> past_ttl now r" "req_status r = Pending" approved
    | (open_no) "\<not> past_ttl now r" "req_status r = Pending" "\<not> approved"
    by blast
  then show ?thesis
  proof cases
    case late
    with assms(1) Some show ?thesis
      by (auto simp: approval_respond_inner_def update_simps Let_def intro!: change done_updates)
  next
    case decided
    with assms(1) Some show ?thesis by (auto simp: approval_respond_inner_def intro: done_updates)
  next
    case open_yes
    with assms Some show ?thesis
      by (auto simp: approval_respond_inner_def update_simps Let_def split: option.splits
          intro!: change responded done_updates)
  next
    case open_no
    with assms(1) Some show ?thesis
      by (auto simp: approval_respond_inner_def update_simps Let_def
          intro!: change responded done_updates)
  qed
qed

lemma check_rewrite_Some:
  "check_rewrite f ov i command m = Inr (Some c) \<Longrightarrow> \<exists>r. m i = Some r \<and> is_rewritable r"
  by (auto simp: check_rewrite_def is_rewritable_def Let_def split: option.splits if_splits)

lemma approve_rewritten_updates:
  "approval_approve_rewritten f ov now i command m = (res, m', effects) \<Longrightarrow> updates m effects m'"
  by (auto simp: approval_approve_rewritten_def split: sum.splits intro: done_updates
      dest: check_rewrite_Some elim!: respond_updates)

lemma revoke_updates: "revoke_approval now i m = (res, m', effects) \<Longrightarrow> updates m effects m'"
  by (auto simp: revoke_approval_def update_simps Let_def split: option.splits if_splits
      intro!: change responded done_updates)

lemma expire_all_updates: "expire_all now keys m = (m', effects) \<Longrightarrow> updates m effects m'"
proof (induction now keys m arbitrary: m' effects rule: expire_all.induct)
  case (2 now i "is" m)
  show ?case
  proof (cases "Option.bind (m i) (expire now)")
    case None
    with 2 show ?thesis by simp
  next
    case (Some r')
    then obtain r where r: "m i = Some r" "expire now r = Some r'"
      by (auto simp: bind_eq_Some_conv)
    obtain m'' es where rec: "expire_all now is (m(i \<mapsto> r')) = (m'', es)" by fastforce
    with 2(3) Some have "m' = m''" "effects = AppendLine r' # es" by auto
    moreover have "updates m (AppendLine r' # es) m''"
    proof (rule change [where m = m and r = r and i = i, OF r(1)])
      show "updates (m(i \<mapsto> r')) es m''" by (rule 2(2) [OF Some rec])
    qed (use expire_update [OF r(2)] in auto)
    ultimately show ?thesis by simp
  qed
qed (simp add: done_updates)

lemma run_event_updates:
  assumes "run_event e (requests s) = (m', effects)" "approval_enabled s e"
  shows "updates (requests s) effects m'"
proof (cases e)
  case (Request i now host command risk ttl ctx)
  then show ?thesis
    using assms new_request_ok insert_updates
    by (cases ctx) (auto simp: approval_request_with_ttl_def approval_request_with_context_def
        new_request_def insert_request_def intro!: create requested done_updates)
next
  case (Poll now i)
  then show ?thesis using assms by (metis poll_updates prod.collapse run_event.simps(3))
next
  case (Respond now i approved)
  then show ?thesis
    using assms respond_updates [of now i approved None "requests s"]
    by (metis approval_respond_def prod.collapse run_event.simps(4))
next
  case (ApproveRewritten f ov now i command)
  then show ?thesis using assms by (metis approve_rewritten_updates prod.collapse run_event.simps(5))
next
  case (Revoke now i)
  then show ?thesis using assms by (metis revoke_updates prod.collapse run_event.simps(6))
next
  case (ListAll now keys)
  then show ?thesis
    using assms by (auto simp: approval_list_def expire_all_updates split: prod.splits)
qed

section \<open>Runs\<close>

definition store_inv :: "approval_state \<Rightarrow> bool" where
  "store_inv s \<longleftrightarrow>
     (\<forall>i r. requests s i = Some r \<longrightarrow> request_ok i r) \<and> replay (journal s) = requests s"

definition store_evolves :: "approval_state \<Rightarrow> approval_state \<Rightarrow> bool" where
  "store_evolves s t \<longleftrightarrow>
     (\<forall>i r. requests s i = Some r \<longrightarrow> (\<exists>q. requests t i = Some q \<and> evolves r q))"

lemma replay_snoc: "replay (js @ [r]) = (replay js)(req_id r \<mapsto> r)"
  by (simp add: replay_def)

lemma updates_laws:
  "updates m effects m' \<Longrightarrow> \<forall>i r. m i = Some r \<longrightarrow> request_ok i r \<Longrightarrow> replay js = m \<Longrightarrow>
   let t = foldl perform \<lparr>requests = m', journal = js, published = ps\<rparr> effects
   in store_inv t \<and> requests t = m' \<and>
      (\<forall>i r. m i = Some r \<longrightarrow> (\<exists>q. m' i = Some q \<and> evolves r q))"
proof (induction arbitrary: js ps rule: updates.induct)
  case (done_updates m)
  then show ?case by (simp add: store_inv_def)
next
  case (create m i r effects m')
  then have "req_id r = i" by (simp add: request_ok_def)
  then have "replay (js @ [r]) = m(i \<mapsto> r)" using create.prems(2) by (simp add: replay_snoc)
  moreover have "\<forall>j q. (m(i \<mapsto> r)) j = Some q \<longrightarrow> request_ok j q"
    using create.prems(1) create.hyps(2) by simp
  ultimately show ?case
    using create.IH [of "js @ [r]" ps] create.hyps(1) by (simp add: Let_def) (metis option.distinct(1))
next
  case (change m i r r' effects m')
  have ok: "request_ok i r'" using change.hyps(1,3) change.prems(1) by blast
  then have "req_id r' = i" by (simp add: request_ok_def)
  then have "replay (js @ [r']) = m(i \<mapsto> r')" using change.prems(2) by (simp add: replay_snoc)
  moreover have "\<forall>j q. (m(i \<mapsto> r')) j = Some q \<longrightarrow> request_ok j q"
    using change.prems(1) ok by simp
  ultimately show ?case
    using change.IH [of "js @ [r']" ps] change.hyps(1,2)
    by (simp add: Let_def) (metis evolves_trans option.inject)
next
  case (requested m effects m' i h c k)
  then show ?case by simp
next
  case (responded m effects m' i b st c)
  then show ?case by simp
qed

lemma approval_step_laws:
  assumes "store_inv s" "approval_enabled s e"
  shows "store_inv (approval_step s e) \<and> store_evolves s (approval_step s e)"
proof -
  obtain m effects where run: "run_event e (requests s) = (m, effects)" by fastforce
  have s: "s\<lparr>requests := m\<rparr> = \<lparr>requests = m, journal = journal s, published = published s\<rparr>" by simp
  show ?thesis
    using updates_laws [OF run_event_updates [OF run assms(2)], of "journal s" "published s"] assms(1) run
    by (simp add: approval_step_def s store_inv_def store_evolves_def Let_def)
qed

interpretation approvals: progress_machine approval_step approval_enabled store_inv store_evolves
proof unfold_locales
  show "store_evolves s t \<Longrightarrow> store_evolves t u \<Longrightarrow> store_evolves s u" for s t u
    unfolding store_evolves_def by (metis evolves_trans)
next
  show "store_inv s \<Longrightarrow> approval_enabled s e \<Longrightarrow> store_evolves s (approval_step s e)" for s e
    by (simp add: approval_step_laws)
qed (auto simp: approval_step_laws, simp add: store_evolves_def)

lemma empty_store_inv [simp]: "store_inv empty_store"
  by (simp add: store_inv_def empty_store_def replay_def)

abbreviation approval_run :: "approval_event list \<Rightarrow> bool" where
  "approval_run \<equiv> admissible approval_step approval_enabled empty_store"

abbreviation store_after :: "approval_event list \<Rightarrow> approval_state" where
  "store_after \<equiv> foldl approval_step empty_store"

section \<open>Properties\<close>

definition demo_context :: approval_context where
  "demo_context = \<lparr>host_address = None, host_env = None, host_role = None, ctx_source = Some ''mcp'',
     recent_commands = [], ctx_risk_details = None, ctx_reason = None, ctx_change_id = None,
     rewritable = True\<rparr>"

text \<open>
  Property (C4): requests only move forward. Along any run, a request keeps its question (host,
  command, risk, age, context), its status only goes from pending to a decision and from approved
  to revoked, and what was approved never changes.
\<close>

theorem approval_lifecycle:
  assumes "approval_run (es @ fs)" "requests (store_after es) i = Some r"
  shows "\<exists>q. requests (store_after (es @ fs)) i = Some q \<and> evolves r q"
  using approvals.run_rel_between [OF empty_store_inv assms(1)] assms(2)
  by (simp add: store_evolves_def)

lemma demo_run:
  "requests (store_after [Request 7 0 ''web'' ''ls'' High 300 None, Respond 1 7 True]) 7 =
     Some (new_request 7 0 ''web'' ''ls'' High 300 None
       \<lparr>approved_command_snapshot := Some ''ls'', req_status := Approved\<rparr>)"
  "approval_run ([Request 7 0 ''web'' ''ls'' High 300 None, Respond 1 7 True] @ [Revoke 2 7])"
  by (simp_all add: approval_step_def empty_store_def approval_request_with_ttl_def
      insert_request_def approval_respond_def approval_respond_inner_def past_ttl_def new_request_def
      elapsed_secs_def signed_divide_int_def Let_def)

theorem approval_lifecycle_witness:
  "\<exists>q. requests (store_after [Request 7 0 ''web'' ''ls'' High 300 None, Respond 1 7 True, Revoke 2 7]) 7
     = Some q \<and> approved_command_snapshot q = Some ''ls''"
proof -
  obtain q where "requests (store_after ([Request 7 0 ''web'' ''ls'' High 300 None, Respond 1 7 True] @
      [Revoke 2 7])) 7 = Some q" "evolves (new_request 7 0 ''web'' ''ls'' High 300 None
       \<lparr>approved_command_snapshot := Some ''ls'', req_status := Approved\<rparr>) q"
    using approval_lifecycle [OF demo_run(2,1)] by blast
  then show ?thesis by (intro exI [of _ q]) (auto simp: evolves_def)
qed

text \<open>
  Property (C19): the snapshot is exactly what was approved. In every reachable store a request has
  a command snapshot precisely when it is approved or revoked, the snapshot is the rewritten text
  if there is one and the requested text otherwise, only a rewritable request is rewritten, and
  only a revoked one has a revocation time.
\<close>

theorem snapshot_is_approved_text:
  assumes "approval_run es" "requests (store_after es) i = Some r"
  shows "request_ok i r"
  using approvals.run_inv [OF empty_store_inv assms(1)] assms(2) by (simp add: store_inv_def)

theorem snapshot_is_approved_text_witness:
  "request_ok 7 (new_request 7 0 ''web'' ''ls'' High 300 None
       \<lparr>approved_command_snapshot := Some ''ls'', req_status := Approved\<rparr>)"
  using snapshot_is_approved_text [OF _ demo_run(1)] demo_run(2)
  by (auto simp: admissible_append)



text \<open>
  A response is accepted exactly when the request is known, still pending and
  within its time to live; it is then decided as asked, and otherwise no request becomes approved.
\<close>

theorem respond_accepted:
  "case approval_respond_inner now i approved rewrite m of (res, m', effects) \<Rightarrow>
     (res = Inr () \<longleftrightarrow>
        (\<exists>r. m i = Some r \<and> req_status r = Pending \<and> \<not> past_ttl now r)) \<and>
     (if res = Inr () then map_option req_status (m' i) = Some (if approved then Approved else Rejected)
      else {j. map_option req_status (m' j) = Some Approved} =
           {j. map_option req_status (m j) = Some Approved})"
proof (cases "m i")
  case None
  then show ?thesis by (simp add: approval_respond_inner_def)
next
  case (Some r)
  then show ?thesis
    by (cases "past_ttl now r"; cases "req_status r = Pending"; cases approved)
       (auto simp: approval_respond_inner_def Let_def)
qed

text \<open>
  A rewritten approval is never riskier than the question. When approving with other
  text succeeds, that text is what is approved, and unless it is the requested text itself, its
  risk on that host is not blocked and not above the requested risk.
\<close>

theorem rewrite_not_riskier:
  assumes "approval_approve_rewritten risk_of override_of now i command m = (Inr (), m', effects)"
  shows "\<exists>r q. m i = Some r \<and> m' i = Some q \<and> req_status q = Approved \<and> is_rewritable r \<and>
     approved_command_snapshot q = Some (trim command) \<and>
     (trim command = req_command r \<or>
      apply_risk_override (risk_of (trim command)) (override_of (req_host r)) \<noteq> Blocked \<and>
      apply_risk_override (risk_of (trim command)) (override_of (req_host r)) \<le> req_risk r)"
proof -
  from assms obtain rw where rw: "check_rewrite risk_of override_of i command m = Inr rw"
      "approval_respond_inner now i True rw m = (Inr (), m', effects)"
    by (auto simp: approval_approve_rewritten_def split: sum.splits)
  from rw(1) obtain r where r: "m i = Some r" "is_rewritable r"
      "rw = None \<and> trim command = req_command r \<or>
       rw = Some (trim command) \<and>
         (let risk = apply_risk_override (risk_of (trim command)) (override_of (req_host r))
          in risk \<noteq> Blocked \<and> risk \<le> req_risk r)"
    by (auto simp: check_rewrite_def is_rewritable_def Let_def sev_simps not_less
        split: option.splits if_splits)
  from rw(2) r(1) obtain q where "m' i = Some q" "req_status q = Approved"
      "approved_command_snapshot q = Some (case rw of None \<Rightarrow> req_command r | Some c \<Rightarrow> c)"
    by (auto simp: approval_respond_inner_def Let_def split: if_splits)
  with r show ?thesis by (auto simp: Let_def)
qed

theorem rewrite_not_riskier_witness:
  "\<exists>q. (fst (snd (approval_approve_rewritten (\<lambda>_. Low) (\<lambda>_. None) 1 7 '' ls '' 
        [7 \<mapsto> new_request 7 0 ''web'' ''rm -rf x'' High 300 (Some demo_context)]))) 7 = Some q \<and>
     approved_command_snapshot q = Some ''ls''"
proof -
  have trim: "trim '' ls '' = ''ls''" by code_simp
  obtain m' effects where "approval_approve_rewritten (\<lambda>_. Low) (\<lambda>_. None) 1 7 '' ls ''
        [7 \<mapsto> new_request 7 0 ''web'' ''rm -rf x'' High 300 (Some demo_context)] = (Inr (), m', effects)"
    by (simp add: approval_approve_rewritten_def check_rewrite_def trim approval_respond_inner_def
        new_request_def demo_context_def past_ttl_def elapsed_secs_def signed_divide_int_def
        apply_risk_override_def Let_def)
  from this rewrite_not_riskier [OF this] show ?thesis by (auto simp: trim)
qed

lemma approval_poll_same:
  "approval_poll now i m = (Some Pending, m', effects) \<Longrightarrow> m' = m"
  by (auto simp: approval_poll_def split: option.splits)

lemma wait_not_Pending: "approval_wait nows i m = Some (s, m', effects) \<Longrightarrow> s \<noteq> Pending"
proof (induction nows arbitrary: m m' effects)
  case (Cons t nows)
  obtain st m1 es where poll: "approval_poll t i m = (st, m1, es)" by (metis prod_cases3)
  show ?case
  proof (cases "st = Some Pending")
    case True
    with Cons.prems poll obtain es' where "approval_wait nows i m1 = Some (s, m', es')" by auto
    then show ?thesis by (rule Cons.IH)
  next
    case False
    with Cons.prems poll show ?thesis by (cases st) auto
  qed
qed simp

text \<open>
  Property (C40): waiting ends. A poll after the time to live decides the request, so
  \<open>approval_wait\<close> returns by then, and never with \<open>Pending\<close>.
\<close>

theorem approval_wait_ends:
  assumes "m i = Some r" "now \<in> set nows" "past_ttl now r"
  shows "\<exists>s m' effects. approval_wait nows i m = Some (s, m', effects) \<and> s \<noteq> Pending"
proof -
  have "\<exists>x. approval_wait nows i m = Some x"
    using assms
  proof (induction nows)
    case (Cons t nows)
    obtain st m' es where poll: "approval_poll t i m = (st, m', es)" by (metis prod_cases3)
    show ?case
    proof (cases "st = Some Pending")
      case True
      with poll have same: "m' = m" using approval_poll_same by simp
      moreover have "now \<noteq> t"
        using poll True Cons.prems by (auto simp: approval_poll_def expire_def split: if_splits)
      ultimately show ?thesis using Cons True poll by auto
    next
      case False
      with poll show ?thesis by (cases st) auto
    qed
  qed simp
  then show ?thesis using wait_not_Pending by fastforce
qed

theorem approval_wait_ends_witness:
  "\<exists>s m' effects. approval_wait [0, 500000000, 301000000000] 7
      [7 \<mapsto> new_request 7 0 ''web'' ''ls'' High 300 None] = Some (s, m', effects) \<and> s \<noteq> Pending"
proof (rule approval_wait_ends)
  show "[7 \<mapsto> new_request 7 0 ''web'' ''ls'' High 300 None] 7 =
      Some (new_request 7 0 ''web'' ''ls'' High 300 None)" by simp
  show "301000000000 \<in> set [0, 500000000, 301000000000 :: int]" by simp
  show "past_ttl 301000000000 (new_request 7 0 ''web'' ''ls'' High 300 None)"
    by (simp add: new_request_def past_ttl_def elapsed_secs_def signed_divide_int_def)
qed

end
