(* ===== verification/Text_Split.thy ===== *)
theory Text_Split
  imports Rust_Text
begin

text \<open>
  Text operations of the standard library shared by the file formats: cutting a string at the first
  occurrence of another, lines, the decimal form of a number, and the control characters.
\<close>

text \<open>\<open>s.find(p)\<close>: what stands before the first occurrence, and what follows it.\<close>

fun split_once :: "str \<Rightarrow> str \<Rightarrow> (str \<times> str) option" where
  "split_once p [] = (if p = [] then Some ([], []) else None)"
| "split_once p (c # s) =
     (if starts_with (c # s) p then Some ([], drop (length p) (c # s))
      else map_option (\<lambda>(u, v). (c # u, v)) (split_once p s))"

lemma split_once_Some: "split_once p s = Some (u, v) \<Longrightarrow> s = u @ p @ v"
proof (induction s arbitrary: u)
  case (Cons c s)
  then show ?case
    by (auto split: if_splits simp: starts_with_prefix prefix_def)
qed (auto split: if_splits)

lemma split_once_None: "split_once p s = None \<longleftrightarrow> \<not> contains s p"
  by (induction s) auto

lemma split_once_first: "split_once p s = Some (u, v) \<Longrightarrow> p \<noteq> [] \<Longrightarrow> \<not> contains u p"
proof (induction s arbitrary: u)
  case (Cons c s)
  then show ?case
  proof (cases "starts_with (c # s) p")
    case True
    with Cons.prems show ?thesis by simp
  next
    case False
    with Cons.prems obtain w where w: "u = c # w" "split_once p s = Some (w, v)" by auto
    have "prefix w s" using split_once_Some [OF w(2)] by (auto simp: prefix_def)
    then have "\<not> starts_with (c # w) p" using False
      by (auto simp: starts_with_prefix simp del: starts_with.simps)
        (metis (no_types) prefix_Cons prefix_order.trans)
    with Cons.IH [OF w(2)] Cons.prems(2) w(1) show ?thesis by (simp del: starts_with.simps)
  qed
qed simp

lemma split_once_exact:
  "p \<noteq> [] \<Longrightarrow> \<not> contains (u @ butlast p) p \<Longrightarrow> split_once p (u @ p @ v) = Some (u, v)"
proof (induction u)
  case Nil
  then show ?case by (cases p) (auto simp: starts_with_prefix)
next
  case (Cons c u)
  have "\<not> starts_with (c # u @ p @ v) p"
  proof
    assume "starts_with (c # u @ p @ v) p"
    then have "prefix p (c # u @ p @ v)" by (simp add: starts_with_prefix)
    moreover have "prefix (c # u @ butlast p) (c # u @ p @ v)"
      by (metis append.assoc append_Cons append_butlast_last_id Cons.prems(1) prefixI)
    moreover have "length p \<le> length (c # u @ butlast p)" using Cons.prems(1) by (cases p rule: rev_cases) auto
    ultimately have "prefix p (c # u @ butlast p)" by (metis prefix_length_prefix)
    with Cons.prems(2) show False by (simp add: starts_with_prefix del: starts_with.simps)
  qed
  moreover have "\<not> contains (u @ butlast p) p" using Cons.prems(2) by (simp del: starts_with.simps)
  ultimately show ?case using Cons by (simp del: starts_with.simps)
qed

text \<open>
  \<open>char::is_control\<close> on one character (the bytes of one): C0, DEL, and C1, which is \<open>0xC2\<close> followed by
  a byte from \<open>0x80\<close> to \<open>0x9F\<close>.
\<close>

definition is_control_char :: "str \<Rightarrow> bool" where
  "is_control_char c =
     (case c of
        [b] \<Rightarrow> (of_char b :: nat) \<le> 0x1F \<or> (of_char b :: nat) = 0x7F
      | [b, d] \<Rightarrow> b = CHR 0xC2 \<and> (0x80 :: nat) \<le> of_char d \<and> (of_char d :: nat) \<le> 0x9F
      | _ \<Rightarrow> False)"

section \<open>Decimal numbers\<close>

definition digit_char :: "nat \<Rightarrow> char" where
  "digit_char d = char_of (48 + d)"

text \<open>\<open>to_string\<close> on an unsigned integer.\<close>

fun show_nat :: "nat \<Rightarrow> str" where
  "show_nat n = (if n < 10 then [digit_char n] else show_nat (n div 10) @ [digit_char (n mod 10)])"

declare show_nat.simps [simp del]

text \<open>\<open>to_string\<close> on a signed integer.\<close>

definition show_int :: "int \<Rightarrow> str" where
  "show_int i = (if i < 0 then ''-'' @ show_nat (nat (- i)) else show_nat (nat i))"

lemma small_digit: "d < 10 \<Longrightarrow> d \<in> {0, 1, 2, 3, 4, 5, 6, 7, 8, 9 :: nat}"
  by auto

lemma digit_value_digit: "d < 10 \<Longrightarrow> digit_value 10 (digit_char d) = Some d"
  by (drule small_digit) (auto simp: digit_value_def digit_char_def is_ascii_digit_def)

lemma digit_char_plain: "d < 10 \<Longrightarrow> digit_char d \<noteq> CHR ''+'' \<and> \<not> is_ws (digit_char d)"
  by (drule small_digit) (auto simp: digit_char_def is_ws_def char_of_def bit_iff_odd)

lemma digits_value_snoc:
  "digits_value r acc (s @ [c]) =
     (case digits_value r acc s of
        None \<Rightarrow> None
      | Some n \<Rightarrow> (case digit_value r c of None \<Rightarrow> None | Some d \<Rightarrow> Some (n * r + d)))"
  by (induction s arbitrary: acc) (auto split: option.splits)

lemma digits_value_show: "digits_value 10 0 (show_nat n) = Some n"
proof (induction n rule: show_nat.induct)
  case (1 n)
  show ?case
  proof (cases "n < 10")
    case True
    then show ?thesis by (simp add: show_nat.simps [of n] digit_value_digit)
  next
    case False
    with 1 show ?thesis
      by (simp add: show_nat.simps [of n] digits_value_snoc digit_value_digit)
  qed
qed

lemma show_nat_plain: "list_all (\<lambda>c. c \<noteq> CHR ''+'' \<and> \<not> is_ws c) (show_nat n)"
proof (induction n rule: show_nat.induct)
  case (1 n)
  then show ?case by (subst show_nat.simps) (simp add: digit_char_plain)
qed

lemma show_nat_not_Nil [simp]: "show_nat n \<noteq> []"
  by (subst show_nat.simps) simp

lemma parse_show: "n < 2 ^ w \<Longrightarrow> from_str_radix w 10 (show_nat n) = Some n"
  using show_nat_plain [of n] digits_value_show [of n]
  by (cases "show_nat n") (auto simp: from_str_radix_def Let_def)

section \<open>Lines\<close>

definition strip_cr :: "str \<Rightarrow> str" where
  "strip_cr l = (if l \<noteq> [] \<and> last l = CHR 0x0D then butlast l else l)"

text \<open>\<open>str::lines\<close>: the lines a newline ends, without a carriage return before it, and what follows
  the last newline unless it is empty.\<close>

definition str_lines :: "str \<Rightarrow> str list" where
  "str_lines s =
     (let ps = split_char newline s
      in map strip_cr (butlast ps) @ (if last ps = [] then [] else [last ps]))"

lemma split_char_line: "d \<notin> set l \<Longrightarrow> split_char d (l @ d # s) = l # split_char d s"
  by (induction l) auto

lemma str_lines_rendered:
  assumes "\<forall>r \<in> set rs. newline \<notin> set (render r)"
  shows "str_lines (concat (map (\<lambda>r. render r @ [newline]) rs)) = map (strip_cr \<circ> render) rs"
proof -
  have "split_char newline (concat (map (\<lambda>r. render r @ [newline]) rs)) = map render rs @ [[]]"
    using assms by (induction rs) (simp_all add: split_char_line)
  then show ?thesis by (simp add: str_lines_def)
qed

lemma strip_cr_trimmed: "trim l = l \<Longrightarrow> strip_cr l = l"
proof -
  assume trimmed: "trim l = l"
  have "\<not> is_ws (last l)" if "l \<noteq> []"
  proof -
    have "trim_end l = l" using trimmed
      by (metis length_dropWhile_le length_rev nle_le trim_def trim_end_def trim_end_idem)
    then show ?thesis
      by (metis that trim_end_def dropWhile_eq_self_iff last_rev rev_is_Nil_conv rev_rev_ident hd_rev)
  qed
  then show ?thesis by (auto simp: strip_cr_def is_ws_def)
qed


end
