(* ===== verification/Approval_Journal.thy ===== *)
theory Approval_Journal
  imports Approval_Laws Text_Split
begin

text \<open>
  The files behind the approval store (\<open>approval.rs\<close>): loading the JSONL journal, the one-time
  migration of the legacy JSON array, and the compaction of expired entries. serde is third-party:
  the codec of one line and of the legacy array are arguments, with the round trip they document
  as a hypothesis where a property needs it. So is the order in which a hash map is walked, the
  list \<open>keys\<close>. Other file errors are not modelled.
\<close>

record approval_files =
  legacy_json :: "str option"
  jsonl :: "str option"

section \<open>Retention\<close>

definition parse_i64 :: "str \<Rightarrow> int option" where
  "parse_i64 s =
     (case s of
        c # r \<Rightarrow>
          if c = CHR ''-'' then
            (case digits_value 10 0 r of
               None \<Rightarrow> None
             | Some n \<Rightarrow> if r = [] \<or> n > 2 ^ 63 then None else Some (- int n))
          else map_option int (from_str_radix 63 10 s)
      | [] \<Rightarrow> None)"

definition approval_retention_days :: "str option \<Rightarrow> int" where
  "approval_retention_days env =
     (case Option.bind env parse_i64 of
        Some n \<Rightarrow> if n > 0 then n else 30
      | None \<Rightarrow> 30)"

definition cutoff :: "int \<Rightarrow> int \<Rightarrow> int" where
  "cutoff now days = now - days * 86400 * 1000000000"

section \<open>Loading\<close>

definition add_line ::
  "(str \<Rightarrow> approval_request option) \<Rightarrow> approvals \<Rightarrow> str \<Rightarrow> approvals" where
  "add_line parse m line =
     (let l = trim line
      in if l = [] then m
         else case parse l of Some r \<Rightarrow> m(req_id r \<mapsto> r) | None \<Rightarrow> m)"

definition retain :: "int \<Rightarrow> approvals \<Rightarrow> approvals" where
  "retain limit m =
     (\<lambda>i. case m i of Some r \<Rightarrow> if requested_at r > limit then Some r else None | None \<Rightarrow> None)"

definition compact_approvals ::
  "(approval_request \<Rightarrow> str) \<Rightarrow> uuid list \<Rightarrow> approvals \<Rightarrow> str" where
  "compact_approvals render keys m =
     concat (map (\<lambda>r. render r @ [newline])
       (sort_key requested_at (List.map_filter m keys)))"

text \<open>
  The migration: existing journal entries, overridden by the legacy ones, rewritten as the journal;
  the renaming of the legacy file may fail and its result is ignored. \<open>None\<close> is the error of a
  legacy file that does not parse.
\<close>

definition migrate_legacy_approvals ::
  "(str \<Rightarrow> approval_request option) \<Rightarrow> (str \<Rightarrow> approval_request list option) \<Rightarrow>
   (approval_request \<Rightarrow> str) \<Rightarrow> uuid list \<Rightarrow> bool \<Rightarrow> approval_files \<Rightarrow> approval_files option" where
  "migrate_legacy_approvals parse parse_legacy render keys rename_ok files =
     (case legacy_json files of
        None \<Rightarrow> Some files
      | Some raw \<Rightarrow>
          (case parse_legacy raw of
             None \<Rightarrow> None
           | Some entries \<Rightarrow>
               (let existing = (case jsonl files of
                      None \<Rightarrow> Map.empty
                    | Some j \<Rightarrow> foldl (\<lambda>m line. case parse (trim line) of
                        Some r \<Rightarrow> m(req_id r \<mapsto> r) | None \<Rightarrow> m) Map.empty (str_lines j));
                    merged = foldl (\<lambda>m r. m(req_id r \<mapsto> r)) existing entries
                in Some \<lparr>legacy_json = (if rename_ok then None else Some raw),
                         jsonl = Some (compact_approvals render keys merged)\<rparr>)))"

definition read_journal ::
  "(str \<Rightarrow> approval_request option) \<Rightarrow> int \<Rightarrow> int \<Rightarrow> str option \<Rightarrow> approvals" where
  "read_journal parse now days file_text =
     (case file_text of
        None \<Rightarrow> Map.empty
      | Some raw \<Rightarrow>
          retain (cutoff now days) (foldl (add_line parse) Map.empty (str_lines raw)))"

definition load_approvals_from_disk ::
  "(str \<Rightarrow> approval_request option) \<Rightarrow> (str \<Rightarrow> approval_request list option) \<Rightarrow>
   (approval_request \<Rightarrow> str) \<Rightarrow> uuid list \<Rightarrow> bool \<Rightarrow> int \<Rightarrow> int \<Rightarrow> approval_files \<Rightarrow>
   (approvals \<times> approval_files) option" where
  "load_approvals_from_disk parse parse_legacy render keys rename_ok now days files =
     map_option (\<lambda>files'. (read_journal parse now days (jsonl files'), files'))
       (migrate_legacy_approvals parse parse_legacy render keys rename_ok files)"

section \<open>Cleanup\<close>

record approvals_classification =
  dropped_lines :: nat
  kept_requests :: approvals

record approvals_cleanup =
  dropped :: nat
  kept :: nat

fun classify_lines ::
  "(str \<Rightarrow> approval_request option) \<Rightarrow> int \<Rightarrow> approvals_classification \<Rightarrow> str list \<Rightarrow>
   approvals_classification" where
  "classify_lines parse limit c [] = c"
| "classify_lines parse limit c (line # ls) =
     classify_lines parse limit
       (case parse (trim line) of
          None \<Rightarrow> c
        | Some r \<Rightarrow>
            if requested_at r > limit then c\<lparr>kept_requests := (kept_requests c)(req_id r \<mapsto> r)\<rparr>
            else c\<lparr>dropped_lines := dropped_lines c + 1\<rparr>) ls"

definition classify_approvals ::
  "(str \<Rightarrow> approval_request option) \<Rightarrow> int \<Rightarrow> int \<Rightarrow> str \<Rightarrow> approvals_classification" where
  "classify_approvals parse now days raw =
     classify_lines parse (cutoff now days) \<lparr>dropped_lines = 0, kept_requests = Map.empty\<rparr>
       (str_lines raw)"

definition cleanup_noop :: approvals_cleanup where
  "cleanup_noop = \<lparr>dropped = 0, kept = 0\<rparr>"

definition cleanup_expired_approvals ::
  "(str \<Rightarrow> approval_request option) \<Rightarrow> (approval_request \<Rightarrow> str) \<Rightarrow> uuid list \<Rightarrow> bool \<Rightarrow> int \<Rightarrow> int \<Rightarrow>
   approval_files \<Rightarrow> approvals_cleanup \<times> approval_files" where
  "cleanup_expired_approvals parse render keys persist now days files =
     (if \<not> persist then (cleanup_noop, files)
      else case jsonl files of
        None \<Rightarrow> (cleanup_noop, files)
      | Some raw \<Rightarrow>
          (let outcome = classify_approvals parse now days raw
           in (\<lparr>dropped = dropped_lines outcome, kept = card (dom (kept_requests outcome))\<rparr>,
               if dropped_lines outcome > 0
               then files\<lparr>jsonl := Some (compact_approvals render keys (kept_requests outcome))\<rparr>
               else files)))"

definition preview_expired_approvals ::
  "(str \<Rightarrow> approval_request option) \<Rightarrow> bool \<Rightarrow> int \<Rightarrow> int \<Rightarrow> approval_files \<Rightarrow> approvals_cleanup" where
  "preview_expired_approvals parse persist now days files =
     (if \<not> persist then cleanup_noop
      else case jsonl files of
        None \<Rightarrow> cleanup_noop
      | Some raw \<Rightarrow>
          (let outcome = classify_approvals parse now days raw
           in \<lparr>dropped = dropped_lines outcome, kept = card (dom (kept_requests outcome))\<rparr>))"

section \<open>The written file reads back\<close>

definition line_codec ::
  "(str \<Rightarrow> approval_request option) \<Rightarrow> (approval_request \<Rightarrow> str) \<Rightarrow> approval_request \<Rightarrow> bool" where
  "line_codec parse render r \<longleftrightarrow>
     parse (render r) = Some r \<and> newline \<notin> set (render r) \<and> render r \<noteq> [] \<and>
     trim (render r) = render r"

lemma add_line_rendered:
  "line_codec parse render r \<Longrightarrow> add_line parse m (strip_cr (render r)) = m(req_id r \<mapsto> r)"
  by (simp add: line_codec_def add_line_def strip_cr_trimmed)

lemma foldl_add_rendered:
  "\<forall>r \<in> set rs. line_codec parse render r \<Longrightarrow>
   foldl (add_line parse) m (map (strip_cr \<circ> render) rs) = foldl (\<lambda>m r. m(req_id r \<mapsto> r)) m rs"
  by (induction rs arbitrary: m) (simp_all add: add_line_rendered)

lemma foldl_insert_distinct:
  "distinct (map req_id rs) \<Longrightarrow>
   foldl (\<lambda>m r. m(req_id r \<mapsto> r)) m rs i =
     (case List.find (\<lambda>r. req_id r = i) rs of Some r \<Rightarrow> Some r | None \<Rightarrow> m i)"
proof (induction rs arbitrary: m)
  case (Cons r rs)
  have "List.find (\<lambda>r. req_id r = i) rs = None" if "req_id r = i"
    using Cons.prems that by (auto simp: find_None_iff) (metis image_eqI)
  with Cons show ?case by (auto split: option.splits)
qed simp

definition keyed :: "approvals \<Rightarrow> bool" where
  "keyed m \<longleftrightarrow> (\<forall>i r. m i = Some r \<longrightarrow> req_id r = i)"

definition enumerates :: "uuid list \<Rightarrow> approvals \<Rightarrow> bool" where
  "enumerates keys m \<longleftrightarrow> distinct keys \<and> set keys = dom m"

lemma map_filter_ids:
  "keyed m \<Longrightarrow> set keys \<subseteq> dom m \<Longrightarrow> map req_id (List.map_filter m keys) = keys"
  by (induction keys) (auto simp: List.map_filter_simps keyed_def split: option.splits)

lemma compact_reads_back:
  assumes "keyed m" "enumerates keys m" "\<forall>r \<in> ran m. line_codec parse render r"
  shows "foldl (add_line parse) Map.empty (str_lines (compact_approvals render keys m)) = m"
proof -
  let ?rs = "sort_key requested_at (List.map_filter m keys)"
  have ran: "set ?rs \<subseteq> ran m"
    by (auto simp: List.map_filter_def ran_def)
  have ids: "distinct (map req_id ?rs)"
  proof -
    have "distinct (map req_id (List.map_filter m keys))"
      using assms(1,2) map_filter_ids [of m keys] by (simp add: enumerates_def)
    then show ?thesis by (simp add: distinct_map)
  qed
  have lines: "str_lines (compact_approvals render keys m) = map (strip_cr \<circ> render) ?rs"
    unfolding compact_approvals_def using assms(3) ran
    by (intro str_lines_rendered) (auto simp: line_codec_def)
  have "foldl (add_line parse) Map.empty (map (strip_cr \<circ> render) ?rs) =
      foldl (\<lambda>m r. m(req_id r \<mapsto> r)) Map.empty ?rs"
    using assms(3) ran by (intro foldl_add_rendered) auto
  also have "\<dots> = m"
  proof
    fix i
    have "foldl (\<lambda>m r. m(req_id r \<mapsto> r)) Map.empty ?rs i = List.find (\<lambda>r. req_id r = i) ?rs"
      using foldl_insert_distinct [OF ids, of Map.empty i] by (auto split: option.splits)
    also have "\<dots> = m i"
    proof (cases "m i")
      case None
      then have "\<forall>r \<in> set ?rs. req_id r \<noteq> i"
        using ran assms(1) by (auto simp: keyed_def ran_def)
      with None show ?thesis by (auto simp: find_None_iff)
    next
      case (Some r)
      then have "i \<in> set keys" using assms(2) by (auto simp: enumerates_def)
      then have mem: "r \<in> set ?rs" using Some by (force simp: List.map_filter_def)
      have ri: "req_id r = i" using Some assms(1) by (auto simp: keyed_def)
      obtain q where q: "List.find (\<lambda>r. req_id r = i) ?rs = Some q"
        using mem ri by (cases "List.find (\<lambda>r. req_id r = i) ?rs") (auto simp: find_None_iff)
      then obtain k where "k < length ?rs" "req_id (?rs ! k) = i" "q = ?rs ! k"
        by (auto simp: find_Some_iff)
      then have "q \<in> set ?rs" "req_id q = i" using nth_mem by blast+
      with mem ri ids have "q = r" by (metis distinct_map inj_onD)
      with q Some show ?thesis by simp
    qed
    finally show "foldl (\<lambda>m r. m(req_id r \<mapsto> r)) Map.empty ?rs i = m i" .
  qed
  finally show ?thesis using lines by simp
qed

section \<open>Cleanup and load agree\<close>

text \<open>Every line of one request carries the instant of its creation.\<close>

definition ages_agree :: "(str \<Rightarrow> approval_request option) \<Rightarrow> str list \<Rightarrow> bool" where
  "ages_agree parse ls \<longleftrightarrow>
     (\<forall>l \<in> set ls. \<forall>l' \<in> set ls.
        case (parse (trim l), parse (trim l')) of
          (Some r, Some r') \<Rightarrow> req_id r = req_id r' \<longrightarrow> requested_at r = requested_at r'
        | _ \<Rightarrow> True)"

definition ages_known :: "(str \<Rightarrow> approval_request option) \<Rightarrow> str list \<Rightarrow> approvals \<Rightarrow> bool" where
  "ages_known parse ls m \<longleftrightarrow>
     (\<forall>l \<in> set ls. case parse (trim l) of
        None \<Rightarrow> True
      | Some r \<Rightarrow> (case m (req_id r) of None \<Rightarrow> True | Some q \<Rightarrow> requested_at q = requested_at r))"

lemma classify_lines_kept:
  "parse [] = None \<Longrightarrow> ages_agree parse ls \<Longrightarrow> ages_known parse ls m \<Longrightarrow>
   kept_requests (classify_lines parse limit \<lparr>dropped_lines = n, kept_requests = retain limit m\<rparr> ls) =
     retain limit (foldl (add_line parse) m ls)"
proof (induction ls arbitrary: n m)
  case (Cons l ls)
  have tails: "ages_agree parse ls" using Cons.prems(2) by (simp add: ages_agree_def)
  show ?case
  proof (cases "parse (trim l)")
    case None
    then have "add_line parse m l = m" by (simp add: add_line_def Let_def)
    moreover have "ages_known parse ls m" using Cons.prems(3) by (simp add: ages_known_def)
    ultimately show ?thesis using None Cons.IH [OF Cons.prems(1) tails] by simp
  next
    case (Some r)
    then have add: "add_line parse m l = m(req_id r \<mapsto> r)"
      using Cons.prems(1) by (auto simp: add_line_def Let_def)
    have agree: "requested_at r = requested_at r'"
      if "l' \<in> set ls" "parse (trim l') = Some r'" "req_id r = req_id r'" for l' r'
      using Cons.prems(2) that Some by (fastforce simp: ages_agree_def)
    have known: "ages_known parse ls (m(req_id r \<mapsto> r))"
      unfolding ages_known_def
    proof
      fix l' assume l': "l' \<in> set ls"
      then have "case parse (trim l') of None \<Rightarrow> True
          | Some r \<Rightarrow> (case m (req_id r) of None \<Rightarrow> True | Some q \<Rightarrow> requested_at q = requested_at r)"
        using Cons.prems(3) by (simp add: ages_known_def)
      with agree [OF l'] show "case parse (trim l') of None \<Rightarrow> True
          | Some r' \<Rightarrow> (case (m(req_id r \<mapsto> r)) (req_id r') of None \<Rightarrow> True
              | Some q \<Rightarrow> requested_at q = requested_at r')"
        by (cases "parse (trim l')") auto
    qed
    have same: "retain limit (m(req_id r \<mapsto> r)) = retain limit m" if "\<not> requested_at r > limit"
      using Cons.prems(3) Some that
      by (auto simp: retain_def ages_known_def fun_eq_iff split: option.splits)
    have put: "(retain limit m)(req_id r \<mapsto> r) = retain limit (m(req_id r \<mapsto> r))"
      if "requested_at r > limit"
      using that by (auto simp: retain_def)
    have "kept_requests (classify_lines parse limit
          \<lparr>dropped_lines = n, kept_requests = retain limit m\<rparr> (l # ls)) =
        kept_requests (classify_lines parse limit
          \<lparr>dropped_lines = (if requested_at r > limit then n else n + 1),
           kept_requests = retain limit (m(req_id r \<mapsto> r))\<rparr> ls)"
      using Some put same by (cases "requested_at r > limit") simp_all
    also have "\<dots> = retain limit (foldl (add_line parse) (m(req_id r \<mapsto> r)) ls)"
      by (rule Cons.IH [OF Cons.prems(1) tails known])
    finally show ?thesis by (simp only: add foldl_Cons)
  qed
qed simp

lemma retain_idem [simp]: "retain limit (retain limit m) = retain limit m"
  by (auto simp: retain_def split: option.splits)

lemma retain_empty [simp]: "retain limit Map.empty = Map.empty"
  by (simp add: retain_def)

lemma add_line_keyed: "keyed m \<Longrightarrow> keyed (add_line parse m l)"
  by (cases "trim l = []"; cases "parse (trim l)") (simp_all add: add_line_def keyed_def Let_def)

lemma foldl_add_keyed: "keyed m \<Longrightarrow> keyed (foldl (add_line parse) m ls)"
  by (induction ls arbitrary: m) (simp_all add: add_line_keyed)

lemma retain_keyed: "keyed m \<Longrightarrow> keyed (retain limit m)"
  by (auto simp: keyed_def retain_def split: option.splits if_splits)

text \<open>
  Property (C37): compacting the journal does not change what is loaded from it. For a journal whose
  lines of one request agree on its age, and a codec that reads back what it writes, the store
  loaded after a cleanup is the store loaded before it.
\<close>

theorem cleanup_preserves_load:
  assumes "jsonl files = Some raw" "parse [] = None" "ages_agree parse (str_lines raw)"
    and "enumerates keys (kept_requests (classify_approvals parse now days raw))"
    and "\<forall>r \<in> ran (kept_requests (classify_approvals parse now days raw)). line_codec parse render r"
  shows "read_journal parse now days
      (jsonl (snd (cleanup_expired_approvals parse render keys persist now days files))) =
    read_journal parse now days (jsonl files)"
proof -
  let ?c = "classify_approvals parse now days raw"
  let ?m = "foldl (add_line parse) Map.empty (str_lines raw)"
  have kept: "kept_requests ?c = retain (cutoff now days) ?m"
    using classify_lines_kept [OF assms(2,3), of Map.empty "cutoff now days" 0]
    by (simp add: classify_approvals_def ages_known_def split: option.split)
  have "keyed (kept_requests ?c)"
    unfolding kept by (intro retain_keyed foldl_add_keyed) (simp add: keyed_def)
  from compact_reads_back [OF this assms(4,5)]
  show ?thesis using assms(1) kept
    by (simp add: cleanup_expired_approvals_def read_journal_def Let_def)
qed

definition demo_request :: "uuid \<Rightarrow> int \<Rightarrow> approval_status \<Rightarrow> approval_request" where
  "demo_request i t st = (new_request i t ''web'' ''ls'' High 300 None)\<lparr>req_status := st\<rparr>"

definition demo_parse :: "str \<Rightarrow> approval_request option" where
  "demo_parse l =
     (if l = ''old'' then Some (demo_request 1 0 Approved)
      else if l = ''new'' then Some (demo_request 2 5000000000000000 Approved)
      else if l = ''revoked'' then Some (demo_request 2 5000000000000000 Revoked)
      else None)"

definition demo_render :: "approval_request \<Rightarrow> str" where
  "demo_render r =
     (if req_id r = 1 then ''old'' else if req_status r = Revoked then ''revoked'' else ''new'')"

definition demo_files :: approval_files where
  "demo_files = \<lparr>legacy_json = None, jsonl = Some (''old'' @ [newline] @ ''new'' @ [newline])\<rparr>"

lemmas journal_eval = demo_parse_def demo_request_def demo_render_def new_request_def cutoff_def
  classify_approvals_def line_codec_def str_lines_def strip_cr_def

lemma demo_trim [simp]:
  "trim ''old'' = ''old''" "trim ''new'' = ''new''" "trim ''revoked'' = ''revoked''" "trim [] = []"
  by code_simp+

theorem cleanup_preserves_load_witness:
  "read_journal demo_parse 5000000000000000 30 (jsonl (snd
     (cleanup_expired_approvals demo_parse demo_render [2] True 5000000000000000 30 demo_files))) 2 =
   Some (demo_request 2 5000000000000000 Approved)"
proof -
  let ?raw = "''old'' @ [newline] @ ''new'' @ [newline]"
  have kept: "kept_requests (classify_approvals demo_parse 5000000000000000 30 ?raw) =
      [2 \<mapsto> demo_request 2 5000000000000000 Approved]"
    by (simp add: journal_eval)
  have "read_journal demo_parse 5000000000000000 30 (jsonl (snd
      (cleanup_expired_approvals demo_parse demo_render [2] True 5000000000000000 30 demo_files))) =
    read_journal demo_parse 5000000000000000 30 (jsonl demo_files)"
  proof (rule cleanup_preserves_load)
    show "jsonl demo_files = Some ?raw" by (simp add: demo_files_def)
  qed (unfold kept, auto simp: journal_eval ages_agree_def enumerates_def)
  then show ?thesis
    by (simp add: read_journal_def demo_files_def add_line_def retain_def journal_eval)
qed

section \<open>What the migration undoes\<close>

text \<open>
  Legacy entries override the journal, and a failed renaming of the legacy file is ignored: the next
  load migrates again and takes back what happened in between, here a revocation.
\<close>

lemma repeated_migration_undoes_revocation:
  "map_option (\<lambda>(m, files). map_option req_status (m 2))
     (load_approvals_from_disk demo_parse (\<lambda>_. Some [demo_request 2 5000000000000000 Approved])
        demo_render [2] False 5000000000000000 30
        \<lparr>legacy_json = Some ''[]'', jsonl = Some (''revoked'' @ [newline])\<rparr>) = Some (Some Approved)"
  "map_option req_status (read_journal demo_parse 5000000000000000 30 (Some (''revoked'' @ [newline])) 2)
     = Some Revoked"
  by (simp_all add: load_approvals_from_disk_def migrate_legacy_approvals_def read_journal_def
      compact_approvals_def List.map_filter_def add_line_def retain_def journal_eval Let_def)

text \<open>
  A journal with a superseded line: the doc comment counts it as dropped, the classification does not.
\<close>

lemma superseded_line_not_dropped:
  "dropped_lines (classify_approvals demo_parse 5000000000000000 30
     (''new'' @ [newline] @ ''revoked'' @ [newline])) = 0"
  by (simp add: journal_eval)

end
