(* ===== verification/Approval_Races.thy ===== *)
theory Approval_Races
  imports Approval_Laws
begin

text \<open>
  Concurrent tasks on the approval store. The critical sections of \<open>approval.rs\<close> are atomic, but
  each task appends its journal line and publishes its event only after it has released the lock
  (\<open>drop(s)\<close> before \<open>append_approval\<close>). A schedule interleaves critical sections and the pending
  effects of the tasks. No change is lost, but the journal may hold the changes of one request in
  another order than they happened in, and the last line wins when the file is loaded.
\<close>

record concurrent_state =
  memory :: approvals
  file_lines :: "approval_request list"
  in_flight :: "approval_effect list list"

datatype schedule_step = Critical approval_event | Continue nat

fun file_effect :: "approval_request list \<Rightarrow> approval_effect \<Rightarrow> approval_request list" where
  "file_effect file_ls (AppendLine r) = file_ls @ [r]"
| "file_effect file_ls _ = file_ls"

text \<open>\<open>Continue n\<close> lets the \<open>n\<close>-th task perform its next effect.\<close>

fun race_step :: "concurrent_state \<Rightarrow> schedule_step \<Rightarrow> concurrent_state" where
  "race_step s (Critical e) =
     (case run_event e (memory s) of (m, effects) \<Rightarrow>
        s\<lparr>memory := m, in_flight := in_flight s @ [effects]\<rparr>)"
| "race_step s (Continue n) =
     (if n < length (in_flight s) then
        (case in_flight s ! n of
           [] \<Rightarrow> s
         | e # es \<Rightarrow> s\<lparr>file_lines := file_effect (file_lines s) e,
                      in_flight := (in_flight s)[n := es]\<rparr>)
      else s)"

fun race_enabled :: "concurrent_state \<Rightarrow> schedule_step \<Rightarrow> bool" where
  "race_enabled s (Critical e) \<longleftrightarrow>
     approval_enabled \<lparr>requests = memory s, journal = [], published = []\<rparr> e"
| "race_enabled s (Continue n) \<longleftrightarrow> True"

definition idle :: concurrent_state where
  "idle = \<lparr>memory = Map.empty, file_lines = [], in_flight = []\<rparr>"

definition quiet :: "concurrent_state \<Rightarrow> bool" where
  "quiet s \<longleftrightarrow> list_all (\<lambda>es. es = []) (in_flight s)"

section \<open>No change is lost\<close>

definition covered :: "concurrent_state \<Rightarrow> bool" where
  "covered s \<longleftrightarrow>
     (\<forall>i r. memory s i = Some r \<longrightarrow>
        r \<in> set (file_lines s) \<or> (\<exists>es \<in> set (in_flight s). AppendLine r \<in> set es))"

lemma updates_lines:
  "updates m effects m' \<Longrightarrow> m' i = Some r \<Longrightarrow> m i = Some r \<or> AppendLine r \<in> set effects"
  by (induction rule: updates.induct) (auto split: if_splits)

lemma critical_updates:
  "run_event e (memory s) = (m, effects) \<Longrightarrow> race_enabled s (Critical e) \<Longrightarrow>
   updates (memory s) effects m"
  using run_event_updates [of e "\<lparr>requests = memory s, journal = [], published = []\<rparr>" m effects]
  by simp

lemma race_step_covered:
  assumes "covered s" "race_enabled s x"
  shows "covered (race_step s x)"
proof (cases x)
  case (Critical e)
  obtain m effects where run: "run_event e (memory s) = (m, effects)" by fastforce
  have "updates (memory s) effects m"
    using critical_updates [OF run] assms(2) Critical by blast
  from updates_lines [OF this] show ?thesis
    using assms(1) run Critical by (fastforce simp: covered_def)
next
  case (Continue n)
  show ?thesis
  proof (cases "n < length (in_flight s) \<and> in_flight s ! n \<noteq> []")
    case False
    with assms(1) Continue show ?thesis by (auto split: list.splits)
  next
    case True
    then obtain e es where flight: "n < length (in_flight s)" "in_flight s ! n = e # es"
      by (auto simp: neq_Nil_conv)
    let ?t = "race_step s (Continue n)"
    have "r \<in> set (file_lines ?t) \<or> (\<exists>fs \<in> set (in_flight ?t). AppendLine r \<in> set fs)"
      if "r \<in> set (file_lines s) \<or> (\<exists>fs \<in> set (in_flight s). AppendLine r \<in> set fs)" for r
    proof -
      have lines: "set (file_lines s) \<subseteq> set (file_effect (file_lines s) e)" by (cases e) auto
      have "AppendLine r \<in> set fs \<Longrightarrow> fs \<in> set (in_flight s) \<Longrightarrow>
          r \<in> set (file_effect (file_lines s) e) \<or>
          (\<exists>gs \<in> set ((in_flight s)[n := es]). AppendLine r \<in> set gs)" for fs
      proof -
        assume fs: "AppendLine r \<in> set fs" "fs \<in> set (in_flight s)"
        then obtain k where k: "k < length (in_flight s)" "in_flight s ! k = fs"
          by (auto simp: in_set_conv_nth)
        show ?thesis
        proof (cases "k = n")
          case True
          with fs k flight have "AppendLine r = e \<or> AppendLine r \<in> set es" by auto
          then show ?thesis using flight(1) by (auto simp: set_update_memI)
        next
          case False
          with k have "(in_flight s)[n := es] ! k = fs" "k < length ((in_flight s)[n := es])" by simp_all
          with fs(1) show ?thesis by (metis nth_mem)
        qed
      qed
      with that lines show ?thesis using flight by auto
    qed
    moreover have "memory ?t = memory s" using flight by simp
    ultimately show ?thesis using assms(1) Continue by (simp add: covered_def del: race_step.simps)
  qed
qed

interpretation races: state_machine race_step race_enabled covered
  by unfold_locales (rule race_step_covered)

section \<open>Properties\<close>

definition demo_schedule :: "schedule_step list" where
  "demo_schedule =
     [Critical (Request 7 0 ''web'' ''ls'' High 300 None), Continue 0, Continue 0,
      Critical (Respond 1 7 True), Critical (Revoke 2 7), Continue 2, Continue 1,
      Continue 2, Continue 1]"

lemmas approval_eval = idle_def demo_schedule_def approval_request_with_ttl_def insert_request_def
  approval_respond_def approval_respond_inner_def revoke_approval_def new_request_def past_ttl_def
  elapsed_secs_def signed_divide_int_def quiet_def replay_def

text \<open>
  No change to an approval is lost, whatever the interleaving: when all tasks are
  done, the current state of every request is a line of the journal.
\<close>

theorem no_change_lost:
  assumes "admissible race_step race_enabled idle steps" "quiet (foldl race_step idle steps)"
    and "memory (foldl race_step idle steps) i = Some r"
  shows "r \<in> set (file_lines (foldl race_step idle steps))"
proof -
  have "covered (foldl race_step idle steps)"
    by (rule races.run_inv [OF _ assms(1)]) (simp add: covered_def idle_def)
  with assms(2,3) show ?thesis by (fastforce simp: covered_def quiet_def list_all_iff)
qed

lemma demo_schedule_run:
  "admissible race_step race_enabled idle demo_schedule"
  "quiet (foldl race_step idle demo_schedule)"
  "memory (foldl race_step idle demo_schedule) 7 =
     Some (new_request 7 0 ''web'' ''ls'' High 300 None
       \<lparr>approved_command_snapshot := Some ''ls'', req_status := Revoked, revoked_at := Some 2\<rparr>)"
  "map req_status (file_lines (foldl race_step idle demo_schedule)) = [Pending, Revoked, Approved]"
  by (simp_all add: approval_eval Let_def)

theorem no_change_lost_witness:
  "new_request 7 0 ''web'' ''ls'' High 300 None
     \<lparr>approved_command_snapshot := Some ''ls'', req_status := Revoked, revoked_at := Some 2\<rparr>
   \<in> set (file_lines (foldl race_step idle demo_schedule))"
  by (rule no_change_lost [OF demo_schedule_run(1-3)])

text \<open>
  The order is not kept: a revocation whose line is written before the line of the approval it
  revokes is undone when the journal is loaded again.
\<close>

lemma revocation_undone_by_reload:
  "map_option req_status (memory (foldl race_step idle demo_schedule) 7) = Some Revoked"
  "map_option req_status (replay (file_lines (foldl race_step idle demo_schedule)) 7) = Some Approved"
  by (simp_all add: approval_eval Let_def)

text \<open>A clock that steps back by a second times a fresh request out at once.\<close>

lemma backward_clock_times_out:
  "past_ttl 0 (new_request i 1000000000 host command risk 300 ctx)"
  by (simp add: approval_eval)

end
