(* ===== verification/Risk_Laws.thy ===== *)
theory Risk_Laws
  imports Risk_Classify Sample_Parser
begin

text \<open>
  What the classifier of \<open>core.rs\<close> and \<open>risk_extra.rs\<close> promises. The specification is in terms of
  the commands a command line exposes: the segments of its chains and the commands nested in
  \<open>sh -c\<close>, \<open>eval\<close> and \<open>find -exec\<close>. The recursive classifier is shown to return the strictest flat
  finding over all of them, from which the safety properties follow: no chain and no nesting hides
  a dangerous command, and what cannot be looked at is not low.
\<close>

section \<open>The strictest of a list\<close>

definition strictest :: "risk_level \<Rightarrow> risk_level list \<Rightarrow> risk_level" where
  "strictest r rs = foldl max r rs"

lemma strictest_simps [simp]:
  "strictest r [] = r" "strictest r (x # xs) = strictest (max r x) xs"
  "strictest r (xs @ ys) = strictest (strictest r xs) ys"
  by (simp_all add: strictest_def)

lemma strictest_max: "strictest (max a b) rs = max a (strictest b rs)"
  by (induction rs arbitrary: b) (simp_all add: max.assoc)

lemma strictest_eq: "strictest r rs = max r (strictest Low rs)"
  using strictest_max [of r Low rs] by simp

lemma strictest_comm: "strictest (strictest r xs) ys = strictest (strictest r ys) xs"
  by (metis strictest_eq max.assoc max.commute)

lemma strictest_Low [simp]: "strictest r (map (\<lambda>_. Low) xs) = r"
  by (induction xs arbitrary: r) simp_all

lemma strictest_ge_base: "r \<le> strictest r rs"
  by (induction rs arbitrary: r) (auto intro: order_trans [OF max.cobounded1])

lemma strictest_ge: "x \<in> set rs \<Longrightarrow> x \<le> strictest r rs"
  by (induction rs arbitrary: r)
     (auto intro: order_trans [OF max.cobounded2] order_trans [OF _ strictest_ge_base])

lemma strictest_in: "strictest r rs = r \<or> strictest r rs \<in> set rs"
proof (induction rs arbitrary: r)
  case (Cons x xs)
  then show ?case using Cons.IH [of "max r x"] by (auto simp: max_def split: if_splits)
qed simp

lemma foldM_strictest:
  assumes "\<And>s x. step s x = map_option (max_severity s) (g x)"
  shows "foldM step s xs = map_option (strictest s) (mapM g xs)"
proof (induction xs arbitrary: s)
  case (Cons x xs)
  then show ?case
    by (cases "g x"; cases "mapM g xs") (simp_all add: assms sev_simps)
qed simp

section \<open>The nested commands\<close>

text \<open>The commands the word-level pass hands back to the classifier, one level deeper.\<close>

function find_inners :: "str list \<Rightarrow> str list" where
  "find_inners [] = []"
| "find_inners (a # rest) =
     (if a \<in> {''-exec'', ''-execdir'', ''-ok'', ''-okdir''} then
        (let inner = takeWhile (\<lambda>w. \<not> exec_terminator w) rest
         in join '' '' (map shell_quote inner) # find_inners (drop (length inner + 1) rest))
      else find_inners rest)"
  by pat_completeness auto
termination by (relation "measure length") auto

definition nested_args :: "str \<Rightarrow> str list \<Rightarrow> str list" where
  "nested_args head args =
     (if head \<in> set SHELLS then
        (case dropWhile (\<lambda>a. \<not> is_c_flag a) args of _ # inner # _ \<Rightarrow> [inner] | _ \<Rightarrow> [])
      else if list_ex (\<lambda>name. head = name \<or> starts_with head (name @ ''3'')) INLINE_INTERPRETERS
      then []
      else if head = ''eval'' then
        (let joined = join '' '' args
         in if args = [] \<or> CHR ''$'' \<in> set joined \<or> CHR 0x60 \<in> set joined then [] else [joined])
      else if head = ''find'' then find_inners args
      else [])"

definition nested_in_segment :: "parser \<Rightarrow> str \<Rightarrow> str list option" where
  "nested_in_segment parse segment =
     (let words = shell_words segment
      in if dynamic_head words then Some []
         else do { analysis \<leftarrow> analyze_command parse segment;
                   case canonical_head analysis of
                     None \<Rightarrow> Some []
                   | Some head \<Rightarrow>
                       (case dropWhile (\<lambda>w. \<not> name_matches w head) words of
                          [] \<Rightarrow> Some []
                        | _ # args \<Rightarrow> Some (nested_args head args)) })"

definition nested_commands :: "parser \<Rightarrow> str \<Rightarrow> nat \<Rightarrow> str list option" where
  "nested_commands parse command depth =
     (if depth \<ge> MAX_DEPTH then Some []
      else do { segments \<leftarrow> split_commands parse command;
                concatM (nested_in_segment parse) segments })"

definition shorter_segments :: "parser \<Rightarrow> str \<Rightarrow> str list option" where
  "shorter_segments parse command =
     map_option (filter (\<lambda>segment. length segment < length command)) (split_commands parse command)"

text \<open>One command line exposes another: as a shorter segment of its chain, or nested in it.\<close>

inductive exposes :: "parser \<Rightarrow> str \<times> nat \<Rightarrow> str \<times> nat \<Rightarrow> bool" for parse where
  self: "exposes parse x x"
| segment: "shorter_segments parse c = Some segments \<Longrightarrow> s \<in> set segments \<Longrightarrow>
    exposes parse (s, d) x \<Longrightarrow> exposes parse (c, d) x"
| nested: "nested_commands parse c d = Some inners \<Longrightarrow> i \<in> set inners \<Longrightarrow>
    exposes parse (i, d + 1) x \<Longrightarrow> exposes parse (c, d) x"

inductive_cases exposesE: "exposes parse (c, d) x"

text \<open>The finding of all rules that do not recurse.\<close>

abbreviation no_nesting :: classifier where
  "no_nesting \<equiv> \<lambda>_ _. Some Low"

definition flat_risk :: "parser \<Rightarrow> str \<Rightarrow> nat \<Rightarrow> risk_level option" where
  "flat_risk parse command depth =
     do { single \<leftarrow> classify_risk_single parse command;
          extra \<leftarrow> classify_extra parse command depth no_nesting;
          Some (max_severity single extra) }"

section \<open>The word-level pass is flat findings plus nested ones\<close>

lemma find_go_shape:
  "find_go risk args depth f =
   map_option (strictest (if find_inners args = [] then risk else max risk Medium))
     (mapM (\<lambda>c. f c (depth + 1)) (find_inners args))"
proof (induction risk args depth f rule: find_go.induct)
  case (2 risk a rest depth f)
  show ?case
  proof (cases "a \<in> {''-exec'', ''-execdir'', ''-ok'', ''-okdir''}")
    case exec: True
    let ?inner = "takeWhile (\<lambda>w. \<not> exec_terminator w) rest"
    let ?c = "join '' '' (map shell_quote ?inner)"
    let ?rest = "drop (length ?inner + 1) rest"
    show ?thesis
    proof (cases "f ?c (depth + 1)")
      case None
      then show ?thesis using exec by (simp add: Let_def)
    next
      case (Some r)
      have IH: "find_go (max_severity (max_severity risk Medium) r) ?rest depth f =
          map_option (strictest (if find_inners ?rest = [] then max (max risk Medium) r
              else max (max (max risk Medium) r) Medium))
            (mapM (\<lambda>c. f c (depth + 1)) (find_inners ?rest))"
        using 2(1) [OF exec refl, of r] Some by (simp add: sev_simps)
      have "max (max (max risk Medium) r) Medium = max (max risk Medium) r"
        by (simp add: max.assoc max.left_commute max.commute)
      then show ?thesis using exec Some IH
        by (cases "mapM (\<lambda>c. f c (depth + 1)) (find_inners ?rest)")
           (simp_all add: Let_def split: if_splits)
    qed
  next
    case False
    then show ?thesis using 2(2) by simp
  qed
qed simp

lemma mapM_no_nesting: "mapM (\<lambda>c. no_nesting c n) xs = Some (map (\<lambda>_. Low) xs)"
  by (rule mapM_Some)

lemma dispatch_head_shape:
  "\<exists>r0. \<forall>f. dispatch_head head args has_pipe depth f =
     map_option (strictest r0) (mapM (\<lambda>c. f c (depth + 1)) (nested_args head args))"
proof -
  consider (shell) "head \<in> set SHELLS"
    | (eval) "head \<notin> set SHELLS"
        "\<not> list_ex (\<lambda>name. head = name \<or> starts_with head (name @ ''3'')) INLINE_INTERPRETERS"
        "head = ''eval''"
    | (find) "head \<notin> set SHELLS"
        "\<not> list_ex (\<lambda>name. head = name \<or> starts_with head (name @ ''3'')) INLINE_INTERPRETERS"
        "head \<noteq> ''eval''" "head = ''find''"
    | (inline) "head \<notin> set SHELLS"
        "list_ex (\<lambda>name. head = name \<or> starts_with head (name @ ''3'')) INLINE_INTERPRETERS"
    | (other) "head \<notin> set SHELLS"
        "\<not> list_ex (\<lambda>name. head = name \<or> starts_with head (name @ ''3'')) INLINE_INTERPRETERS"
        "head \<noteq> ''eval''" "head \<noteq> ''find''"
    by blast
  then show ?thesis
  proof cases
    case shell
    define tl where "tl = dropWhile (\<lambda>a. \<not> is_c_flag a) args"
    consider "tl = []" | a where "tl = [a]" | a i r where "tl = a # i # r"
      by (metis list.exhaust)
    then show ?thesis
    proof cases
      case 1
      then have none: "dropWhile (\<lambda>a. \<not> is_c_flag a) args = []" by (simp add: tl_def)
      show ?thesis
        unfolding dispatch_head_def nested_args_def classify_shell_def none using shell
        by (simp add: Let_def)
    next
      case 2
      then show ?thesis using shell
        by (auto simp: dispatch_head_def nested_args_def classify_shell_def tl_def)
    next
      case 3
      have "\<forall>f. dispatch_head head args has_pipe depth f =
          map_option (strictest Low) (mapM (\<lambda>c. f c (depth + 1)) (nested_args head args))"
      proof
        fix f
        show "dispatch_head head args has_pipe depth f =
          map_option (strictest Low) (mapM (\<lambda>c. f c (depth + 1)) (nested_args head args))"
          using shell 3 by (cases "f i (depth + 1)")
            (simp_all add: dispatch_head_def nested_args_def classify_shell_def tl_def)
      qed
      then show ?thesis by blast
    qed
  next
    case eval
    let ?j = "join '' '' args"
    have "dispatch_head head args has_pipe depth f = map_option
          (strictest (if args \<noteq> [] \<and> (CHR ''$'' \<in> set ?j \<or> CHR 0x60 \<in> set ?j) then High else Low))
          (mapM (\<lambda>c. f c (depth + 1)) (nested_args head args))" for f
      using eval by (cases "f ?j (depth + 1)")
        (auto simp: dispatch_head_def nested_args_def classify_eval_def Let_def)
    then show ?thesis by blast
  next
    case find
    then have "dispatch_head head args has_pipe depth f = map_option
       (strictest (if find_inners args = [] then (if ''-delete'' \<in> set args then High else Low)
         else max (if ''-delete'' \<in> set args then High else Low) Medium))
       (mapM (\<lambda>c. f c (depth + 1)) (nested_args head args))" for f
      using find_go_shape [of "if ''-delete'' \<in> set args then High else Low" args depth f]
      by (simp add: dispatch_head_def nested_args_def classify_find_def)
    then show ?thesis by blast
  next
    case inline
    then show ?thesis by (auto simp: dispatch_head_def nested_args_def)
  next
    case other
    then have nested: "nested_args head args = []" by (simp add: nested_args_def)
    have "dispatch_head head args has_pipe depth f = dispatch_head head args has_pipe depth no_nesting"
      for f using other by (simp add: dispatch_head_def)
    moreover have "\<exists>r. dispatch_head head args has_pipe depth no_nesting = Some r"
      using other by (simp add: dispatch_head_def)
    ultimately show ?thesis by (metis nested mapM.simps(1) option.simps(9) strictest_simps(1))
  qed
qed

lemma classify_segment_shape:
  "\<exists>r0. \<forall>f. classify_segment parse segment has_pipe depth f =
     nested_in_segment parse segment \<bind> (\<lambda>inners.
       map_option (strictest r0) (mapM (\<lambda>c. f c (depth + 1)) inners))"
proof (cases "dynamic_head (shell_words segment)")
  case True
  then show ?thesis by (auto simp: classify_segment_def nested_in_segment_def Let_def)
next
  case static: False
  show ?thesis
  proof (cases "analyze_command parse segment")
    case None
    with static show ?thesis by (auto simp: classify_segment_def nested_in_segment_def Let_def)
  next
    case (Some a)
    show ?thesis
    proof (cases "canonical_head a")
      case None
      with static Some show ?thesis
        by (auto simp: classify_segment_def nested_in_segment_def Let_def)
    next
      case head: (Some head)
      show ?thesis
      proof (cases "dropWhile (\<lambda>w. \<not> name_matches w head) (shell_words segment)")
        case Nil
        have "classify_segment parse segment has_pipe depth f = Some Low" for f
          unfolding classify_segment_def Let_def using static Some
          by (simp only: head Nil Option.bind.bind_lunit option.case list.case if_False)
        moreover have "nested_in_segment parse segment = Some []"
          unfolding nested_in_segment_def Let_def using static Some
          by (simp only: head Nil Option.bind.bind_lunit option.case list.case if_False)
        ultimately show ?thesis by auto
      next
        case (Cons w args)
        then show ?thesis
          using static Some head dispatch_head_shape [of head args has_pipe depth]
          by (simp add: classify_segment_def nested_in_segment_def Let_def)
      qed
    qed
  qed
qed

lemma classify_segment_flat:
  "classify_segment parse segment has_pipe depth f = Some r \<longleftrightarrow>
     (\<exists>r0 inners rs. classify_segment parse segment has_pipe depth no_nesting = Some r0 \<and>
        nested_in_segment parse segment = Some inners \<and>
        mapM (\<lambda>c. f c (depth + 1)) inners = Some rs \<and> r = strictest r0 rs)"
proof -
  obtain r0 where shape: "\<And>f. classify_segment parse segment has_pipe depth f =
     nested_in_segment parse segment \<bind> (\<lambda>inners.
       map_option (strictest r0) (mapM (\<lambda>c. f c (depth + 1)) inners))"
    using classify_segment_shape by blast
  show ?thesis unfolding shape by (auto simp: bind_eq_Some_conv mapM_no_nesting)
qed

lemma mapM_append:
  "mapM f (xs @ ys) = do { us \<leftarrow> mapM f xs; vs \<leftarrow> mapM f ys; Some (us @ vs) }"
  by (induction xs) (auto simp: bind_eq_Some_conv intro!: Option.bind_cong)

lemma segments_flat:
  "mapM (\<lambda>s. classify_segment parse s has_pipe depth f) segments = Some rs \<Longrightarrow>
   \<exists>rs0 inners ns. mapM (\<lambda>s. classify_segment parse s has_pipe depth no_nesting) segments = Some rs0 \<and>
     concatM (nested_in_segment parse) segments = Some inners \<and>
     mapM (\<lambda>c. f c (depth + 1)) inners = Some ns \<and>
     (\<forall>r. strictest r rs = strictest (strictest r rs0) ns)"
proof (induction segments arbitrary: rs)
  case Nil
  then show ?case by (simp add: concatM_def)
next
  case (Cons s segments)
  from Cons.prems obtain q qs where q: "classify_segment parse s has_pipe depth f = Some q"
      "mapM (\<lambda>s. classify_segment parse s has_pipe depth f) segments = Some qs" "rs = q # qs"
    by (auto simp: bind_eq_Some_conv)
  from q(1) obtain q0 inners ns where seg:
      "classify_segment parse s has_pipe depth no_nesting = Some q0"
      "nested_in_segment parse s = Some inners" "mapM (\<lambda>c. f c (depth + 1)) inners = Some ns"
      "q = strictest q0 ns"
    using classify_segment_flat [THEN iffD1, OF q(1)] by blast
  from Cons.IH [OF q(2)] obtain rs0 inners' ns' where rest:
      "mapM (\<lambda>s. classify_segment parse s has_pipe depth no_nesting) segments = Some rs0"
      "concatM (nested_in_segment parse) segments = Some inners'"
      "mapM (\<lambda>c. f c (depth + 1)) inners' = Some ns'"
      "\<forall>r. strictest r qs = strictest (strictest r rs0) ns'"
    by blast
  have "strictest r rs = strictest (strictest r (q0 # rs0)) (ns @ ns')" for r
  proof -
    have "strictest r rs = strictest (max r (strictest q0 ns)) qs"
      by (simp add: q(3) seg(4))
    also have "\<dots> = strictest (strictest (strictest (max r q0) ns) rs0) ns'"
      using rest(4) by (simp add: strictest_max)
    also have "\<dots> = strictest (strictest (strictest (max r q0) rs0) ns) ns'"
      by (simp only: strictest_comm)
    finally show ?thesis by simp
  qed
  moreover have "mapM (\<lambda>c. f c (depth + 1)) (inners @ inners') = Some (ns @ ns')"
    using seg(3) rest(3) by (simp add: mapM_append)
  ultimately show ?case
    using seg(1,2) rest(1,2) by (auto simp: concatM_def)
qed

lemma segments_flat_converse:
  "mapM (\<lambda>s. classify_segment parse s has_pipe depth no_nesting) segments = Some rs0 \<Longrightarrow>
   concatM (nested_in_segment parse) segments = Some inners \<Longrightarrow>
   mapM (\<lambda>c. f c (depth + 1)) inners = Some ns \<Longrightarrow>
   \<exists>rs. mapM (\<lambda>s. classify_segment parse s has_pipe depth f) segments = Some rs"
proof (induction segments arbitrary: rs0 inners ns)
  case (Cons s segments)
  from Cons.prems(1) obtain q0 rs0' where flat:
      "classify_segment parse s has_pipe depth no_nesting = Some q0"
      "mapM (\<lambda>s. classify_segment parse s has_pipe depth no_nesting) segments = Some rs0'"
    by (auto simp: bind_eq_Some_conv)
  from Cons.prems(2) obtain is1 is2 where inners: "nested_in_segment parse s = Some is1"
      "concatM (nested_in_segment parse) segments = Some is2" "inners = is1 @ is2"
    by (auto simp: bind_eq_Some_conv concatM_def)
  from Cons.prems(3) inners(3) obtain ns1 ns2 where ns: "mapM (\<lambda>c. f c (depth + 1)) is1 = Some ns1"
      "mapM (\<lambda>c. f c (depth + 1)) is2 = Some ns2"
    by (auto simp: bind_eq_Some_conv mapM_append)
  have "classify_segment parse s has_pipe depth f = Some (strictest q0 ns1)"
    using flat(1) inners(1) ns(1) by (intro classify_segment_flat [THEN iffD2]) blast
  moreover obtain rs where "mapM (\<lambda>s. classify_segment parse s has_pipe depth f) segments = Some rs"
    using Cons.IH [OF flat(2) inners(2) ns(2)] by blast
  ultimately show ?case by simp
qed simp

lemma classify_extra_flat:
  "classify_extra parse command depth f = Some r \<longleftrightarrow>
     (\<exists>r0 inners rs. classify_extra parse command depth no_nesting = Some r0 \<and>
        nested_commands parse command depth = Some inners \<and>
        mapM (\<lambda>c. f c (depth + 1)) inners = Some rs \<and> r = strictest r0 rs)"
  (is "?full \<longleftrightarrow> ?flat")
proof (cases "depth \<ge> MAX_DEPTH")
  case True
  then show ?thesis by (auto simp: classify_extra_def nested_commands_def)
next
  case False
  define step where "step f s = classify_segment parse s (CHR ''|'' \<in> set command) depth f" for f s
  define sql where "sql = classify_sql command"
  have extra: "classify_extra parse command depth f =
      split_commands parse command \<bind> (\<lambda>segs. map_option (strictest sql) (mapM (step f) segs))" for f
    using False foldM_strictest
      [of "strictest_segment parse (CHR ''|'' \<in> set command) depth f" "step f" for f]
    by (cases "split_commands parse command")
       (simp_all add: classify_extra_def strictest_segment_def step_def sql_def)
  have nested: "nested_commands parse command depth =
      split_commands parse command \<bind> concatM (nested_in_segment parse)"
    using False by (simp add: nested_commands_def)
  note fwd = segments_flat [of parse "CHR ''|'' \<in> set command" depth, folded step_def]
  note bwd = segments_flat_converse [of parse "CHR ''|'' \<in> set command" depth, folded step_def]
  show ?thesis
  proof
    assume ?full
    then obtain segs rs where segs: "split_commands parse command = Some segs"
        "mapM (step f) segs = Some rs" "r = strictest sql rs"
      by (auto simp: extra bind_eq_Some_conv)
    with fwd [OF segs(2)] show ?flat by (auto simp: extra nested)
  next
    assume ?flat
    then obtain segs rs0 inners ns where flat: "split_commands parse command = Some segs"
        "mapM (step no_nesting) segs = Some rs0" "concatM (nested_in_segment parse) segs = Some inners"
        "mapM (\<lambda>c. f c (depth + 1)) inners = Some ns" "r = strictest (strictest sql rs0) ns"
      by (auto simp: extra nested bind_eq_Some_conv)
    from bwd [where f = f, OF flat(2-4)] obtain rs where rs: "mapM (step f) segs = Some rs" by blast
    with fwd [OF rs] flat have "strictest sql rs = r" by auto
    with flat(1) rs show ?full by (simp add: extra)
  qed
qed

section \<open>The classifier returns the strictest flat finding over the exposed commands\<close>

lemma classify_risk_at_depth_flat:
  "classify_risk_at_depth parse c d = Some r \<longleftrightarrow>
     (\<exists>r0 inners rs segments qs. flat_risk parse c d = Some r0 \<and>
        nested_commands parse c d = Some inners \<and>
        mapM (\<lambda>i. classify_risk_at_depth parse i (d + 1)) inners = Some rs \<and>
        shorter_segments parse c = Some segments \<and>
        mapM (\<lambda>s. classify_risk_at_depth parse s d) segments = Some qs \<and>
        r = strictest (strictest r0 rs) qs)"
proof -
  let ?f = "classify_risk_at_depth parse"
  have "?f c d = classify_risk_single parse c \<bind> (\<lambda>single.
          classify_extra parse c d ?f \<bind> (\<lambda>extra. shorter_segments parse c \<bind> (\<lambda>segments.
            map_option (strictest (max single extra)) (mapM (\<lambda>s. ?f s d) segments))))"
    using foldM_strictest [of "strictest_with ?f d" "\<lambda>s. ?f s d"]
    by (subst classify_risk_at_depth.simps)
       (simp add: shorter_segments_def strictest_with_def sev_simps bind_map_option comp_def
          cong: Option.bind_cong)
  then show ?thesis
    by (auto simp: flat_risk_def classify_extra_flat [of parse c d ?f] bind_eq_Some_conv sev_simps
        strictest_max)
qed

lemma mapM_member:
  "mapM f xs = Some ys \<Longrightarrow> x \<in> set xs \<Longrightarrow> \<exists>y \<in> set ys. f x = Some y"
  by (rule mapM_SomeD)

lemma mapM_preimage: "mapM f xs = Some ys \<Longrightarrow> y \<in> set ys \<Longrightarrow> \<exists>x \<in> set xs. f x = Some y"
  by (induction xs arbitrary: ys) (auto simp: bind_eq_Some_conv)

lemma shorter_segments_shorter:
  "shorter_segments parse c = Some segments \<Longrightarrow> s \<in> set segments \<Longrightarrow> length s < length c"
  by (auto simp: shorter_segments_def)

lemma nested_commands_depth:
  "nested_commands parse c d = Some inners \<Longrightarrow> i \<in> set inners \<Longrightarrow> d < MAX_DEPTH"
  by (auto simp: nested_commands_def split: if_splits)

lemma exposes_depth: "exposes parse x y \<Longrightarrow> snd x \<le> snd y"
  by (induction rule: exposes.induct) auto

lemma exposes_trans: "exposes parse x y \<Longrightarrow> exposes parse y z \<Longrightarrow> exposes parse x z"
  by (induction rule: exposes.induct) (auto intro: exposes.intros)

lemma classify_exposed:
  "exposes parse x y \<Longrightarrow> classify_risk_at_depth parse (fst x) (snd x) = Some r \<Longrightarrow>
   \<exists>r'. classify_risk_at_depth parse (fst y) (snd y) = Some r' \<and> r' \<le> r"
proof (induction arbitrary: r rule: exposes.induct)
  case (segment c segments s d x)
  from segment.prems obtain rs qs r0 where
      qs: "mapM (\<lambda>s. classify_risk_at_depth parse s d) segments = Some qs"
      "r = strictest (strictest r0 rs) qs"
    using segment.hyps(1) by (auto simp: classify_risk_at_depth_flat [of parse c])
  from mapM_member [OF qs(1) segment.hyps(2)] obtain q where
      q: "q \<in> set qs" "classify_risk_at_depth parse s d = Some q" by blast
  with qs(2) have "q \<le> r" by (simp add: strictest_ge)
  with segment.IH [of q] q(2) show ?case by (auto intro: order_trans)
next
  case (nested c d inners i x)
  from nested.prems obtain rs qs r0 where
      rs: "mapM (\<lambda>i. classify_risk_at_depth parse i (d + 1)) inners = Some rs"
      "r = strictest (strictest r0 rs) qs"
    using nested.hyps(1) by (auto simp: classify_risk_at_depth_flat [of parse c])
  from mapM_member [OF rs(1) nested.hyps(2)] obtain q where
      q: "q \<in> set rs" "classify_risk_at_depth parse i (d + 1) = Some q" by blast
  with rs(2) have "q \<le> r"
    by (auto intro: order_trans [OF strictest_ge [OF q(1)] strictest_ge_base])
  with nested.IH [of q] q(2) show ?case by (auto intro: order_trans)
qed auto

lemma classify_attained:
  "classify_risk_at_depth parse c d = Some r \<Longrightarrow>
   \<exists>c' d'. exposes parse (c, d) (c', d') \<and> flat_risk parse c' d' = Some r"
proof (induction "(c, d)" arbitrary: c d r
    rule: wf_induct_rule [OF wf_measures [of "[\<lambda>(c, d). MAX_DEPTH - d, \<lambda>(c, d). length c]"]])
  case (1 c d r)
  from "1.prems" obtain r0 inners rs segments qs where parts: "flat_risk parse c d = Some r0"
      "nested_commands parse c d = Some inners"
      "mapM (\<lambda>i. classify_risk_at_depth parse i (d + 1)) inners = Some rs"
      "shorter_segments parse c = Some segments"
      "mapM (\<lambda>s. classify_risk_at_depth parse s d) segments = Some qs"
      "r = strictest (strictest r0 rs) qs"
    by (auto simp: classify_risk_at_depth_flat [of parse c])
  consider "r = r0" | "r \<in> set rs" | "r \<in> set qs"
    using strictest_in [of "strictest r0 rs" qs] strictest_in [of r0 rs] parts(6) by auto
  then show ?case
  proof cases
    case 1
    with parts(1) show ?thesis by (blast intro: exposes.self)
  next
    case 2
    from mapM_preimage [OF parts(3) 2] obtain i where
        i: "i \<in> set inners" "classify_risk_at_depth parse i (d + 1) = Some r" by blast
    have "MAX_DEPTH - (d + 1) < MAX_DEPTH - d"
      using nested_commands_depth [OF parts(2) i(1)] by simp
    then have "\<exists>c' d'. exposes parse (i, d + 1) (c', d') \<and> flat_risk parse c' d' = Some r"
      by (intro "1.hyps" [of i "d + 1" r, OF _ i(2)]) simp
    then show ?thesis using exposes.nested [OF parts(2) i(1)] by blast
  next
    case 3
    from mapM_preimage [OF parts(5) 3] obtain s where
        s: "s \<in> set segments" "classify_risk_at_depth parse s d = Some r" by blast
    with "1.hyps" [of s d r] shorter_segments_shorter [OF parts(4)] show ?thesis
      by (auto intro: exposes.segment [OF parts(4)])
  qed
qed

lemma flat_exposed:
  assumes "exposes parse (c, d) (c', d')" "classify_risk_at_depth parse c d = Some r"
  shows "\<exists>r'. flat_risk parse c' d' = Some r' \<and> r' \<le> r"
proof -
  from classify_exposed [OF assms(1)] assms(2) obtain q where
      q: "classify_risk_at_depth parse c' d' = Some q" "q \<le> r" by auto
  from q(1) obtain r' rs qs where "flat_risk parse c' d' = Some r'" "q = strictest (strictest r' rs) qs"
    by (auto simp: classify_risk_at_depth_flat)
  with q(2) show ?thesis
    by (metis order_trans strictest_ge_base)
qed

lemma flat_single:
  "flat_risk parse c d = Some r \<Longrightarrow> \<exists>q. classify_risk_single parse c = Some q \<and> q \<le> r"
  by (auto simp: flat_risk_def bind_eq_Some_conv sev_simps)

lemma flat_deep: "flat_risk parse c d = Some r \<Longrightarrow> MAX_DEPTH \<le> d \<Longrightarrow> High \<le> r"
  by (auto simp: flat_risk_def classify_extra_def bind_eq_Some_conv sev_simps)

lemma exposed_single:
  assumes "exposes parse (c, d) (c', d')" "classify_risk_at_depth parse c d = Some r"
  shows "\<exists>q. classify_risk_single parse c' = Some q \<and> q \<le> r"
  using flat_exposed [OF assms] flat_single [of parse c' d'] by (metis order_trans)

section \<open>No panic of its own\<close>

lemma slice_full: "slice s a b = Some t \<Longrightarrow> length t \<le> length s \<and> (length t = length s \<longrightarrow> t = s)"
proof -
  assume "slice s a b = Some t"
  then have "a \<le> b" "b \<le> length s" "t = take (b - a) (drop a s)"
    by (auto simp: slice_def split: if_splits)
  then show ?thesis by (cases "a = 0") auto
qed

lemma mapM_map_option: "mapM (\<lambda>x. map_option f (g x)) xs = map_option (map f) (mapM g xs)"
proof (induction xs)
  case (Cons x xs)
  then show ?case by (cases "g x"; cases "mapM g xs") simp_all
qed simp

lemma split_commands_length:
  assumes "split_commands parse c = Some segments" "s \<in> set segments"
  shows "s = c \<or> length s < length c"
proof -
  have "\<exists>a b. slice c a b = Some s" if "mapM (\<lambda>(a, b). slice c a b) rs = Some segments" for rs
    using mapM_preimage [OF that assms(2)] by auto
  then show ?thesis using assms slice_full
    by (fastforce simp: split_commands_def Let_def split: option.splits if_splits)
qed

definition analysable :: "parser \<Rightarrow> str \<Rightarrow> bool" where
  "analysable parse c \<longleftrightarrow> analyze_command parse c \<noteq> None \<and> split_commands parse c \<noteq> None"

lemma dispatch_head_flat_total: "\<exists>r. dispatch_head head args has_pipe d no_nesting = Some r"
proof -
  obtain r0 where "dispatch_head head args has_pipe d no_nesting =
      map_option (strictest r0) (mapM (\<lambda>c. no_nesting c (d + 1)) (nested_args head args))"
    using dispatch_head_shape [of head args has_pipe d] by blast
  then show ?thesis by (simp add: mapM_no_nesting)
qed

lemma classify_segment_flat_total:
  "analyze_command parse s \<noteq> None \<Longrightarrow> \<exists>r. classify_segment parse s has_pipe d no_nesting = Some r"
  using dispatch_head_flat_total
  by (cases "analyze_command parse s")
     (auto simp: classify_segment_def Let_def split: option.split list.split)

lemma nested_in_segment_total:
  "analyze_command parse s \<noteq> None \<Longrightarrow> \<exists>ns. nested_in_segment parse s = Some ns"
  by (cases "analyze_command parse s")
     (auto simp: nested_in_segment_def Let_def split: option.split list.split)

lemma segments_analysable:
  assumes "\<forall>s e. exposes parse (c, d) (s, e) \<longrightarrow> analysable parse s"
    and "split_commands parse c = Some segments" "s \<in> set segments"
  shows "analyze_command parse s \<noteq> None"
proof (cases "s = c")
  case True
  then show ?thesis using assms(1) exposes.self by (fastforce simp: analysable_def)
next
  case False
  then have "length s < length c" using split_commands_length [OF assms(2,3)] by simp
  then have "exposes parse (c, d) (s, d)"
    using assms(2,3) by (intro exposes.segment [of parse c "filter (\<lambda>s. length s < length c) segments"])
      (auto simp: shorter_segments_def intro: exposes.self)
  then show ?thesis using assms(1) by (auto simp: analysable_def)
qed

lemma flat_nested_total:
  assumes "\<forall>s e. exposes parse (c, d) (s, e) \<longrightarrow> analysable parse s"
  shows "\<exists>r inners. flat_risk parse c d = Some r \<and> nested_commands parse c d = Some inners"
proof -
  have self: "analysable parse c" using assms exposes.self by blast
  obtain segments where segments: "split_commands parse c = Some segments"
    using self by (auto simp: analysable_def)
  have ok: "analyze_command parse s \<noteq> None" if "s \<in> set segments" for s
    using segments_analysable [OF assms segments that] by blast
  obtain single where single: "classify_risk_single parse c = Some single"
    using self by (cases "sftp_risk (split_whitespace (to_lowercase (trim c)))")
      (auto simp: classify_risk_single_def analysable_def Let_def)
  have "\<exists>r. foldM (strictest_segment parse (CHR ''|'' \<in> set c) d no_nesting)
      (classify_sql c) segments = Some r"
    using ok classify_segment_flat_total by (intro foldM_total) (fastforce simp: strictest_segment_def)
  moreover have "\<exists>ns. concatM (nested_in_segment parse) segments = Some ns"
    using ok nested_in_segment_total by (intro concatM_total) blast
  ultimately show ?thesis
    using single segments
    by (cases "d < MAX_DEPTH") (auto simp: flat_risk_def classify_extra_def nested_commands_def)
qed

lemma classify_total_at_depth:
  "\<forall>s e. exposes parse (c, d) (s, e) \<longrightarrow> analysable parse s \<Longrightarrow>
   \<exists>r. classify_risk_at_depth parse c d = Some r"
proof (induction "(c, d)" arbitrary: c d
    rule: wf_induct_rule [OF wf_measures [of "[\<lambda>(c, d). MAX_DEPTH - d, \<lambda>(c, d). length c]"]])
  case (1 c d)
  obtain r0 inners where flat: "flat_risk parse c d = Some r0" "nested_commands parse c d = Some inners"
    using flat_nested_total "1.prems" by blast
  obtain segments where segments: "shorter_segments parse c = Some segments"
    using "1.prems" exposes.self by (fastforce simp: analysable_def shorter_segments_def)
  have "\<exists>rs. mapM (\<lambda>i. classify_risk_at_depth parse i (d + 1)) inners = Some rs"
  proof (rule mapM_total)
    fix i assume i: "i \<in> set inners"
    have "MAX_DEPTH - (d + 1) < MAX_DEPTH - d"
      using nested_commands_depth [OF flat(2) i] by simp
    with "1.prems" exposes.nested [OF flat(2) i]
    show "\<exists>r. classify_risk_at_depth parse i (d + 1) = Some r"
      by (intro "1.hyps") (simp, blast)
  qed
  moreover have "\<exists>qs. mapM (\<lambda>s. classify_risk_at_depth parse s d) segments = Some qs"
  proof (rule mapM_total)
    fix s assume s: "s \<in> set segments"
    with "1.prems" exposes.segment [OF segments s] shorter_segments_shorter [OF segments s]
    show "\<exists>r. classify_risk_at_depth parse s d = Some r"
      by (intro "1.hyps") (simp, blast)
  qed
  ultimately show ?case using flat segments by (auto simp: classify_risk_at_depth_flat [of parse c])
qed

section \<open>Properties\<close>

lemma sample_segments:
  "shorter_segments sample_parse ''ls && sh -c 'rm -rf /' '' = Some [''ls'', ''sh -c 'rm -rf /'' @ [squote]]"
  by code_simp

lemma sample_nested:
  "nested_commands sample_parse (''sh -c 'rm -rf /'' @ [squote]) 0 = Some [''rm -rf /'']"
  by code_simp

lemma sample_exposes: "exposes sample_parse (''ls && sh -c 'rm -rf /' '', 0) (''rm -rf /'', 1)"
  using exposes.segment [OF sample_segments _ exposes.nested [OF sample_nested _ exposes.self]]
  by simp

lemma sample_classified: "classify_risk sample_parse ''ls && sh -c 'rm -rf /' '' = Some Blocked"
  by code_simp

text \<open>
  Property (C1): the recursive classifier implements its specification. The level it returns is an
  upper bound of the flat finding of every command line the input exposes, through chains and
  nesting, and it is the flat finding of one of them.
\<close>

theorem classify_risk_refines_spec:
  assumes "classify_risk parse c = Some r"
  shows "(\<forall>s d. exposes parse (c, 0) (s, d) \<longrightarrow> (\<exists>q. flat_risk parse s d = Some q \<and> q \<le> r)) \<and>
         (\<exists>s d. exposes parse (c, 0) (s, d) \<and> flat_risk parse s d = Some r)"
  using assms flat_exposed [of parse c 0] classify_attained [of parse c 0 r]
  unfolding classify_risk_def by blast

theorem classify_risk_refines_spec_witness:
  "\<exists>s d. exposes sample_parse (''ls && sh -c 'rm -rf /' '', 0) (s, d) \<and>
     flat_risk sample_parse s d = Some Blocked"
  using classify_risk_refines_spec [OF sample_classified] by blast

text \<open>
  No chain and no nesting hides a command. Whatever a classified command line exposes
  is itself classified, no stricter than the whole.
\<close>

theorem nothing_hides:
  assumes "classify_risk parse c = Some r" "exposes parse (c, 0) (s, d)"
  shows "\<exists>q. classify_risk_at_depth parse s d = Some q \<and> q \<le> r"
  using classify_exposed [OF assms(2)] assms(1) by (simp add: classify_risk_def)

theorem nothing_hides_witness:
  "\<exists>q. classify_risk_at_depth sample_parse ''rm -rf /'' 1 = Some q \<and> q \<le> Blocked"
  by (rule nothing_hides [OF sample_classified sample_exposes])



text \<open>
  Nesting deeper than the classifier follows fails closed. A command line that
  exposes anything at depth \<open>MAX_DEPTH\<close> or more is at least high.
\<close>

theorem deep_nesting_is_high:
  assumes "classify_risk parse c = Some r" "exposes parse (c, 0) (s, d)" "MAX_DEPTH \<le> d"
  shows "High \<le> r"
  using flat_exposed [OF assms(2)] assms(1,3) flat_deep [of parse s d]
  by (auto simp: classify_risk_def intro: order_trans)

definition eval_eval :: str where
  "eval_eval = ''eval eval eval eval ls''"

lemma eval_eval_exposes: "exposes sample_parse (eval_eval, 0) (''ls'', 4)"
proof -
  have steps: "nested_commands sample_parse eval_eval 0 = Some [''eval eval eval ls'']"
    "nested_commands sample_parse ''eval eval eval ls'' 1 = Some [''eval eval ls'']"
    "nested_commands sample_parse ''eval eval ls'' 2 = Some [''eval ls'']"
    "nested_commands sample_parse ''eval ls'' 3 = Some [''ls'']"
    by code_simp+
  have "exposes sample_parse (''eval ls'', 3) (''ls'', 4)"
    using exposes.nested [OF steps(4), of "''ls''"] exposes.self by simp
  then have "exposes sample_parse (''eval eval ls'', 2) (''ls'', 4)"
    using exposes.nested [OF steps(3), of "''eval ls''"] by simp
  then have "exposes sample_parse (''eval eval eval ls'', 1) (''ls'', 4)"
    using exposes.nested [OF steps(2), of "''eval eval ls''"] by (simp add: numeral_2_eq_2)
  then show ?thesis
    using exposes.nested [OF steps(1), of "''eval eval eval ls''"] by simp
qed

theorem deep_nesting_is_high_witness: "High \<le> the (classify_risk sample_parse eval_eval)"
proof -
  have "classify_risk sample_parse eval_eval = Some High" by code_simp
  with deep_nesting_is_high [OF this eval_eval_exposes] show ?thesis by (simp add: MAX_DEPTH_def)
qed

text \<open>
  A command without a parse fails closed. It is classified, as high or blocked,
  unless it is one of the synthetic sftp operations.
\<close>

theorem unparsed_is_high:
  assumes "parse c = None" "sftp_risk (split_whitespace (to_lowercase (trim c))) = None"
  shows "classify_risk parse c = Some High"
proof -
  have a: "analyze_command parse c = Some unparsed_analysis" "split_commands parse c = Some [c]"
    using assms(1) by (simp_all add: analyze_command_def split_commands_def)
  have "classify_segment parse c p 0 f \<in> {Some High, Some Low}" for p f
    using a by (simp add: classify_segment_def unparsed_analysis_def Let_def)
  moreover have "classify_sql c \<in> {High, Low}"
    by (simp add: classify_sql_def risk_if_def Let_def)
  ultimately have extra: "classify_extra parse c 0 f \<in> {Some High, Some Low}" for f
    using a by (fastforce simp: classify_extra_def MAX_DEPTH_def strictest_segment_def sev_simps
        bind_eq_Some_conv)
  have "classify_risk_single parse c = Some High"
    using a assms(2)
    by (simp add: classify_risk_single_def single_rules_def unparsed_analysis_def Let_def)
  with extra [of "classify_risk_at_depth parse"] show ?thesis
    using a unfolding classify_risk_def
    by (subst classify_risk_at_depth.simps) (auto simp: sev_simps)
qed

theorem unparsed_is_high_witness: "classify_risk (\<lambda>_. None) ''ls (('' = Some High"
  by (rule unparsed_is_high) code_simp+



text \<open>The words a segment runs: the head the analysis finds and the arguments after it.\<close>

definition runs :: "parser \<Rightarrow> str \<Rightarrow> str \<Rightarrow> str list \<Rightarrow> bool" where
  "runs parse c head args \<longleftrightarrow>
     (\<exists>segments s a w. split_commands parse c = Some segments \<and> s \<in> set segments \<and>
        \<not> dynamic_head (shell_words s) \<and> analyze_command parse s = Some a \<and>
        canonical_head a = Some head \<and>
        dropWhile (\<lambda>w. \<not> name_matches w head) (shell_words s) = w # args)"

lemma flat_runs:
  assumes "runs parse c head args" "flat_risk parse c d = Some q" "d < MAX_DEPTH"
  shows "\<exists>e. dispatch_head head args (CHR ''|'' \<in> set c) d no_nesting = Some e \<and> e \<le> q"
proof -
  let ?hp = "CHR ''|'' \<in> set c"
  from assms(1) obtain segments s a w where seg: "split_commands parse c = Some segments"
      "s \<in> set segments" "\<not> dynamic_head (shell_words s)" "analyze_command parse s = Some a"
      "canonical_head a = Some head"
      "dropWhile (\<lambda>w. \<not> name_matches w head) (shell_words s) = w # args"
    by (auto simp: runs_def)
  have cs: "classify_segment parse s ?hp d no_nesting = dispatch_head head args ?hp d no_nesting"
    using seg(3-6) by (simp add: classify_segment_def Let_def)
  have fold: "foldM (strictest_segment parse ?hp d no_nesting) q segments =
      map_option (strictest q) (mapM (\<lambda>s. classify_segment parse s ?hp d no_nesting) segments)" for q
    by (rule foldM_strictest) (simp add: strictest_segment_def)
  from assms(2,3) seg(1) obtain single rs where rs:
      "mapM (\<lambda>s. classify_segment parse s ?hp d no_nesting) segments = Some rs"
      "q = max single (strictest (classify_sql c) rs)"
    by (auto simp: flat_risk_def classify_extra_def fold bind_eq_Some_conv sev_simps)
  from mapM_member [OF rs(1) seg(2)] cs obtain e where
      e: "e \<in> set rs" "dispatch_head head args ?hp d no_nesting = Some e" by auto
  with rs(2) show ?thesis using strictest_ge [OF e(1), of "classify_sql c"]
    by (auto simp: le_max_iff_disj)
qed

lemma exposed_runs:
  assumes "classify_risk parse c = Some r" "exposes parse (c, 0) (s, d)" "d < MAX_DEPTH"
    and "runs parse s head args"
  shows "\<exists>e. dispatch_head head args (CHR ''|'' \<in> set s) d no_nesting = Some e \<and> e \<le> r"
proof -
  obtain q where q: "flat_risk parse s d = Some q" "q \<le> r"
    using flat_exposed [OF assms(2)] assms(1) by (auto simp: classify_risk_def)
  with flat_runs [OF assms(4) q(1) assms(3)] show ?thesis by (auto intro: order_trans)
qed

lemma dispatch_rm: "dispatch_head ''rm'' args hp d f = Some (classify_rm args)"
  by (simp add: dispatch_head_def SHELLS_def INLINE_INTERPRETERS_def starts_with_prefix)

lemma dispatch_sh: "dispatch_head ''sh'' args hp d f = classify_shell args hp d f"
  by (simp add: dispatch_head_def SHELLS_def)

text \<open>
  Removing the root recursively blocks the command line however the options are
  spelled, clustered, ordered or separated by \<open>--\<close>, and however the root is written.
\<close>

theorem recursive_root_removal_blocks:
  assumes "classify_risk parse c = Some r" "exposes parse (c, 0) (s, d)" "d < MAX_DEPTH"
    and "runs parse s ''rm'' args"
    and "set (short (split_options args)) \<inter> {CHR ''r'', CHR ''R''} \<noteq> {} \<or>
         ''recursive'' \<in> set (long (split_options args))"
    and "''no-preserve-root'' \<in> set (long (split_options args)) \<or>
         (\<exists>p \<in> set (positional (split_options args)). is_root_target p)"
  shows "r = Blocked"
proof -
  have "classify_rm args = Blocked"
    using assms(5,6) by (auto simp: classify_rm_def list_ex_iff Let_def)
  with exposed_runs [OF assms(1-4)] show ?thesis by (simp add: dispatch_rm)
qed

lemma sample_runs_rm:
  "runs sample_parse ''rm --recursive -f -- //'' ''rm'' [''--recursive'', ''-f'', ''--'', ''//'']"
proof -
  have "split_commands sample_parse ''rm --recursive -f -- //'' = Some [''rm --recursive -f -- //'']"
    by code_simp
  moreover have "analyze_command sample_parse ''rm --recursive -f -- //'' = Some
      \<lparr>canonical_head = Some ''rm'', had_parse_errors = False, redirect_warnings = [],
       shape_warnings = [], shape = None\<rparr>"
    by code_simp
  moreover have "shell_words ''rm --recursive -f -- //'' =
      [''rm'', ''--recursive'', ''-f'', ''--'', ''//'']" by code_simp
  moreover have "dropWhile (\<lambda>w. \<not> name_matches w ''rm'') [''rm'', ''--recursive'', ''-f'', ''--'', ''//''] =
      [''rm'', ''--recursive'', ''-f'', ''--'', ''//'']" by code_simp
  moreover have "\<not> dynamic_head [''rm'', ''--recursive'', ''-f'', ''--'', ''//'']" by code_simp
  ultimately show ?thesis by (simp add: runs_def)
qed

theorem recursive_root_removal_blocks_witness:
  "the (classify_risk sample_parse ''rm --recursive -f -- //'') = Blocked"
proof -
  let ?args = "[''--recursive'', ''-f'', ''--'', ''//'']"
  obtain r where r: "classify_risk sample_parse ''rm --recursive -f -- //'' = Some r"
  proof -
    have "classify_risk sample_parse ''rm --recursive -f -- //'' = Some Blocked" by code_simp
    then show thesis by (rule that)
  qed
  have "''recursive'' \<in> set (long (split_options ?args))" by code_simp
  moreover have "\<exists>p \<in> set (positional (split_options ?args)). is_root_target p" by code_simp
  ultimately show ?thesis
    using recursive_root_removal_blocks [OF r exposes.self _ sample_runs_rm] r
    by (simp add: MAX_DEPTH_def)
qed

text \<open>
  A shell that reads its script from a pipe is at least high, wherever it is exposed.
\<close>

theorem piped_shell_is_high:
  assumes "classify_risk parse c = Some r" "exposes parse (c, 0) (s, d)" "d < MAX_DEPTH"
    and "runs parse s ''sh'' args" "CHR ''|'' \<in> set s"
    and "\<forall>a \<in> set args. starts_with a ''-'' \<and> \<not> is_c_flag a"
  shows "High \<le> r"
proof -
  have none: "dropWhile (\<lambda>a. \<not> is_c_flag a) args = []" using assms(6) by simp
  have "classify_shell args True d no_nesting = Some High"
    unfolding classify_shell_def none using assms(6) by (simp add: risk_if_def list_all_iff)
  with exposed_runs [OF assms(1-4)] assms(5) show ?thesis by (simp add: dispatch_sh)
qed

lemma sample_runs_sh: "runs sample_parse ''ls | sh -'' ''sh'' [''-'']"
proof -
  have "split_commands sample_parse ''ls | sh -'' = Some [''ls'', ''sh -'']" by code_simp
  moreover have "analyze_command sample_parse ''sh -'' = Some
      \<lparr>canonical_head = Some ''sh'', had_parse_errors = False, redirect_warnings = [],
       shape_warnings = [], shape = None\<rparr>"
    by code_simp
  moreover have "shell_words ''sh -'' = [''sh'', ''-'']" by code_simp
  moreover have "dropWhile (\<lambda>w. \<not> name_matches w ''sh'') [''sh'', ''-''] = [''sh'', ''-'']" by code_simp
  moreover have "\<not> dynamic_head [''sh'', ''-'']" by code_simp
  ultimately show ?thesis by (auto simp: runs_def intro!: exI [of _ "''sh -''"])
qed

theorem piped_shell_is_high_witness: "High \<le> the (classify_risk sample_parse ''ls | sh -'')"
proof -
  have r: "classify_risk sample_parse ''ls | sh -'' = Some High" by code_simp
  have "\<not> is_c_flag ''-''" "starts_with ''-'' ''-''" by code_simp+
  with piped_shell_is_high [OF r exposes.self _ sample_runs_sh] show ?thesis
    by (simp add: r MAX_DEPTH_def)
qed

section \<open>Wrappers\<close>

text \<open>A flag of a wrapper, with its value when it takes a separate one.\<close>

definition flag_group :: "str list \<Rightarrow> str list \<Rightarrow> bool" where
  "flag_group value_flags g \<longleftrightarrow>
     (\<exists>f. g = [f] \<and> starts_with f ''-'' \<and> (CHR ''='' \<in> set f \<or> f \<notin> set value_flags)) \<or>
     (\<exists>f v. g = [f, v] \<and> starts_with f ''-'' \<and> CHR ''='' \<notin> set f \<and> f \<in> set value_flags)"

definition value_flags_of :: "str \<Rightarrow> str list" where
  "value_flags_of w =
     (if w = ''sudo'' then sudo_value_flags
      else if w = ''doas'' then [''-u'', ''--user'']
      else wrapper_value_flags w)"

lemma skip_flags_group:
  "flag_group vf g \<Longrightarrow> skip_flags vf False (g @ ws) = skip_flags vf False ws"
  by (auto simp: flag_group_def)

lemma skip_flags_groups:
  "list_all (flag_group vf) gs \<Longrightarrow> \<not> starts_with c ''-'' \<Longrightarrow>
   skip_flags vf False (concat gs @ c # ws) = c # ws"
  by (induction gs) (simp_all add: skip_flags_group)

text \<open>
  Wrappers are transparent. Through any wrapper except \<open>timeout\<close>, \<open>su\<close>, \<open>env\<close> and
  the positional ones, in any letter case, with any flags and their values, the head is the head of
  the wrapped command.
\<close>

theorem wrapper_transparent:
  assumes "to_lowercase w \<in> set WRAPPERS"
    and "to_lowercase w \<notin> {''timeout'', ''su'', ''env''} \<union> set POSITIONAL_WRAPPERS"
    and "list_all (flag_group (value_flags_of (to_lowercase w))) gs" "\<not> starts_with c ''-''"
  shows "strip_wrappers w (concat gs @ c # ws) = strip_wrappers c ws"
proof -
  have "skip_wrapper (to_lowercase w) (concat gs @ c # ws) = c # ws"
    using assms skip_flags_groups [OF assms(3,4)]
    by (auto simp: skip_wrapper_def value_flags_of_def split: if_splits)
  with assms(1) show ?thesis by (subst strip_wrappers.simps) simp
qed

theorem wrapper_transparent_witness:
  "strip_wrappers ''Sudo'' [''-u'', ''root'', ''--chdir=/'', ''nice'', ''-n'', ''5'', ''grm'', ''-rf''] = ''rm''"
proof -
  have w: "to_lowercase ''Sudo'' = ''sudo''" by code_simp
  have flags: "flag_group (value_flags_of ''sudo'') [''-u'', ''root'']"
      "flag_group (value_flags_of ''sudo'') [''--chdir=/'']"
    by (auto simp: flag_group_def value_flags_of_def sudo_value_flags_def starts_with_prefix)
  have "strip_wrappers ''Sudo'' (concat [[''-u'', ''root''], [''--chdir=/'']] @ ''nice'' # [''-n'', ''5'', ''grm'', ''-rf''])
      = strip_wrappers ''nice'' [''-n'', ''5'', ''grm'', ''-rf'']"
    by (rule wrapper_transparent)
       (use w flags in \<open>simp_all add: WRAPPERS_def POSITIONAL_WRAPPERS_def starts_with_prefix\<close>)
  moreover have "strip_wrappers ''nice'' [''-n'', ''5'', ''grm'', ''-rf''] = ''rm''" by code_simp
  ultimately show ?thesis by simp
qed

section \<open>What the classifier misses\<close>

text \<open>A wrapper called by its path is not stripped, and its head hides the command it runs.\<close>

lemma path_wrapper_kept: "strip_wrappers ''/usr/bin/sudo'' ws = ''sudo''"
proof -
  have "to_lowercase ''/usr/bin/sudo'' \<notin> set WRAPPERS" "normalize_name ''/usr/bin/sudo'' = ''sudo''"
    by code_simp+
  then show ?thesis by (subst strip_wrappers.simps) simp
qed

lemma path_wrapper_hides_root_removal:
  "classify_risk sample_parse ''/usr/bin/sudo rm -rf /'' = Some Low"
  "classify_risk sample_parse ''sudo rm -rf /'' = Some Blocked"
  by code_simp+

lemma path_alias_hides_root_removal:
  "classify_risk sample_parse ''/opt/homebrew/bin/grm -rf /'' = Some Low"
  "classify_risk sample_parse ''grm -rf /'' = Some Blocked"
  by code_simp+

text \<open>\<open>timeout 30\<close> without a command: the argument collection reads past the end of the words.\<close>

lemma timeout_without_command_panics: "classify_risk sample_parse ''timeout 30'' = None"
  by code_simp

text \<open>The sftp deletion of a differently written root is not blocked, as the shell one is.\<close>

lemma sftp_root_spelling:
  "classify_risk sample_parse ''sftp rm-rf //'' = Some High"
  "classify_risk sample_parse ''rm -rf //'' = Some Blocked"
  by code_simp+

end
