(* ===== verification/Host_Config.thy ===== *)
theory Host_Config
  imports Risk_Level
begin

text \<open>
  Host profiles (\<open>types.rs\<close>), the reserved local target, and the host selections of \<open>core.rs\<close> and
  \<open>session.rs\<close>. A loaded configuration is the list of its host profiles; a load is \<open>None\<close> when the
  configuration file cannot be read.
\<close>

record host_profile =
  hp_name :: str
  hp_host :: str
  hp_user :: "str option"
  hp_port :: "nat option"
  hp_key_path :: "str option"
  hp_password :: "str option"
  hp_jump_host :: "str option"
  hp_proxy_id :: "str option"
  hp_risk_override :: "risk_level option"
  hp_tags :: "str list"
  hp_group :: str
  hp_env :: "str option"
  hp_role :: "str option"
  hp_owner :: "str option"
  hp_init_command :: "str option"
  hp_passphrase :: "str option"
  hp_ai_allowed :: bool

type_synonym config = "host_profile list"

definition redacted_for_transport :: "host_profile \<Rightarrow> host_profile" where
  "redacted_for_transport h = h\<lparr>hp_password := None, hp_passphrase := None\<rparr>"

section \<open>The local target\<close>

definition LOCAL_TARGET_ID :: str where
  "LOCAL_TARGET_ID = ''local''"

definition LOCAL_ENV_PREFIX :: str where
  "LOCAL_ENV_PREFIX = ''local:''"

definition is_local_host :: "str \<Rightarrow> bool" where
  "is_local_host host \<longleftrightarrow>
     host = LOCAL_TARGET_ID \<or>
     (case strip_prefix host LOCAL_ENV_PREFIX of None \<Rightarrow> False | Some environment \<Rightarrow> environment \<noteq> [])"

datatype exec_target = Ssh | Local

fun exec_target_id :: "exec_target \<Rightarrow> str" where
  "exec_target_id Ssh = ''ssh''"
| "exec_target_id Local = ''local''"

definition from_host :: "str \<Rightarrow> exec_target" where
  "from_host host = (if is_local_host host then Local else Ssh)"

section \<open>Listing and filtering\<close>

record host_filter =
  filter_env :: "str option"
  filter_role :: "str option"
  filter_owner :: "str option"
  filter_tag :: "str option"

definition normalized_filter :: "str option \<Rightarrow> str option" where
  "normalized_filter v =
     (case v of None \<Rightarrow> None | Some x \<Rightarrow> if trim x = [] then None else Some (trim x))"

definition matches_optional_label :: "str option \<Rightarrow> str option \<Rightarrow> bool" where
  "matches_optional_label v f =
     (case normalized_filter f of
        None \<Rightarrow> True
      | Some f' \<Rightarrow> (case v of None \<Rightarrow> False | Some item \<Rightarrow> eq_ignore_ascii_case (trim item) f'))"

definition host_matches_filter :: "host_profile \<Rightarrow> host_filter \<Rightarrow> bool" where
  "host_matches_filter h f =
     (if \<not> matches_optional_label (hp_env h) (filter_env f) then False
      else if \<not> matches_optional_label (hp_role h) (filter_role f) then False
      else if \<not> matches_optional_label (hp_owner h) (filter_owner f) then False
      else case normalized_filter (filter_tag f) of
        None \<Rightarrow> True
      | Some tag \<Rightarrow> list_ex (\<lambda>item. eq_ignore_ascii_case (trim item) tag) (hp_tags h))"

definition filter_hosts :: "config \<Rightarrow> host_filter \<Rightarrow> config" where
  "filter_hosts hosts f = filter (\<lambda>h. host_matches_filter h f) hosts"

section \<open>Resolving targets\<close>

datatype resolve_error = ConfigUnreadable | UnknownHost str | NoHostsMatched

definition resolve_host :: "config option \<Rightarrow> str \<Rightarrow> resolve_error + host_profile" where
  "resolve_host config name =
     (case config of
        None \<Rightarrow> Inl ConfigUnreadable
      | Some hosts \<Rightarrow>
          (case List.find (\<lambda>h. hp_name h = name) hosts of
             None \<Rightarrow> Inl (UnknownHost name)
           | Some h \<Rightarrow> Inr h))"

definition ssh_target :: "host_profile \<Rightarrow> str" where
  "ssh_target h =
     (case hp_user h of
        Some user \<Rightarrow> if trim user \<noteq> [] then user @ ''@'' @ hp_host h else hp_host h
      | None \<Rightarrow> hp_host h)"

text \<open>The loop that appends the tagged hosts that are not yet listed.\<close>

definition has_tag :: "str list \<Rightarrow> host_profile \<Rightarrow> bool" where
  "has_tag tag_list h \<longleftrightarrow> list_ex (\<lambda>tag. tag \<in> set tag_list) (hp_tags h)"

definition add_tagged :: "str list \<Rightarrow> str list \<Rightarrow> host_profile \<Rightarrow> str list" where
  "add_tagged tag_list expanded h =
     (if has_tag tag_list h \<and> hp_name h \<notin> set expanded then expanded @ [hp_name h] else expanded)"

definition expand_hosts_by_tags ::
  "config option \<Rightarrow> str list \<Rightarrow> str list option \<Rightarrow> resolve_error + str list" where
  "expand_hosts_by_tags config hosts tags =
     (case tags of
        None \<Rightarrow> Inr hosts
      | Some tag_list \<Rightarrow>
          if tag_list = [] then Inr hosts
          else case config of
            None \<Rightarrow> Inl ConfigUnreadable
          | Some profiles \<Rightarrow> Inr (foldl (add_tagged tag_list) hosts profiles))"

definition resolve_exec_targets ::
  "config option \<Rightarrow> str list \<Rightarrow> str list option \<Rightarrow> resolve_error + str list" where
  "resolve_exec_targets config hosts tags =
     (case expand_hosts_by_tags config hosts tags of
        Inl e \<Rightarrow> Inl e
      | Inr resolved \<Rightarrow> if resolved = [] then Inl NoHostsMatched else Inr resolved)"

section \<open>Facts\<close>

lemma foldl_add_tagged_set:
  "set (foldl (add_tagged tags) hosts ps) =
     set hosts \<union> {hp_name h | h. h \<in> set ps \<and> has_tag tags h}"
  by (induction ps arbitrary: hosts) (auto simp: add_tagged_def)

lemma foldl_add_tagged_prefix: "\<exists>more. foldl (add_tagged tags) hosts ps = hosts @ more"
  by (induction ps arbitrary: hosts) (auto simp: add_tagged_def, metis append_assoc)

lemma resolve_host_name: "resolve_host config name = Inr h \<Longrightarrow> hp_name h = name"
  by (auto simp: resolve_host_def find_Some_iff split: option.splits)

section \<open>Properties\<close>

text \<open>
  The hosts a command is sent to are the requested ones, in their order, followed by
  exactly the configured hosts that carry one of the tags and were not requested.
\<close>

theorem expand_hosts_exact:
  "case expand_hosts_by_tags (Some profiles) hosts (Some tags) of
     Inl e \<Rightarrow> False
   | Inr expanded \<Rightarrow>
       (\<exists>more. expanded = hosts @ more) \<and>
       set expanded = set hosts \<union> {hp_name h | h. h \<in> set profiles \<and> set (hp_tags h) \<inter> set tags \<noteq> {}}"
  using foldl_add_tagged_prefix [of tags hosts profiles] foldl_add_tagged_set [of tags hosts profiles]
  by (auto simp: expand_hosts_by_tags_def has_tag_def list_ex_iff)

end
