(* ===== verification/Audit_Log.thy ===== *)
theory Audit_Log
  imports Risk_Level
begin

text \<open>
  \<open>store.rs\<close>: the audit log. Human approvals wait in memory until the audit entry of the command
  they unlocked (\<open>note_granted\<close>, \<open>take_human_approval\<close>), entries are appended with the verdict of the
  authorization (\<open>append_audit_with_decision\<close>), and the file is rotated by size. The instants, ids,
  the redaction of secrets (regular expressions of a third-party engine) and the byte length of a
  written line come from the environment. Log files hold their entries, oldest first. The anomaly
  scan of a new entry only publishes events and is not part of the model.
\<close>

datatype audit_decision =
    DApproved | DApprovedRewritten | DRejected | DTimedOut | DAutoAllowed | DBlocked

record exec_result =
  er_host :: str
  er_command :: str
  er_exit_code :: "int option"
  er_stdout :: str
  er_stderr :: str
  er_duration_ms :: nat
  er_risk_level :: risk_level
  er_truncated :: bool
  er_dropped_bytes :: nat
  er_side_effect :: "str option"
  er_risk_unclassified :: bool

record audit_entry =
  ae_id :: nat
  ae_ts :: int
  ae_host :: str
  ae_command :: str
  ae_exit_code :: "int option"
  ae_duration_ms :: nat
  ae_risk_level :: risk_level
  ae_reason :: "str option"
  ae_change_id :: "str option"
  ae_side_effect :: "str option"
  ae_source :: "str option"
  ae_action :: "str option"
  ae_outcome :: "str option"
  ae_decision :: "audit_decision option"
  ae_decided_by :: "str option"
  ae_original_command :: "str option"
  ae_risk_unclassified :: bool

record granted_approval =
  ga_host :: str
  ga_command :: str
  ga_original :: "str option"
  ga_at :: nat

text \<open>The log \<open>audit.jsonl\<close>, its rotations \<open>audit.jsonl.1\<close> \<dots>, and the waiting approvals.\<close>

record audit_world =
  log :: "audit_entry list option"
  rotated :: "nat \<Rightarrow> audit_entry list option"
  granted :: "granted_approval list"

record audit_env =
  now_instant :: nat
  now_ts :: int
  fresh_id :: nat
  redact :: "str \<Rightarrow> str"
  line_bytes :: "audit_entry \<Rightarrow> nat"

section \<open>Waiting approvals\<close>

text \<open>Seconds of a monotonic clock; an elapsed time saturates at zero.\<close>

definition GRANTED_APPROVAL_TTL :: nat where
  "GRANTED_APPROVAL_TTL = 600"

definition fresh_grants :: "nat \<Rightarrow> granted_approval list \<Rightarrow> granted_approval list" where
  "fresh_grants now gs = filter (\<lambda>g. now - ga_at g < GRANTED_APPROVAL_TTL) gs"

definition note_granted :: "audit_env \<Rightarrow> str \<Rightarrow> str \<Rightarrow> str option \<Rightarrow> audit_world \<Rightarrow> audit_world" where
  "note_granted env host command original w =
     w\<lparr>granted := fresh_grants (now_instant env) (granted w) @
         [\<lparr>ga_host = host, ga_command = command, ga_original = original,
           ga_at = now_instant env\<rparr>]\<rparr>"

definition note_human_approval :: "audit_env \<Rightarrow> str \<Rightarrow> str \<Rightarrow> audit_world \<Rightarrow> audit_world" where
  "note_human_approval env host command w = note_granted env host command None w"

definition note_human_rewrite :: "audit_env \<Rightarrow> str \<Rightarrow> str \<Rightarrow> str \<Rightarrow> audit_world \<Rightarrow> audit_world" where
  "note_human_rewrite env host command original w = note_granted env host command (Some original) w"

text \<open>Remove the first approval of the pair.\<close>

fun take_first :: "str \<Rightarrow> str \<Rightarrow> granted_approval list \<Rightarrow> (str option \<times> granted_approval list) option" where
  "take_first host command [] = None"
| "take_first host command (g # gs) =
     (if ga_host g = host \<and> ga_command g = command then Some (ga_original g, gs)
      else map_option (\<lambda>(orig, rest). (orig, g # rest)) (take_first host command gs))"

definition take_human_approval ::
  "audit_env \<Rightarrow> str \<Rightarrow> str \<Rightarrow> audit_world \<Rightarrow> str option option \<times> audit_world" where
  "take_human_approval env host command w =
     (let live = fresh_grants (now_instant env) (granted w)
      in case take_first host command live of
           None \<Rightarrow> (None, w\<lparr>granted := live\<rparr>)
         | Some (orig, rest) \<Rightarrow> (Some orig, w\<lparr>granted := rest\<rparr>))"

section \<open>Rotation\<close>

definition AUDIT_ROTATION_COUNT :: nat where
  "AUDIT_ROTATION_COUNT = 10"

definition log_bytes :: "audit_env \<Rightarrow> audit_entry list \<Rightarrow> nat" where
  "log_bytes env es = sum_list (map (\<lambda>e. line_bytes env e + 1) es)"

text \<open>\<open>for i in (2..=10).rev()\<close>: rename \<open>.(i-1)\<close> to \<open>.i\<close> when it exists.\<close>

definition shift_one :: "(nat \<Rightarrow> audit_entry list option) \<Rightarrow> nat \<Rightarrow> nat \<Rightarrow> audit_entry list option" where
  "shift_one r i = (if r (i - 1) \<noteq> None then r(i := r (i - 1), i - 1 := None) else r)"

definition rotate_audit_if_needed_unlocked ::
  "audit_env \<Rightarrow> nat \<Rightarrow> audit_world \<Rightarrow> audit_world" where
  "rotate_audit_if_needed_unlocked env max_size_bytes w =
     (case log w of
        None \<Rightarrow> w
      | Some es \<Rightarrow>
          if log_bytes env es \<le> max_size_bytes then w
          else (let shifted = foldl shift_one (rotated w) (rev [2..<AUDIT_ROTATION_COUNT + 1]);
                    trimmed = shifted(AUDIT_ROTATION_COUNT + 1 := None)
                in w\<lparr>log := None, rotated := trimmed(1 := Some es)\<rparr>))"

section \<open>Derived fields\<close>

definition derive_audit_action :: "str \<Rightarrow> str option" where
  "derive_audit_action command =
     (let lower = to_lowercase command; begins = starts_with lower
      in if begins ''sftp upload'' then Some ''sftp_upload''
         else if begins ''sftp download'' then Some ''sftp_download''
         else if begins ''sftp mkdir'' then Some ''sftp_mkdir''
         else if begins ''sftp rename'' then Some ''sftp_rename''
         else if begins ''sftp rm'' \<or> begins ''sftp rmdir'' \<or> begins ''sftp rm-rf''
         then Some ''sftp_remove''
         else if begins ''sftp ls'' then Some ''sftp_list''
         else if begins ''sftp stat'' then Some ''sftp_stat''
         else if begins ''sftp read'' then Some ''sftp_read''
         else if begins ''sftp walk'' then Some ''sftp_walk''
         else if begins ''forward add'' \<or> begins ''forward add-multi'' then Some ''forward_add''
         else if begins ''forward remove'' \<or> begins ''forward del'' then Some ''forward_remove''
         else if begins ''forward stop'' then Some ''forward_stop''
         else if begins ''forward start'' then Some ''forward_start''
         else if begins ''forward list'' then Some ''forward_list''
         else if begins ''config update'' \<or> begins ''host add'' \<or> begins ''host update'' \<or>
                 begins ''host remove'' \<or> begins ''host delete''
         then Some ''config_update''
         else Some ''exec'')"

definition derive_audit_outcome :: "int option \<Rightarrow> risk_level \<Rightarrow> str option" where
  "derive_audit_outcome exit_code risk =
     (if risk = Blocked then Some ''blocked''
      else case exit_code of
        Some c \<Rightarrow> if c = 0 then Some ''success'' else Some ''error''
      | None \<Rightarrow> Some ''error'')"

section \<open>Appending\<close>

text \<open>The verdict of an entry: the given one, or that of a command that ran.\<close>

definition resolve_decision ::
  "audit_env \<Rightarrow> exec_result \<Rightarrow> (audit_decision \<times> str) option \<Rightarrow> audit_world \<Rightarrow>
   (audit_decision option \<times> str option \<times> str option) \<times> audit_world" where
  "resolve_decision env result decision w =
     (case decision of
        Some (d, by) \<Rightarrow> ((Some d, Some by, None), w)
      | None \<Rightarrow>
          if er_exit_code result \<noteq> None then
            (case take_human_approval env (er_host result) (er_command result) w of
               (Some original, w') \<Rightarrow>
                 ((Some (if original \<noteq> None then DApprovedRewritten else DApproved), Some ''human'',
                   map_option (redact env) original), w')
             | (None, w') \<Rightarrow> ((Some DAutoAllowed, Some ''rule'', None), w'))
          else ((None, None, None), w))"

definition audit_entry_of ::
  "audit_env \<Rightarrow> exec_result \<Rightarrow> risk_level \<Rightarrow> str option \<Rightarrow> str option \<Rightarrow> str option \<Rightarrow>
   audit_decision option \<times> str option \<times> str option \<Rightarrow> audit_entry" where
  "audit_entry_of env result risk reason change_id source verdict =
     (case verdict of (decision, by, original) \<Rightarrow>
        \<lparr>ae_id = fresh_id env, ae_ts = now_ts env, ae_host = er_host result,
         ae_command = redact env (er_command result), ae_exit_code = er_exit_code result,
         ae_duration_ms = er_duration_ms result, ae_risk_level = risk, ae_reason = reason,
         ae_change_id = change_id, ae_side_effect = er_side_effect result, ae_source = source,
         ae_action = derive_audit_action (er_command result),
         ae_outcome = derive_audit_outcome (er_exit_code result) risk,
         ae_decision = decision, ae_decided_by = by, ae_original_command = original,
         ae_risk_unclassified = er_risk_unclassified result\<rparr>)"

definition append_audit_with_decision ::
  "audit_env \<Rightarrow> exec_result \<Rightarrow> risk_level \<Rightarrow> str option \<Rightarrow> str option \<Rightarrow> str option \<Rightarrow>
   (audit_decision \<times> str) option \<Rightarrow> audit_world \<Rightarrow> audit_world" where
  "append_audit_with_decision env result risk reason change_id source decision w =
     (let w1 = rotate_audit_if_needed_unlocked env (10 * 1024 * 1024) w
      in case resolve_decision env result decision w1 of
           (verdict, w2) \<Rightarrow>
             w2\<lparr>log := Some ((case log w2 of None \<Rightarrow> [] | Some es \<Rightarrow> es) @
                 [audit_entry_of env result risk reason change_id source verdict])\<rparr>)"

definition append_audit ::
  "audit_env \<Rightarrow> exec_result \<Rightarrow> risk_level \<Rightarrow> str option \<Rightarrow> str option \<Rightarrow> str option \<Rightarrow>
   audit_world \<Rightarrow> audit_world" where
  "append_audit env result risk reason change_id source w =
     append_audit_with_decision env result risk reason change_id source None w"

definition refusal_result :: "str \<Rightarrow> str \<Rightarrow> risk_level \<Rightarrow> str \<Rightarrow> exec_result" where
  "refusal_result host command risk message =
     \<lparr>er_host = host, er_command = command, er_exit_code = None, er_stdout = [], er_stderr = message,
      er_duration_ms = 0, er_risk_level = risk, er_truncated = False, er_dropped_bytes = 0,
      er_side_effect = None, er_risk_unclassified = False\<rparr>"

definition append_operation_audit ::
  "audit_env \<Rightarrow> str \<Rightarrow> str \<Rightarrow> str \<Rightarrow> risk_level \<Rightarrow> int option \<Rightarrow> nat \<Rightarrow> str option \<Rightarrow>
   audit_world \<Rightarrow> audit_world" where
  "append_operation_audit env source host command risk exit_code duration_ms reason w =
     append_audit env
       ((refusal_result host command risk (case reason of None \<Rightarrow> [] | Some r \<Rightarrow> r))
          \<lparr>er_exit_code := exit_code, er_duration_ms := duration_ms\<rparr>)
       risk reason None (Some source) w"

section \<open>CSV fields\<close>

definition csv_escape :: "str \<Rightarrow> str" where
  "csv_escape v =
     (if CHR '','' \<in> set v \<or> dquote \<in> set v \<or> newline \<in> set v
      then [dquote] @ concat (map (\<lambda>c. if c = dquote then [dquote, dquote] else [c]) v) @ [dquote]
      else v)"

text \<open>A reader of one field as RFC 4180 defines it: the value and the rest of the line.\<close>

fun csv_quoted :: "str \<Rightarrow> str \<times> str" where
  "csv_quoted [] = ([], [])"
| "csv_quoted (c # s) =
     (if c \<noteq> dquote then (case csv_quoted s of (v, rest) \<Rightarrow> (c # v, rest))
      else case s of
        d # s' \<Rightarrow> if d = dquote then (case csv_quoted s' of (v, rest) \<Rightarrow> (dquote # v, rest)) else ([], s)
      | [] \<Rightarrow> ([], []))"

definition csv_field :: "str \<Rightarrow> str \<times> str" where
  "csv_field s =
     (case s of
        c # s' \<Rightarrow>
          if c = dquote then csv_quoted s'
          else (takeWhile (\<lambda>c. c \<noteq> CHR '','' \<and> c \<noteq> newline) s,
                dropWhile (\<lambda>c. c \<noteq> CHR '','' \<and> c \<noteq> newline) s)
      | [] \<Rightarrow> ([], []))"

lemma csv_quoted_escaped:
  "\<forall>c s. rest = c # s \<longrightarrow> c \<noteq> dquote \<Longrightarrow>
   csv_quoted (concat (map (\<lambda>c. if c = dquote then [dquote, dquote] else [c]) v) @ dquote # rest) = (v, rest)"
  by (induction v) (auto split: list.split)

section \<open>Facts about grants and rotation\<close>

definition grant_for :: "str \<Rightarrow> str \<Rightarrow> granted_approval \<Rightarrow> bool" where
  "grant_for host command g \<longleftrightarrow> ga_host g = host \<and> ga_command g = command"

lemma take_first_None: "take_first h c gs = None \<longleftrightarrow> (\<forall>g \<in> set gs. \<not> grant_for h c g)"
  by (induction gs) (auto simp: grant_for_def)

lemma take_first_Some:
  "take_first h c gs = Some (original, rest) \<Longrightarrow>
   \<exists>pre g post. gs = pre @ g # post \<and> rest = pre @ post \<and> grant_for h c g \<and> ga_original g = original"
proof (induction gs arbitrary: rest)
  case (Cons g gs)
  show ?case
  proof (cases "grant_for h c g")
    case True
    with Cons.prems show ?thesis
      by (intro exI [of _ "[]"] exI [of _ g] exI [of _ gs]) (auto simp: grant_for_def)
  next
    case False
    with Cons.prems obtain rest' where "take_first h c gs = Some (original, rest')" "rest = g # rest'"
      by (auto simp: grant_for_def split: if_splits)
    with Cons.IH [of rest'] show ?thesis by (metis append_Cons)
  qed
qed simp

definition last_entry :: "audit_world \<Rightarrow> audit_entry" where
  "last_entry w = last (the (log w))"

lemma rotate_granted [simp]: "granted (rotate_audit_if_needed_unlocked env n w) = granted w"
  by (simp add: rotate_audit_if_needed_unlocked_def Let_def split: option.split)

lemma shift_one_alt:
  "shift_one r i = r(i := (if r (i - 1) \<noteq> None then r (i - 1) else r i), i - 1 := None)"
  by (auto simp: shift_one_def fun_eq_iff)

lemma none_else [simp]: "(if x = None then None else x) = x"
  by simp

lemma shift_gen:
  "foldl shift_one r (rev [2..<n + 2]) i =
     (if i = 0 \<or> n = 0 then r i else if i = 1 then None
      else if i \<le> n then r (i - 1)
      else if i = n + 1 then (if r n \<noteq> None then r n else r (n + 1))
      else r i)"
proof (induction n arbitrary: r)
  case (Suc n)
  define q where "q = shift_one r (n + 2)"
  have at: "q (n + 1) = None" "q (n + 2) = (if r (n + 1) \<noteq> None then r (n + 1) else r (n + 2))"
    "\<And>j. j \<noteq> n + 1 \<Longrightarrow> j \<noteq> n + 2 \<Longrightarrow> q j = r j"
    by (simp_all add: q_def shift_one_alt)
  have step: "foldl shift_one r (rev [2..<Suc n + 2]) i = foldl shift_one q (rev [2..<n + 2]) i"
    by (simp add: q_def)
  show ?case
  proof (cases "n = 0")
    case True
    have "foldl shift_one q (rev [2..<n + 2]) i = q i" by (simp add: True)
    with True at show ?thesis unfolding step
      by (cases "i = 0"; cases "i = 1"; cases "i = 2") (simp_all add: numeral_2_eq_2)
  next
    case False
    consider "i = 0" | "i = 1" | "2 \<le> i" "i \<le> n" | "i = n + 1" | "i = n + 2" | "i > n + 2"
      by linarith
    then show ?thesis
    proof cases
      case 3
      then have "i - 1 \<noteq> n + 1" "i - 1 \<noteq> n + 2" by auto
      with 3 False at(3) [of "i - 1"] show ?thesis unfolding step Suc.IH [of q] by simp
    next
      case 4
      with False at show ?thesis unfolding step Suc.IH [of q] by simp
    next
      case 5
      with False at(2) show ?thesis unfolding step Suc.IH [of q] by simp
    next
      case 6
      with False at(3) [of i] show ?thesis unfolding step Suc.IH [of q] by simp
    qed (use False at(3) [of 0] step Suc.IH [of q] in simp_all)
  qed
qed simp

lemma shift_all_at:
  "2 \<le> i \<Longrightarrow> i \<le> 9 \<Longrightarrow> foldl shift_one r (rev [2..<AUDIT_ROTATION_COUNT + 1]) i = r (i - 1)"
  "r 9 \<noteq> None \<Longrightarrow> foldl shift_one r (rev [2..<AUDIT_ROTATION_COUNT + 1]) 10 = r 9"
  using shift_gen [of r 9] by (simp_all add: AUDIT_ROTATION_COUNT_def)

definition logged :: "audit_world \<Rightarrow> audit_entry set" where
  "logged w = set (case log w of None \<Rightarrow> [] | Some es \<Rightarrow> es) \<union>
     (\<Union>i \<in> {1..10}. set (case rotated w i of None \<Rightarrow> [] | Some es \<Rightarrow> es))"

section \<open>Properties\<close>

text \<open>An escaped field is read back, whatever follows it.\<close>

lemma csv_escape_reads_back:
  assumes "rest = [] \<or> hd rest = CHR '','' \<or> hd rest = newline"
  shows "csv_field (csv_escape v @ rest) = (v, rest)"
proof (cases "CHR '','' \<in> set v \<or> dquote \<in> set v \<or> newline \<in> set v")
  case True
  have "\<forall>c s. rest = c # s \<longrightarrow> c \<noteq> dquote" using assms by auto
  from csv_quoted_escaped [OF this, of v] True show ?thesis
    by (simp add: csv_escape_def csv_field_def)
next
  case False
  let ?p = "\<lambda>c. c \<noteq> CHR '','' \<and> c \<noteq> newline"
  have v: "\<forall>c \<in> set v. ?p c" "dquote \<notin> set v" using False by auto
  have rest: "takeWhile ?p rest = []" "dropWhile ?p rest = rest" using assms by (cases rest; auto)+
  from False show ?thesis
    using v rest assms by (cases v; cases rest) (auto simp: csv_escape_def csv_field_def)
qed

text \<open>
  The entry of an executed command says that a human decided exactly when a live
  approval for that host and that very command text is waiting, and then that approval is spent.
\<close>

theorem human_verdict_spends_approval:
  assumes "er_exit_code result = Some code"
  shows "let live = fresh_grants (now_instant env) (granted w);
             w' = append_audit env result risk reason change_id source w;
             waiting = list_ex (grant_for (er_host result) (er_command result)) live
         in (ae_decided_by (last_entry w') = Some ''human'' \<longleftrightarrow> waiting) \<and>
            length (granted w') = length live - (if waiting then 1 else 0) \<and>
            set (granted w') \<subseteq> set live"
proof (cases "take_first (er_host result) (er_command result)
    (fresh_grants (now_instant env) (granted w))")
  case None
  then have "\<not> list_ex (grant_for (er_host result) (er_command result))
      (fresh_grants (now_instant env) (granted w))"
    by (simp add: take_first_None list_ex_iff)
  with None assms show ?thesis
    by (simp add: append_audit_def append_audit_with_decision_def resolve_decision_def last_entry_def
        take_human_approval_def audit_entry_of_def Let_def)
next
  case (Some x)
  obtain original rest where x: "x = (original, rest)" by (cases x)
  from take_first_Some [OF Some [unfolded x]] obtain pre g post where split:
      "fresh_grants (now_instant env) (granted w) = pre @ g # post" "rest = pre @ post"
      "grant_for (er_host result) (er_command result) g"
    by blast
  with assms Some x show ?thesis
    by (auto simp: append_audit_def append_audit_with_decision_def resolve_decision_def last_entry_def
        take_human_approval_def audit_entry_of_def Let_def)
qed

definition demo_env :: audit_env where
  "demo_env = \<lparr>now_instant = 10, now_ts = 0, fresh_id = 1, redact = (\<lambda>s. s), line_bytes = (\<lambda>_. 100)\<rparr>"

definition empty_world :: audit_world where
  "empty_world = \<lparr>log = None, rotated = (\<lambda>_. None), granted = []\<rparr>"

theorem human_verdict_spends_approval_witness:
  "ae_decided_by (last_entry (append_audit demo_env
     ((refusal_result ''web'' ''ls'' High [])\<lparr>er_exit_code := Some 0\<rparr>) High None None None
     (note_human_approval demo_env ''web'' ''ls'' empty_world))) = Some ''human''"
  using human_verdict_spends_approval [of "(refusal_result ''web'' ''ls'' High [])\<lparr>er_exit_code := Some 0\<rparr>" 0
      demo_env "note_human_approval demo_env ''web'' ''ls'' empty_world"]
  by (simp add: refusal_result_def note_human_approval_def note_granted_def fresh_grants_def
      demo_env_def empty_world_def grant_for_def GRANTED_APPROVAL_TTL_def Let_def)

text \<open>
  Appending never loses an audit entry that is not in the oldest rotation; the new
  entry is the last of the current log.
\<close>

theorem append_keeps_history:
  "logged w - set (case rotated w 10 of None \<Rightarrow> [] | Some es \<Rightarrow> es)
     \<subseteq> logged (append_audit_with_decision env result risk reason change_id source decision w)"
proof -
  let ?w = "rotate_audit_if_needed_unlocked env (10 * 1024 * 1024) w"
  have "logged w - set (case rotated w 10 of None \<Rightarrow> [] | Some es \<Rightarrow> es) \<subseteq> logged ?w"
  proof (cases "\<exists>es. log w = Some es \<and> \<not> log_bytes env es \<le> 10 * 1024 * 1024")
    case False
    then have "?w = w" by (auto simp: rotate_audit_if_needed_unlocked_def split: option.split)
    then show ?thesis by auto
  next
    case True
    then obtain es where es: "log w = Some es" "\<not> log_bytes env es \<le> 10 * 1024 * 1024" by blast
    have rot: "rotated ?w 1 = Some es" "\<And>i. 2 \<le> i \<Longrightarrow> i \<le> 9 \<Longrightarrow> rotated ?w i = rotated w (i - 1)"
        "rotated w 9 \<noteq> None \<Longrightarrow> rotated ?w 10 = rotated w 9" "log ?w = None"
    proof -
      define S where "S = foldl shift_one (rotated w) (rev [2..<AUDIT_ROTATION_COUNT + 1])"
      have S: "\<And>i. 2 \<le> i \<Longrightarrow> i \<le> 9 \<Longrightarrow> S i = rotated w (i - 1)"
          "rotated w 9 \<noteq> None \<Longrightarrow> S 10 = rotated w 9"
        unfolding S_def using shift_all_at [where r = "rotated w"] by blast+
      have w: "?w = w\<lparr>log := None, rotated := S(AUDIT_ROTATION_COUNT + 1 := None, 1 := Some es)\<rparr>"
        using es by (simp only: rotate_audit_if_needed_unlocked_def S_def Let_def option.case if_False)
      show "rotated ?w 1 = Some es" "log ?w = None"
          "\<And>i. 2 \<le> i \<Longrightarrow> i \<le> 9 \<Longrightarrow> rotated ?w i = rotated w (i - 1)"
          "rotated w 9 \<noteq> None \<Longrightarrow> rotated ?w 10 = rotated w 9"
        unfolding w using S by (simp_all add: AUDIT_ROTATION_COUNT_def)
    qed
    have moved: "\<exists>j \<in> {1..10}. rotated ?w j = rotated w i" if "1 \<le> i" "i \<le> 9" "rotated w i \<noteq> None" for i
    proof (cases "i = 9")
      case True
      with rot(3) that show ?thesis by (intro bexI [of _ 10]) auto
    next
      case False
      with rot(2) [of "i + 1"] that show ?thesis by (intro bexI [of _ "i + 1"]) auto
    qed
    show ?thesis
    proof
      fix e assume e: "e \<in> logged w - set (case rotated w 10 of None \<Rightarrow> [] | Some es \<Rightarrow> es)"
      show "e \<in> logged ?w"
      proof (cases "e \<in> set es")
        case True
        then show ?thesis using rot(1) by (auto simp: logged_def intro!: bexI [of _ 1])
      next
        case False
        with e es(1) have "e \<in> (\<Union>i \<in> {1..10}. set (case rotated w i of None \<Rightarrow> [] | Some es \<Rightarrow> es))"
          unfolding logged_def by simp
        then obtain i where "i \<in> {1..10}"
            "e \<in> set (case rotated w i of None \<Rightarrow> [] | Some es \<Rightarrow> es)"
          by blast
        then obtain fs where i: "1 \<le> i" "i \<le> 10" "rotated w i = Some fs" "e \<in> set fs"
          by (cases "rotated w i") auto
        with e have "i \<noteq> 10" by auto
        with i moved [of i] obtain j where "j \<in> {1..10}" "rotated ?w j = Some fs" by auto
        with i(4) show ?thesis by (auto simp: logged_def intro!: bexI [of _ j])
      qed
    qed
  qed
  also have "logged ?w \<subseteq> logged (append_audit_with_decision env result risk reason change_id source decision w)"
    by (auto simp: append_audit_with_decision_def resolve_decision_def take_human_approval_def
        logged_def Let_def split: option.splits prod.splits)
  finally show ?thesis .
qed

end
