(* ===== verification/Approval_Policy.thy ===== *)
theory Approval_Policy
  imports Risk_Level Glob Syntax_Tree
begin

text \<open>
  \<open>approval.rs\<close>, the policy half: which commands need a human (\<open>check_approval_required_with\<close>, the
  first matching policy decides) and the summary that is shown for a host before any command is
  known (\<open>approval_mode_for_risk\<close>). The host test is written twice in the source, once with
  \<open>to_lowercase\<close> and once with \<open>eq_ignore_ascii_case\<close>; the two agree on ASCII names.
\<close>

record approval_policy =
  policy_name :: str
  policy_hosts :: "str list"
  policy_tags :: "str list"
  min_risk :: "risk_level option"
  command_pattern :: "str option"
  requires_approval :: bool
  policy_ttl_secs :: "nat option"

definition hosts_match :: "approval_policy \<Rightarrow> str \<Rightarrow> bool" where
  "hosts_match policy host_lower \<longleftrightarrow>
     policy_hosts policy = [] \<or> list_ex (\<lambda>h. to_lowercase h = host_lower) (policy_hosts policy)"

definition tags_match :: "approval_policy \<Rightarrow> str list \<Rightarrow> bool" where
  "tags_match policy host_tags \<longleftrightarrow>
     policy_tags policy = [] \<or>
     (let policy_tags_lower = map to_lowercase (policy_tags policy)
      in list_ex (\<lambda>ht. to_lowercase ht \<in> set policy_tags_lower) host_tags)"

definition min_risk_met :: "approval_policy \<Rightarrow> risk_level \<Rightarrow> bool" where
  "min_risk_met policy risk_level \<longleftrightarrow>
     (case min_risk policy of
        None \<Rightarrow> True
      | Some m \<Rightarrow> \<not> risk_ordinal risk_level < risk_ordinal m)"

definition pattern_met :: "approval_policy \<Rightarrow> str \<Rightarrow> bool" where
  "pattern_met policy command \<longleftrightarrow>
     (case command_pattern policy of None \<Rightarrow> True | Some pattern \<Rightarrow> glob_match pattern command)"

fun check_approval_required_with ::
  "approval_policy list \<Rightarrow> str \<Rightarrow> str list \<Rightarrow> str \<Rightarrow> risk_level \<Rightarrow> approval_policy option" where
  "check_approval_required_with [] host host_tags command risk_level = None"
| "check_approval_required_with (policy # policies) host host_tags command risk_level =
     (let continue = check_approval_required_with policies host host_tags command risk_level
      in if \<not> hosts_match policy (to_lowercase host) then continue
         else if \<not> tags_match policy host_tags then continue
         else if \<not> min_risk_met policy risk_level then continue
         else if \<not> pattern_met policy command then continue
         else if requires_approval policy then Some policy
         else None)"

text \<open>Loading the policies can fail; the caller propagates it.\<close>

definition check_approval_required ::
  "'e + approval_policy list \<Rightarrow> str \<Rightarrow> str list \<Rightarrow> str \<Rightarrow> risk_level \<Rightarrow> 'e + approval_policy option" where
  "check_approval_required loaded host host_tags command risk_level =
     (case loaded of
        Inl e \<Rightarrow> Inl e
      | Inr policies \<Rightarrow>
          Inr (check_approval_required_with policies host host_tags command risk_level))"

datatype approval_mode = Auto | Required | Conditional

definition approval_policy_applies_to_host :: "approval_policy \<Rightarrow> str \<Rightarrow> str list \<Rightarrow> bool" where
  "approval_policy_applies_to_host policy host host_tags \<longleftrightarrow>
     (if policy_hosts policy \<noteq> [] \<and>
         \<not> list_ex (\<lambda>name. eq_ignore_ascii_case name host) (policy_hosts policy) then False
      else policy_tags policy = [] \<or>
           list_ex (\<lambda>tag. list_ex (\<lambda>policy_tag. eq_ignore_ascii_case policy_tag tag)
             (policy_tags policy)) host_tags)"

fun mode_go ::
  "bool \<Rightarrow> approval_policy list \<Rightarrow> str \<Rightarrow> str list \<Rightarrow> risk_level \<Rightarrow> approval_mode" where
  "mode_go conditional [] host host_tags risk_level = (if conditional then Conditional else Auto)"
| "mode_go conditional (policy # policies) host host_tags risk_level =
     (if \<not> approval_policy_applies_to_host policy host host_tags then
        mode_go conditional policies host host_tags risk_level
      else if \<not> min_risk_met policy risk_level then
        mode_go conditional policies host host_tags risk_level
      else if command_pattern policy \<noteq> None then
        mode_go True policies host host_tags risk_level
      else if conditional then Conditional
      else if requires_approval policy then Required
      else Auto)"

definition approval_mode_for_risk ::
  "approval_policy list \<Rightarrow> str \<Rightarrow> str list \<Rightarrow> risk_level \<Rightarrow> approval_mode" where
  "approval_mode_for_risk policies host host_tags risk_level =
     mode_go False policies host host_tags risk_level"

section \<open>First matching policy\<close>

definition policy_matches :: "approval_policy \<Rightarrow> str \<times> str list \<times> str \<times> risk_level \<Rightarrow> bool" where
  "policy_matches policy x \<longleftrightarrow>
     (case x of (host, host_tags, command, risk_level) \<Rightarrow>
        hosts_match policy (to_lowercase host) \<and> tags_match policy host_tags \<and>
        min_risk_met policy risk_level \<and> pattern_met policy command)"

definition policy_verdict :: "approval_policy \<Rightarrow> approval_policy option" where
  "policy_verdict policy = (if requires_approval policy then Some policy else None)"

interpretation policies: first_match policy_matches policy_verdict None
  "\<lambda>ps (host, host_tags, command, risk_level).
     check_approval_required_with ps host host_tags command risk_level"
  by unfold_locales (auto simp: policy_matches_def policy_verdict_def Let_def split: if_splits)

lemma applies_to_host_eq:
  "approval_policy_applies_to_host policy host host_tags \<longleftrightarrow>
     hosts_match policy (to_lowercase host) \<and> tags_match policy host_tags"
  by (auto simp: approval_policy_applies_to_host_def hosts_match_def tags_match_def list_ex_iff
      eq_ignore_ascii_case_lower Let_def image_iff) metis+

lemma mode_go_conditional: "mode_go True ps host tags risk = Conditional"
  by (induction ps) auto

lemma mode_go_sound:
  "mode_go False ps host tags risk = Required \<Longrightarrow>
     check_approval_required_with ps host tags command risk \<noteq> None"
  "mode_go False ps host tags risk = Auto \<Longrightarrow>
     check_approval_required_with ps host tags command risk = None"
  by (induction ps)
     (auto simp: applies_to_host_eq mode_go_conditional pattern_met_def Let_def split: if_splits)

lemma mode_go_conditional_cause:
  "mode_go False ps host tags risk = Conditional \<Longrightarrow>
   \<exists>p \<in> set ps. command_pattern p \<noteq> None \<and> approval_policy_applies_to_host p host tags \<and>
     min_risk_met p risk"
  by (induction ps) (auto split: if_splits)

section \<open>Properties\<close>

text \<open>
  The approval mode shown for a host and a risk level is sound for every command:
  \<open>Required\<close> means each command needs approval, \<open>Auto\<close> that none does, and \<open>Conditional\<close> is only
  said when a policy with a command pattern applies to the host at that level.
\<close>

theorem approval_mode_sound:
  "case approval_mode_for_risk policies host tags risk of
     Required \<Rightarrow> \<forall>command. check_approval_required_with policies host tags command risk \<noteq> None
   | Auto \<Rightarrow> \<forall>command. check_approval_required_with policies host tags command risk = None
   | Conditional \<Rightarrow> \<exists>p \<in> set policies. command_pattern p \<noteq> None \<and>
       approval_policy_applies_to_host p host tags \<and> min_risk_met p risk"
  unfolding approval_mode_for_risk_def
  using mode_go_sound mode_go_conditional_cause by (auto split: approval_mode.split)

text \<open>
  The first policy that matches a command decides, whatever follows it: it is the
  one reported when it asks for approval, and nothing is asked when it does not.
\<close>

theorem first_policy_decides:
  assumes "\<forall>q \<in> set before. \<not> policy_matches q (host, tags, command, risk)"
    and "policy_matches p (host, tags, command, risk)"
  shows "check_approval_required_with (before @ p # after) host tags command risk =
    (if requires_approval p then Some p else None)"
  using policies.first_decides [OF assms, of after] by (simp add: policy_verdict_def)

definition ask_prod :: approval_policy where
  "ask_prod = \<lparr>policy_name = ''prod'', policy_hosts = [''prod''], policy_tags = [],
     min_risk = Some High, command_pattern = None, requires_approval = True, policy_ttl_secs = None\<rparr>"

definition allow_all :: approval_policy where
  "allow_all = \<lparr>policy_name = ''all'', policy_hosts = [], policy_tags = [], min_risk = None,
     command_pattern = None, requires_approval = False, policy_ttl_secs = None\<rparr>"

theorem first_policy_decides_witness:
  "check_approval_required_with [allow_all (| policy_hosts := [''web''] |), ask_prod, allow_all]
     ''Prod'' [] ''rm -rf x'' High = Some ask_prod"
proof -
  have no: "\<forall>q \<in> set [allow_all (| policy_hosts := [''web''] |)].
      \<not> policy_matches q (''Prod'', [], ''rm -rf x'', High)"
    and yes: "policy_matches ask_prod (''Prod'', [], ''rm -rf x'', High)"
    by code_simp+
  show ?thesis using first_policy_decides [OF no yes, of "[allow_all]"] by (simp add: ask_prod_def)
qed

end
