(* ===== verification/Execution_Control.thy ===== *)
theory Execution_Control
  imports Risk_Laws Risk_Rules Host_Config Audit_Log Approval_Policy Daemon_Scope
begin

text \<open>
  \<open>execution_control.rs\<close>: the authorization of a command, from the token scope over the risk, the
  human-only hosts and the approval policies to the approver and the audit entry. What the code
  reads from disk is a \<open>exec_ctx\<close>; an authorization has two of them, one before the approver is
  asked and one after, since files and clock may change while it waits. The approval handler is a
  function that may itself write audit entries. \<open>None\<close> is a panic of the classifier.
\<close>

record exec_ctx =
  ctx_parse :: parser
  ctx_config :: "config option"
  ctx_rules :: "risk_rules option"
  ctx_policies :: "str + approval_policy list"
  ctx_classifiable :: "str \<Rightarrow> bool"
  ctx_audit :: audit_env

record command_authorization_input =
  auth_scope :: "daemon_scope option"
  in_source :: str
  in_host :: str
  in_tags :: "str list"
  in_risk_override :: "risk_level option"
  in_command :: str
  in_force :: bool
  in_reason :: "str option"
  in_change_id :: "str option"
  in_side_effect :: "str option"

record command_authorization =
  auth_risk :: risk_level
  auth_approved :: bool
  auth_command :: "str option"

record authorization_target =
  target_host :: str
  target_tags :: "str list"
  target_risk_override :: "risk_level option"

record approval_prompt =
  prompt_host :: str
  prompt_command :: str
  prompt_risk :: risk_level
  prompt_matched_policy :: "str option"
  prompt_ttl_secs :: nat
  prompt_reason :: "str option"
  prompt_change_id :: "str option"
  prompt_side_effect :: "str option"
  prompt_source :: str
  prompt_risk_unclassified :: bool

datatype approval_outcome = Approved | ApprovedRewritten str | Rejected | TimedOut

datatype authorization_error =
    ScopeDenied scope_error
  | BlockedError risk_level str
  | ApprovalRejected
  | ApprovalTimedOut
  | Internal str

type_synonym approval_handler =
  "approval_prompt \<Rightarrow> audit_world \<Rightarrow> (str + approval_outcome) \<times> audit_world"

section \<open>Sources, targets, risk\<close>

definition HUMAN_SOURCES :: "str list" where
  "HUMAN_SOURCES = [''desktop'', ''cli'']"

definition find_profile :: "config option \<Rightarrow> str \<Rightarrow> host_profile option" where
  "find_profile config host = Option.bind config (List.find (\<lambda>p. hp_name p = host))"

definition host_allows_source :: "config option \<Rightarrow> str \<Rightarrow> str \<Rightarrow> bool" where
  "host_allows_source config host source \<longleftrightarrow>
     list_ex (\<lambda>allowed. eq_ignore_ascii_case allowed (trim source)) HUMAN_SOURCES \<or>
     (case find_profile config host of None \<Rightarrow> True | Some p \<Rightarrow> hp_ai_allowed p)"

definition effective_command_risk :: "exec_ctx \<Rightarrow> str \<Rightarrow> risk_level option" where
  "effective_command_risk ctx command =
     map_option (classify_effective_risk (ctx_rules ctx) command)
       (classify_risk (ctx_parse ctx) command)"

definition target_of_profile :: "host_profile \<Rightarrow> authorization_target" where
  "target_of_profile p =
     \<lparr>target_host = hp_name p, target_tags = hp_tags p, target_risk_override = hp_risk_override p\<rparr>"

definition command_authorization_target :: "config option \<Rightarrow> str \<Rightarrow> authorization_target" where
  "command_authorization_target config host =
     (case find_profile config host of
        Some p \<Rightarrow> target_of_profile p
      | None \<Rightarrow> \<lparr>target_host = host, target_tags = [], target_risk_override = None\<rparr>)"

definition add_tagged_target ::
  "str list \<Rightarrow> authorization_target list \<Rightarrow> host_profile \<Rightarrow> authorization_target list" where
  "add_tagged_target tag_list expanded p =
     (if has_tag tag_list p \<and> \<not> list_ex (\<lambda>t. target_host t = hp_name p) expanded
      then expanded @ [target_of_profile p] else expanded)"

definition expand_exec_authorization_targets ::
  "config option \<Rightarrow> str list \<Rightarrow> str list option \<Rightarrow> resolve_error + authorization_target list" where
  "expand_exec_authorization_targets config hosts tags =
     (case config of
        None \<Rightarrow> Inl ConfigUnreadable
      | Some profiles \<Rightarrow>
          (let expanded = map (command_authorization_target config) hosts
           in Inr (case tags of
                None \<Rightarrow> expanded
              | Some tag_list \<Rightarrow>
                  if tag_list \<noteq> [] then foldl (add_tagged_target tag_list) expanded profiles
                  else expanded)))"

definition expand_exec_targets ::
  "config option \<Rightarrow> str list \<Rightarrow> str list option \<Rightarrow> resolve_error + (str \<times> str list) list" where
  "expand_exec_targets config hosts tags =
     map_sum id (map (\<lambda>t. (target_host t, target_tags t)))
       (expand_exec_authorization_targets config hosts tags)"

section \<open>The policy summary of a host\<close>

record host_policy_summary =
  sum_host :: str
  sum_ai_allowed :: bool
  sum_risk_override :: "risk_level option"
  sum_low :: approval_mode
  sum_medium :: approval_mode
  sum_high :: approval_mode
  sum_policies :: "str list"
  sum_blocked_patterns :: "str list"

datatype summary_error = SumConfig resolve_error | SumPolicies str | SumRules

definition host_policy_summary :: "exec_ctx \<Rightarrow> str \<Rightarrow> summary_error + host_policy_summary" where
  "host_policy_summary ctx host =
     (case resolve_host (ctx_config ctx) host of
        Inl e \<Rightarrow> Inl (SumConfig e)
      | Inr profile \<Rightarrow>
          (case ctx_policies ctx of
             Inl e \<Rightarrow> Inl (SumPolicies e)
           | Inr policies \<Rightarrow>
               (case ctx_rules ctx of
                  None \<Rightarrow> Inl SumRules
                | Some rules \<Rightarrow>
                    (let mode = approval_mode_for_risk policies (hp_name profile) (hp_tags profile)
                     in Inr \<lparr>sum_host = hp_name profile, sum_ai_allowed = hp_ai_allowed profile,
                             sum_risk_override = hp_risk_override profile,
                             sum_low = mode Low, sum_medium = mode Medium,
                             sum_high = (if mode High = Auto then Required else mode High),
                             sum_policies = map policy_name (filter (\<lambda>p.
                               approval_policy_applies_to_host p (hp_name profile) (hp_tags profile))
                               policies),
                             sum_blocked_patterns = patterns (blocked_rules rules)\<rparr>))))"

section \<open>Audit entries of refusals\<close>

definition append_decided_exec_audit ::
  "audit_env \<Rightarrow> str \<Rightarrow> str \<Rightarrow> str \<Rightarrow> risk_level \<Rightarrow> str \<Rightarrow> str option \<Rightarrow>
   (audit_decision \<times> str) option \<Rightarrow> audit_world \<Rightarrow> audit_world" where
  "append_decided_exec_audit env source host command risk reason change_id decision w =
     append_audit_with_decision env (refusal_result host command risk reason) risk (Some reason)
       change_id (Some source) decision w"

definition append_rejected_exec_audit ::
  "audit_env \<Rightarrow> str \<Rightarrow> str \<Rightarrow> str \<Rightarrow> risk_level \<Rightarrow> str \<Rightarrow> str option \<Rightarrow> audit_world \<Rightarrow> audit_world" where
  "append_rejected_exec_audit env source host command risk reason change_id w =
     append_decided_exec_audit env source host command risk reason change_id
       (Some (if risk = Blocked then DBlocked else DRejected, ''rule'')) w"

section \<open>Authorization\<close>

definition prompt_of ::
  "exec_ctx \<Rightarrow> command_authorization_input \<Rightarrow> risk_level \<Rightarrow> approval_policy option \<Rightarrow> approval_prompt" where
  "prompt_of ctx i risk policy =
     \<lparr>prompt_host = in_host i, prompt_command = in_command i, prompt_risk = risk,
      prompt_matched_policy = map_option policy_name policy,
      prompt_ttl_secs = (case Option.bind policy policy_ttl_secs of Some t \<Rightarrow> t | None \<Rightarrow> 300),
      prompt_reason = in_reason i, prompt_change_id = in_change_id i,
      prompt_side_effect = in_side_effect i, prompt_source = in_source i,
      prompt_risk_unclassified = (\<not> ctx_classifiable ctx (in_host i))\<rparr>"

text \<open>What follows the approver's answer.\<close>

definition about :: "str \<Rightarrow> str \<Rightarrow> str" where
  "about message what = message @ '': '' @ [squote] @ what @ [squote]"

definition conclude ::
  "exec_ctx \<Rightarrow> command_authorization_input \<Rightarrow> risk_level \<Rightarrow> approval_outcome \<Rightarrow> audit_world \<Rightarrow>
   ((authorization_error + command_authorization) \<times> audit_world) option" where
  "conclude ctx i risk outcome w =
     (let env = ctx_audit ctx;
          refuse = (\<lambda>command r message decision.
            append_decided_exec_audit env (in_source i) (in_host i) command r message
              (in_change_id i) (Some decision) w)
      in case outcome of
           Approved \<Rightarrow>
             Some (Inr \<lparr>auth_risk = risk, auth_approved = True, auth_command = None\<rparr>,
                   note_human_approval env (in_host i) (in_command i) w)
         | ApprovedRewritten rewritten \<Rightarrow>
             do { effective \<leftarrow> effective_command_risk ctx rewritten;
                  let rewritten_risk = apply_risk_override effective (in_risk_override i) in
                  if rewritten_risk = Blocked \<or> max_severity rewritten_risk risk \<noteq> risk then
                    Some (Inl (BlockedError rewritten_risk
                            (about ''rewritten command is blocked or riskier than the request'' rewritten)),
                          refuse rewritten rewritten_risk
                            ''rewritten command is blocked or riskier than the request''
                            (DBlocked, ''rule''))
                  else
                    Some (Inr \<lparr>auth_risk = risk, auth_approved = True,
                               auth_command = Some rewritten\<rparr>,
                          note_human_rewrite env (in_host i) rewritten (in_command i) w) }
         | Rejected \<Rightarrow>
             Some (Inl ApprovalRejected,
                   refuse (in_command i) risk ''command rejected by approver'' (DRejected, ''human''))
         | TimedOut \<Rightarrow>
             Some (Inl ApprovalTimedOut,
                   refuse (in_command i) risk ''approval request timed out'' (DTimedOut, ''timeout'')))"

definition authorize_command_with_approval ::
  "exec_ctx \<Rightarrow> exec_ctx \<Rightarrow> command_authorization_input \<Rightarrow> approval_handler \<Rightarrow> audit_world \<Rightarrow>
   ((authorization_error + command_authorization) \<times> audit_world) option" where
  "authorize_command_with_approval ctx ctx' i approval w =
     (case check_daemon_scope (auth_scope i) (in_host i) (in_tags i) (in_command i) of
        Inl e \<Rightarrow> Some (Inl (ScopeDenied e), w)
      | Inr _ \<Rightarrow>
          do { effective \<leftarrow> effective_command_risk ctx (in_command i);
               let risk = apply_risk_override effective (in_risk_override i);
                   refuse = (\<lambda>message. append_decided_exec_audit (ctx_audit ctx) (in_source i)
                     (in_host i) (in_command i) risk message (in_change_id i)
                     (Some (DBlocked, ''rule'')) w) in
               if \<not> host_allows_source (ctx_config ctx) (in_host i) (in_source i) then
                 Some (Inl (BlockedError Blocked
                         (about ''host is restricted to human operators'' (in_host i))),
                       refuse ''host is restricted to human operators'')
               else if risk = Blocked then
                 Some (Inl (BlockedError risk (about ''command blocked by risk policy'' (in_command i))),
                       refuse ''command blocked by risk policy'')
               else case check_approval_required (ctx_policies ctx) (in_host i) (in_tags i)
                           (in_command i) risk of
                 Inl e \<Rightarrow> Some (Inl (Internal e), w)
               | Inr policy \<Rightarrow>
                   if policy = None \<and> \<not> (risk = High \<and> \<not> in_force i) then
                     Some (Inr \<lparr>auth_risk = risk, auth_approved = False, auth_command = None\<rparr>, w)
                   else case approval (prompt_of ctx i risk policy) w of
                     (Inl e, w') \<Rightarrow> Some (Inl (Internal e), w')
                   | (Inr outcome, w') \<Rightarrow> conclude ctx' i risk outcome w' })"

text \<open>The handler of the call sites without an approver: audit the refusal and fail.\<close>

definition refusing_handler :: "audit_env \<Rightarrow> str \<Rightarrow> str \<Rightarrow> approval_handler" where
  "refusing_handler env rejection_message rejection_hint prompt w =
     (Inl (rejection_message @ rejection_hint),
      append_rejected_exec_audit env (prompt_source prompt) (prompt_host prompt)
        (prompt_command prompt) (prompt_risk prompt) rejection_message (prompt_change_id prompt) w)"

definition authorize_command_without_approval_handler ::
  "exec_ctx \<Rightarrow> command_authorization_input \<Rightarrow> str \<Rightarrow> str \<Rightarrow> audit_world \<Rightarrow>
   ((authorization_error + command_authorization) \<times> audit_world) option" where
  "authorize_command_without_approval_handler ctx i rejection_message rejection_hint w =
     authorize_command_with_approval ctx ctx (i\<lparr>auth_scope := None\<rparr>)
       (refusing_handler (ctx_audit ctx) rejection_message rejection_hint) w"

text \<open>The loop over the targets; \<open>approved_hosts\<close> collects the high-risk ones that were approved.\<close>

fun authorize_each ::
  "exec_ctx \<Rightarrow> command_authorization_input \<Rightarrow> str \<Rightarrow> str \<Rightarrow> str list \<Rightarrow> authorization_target list \<Rightarrow>
   audit_world \<Rightarrow> ((authorization_error + str list) \<times> audit_world) option" where
  "authorize_each ctx i message hint approved_hosts [] w = Some (Inr approved_hosts, w)"
| "authorize_each ctx i message hint approved_hosts (t # ts) w =
     (case authorize_command_without_approval_handler ctx
             (i\<lparr>in_host := target_host t, in_tags := target_tags t,
                in_risk_override := target_risk_override t, in_side_effect := None\<rparr>)
             message hint w of
        None \<Rightarrow> None
      | Some (Inl e, w') \<Rightarrow> Some (Inl e, w')
      | Some (Inr auth, w') \<Rightarrow>
          authorize_each ctx i message hint
            (if auth_approved auth \<and> auth_risk auth = High then approved_hosts @ [target_host t]
             else approved_hosts) ts w')"

definition resolve_message :: "resolve_error \<Rightarrow> str" where
  "resolve_message e =
     (case e of
        ConfigUnreadable \<Rightarrow> ''configuration unreadable''
      | UnknownHost h \<Rightarrow> ''unknown host profile: '' @ h
      | NoHostsMatched \<Rightarrow> ''no hosts matched the requested hosts or tags'')"

definition authorize_targets_without_approval_handler ::
  "exec_ctx \<Rightarrow> command_authorization_input \<Rightarrow> str list \<Rightarrow> str list option \<Rightarrow> str \<Rightarrow> str \<Rightarrow>
   audit_world \<Rightarrow> ((authorization_error + str list) \<times> audit_world) option" where
  "authorize_targets_without_approval_handler ctx i hosts tags message hint w =
     (case expand_exec_authorization_targets (ctx_config ctx) hosts tags of
        Inl e \<Rightarrow> Some (Inl (Internal (resolve_message e)), w)
      | Inr targets \<Rightarrow> authorize_each ctx i message hint [] targets w)"

end
