(* ===== verification/Authorization_Laws.thy ===== *)
theory Authorization_Laws
  imports Execution_Control
begin

text \<open>What an authorization guarantees, and that a refused command leaves a trace.\<close>

section \<open>The shape of a successful authorization\<close>

lemma conclude_Inr:
  assumes "conclude ctx i risk outcome w = Some (Inr auth, w')"
  shows "auth_risk auth = risk \<and> auth_approved auth \<and>
    (outcome = Approved \<and> auth_command auth = None \<or>
     (\<exists>c effective. outcome = ApprovedRewritten c \<and> auth_command auth = Some c \<and>
        effective_command_risk ctx c = Some effective \<and>
        apply_risk_override effective (in_risk_override i) \<noteq> Blocked \<and>
        apply_risk_override effective (in_risk_override i) \<le> risk))"
proof (cases outcome)
  case (ApprovedRewritten c)
  with assms obtain effective where eff: "effective_command_risk ctx c = Some effective"
    by (auto simp: conclude_def bind_eq_Some_conv Let_def)
  let ?r = "apply_risk_override effective (in_risk_override i)"
  have "?r \<noteq> Blocked \<and> max_severity ?r risk = risk"
  proof (rule ccontr)
    assume "\<not> (?r \<noteq> Blocked \<and> max_severity ?r risk = risk)"
    then show False using assms ApprovedRewritten eff
      by (auto simp: conclude_def Let_def)
  qed
  with assms ApprovedRewritten eff show ?thesis
    by (auto simp: conclude_def Let_def sev_simps max_def split: if_splits)
qed (use assms in \<open>auto simp: conclude_def Let_def\<close>)

lemma authorize_Inr:
  assumes "authorize_command_with_approval ctx ctx' i approval w = Some (Inr auth, w')"
  shows "check_daemon_scope (auth_scope i) (in_host i) (in_tags i) (in_command i) = Inr () \<and>
    host_allows_source (ctx_config ctx) (in_host i) (in_source i) \<and> auth_risk auth \<noteq> Blocked \<and>
    (\<exists>effective policy. effective_command_risk ctx (in_command i) = Some effective \<and>
       auth_risk auth = apply_risk_override effective (in_risk_override i) \<and>
       check_approval_required (ctx_policies ctx) (in_host i) (in_tags i) (in_command i) (auth_risk auth)
         = Inr policy \<and>
       (\<not> auth_approved auth \<and> auth_command auth = None \<and> policy = None \<and>
          (auth_risk auth = High \<longrightarrow> in_force i) \<or>
        (\<exists>outcome w1. approval (prompt_of ctx i (auth_risk auth) policy) w = (Inr outcome, w1) \<and>
           conclude ctx' i (auth_risk auth) outcome w1 = Some (Inr auth, w'))))"
proof -
  from assms obtain u where scope:
      "check_daemon_scope (auth_scope i) (in_host i) (in_tags i) (in_command i) = Inr u"
    by (auto simp: authorize_command_with_approval_def split: sum.splits)
  with assms obtain effective where eff: "effective_command_risk ctx (in_command i) = Some effective"
    by (auto simp: authorize_command_with_approval_def bind_eq_Some_conv)
  let ?risk = "apply_risk_override effective (in_risk_override i)"
  have host: "host_allows_source (ctx_config ctx) (in_host i) (in_source i)"
    using assms scope eff by (auto simp: authorize_command_with_approval_def Let_def split: if_splits)
  have risk: "?risk \<noteq> Blocked"
    using assms scope eff host by (auto simp: authorize_command_with_approval_def Let_def split: if_splits)
  obtain policy where policy: "check_approval_required (ctx_policies ctx) (in_host i) (in_tags i)
      (in_command i) ?risk = Inr policy"
    using assms scope eff host risk
    by (cases "check_approval_required (ctx_policies ctx) (in_host i) (in_tags i) (in_command i) ?risk")
       (auto simp: authorize_command_with_approval_def Let_def)
  show ?thesis
  proof (cases "policy = None \<and> \<not> (?risk = High \<and> \<not> in_force i)")
    case True
    with assms scope eff host risk policy
    have "auth = \<lparr>auth_risk = ?risk, auth_approved = False, auth_command = None\<rparr>"
      by (simp add: authorize_command_with_approval_def Let_def)
    with True scope eff host risk policy show ?thesis by auto
  next
    case False
    obtain res w1 where ask: "approval (prompt_of ctx i ?risk policy) w = (res, w1)" by fastforce
    with False assms scope eff host risk policy obtain outcome where
        "res = Inr outcome" "conclude ctx' i ?risk outcome w1 = Some (Inr auth, w')"
      by (cases res) (auto simp: authorize_command_with_approval_def Let_def)
    with conclude_Inr [OF this(2)] ask scope eff host risk policy show ?thesis by auto
  qed
qed

lemma effective_ge_builtin:
  "effective_command_risk ctx c = Some e \<Longrightarrow> classify_risk (ctx_parse ctx) c = Some b \<Longrightarrow> b \<le> e"
  by (auto simp: effective_command_risk_def effective_risk_ge)

section \<open>Properties\<close>

definition demo_ctx :: exec_ctx where
  "demo_ctx = \<lparr>ctx_parse = (\<lambda>_. None), ctx_config = Some [], ctx_rules = None,
     ctx_policies = Inr [], ctx_classifiable = (\<lambda>_. True), ctx_audit = demo_env\<rparr>"

definition demo_input :: command_authorization_input where
  "demo_input = \<lparr>auth_scope = None, in_source = ''mcp'', in_host = ''web'', in_tags = [],
     in_risk_override = None, in_command = ''ls (('', in_force = False, in_reason = None,
     in_change_id = None, in_side_effect = None\<rparr>"

lemma demo_risk [simp]: "classify_risk (\<lambda>_. None) ''ls (('' = Some High"
  by code_simp

lemma demo_authorized:
  "authorize_command_with_approval demo_ctx demo_ctx demo_input (\<lambda>p w. (Inr Approved, w)) empty_world =
     Some (Inr \<lparr>auth_risk = High, auth_approved = True, auth_command = None\<rparr>,
           note_human_approval demo_env ''web'' ''ls (('' empty_world)"
  by (simp add: authorize_command_with_approval_def demo_ctx_def demo_input_def check_daemon_scope_def
      effective_command_risk_def classify_effective_risk_def classify_with_user_rules_def
      host_allows_source_def find_profile_def check_approval_required_def conclude_def Let_def)



text \<open>
  Property (C23): a command the built-in rules block is never run: no override of the host, no user
  rule and no approver authorizes it, the approver is not even asked, and within the token scope one
  entry with the verdict \<open>blocked by rule\<close> is appended.
\<close>

theorem built_in_blocked_is_final:
  assumes "classify_risk (ctx_parse ctx) (in_command i) = Some Blocked"
    and "check_daemon_scope (auth_scope i) (in_host i) (in_tags i) (in_command i) = Inr ()"
  shows "\<exists>message w'. (\<forall>approval. authorize_command_with_approval ctx ctx' i approval w =
        Some (Inl (BlockedError Blocked message), w')) \<and>
     ae_decision (last_entry w') = Some DBlocked \<and> ae_decided_by (last_entry w') = Some ''rule'' \<and>
     ae_host (last_entry w') = in_host i \<and>
     ae_command (last_entry w') = redact (ctx_audit ctx) (in_command i)"
proof -
  have eff: "effective_command_risk ctx (in_command i) = Some Blocked"
    using assms(1) by (simp add: effective_command_risk_def)
  have last: "ae_decision (last_entry (append_decided_exec_audit env s h c r m ch (Some (DBlocked, ''rule'')) w))
        = Some DBlocked \<and>
      ae_decided_by (last_entry (append_decided_exec_audit env s h c r m ch (Some (DBlocked, ''rule'')) w))
        = Some ''rule'' \<and>
      ae_host (last_entry (append_decided_exec_audit env s h c r m ch (Some (DBlocked, ''rule'')) w)) = h \<and>
      ae_command (last_entry (append_decided_exec_audit env s h c r m ch (Some (DBlocked, ''rule'')) w))
        = redact env c" for env s h c r m ch
    by (simp add: append_decided_exec_audit_def append_audit_with_decision_def resolve_decision_def
        last_entry_def audit_entry_of_def refusal_result_def Let_def)
  show ?thesis
  proof (cases "host_allows_source (ctx_config ctx) (in_host i) (in_source i)")
    case True
    show ?thesis
      by (rule exI, rule exI, rule conjI, rule allI)
         (use assms(2) eff True last in
           \<open>auto simp: authorize_command_with_approval_def Let_def\<close>)
  next
    case False
    show ?thesis
      by (rule exI, rule exI, rule conjI, rule allI)
         (use assms(2) eff False last in
           \<open>auto simp: authorize_command_with_approval_def Let_def\<close>)
  qed
qed

theorem built_in_blocked_is_final_witness:
  "\<exists>message w'. authorize_command_with_approval (demo_ctx\<lparr>ctx_parse := sample_parse\<rparr>) demo_ctx
     (demo_input\<lparr>in_command := ''rm -rf /'', in_risk_override := Some Low, in_force := True\<rparr>)
     (\<lambda>p w. (Inr Approved, w)) empty_world = Some (Inl (BlockedError Blocked message), w') \<and>
   ae_decision (last_entry w') = Some DBlocked"
proof -
  have "classify_risk sample_parse ''rm -rf /'' = Some Blocked" by code_simp
  with built_in_blocked_is_final [of "demo_ctx\<lparr>ctx_parse := sample_parse\<rparr>"
      "demo_input\<lparr>in_command := ''rm -rf /'', in_risk_override := Some Low, in_force := True\<rparr>" demo_ctx
      empty_world]
  show ?thesis by (auto simp: demo_input_def check_daemon_scope_def)
qed

section \<open>Without an approver\<close>

lemma refused_entry:
  "ae_host (last_entry (append_decided_exec_audit env src h c r m ch (Some (d, by)) w)) = h"
  "ae_command (last_entry (append_decided_exec_audit env src h c r m ch (Some (d, by)) w)) = redact env c"
  "ae_decision (last_entry (append_decided_exec_audit env src h c r m ch (Some (d, by)) w)) = Some d"
  "ae_risk_level (last_entry (append_decided_exec_audit env src h c r m ch (Some (d, by)) w)) = r"
  by (simp_all add: append_decided_exec_audit_def append_audit_with_decision_def resolve_decision_def
      last_entry_def audit_entry_of_def refusal_result_def Let_def)

text \<open>
  Without an approver nothing is approved, and no refusal goes unrecorded. A command
  is authorized only if it needs no approval; a refused one leaves an audit entry for that host and
  command with the verdict blocked or rejected, unless the policies could not be loaded.
\<close>

theorem refusal_is_audited:
  assumes "authorize_command_without_approval_handler ctx i message hint w = Some (res, w')"
  shows "case res of
      Inr auth \<Rightarrow> \<not> auth_approved auth \<and> auth_command auth = None \<and> w' = w
    | Inl e \<Rightarrow>
        (\<exists>err. ctx_policies ctx = Inl err \<and> e = Internal err \<and> w' = w) \<or>
        ae_host (last_entry w') = in_host i \<and>
        ae_command (last_entry w') = redact (ctx_audit ctx) (in_command i) \<and>
        ae_decision (last_entry w') \<in> {Some DBlocked, Some DRejected}"
proof -
  let ?i = "i\<lparr>auth_scope := None\<rparr>"
  from assms obtain effective where eff: "effective_command_risk ctx (in_command i) = Some effective"
    by (auto simp: authorize_command_without_approval_handler_def authorize_command_with_approval_def
        check_daemon_scope_def bind_eq_Some_conv)
  let ?risk = "apply_risk_override effective (in_risk_override i)"
  consider (human) "\<not> host_allows_source (ctx_config ctx) (in_host i) (in_source i)"
    | (blocked) "host_allows_source (ctx_config ctx) (in_host i) (in_source i)" "?risk = Blocked"
    | (broken) err where "host_allows_source (ctx_config ctx) (in_host i) (in_source i)" "?risk \<noteq> Blocked"
        "ctx_policies ctx = Inl err"
    | (free) ps where "host_allows_source (ctx_config ctx) (in_host i) (in_source i)" "?risk \<noteq> Blocked"
        "ctx_policies ctx = Inr ps"
        "check_approval_required_with ps (in_host i) (in_tags i) (in_command i) ?risk = None"
        "\<not> (?risk = High \<and> \<not> in_force i)"
    | (ask) ps where "host_allows_source (ctx_config ctx) (in_host i) (in_source i)" "?risk \<noteq> Blocked"
        "ctx_policies ctx = Inr ps"
        "check_approval_required_with ps (in_host i) (in_tags i) (in_command i) ?risk \<noteq> None \<or>
         ?risk = High \<and> \<not> in_force i"
    by (cases "ctx_policies ctx") blast+
  then show ?thesis
  proof cases
    case ask
    then have "\<not> (check_approval_required_with ps (in_host i) (in_tags i) (in_command i) ?risk = None \<and>
        \<not> (?risk = High \<and> \<not> in_force i))" by blast
    with assms eff ask(1-3) show ?thesis
      by (auto simp: authorize_command_without_approval_handler_def authorize_command_with_approval_def
          check_daemon_scope_def check_approval_required_def refusing_handler_def prompt_of_def
          append_rejected_exec_audit_def refused_entry Let_def)
  qed (use assms eff in \<open>auto simp: authorize_command_without_approval_handler_def
        authorize_command_with_approval_def check_daemon_scope_def check_approval_required_def
        refused_entry Let_def\<close>)
qed

lemma demo_refused:
  "\<exists>w'. authorize_command_without_approval_handler demo_ctx demo_input ''no'' [] empty_world =
     Some (Inl (Internal ''no''), w')"
  by (simp add: authorize_command_without_approval_handler_def authorize_command_with_approval_def
      demo_ctx_def demo_input_def check_daemon_scope_def effective_command_risk_def
      classify_effective_risk_def classify_with_user_rules_def host_allows_source_def find_profile_def
      check_approval_required_def refusing_handler_def Let_def)

theorem refusal_is_audited_witness:
  "\<exists>w'. authorize_command_without_approval_handler demo_ctx demo_input ''no'' [] empty_world =
      Some (Inl (Internal ''no''), w') \<and>
    ae_decision (last_entry w') \<in> {Some DBlocked, Some DRejected}"
proof -
  obtain w' where run: "authorize_command_without_approval_handler demo_ctx demo_input ''no'' [] empty_world
      = Some (Inl (Internal ''no''), w')"
    using demo_refused by blast
  with refusal_is_audited [OF run] show ?thesis by (auto simp: demo_ctx_def)
qed

section \<open>Many hosts\<close>

lemma without_handler_not_approved:
  "authorize_command_without_approval_handler ctx i message hint w = Some (Inr auth, w') \<Longrightarrow>
   \<not> auth_approved auth \<and> w' = w"
  using authorize_Inr [of ctx ctx "i\<lparr>auth_scope := None\<rparr>"
      "refusing_handler (ctx_audit ctx) message hint" w auth w']
  by (auto simp: authorize_command_without_approval_handler_def refusing_handler_def
      authorize_command_with_approval_def check_daemon_scope_def bind_eq_Some_conv Let_def
      split: if_splits sum.splits prod.splits)

definition input_for ::
  "command_authorization_input \<Rightarrow> authorization_target \<Rightarrow> command_authorization_input" where
  "input_for i t = i\<lparr>in_host := target_host t, in_tags := target_tags t,
     in_risk_override := target_risk_override t, in_side_effect := None\<rparr>"

lemma authorize_each_Inr:
  "authorize_each ctx i message hint acc ts w = Some (Inr hosts, w') \<Longrightarrow>
   hosts = acc \<and> (\<forall>t \<in> set ts. \<exists>auth. authorize_command_without_approval_handler ctx (input_for i t)
     message hint w = Some (Inr auth, w))"
proof (induction ts arbitrary: acc w)
  case (Cons t ts)
  then obtain auth w1 where t: "authorize_command_without_approval_handler ctx (input_for i t)
      message hint w = Some (Inr auth, w1)"
    by (auto simp: input_for_def split: option.splits sum.splits)
  from without_handler_not_approved [OF t] have plain: "\<not> auth_approved auth" "w1 = w" by auto
  with Cons.prems t have "authorize_each ctx i message hint acc ts w = Some (Inr hosts, w')"
    by (simp add: input_for_def)
  from Cons.IH [OF this] t plain show ?case by auto
qed simp

text \<open>
  A command for many hosts is authorized for all of them or not at all. When the loop
  succeeds, every target on its own was authorized, and no host was approved: the list of approved
  hosts it returns, for which callers would set \<open>force\<close>, is always empty.
\<close>

theorem authorized_for_every_target:
  assumes "authorize_targets_without_approval_handler ctx i hosts tags message hint w = Some (Inr approved, w')"
  shows "approved = [] \<and> (\<exists>targets. expand_exec_authorization_targets (ctx_config ctx) hosts tags = Inr targets \<and>
    (\<forall>t \<in> set targets. \<exists>auth. authorize_command_without_approval_handler ctx (input_for i t) message hint w
       = Some (Inr auth, w)))"
  using assms by (auto simp: authorize_targets_without_approval_handler_def split: sum.splits
      dest: authorize_each_Inr)

theorem authorized_for_every_target_witness:
  "\<exists>auth. authorize_command_without_approval_handler demo_ctx
     (input_for (demo_input\<lparr>in_force := True\<rparr>) \<lparr>target_host = ''web'', target_tags = [],
        target_risk_override = None\<rparr>) ''no'' [] empty_world = Some (Inr auth, empty_world)"
proof -
  have run: "authorize_targets_without_approval_handler demo_ctx (demo_input\<lparr>in_force := True\<rparr>) [''web''] None
      ''no'' [] empty_world = Some (Inr [], empty_world)"
    by (simp add: authorize_targets_without_approval_handler_def expand_exec_authorization_targets_def
        command_authorization_target_def find_profile_def
        authorize_command_without_approval_handler_def authorize_command_with_approval_def
        demo_ctx_def demo_input_def check_daemon_scope_def effective_command_risk_def
        classify_effective_risk_def classify_with_user_rules_def host_allows_source_def
        check_approval_required_def Let_def)
  from authorized_for_every_target [OF run] show ?thesis
    by (simp add: expand_exec_authorization_targets_def command_authorization_target_def
        find_profile_def demo_ctx_def)
qed

lemma add_tagged_targets:
  "map target_host (foldl (add_tagged_target tags) ts ps) = foldl (add_tagged tags) (map target_host ts) ps"
proof (induction ps arbitrary: ts)
  case (Cons p ps)
  have "map target_host (add_tagged_target tags ts p) = add_tagged tags (map target_host ts) p"
    by (auto simp: add_tagged_target_def add_tagged_def target_of_profile_def list_ex_iff)
       (metis image_eqI)
  with Cons show ?case by simp
qed simp

lemma target_host_same: "target_host (command_authorization_target config h) = h"
  by (auto simp: command_authorization_target_def find_profile_def target_of_profile_def
      bind_eq_Some_conv find_Some_iff split: option.splits)

text \<open>
  The hosts that are authorized are the hosts the command is then sent to: the two
  expansions of a host and tag selection, in \<open>execution_control.rs\<close> and in \<open>core.rs\<close>, agree.
\<close>

theorem authorized_hosts_are_targets:
  "map_sum id (map target_host) (expand_exec_authorization_targets (Some profiles) hosts tags) =
     expand_hosts_by_tags (Some profiles) hosts tags"
proof -
  have "map (target_host \<circ> command_authorization_target (Some profiles)) hosts = hosts"
    by (simp add: comp_def target_host_same)
  then show ?thesis
    by (cases tags)
       (auto simp: expand_exec_authorization_targets_def expand_hosts_by_tags_def add_tagged_targets)
qed

section \<open>What a rewrite escapes\<close>

text \<open>
  The replacement of an approver is compared by risk only; the token scope is checked for the
  requested command. Here a token that may not read \<open>/etc/shadow\<close> gets to.
\<close>

definition scoped_input :: command_authorization_input where
  "scoped_input = demo_input\<lparr>auth_scope := Some \<lparr>allowed_hosts = [], allowed_tags = [],
     allowed_commands = [], denied_commands = [''cat *'']\<rparr>\<rparr>"

lemma rewrite_escapes_scope:
  "\<exists>w'. authorize_command_with_approval demo_ctx demo_ctx scoped_input
     (\<lambda>p w. (Inr (ApprovedRewritten ''cat /etc/shadow''), w)) empty_world =
       Some (Inr \<lparr>auth_risk = High, auth_approved = True, auth_command = Some ''cat /etc/shadow''\<rparr>, w')"
  "check_daemon_scope (auth_scope scoped_input) ''web'' [] ''cat /etc/shadow'' =
     Inl (DeniedByPattern ''cat /etc/shadow'' ''cat *'')"
proof -
  have risk: "classify_risk (\<lambda>_. None) ''cat /etc/shadow'' = Some High" by code_simp
  have globs: "glob_match ''cat *'' ''cat /etc/shadow''" "\<not> glob_match ''cat *'' ''ls (('' " by code_simp+
  show "check_daemon_scope (auth_scope scoped_input) ''web'' [] ''cat /etc/shadow'' =
     Inl (DeniedByPattern ''cat /etc/shadow'' ''cat *'')"
    using globs by (simp add: scoped_input_def check_daemon_scope_def)
  show "\<exists>w'. authorize_command_with_approval demo_ctx demo_ctx scoped_input
     (\<lambda>p w. (Inr (ApprovedRewritten ''cat /etc/shadow''), w)) empty_world =
       Some (Inr \<lparr>auth_risk = High, auth_approved = True, auth_command = Some ''cat /etc/shadow''\<rparr>, w')"
    using globs risk
    by (simp add: scoped_input_def authorize_command_with_approval_def demo_ctx_def demo_input_def
        check_daemon_scope_def daemon_scope_allows_host_def effective_command_risk_def
        classify_effective_risk_def classify_with_user_rules_def host_allows_source_def find_profile_def
        check_approval_required_def conclude_def sev_simps Let_def)
qed

end
