(* ===== verification/Exec_Core.thy ===== *)
theory Exec_Core
  imports Authorization_Laws "HOL-Library.Char_ord" "HOL-Library.List_Lexorder"
begin

text \<open>
  \<open>core.rs\<close>: the execution plan shown before a command runs (\<open>preview_exec\<close>, \<open>preview_exec_multi\<close>,
  \<open>build_plan_from_profile\<close>) and the last gate in front of the transport (\<open>exec_ssh_core\<close>,
  \<open>exec_local_core\<close>, each with a risk override). The transports, the exec-depth check and the
  resolution of a local environment are arguments. Text output is the decoded text the transport
  captured. The completion event that is published after the audit entry is not part of the model.
\<close>

definition MAX_COMMAND_BYTES :: nat where
  "MAX_COMMAND_BYTES = 16 * 1024"

definition command_too_long :: "str \<Rightarrow> bool" where
  "command_too_long command \<longleftrightarrow> length command > MAX_COMMAND_BYTES"

section \<open>Plans\<close>

record exec_plan_target =
  pt_host :: str
  pt_host_address :: str
  pt_command :: str
  pt_risk_level :: risk_level
  pt_needs_force :: bool
  pt_blocked :: bool
  pt_jump_host :: "str option"
  pt_timeout_secs :: nat

record exec_plan =
  plan_targets :: "exec_plan_target list"
  plan_overall_risk :: risk_level
  plan_requires_approval :: bool
  plan_warnings :: "str list"

datatype exec_error =
    CommandTooLong
  | ResolveError resolve_error
  | BlockedByPolicy str
  | RequiresForce str
  | NotLocal str
  | Refused str
  | TimedOutAfter nat str
  | TransportError str

definition profile_risk :: "risk_level \<Rightarrow> host_profile \<Rightarrow> risk_level" where
  "profile_risk classified h =
     (case hp_risk_override h of
        Some r \<Rightarrow> apply_risk_override classified (Some r)
      | None \<Rightarrow> classified)"

definition plan_target :: "str \<Rightarrow> nat \<Rightarrow> risk_level \<Rightarrow> host_profile \<Rightarrow> exec_plan_target" where
  "plan_target command timeout risk h =
     \<lparr>pt_host = hp_name h, pt_host_address = ssh_target h, pt_command = command,
      pt_risk_level = risk, pt_needs_force = (risk = High \<or> risk = Blocked),
      pt_blocked = (risk = Blocked), pt_jump_host = hp_jump_host h, pt_timeout_secs = timeout\<rparr>"

definition single_warnings :: "risk_level \<Rightarrow> host_profile \<Rightarrow> str list" where
  "single_warnings risk h =
     (if risk = Blocked then [''Command is blocked and cannot be executed''] else []) @
     (if risk = High then [''Command requires force=true''] else []) @
     (case hp_jump_host h of Some jh \<Rightarrow> [''Host uses jump host '' @ jh] | None \<Rightarrow> [])"

definition preview_exec ::
  "exec_ctx \<Rightarrow> str \<Rightarrow> str \<Rightarrow> nat option \<Rightarrow> (exec_error + exec_plan) option" where
  "preview_exec ctx host command timeout_secs =
     (if command_too_long command then Some (Inl CommandTooLong)
      else case resolve_host (ctx_config ctx) host of
        Inl e \<Rightarrow> Some (Inl (ResolveError e))
      | Inr profile \<Rightarrow>
          map_option (\<lambda>classified.
            let risk = profile_risk classified profile in
            Inr \<lparr>plan_targets = [plan_target command
                   (case timeout_secs of Some t \<Rightarrow> t | None \<Rightarrow> 60) risk profile],
                 plan_overall_risk = risk, plan_requires_approval = (risk = High),
                 plan_warnings = single_warnings risk profile\<rparr>)
            (effective_command_risk ctx command))"

definition host_warnings :: "risk_level \<Rightarrow> host_profile \<Rightarrow> str list" where
  "host_warnings risk h =
     (if risk = Blocked
      then [''Command is blocked on host '' @ [squote] @ hp_name h @ [squote]] else []) @
     (if risk = High
      then [''Command requires force=true on host '' @ [squote] @ hp_name h @ [squote]] else []) @
     (case hp_jump_host h of
        Some jh \<Rightarrow> [''Host '' @ [squote] @ hp_name h @ [squote] @ '' uses jump host '' @ jh]
      | None \<Rightarrow> [])"

text \<open>
  The loop over the profiles, then the sorted and de-duplicated warnings. Shared by
  \<open>preview_exec_multi\<close> and \<open>build_plan_from_profile\<close>, which repeat it in the source.
\<close>

definition plan_for :: "risk_level \<Rightarrow> str \<Rightarrow> nat \<Rightarrow> host_profile list \<Rightarrow> exec_plan" where
  "plan_for classified command timeout profiles =
     (let overall = foldl (\<lambda>r h. max_severity r (profile_risk classified h)) Low profiles
      in \<lparr>plan_targets = map (\<lambda>h. plan_target command timeout (profile_risk classified h) h) profiles,
          plan_overall_risk = overall, plan_requires_approval = (overall = High),
          plan_warnings = remdups_adj (sort (concat (map (\<lambda>h.
            host_warnings (profile_risk classified h) h) profiles)))\<rparr>)"

fun resolve_all :: "config option \<Rightarrow> str list \<Rightarrow> resolve_error + host_profile list" where
  "resolve_all config [] = Inr []"
| "resolve_all config (n # ns) =
     (case resolve_host config n of
        Inl e \<Rightarrow> Inl e
      | Inr h \<Rightarrow> map_sum id ((#) h) (resolve_all config ns))"

definition preview_exec_multi ::
  "exec_ctx \<Rightarrow> str list \<Rightarrow> str \<Rightarrow> str list option \<Rightarrow> nat option \<Rightarrow> (exec_error + exec_plan) option" where
  "preview_exec_multi ctx hosts command tags timeout_secs =
     (if command_too_long command then Some (Inl CommandTooLong)
      else case resolve_exec_targets (ctx_config ctx) hosts tags of
        Inl e \<Rightarrow> Some (Inl (ResolveError e))
      | Inr names \<Rightarrow>
          do { classified \<leftarrow> effective_command_risk ctx command;
               Some (case resolve_all (ctx_config ctx) names of
                       Inl e \<Rightarrow> Inl (ResolveError e)
                     | Inr profiles \<Rightarrow>
                         Inr (plan_for classified command
                           (case timeout_secs of Some t \<Rightarrow> t | None \<Rightarrow> 60) profiles)) })"

definition build_plan_from_profile ::
  "parser \<Rightarrow> host_profile list \<Rightarrow> str \<Rightarrow> nat option \<Rightarrow> exec_plan option" where
  "build_plan_from_profile parse profiles command timeout_secs =
     map_option (\<lambda>built_in. plan_for built_in command
         (case timeout_secs of Some t \<Rightarrow> t | None \<Rightarrow> 60) profiles)
       (classify_risk parse command)"

section \<open>Execution\<close>

record exec_request =
  rq_host :: str
  rq_command :: str
  rq_force :: bool
  rq_timeout_secs :: "nat option"
  rq_stdin :: "str option"
  rq_max_output_bytes :: "nat option"
  rq_reason :: "str option"
  rq_change_id :: "str option"
  rq_side_effect :: "str option"
  rq_source :: "str option"

record captured =
  cap_exit_code :: "int option"
  cap_stdout :: str
  cap_stderr :: str
  cap_truncated :: bool
  cap_dropped_bytes :: nat

text \<open>How a transport ends, and after how many milliseconds.\<close>

datatype capture_end = Captured captured | DeadlineHit nat | CaptureFailed str

definition DEFAULT_MAX_OUTPUT :: nat where
  "DEFAULT_MAX_OUTPUT = 4 * 1024 * 1024"

definition source_from_env :: "str option \<Rightarrow> str \<Rightarrow> str" where
  "source_from_env env_var default_source =
     (case env_var of
        None \<Rightarrow> default_source
      | Some s \<Rightarrow> if trim s = [] then default_source else trim s)"

definition audit_rejected_exec ::
  "exec_ctx \<Rightarrow> exec_request \<Rightarrow> risk_level \<Rightarrow> str \<Rightarrow> str \<Rightarrow> audit_world \<Rightarrow> audit_world" where
  "audit_rejected_exec ctx q risk source message w =
     append_audit (ctx_audit ctx)
       ((refusal_result (rq_host q) (rq_command q) risk message)
          \<lparr>er_risk_unclassified := \<not> ctx_classifiable ctx (rq_host q)\<rparr>)
       risk (case rq_reason q of Some r \<Rightarrow> Some r | None \<Rightarrow> Some message)
       (rq_change_id q) (Some source) w"

definition audit_timed_out_exec ::
  "exec_ctx \<Rightarrow> exec_request \<Rightarrow> risk_level \<Rightarrow> str \<Rightarrow> str \<Rightarrow> nat \<Rightarrow> audit_world \<Rightarrow> audit_world" where
  "audit_timed_out_exec ctx q risk source message duration w =
     append_audit (ctx_audit ctx)
       ((refusal_result (rq_host q) (rq_command q) risk message)\<lparr>er_duration_ms := duration\<rparr>)
       risk (Some message) (rq_change_id q) (Some source) w"

definition result_of ::
  "exec_request \<Rightarrow> risk_level \<Rightarrow> nat \<Rightarrow> bool \<Rightarrow> captured \<Rightarrow> exec_result" where
  "result_of q risk duration unclassified c =
     \<lparr>er_host = rq_host q, er_command = rq_command q, er_exit_code = cap_exit_code c,
      er_stdout = cap_stdout c, er_stderr = cap_stderr c, er_duration_ms = duration,
      er_risk_level = risk, er_truncated = cap_truncated c, er_dropped_bytes = cap_dropped_bytes c,
      er_side_effect = rq_side_effect q, er_risk_unclassified = unclassified\<rparr>"

text \<open>What both transports do with the end of a run.\<close>

definition finish_exec ::
  "exec_ctx \<Rightarrow> exec_request \<Rightarrow> risk_level \<Rightarrow> str \<Rightarrow> bool \<Rightarrow> capture_end \<times> nat \<Rightarrow> audit_world \<Rightarrow>
   (exec_error + exec_result) \<times> audit_world" where
  "finish_exec ctx q risk source unclassified ending w =
     (case ending of
        (DeadlineHit t, duration) \<Rightarrow>
          (Inl (TimedOutAfter t (rq_command q)),
           audit_timed_out_exec ctx q risk source ''command timed out'' duration w)
      | (CaptureFailed e, duration) \<Rightarrow> (Inl (TransportError e), w)
      | (Captured c, duration) \<Rightarrow>
          (let result = result_of q risk duration unclassified c
           in (Inr result, append_audit (ctx_audit ctx) result risk (rq_reason q) (rq_change_id q)
                 (Some source) w)))"

text \<open>The refusal by policy, common to both transports: \<open>None\<close> lets the command through.\<close>

definition policy_refusal :: "exec_request \<Rightarrow> risk_level \<Rightarrow> (exec_error \<times> str) option" where
  "policy_refusal q risk =
     (if risk = Blocked then
        Some (BlockedByPolicy (rq_command q), ''command blocked by risk policy'')
      else if risk = High \<and> \<not> rq_force q then
        Some (RequiresForce (rq_command q), ''command requires force=true'')
      else None)"

definition request_source :: "str option \<Rightarrow> exec_request \<Rightarrow> str" where
  "request_source env_var q =
     (case rq_source q of Some s \<Rightarrow> s | None \<Rightarrow> source_from_env env_var ''core'')"

text \<open>\<open>run host command stdin timeout max_bytes\<close> is the SSH transport.\<close>

definition exec_ssh_core_with_risk_override ::
  "exec_ctx \<Rightarrow> exec_ctx \<Rightarrow> str option \<Rightarrow>
   (host_profile \<Rightarrow> str \<Rightarrow> str option \<Rightarrow> nat \<Rightarrow> nat \<Rightarrow> capture_end \<times> nat) \<Rightarrow>
   exec_request \<Rightarrow> risk_level option \<Rightarrow> audit_world \<Rightarrow>
   ((exec_error + exec_result) \<times> audit_world) option" where
  "exec_ssh_core_with_risk_override ctx ctx' env_var run q request_risk_override w =
     (if command_too_long (rq_command q) then Some (Inl CommandTooLong, w)
      else case resolve_host (ctx_config ctx) (rq_host q) of
        Inl e \<Rightarrow> Some (Inl (ResolveError e), w)
      | Inr host \<Rightarrow>
          map_option (\<lambda>classified.
            let source = request_source env_var q;
                risk = apply_risk_override classified (opt_or request_risk_override (hp_risk_override host))
            in case policy_refusal q risk of
                 Some (e, message) \<Rightarrow> (Inl e, audit_rejected_exec ctx q risk source message w)
               | None \<Rightarrow>
                   finish_exec ctx' q risk source False
                     (run host (rq_command q) (rq_stdin q)
                        (case rq_timeout_secs q of Some t \<Rightarrow> t | None \<Rightarrow> 60)
                        (case rq_max_output_bytes q of Some m \<Rightarrow> m | None \<Rightarrow> DEFAULT_MAX_OUTPUT)) w)
            (effective_command_risk ctx (rq_command q)))"

definition stdin_refusal :: "str \<Rightarrow> str" where
  "stdin_refusal host =
     ''exec in '' @ [squote] @ host @ [squote] @
     '' does not forward stdin: the container capture exec runs without an interactive stdin,'' @
     '' so the payload would be silently dropped''"

record local_plan =
  forwards_stdin :: bool
  plan_classifiable :: bool

definition exec_local_core_with_risk_override ::
  "exec_ctx \<Rightarrow> exec_ctx \<Rightarrow> str option \<Rightarrow> str option \<Rightarrow> (str \<Rightarrow> str + local_plan) \<Rightarrow>
   (local_plan \<Rightarrow> str \<Rightarrow> str option \<Rightarrow> nat \<Rightarrow> nat \<Rightarrow> capture_end \<times> nat) \<Rightarrow>
   exec_request \<Rightarrow> risk_level option \<Rightarrow> audit_world \<Rightarrow>
   ((exec_error + exec_result) \<times> audit_world) option" where
  "exec_local_core_with_risk_override ctx ctx' env_var depth_error resolve_plan run q
       request_risk_override w =
     (if command_too_long (rq_command q) then Some (Inl CommandTooLong, w)
      else if \<not> is_local_host (rq_host q) then Some (Inl (NotLocal (rq_host q)), w)
      else map_option (\<lambda>classified.
        let source = request_source env_var q;
            risk = apply_risk_override classified request_risk_override;
            refuse = (\<lambda>e message. (Inl e, audit_rejected_exec ctx q risk source message w))
        in case policy_refusal q risk of
             Some (e, message) \<Rightarrow> refuse e message
           | None \<Rightarrow>
               (case depth_error of
                  Some e \<Rightarrow> refuse (Refused e) e
                | None \<Rightarrow>
                    (case resolve_plan (rq_host q) of
                       Inl e \<Rightarrow> refuse (Refused e) e
                     | Inr plan \<Rightarrow>
                         if rq_stdin q \<noteq> None \<and> \<not> forwards_stdin plan then
                           refuse (Refused (stdin_refusal (rq_host q))) (stdin_refusal (rq_host q))
                         else
                           finish_exec ctx' q risk source (\<not> plan_classifiable plan)
                             (run plan (rq_command q) (rq_stdin q)
                                (case rq_timeout_secs q of Some t \<Rightarrow> t | None \<Rightarrow> 60)
                                (case rq_max_output_bytes q of Some m \<Rightarrow> m | None \<Rightarrow> DEFAULT_MAX_OUTPUT))
                             w)))
        (effective_command_risk ctx (rq_command q)))"

section \<open>Facts\<close>

lemma profile_risk_override: "profile_risk r h = apply_risk_override r (hp_risk_override h)"
  by (simp add: profile_risk_def split: option.split)

lemma policy_refusal_None:
  "policy_refusal q risk = None \<longleftrightarrow> risk \<noteq> Blocked \<and> (risk = High \<longrightarrow> rq_force q)"
  by (auto simp: policy_refusal_def)

lemma overall_fold:
  "foldl (\<lambda>r h. max_severity r (f h)) r hs = foldl max r (map f hs)"
  by (induction hs arbitrary: r) (simp_all add: sev_simps)

lemma overall_strictest:
  "foldl (\<lambda>r h. max_severity r (f h)) Low hs = strictest Low (map f hs)"
  by (simp add: overall_fold strictest_def)

lemma opt_or_None [simp]: "opt_or None b = b"
  by (simp add: opt_or_def)

lemma exec_ssh_resolved:
  assumes "\<not> command_too_long (rq_command q)" "resolve_host (ctx_config ctx) (rq_host q) = Inr profile"
    and "effective_command_risk ctx (rq_command q) = Some classified"
  shows "exec_ssh_core_with_risk_override ctx ctx' env_var run q None w =
    Some (case policy_refusal q (profile_risk classified profile) of
            Some (e, m) \<Rightarrow> (Inl e, audit_rejected_exec ctx q (profile_risk classified profile)
              (request_source env_var q) m w)
          | None \<Rightarrow> finish_exec ctx' q (profile_risk classified profile) (request_source env_var q) False
              (run profile (rq_command q) (rq_stdin q)
                (case rq_timeout_secs q of Some t \<Rightarrow> t | None \<Rightarrow> 60)
                (case rq_max_output_bytes q of Some m \<Rightarrow> m | None \<Rightarrow> DEFAULT_MAX_OUTPUT)) w)"
  using assms unfolding profile_risk_override
  by (simp add: exec_ssh_core_with_risk_override_def Let_def)

lemma finish_not_refused:
  "fst (finish_exec ctx q risk source u ending w) \<noteq> Inl (BlockedByPolicy c)"
  "fst (finish_exec ctx q risk source u ending w) \<noteq> Inl (RequiresForce c)"
  by (cases ending; cases "fst ending"; simp add: finish_exec_def Let_def)+

section \<open>Properties\<close>

text \<open>
  A plan shows what will happen. The risk it gives a host is the one the execution
  computes for the same command and host without a request override: a target shown as blocked is
  refused, one that needs force is refused without it, and no other is refused by policy.
\<close>

theorem preview_agrees_with_exec:
  assumes "preview_exec ctx host command timeout = Some (Inr plan)"
    and "rq_host q = host" "rq_command q = command"
  shows "\<exists>t. plan_targets plan = [t] \<and>
     (case exec_ssh_core_with_risk_override ctx ctx' env_var run q None w of
        None \<Rightarrow> False
      | Some (res, w') \<Rightarrow>
          (pt_blocked t \<longleftrightarrow> res = Inl (BlockedByPolicy command)) \<and>
          (pt_needs_force t \<and> \<not> pt_blocked t \<and> \<not> rq_force q \<longleftrightarrow> res = Inl (RequiresForce command)))"
proof -
  from assms(1) obtain profile classified where p: "\<not> command_too_long command"
      "resolve_host (ctx_config ctx) host = Inr profile"
      "effective_command_risk ctx command = Some classified"
      "plan_targets plan = [plan_target command (case timeout of Some t \<Rightarrow> t | None \<Rightarrow> 60)
         (profile_risk classified profile) profile]"
    by (auto simp: preview_exec_def Let_def split: if_splits sum.splits)
  let ?risk = "profile_risk classified profile"
  let ?ending = "run profile command (rq_stdin q) (case rq_timeout_secs q of Some t \<Rightarrow> t | None \<Rightarrow> 60)
      (case rq_max_output_bytes q of Some m \<Rightarrow> m | None \<Rightarrow> DEFAULT_MAX_OUTPUT)"
  note exec = exec_ssh_resolved [of q ctx profile classified, unfolded assms(2,3), OF p(1-3)]
  obtain res w' where fin: "finish_exec ctx' q ?risk (request_source env_var q) False ?ending w = (res, w')"
    by fastforce
  then have "res \<noteq> Inl (BlockedByPolicy command)" "res \<noteq> Inl (RequiresForce command)"
    using finish_not_refused by (metis fst_conv)+
  then show ?thesis
    unfolding exec fin using p(4) assms(3)
    by (cases ?risk) (auto simp: policy_refusal_def plan_target_def)
qed

definition demo_host :: host_profile where
  "demo_host = \<lparr>hp_name = ''web'', hp_host = ''10.0.0.5'', hp_user = Some ''root'', hp_port = None,
     hp_key_path = None, hp_password = None, hp_jump_host = None, hp_proxy_id = None,
     hp_risk_override = None, hp_tags = [], hp_group = [], hp_env = None, hp_role = None,
     hp_owner = None, hp_init_command = None, hp_passphrase = None, hp_ai_allowed = True\<rparr>"

definition demo_exec :: exec_request where
  "demo_exec = \<lparr>rq_host = ''web'', rq_command = ''ls (('', rq_force = False, rq_timeout_secs = None,
     rq_stdin = None, rq_max_output_bytes = None, rq_reason = None, rq_change_id = None,
     rq_side_effect = None, rq_source = None\<rparr>"

theorem preview_agrees_with_exec_witness:
  "\<exists>w'. exec_ssh_core_with_risk_override (demo_ctx\<lparr>ctx_config := Some [demo_host]\<rparr>) demo_ctx None
     (\<lambda>_ _ _ _ _. (CaptureFailed [], 0)) demo_exec None empty_world
   = Some (Inl (RequiresForce ''ls ((''), w')"
proof -
  let ?ctx = "demo_ctx\<lparr>ctx_config := Some [demo_host]\<rparr>"
  have risk: "effective_command_risk ?ctx ''ls (('' = Some High"
    by (simp add: effective_command_risk_def classify_effective_risk_def classify_with_user_rules_def
        demo_ctx_def)
  have plan: "preview_exec ?ctx ''web'' ''ls (('' None =
      Some (Inr \<lparr>plan_targets = [plan_target ''ls (('' 60 High demo_host], plan_overall_risk = High,
        plan_requires_approval = True, plan_warnings = single_warnings High demo_host\<rparr>)"
    using risk by (simp add: preview_exec_def command_too_long_def MAX_COMMAND_BYTES_def
        resolve_host_def demo_ctx_def demo_host_def profile_risk_def)
  from preview_agrees_with_exec [OF plan, of demo_exec demo_ctx None
      "\<lambda>_ _ _ _ _. (CaptureFailed [], 0)" empty_world]
  show ?thesis
    by (auto simp: demo_exec_def plan_target_def split: option.splits prod.splits)
qed

text \<open>
  The overall risk of a plan is the risk of its riskiest target, and a plan is only
  called approval-free when no target needs force, unless one of them is blocked outright.
\<close>

theorem plan_overall_risk_strictest:
  "let plan = plan_for classified command timeout profiles in
     (\<forall>t \<in> set (plan_targets plan). pt_risk_level t \<le> plan_overall_risk plan) \<and>
     (plan_targets plan = [] \<or>
      (\<exists>t \<in> set (plan_targets plan). pt_risk_level t = plan_overall_risk plan)) \<and>
     (plan_requires_approval plan \<longleftrightarrow>
      (\<exists>t \<in> set (plan_targets plan). pt_needs_force t) \<and>
      \<not> (\<exists>t \<in> set (plan_targets plan). pt_blocked t))"
proof -
  let ?risks = "map (profile_risk classified) profiles"
  have all: "\<And>r. r \<in> set ?risks \<Longrightarrow> r \<le> strictest Low ?risks" by (rule strictest_ge)
  have some: "strictest Low ?risks \<in> set ?risks \<or> strictest Low ?risks = Low"
    using strictest_in [of Low ?risks] by auto
  have empty: "strictest Low ?risks \<in> set ?risks" if ne: "profiles \<noteq> []"
  proof -
    obtain r where r: "r \<in> set ?risks" using ne by (cases profiles) auto
    from some show ?thesis
    proof
      assume low: "strictest Low ?risks = Low"
      with all [OF r] have "r = Low" by simp
      with r low show ?thesis by simp
    qed
  qed
  have high: "strictest Low ?risks = High \<longleftrightarrow>
      (\<exists>r \<in> set ?risks. r = High \<or> r = Blocked) \<and> Blocked \<notin> set ?risks"
  proof
    assume "strictest Low ?risks = High"
    then show "(\<exists>r \<in> set ?risks. r = High \<or> r = Blocked) \<and> Blocked \<notin> set ?risks"
      using some all by fastforce
  next
    assume r: "(\<exists>r \<in> set ?risks. r = High \<or> r = Blocked) \<and> Blocked \<notin> set ?risks"
    then have "High \<le> strictest Low ?risks" using all by blast
    moreover have "strictest Low ?risks \<noteq> Blocked"
    proof
      assume eq: "strictest Low ?risks = Blocked"
      have "Blocked \<in> set ?risks" using some unfolding eq by simp
      with r show False by blast
    qed
    ultimately show "strictest Low ?risks = High" by (cases "strictest Low ?risks") auto
  qed
  have "strictest Low ?risks = High \<longleftrightarrow>
      (\<exists>h \<in> set profiles. profile_risk classified h = High \<or> profile_risk classified h = Blocked) \<and>
      (\<forall>h \<in> set profiles. profile_risk classified h \<noteq> Blocked)"
    unfolding high by force
  moreover have "\<forall>h \<in> set profiles. profile_risk classified h \<le> strictest Low ?risks"
    using all by simp
  moreover have "profiles = [] \<or> (\<exists>h \<in> set profiles. profile_risk classified h = strictest Low ?risks)"
    using empty by force
  ultimately show ?thesis
    by (simp add: plan_for_def overall_strictest plan_target_def Let_def)
qed

text \<open>
  Property (C9): what was authorized is let through. If files do not change in between, the command
  an authorization returns, sent with \<open>force\<close> when the caller forced or an approver approved, is not
  refused by policy at the transport.
\<close>

theorem authorized_is_admitted:
  assumes "authorize_command_with_approval ctx ctx i approval w = Some (Inr auth, w')"
    and "resolve_host (ctx_config ctx) (in_host i) = Inr h" "in_risk_override i = hp_risk_override h"
    and "rq_host q = in_host i" "rq_force q = (in_force i \<or> auth_approved auth)"
    and "rq_command q = (case auth_command auth of None \<Rightarrow> in_command i | Some c \<Rightarrow> c)"
  shows "\<exists>res w2. exec_ssh_core_with_risk_override ctx ctx' env_var run q None w1 = Some (res, w2) \<and>
     (\<forall>c. res \<noteq> Inl (BlockedByPolicy c) \<and> res \<noteq> Inl (RequiresForce c))"
proof (cases "command_too_long (rq_command q)")
  case True
  then show ?thesis by (simp add: exec_ssh_core_with_risk_override_def)
next
  case False
  note auth = authorize_Inr [OF assms(1)]
  have "\<exists>e. effective_command_risk ctx (rq_command q) = Some e \<and>
      policy_refusal q (profile_risk e h) = None"
  proof (cases "auth_approved auth")
    case True
    then obtain outcome w2 where concl:
        "conclude ctx i (auth_risk auth) outcome w2 = Some (Inr auth, w')"
      using auth by blast
    show ?thesis
      using conclude_Inr [OF concl] auth True assms(3,5,6)
      by (auto simp: profile_risk_override policy_refusal_None)
  next
    case unapproved: False
    with auth conclude_Inr [of ctx i "auth_risk auth" _ _ auth w']
    have "auth_command auth = None" "auth_risk auth = High \<longrightarrow> in_force i" by auto
    with auth unapproved assms(3,5,6) show ?thesis
      by (auto simp: profile_risk_override policy_refusal_None)
  qed
  then obtain e where e: "effective_command_risk ctx (rq_command q) = Some e"
      "policy_refusal q (profile_risk e h) = None" by blast
  note exec = exec_ssh_resolved [OF False _ e(1), unfolded assms(4), OF assms(2)]
  show ?thesis
    unfolding exec e(2) using finish_not_refused by (metis option.simps(4) prod.collapse)
qed

theorem authorized_is_admitted_witness:
  "\<exists>res w2. exec_ssh_core_with_risk_override (demo_ctx\<lparr>ctx_config := Some [demo_host]\<rparr>) demo_ctx None
     (\<lambda>_ _ _ _ _. (CaptureFailed [], 0)) (demo_exec\<lparr>rq_force := True\<rparr>) None empty_world = Some (res, w2) \<and>
     (\<forall>c. res \<noteq> Inl (BlockedByPolicy c) \<and> res \<noteq> Inl (RequiresForce c))"
proof -
  let ?ctx = "demo_ctx\<lparr>ctx_config := Some [demo_host]\<rparr>"
  have run: "authorize_command_with_approval ?ctx ?ctx demo_input (\<lambda>p w. (Inr Approved, w)) empty_world =
     Some (Inr \<lparr>auth_risk = High, auth_approved = True, auth_command = None\<rparr>,
           note_human_approval demo_env ''web'' ''ls (('' empty_world)"
    by (simp add: authorize_command_with_approval_def demo_ctx_def demo_input_def check_daemon_scope_def
        effective_command_risk_def classify_effective_risk_def classify_with_user_rules_def
        host_allows_source_def find_profile_def demo_host_def check_approval_required_def conclude_def
        Let_def)
  show ?thesis
    by (rule authorized_is_admitted [where h = demo_host, OF run])
       (simp_all add: resolve_host_def demo_ctx_def demo_host_def demo_input_def demo_exec_def)
qed

end
