(* ===== verification/Exec_Limits.thy ===== *)
theory Exec_Limits
  imports Syntax_Tree "HOL-Library.AList" "HOL-Library.Code_Target_Nat"
begin

text \<open>
  \<open>limits.rs\<close>: the execution limiter of the daemon, a sliding window of recorded executions and the
  table of open sessions, both limited per source, host and tag. Instants are nanoseconds of the
  monotonic clock and arguments of the operations. A limit of zero means no limit.
\<close>

type_synonym session_id = nat

record execution_limit_rule =
  per_minute :: "nat option"
  max_sessions :: "nat option"

record execution_limit_config =
  enabled :: bool
  window_secs :: nat
  default_source_per_minute :: nat
  default_host_per_minute :: nat
  default_tag_per_minute :: nat
  default_source_max_sessions :: nat
  default_host_max_sessions :: nat
  default_tag_max_sessions :: nat
  source_rules :: "(str \<times> execution_limit_rule) list"
  host_rules :: "(str \<times> execution_limit_rule) list"
  tag_rules :: "(str \<times> execution_limit_rule) list"

text \<open>The scope is \<open>source:\<close>, \<open>host:\<close> or \<open>tag:\<close>, the name, and \<open> rate\<close> or \<open> sessions\<close>.\<close>

record execution_limit_rejection =
  rej_scope :: str
  rej_limit :: nat
  rej_current :: nat

record execution_event =
  ev_at :: nat
  ev_source :: str
  ev_host :: str
  ev_tags :: "str list"

record session_limit_record =
  sess_source :: str
  sess_host :: str
  sess_tags :: "str list"

record execution_limiter =
  limits :: execution_limit_config
  recorded :: "execution_event list"
  sessions :: "(session_id \<times> session_limit_record) list"

definition no_rule :: execution_limit_rule where
  "no_rule = \<lparr>per_minute = None, max_sessions = None\<rparr>"

definition default_limits :: execution_limit_config where
  "default_limits =
     \<lparr>enabled = True, window_secs = 60, default_source_per_minute = 30, default_host_per_minute = 20,
      default_tag_per_minute = 60, default_source_max_sessions = 4, default_host_max_sessions = 4,
      default_tag_max_sessions = 8, source_rules = [], host_rules = [], tag_rules = []\<rparr>"

section \<open>Keys and configuration\<close>

definition normalize_key :: "str \<Rightarrow> str" where
  "normalize_key v = to_lowercase (trim v)"

definition normalize_keys :: "str list \<Rightarrow> str list" where
  "normalize_keys vs = filter (\<lambda>v. v \<noteq> []) (map normalize_key vs)"

text \<open>
  Rule tables are hash maps, here their entries; collecting a list of pairs into a map keeps the last
  entry of a key. The list is the order in which the map is walked.
\<close>

definition normalize_rule_map ::
  "(str \<times> execution_limit_rule) list \<Rightarrow> (str \<times> execution_limit_rule) list" where
  "normalize_rule_map rules =
     foldl (\<lambda>m (k, r). if normalize_key k \<noteq> [] then AList.update (normalize_key k) r m else m) [] rules"

definition normalize_config_keys :: "execution_limit_config \<Rightarrow> execution_limit_config" where
  "normalize_config_keys c =
     c\<lparr>source_rules := normalize_rule_map (source_rules c),
       host_rules := normalize_rule_map (host_rules c),
       tag_rules := normalize_rule_map (tag_rules c)\<rparr>"

definition rule_for :: "(str \<times> execution_limit_rule) list \<Rightarrow> str \<Rightarrow> execution_limit_rule" where
  "rule_for rules key = (case map_of rules key of None \<Rightarrow> no_rule | Some r \<Rightarrow> r)"

definition or_default :: "nat option \<Rightarrow> nat \<Rightarrow> nat" where
  "or_default a d = (case a of None \<Rightarrow> d | Some x \<Rightarrow> x)"

definition source_rate :: "execution_limit_config \<Rightarrow> str \<Rightarrow> nat" where
  "source_rate c k = or_default (per_minute (rule_for (source_rules c) k)) (default_source_per_minute c)"

definition host_rate :: "execution_limit_config \<Rightarrow> str \<Rightarrow> nat" where
  "host_rate c k = or_default (per_minute (rule_for (host_rules c) k)) (default_host_per_minute c)"

definition tag_rate :: "execution_limit_config \<Rightarrow> str \<Rightarrow> nat" where
  "tag_rate c k = or_default (per_minute (rule_for (tag_rules c) k)) (default_tag_per_minute c)"

definition source_sessions :: "execution_limit_config \<Rightarrow> str \<Rightarrow> nat" where
  "source_sessions c k =
     or_default (max_sessions (rule_for (source_rules c) k)) (default_source_max_sessions c)"

definition host_sessions :: "execution_limit_config \<Rightarrow> str \<Rightarrow> nat" where
  "host_sessions c k = or_default (max_sessions (rule_for (host_rules c) k)) (default_host_max_sessions c)"

definition tag_sessions :: "execution_limit_config \<Rightarrow> str \<Rightarrow> nat" where
  "tag_sessions c k = or_default (max_sessions (rule_for (tag_rules c) k)) (default_tag_max_sessions c)"

definition new_limiter :: "execution_limit_config \<Rightarrow> execution_limiter" where
  "new_limiter c = \<lparr>limits = c, recorded = [], sessions = []\<rparr>"

definition apply_config :: "execution_limit_config \<Rightarrow> execution_limiter \<Rightarrow> bool \<times> execution_limiter" where
  "apply_config c l = (if limits l = c then (False, l) else (True, l\<lparr>limits := c\<rparr>))"

section \<open>Rates\<close>

definition count_events :: "(execution_event \<Rightarrow> bool) \<Rightarrow> execution_event list \<Rightarrow> nat" where
  "count_events P es = length (filter P es)"

definition over_limit :: "nat \<Rightarrow> nat \<Rightarrow> str \<Rightarrow> execution_limit_rejection option" where
  "over_limit limit count scope =
     (if limit > 0 \<and> count > limit
      then Some \<lparr>rej_scope = scope, rej_limit = limit, rej_current = count - 1\<rparr> else None)"

definition check_tag_rate ::
  "execution_limit_config \<Rightarrow> execution_event list \<Rightarrow> str \<Rightarrow> execution_limit_rejection option" where
  "check_tag_rate c events tag =
     over_limit (tag_rate c tag) (count_events (\<lambda>e. tag \<in> set (ev_tags e)) events)
       (''tag:'' @ tag @ '' rate'')"

definition check_target_rate ::
  "execution_limit_config \<Rightarrow> execution_event list \<Rightarrow> str \<times> str list \<Rightarrow> execution_limit_rejection option" where
  "check_target_rate c events target =
     (case target of (host, tags) \<Rightarrow>
        (case over_limit (host_rate c (normalize_key host))
                (count_events (\<lambda>e. ev_host e = normalize_key host) events)
                (''host:'' @ host @ '' rate'') of
           Some r \<Rightarrow> Some r
         | None \<Rightarrow> find_map (check_tag_rate c events) (normalize_keys tags)))"

definition check_event_limits ::
  "execution_limit_config \<Rightarrow> str \<Rightarrow> (str \<times> str list) list \<Rightarrow> execution_event list \<Rightarrow>
   execution_limit_rejection option" where
  "check_event_limits c source targets events =
     (case over_limit (source_rate c (normalize_key source))
             (count_events (\<lambda>e. ev_source e = normalize_key source) events)
             (''source:'' @ source @ '' rate'') of
        Some r \<Rightarrow> Some r
      | None \<Rightarrow> find_map (check_target_rate c events) targets)"

text \<open>\<open>duration_since\<close> is zero for a later instant, as is the subtraction of natural numbers.\<close>

definition window_nanos :: "execution_limit_config \<Rightarrow> nat" where
  "window_nanos c = max (window_secs c) 1 * 1000000000"

definition prune_old_events :: "nat \<Rightarrow> execution_limiter \<Rightarrow> execution_limiter" where
  "prune_old_events now l =
     l\<lparr>recorded := filter (\<lambda>e. now - ev_at e \<le> window_nanos (limits l)) (recorded l)\<rparr>"

definition event_of :: "nat \<Rightarrow> str \<Rightarrow> str \<times> str list \<Rightarrow> execution_event" where
  "event_of now source target =
     \<lparr>ev_at = now, ev_source = normalize_key source, ev_host = normalize_key (fst target),
      ev_tags = normalize_keys (snd target)\<rparr>"

text \<open>
  The clock is read twice, to prune and to stamp the new events. The result is \<open>None\<close> for
  \<open>Ok\<close>; a rejection leaves the pruned window.
\<close>

definition check_execution_batch ::
  "nat \<Rightarrow> nat \<Rightarrow> str \<Rightarrow> (str \<times> str list) list \<Rightarrow> execution_limiter \<Rightarrow>
   execution_limit_rejection option \<times> execution_limiter" where
  "check_execution_batch pruned now source targets l =
     (if \<not> enabled (limits l) \<or> targets = [] then (None, l)
      else (let l' = prune_old_events pruned l;
                proposed = recorded l' @ map (event_of now source) targets
            in case check_event_limits (limits l) source targets proposed of
                 Some r \<Rightarrow> (Some r, l')
               | None \<Rightarrow> (None, l'\<lparr>recorded := proposed\<rparr>)))"

section \<open>Sessions\<close>

definition count_sessions :: "(session_limit_record \<Rightarrow> bool) \<Rightarrow> execution_limiter \<Rightarrow> nat" where
  "count_sessions P l = length (filter (\<lambda>(i, s). P s) (sessions l))"

definition at_limit :: "nat \<Rightarrow> nat \<Rightarrow> str \<Rightarrow> execution_limit_rejection option" where
  "at_limit limit count scope =
     (if limit > 0 \<and> count \<ge> limit
      then Some \<lparr>rej_scope = scope, rej_limit = limit, rej_current = count\<rparr> else None)"

definition check_tag_sessions :: "execution_limiter \<Rightarrow> str \<Rightarrow> execution_limit_rejection option" where
  "check_tag_sessions l tag =
     at_limit (tag_sessions (limits l) tag) (count_sessions (\<lambda>s. tag \<in> set (sess_tags s)) l)
       (''tag:'' @ tag @ '' sessions'')"

definition check_session_open ::
  "str \<Rightarrow> str \<Rightarrow> str list \<Rightarrow> execution_limiter \<Rightarrow> execution_limit_rejection option" where
  "check_session_open source host tags l =
     (if \<not> enabled (limits l) then None
      else case at_limit (source_sessions (limits l) (normalize_key source))
                  (count_sessions (\<lambda>s. sess_source s = normalize_key source) l)
                  (''source:'' @ source @ '' sessions'') of
        Some r \<Rightarrow> Some r
      | None \<Rightarrow>
          (case at_limit (host_sessions (limits l) (normalize_key host))
                  (count_sessions (\<lambda>s. sess_host s = normalize_key host) l)
                  (''host:'' @ host @ '' sessions'') of
             Some r \<Rightarrow> Some r
           | None \<Rightarrow> find_map (check_tag_sessions l) (normalize_keys tags)))"

definition register_session ::
  "session_id \<Rightarrow> str \<Rightarrow> str \<Rightarrow> str list \<Rightarrow> execution_limiter \<Rightarrow> execution_limiter" where
  "register_session i source host tags l =
     l\<lparr>sessions := AList.update i
         \<lparr>sess_source = normalize_key source, sess_host = normalize_key host,
          sess_tags = normalize_keys tags\<rparr> (sessions l)\<rparr>"

definition try_register_session ::
  "session_id \<Rightarrow> str \<Rightarrow> str \<Rightarrow> str list \<Rightarrow> execution_limiter \<Rightarrow>
   execution_limit_rejection option \<times> execution_limiter" where
  "try_register_session i source host tags l =
     (case check_session_open source host tags l of
        Some r \<Rightarrow> (Some r, l)
      | None \<Rightarrow> (None, register_session i source host tags l))"

definition unregister_session :: "session_id \<Rightarrow> execution_limiter \<Rightarrow> execution_limiter" where
  "unregister_session i l = l\<lparr>sessions := AList.delete i (sessions l)\<rparr>"

definition session_target :: "session_id \<Rightarrow> execution_limiter \<Rightarrow> (str \<times> str list) option" where
  "session_target i l = map_option (\<lambda>s. (sess_host s, sess_tags s)) (map_of (sessions l) i)"

section \<open>The sliding window\<close>

lemma over_limit_None: "over_limit limit n scope = None \<longleftrightarrow> limit = 0 \<or> n \<le> limit"
  by (auto simp: over_limit_def)

lemma at_limit_None: "at_limit limit n scope = None \<longleftrightarrow> limit = 0 \<or> n < limit"
  by (auto simp: at_limit_def)

text \<open>A key of the window: what it counts and how much of it is allowed.\<close>

datatype rate_key = SourceKey str | HostKey str | TagKey str

fun counted :: "rate_key \<Rightarrow> execution_event \<Rightarrow> bool" where
  "counted (SourceKey k) e \<longleftrightarrow> ev_source e = k"
| "counted (HostKey k) e \<longleftrightarrow> ev_host e = k"
| "counted (TagKey k) e \<longleftrightarrow> k \<in> set (ev_tags e)"

fun allowance :: "execution_limit_config \<Rightarrow> rate_key \<Rightarrow> nat" where
  "allowance c (SourceKey k) = source_rate c k"
| "allowance c (HostKey k) = host_rate c k"
| "allowance c (TagKey k) = tag_rate c k"

lemma counted_eq:
  "counted (SourceKey k) = (\<lambda>e. ev_source e = k)" "counted (HostKey k) = (\<lambda>e. ev_host e = k)"
  "counted (TagKey k) = (\<lambda>e. k \<in> set (ev_tags e))"
  by (rule ext, simp)+

lemma check_event_limits_None:
  assumes "check_event_limits c source targets events = None"
    and "\<exists>t \<in> set targets. counted k (event_of now source t)"
  shows "allowance c k = 0 \<or> count_events (counted k) events \<le> allowance c k"
proof (cases k)
  case (SourceKey s)
  with assms show ?thesis
    by (auto simp: check_event_limits_def over_limit_None event_of_def counted_eq split: option.splits)
next
  case (HostKey h)
  with assms(2) obtain t where t: "t \<in> set targets" "normalize_key (fst t) = h"
    by (auto simp: event_of_def)
  with assms(1) have "check_target_rate c events t = None"
    by (auto simp: check_event_limits_def find_map_None split: option.splits)
  with t(2) HostKey show ?thesis
    by (cases t) (auto simp: check_target_rate_def over_limit_None counted_eq split: option.splits)
next
  case (TagKey g)
  with assms(2) obtain t where t: "t \<in> set targets" "g \<in> set (normalize_keys (snd t))"
    by (auto simp: event_of_def)
  with assms(1) have "check_target_rate c events t = None"
    by (auto simp: check_event_limits_def find_map_None split: option.splits)
  with t(2) have "check_tag_rate c events g = None"
    by (cases t) (auto simp: check_target_rate_def find_map_None split: option.splits)
  with TagKey show ?thesis by (auto simp: check_tag_rate_def over_limit_None counted_eq)
qed

text \<open>
  The history of a limiter: the executions it admitted, the instant of the last pruning and the
  latest instant of all.
\<close>

record limiter_run =
  limiter :: execution_limiter
  admitted :: "execution_event list"
  pruned_at :: nat
  clock :: nat

datatype limit_call = Check nat nat str "(str \<times> str list) list"
  | OpenSession session_id str str "str list" | CloseSession session_id

fun limit_step :: "limiter_run \<Rightarrow> limit_call \<Rightarrow> limiter_run" where
  "limit_step s (Check pruned now source targets) =
     (case check_execution_batch pruned now source targets (limiter s) of (res, l) \<Rightarrow>
        s\<lparr>limiter := l, pruned_at := (if targets = [] then pruned_at s else pruned), clock := now,
          admitted := (if res = None then admitted s @ map (event_of now source) targets
                       else admitted s)\<rparr>)"
| "limit_step s (OpenSession i source host tags) =
     s\<lparr>limiter := snd (try_register_session i source host tags (limiter s))\<rparr>"
| "limit_step s (CloseSession i) = s\<lparr>limiter := unregister_session i (limiter s)\<rparr>"

text \<open>The clock is monotonic.\<close>

fun limit_enabled :: "limiter_run \<Rightarrow> limit_call \<Rightarrow> bool" where
  "limit_enabled s (Check pruned now source targets) \<longleftrightarrow> clock s \<le> pruned \<and> pruned \<le> now"
| "limit_enabled s _ \<longleftrightarrow> True"

definition in_window :: "nat \<Rightarrow> nat \<Rightarrow> execution_event \<Rightarrow> bool" where
  "in_window w t e \<longleftrightarrow> ev_at e \<le> t \<and> t - ev_at e \<le> w"

definition rate_ok :: "execution_limit_config \<Rightarrow> execution_event list \<Rightarrow> bool" where
  "rate_ok c es \<longleftrightarrow>
     (\<forall>k t. allowance c k = 0 \<or>
        count_events (\<lambda>e. counted k e \<and> in_window (window_nanos c) t e) es \<le> allowance c k)"

definition window_inv :: "execution_limit_config \<Rightarrow> limiter_run \<Rightarrow> bool" where
  "window_inv c s \<longleftrightarrow>
     pruned_at s \<le> clock s \<and> (\<forall>e \<in> set (admitted s). ev_at e \<le> clock s) \<and>
     recorded (limiter s) = filter (\<lambda>e. pruned_at s - ev_at e \<le> window_nanos c) (admitted s) \<and>
     rate_ok c (admitted s)"

lemma count_events_mono:
  "(\<And>e. e \<in> set es \<Longrightarrow> P e \<Longrightarrow> Q e) \<Longrightarrow> count_events P es \<le> count_events Q es"
  unfolding count_events_def by (induction es) auto

lemma count_events_filter: "count_events P (filter Q es) = count_events (\<lambda>e. P e \<and> Q e) es"
  by (simp add: count_events_def conj_commute)

lemma count_events_append: "count_events P (es @ fs) = count_events P es + count_events P fs"
  by (simp add: count_events_def)

lemma count_events_0: "(\<And>e. e \<in> set es \<Longrightarrow> \<not> P e) \<Longrightarrow> count_events P es = 0"
  by (simp add: count_events_def)

lemma keep_again:
  "p \<le> q \<Longrightarrow> filter (\<lambda>e. q - ev_at e \<le> w) (filter (\<lambda>e. p - ev_at e \<le> w) es) =
     filter (\<lambda>e. q - ev_at e \<le> w) es"
  by (simp add: filter_filter) (rule filter_cong, auto)

lemma rate_ok_extend:
  assumes ok: "rate_ok c es" and old: "\<forall>e \<in> set es. ev_at e \<le> p" and "p \<le> n"
    and now: "\<forall>e \<in> set new. ev_at e = n"
    and chk: "\<And>k. \<exists>e \<in> set new. counted k e \<Longrightarrow>
      allowance c k = 0 \<or>
        count_events (counted k) (filter (\<lambda>e. p - ev_at e \<le> window_nanos c) es @ new) \<le> allowance c k"
  shows "rate_ok c (es @ new)"
  unfolding rate_ok_def
proof (intro allI)
  fix k t
  let ?P = "\<lambda>e. counted k e \<and> in_window (window_nanos c) t e"
  show "allowance c k = 0 \<or> count_events ?P (es @ new) \<le> allowance c k"
  proof (cases "\<exists>e \<in> set new. ?P e")
    case True
    with now have "n \<le> t" by (auto simp: in_window_def)
    with old \<open>p \<le> n\<close> have "count_events ?P es
        \<le> count_events (\<lambda>e. counted k e \<and> p - ev_at e \<le> window_nanos c) es"
      by (intro count_events_mono) (auto simp: in_window_def)
    moreover have "count_events ?P new \<le> count_events (counted k) new"
      by (intro count_events_mono) auto
    moreover from True have "\<exists>e \<in> set new. counted k e" by blast
    note chk [OF this]
    ultimately show ?thesis by (auto simp: count_events_append count_events_filter)
  next
    case False
    then have "count_events ?P new = 0" by (intro count_events_0) auto
    with ok show ?thesis by (auto simp: rate_ok_def count_events_append)
  qed
qed

lemma check_window_inv:
  assumes inv: "window_inv c s" and cfg: "limits (limiter s) = c" "enabled c"
    and clk: "clock s \<le> p" "p \<le> n"
  shows "window_inv c (limit_step s (Check p n source targets))"
proof (cases "targets = []")
  case True
  with assms show ?thesis
    by (fastforce simp: window_inv_def check_execution_batch_def)
next
  case False
  let ?new = "map (event_of n source) targets"
  let ?kept = "filter (\<lambda>e. p - ev_at e \<le> window_nanos c) (admitted s)"
  have kept: "recorded (prune_old_events p (limiter s)) = ?kept"
    using inv clk cfg keep_again [of "pruned_at s" p "window_nanos c" "admitted s"]
    by (simp add: window_inv_def prune_old_events_def del: filter_filter)
  have old: "\<forall>e \<in> set (admitted s). ev_at e \<le> p" "\<forall>e \<in> set ?new. ev_at e = n"
    using inv clk by (fastforce simp: window_inv_def event_of_def)+
  let ?l = "prune_old_events p (limiter s)"
  show ?thesis
  proof (cases "check_event_limits c source targets (?kept @ ?new)")
    case None
    have "rate_ok c (admitted s)" using inv by (simp add: window_inv_def)
    then have ok: "rate_ok c (admitted s @ ?new)"
    proof (rule rate_ok_extend [OF _ old(1) clk(2) old(2)])
      fix k assume "\<exists>e \<in> set ?new. counted k e"
      then have "\<exists>t \<in> set targets. counted k (event_of n source t)" by auto
      with check_event_limits_None [OF None]
      show "allowance c k = 0 \<or> count_events (counted k) (?kept @ ?new) \<le> allowance c k" .
    qed
    have "limit_step s (Check p n source targets) =
        s\<lparr>limiter := ?l\<lparr>recorded := ?kept @ ?new\<rparr>, pruned_at := p, clock := n,
          admitted := admitted s @ ?new\<rparr>"
      using None False kept cfg by (simp add: check_execution_batch_def)
    moreover have "filter (\<lambda>e. p - ev_at e \<le> window_nanos c) ?new = ?new"
      using clk(2) by (simp add: filter_id_conv event_of_def)
    moreover have "\<forall>e \<in> set (admitted s @ ?new). ev_at e \<le> n"
      using old clk(2) by fastforce
    ultimately show ?thesis using ok clk(2) unfolding window_inv_def by simp
  next
    case (Some r)
    then have "limit_step s (Check p n source targets) =
        s\<lparr>limiter := ?l, pruned_at := p, clock := n\<rparr>"
      using False kept cfg by (simp add: check_execution_batch_def)
    moreover have "\<forall>e \<in> set (admitted s). ev_at e \<le> n" using old(1) clk(2) by fastforce
    ultimately show ?thesis using inv clk(2) kept unfolding window_inv_def by simp
  qed
qed

section \<open>Open sessions\<close>

text \<open>The key of a session limit, as for the rates.\<close>

fun holds :: "rate_key \<Rightarrow> session_limit_record \<Rightarrow> bool" where
  "holds (SourceKey k) s \<longleftrightarrow> sess_source s = k"
| "holds (HostKey k) s \<longleftrightarrow> sess_host s = k"
| "holds (TagKey k) s \<longleftrightarrow> k \<in> set (sess_tags s)"

fun session_allowance :: "execution_limit_config \<Rightarrow> rate_key \<Rightarrow> nat" where
  "session_allowance c (SourceKey k) = source_sessions c k"
| "session_allowance c (HostKey k) = host_sessions c k"
| "session_allowance c (TagKey k) = tag_sessions c k"

definition sessions_ok :: "execution_limiter \<Rightarrow> bool" where
  "sessions_ok l \<longleftrightarrow>
     (\<forall>k. session_allowance (limits l) k = 0 \<or>
        count_sessions (holds k) l \<le> session_allowance (limits l) k)"

lemma holds_eq:
  "holds (SourceKey k) = (\<lambda>s. sess_source s = k)" "holds (HostKey k) = (\<lambda>s. sess_host s = k)"
  "holds (TagKey k) = (\<lambda>s. k \<in> set (sess_tags s))"
  by (rule ext, simp)+

lemma length_filter_update:
  "length (filter P (AList.update k v xs)) \<le> length (filter P xs) + (if P (k, v) then 1 else 0)"
  by (induction xs) auto

lemma length_filter_delete: "length (filter P (AList.delete k xs)) \<le> length (filter P xs)"
  by (induction xs) auto

lemma check_session_open_None:
  assumes "check_session_open source host tags l = None" "enabled (limits l)"
    and "holds k \<lparr>sess_source = normalize_key source, sess_host = normalize_key host,
          sess_tags = normalize_keys tags\<rparr>"
  shows "session_allowance (limits l) k = 0 \<or>
    count_sessions (holds k) l < session_allowance (limits l) k"
proof (cases k)
  case (TagKey g)
  with assms have "check_tag_sessions l g = None"
    by (auto simp: check_session_open_def find_map_None split: option.splits)
  with TagKey show ?thesis by (simp add: check_tag_sessions_def at_limit_None holds_eq)
qed (use assms in \<open>auto simp: check_session_open_def at_limit_None holds_eq split: option.splits\<close>)

lemma try_register_session_ok:
  assumes "sessions_ok l" "enabled (limits l)"
  shows "sessions_ok (snd (try_register_session i source host tags l))"
proof (cases "check_session_open source host tags l")
  case None
  show ?thesis
    unfolding sessions_ok_def
  proof (intro allI)
    fix k
    let ?l = "snd (try_register_session i source host tags l)"
    let ?r = "\<lparr>sess_source = normalize_key source, sess_host = normalize_key host,
                sess_tags = normalize_keys tags\<rparr>"
    have "count_sessions (holds k) ?l \<le> count_sessions (holds k) l + (if holds k ?r then 1 else 0)"
      using None length_filter_update [of "\<lambda>(i, s). holds k s" i ?r "sessions l"]
      by (simp add: try_register_session_def register_session_def count_sessions_def)
    moreover have "limits ?l = limits l"
      using None by (simp add: try_register_session_def register_session_def)
    moreover have "session_allowance (limits l) k = 0 \<or>
        count_sessions (holds k) l + (if holds k ?r then 1 else 0) \<le> session_allowance (limits l) k"
      using check_session_open_None [OF None assms(2), of k] assms(1) by (auto simp: sessions_ok_def)
    ultimately show "session_allowance (limits ?l) k = 0 \<or>
        count_sessions (holds k) ?l \<le> session_allowance (limits ?l) k"
      by (auto simp del: session_allowance.simps)
  qed
qed (use assms in \<open>simp add: try_register_session_def\<close>)

lemma unregister_session_ok: "sessions_ok l \<Longrightarrow> sessions_ok (unregister_session i l)"
  unfolding sessions_ok_def unregister_session_def count_sessions_def
  by simp (meson length_filter_delete order.trans)

definition limits_inv :: "execution_limit_config \<Rightarrow> limiter_run \<Rightarrow> bool" where
  "limits_inv c s \<longleftrightarrow>
     limits (limiter s) = c \<and> enabled c \<and> window_inv c s \<and> sessions_ok (limiter s)"

lemma limit_step_limits: "limits (limiter (limit_step s e)) = limits (limiter s)"
  by (cases e) (auto simp: check_execution_batch_def prune_old_events_def Let_def
      try_register_session_def register_session_def unregister_session_def
      split: option.splits prod.splits if_splits)

lemma limit_step_Check_sessions:
  "sessions (limiter (limit_step s (Check p n source targets))) = sessions (limiter s)"
  by (auto simp: check_execution_batch_def prune_old_events_def Let_def
      split: option.splits prod.splits if_splits)

lemma limit_step_inv:
  assumes "limits_inv c s" "limit_enabled s e"
  shows "limits_inv c (limit_step s e)"
proof -
  have "sessions_ok (limiter (limit_step s e))"
  proof (cases e)
    case (Check p n source targets)
    from assms(1) have "sessions_ok (limiter s)" by (simp add: limits_inv_def)
    with Check show ?thesis
      using limit_step_limits [of s e] limit_step_Check_sessions [of s p n source targets]
      unfolding sessions_ok_def count_sessions_def by (auto simp del: limit_step.simps)
  qed (use assms in \<open>simp_all add: limits_inv_def try_register_session_ok unregister_session_ok\<close>)
  moreover have "window_inv c (limit_step s e)"
  proof (cases e)
    case (Check p n source targets)
    with assms check_window_inv show ?thesis by (simp add: limits_inv_def del: limit_step.simps)
  qed (use assms in \<open>auto simp: limits_inv_def window_inv_def try_register_session_def
      register_session_def unregister_session_def split: option.splits\<close>)
  ultimately show ?thesis using assms limit_step_limits [of s e] by (simp add: limits_inv_def)
qed

interpretation limiting: state_machine limit_step limit_enabled "limits_inv c" for c
  by unfold_locales (rule limit_step_inv)

definition start_run :: "execution_limit_config \<Rightarrow> limiter_run" where
  "start_run c = \<lparr>limiter = new_limiter c, admitted = [], pruned_at = 0, clock = 0\<rparr>"

lemma start_run_inv: "enabled c \<Longrightarrow> limits_inv c (start_run c)"
  by (simp add: limits_inv_def start_run_def new_limiter_def window_inv_def rate_ok_def
      count_events_def sessions_ok_def count_sessions_def)

text \<open>
  Property (C17): in every window of \<open>window_secs\<close>, wherever it starts, the executions the limiter
  admitted for a source, a host or a tag are at most what its rule or the default allows, whatever
  the order of checks, batches, rejections and session operations. A batch counts once per target.
\<close>

theorem rate_never_exceeded:
  assumes "enabled c" "admissible limit_step limit_enabled (start_run c) es" "allowance c k > 0"
  shows "count_events (\<lambda>e. counted k e \<and> in_window (window_nanos c) t e)
           (admitted (foldl limit_step (start_run c) es)) \<le> allowance c k"
  using limiting.run_inv [OF start_run_inv [OF assms(1)] assms(2)] assms(3)
  unfolding limits_inv_def window_inv_def rate_ok_def by (metis less_numeral_extra(3))

text \<open>
  The sessions open at any time for a source, a host or a tag are at most what its
  rule or the default allows.
\<close>

theorem sessions_never_exceeded:
  assumes "enabled c" "admissible limit_step limit_enabled (start_run c) es"
    and "session_allowance c k > 0"
  shows "count_sessions (holds k) (limiter (foldl limit_step (start_run c) es))
           \<le> session_allowance c k"
  using limiting.run_inv [OF start_run_inv [OF assms(1)] assms(2)] assms(3)
  unfolding limits_inv_def sessions_ok_def by (metis less_numeral_extra(3))

section \<open>Witnesses\<close>

definition two_a_minute :: execution_limit_config where
  "two_a_minute =
     default_limits\<lparr>host_rules := [(''db'', \<lparr>per_minute = Some 2, max_sessions = Some 1\<rparr>)]\<rparr>"

text \<open>Three calls in one second, of which the third is refused, and a fourth two minutes later.\<close>

definition busy_minute :: "limit_call list" where
  "busy_minute =
     [Check 0 5 ''ai'' [('' DB'', [])], Check 10 10 ''ai'' [(''db'', [])],
      Check 20 21 ''cli'' [(''db'', [])], OpenSession 1 ''ai'' ''db'' [], OpenSession 2 ''ai'' ''db'' [],
      Check 120000000000 120000000001 ''ai'' [(''db'', [])]]"

lemma rate_never_exceeded_witness:
  "count_events (\<lambda>e. counted (HostKey ''db'') e \<and> in_window (window_nanos two_a_minute) 21 e)
     (admitted (foldl limit_step (start_run two_a_minute) busy_minute)) \<le> 2 \<and>
   length (admitted (foldl limit_step (start_run two_a_minute) busy_minute)) = 3"
proof -
  have "enabled two_a_minute" "allowance two_a_minute (HostKey ''db'') = 2" by code_simp+
  moreover have "admissible limit_step limit_enabled (start_run two_a_minute) busy_minute"
    by code_simp
  moreover have "length (admitted (foldl limit_step (start_run two_a_minute) busy_minute)) = 3"
    by code_simp
  ultimately show ?thesis
    using rate_never_exceeded [of two_a_minute busy_minute "HostKey ''db''"] by simp
qed

lemma sessions_never_exceeded_witness:
  "count_sessions (holds (HostKey ''db''))
     (limiter (foldl limit_step (start_run two_a_minute) busy_minute)) \<le> 1"
proof -
  have "enabled two_a_minute" "session_allowance two_a_minute (HostKey ''db'') = 1" by code_simp+
  moreover have "admissible limit_step limit_enabled (start_run two_a_minute) busy_minute"
    by code_simp
  ultimately show ?thesis
    using sessions_never_exceeded [of two_a_minute busy_minute "HostKey ''db''"] by simp
qed

end
