(* ===== verification/Lifecycle.thy ===== *)
theory Lifecycle
  imports A2S_Prelude Rust_Text "HOL-Library.AList"
begin

text \<open>
  \<open>lifecycle.rs\<close> and the resource types of \<open>app_state.rs\<close>: the registry of sessions, forwards,
  connections and transfers, and the guard that holds a reservation until it is activated or
  dropped.

  The registry is a hash map, here its entries in the order in which it is walked. A registry
  operation is one critical section of the registry's mutex. The check of \<open>Uuid::parse_str\<close> is the
  parameter \<open>is_uuid\<close>; the nonce \<open>Uuid::new_v4\<close> draws and the instant of a reservation are arguments.
\<close>

type_synonym nonce = nat

datatype resource_kind = SshSession | ResidentSession | Forward | Connection | Transfer

datatype resource_owner = Window str | Headless nat | Anonymous

datatype resource_phase = Pending | Ready | Closed

record resource_record =
  res_id :: str
  res_kind :: resource_kind
  res_owner :: resource_owner
  phase :: resource_phase
  res_nonce :: nonce
  reserved_at :: nat

type_synonym registry = "(str \<times> resource_record) list"

datatype lifecycle_error = AlreadyInUse str | NotFound str | InvalidId str | NonceMismatch str
  | NotPending str resource_phase

record reservation =
  held_id :: str
  held_nonce :: nonce
  armed :: bool

section \<open>Operations\<close>

text \<open>\<open>put\<close> is a write through \<open>get_mut\<close> or an insert.\<close>

definition put :: "str \<Rightarrow> resource_record \<Rightarrow> registry \<Rightarrow> registry" where
  "put i r reg = AList.update i r reg"

definition reserve ::
  "(str \<Rightarrow> bool) \<Rightarrow> nonce \<Rightarrow> nat \<Rightarrow> str \<Rightarrow> resource_kind \<Rightarrow> resource_owner \<Rightarrow> registry \<Rightarrow>
   (lifecycle_error + reservation) \<times> registry" where
  "reserve is_uuid n now i kind own reg =
     (if \<not> is_uuid i then (Inl (InvalidId i), reg)
      else let granted = (Inr \<lparr>held_id = i, held_nonce = n, armed = True\<rparr>,
              put i \<lparr>res_id = i, res_kind = kind, res_owner = own, phase = Pending, res_nonce = n,
                     reserved_at = now\<rparr> reg)
           in case map_of reg i of
                Some old \<Rightarrow> if phase old \<noteq> Closed then (Inl (AlreadyInUse i), reg) else granted
              | None \<Rightarrow> granted)"

definition activate :: "str \<Rightarrow> nonce \<Rightarrow> registry \<Rightarrow> lifecycle_error option \<times> registry" where
  "activate i n reg =
     (case map_of reg i of
        None \<Rightarrow> (Some (NotFound i), reg)
      | Some r \<Rightarrow>
          if res_nonce r \<noteq> n then (Some (NonceMismatch i), reg)
          else if phase r \<noteq> Pending then (Some (NotPending i (phase r)), reg)
          else (None, put i (r\<lparr>phase := Ready\<rparr>) reg))"

definition close :: "str \<Rightarrow> nonce option \<Rightarrow> registry \<Rightarrow> lifecycle_error option \<times> registry" where
  "close i n reg =
     (case map_of reg i of
        None \<Rightarrow> (Some (NotFound i), reg)
      | Some r \<Rightarrow>
          if n \<noteq> None \<and> n \<noteq> Some (res_nonce r) then (Some (NonceMismatch i), reg)
          else (None, put i (r\<lparr>phase := Closed\<rparr>) reg))"

definition list_by_phase :: "resource_phase \<Rightarrow> registry \<Rightarrow> resource_record list" where
  "list_by_phase ph reg = filter (\<lambda>r. phase r = ph) (map snd reg)"

definition list_by_owner :: "resource_owner \<Rightarrow> registry \<Rightarrow> resource_record list" where
  "list_by_owner own reg = filter (\<lambda>r. res_owner r = own) (map snd reg)"

definition mark_closed :: "registry \<Rightarrow> str \<Rightarrow> registry" where
  "mark_closed reg i =
     (case map_of reg i of None \<Rightarrow> reg | Some r \<Rightarrow> put i (r\<lparr>phase := Closed\<rparr>) reg)"

definition close_owner :: "resource_owner \<Rightarrow> str list \<Rightarrow> registry \<Rightarrow> str list \<times> registry" where
  "close_owner own keep reg =
     (let to_close = map fst (filter (\<lambda>(i, r). i \<notin> set keep)
            (filter (\<lambda>(i, r). res_owner r = own \<and> phase r \<noteq> Closed) reg))
      in (to_close, foldl mark_closed reg to_close))"

definition gc :: "registry \<Rightarrow> nat \<times> registry" where
  "gc reg = (let reg' = filter (\<lambda>(i, r). phase r \<noteq> Closed) reg in (length reg - length reg', reg'))"

text \<open>The guard: activation disarms it first, a drop closes what an armed guard reserved.\<close>

definition activate_guard :: "reservation \<Rightarrow> registry \<Rightarrow> lifecycle_error option \<times> registry" where
  "activate_guard g reg = activate (held_id g) (held_nonce g) reg"

definition drop_guard :: "reservation \<Rightarrow> registry \<Rightarrow> registry" where
  "drop_guard g reg =
     (if armed g then snd (close (held_id g) (Some (held_nonce g)) reg) else reg)"

section \<open>Runs of the registry\<close>

text \<open>
  The registry, the guards that are alive and the nonces drawn so far. A guard is owned by one
  caller, who activates it or drops it, once.
\<close>

record life_state =
  reg :: registry
  guards :: "reservation list"
  drawn :: "nonce list"

datatype life_call =
    Reserve "str \<Rightarrow> bool" nonce nat str resource_kind resource_owner
  | ActivateGuard reservation
  | DropGuard reservation
  | ActivateById str nonce
  | CloseById str "nonce option"
  | CloseOwner resource_owner "str list"
  | Collect

fun life_step :: "life_state \<Rightarrow> life_call \<Rightarrow> life_state" where
  "life_step s (Reserve is_uuid n now i kind own) =
     (case reserve is_uuid n now i kind own (reg s) of
        (Inl e, r) \<Rightarrow> s\<lparr>reg := r\<rparr>
      | (Inr g, r) \<Rightarrow> s\<lparr>reg := r, guards := g # guards s, drawn := n # drawn s\<rparr>)"
| "life_step s (ActivateGuard g) =
     s\<lparr>reg := snd (activate_guard g (reg s)), guards := removeAll g (guards s)\<rparr>"
| "life_step s (DropGuard g) =
     s\<lparr>reg := drop_guard g (reg s), guards := removeAll g (guards s)\<rparr>"
| "life_step s (ActivateById i n) = s\<lparr>reg := snd (activate i n (reg s))\<rparr>"
| "life_step s (CloseById i n) = s\<lparr>reg := snd (close i n (reg s))\<rparr>"
| "life_step s (CloseOwner own keep) = s\<lparr>reg := snd (close_owner own keep (reg s))\<rparr>"
| "life_step s Collect = s\<lparr>reg := snd (gc (reg s))\<rparr>"

text \<open>What the environment guarantees: random nonces do not repeat, a guard is used while alive.\<close>

fun life_enabled :: "life_state \<Rightarrow> life_call \<Rightarrow> bool" where
  "life_enabled s (Reserve is_uuid n now i kind own) \<longleftrightarrow> n \<notin> set (drawn s)"
| "life_enabled s (ActivateGuard g) \<longleftrightarrow> g \<in> set (guards s)"
| "life_enabled s (DropGuard g) \<longleftrightarrow> g \<in> set (guards s)"
| "life_enabled s _ \<longleftrightarrow> True"

text \<open>How far the resource reserved under an id with a nonce has come: 3 is closed, also when collected.\<close>

fun phase_rank :: "resource_phase \<Rightarrow> nat" where
  "phase_rank Pending = 1"
| "phase_rank Ready = 2"
| "phase_rank Closed = 3"

definition progress :: "life_state \<Rightarrow> str \<Rightarrow> nonce \<Rightarrow> nat" where
  "progress s i n =
     (if n \<notin> set (drawn s) then 0
      else case map_of (reg s) i of
             Some r \<Rightarrow> if res_nonce r = n then phase_rank (phase r) else 3
           | None \<Rightarrow> 3)"

definition advances :: "life_state \<Rightarrow> life_state \<Rightarrow> bool" where
  "advances s t \<longleftrightarrow> set (drawn s) \<subseteq> set (drawn t) \<and> (\<forall>i n. progress s i n \<le> progress t i n)"

definition guarded :: "life_state \<Rightarrow> bool" where
  "guarded s \<longleftrightarrow>
     distinct (map fst (reg s)) \<and> (\<forall>g \<in> set (guards s). armed g) \<and>
     (\<forall>i r. map_of (reg s) i = Some r \<longrightarrow>
        res_id r = i \<and> res_nonce r \<in> set (drawn s) \<and>
        (phase r = Pending \<longrightarrow> (\<exists>g \<in> set (guards s). held_id g = i \<and> held_nonce g = res_nonce r)))"

text \<open>What an operation other than a reservation may do to the entry of an id.\<close>

inductive moved :: "resource_record option \<Rightarrow> resource_record option \<Rightarrow> bool" where
  same: "moved r r"
| forward: "phase_rank (phase r) \<le> phase_rank p \<Longrightarrow> moved (Some r) (Some (r\<lparr>phase := p\<rparr>))"
| collected: "phase r = Closed \<Longrightarrow> moved (Some r) None"

inductive_cases moved_NoneE: "moved None r"
inductive_cases moved_SomeE: "moved (Some r) r'"

lemma phase_rank_Closed [simp]: "phase_rank p \<le> 3"
  by (cases p) auto

lemma phase_rank_pos [simp]: "1 \<le> phase_rank p"
  by (cases p) auto

lemma map_of_put [simp]: "map_of (put i r m) = (map_of m)(i \<mapsto> r)"
  by (simp add: put_def update_conv')

lemma distinct_put [simp]: "distinct (map fst m) \<Longrightarrow> distinct (map fst (put i r m))"
  by (simp add: put_def distinct_update)

lemma activate_moved: "moved (map_of m j) (map_of (snd (activate i n m)) j)"
  by (auto simp: activate_def intro: moved.same moved.forward split: option.splits)

lemma close_moved: "moved (map_of m j) (map_of (snd (close i n m)) j)"
  by (auto simp: close_def intro: moved.same moved.forward split: option.splits)

lemma map_of_mark_closed:
  "map_of (foldl mark_closed m is) j =
     (if j \<in> set is then map_option (\<lambda>r. r\<lparr>phase := Closed\<rparr>) (map_of m j) else map_of m j)"
proof (induction "is" arbitrary: m)
  case (Cons i "is")
  then show ?case by (cases "map_of m i"; cases "map_of m j") (auto simp: mark_closed_def)
qed simp

lemma close_owner_moved: "moved (map_of m j) (map_of (snd (close_owner own keep m)) j)"
  by (cases "map_of m j")
    (auto simp: close_owner_def Let_def map_of_mark_closed intro: moved.same moved.forward)

lemma map_of_gc:
  "distinct (map fst m) \<Longrightarrow>
   map_of (snd (gc m)) j =
     (case map_of m j of Some r \<Rightarrow> if phase r = Closed then None else Some r | None \<Rightarrow> None)"
  unfolding gc_def Let_def snd_conv
proof (induction m)
  case (Cons a m)
  then show ?case
    by (cases a) (auto split: option.splits dest: map_of_SomeD intro: rev_image_eqI)
qed simp

lemma gc_moved:
  "distinct (map fst m) \<Longrightarrow> moved (map_of m j) (map_of (snd (gc m)) j)"
  by (auto simp: map_of_gc intro: moved.intros split: option.splits)

lemma distinct_activate: "distinct (map fst m) \<Longrightarrow> distinct (map fst (snd (activate i n m)))"
  by (auto simp: activate_def split: option.splits)

lemma distinct_close: "distinct (map fst m) \<Longrightarrow> distinct (map fst (snd (close i n m)))"
  by (auto simp: close_def split: option.splits)

lemma distinct_close_owner:
  "distinct (map fst m) \<Longrightarrow> distinct (map fst (snd (close_owner own keep m)))"
proof -
  have "distinct (map fst m) \<Longrightarrow> distinct (map fst (foldl mark_closed m is))" for "is" m
    by (induction "is" arbitrary: m) (auto simp: mark_closed_def split: option.splits)
  then show "distinct (map fst m) \<Longrightarrow> ?thesis" by (simp add: close_owner_def Let_def)
qed

lemma distinct_gc: "distinct (map fst m) \<Longrightarrow> distinct (map fst (snd (gc m)))"
  by (simp add: gc_def Let_def distinct_map_filter)

lemmas registry_moved = activate_moved close_moved close_owner_moved gc_moved
lemmas registry_distinct = distinct_activate distinct_close distinct_close_owner distinct_gc

text \<open>A call that draws no nonce moves every entry of the registry and only consumes guards.\<close>

fun is_reserve :: "life_call \<Rightarrow> bool" where
  "is_reserve (Reserve is_uuid n now i kind own) \<longleftrightarrow> True"
| "is_reserve _ \<longleftrightarrow> False"

lemma life_step_moved:
  assumes "guarded s" "\<not> is_reserve e"
  shows "moved (map_of (reg s) j) (map_of (reg (life_step s e)) j)"
    and "drawn (life_step s e) = drawn s"
    and "distinct (map fst (reg (life_step s e)))"
  using assms
  by (cases e; auto simp: guarded_def activate_guard_def drop_guard_def registry_moved
      registry_distinct intro: moved.same)+

lemma moved_progress:
  assumes "moved (map_of (reg s) i) (map_of (reg t) i)" "drawn t = drawn s"
  shows "progress s i n \<le> progress t i n"
  using assms(1)
  by (cases rule: moved.cases) (use assms(2) in \<open>auto simp: progress_def split: option.splits\<close>)

lemma activated_not_pending:
  "map_of (snd (activate_guard g m)) (held_id g) = Some r \<Longrightarrow> res_nonce r = held_nonce g \<Longrightarrow>
     phase r \<noteq> Pending"
  by (auto simp: activate_guard_def activate_def split: option.splits if_splits)

lemma dropped_not_pending:
  "map_of (drop_guard g m) (held_id g) = Some r \<Longrightarrow> res_nonce r = held_nonce g \<Longrightarrow> armed g \<Longrightarrow>
     phase r \<noteq> Pending"
  by (auto simp: drop_guard_def close_def split: option.splits if_splits)

lemma moved_entry:
  assumes "moved x (Some r)"
  obtains q where "x = Some q" "res_id r = res_id q" "res_nonce r = res_nonce q"
    "phase r = Pending \<Longrightarrow> phase q = Pending"
proof -
  from assms have "\<exists>q. x = Some q \<and> res_id r = res_id q \<and> res_nonce r = res_nonce q \<and>
      (phase r = Pending \<longrightarrow> phase q = Pending)"
  proof (cases rule: moved.cases)
    case (forward q p)
    then show ?thesis by (cases p; cases "phase q") auto
  qed auto
  with that show thesis by blast
qed

lemma guards_left:
  assumes "guarded s" "life_enabled s e" "\<not> is_reserve e" "g \<in> set (guards s)"
    and "map_of (reg (life_step s e)) (held_id g) = Some r" "res_nonce r = held_nonce g"
    and "phase r = Pending"
  shows "g \<in> set (guards (life_step s e))"
  using assms
  by (cases e) (auto simp: guarded_def dest: activated_not_pending dropped_not_pending)

lemma guards_subset: "\<not> is_reserve e \<Longrightarrow> set (guards (life_step s e)) \<subseteq> set (guards s)"
  by (cases e) auto

lemma guardedE:
  assumes "guarded s" "map_of (reg s) i = Some r"
  shows "res_id r = i" "res_nonce r \<in> set (drawn s)"
    and "phase r = Pending \<Longrightarrow> \<exists>g \<in> set (guards s). held_id g = i \<and> held_nonce g = res_nonce r"
  using assms by (auto simp: guarded_def)

lemma reserve_cases:
  obtains (refused) e where "reserve is_uuid n now i kind own m = (Inl e, m)"
  | (granted) r where
      "reserve is_uuid n now i kind own m = (Inr \<lparr>held_id = i, held_nonce = n, armed = True\<rparr>, put i r m)"
      "res_id r = i" "res_nonce r = n" "phase r = Pending"
      "\<And>q. map_of m i = Some q \<Longrightarrow> phase q = Closed"
  by (cases "is_uuid i"; cases "map_of m i"; cases "phase (the (map_of m i)) = Closed")
    (auto simp: reserve_def Let_def)

lemma life_step_guarded:
  assumes inv: "guarded s" and en: "life_enabled s e"
  shows "guarded (life_step s e)"
proof (cases "is_reserve e")
  case True
  then obtain is_uuid n now i kind own where e: "e = Reserve is_uuid n now i kind own"
    by (cases e) auto
  show ?thesis
  proof (cases rule: reserve_cases [of is_uuid n now i kind own "reg s"])
    case (refused x)
    with inv e show ?thesis by (simp add: guarded_def)
  next
    case (granted r)
    with inv e show ?thesis by (auto simp: guarded_def)
  qed
next
  case False
  note moved = life_step_moved [OF inv False]
  show ?thesis
    unfolding guarded_def
  proof (intro conjI allI impI)
    show "distinct (map fst (reg (life_step s e)))" by (rule moved)
    show "\<forall>g \<in> set (guards (life_step s e)). armed g"
      using inv guards_subset [OF False] by (auto simp: guarded_def)
  next
    fix i r assume r: "map_of (reg (life_step s e)) i = Some r"
    with moved(1) [of i] obtain q where q: "map_of (reg s) i = Some q" "res_id r = res_id q"
        "res_nonce r = res_nonce q" "phase r = Pending \<Longrightarrow> phase q = Pending"
      by (metis moved_entry)
    note old = guardedE [OF inv q(1)]
    show "res_id r = i" "res_nonce r \<in> set (drawn (life_step s e))" using old q moved(2) by simp_all
    assume "phase r = Pending"
    with old(3) q obtain g where "g \<in> set (guards s)" "held_id g = i" "held_nonce g = res_nonce r"
      by auto
    with guards_left [OF inv en False, of g r] r \<open>phase r = Pending\<close>
    show "\<exists>g \<in> set (guards (life_step s e)). held_id g = i \<and> held_nonce g = res_nonce r" by auto
  qed
qed

lemma life_step_advances:
  assumes inv: "guarded s" and en: "life_enabled s e"
  shows "advances s (life_step s e)"
proof (cases "is_reserve e")
  case True
  then obtain is_uuid n now i kind own where e: "e = Reserve is_uuid n now i kind own"
    by (cases e) auto
  show ?thesis
  proof (cases rule: reserve_cases [of is_uuid n now i kind own "reg s"])
    case (refused x)
    with e show ?thesis by (simp add: advances_def)
  next
    case (granted r)
    have "progress s j k \<le> progress (life_step s e) j k" for j k
      using granted e en guardedE(2) [OF inv, of j]
      by (cases "map_of (reg s) j") (auto simp: progress_def)
    with granted e show ?thesis by (auto simp: advances_def)
  qed
next
  case False
  with life_step_moved [OF inv False] show ?thesis
    unfolding advances_def by (auto intro: moved_progress)
qed

interpretation lifecycle: progress_machine life_step life_enabled guarded advances
  by unfold_locales
    (auto simp: life_step_guarded life_step_advances, auto simp: advances_def, meson order.trans)

definition empty_registry :: life_state where
  "empty_registry = \<lparr>reg = [], guards = [], drawn = []\<rparr>"

text \<open>A guard whose id has a new holder can do nothing to it.\<close>

lemma stale_guard_powerless:
  assumes "map_of m (held_id g) = Some r" "res_nonce r \<noteq> held_nonce g"
  shows "activate_guard g m = (Some (NonceMismatch (held_id g)), m)" "drop_guard g m = m"
  using assms by (auto simp: activate_guard_def activate_def drop_guard_def close_def)

lemma empty_registry_guarded: "guarded empty_registry"
  by (simp add: guarded_def empty_registry_def)

text \<open>
  A reserved resource only moves forward. Whatever is reserved, activated, dropped,
  closed or collected later, also under the same id, what was reserved under an id with a nonce goes
  from pending to ready to closed and never back: a closed or collected one is never activated again
  by a stale guard.
\<close>

theorem resource_only_advances:
  assumes "admissible life_step life_enabled empty_registry (es @ fs)"
  shows "progress (foldl life_step empty_registry es) i n
           \<le> progress (foldl life_step empty_registry (es @ fs)) i n"
  using lifecycle.run_rel_between [OF empty_registry_guarded assms] by (simp add: advances_def)

text \<open>
  A pending record never outlives its guard. Every pending record of the registry
  belongs to a guard that is still alive, so a connection attempt that ends in any way leaves none.
\<close>

theorem pending_is_guarded:
  assumes "admissible life_step life_enabled empty_registry es"
    and "r \<in> set (list_by_phase Pending (reg (foldl life_step empty_registry es)))"
  shows "\<exists>g \<in> set (guards (foldl life_step empty_registry es)).
           held_id g = res_id r \<and> held_nonce g = res_nonce r \<and> armed g"
proof -
  let ?s = "foldl life_step empty_registry es"
  have inv: "guarded ?s" by (rule lifecycle.run_inv [OF empty_registry_guarded assms(1)])
  from assms(2) obtain i where "(i, r) \<in> set (reg ?s)" "phase r = Pending"
    by (auto simp: list_by_phase_def)
  with inv have "map_of (reg ?s) i = Some r" by (simp add: guarded_def)
  from guardedE [OF inv this] \<open>phase r = Pending\<close> inv show ?thesis by (auto simp: guarded_def)
qed

text \<open>
  \<open>close_owner\<close> closes exactly the open resources of the owner that are not kept. It
  returns their ids, leaves each of them closed, and changes no other entry.
\<close>

theorem close_owner_exact:
  assumes "distinct (map fst m)" "close_owner own keep m = (closed, m')"
  shows "(i \<in> set closed \<longleftrightarrow>
            (\<exists>r. map_of m i = Some r \<and> res_owner r = own \<and> phase r \<noteq> Closed \<and> i \<notin> set keep)) \<and>
         map_of m' i =
           (if i \<in> set closed then map_option (\<lambda>r. r\<lparr>phase := Closed\<rparr>) (map_of m i) else map_of m i)"
proof (rule conjI)
  have closed: "closed = map fst (filter (\<lambda>(i, r). i \<notin> set keep)
        (filter (\<lambda>(i, r). res_owner r = own \<and> phase r \<noteq> Closed) m))"
    and m': "m' = foldl mark_closed m closed"
    using assms(2) by (auto simp: close_owner_def Let_def)
  show "i \<in> set closed \<longleftrightarrow>
      (\<exists>r. map_of m i = Some r \<and> res_owner r = own \<and> phase r \<noteq> Closed \<and> i \<notin> set keep)"
    using assms(1) unfolding closed by (force simp: image_iff)
  show "map_of m' i =
      (if i \<in> set closed then map_option (\<lambda>r. r\<lparr>phase := Closed\<rparr>) (map_of m i) else map_of m i)"
    unfolding m' by (rule map_of_mark_closed)
qed

section \<open>Witnesses\<close>

definition any_id :: "str \<Rightarrow> bool" where
  "any_id i \<longleftrightarrow> i \<noteq> []"

text \<open>
  An attempt whose guard is dropped after the id was closed and reserved again, a second one that
  becomes ready, and a third still being set up.
\<close>

definition attempts :: "life_call list" where
  "attempts =
     [Reserve any_id 1 0 ''a'' SshSession (Window ''w''), CloseById ''a'' None,
      Reserve any_id 2 5 ''a'' SshSession (Window ''w''),
      DropGuard \<lparr>held_id = ''a'', held_nonce = 1, armed = True\<rparr>,
      ActivateGuard \<lparr>held_id = ''a'', held_nonce = 2, armed = True\<rparr>,
      Reserve any_id 3 6 ''b'' Forward Anonymous]"

definition shutdown_calls :: "life_call list" where
  "shutdown_calls = [CloseOwner (Window ''w'') [], Collect]"

lemma resource_only_advances_witness:
  "progress (foldl life_step empty_registry attempts) ''a'' 2
     \<le> progress (foldl life_step empty_registry (attempts @ shutdown_calls)) ''a'' 2 \<and>
   progress (foldl life_step empty_registry attempts) ''a'' 2 = 2"
proof -
  have "admissible life_step life_enabled empty_registry (attempts @ shutdown_calls)" by code_simp
  moreover have "progress (foldl life_step empty_registry attempts) ''a'' 2 = 2" by code_simp
  ultimately show ?thesis using resource_only_advances by blast
qed

lemma pending_is_guarded_witness:
  "\<exists>g \<in> set (guards (foldl life_step empty_registry attempts)).
     held_id g = ''b'' \<and> held_nonce g = 3 \<and> armed g"
proof -
  let ?r = "\<lparr>res_id = ''b'', res_kind = Forward, res_owner = Anonymous, phase = Pending,
             res_nonce = 3, reserved_at = 6\<rparr>"
  have "admissible life_step life_enabled empty_registry attempts" by code_simp
  moreover have "?r \<in> set (list_by_phase Pending (reg (foldl life_step empty_registry attempts)))"
    by code_simp
  ultimately show ?thesis using pending_is_guarded [of attempts ?r] by simp
qed

lemma close_owner_exact_witness:
  "''a'' \<in> set (fst (close_owner (Window ''w'') [''b''] (reg (foldl life_step empty_registry attempts)))) \<and>
   map_of (snd (close_owner (Window ''w'') [''b''] (reg (foldl life_step empty_registry attempts)))) ''b''
     = map_of (reg (foldl life_step empty_registry attempts)) ''b''"
proof -
  let ?m = "reg (foldl life_step empty_registry attempts)"
  have d: "distinct (map fst ?m)" by code_simp
  have a: "map_of ?m ''a'' = Some \<lparr>res_id = ''a'', res_kind = SshSession, res_owner = Window ''w'',
      phase = Ready, res_nonce = 2, reserved_at = 5\<rparr>"
    by code_simp
  show ?thesis
    using close_owner_exact [OF d, of "Window ''w''" "[''b'']"] a
    by (cases "close_owner (Window ''w'') [''b''] ?m") simp
qed

end
