(* ===== verification/Output_Capture.thy ===== *)
theory Output_Capture
  imports A2S_Prelude
begin

text \<open>
  \<open>exec_capture.rs\<close>: the bounded head-and-tail accumulator of a command's output. A stream arrives in
  chunks of any size; what is kept and what is reported as dropped depends on the bytes only.
\<close>

type_synonym byte = nat

record bounded_capture =
  head :: "byte list"
  tail :: "byte list"
  max_bytes :: nat
  head_bytes :: nat
  tail_bytes :: nat
  total :: nat

definition new_capture :: "nat \<Rightarrow> bounded_capture" where
  "new_capture n =
     \<lparr>head = [], tail = [], max_bytes = n, head_bytes = n div 2, tail_bytes = n - n div 2, total = 0\<rparr>"

definition append_rolling_tail :: "byte list \<Rightarrow> byte list \<Rightarrow> nat \<Rightarrow> byte list" where
  "append_rolling_tail old chunk max_tail =
     (if max_tail = 0 then old
      else if length chunk \<ge> max_tail then drop (length chunk - max_tail) chunk
      else let both = old @ chunk
           in if length both > max_tail then drop (length both - max_tail) both else both)"

definition push :: "byte list \<Rightarrow> bounded_capture \<Rightarrow> bounded_capture" where
  "push chunk c =
     (let c' = c\<lparr>total := total c + length chunk\<rparr>
      in if length (head c') < head_bytes c' then
           (let remaining = head_bytes c' - length (head c');
                n = min (length chunk) remaining;
                c'' = c'\<lparr>head := head c' @ take n chunk\<rparr>
            in if n < length chunk
               then c''\<lparr>tail := append_rolling_tail (tail c'') (drop n chunk) (tail_bytes c'')\<rparr>
               else c'')
         else c'\<lparr>tail := append_rolling_tail (tail c') chunk (tail_bytes c')\<rparr>)"

definition truncated :: "bounded_capture \<Rightarrow> bool" where
  "truncated c \<longleftrightarrow> total c > max_bytes c"

definition dropped_bytes :: "bounded_capture \<Rightarrow> nat" where
  "dropped_bytes c = total c - max_bytes c"

definition into_bytes :: "bounded_capture \<Rightarrow> byte list" where
  "into_bytes c = head c @ tail c"

section \<open>What a stream leaves\<close>

text \<open>The last \<open>n\<close> elements.\<close>

definition last_n :: "nat \<Rightarrow> 'a list \<Rightarrow> 'a list" where
  "last_n n xs = drop (length xs - n) xs"

lemma last_n_append: "last_n n (last_n n xs @ ys) = last_n n (xs @ ys)"
  by (cases "length xs \<le> n") (simp_all add: last_n_def add.commute)

lemma append_rolling_tail_last:
  "append_rolling_tail (last_n n xs) chunk n = last_n n (xs @ chunk)"
proof (cases "n = 0")
  case False
  have "append_rolling_tail (last_n n xs) chunk n = last_n n (last_n n xs @ chunk)"
    using False by (auto simp: append_rolling_tail_def last_n_def Let_def)
  then show ?thesis by (simp add: last_n_append)
qed (simp add: append_rolling_tail_def last_n_def)

text \<open>What the accumulator for \<open>n\<close> bytes holds of the bytes it was fed: the specification.\<close>

definition keeps :: "nat \<Rightarrow> byte list \<Rightarrow> bounded_capture" where
  "keeps n xs =
     (new_capture n)\<lparr>head := take (n div 2) xs, tail := last_n (n - n div 2) (drop (n div 2) xs),
       total := length xs\<rparr>"

lemma keeps_Nil: "keeps n [] = new_capture n"
  by (simp add: keeps_def new_capture_def last_n_def)

lemma push_keeps: "push chunk (keeps n xs) = keeps n (xs @ chunk)"
proof (cases "length xs < n div 2")
  case True
  then have "last_n (n - n div 2) [] = ([] :: byte list)" by (simp add: last_n_def)
  with True append_rolling_tail_last [of "n - n div 2" "[]" "drop (n div 2 - length xs) chunk"]
  show ?thesis
    by (auto simp: push_def keeps_def new_capture_def Let_def min_def last_n_def)
next
  case False
  then show ?thesis
    using append_rolling_tail_last [of "n - n div 2" "drop (n div 2) xs" chunk]
    by (auto simp: push_def keeps_def new_capture_def Let_def)
qed

lemma pushes_keep: "foldl (\<lambda>c chunk. push chunk c) (keeps n xs) chunks = keeps n (xs @ concat chunks)"
  by (induction chunks arbitrary: xs) (simp_all add: push_keeps)

text \<open>
  However a stream is cut into chunks, the capture holds its first half budget and
  its last half budget of bytes, the whole stream when it fits, never more than the budget, and the
  reported number of dropped bytes is exactly what is missing.
\<close>

theorem capture_exact:
  "let c = foldl (\<lambda>c chunk. push chunk c) (new_capture n) chunks; xs = concat chunks in
     into_bytes c = take (n div 2) xs @ last_n (n - n div 2) (drop (n div 2) xs) \<and>
     (into_bytes c = xs \<or> truncated c) \<and>
     length (into_bytes c) + dropped_bytes c = length xs \<and>
     length (into_bytes c) \<le> n"
proof -
  have c: "foldl (\<lambda>c chunk. push chunk c) (new_capture n) chunks = keeps n (concat chunks)"
    using pushes_keep [of n "[]" chunks] by (simp add: keeps_Nil)
  show ?thesis
    unfolding c Let_def
    by (auto simp: keeps_def into_bytes_def truncated_def dropped_bytes_def new_capture_def last_n_def)
qed

end
