(* ===== verification/Jump_Chain.thy ===== *)
theory Jump_Chain
  imports Host_Config
begin

text \<open>
  \<open>jump_chain.rs\<close>: the hops from a host back to the first jump host, with a bound on their number and
  the detection of cycles. The configuration is loaded again at every hop, so \<open>load\<close> gives what the
  load at a depth returns.
\<close>

definition MAX_CHAIN_DEPTH :: nat where
  "MAX_CHAIN_DEPTH = 8"

record jump_hop =
  hop_name :: str
  hop_host :: str
  hop_port :: nat

datatype jump_error =
    ChainTooDeep str
  | ChainCycle str "str list"
  | UnknownJumpHost str
  | JumpConfigUnreadable

definition hop_of :: "host_profile \<Rightarrow> jump_hop" where
  "hop_of h =
     \<lparr>hop_name = hp_name h, hop_host = hp_host h,
      hop_port = (case hp_port h of None \<Rightarrow> 22 | Some p \<Rightarrow> p)\<rparr>"

definition jump_name :: "host_profile \<Rightarrow> str option" where
  "jump_name h =
     (case hp_jump_host h of
        None \<Rightarrow> None
      | Some j \<Rightarrow> if trim j = [] then None else Some (trim j))"

text \<open>The error carries the names of the chain so far, from which the code formats the cycle.\<close>

function resolve_jump_chain_recursive ::
  "(nat \<Rightarrow> config option) \<Rightarrow> host_profile \<Rightarrow> jump_hop list \<Rightarrow> str set \<Rightarrow> nat \<Rightarrow>
   jump_error + jump_hop list" where
  "resolve_jump_chain_recursive load h chain visited depth =
     (if depth > MAX_CHAIN_DEPTH then Inl (ChainTooDeep (hp_name h))
      else if hp_name h \<in> visited then Inl (ChainCycle (hp_name h) (map hop_name chain))
      else case jump_name h of
        None \<Rightarrow> Inr (chain @ [hop_of h])
      | Some name \<Rightarrow>
          (case load depth of
             None \<Rightarrow> Inl JumpConfigUnreadable
           | Some hosts \<Rightarrow>
               (case List.find (\<lambda>p. hp_name p = name) hosts of
                  None \<Rightarrow> Inl (UnknownJumpHost name)
                | Some p \<Rightarrow>
                    resolve_jump_chain_recursive load p (chain @ [hop_of h])
                      (insert (hp_name h) visited) (depth + 1))))"
  by pat_completeness auto
termination
  by (relation "measure (\<lambda>(load, h, chain, visited, depth). MAX_CHAIN_DEPTH + 1 - depth)") auto

declare resolve_jump_chain_recursive.simps [simp del]

definition resolve_jump_chain ::
  "(nat \<Rightarrow> config option) \<Rightarrow> host_profile \<Rightarrow> jump_error + jump_hop list" where
  "resolve_jump_chain load h = resolve_jump_chain_recursive load h [] {} 0"

section \<open>Routes\<close>

text \<open>A route of a configuration: each profile names the next as its jump host, the last names none.\<close>

fun route :: "config \<Rightarrow> host_profile \<Rightarrow> host_profile list \<Rightarrow> bool" where
  "route hosts h [] \<longleftrightarrow> jump_name h = None"
| "route hosts h (p # ps) \<longleftrightarrow>
     (\<exists>name. jump_name h = Some name \<and> List.find (\<lambda>q. hp_name q = name) hosts = Some p) \<and>
     route hosts p ps"

lemma route_unique: "route hosts h ps \<Longrightarrow> route hosts h qs \<Longrightarrow> ps = qs"
proof (induction ps arbitrary: h qs)
  case Nil
  then show ?case by (cases qs) auto
next
  case (Cons p ps)
  then show ?case by (cases qs) auto
qed

lemma resolve_is_route:
  assumes "resolve_jump_chain_recursive (\<lambda>_. Some hosts) h chain visited depth = Inr hops"
  shows "\<exists>ps. route hosts h ps \<and> hops = chain @ map hop_of (h # ps) \<and>
    distinct (map hp_name (h # ps)) \<and> set (map hp_name (h # ps)) \<inter> visited = {} \<and>
    depth + length ps \<le> MAX_CHAIN_DEPTH"
  using assms
proof (induction "\<lambda>_ :: nat. Some hosts" h chain visited depth
    rule: resolve_jump_chain_recursive.induct)
  case (1 h chain visited depth)
  from "1.prems" have ok: "depth \<le> MAX_CHAIN_DEPTH" "hp_name h \<notin> visited"
    by (auto simp: resolve_jump_chain_recursive.simps [of _ h] split: if_splits)
  show ?case
  proof (cases "jump_name h")
    case None
    with "1.prems" ok show ?thesis
      by (intro exI [of _ "[]"]) (auto simp: resolve_jump_chain_recursive.simps [of _ h])
  next
    case (Some name)
    with "1.prems" ok obtain p where p: "List.find (\<lambda>p. hp_name p = name) hosts = Some p"
        "resolve_jump_chain_recursive (\<lambda>_. Some hosts) p (chain @ [hop_of h])
           (insert (hp_name h) visited) (depth + 1) = Inr hops"
      by (auto simp: resolve_jump_chain_recursive.simps [of _ h] split: option.splits)
    from "1.hyps" [OF _ _ Some refl p] ok obtain ps where "route hosts p ps"
        "hops = (chain @ [hop_of h]) @ map hop_of (p # ps)" "distinct (map hp_name (p # ps))"
        "set (map hp_name (p # ps)) \<inter> insert (hp_name h) visited = {}"
        "depth + 1 + length ps \<le> MAX_CHAIN_DEPTH"
      by auto
    with Some p(1) ok(2) show ?thesis by (intro exI [of _ "p # ps"]) auto
  qed
qed

lemma route_resolves:
  assumes "route hosts h ps" "distinct (map hp_name (h # ps))"
    and "set (map hp_name (h # ps)) \<inter> visited = {}" "depth + length ps \<le> MAX_CHAIN_DEPTH"
  shows "resolve_jump_chain_recursive (\<lambda>_. Some hosts) h chain visited depth =
    Inr (chain @ map hop_of (h # ps))"
  using assms
proof (induction ps arbitrary: h chain visited depth)
  case Nil
  then show ?case by (simp add: resolve_jump_chain_recursive.simps [of _ h])
next
  case (Cons p ps)
  then obtain name where "jump_name h = Some name" "List.find (\<lambda>q. hp_name q = name) hosts = Some p"
    by auto
  with Cons.prems
    Cons.IH [of p "insert (hp_name h) visited" "depth + 1" "chain @ [hop_of h]"]
  show ?case by (simp add: resolve_jump_chain_recursive.simps [of _ h])
qed

text \<open>
  The jump chain is resolved exactly when the route from the host ends, names no
  profile twice and has at most \<open>MAX_CHAIN_DEPTH\<close> jumps; it is then that route, from the host itself
  to the first entry point.
\<close>

theorem jump_chain_exact:
  "resolve_jump_chain (\<lambda>_. Some hosts) h = Inr hops \<longleftrightarrow>
     (\<exists>ps. route hosts h ps \<and> distinct (map hp_name (h # ps)) \<and> length ps \<le> MAX_CHAIN_DEPTH \<and>
       hops = map hop_of (h # ps))"
  using resolve_is_route [of hosts h "[]" "{}" 0 hops] route_resolves [of hosts h _ "{}" 0 "[]"]
  by (auto simp: resolve_jump_chain_def)

text \<open>So a chain has up to nine entries, one more than the comment on the bound says.\<close>

lemma jump_chain_length:
  "resolve_jump_chain (\<lambda>_. Some hosts) h = Inr hops \<Longrightarrow> length hops \<le> 9"
  by (auto simp: jump_chain_exact MAX_CHAIN_DEPTH_def)

end
