(* ===== verification/Batch_Exec.thy ===== *)
theory Batch_Exec
  imports Exec_Core "HOL-Library.Multiset"
begin

text \<open>
  \<open>core.rs\<close>: execution on several hosts, at once (\<open>exec_multi_core\<close>) or under a strategy that limits
  the concurrency, the failures and the size of a batch (\<open>exec_multi_with_strategy\<close>).

  The tasks of one batch are spawned into a join set and, with a concurrency limit, wait for a permit
  of a semaphore. The model is a state machine: a task starts when a permit is free and
  ends with a result, an error or a panic; the join set hands out results in the order of the ends.
  An event list is one interleaving of a batch. Results, durations and interleavings come from the
  environment; what each task does is \<open>exec_ssh_core\<close> of the theory \<open>Exec_Core\<close>.
\<close>

section \<open>Requests and results\<close>

record exec_multi_request =
  mr_hosts :: "str list"
  mr_command :: str
  mr_force :: bool
  mr_approved_hosts :: "str list"
  mr_timeout_secs :: "nat option"
  mr_tags :: "str list option"
  mr_reason :: "str option"
  mr_change_id :: "str option"
  mr_source :: "str option"

record exec_multi_result =
  em_host :: str
  em_result :: "exec_result option"
  em_error :: "str option"

record batch_strategy =
  st_concurrency :: "nat option"
  st_max_failures :: "nat option"
  st_batch_size :: "nat option"
  st_pause_secs :: "nat option"

record exec_multi_batch_result =
  br_results :: "exec_multi_result list"
  br_total_hosts :: nat
  br_successful :: nat
  br_failed :: nat
  br_skipped :: nat
  br_stopped_early :: bool
  br_batches_executed :: nat
  br_total_duration_ms :: nat

text \<open>The request of one task.\<close>

definition host_request :: "str option \<Rightarrow> exec_multi_request \<Rightarrow> str \<Rightarrow> exec_request" where
  "host_request env_var r host =
     \<lparr>rq_host = host, rq_command = mr_command r,
      rq_force = (mr_force r \<or> host \<in> set (mr_approved_hosts r)),
      rq_timeout_secs = mr_timeout_secs r, rq_stdin = None, rq_max_output_bytes = None,
      rq_reason = mr_reason r, rq_change_id = mr_change_id r, rq_side_effect = None,
      rq_source = opt_or (mr_source r) (Some (source_from_env env_var ''core''))\<rparr>"

section \<open>One join set\<close>

datatype task_end = Returned exec_result | Errored str | Panicked str

fun joined :: "exec_request \<Rightarrow> task_end \<Rightarrow> exec_multi_result" where
  "joined q (Returned r) = \<lparr>em_host = rq_host q, em_result = Some r, em_error = None\<rparr>"
| "joined q (Errored e) = \<lparr>em_host = rq_host q, em_result = None, em_error = Some e\<rparr>"
| "joined q (Panicked e) =
     \<lparr>em_host = ''unknown'', em_result = None, em_error = Some (''task panicked: '' @ e)\<rparr>"

record join_set =
  waiting :: "exec_request list"
  running :: "exec_request list"
  handed :: "exec_multi_result list"

datatype task_event = Start nat | End nat task_end

definition spawn_all :: "exec_request list \<Rightarrow> join_set" where
  "spawn_all qs = \<lparr>waiting = qs, running = [], handed = []\<rparr>"

text \<open>\<open>n\<close> permits; without a limit (\<open>n = 0\<close>) there is no semaphore.\<close>

fun task_enabled :: "nat \<Rightarrow> join_set \<Rightarrow> task_event \<Rightarrow> bool" where
  "task_enabled n s (Start i) \<longleftrightarrow> i < length (waiting s) \<and> (n = 0 \<or> length (running s) < n)"
| "task_enabled n s (End i e) \<longleftrightarrow> i < length (running s)"

definition remove_nth :: "nat \<Rightarrow> 'a list \<Rightarrow> 'a list" where
  "remove_nth i xs = take i xs @ drop (Suc i) xs"

fun task_step :: "join_set \<Rightarrow> task_event \<Rightarrow> join_set" where
  "task_step s (Start i) =
     s\<lparr>waiting := remove_nth i (waiting s), running := running s @ [waiting s ! i]\<rparr>"
| "task_step s (End i e) =
     s\<lparr>running := remove_nth i (running s), handed := handed s @ [joined (running s ! i) e]\<rparr>"

definition all_joined :: "join_set \<Rightarrow> bool" where
  "all_joined s \<longleftrightarrow> waiting s = [] \<and> running s = []"

definition join_all :: "exec_request list \<Rightarrow> task_event list \<Rightarrow> exec_multi_result list" where
  "join_all qs es = handed (foldl task_step (spawn_all qs) es)"

text \<open>The event list is a whole run of the batch.\<close>

definition complete_run :: "nat \<Rightarrow> exec_request list \<Rightarrow> task_event list \<Rightarrow> bool" where
  "complete_run n qs es \<longleftrightarrow>
     admissible task_step (task_enabled n) (spawn_all qs) es \<and>
     all_joined (foldl task_step (spawn_all qs) es)"

definition exec_multi_core ::
  "config option \<Rightarrow> str option \<Rightarrow> task_event list \<Rightarrow> exec_multi_request \<Rightarrow>
   resolve_error + exec_multi_result list" where
  "exec_multi_core config env_var run r =
     (case resolve_exec_targets config (mr_hosts r) (mr_tags r) of
        Inl e \<Rightarrow> Inl e
      | Inr hosts \<Rightarrow> Inr (join_all (map (host_request env_var r) hosts) run))"

section \<open>Batches\<close>

text \<open>\<open>slice::chunks\<close> panics for the size 0.\<close>

function chunks :: "nat \<Rightarrow> 'a list \<Rightarrow> 'a list list" where
  "chunks n xs = (if n = 0 \<or> xs = [] then [] else take n xs # chunks n (drop n xs))"
  by pat_completeness auto
termination by (relation "measure (\<lambda>(n, xs). length xs)") auto

declare chunks.simps [simp del]

definition chunks_of :: "nat \<Rightarrow> 'a list \<Rightarrow> 'a list list option" where
  "chunks_of n xs = (if n = 0 then None else Some (chunks n xs))"

definition limit_or_zero :: "batch_strategy option \<Rightarrow> (batch_strategy \<Rightarrow> nat option) \<Rightarrow> nat" where
  "limit_or_zero strategy field =
     (case Option.bind strategy field of Some n \<Rightarrow> n | None \<Rightarrow> 0)"

definition failures :: "exec_multi_result list \<Rightarrow> nat" where
  "failures rs = length (filter (\<lambda>r. em_result r = None) rs)"

definition successes :: "exec_multi_result list \<Rightarrow> nat" where
  "successes rs = length (filter (\<lambda>r. em_result r \<noteq> None) rs)"

record batch_progress =
  bp_results :: "exec_multi_result list"
  bp_failures :: nat
  bp_stopped :: bool
  bp_executed :: nat
  bp_slept :: nat

text \<open>The loop over the batches; \<open>bp_slept\<close> is the time it sleeps, in seconds.\<close>

fun run_batches ::
  "nat \<Rightarrow> nat \<Rightarrow> (nat \<Rightarrow> exec_request list \<Rightarrow> exec_multi_result list) \<Rightarrow> nat \<Rightarrow>
   exec_request list list \<Rightarrow> batch_progress \<Rightarrow> batch_progress" where
  "run_batches max_failures pause_secs join_batch idx [] p = p"
| "run_batches max_failures pause_secs join_batch idx (batch # batches) p =
     (let slept = (if idx > 0 \<and> pause_secs > 0 then bp_slept p + pause_secs else bp_slept p);
          results = join_batch idx batch;
          total_failures = bp_failures p + failures results;
          p' = \<lparr>bp_results = bp_results p @ results, bp_failures = total_failures,
                bp_stopped = False, bp_executed = bp_executed p + 1, bp_slept = slept\<rparr>
      in if max_failures > 0 \<and> total_failures \<ge> max_failures then p'\<lparr>bp_stopped := True\<rparr>
         else run_batches max_failures pause_secs join_batch (idx + 1) batches p')"

definition no_progress :: batch_progress where
  "no_progress = \<lparr>bp_results = [], bp_failures = 0, bp_stopped = False, bp_executed = 0, bp_slept = 0\<rparr>"

text \<open>
  \<open>order idx\<close> is the interleaving of the batch \<open>idx\<close>, \<open>elapsed\<close> the measured duration. The second
  component is the time slept. \<open>None\<close> is a panic.
\<close>

definition exec_multi_with_strategy ::
  "config option \<Rightarrow> str option \<Rightarrow> (nat \<Rightarrow> task_event list) \<Rightarrow> nat \<Rightarrow> exec_multi_request \<Rightarrow>
   batch_strategy option \<Rightarrow> ((resolve_error + exec_multi_batch_result) \<times> nat) option" where
  "exec_multi_with_strategy config env_var order elapsed r strategy =
     (case resolve_exec_targets config (mr_hosts r) (mr_tags r) of
        Inl e \<Rightarrow> Some (Inl e, 0)
      | Inr hosts \<Rightarrow>
          (let total_hosts = length hosts;
               concurrency = limit_or_zero strategy st_concurrency;
               max_failures = limit_or_zero strategy st_max_failures;
               batch_size = limit_or_zero strategy st_batch_size;
               pause_secs = limit_or_zero strategy st_pause_secs
           in if concurrency = 0 \<and> max_failures = 0 \<and> batch_size = 0 then
                let results = join_all (map (host_request env_var r) hosts) (order 0);
                    successful = successes results
                in Some (Inr \<lparr>br_results = results, br_total_hosts = total_hosts,
                     br_successful = successful, br_failed = length results - successful,
                     br_skipped = 0, br_stopped_early = False, br_batches_executed = 1,
                     br_total_duration_ms = elapsed\<rparr>, 0)
              else
                do {
                  batches \<leftarrow> chunks_of (if batch_size > 0 then batch_size else total_hosts)
                    (map (host_request env_var r) hosts);
                  let p = run_batches max_failures pause_secs (\<lambda>idx qs. join_all qs (order idx)) 0
                    batches no_progress;
                  Some (Inr \<lparr>br_results = bp_results p, br_total_hosts = total_hosts,
                    br_successful = successes (bp_results p), br_failed = failures (bp_results p),
                    br_skipped = total_hosts - length (bp_results p),
                    br_stopped_early = bp_stopped p, br_batches_executed = bp_executed p,
                    br_total_duration_ms = elapsed\<rparr>, bp_slept p)
                }))"

text \<open>Every batch runs to its end under the concurrency limit.\<close>

definition batches_of ::
  "config option \<Rightarrow> str option \<Rightarrow> exec_multi_request \<Rightarrow> batch_strategy option \<Rightarrow>
   exec_request list list" where
  "batches_of config env_var r strategy =
     (case resolve_exec_targets config (mr_hosts r) (mr_tags r) of
        Inl e \<Rightarrow> []
      | Inr hosts \<Rightarrow>
          (let size = limit_or_zero strategy st_batch_size
           in chunks (if size > 0 then size else length hosts) (map (host_request env_var r) hosts)))"

section \<open>The join set\<close>

lemma mset_remove_nth: "i < length xs \<Longrightarrow> add_mset (xs ! i) (mset (remove_nth i xs)) = mset xs"
proof -
  assume "i < length xs"
  then have "xs = take i xs @ xs ! i # drop (Suc i) xs" by (rule id_take_nth_drop)
  then have "mset xs = mset (take i xs @ xs ! i # drop (Suc i) xs)" by (rule arg_cong)
  then show ?thesis by (simp add: remove_nth_def)
qed

lemma length_remove_nth [simp]: "i < length xs \<Longrightarrow> length (remove_nth i xs) = length xs - 1"
  by (simp add: remove_nth_def)

text \<open>One result for each request: the list \<open>rs\<close> joins every request of \<open>qs\<close> exactly once.\<close>

definition answers :: "exec_request list \<Rightarrow> exec_multi_result list \<Rightarrow> bool" where
  "answers qs rs \<longleftrightarrow> (\<exists>ps. rs = map (\<lambda>(q, e). joined q e) ps \<and> mset (map fst ps) = mset qs)"

definition join_inv :: "nat \<Rightarrow> exec_request list \<Rightarrow> join_set \<Rightarrow> bool" where
  "join_inv n qs s \<longleftrightarrow>
     (n = 0 \<or> length (running s) \<le> n) \<and>
     (\<exists>ps. handed s = map (\<lambda>(q, e). joined q e) ps \<and>
       mset (map fst ps) + mset (waiting s) + mset (running s) = mset qs)"

lemma join_inv_step:
  assumes "join_inv n qs s" "task_enabled n s e"
  shows "join_inv n qs (task_step s e)"
proof -
  from assms(1) obtain ps where ps: "handed s = map (\<lambda>(q, e). joined q e) ps"
      "mset (map fst ps) + mset (waiting s) + mset (running s) = mset qs"
    and limit: "n = 0 \<or> length (running s) \<le> n"
    by (auto simp: join_inv_def)
  show ?thesis
  proof (cases e)
    case (Start i)
    with assms(2) have i: "i < length (waiting s)" and room: "n = 0 \<or> length (running s) < n" by auto
    have "mset (map fst ps) + mset (waiting (task_step s e)) + mset (running (task_step s e)) = mset qs"
      using ps(2) unfolding mset_remove_nth [OF i, symmetric] by (simp add: Start)
    moreover have "n = 0 \<or> length (running (task_step s e)) \<le> n"
      using room by (auto simp: Start)
    ultimately show ?thesis using ps(1) unfolding join_inv_def by (auto simp: Start)
  next
    case (End i r)
    with assms(2) have i: "i < length (running s)" by simp
    let ?ps = "ps @ [(running s ! i, r)]"
    have "handed (task_step s e) = map (\<lambda>(q, e). joined q e) ?ps"
      using ps(1) by (simp add: End)
    moreover have "mset (map fst ?ps) + mset (waiting (task_step s e)) + mset (running (task_step s e)) =
        mset qs"
      using ps(2) unfolding mset_remove_nth [OF i, symmetric] by (simp add: End)
    moreover have "n = 0 \<or> length (running (task_step s e)) \<le> n"
      using limit i by (auto simp: End)
    ultimately show ?thesis unfolding join_inv_def by blast
  qed
qed

interpretation join_machine: state_machine task_step "task_enabled n" "join_inv n qs" for n qs
  by unfold_locales (rule join_inv_step)

lemma join_inv_start: "join_inv n qs (spawn_all qs)"
  by (simp add: join_inv_def spawn_all_def)

lemma complete_run_answers:
  assumes "complete_run n qs es"
  shows "answers qs (join_all qs es)"
proof -
  have "join_inv n qs (foldl task_step (spawn_all qs) es)"
    using join_machine.run_inv [OF join_inv_start] assms by (auto simp: complete_run_def)
  with assms show ?thesis
    by (auto simp: complete_run_def all_joined_def join_inv_def answers_def join_all_def)
qed

lemma task_work:
  "admissible task_step (task_enabled n) s es \<Longrightarrow>
   length es + 2 * length (waiting (foldl task_step s es)) + length (running (foldl task_step s es)) =
   2 * length (waiting s) + length (running s)"
proof (induction es arbitrary: s)
  case (Cons e es)
  then show ?case by (cases e) (auto simp: Cons.IH)
qed simp

text \<open>
  A batch always runs to its end. However its tasks are interleaved, no more tasks than
  permitted run at once, every task starts once and ends once, and unless all are joined one of
  them can go on: a waiting task never waits for a permit that nobody holds.
\<close>

theorem batch_never_stuck:
  assumes "admissible task_step (task_enabled n) (spawn_all qs) es"
  shows "let s = foldl task_step (spawn_all qs) es in
    (n = 0 \<or> length (running s) \<le> n) \<and> length es \<le> 2 * length qs \<and>
    (all_joined s \<longleftrightarrow> length es = 2 * length qs) \<and> (all_joined s \<or> (\<exists>e. task_enabled n s e))"
proof -
  let ?s = "foldl task_step (spawn_all qs) es"
  have inv: "join_inv n qs ?s" using join_machine.run_inv [OF join_inv_start] assms by blast
  have work: "length es + 2 * length (waiting ?s) + length (running ?s) = 2 * length qs"
    using task_work [OF assms] by (simp add: spawn_all_def)
  have "\<exists>e. task_enabled n ?s e" if "\<not> all_joined ?s"
  proof (cases "running ?s = []")
    case True
    with that have "task_enabled n ?s (Start 0)" by (auto simp: all_joined_def)
    then show ?thesis ..
  next
    case False
    then have "task_enabled n ?s (End 0 r)" for r by simp
    then show ?thesis by blast
  qed
  with inv work show ?thesis by (auto simp: Let_def join_inv_def all_joined_def)
qed

definition demo_run :: "task_event list" where
  "demo_run = [Start 1, End 0 (Errored ''no route''), Start 0, End 0 (Panicked ''overflow'')]"

definition demo_multi :: exec_multi_request where
  "demo_multi = \<lparr>mr_hosts = [''a'', ''b'', ''c''], mr_command = ''uptime'', mr_force = False,
     mr_approved_hosts = [''b''], mr_timeout_secs = None, mr_tags = None, mr_reason = None,
     mr_change_id = None, mr_source = Some ''cli''\<rparr>"

lemma batch_never_stuck_witness:
  "length (running (foldl task_step (spawn_all (map (host_request None demo_multi) [''a'', ''b'']))
     (take 3 demo_run))) \<le> 1"
proof -
  have "admissible task_step (task_enabled 1) (spawn_all (map (host_request None demo_multi) [''a'', ''b'']))
      (take 3 demo_run)"
    by (simp add: demo_run_def spawn_all_def remove_nth_def)
  from batch_never_stuck [OF this] show ?thesis by (simp add: Let_def)
qed

section \<open>The loop over the batches\<close>

lemma answers_Nil [simp]: "answers [] []"
  by (simp add: answers_def)

lemma answers_append: "answers qs rs \<Longrightarrow> answers qs' rs' \<Longrightarrow> answers (qs @ qs') (rs @ rs')"
proof -
  assume "answers qs rs" "answers qs' rs'"
  then obtain ps ps' where "rs = map (\<lambda>(q, e). joined q e) ps" "mset (map fst ps) = mset qs"
      "rs' = map (\<lambda>(q, e). joined q e) ps'" "mset (map fst ps') = mset qs'"
    by (auto simp: answers_def)
  then show ?thesis unfolding answers_def by (intro exI [of _ "ps @ ps'"]) simp
qed

lemma answers_length: "answers qs rs \<Longrightarrow> length rs = length qs"
proof -
  assume "answers qs rs"
  then obtain ps where "rs = map (\<lambda>(q, e). joined q e) ps" "mset (map fst ps) = mset qs"
    by (auto simp: answers_def)
  then show ?thesis using mset_eq_length [of "map fst ps" qs] by simp
qed

lemma failures_append [simp]: "failures (rs @ rs') = failures rs + failures rs'"
  by (simp add: failures_def)

lemma failures_le: "failures rs \<le> length rs"
  by (simp add: failures_def)

lemma successes_failures: "successes rs + failures rs = length rs"
  using sum_length_filter_compl [of "\<lambda>r. em_result r \<noteq> None" rs]
  by (simp add: successes_def failures_def)

lemma concat_take_chunks: "n > 0 \<Longrightarrow> concat (take k (chunks n xs)) = take (k * n) xs"
proof (induction n xs arbitrary: k rule: chunks.induct)
  case (1 n xs)
  show ?case
  proof (cases "xs = [] \<or> k = 0")
    case True
    with 1(2) show ?thesis by (auto simp: chunks.simps [of n xs])
  next
    case False
    then obtain j where k: "k = Suc j" by (cases k) auto
    from False 1(2) have "chunks n xs = take n xs # chunks n (drop n xs)"
      by (simp add: chunks.simps [of n xs])
    moreover have "concat (take j (chunks n (drop n xs))) = take (j * n) (drop n xs)"
      using False 1(2) by (intro 1(1)) auto
    ultimately show ?thesis by (simp add: k take_add)
  qed
qed

lemma chunks_bounded: "b \<in> set (chunks n xs) \<Longrightarrow> length b \<le> n"
  by (induction n xs rule: chunks.induct) (subst (asm) (2) chunks.simps, auto split: if_splits)

lemma concat_chunks: "n > 0 \<Longrightarrow> concat (chunks n xs) = xs"
  by (induction n xs rule: chunks.induct) (subst chunks.simps, auto)

text \<open>The progress after the loop, for any way to join the batches.\<close>

definition batch_end ::
  "nat \<Rightarrow> nat \<Rightarrow> exec_request list list \<Rightarrow> batch_progress \<Rightarrow> batch_progress \<Rightarrow> nat \<Rightarrow> bool" where
  "batch_end max_failures bsize batches p p' k \<longleftrightarrow>
     k \<le> length batches \<and>
     (\<exists>rs. bp_results p' = bp_results p @ rs \<and> answers (concat (take k batches)) rs) \<and>
     bp_failures p' = failures (bp_results p') \<and>
     bp_executed p' = bp_executed p + k \<and>
     (bp_stopped p' \<longleftrightarrow> max_failures > 0 \<and> bp_failures p' \<ge> max_failures) \<and>
     (bp_stopped p' \<or> k = length batches) \<and>
     (max_failures = 0 \<or> bp_failures p' < max_failures + bsize)"

lemma run_batches_end:
  assumes "\<And>i. i < length batches \<Longrightarrow> answers (batches ! i) (join_batch (idx + i) (batches ! i))"
    and "\<And>b. b \<in> set batches \<Longrightarrow> length b \<le> bsize"
    and "bp_failures p = failures (bp_results p)" "\<not> bp_stopped p"
    and "max_failures = 0 \<or> bp_failures p < max_failures"
  shows "\<exists>k. batch_end max_failures bsize batches p
    (run_batches max_failures pause_secs join_batch idx batches p) k"
  using assms
proof (induction batches arbitrary: idx p)
  case Nil
  then show ?case by (auto simp: batch_end_def)
next
  case (Cons b bs)
  let ?rs = "join_batch idx b"
  let ?total = "bp_failures p + failures ?rs"
  let ?p = "\<lparr>bp_results = bp_results p @ ?rs, bp_failures = ?total, bp_stopped = False,
      bp_executed = bp_executed p + 1,
      bp_slept = if idx > 0 \<and> pause_secs > 0 then bp_slept p + pause_secs else bp_slept p\<rparr>"
  have ans: "answers b ?rs" using Cons.prems(1) [of 0] by simp
  have few: "failures ?rs \<le> bsize"
    using failures_le [of ?rs] answers_length [OF ans] Cons.prems(2) [of b] by simp
  show ?case
  proof (cases "max_failures > 0 \<and> ?total \<ge> max_failures")
    case True
    with ans few Cons.prems(3,5)
    have "batch_end max_failures bsize (b # bs) p (?p\<lparr>bp_stopped := True\<rparr>) 1"
      by (auto simp: batch_end_def)
    with True show ?thesis by (auto simp: Let_def)
  next
    case False
    let ?rest = "run_batches max_failures pause_secs join_batch (idx + 1) bs ?p"
    have "\<exists>k. batch_end max_failures bsize bs ?p ?rest k"
    proof (rule Cons.IH)
      show "answers (bs ! i) (join_batch (idx + 1 + i) (bs ! i))" if "i < length bs" for i
        using Cons.prems(1) [of "Suc i"] that by simp
    qed (use Cons.prems(2,3) False in auto)
    then obtain k where k: "batch_end max_failures bsize bs ?p ?rest k" ..
    then obtain rs where rs: "bp_results ?rest = bp_results ?p @ rs" "answers (concat (take k bs)) rs"
      by (auto simp: batch_end_def)
    have "answers (concat (take (Suc k) (b # bs))) (?rs @ rs)"
      using answers_append [OF ans rs(2)] by simp
    moreover have "bp_results ?rest = bp_results p @ (?rs @ rs)" using rs(1) by simp
    ultimately have "batch_end max_failures bsize (b # bs) p ?rest (Suc k)"
      using k unfolding batch_end_def by (auto simp del: run_batches.simps)
    moreover have "run_batches max_failures pause_secs join_batch idx (b # bs) p = ?rest"
      using False by (simp only: run_batches.simps Let_def if_False)
    ultimately show ?thesis by auto
  qed
qed

text \<open>Every batch of the request runs to its end.\<close>

definition runs_complete ::
  "config option \<Rightarrow> str option \<Rightarrow> (nat \<Rightarrow> task_event list) \<Rightarrow> exec_multi_request \<Rightarrow>
   batch_strategy option \<Rightarrow> bool" where
  "runs_complete config env_var order r strategy \<longleftrightarrow>
     list_all (\<lambda>(i, b). complete_run (limit_or_zero strategy st_concurrency) b (order i))
       (List.enumerate 0 (batches_of config env_var r strategy))"

lemma runs_completeD:
  assumes "runs_complete config env_var order r strategy"
    and "i < length (batches_of config env_var r strategy)"
  shows "complete_run (limit_or_zero strategy st_concurrency) (batches_of config env_var r strategy ! i)
    (order i)"
  using assms by (auto simp: runs_complete_def list_all_length nth_enumerate_eq)

lemma strategy_end:
  assumes hosts: "resolve_exec_targets config (mr_hosts r) (mr_tags r) = Inr hosts"
    and runs: "runs_complete config env_var order r strategy"
  defines "n \<equiv> (if limit_or_zero strategy st_batch_size > 0 then limit_or_zero strategy st_batch_size
      else length hosts)"
  shows "\<exists>b t p k. exec_multi_with_strategy config env_var order elapsed r strategy = Some (Inr b, t) \<and>
    batch_end (limit_or_zero strategy st_max_failures) n
      (chunks n (map (host_request env_var r) hosts)) no_progress p k \<and>
    br_results b = bp_results p \<and> br_stopped_early b = bp_stopped p \<and>
    br_batches_executed b = bp_executed p \<and> br_total_hosts b = length hosts \<and>
    br_successful b = successes (br_results b) \<and> br_failed b = failures (br_results b) \<and>
    br_skipped b = length hosts - length (br_results b)"
proof -
  let ?qs = "map (host_request env_var r) hosts"
  let ?max = "limit_or_zero strategy st_max_failures"
  have some: "hosts \<noteq> []" using hosts
    by (auto simp: resolve_exec_targets_def split: sum.splits if_splits)
  then have n: "n > 0" by (simp add: n_def)
  have batches: "batches_of config env_var r strategy = chunks n ?qs"
    using hosts by (simp add: batches_of_def n_def Let_def)
  have ans: "answers (chunks n ?qs ! i) (join_all (chunks n ?qs ! i) (order i))"
    if "i < length (chunks n ?qs)" for i
    using runs_completeD [OF runs] that unfolding batches by (blast intro: complete_run_answers)
  show ?thesis
  proof (cases "limit_or_zero strategy st_concurrency = 0 \<and> ?max = 0 \<and> limit_or_zero strategy st_batch_size = 0")
    case True
    then have one: "chunks n ?qs = [?qs]"
      using some by (simp add: n_def chunks.simps [of _ "_ # _"] chunks.simps [of _ "[]"] neq_Nil_conv
          chunks.simps [of "length hosts" ?qs])
    let ?rs = "join_all ?qs (order 0)"
    have "answers ?qs ?rs" using ans [of 0] one by simp
    then have "batch_end ?max n (chunks n ?qs) no_progress
        \<lparr>bp_results = ?rs, bp_failures = failures ?rs, bp_stopped = False, bp_executed = 1, bp_slept = 0\<rparr> 1"
      using True by (simp add: batch_end_def one no_progress_def)
    moreover have "length ?rs = length hosts" using answers_length [OF \<open>answers ?qs ?rs\<close>] by simp
    moreover have "failures ?rs = length ?rs - successes ?rs" using successes_failures [of ?rs] by simp
    ultimately show ?thesis
      using hosts True by (fastforce simp: exec_multi_with_strategy_def Let_def)
  next
    case False
    have "\<exists>k. batch_end ?max n (chunks n ?qs) no_progress
        (run_batches ?max (limit_or_zero strategy st_pause_secs) (\<lambda>idx qs. join_all qs (order idx)) 0
          (chunks n ?qs) no_progress) k"
      by (rule run_batches_end) (use ans in \<open>auto simp: no_progress_def failures_def dest: chunks_bounded\<close>)
    then obtain k where k: "batch_end ?max n (chunks n ?qs) no_progress
        (run_batches ?max (limit_or_zero strategy st_pause_secs) (\<lambda>idx qs. join_all qs (order idx)) 0
          (chunks n ?qs) no_progress) k" (is "batch_end _ _ _ _ ?p _") ..
    have eq: "exec_multi_with_strategy config env_var order elapsed r strategy =
        Some (Inr \<lparr>br_results = bp_results ?p, br_total_hosts = length hosts,
          br_successful = successes (bp_results ?p), br_failed = failures (bp_results ?p),
          br_skipped = length hosts - length (bp_results ?p), br_stopped_early = bp_stopped ?p,
          br_batches_executed = bp_executed ?p, br_total_duration_ms = elapsed\<rparr>, bp_slept ?p)"
      using False hosts n by (auto simp: exec_multi_with_strategy_def Let_def chunks_of_def n_def)
    show ?thesis by (intro exI conjI, rule eq, rule k) simp_all
  qed
qed

text \<open>
  A batched execution loses no host. It returns, never panicking, and the results are
  one for each host of the first batches, each from that host's request; the counts add up, and
  hosts are skipped only when it stopped early.
\<close>

theorem batch_accounts_for_hosts:
  assumes "resolve_exec_targets config (mr_hosts r) (mr_tags r) = Inr hosts"
    and "runs_complete config env_var order r strategy"
  shows "\<exists>b t m. exec_multi_with_strategy config env_var order elapsed r strategy = Some (Inr b, t) \<and>
    answers (map (host_request env_var r) (take m hosts)) (br_results b) \<and>
    br_successful b + br_failed b = length (br_results b) \<and>
    length (br_results b) + br_skipped b = length hosts \<and> br_total_hosts b = length hosts \<and>
    (br_skipped b = 0 \<or> br_stopped_early b)"
proof -
  let ?n = "if limit_or_zero strategy st_batch_size > 0 then limit_or_zero strategy st_batch_size
      else length hosts"
  let ?qs = "map (host_request env_var r) hosts"
  from strategy_end [OF assms, of elapsed] obtain b t p k where b:
      "exec_multi_with_strategy config env_var order elapsed r strategy = Some (Inr b, t)"
      "batch_end (limit_or_zero strategy st_max_failures) ?n (chunks ?n ?qs) no_progress p k"
      "br_results b = bp_results p" "br_stopped_early b = bp_stopped p" "br_total_hosts b = length hosts"
      "br_successful b = successes (br_results b)" "br_failed b = failures (br_results b)"
      "br_skipped b = length hosts - length (br_results b)"
    by blast
  have "hosts \<noteq> []" using assms(1)
    by (auto simp: resolve_exec_targets_def split: sum.splits if_splits)
  then have n: "?n > 0" by simp
  have ans: "answers (map (host_request env_var r) (take (k * ?n) hosts)) (br_results b)"
    using b(2,3) concat_take_chunks [OF n, of k ?qs]
    by (auto simp: batch_end_def no_progress_def take_map)
  then have len: "length (br_results b) = length (take (k * ?n) hosts)" using answers_length by fastforce
  have full: "length (br_results b) = length hosts" if "\<not> br_stopped_early b"
  proof -
    from that b(2,4) have "take k (chunks ?n ?qs) = chunks ?n ?qs" by (auto simp: batch_end_def)
    then have "take (k * ?n) ?qs = ?qs"
      using concat_take_chunks [OF n, of k ?qs] concat_chunks [OF n, of ?qs] by metis
    then have "length (take (k * ?n) ?qs) = length ?qs" by (rule arg_cong)
    then show ?thesis using len by (simp only: take_map length_map)
  qed
  then have "br_skipped b = 0 \<or> br_stopped_early b" using b(8) by auto
  moreover have "length (br_results b) \<le> length hosts" using len by simp
  ultimately show ?thesis
    using b ans successes_failures [of "br_results b"] by fastforce
qed

text \<open>
  A rollout stops in time. With a failure limit, the batches stop exactly when the limit
  is reached, so that no more than the last batch fails beyond it.
\<close>

theorem batch_stops_in_time:
  assumes "resolve_exec_targets config (mr_hosts r) (mr_tags r) = Inr hosts"
    and "runs_complete config env_var order r strategy"
    and "limit_or_zero strategy st_max_failures = m" "limit_or_zero strategy st_batch_size = n"
    and "m > 0" "n > 0"
  shows "\<exists>b t. exec_multi_with_strategy config env_var order elapsed r strategy = Some (Inr b, t) \<and>
    br_failed b < m + n \<and> (br_stopped_early b \<longleftrightarrow> br_failed b \<ge> m)"
  using strategy_end [OF assms(1,2), of elapsed] assms(3-)
  by (fastforce simp: batch_end_def no_progress_def)

definition demo_strategy :: batch_strategy where
  "demo_strategy = \<lparr>st_concurrency = Some 1, st_max_failures = Some 1, st_batch_size = Some 2,
     st_pause_secs = Some 5\<rparr>"

definition demo_order :: "nat \<Rightarrow> task_event list" where
  "demo_order i = (if i = 0 then demo_run else [Start 0, End 0 (Errored ''refused'')])"

lemma demo_runs:
  "resolve_exec_targets (Some []) (mr_hosts demo_multi) (mr_tags demo_multi) = Inr [''a'', ''b'', ''c'']"
  "runs_complete (Some []) None demo_order demo_multi (Some demo_strategy)"
  "limit_or_zero (Some demo_strategy) st_max_failures = 1"
  "limit_or_zero (Some demo_strategy) st_batch_size = 2"
  by (simp_all add: resolve_exec_targets_def expand_hosts_by_tags_def demo_multi_def runs_complete_def
      batches_of_def limit_or_zero_def demo_strategy_def Let_def chunks.simps complete_run_def spawn_all_def
      remove_nth_def all_joined_def demo_order_def demo_run_def)

lemma batch_accounts_for_hosts_witness:
  "\<exists>b t. exec_multi_with_strategy (Some []) None demo_order 0 demo_multi (Some demo_strategy) = Some (Inr b, t) \<and>
    length (br_results b) + br_skipped b = 3"
  using batch_accounts_for_hosts [OF demo_runs(1,2), of 0] by auto

lemma batch_stops_in_time_witness:
  "\<exists>b t. exec_multi_with_strategy (Some []) None demo_order 0 demo_multi (Some demo_strategy) = Some (Inr b, t) \<and>
    br_failed b < 3 \<and> (br_stopped_early b \<longleftrightarrow> br_failed b \<ge> 1)"
  using batch_stops_in_time [OF demo_runs, of 0] by (simp add: numeral_3_eq_3)

end
