(* ===== verification/Result_Compare.thy ===== *)
theory Result_Compare
  imports Batch_Exec Approval_Journal
begin

text \<open>
  \<open>core.rs\<close>: comparison of the results of several hosts (\<open>compare_exec_results\<close>). A hash map is the
  association list of its entries in an order the program does not choose: \<open>shuffle\<close> is that choice.
\<close>

record exit_code_group =
  eg_exit_code :: "int option"
  eg_hosts :: "str list"

record output_diff =
  od_host :: str
  od_output_summary :: str
  od_differs_from_first :: bool

record output_comparison =
  oc_identical :: bool
  oc_common_prefix :: str
  oc_diffs :: "output_diff list"

record exec_comparison =
  ec_hosts_count :: nat
  ec_exit_code_groups :: "exit_code_group list"
  ec_stdout_comparison :: output_comparison
  ec_stderr_comparison :: output_comparison
  ec_summary :: str

definition COMPARISON_SUMMARY_LINES :: nat where
  "COMPARISON_SUMMARY_LINES = 10"

section \<open>Common prefixes\<close>

text \<open>The number of leading characters two strings share.\<close>

definition common_chars :: "str \<Rightarrow> str \<Rightarrow> nat" where
  "common_chars a b = length (takeWhile (\<lambda>(x, y). x = y) (zip (chars a) (chars b)))"

definition longest_common_prefix :: "str list \<Rightarrow> str" where
  "longest_common_prefix strings =
     (case strings of
        [] \<Rightarrow> []
      | [s] \<Rightarrow> s
      | first # rest \<Rightarrow>
          (let prefix_len = foldl (\<lambda>n s. min n (common_chars first s)) (length first) rest
           in concat (take prefix_len (chars first))))"

section \<open>Outputs\<close>

definition outputs_of :: "exec_multi_result list \<Rightarrow> (exec_result \<Rightarrow> str) \<Rightarrow> (str \<times> str) list" where
  "outputs_of results extract =
     concat (map (\<lambda>r. case em_result r of Some res \<Rightarrow> [(em_host r, extract res)] | None \<Rightarrow> []) results)"

definition no_outputs :: output_comparison where
  "no_outputs = \<lparr>oc_identical = True, oc_common_prefix = [], oc_diffs = []\<rparr>"

definition compare_outputs :: "exec_multi_result list \<Rightarrow> (exec_result \<Rightarrow> str) \<Rightarrow> output_comparison" where
  "compare_outputs results extract =
     (case outputs_of results extract of
        [] \<Rightarrow> no_outputs
      | (host0, first_output) # rest \<Rightarrow>
          (let outputs = (host0, first_output) # rest
           in \<lparr>oc_identical = list_all (\<lambda>(_, s). s = first_output) outputs,
               oc_common_prefix = longest_common_prefix (map snd outputs),
               oc_diffs = map (\<lambda>(host, output).
                 \<lparr>od_host = host,
                  od_output_summary = join [newline] (take COMPARISON_SUMMARY_LINES (str_lines output)),
                  od_differs_from_first = (output \<noteq> first_output)\<rparr>) outputs\<rparr>))"

section \<open>Exit codes\<close>

definition exit_code_of :: "exec_multi_result \<Rightarrow> int option" where
  "exit_code_of r = (case em_result r of Some res \<Rightarrow> er_exit_code res | None \<Rightarrow> None)"

text \<open>\<open>map.entry(code).or_default().push(host)\<close>\<close>

fun push_entry :: "'k \<Rightarrow> 'v \<Rightarrow> ('k \<times> 'v list) list \<Rightarrow> ('k \<times> 'v list) list" where
  "push_entry k v [] = [(k, [v])]"
| "push_entry k v ((l, vs) # m) = (if k = l then (l, vs @ [v]) # m else (l, vs) # push_entry k v m)"

definition exit_code_map :: "exec_multi_result list \<Rightarrow> (int option \<times> str list) list" where
  "exit_code_map results = foldl (\<lambda>m r. push_entry (exit_code_of r) (em_host r) m) [] results"

definition I32_MAX :: int where
  "I32_MAX = 2147483647"

definition sort_code :: "exit_code_group \<Rightarrow> int" where
  "sort_code g = (case eg_exit_code g of Some c \<Rightarrow> c | None \<Rightarrow> I32_MAX)"

definition exit_code_groups ::
  "((int option \<times> str list) list \<Rightarrow> (int option \<times> str list) list) \<Rightarrow> exec_multi_result list \<Rightarrow>
   exit_code_group list" where
  "exit_code_groups shuffle results =
     sort_key sort_code
       (map (\<lambda>(code, hosts). \<lparr>eg_exit_code = code, eg_hosts = hosts\<rparr>) (shuffle (exit_code_map results)))"

section \<open>The comparison\<close>

definition code_text :: "int option \<Rightarrow> str" where
  "code_text code = (case code of Some c \<Rightarrow> show_int c | None \<Rightarrow> ''unknown'')"

definition compare_exec_results ::
  "((int option \<times> str list) list \<Rightarrow> (int option \<times> str list) list) \<Rightarrow> exec_multi_result list \<Rightarrow>
   exec_comparison" where
  "compare_exec_results shuffle results =
     (let hosts_count = length results
      in if hosts_count = 0 then
           \<lparr>ec_hosts_count = 0, ec_exit_code_groups = [], ec_stdout_comparison = no_outputs,
            ec_stderr_comparison = no_outputs, ec_summary = ''No results to compare.''\<rparr>
         else
           (let groups = exit_code_groups shuffle results;
                out = compare_outputs results er_stdout;
                err = compare_outputs results er_stderr
            in \<lparr>ec_hosts_count = hosts_count, ec_exit_code_groups = groups,
                ec_stdout_comparison = out, ec_stderr_comparison = err,
                ec_summary = join '' ''
                  [''Compared '' @ show_nat hosts_count @ '' host(s).'',
                   (case groups of
                      [g] \<Rightarrow> ''All hosts exited with code '' @ code_text (eg_exit_code g) @ ''.''
                    | _ \<Rightarrow> show_nat (length groups) @ '' distinct exit code group(s).''),
                   (if oc_identical out then ''Stdout is identical across all hosts.''
                    else ''Stdout differs across hosts.''),
                   (if oc_identical err then ''Stderr is identical across all hosts.''
                    else ''Stderr differs across hosts.'')]\<rparr>))"

section \<open>Facts\<close>

lemma common_chars_le: "common_chars a b \<le> length (chars a)"
  unfolding common_chars_def by (metis length_takeWhile_le length_zip min.bounded_iff)

lemma length_chars: "length (chars s) \<le> length s"
  by (induction s) (auto split: list.split)

lemma take_takeWhile_zip:
  "n \<le> length (takeWhile (\<lambda>(x, y). x = y) (zip xs ys)) \<longleftrightarrow>
     n \<le> length xs \<and> n \<le> length ys \<and> take n xs = take n ys"
proof (induction xs arbitrary: n ys)
  case (Cons x xs)
  show ?case
  proof (cases ys)
    case (Cons y ys')
    with Cons.IH show ?thesis by (cases n) auto
  qed auto
qed auto

lemma common_chars_iff:
  "n \<le> common_chars a b \<longleftrightarrow>
     n \<le> length (chars a) \<and> n \<le> length (chars b) \<and> take n (chars a) = take n (chars b)"
  by (simp add: common_chars_def take_takeWhile_zip)

lemma foldl_min: "(n :: nat) \<le> foldl (\<lambda>k s. min k (f s)) m xs \<longleftrightarrow> n \<le> m \<and> list_all (\<lambda>s. n \<le> f s) xs"
proof (induction xs arbitrary: m)
  case (Cons x xs)
  show ?case unfolding foldl_Cons Cons.IH by simp
qed simp

text \<open>A string whose characters begin those of \<open>s\<close>.\<close>

definition char_prefix :: "str list \<Rightarrow> str \<Rightarrow> bool" where
  "char_prefix cs s \<longleftrightarrow> prefix cs (chars s)"

text \<open>
  The common prefix of the outputs is one, and no longer run of characters
  begins all of them.
\<close>

theorem longest_common_prefix_exact:
  "\<exists>cs. longest_common_prefix (s # ss) = concat cs \<and> list_all (char_prefix cs) (s # ss) \<and>
     (\<nexists>ds. list_all (char_prefix ds) (s # ss) \<and> length ds > length cs)"
proof (cases ss)
  case Nil
  show ?thesis
    by (intro exI [of _ "chars s"])
       (auto simp: longest_common_prefix_def Nil char_prefix_def dest: prefix_length_le)
next
  case (Cons t ts)
  let ?n = "foldl (\<lambda>n s'. min n (common_chars s s')) (length s) ss"
  let ?cs = "take ?n (chars s)"
  have n: "k \<le> ?n \<longleftrightarrow> k \<le> length s \<and> list_all (\<lambda>s'. k \<le> common_chars s s') ss" for k
    by (rule foldl_min)
  have "list_all (\<lambda>s'. ?n \<le> common_chars s s') ss" using n [of ?n] by blast
  then have common: "list_all (\<lambda>s'. ?n \<le> length (chars s) \<and> take ?n (chars s) = take ?n (chars s')) ss"
    by (auto simp: list_all_iff common_chars_iff)
  have "list_all (char_prefix ?cs) (s # ss)"
    using common by (auto simp: list_all_iff char_prefix_def take_is_prefix)
  moreover have "length ds \<le> length ?cs" if ds: "list_all (char_prefix ds) (s # ss)" for ds
  proof -
    from ds have "prefix ds (chars s)" by (simp add: char_prefix_def)
    then have "length ds \<le> length (chars s)" and eq: "take (length ds) (chars s) = ds"
      by (auto simp: prefix_def)
    moreover have "length ds \<le> common_chars s s'" if "s' \<in> set ss" for s'
    proof -
      from ds that have "prefix ds (chars s')" by (auto simp: char_prefix_def list_all_iff)
      then have "length ds \<le> length (chars s')" "take (length ds) (chars s') = ds"
        by (auto simp: prefix_def)
      with eq \<open>length ds \<le> length (chars s)\<close> show ?thesis by (simp add: common_chars_iff)
    qed
    ultimately have "length ds \<le> ?n"
      using n [of "length ds"] length_chars [of s] by (auto simp: list_all_iff)
    with \<open>length ds \<le> length (chars s)\<close> show ?thesis by simp
  qed
  moreover have "longest_common_prefix (s # ss) = concat ?cs"
    by (simp add: longest_common_prefix_def Cons)
  ultimately show ?thesis by (metis linorder_not_less)
qed

section \<open>Groups of exit codes\<close>

lemma push_entry_lookup:
  "map_of (push_entry k v m) =
     (map_of m)(k \<mapsto> (case map_of m k of Some vs \<Rightarrow> vs @ [v] | None \<Rightarrow> [v]))"
  by (induction m) (auto simp: fun_eq_iff)

lemma push_entry_keys: "set (map fst (push_entry k v m)) = insert k (set (map fst m))"
  by (induction k v m rule: push_entry.induct) auto

lemma push_entry_distinct: "distinct (map fst m) \<Longrightarrow> distinct (map fst (push_entry k v m))"
proof (induction m)
  case (Cons p m)
  then show ?case using push_entry_keys [of k v m] by (cases p) auto
qed simp

definition hosts_with :: "int option \<Rightarrow> exec_multi_result list \<Rightarrow> str list" where
  "hosts_with code results = map em_host (filter (\<lambda>r. exit_code_of r = code) results)"

lemma exit_code_map_snoc:
  "exit_code_map (rs @ [r]) = push_entry (exit_code_of r) (em_host r) (exit_code_map rs)"
  by (simp add: exit_code_map_def)

lemma exit_code_map_distinct: "distinct (map fst (exit_code_map rs))"
  by (induction rs rule: rev_induct) (simp_all add: exit_code_map_snoc push_entry_distinct, simp add: exit_code_map_def)

lemma exit_code_map_lookup:
  "map_of (exit_code_map rs) code = (if hosts_with code rs = [] then None else Some (hosts_with code rs))"
proof (induction rs rule: rev_induct)
  case Nil
  show ?case by (simp add: exit_code_map_def hosts_with_def)
next
  case (snoc r rs)
  then show ?case by (auto simp: exit_code_map_snoc push_entry_lookup hosts_with_def split: if_splits)
qed

lemma exit_code_map_set:
  "set (exit_code_map rs) = {(code, hosts_with code rs) | code. hosts_with code rs \<noteq> []}"
proof -
  have "(code, hs) \<in> set (exit_code_map rs) \<longleftrightarrow> hosts_with code rs \<noteq> [] \<and> hs = hosts_with code rs" for code hs
    unfolding map_of_eq_Some_iff [OF exit_code_map_distinct, symmetric] exit_code_map_lookup by auto
  then show ?thesis by (auto simp: set_eq_iff)
qed

lemma sort_unique:
  assumes "mset xs = mset ys" "inj_on f (set xs)"
  shows "sort_key f xs = sort_key f ys"
  by (rule sort_key_inj_key_eq) (use assms in simp_all)

text \<open>
  The groups of a comparison partition the hosts by exit code, in the order of the
  results. They are the same in every run unless a host exits with the code \<open>i32::MAX\<close>, which the
  order does not tell from no exit code.
\<close>

theorem exit_code_groups_exact:
  assumes "mset (shuffle (exit_code_map rs)) = mset (exit_code_map rs)"
  shows "set (exit_code_groups shuffle rs) =
      {\<lparr>eg_exit_code = code, eg_hosts = hosts_with code rs\<rparr> | code. hosts_with code rs \<noteq> []} \<and>
    distinct (map eg_exit_code (exit_code_groups shuffle rs)) \<and>
    sorted (map sort_code (exit_code_groups shuffle rs)) \<and>
    (Some I32_MAX \<in> exit_code_of ` set rs \<or> exit_code_groups shuffle rs = exit_code_groups id rs)"
proof -
  let ?g = "\<lambda>(code, hosts). \<lparr>eg_exit_code = code, eg_hosts = hosts\<rparr>"
  have set: "set (exit_code_groups shuffle rs) = ?g ` set (exit_code_map rs)"
    using mset_eq_setD [OF assms] by (simp add: exit_code_groups_def)
  have "mset (map eg_exit_code (exit_code_groups shuffle rs)) = mset (map fst (exit_code_map rs))"
    using assms by (simp add: exit_code_groups_def image_mset.compositionality comp_def case_prod_beta)
  then have dist: "distinct (map eg_exit_code (exit_code_groups shuffle rs))"
    using exit_code_map_distinct mset_eq_imp_distinct_iff by blast
  have "exit_code_groups shuffle rs = exit_code_groups id rs" if "Some I32_MAX \<notin> exit_code_of ` set rs"
  proof -
    have no_max: "Some I32_MAX \<notin> fst ` set (exit_code_map rs)"
      using that by (auto simp: exit_code_map_set hosts_with_def filter_empty_conv)
    have "inj_on sort_code (?g ` set (exit_code_map rs))"
    proof (rule inj_onI)
      fix u v assume "u \<in> ?g ` set (exit_code_map rs)" "v \<in> ?g ` set (exit_code_map rs)"
        and eq: "sort_code u = sort_code v"
      then obtain c d where uv: "u = ?g (c, hosts_with c rs)" "v = ?g (d, hosts_with d rs)"
          and "c \<in> fst ` set (exit_code_map rs)" "d \<in> fst ` set (exit_code_map rs)"
        by (auto simp: exit_code_map_set image_iff)
      with no_max have "c \<noteq> Some I32_MAX" "d \<noteq> Some I32_MAX" by metis+
      with eq uv have "c = d" by (cases c; cases d) (auto simp: sort_code_def)
      with uv show "u = v" by simp
    qed
    then show ?thesis
      unfolding exit_code_groups_def id_apply using assms mset_eq_setD [OF assms]
      by (intro sort_unique) auto
  qed
  with set dist show ?thesis
    by (auto simp: exit_code_map_set exit_code_groups_def image_iff)
qed

section \<open>What identical means\<close>

lemma outputs_of_set:
  "(h, s) \<in> set (outputs_of rs extract) \<longleftrightarrow>
     (\<exists>r \<in> set rs. \<exists>res. em_result r = Some res \<and> em_host r = h \<and> extract res = s)"
proof
  assume "(h, s) \<in> set (outputs_of rs extract)"
  then show "\<exists>r \<in> set rs. \<exists>res. em_result r = Some res \<and> em_host r = h \<and> extract res = s"
    by (auto simp: outputs_of_def split: option.splits) metis
next
  assume "\<exists>r \<in> set rs. \<exists>res. em_result r = Some res \<and> em_host r = h \<and> extract res = s"
  then obtain r res where "r \<in> set rs" "em_result r = Some res" "em_host r = h" "extract res = s"
    by blast
  then show "(h, s) \<in> set (outputs_of rs extract)"
    unfolding outputs_of_def set_concat set_map by (intro UN_I [of "[(em_host r, extract res)]"] image_eqI [of _ _ r]) simp_all
qed

text \<open>
  Outputs are called identical exactly when any two hosts that returned a result have
  the same output; hosts whose execution failed do not count.
\<close>

theorem identical_iff_same_outputs:
  "oc_identical (compare_outputs rs extract) \<longleftrightarrow>
     \<not> (\<exists>r \<in> set rs. \<exists>q \<in> set rs. \<exists>x y. em_result r = Some x \<and> em_result q = Some y \<and> extract x \<noteq> extract y)"
proof -
  have "oc_identical (compare_outputs rs extract) \<longleftrightarrow>
      (\<forall>(h, s) \<in> set (outputs_of rs extract). \<forall>(g, t) \<in> set (outputs_of rs extract). s = t)"
  proof (cases "outputs_of rs extract")
    case (Cons p ps)
    obtain h s where p: "p = (h, s)" by (cases p)
    have "oc_identical (compare_outputs rs extract) \<longleftrightarrow> (\<forall>(g, t) \<in> set (p # ps). t = s)"
      by (simp add: compare_outputs_def Cons p list_all_iff)
    also have "\<dots> \<longleftrightarrow> (\<forall>(g, t) \<in> set (p # ps). \<forall>(g', t') \<in> set (p # ps). t = t')"
    proof
      assume same: "\<forall>(g, t) \<in> set (p # ps). t = s"
      have "t = s" if "(g, t) \<in> set (p # ps)" for g t using same that by blast
      then show "\<forall>(g, t) \<in> set (p # ps). \<forall>(g', t') \<in> set (p # ps). t = t'" by blast
    next
      assume all: "\<forall>(g, t) \<in> set (p # ps). \<forall>(g', t') \<in> set (p # ps). t = t'"
      have "(h, s) \<in> set (p # ps)" by (simp add: p)
      then show "\<forall>(g, t) \<in> set (p # ps). t = s" using all by blast
    qed
    finally show ?thesis unfolding Cons .
  qed (simp add: compare_outputs_def no_outputs_def)
  also have "\<dots> \<longleftrightarrow> \<not> (\<exists>r \<in> set rs. \<exists>q \<in> set rs. \<exists>x y. em_result r = Some x \<and> em_result q = Some y \<and>
      extract x \<noteq> extract y)"
  proof
    assume same: "\<forall>(h, s) \<in> set (outputs_of rs extract). \<forall>(g, t) \<in> set (outputs_of rs extract). s = t"
    have "extract x = extract y"
      if "r \<in> set rs" "q \<in> set rs" "em_result r = Some x" "em_result q = Some y" for r q x y
    proof -
      have "(em_host r, extract x) \<in> set (outputs_of rs extract)"
        "(em_host q, extract y) \<in> set (outputs_of rs extract)"
        unfolding outputs_of_set using that by blast+
      with same show ?thesis by blast
    qed
    then show "\<not> (\<exists>r \<in> set rs. \<exists>q \<in> set rs. \<exists>x y. em_result r = Some x \<and> em_result q = Some y \<and>
        extract x \<noteq> extract y)" by blast
  next
    assume none: "\<not> (\<exists>r \<in> set rs. \<exists>q \<in> set rs. \<exists>x y. em_result r = Some x \<and> em_result q = Some y \<and>
        extract x \<noteq> extract y)"
    have "s = t" if "(h, s) \<in> set (outputs_of rs extract)" "(g, t) \<in> set (outputs_of rs extract)" for h s g t
      using that none unfolding outputs_of_set by blast
    then show "\<forall>(h, s) \<in> set (outputs_of rs extract). \<forall>(g, t) \<in> set (outputs_of rs extract). s = t"
      by blast
  qed
  finally show ?thesis .
qed

text \<open>So a comparison calls the outputs of two hosts identical although one of them never ran.\<close>

lemma failed_host_is_identical:
  "oc_identical (compare_outputs [\<lparr>em_host = ''a'', em_result = None, em_error = Some ''no route''\<rparr>] er_stdout)"
  by (simp add: compare_outputs_def outputs_of_def no_outputs_def)

end
