(* ===== verification/Terminal_Text.thy ===== *)
theory Terminal_Text
  imports Shell_Words "HOL-Library.Sublist"
begin

text \<open>
  Text that crosses a boundary of the program: URLs handed to the operating system and text that is
  printed (\<open>url_safety.rs\<close>), OSC 7337 sequences for the desktop terminal (\<open>osc_ipc.rs\<close>), and the line
  added to a shell profile (\<open>shell_profile.rs\<close>). What is printed or spawned is the result of the
  functions that build it.
\<close>

definition esc :: char where
  "esc = CHR 0x1B"

definition bel :: char where
  "bel = CHR 0x07"

section \<open>URL schemes\<close>

definition ALLOWED_SCHEMES :: "str list" where
  "ALLOWED_SCHEMES = [''http'', ''https'']"

datatype url_error = EmptyUrl | SchemeNotAllowed str | NoScheme

text \<open>What precedes the first occurrence of \<open>p\<close>.\<close>

fun before_first :: "str \<Rightarrow> str \<Rightarrow> str" where
  "before_first [] p = []"
| "before_first (c # s) p = (if starts_with (c # s) p then [] else c # before_first s p)"

definition is_ascii_alphabetic :: "char \<Rightarrow> bool" where
  "is_ascii_alphabetic c \<longleftrightarrow> is_ascii_upper c \<or> is_ascii_lower c"

definition url_scheme :: "str \<Rightarrow> str option" where
  "url_scheme lower =
     (if contains lower ''://'' then
        (let s = before_first lower ''://'' in if s \<noteq> [] then Some s else None)
      else if CHR '':'' \<in> set lower then
        (let s = takeWhile (\<lambda>c. c \<noteq> CHR '':'') lower
         in if s \<noteq> [] \<and> list_all is_ascii_alphabetic s then Some s else None)
      else None)"

definition validate_url_scheme :: "str \<Rightarrow> url_error + unit" where
  "validate_url_scheme url =
     (let lower = to_lowercase (trim url)
      in if lower = [] then Inl EmptyUrl
         else case url_scheme lower of
           Some s \<Rightarrow> if s \<in> set ALLOWED_SCHEMES then Inr () else Inl (SchemeNotAllowed s)
         | None \<Rightarrow> Inl NoScheme)"

section \<open>Escape sequences\<close>

text \<open>The loops over the characters, each the string of its bytes.\<close>

definition is_csi_final :: "str \<Rightarrow> bool" where
  "is_csi_final c = (case c of [b] \<Rightarrow> 0x40 \<le> (of_char b :: nat) \<and> of_char b \<le> (0x7E :: nat) | _ \<Rightarrow> False)"

fun skip_csi :: "str list \<Rightarrow> str list" where
  "skip_csi [] = []"
| "skip_csi (c # cs) = (if is_csi_final c then cs else skip_csi cs)"

fun skip_osc :: "str list \<Rightarrow> str list" where
  "skip_osc [] = []"
| "skip_osc (c # cs) =
     (if c = [bel] then cs
      else if c = [esc] then (case cs of d # ds \<Rightarrow> if d = [bslash] then ds else cs | [] \<Rightarrow> [])
      else skip_osc cs)"

lemma length_skip_csi: "length (skip_csi cs) \<le> length cs"
  by (induction cs) auto

lemma length_skip_osc: "length (skip_osc cs) \<le> length cs"
  by (induction cs) (auto split: list.split)

function strip_go :: "str list \<Rightarrow> str list" where
  "strip_go [] = []"
| "strip_go (c # cs) =
     (if c = [esc] then
        (case cs of
           [] \<Rightarrow> []
         | d # ds \<Rightarrow>
             if d = ''['' then strip_go (skip_csi ds)
             else if d = '']'' then strip_go (skip_osc ds)
             else strip_go ds)
      else c # strip_go cs)"
  by pat_completeness auto
termination
proof (relation "measure length")
  fix c :: str and cs d ds assume "cs = d # (ds :: str list)"
  then show "(skip_csi ds, c # cs) \<in> measure length" "(skip_osc ds, c # cs) \<in> measure length"
    using length_skip_csi [of ds] length_skip_osc [of ds] by simp_all
qed auto

definition strip_ansi_escapes :: "str \<Rightarrow> str" where
  "strip_ansi_escapes input = concat (strip_go (chars input))"

section \<open>OSC 7337\<close>

definition OSC_PREFIX :: str where
  "OSC_PREFIX = esc # '']7337;''"

definition OSC_TERMINATOR :: str where
  "OSC_TERMINATOR = [bel]"

datatype osc_error = ControlCharacter nat | ColonInName

definition is_control :: "char \<Rightarrow> bool" where
  "is_control c \<longleftrightarrow> (of_char c :: nat) \<le> 0x1F \<or> (of_char c :: nat) = 0x7F"

definition validate_osc_name :: "str \<Rightarrow> osc_error + unit" where
  "validate_osc_name name =
     (case List.find is_control name of
        Some c \<Rightarrow> Inl (ControlCharacter (of_char c))
      | None \<Rightarrow> if CHR '':'' \<in> set name then Inl ColonInName else Inr ())"

definition build_osc_sequence :: "str \<Rightarrow> str \<Rightarrow> osc_error + str" where
  "build_osc_sequence action name =
     (case validate_osc_name name of
        Inl e \<Rightarrow> Inl e
      | Inr _ \<Rightarrow> Inr (OSC_PREFIX @ action @ '':'' @ name @ OSC_TERMINATOR))"

definition emit_osc_open :: "str \<Rightarrow> osc_error + str" where
  "emit_osc_open name =
     (case validate_osc_name name of
        Inl e \<Rightarrow> Inl e
      | Inr _ \<Rightarrow> Inr (OSC_PREFIX @ ''open:'' @ name @ OSC_TERMINATOR))"

definition emit_osc_forward :: "str \<Rightarrow> osc_error + str" where
  "emit_osc_forward name =
     (case validate_osc_name name of
        Inl e \<Rightarrow> Inl e
      | Inr _ \<Rightarrow> Inr (OSC_PREFIX @ ''fwd:'' @ name @ OSC_TERMINATOR))"

definition is_inside_desktop :: "str option \<Rightarrow> bool" where
  "is_inside_desktop v = (case v of None \<Rightarrow> False | Some x \<Rightarrow> x \<noteq> [])"

section \<open>Shell profiles\<close>

definition SHELL_PROFILE_SENTINEL :: str where
  "SHELL_PROFILE_SENTINEL = ''# agent2ssh-cli-path''"

text \<open>The four replacements in a row; only the first may touch a backslash another one adds.\<close>

definition replace_char :: "char \<Rightarrow> str \<Rightarrow> str \<Rightarrow> str" where
  "replace_char c by_this s = concat (map (\<lambda>d. if d = c then by_this else [d]) s)"

definition escape_shell_double_quoted :: "str \<Rightarrow> str" where
  "escape_shell_double_quoted v =
     replace_char (CHR ''`'') (bslash # ''`'')
       (replace_char (CHR ''$'') (bslash # ''$'')
         (replace_char dquote [bslash, dquote]
           (replace_char bslash [bslash, bslash] v)))"

definition build_shell_profile_line :: "str option \<Rightarrow> str \<Rightarrow> str" where
  "build_shell_profile_line profile_file_name dir =
     (let escaped = escape_shell_double_quoted dir
      in if profile_file_name = Some ''config.fish''
         then ''set -gx PATH $PATH '' @ [dquote] @ escaped @ [dquote] @ ''  '' @ SHELL_PROFILE_SENTINEL
         else ''export PATH='' @ [dquote] @ ''$PATH:'' @ escaped @ [dquote] @ ''  '' @
              SHELL_PROFILE_SENTINEL)"

section \<open>What is accepted and what is left\<close>

lemma before_first_split: "contains s p \<Longrightarrow> \<exists>v. s = before_first s p @ p @ v"
proof (induction s)
  case Nil
  then show ?case by simp
next
  case (Cons c s)
  show ?case
  proof (cases "starts_with (c # s) p")
    case True
    then show ?thesis by (auto simp: starts_with_prefix prefix_def)
  next
    case False
    with Cons show ?thesis by auto
  qed
qed

text \<open>
  A URL that is opened starts with \<open>http:\<close> or \<open>https:\<close>, up to case and surrounding
  white space, so no \<open>file:\<close>, \<open>javascript:\<close> or \<open>data:\<close> URL reaches the browser.
\<close>

theorem opened_url_is_http:
  assumes "validate_url_scheme url = Inr ()"
  shows "starts_with (to_lowercase (trim url)) ''http:'' \<or> starts_with (to_lowercase (trim url)) ''https:''"
proof -
  let ?l = "to_lowercase (trim url)"
  from assms obtain s where s: "url_scheme ?l = Some s" "s = ''http'' \<or> s = ''https''"
    by (auto simp: validate_url_scheme_def Let_def ALLOWED_SCHEMES_def split: option.splits if_splits)
  have "\<exists>v. ?l = s @ '':'' @ v"
  proof (cases "contains ?l ''://''")
    case True
    from before_first_split [OF True] obtain v where "?l = before_first ?l ''://'' @ ''://'' @ v" by blast
    with s(1) True show ?thesis by (auto simp: url_scheme_def Let_def split: if_splits)
  next
    case False
    with s(1) have colon: "CHR '':'' \<in> set ?l" and eq: "s = takeWhile (\<lambda>c. c \<noteq> CHR '':'') ?l"
      by (auto simp: url_scheme_def Let_def split: if_splits)
    from colon have "hd (dropWhile (\<lambda>c. c \<noteq> CHR '':'') ?l) = CHR '':''"
      and "dropWhile (\<lambda>c. c \<noteq> CHR '':'') ?l \<noteq> []"
      using hd_dropWhile [of "\<lambda>c. c \<noteq> CHR '':''" ?l] by (auto simp: dropWhile_eq_Nil_conv)
    then obtain v where "dropWhile (\<lambda>c. c \<noteq> CHR '':'') ?l = CHR '':'' # v"
      by (cases "dropWhile (\<lambda>c. c \<noteq> CHR '':'') ?l") auto
    then have "?l = s @ '':'' @ v"
      using takeWhile_dropWhile_id [of "\<lambda>c. c \<noteq> CHR '':''" ?l] eq by simp
    then show ?thesis ..
  qed
  with s(2) show ?thesis by (auto simp: starts_with_prefix)
qed

text \<open>The documentation asks for \<open>http://\<close>; the colon alone is enough.\<close>

lemma scheme_without_slashes: "validate_url_scheme ''http:evil'' = Inr ()"
  by code_simp

lemma opened_url_is_http_witness:
  "starts_with (to_lowercase (trim '' HTTPS://example.org'')) ''https:''"
proof -
  have "validate_url_scheme '' HTTPS://example.org'' = Inr ()" by code_simp
  moreover have "\<not> starts_with (to_lowercase (trim '' HTTPS://example.org'')) ''http:''" by code_simp
  ultimately show ?thesis using opened_url_is_http by blast
qed

text \<open>In UTF-8 a character of several bytes does not begin with an ASCII byte.\<close>

definition well_encoded :: "str \<Rightarrow> bool" where
  "well_encoded s \<longleftrightarrow> list_all (\<lambda>ch. length ch = 1 \<or> \<not> is_ascii (hd ch)) (chars s)"

lemma chars_tl_cont: "ch \<in> set (chars s) \<Longrightarrow> ch \<noteq> [] \<and> list_all is_cont_byte (tl ch)"
proof (induction s arbitrary: ch)
  case (Cons c s)
  show ?case
  proof (cases "chars s")
    case Nil
    with Cons.prems show ?thesis by simp
  next
    case (Cons p ps)
    with Cons.IH [of p] have "p \<noteq> []" "list_all is_cont_byte (tl p)" by auto
    then have p: "is_cont_byte (hd p) \<Longrightarrow> list_all is_cont_byte p" by (cases p) auto
    from Cons.prems Cons have "ch = c # p \<and> is_cont_byte (hd p) \<or> ch = [c] \<or> ch \<in> set (chars s)"
      by (auto split: if_splits)
    with p Cons.IH show ?thesis by auto
  qed
qed simp

lemma esc_in_char:
  assumes "well_encoded s" "ch \<in> set (chars s)" "esc \<in> set ch"
  shows "ch = [esc]"
proof -
  have ascii: "is_ascii esc" "\<not> is_cont_byte esc" by code_simp+
  obtain a as where ch: "ch = a # as" using chars_tl_cont [OF assms(2)] by (cases ch) auto
  with chars_tl_cont [OF assms(2)] ascii(2) have "esc \<notin> set as" by (auto simp: list_all_iff)
  with assms(3) ch have "a = esc" by simp
  with assms(1,2) ch ascii(1) show ?thesis by (auto simp: well_encoded_def list_all_iff)
qed

lemma strip_go_no_esc: "[esc] \<notin> set (strip_go cs)"
proof (induction cs rule: strip_go.induct)
  case (2 c cs)
  show ?case
  proof (cases "c = [esc]")
    case True
    with 2 show ?thesis by (cases cs) simp_all
  next
    case False
    with 2(4) show ?thesis by auto
  qed
qed simp

lemma set_skip_csi: "set (skip_csi cs) \<subseteq> set cs"
  by (induction cs) auto

lemma set_skip_osc: "set (skip_osc cs) \<subseteq> set cs"
  by (induction cs) (auto split: list.split)

lemma strip_go_subset: "set (strip_go cs) \<subseteq> set cs"
proof (induction cs rule: strip_go.induct)
  case (2 c cs)
  show ?case
  proof (cases "c = [esc]")
    case True
    show ?thesis
    proof (cases cs)
      case (Cons d ds)
      with True 2 set_skip_csi [of ds] set_skip_osc [of ds] show ?thesis
        by (simp del: insert_subset) (meson subset_insertI2 subset_trans)
    qed (simp add: True)
  next
    case False
    with 2(4) show ?thesis by auto
  qed
qed simp

lemma strip_go_same: "[esc] \<notin> set cs \<Longrightarrow> strip_go cs = cs"
  by (induction cs) auto

text \<open>
  Printed text carries no escape sequence. What \<open>strip_ansi_escapes\<close> returns has no
  ESC byte, and text that had none is returned as it is.
\<close>

theorem no_escape_left:
  assumes "well_encoded s"
  shows "esc \<notin> set (strip_ansi_escapes s) \<and> (esc \<in> set s \<or> strip_ansi_escapes s = s)"
proof
  have sub: "set (strip_go (chars s)) \<subseteq> set (chars s)"
    by (rule strip_go_subset)
  show "esc \<notin> set (strip_ansi_escapes s)"
    using sub esc_in_char [OF assms] strip_go_no_esc [of "chars s"]
    by (auto simp: strip_ansi_escapes_def)
  have "esc \<in> set s" if "[esc] \<in> set (chars s)"
    using that concat_chars [of s] by (metis UN_I list.set_intros(1) set_concat)
  then show "esc \<in> set s \<or> strip_ansi_escapes s = s"
    using strip_go_same [of "chars s"]
    by (cases "[esc] \<in> set (chars s)") (simp_all add: strip_ansi_escapes_def)
qed

lemma no_escape_left_witness:
  "esc \<notin> set (strip_ansi_escapes (''a'' @ [esc] @ '']52;c;x'' @ [bel] @ ''b''))"
proof -
  have "well_encoded (''a'' @ [esc] @ '']52;c;x'' @ [bel] @ ''b'')" by code_simp
  from no_escape_left [OF this] show ?thesis by blast
qed

lemma takeWhile_until: "d \<notin> set xs \<Longrightarrow> takeWhile (\<lambda>c. c \<noteq> d) (xs @ ys) = xs @ takeWhile (\<lambda>c. c \<noteq> d) ys"
  by (induction xs) auto

text \<open>A terminal's reading of an OSC 7337 sequence: the action, the name and what follows.\<close>

definition read_osc :: "str \<Rightarrow> (str \<times> str \<times> str) option" where
  "read_osc s =
     (case strip_prefix s OSC_PREFIX of
        None \<Rightarrow> None
      | Some body \<Rightarrow>
          (let payload = takeWhile (\<lambda>c. c \<noteq> bel) body in
           Some (takeWhile (\<lambda>c. c \<noteq> CHR '':'') payload,
                 drop 1 (dropWhile (\<lambda>c. c \<noteq> CHR '':'') payload),
                 drop (length payload + 1) body)))"

lemma validated_name:
  "validate_osc_name name = Inr () \<longleftrightarrow> \<not> list_ex is_control name \<and> CHR '':'' \<notin> set name"
  by (auto simp: validate_osc_name_def list_ex_iff find_None_iff find_Some_iff split: option.splits)

text \<open>
  A name cannot inject into an OSC sequence. Whatever text follows, the terminal reads
  the action and the name back from the sequence, and nothing of the name is left over.
\<close>

theorem osc_reads_back:
  assumes "build_osc_sequence action name = Inr s" "bel \<notin> set action" "CHR '':'' \<notin> set action"
  shows "read_osc (s @ rest) = Some (action, name, rest)"
proof -
  have s: "s = OSC_PREFIX @ action @ '':'' @ name @ OSC_TERMINATOR"
    and name: "\<not> list_ex is_control name" "CHR '':'' \<notin> set name"
    using assms(1) validated_name [of name]
    by (auto simp: build_osc_sequence_def split: sum.splits)
  have "is_control bel" by code_simp
  with name(1) have "bel \<notin> set name" by (auto simp: list_ex_iff)
  moreover have "bel \<noteq> CHR '':''" by code_simp
  ultimately have "takeWhile (\<lambda>c. c \<noteq> bel) (action @ CHR '':'' # name @ bel # rest) = action @ CHR '':'' # name"
    using assms(2) takeWhile_until [of bel action "CHR '':'' # name @ bel # rest"]
      takeWhile_until [of bel name "bel # rest"] by simp
  moreover have "takeWhile (\<lambda>c. c \<noteq> CHR '':'') (action @ CHR '':'' # name) = action"
    "dropWhile (\<lambda>c. c \<noteq> CHR '':'') (action @ CHR '':'' # name) = CHR '':'' # name"
    using assms(3) by (subst takeWhile_append2 dropWhile_append2; auto)+
  ultimately show ?thesis
    by (simp add: read_osc_def s strip_prefix_def starts_with_prefix OSC_TERMINATOR_def Let_def)
qed

lemma osc_reads_back_witness:
  "read_osc (the (case build_osc_sequence ''open'' ''db'' of Inr s \<Rightarrow> Some s | Inl _ \<Rightarrow> None) @ ''x'') =
     Some (''open'', ''db'', ''x'')"
proof -
  obtain s where s: "build_osc_sequence ''open'' ''db'' = Inr s"
    by (simp add: build_osc_sequence_def validate_osc_name_def is_control_def)
  have "bel \<notin> set ''open''" "CHR '':'' \<notin> set ''open''" by code_simp+
  from osc_reads_back [OF s this] show ?thesis by (simp add: s)
qed

lemma escape_shell_double_quoted_map:
  "escape_shell_double_quoted v =
     concat (map (\<lambda>c. if c \<in> {bslash, dquote, CHR ''$'', CHR 0x60} then [bslash, c] else [c]) v)"
proof -
  have distinct: "bslash \<noteq> dquote" "bslash \<noteq> CHR ''$''" "bslash \<noteq> CHR 0x60" "dquote \<noteq> CHR ''$''"
    "dquote \<noteq> CHR 0x60" by code_simp+
  then show ?thesis
    unfolding escape_shell_double_quoted_def by (induction v) (auto simp: replace_char_def)
qed

lemma dq_run_escaped: "dq_run (escape_shell_double_quoted v @ dquote # rest) = (v, rest)"
proof -
  have "bslash \<noteq> dquote" by code_simp
  then show ?thesis
    unfolding escape_shell_double_quoted_map by (induction v) auto
qed

text \<open>
  A directory is added to \<open>PATH\<close> as it is: the double-quoted form the profile line
  contains is read by the shell as one word, the directory itself, whatever characters it has.
\<close>

theorem profile_directory_is_one_word:
  "shell_words ([dquote] @ escape_shell_double_quoted dir @ [dquote]) = [dir]"
proof -
  have "dquote \<noteq> squote" by code_simp
  then show ?thesis using dq_run_escaped [of dir "[]"] by (simp add: shell_words_def)
qed

end
