(* ===== verification/Config_Normal.thy ===== *)
theory Config_Normal
  imports Host_Config Terminal_Text "HOL-Library.List_Lexorder" "HOL-Library.Char_ord"
    "HOL-Library.Product_Lexorder"
begin

text \<open>
  The configuration of hosts, groups and proxies (\<open>types.rs\<close>) and its repair at the persistence
  boundary (\<open>store.rs\<close>: \<open>normalize_config\<close>, \<open>migrate_config\<close>). Strings are compared by their bytes, as
  in Rust. \<open>sort_by\<close> with a comparator that is not a total order has an unspecified result or panics;
  the model is \<open>None\<close> there.
\<close>

record host_group =
  hg_id :: str
  hg_name :: str
  hg_color :: str
  hg_sort_order :: int

datatype proxy_protocol = Http | Socks5

record proxy_profile =
  px_id :: str
  px_name :: str
  px_protocol :: proxy_protocol
  px_host :: str
  px_port :: nat
  px_username :: "str option"
  px_password :: "str option"

record app_config =
  cf_schema_version :: nat
  cf_groups :: "host_group list"
  cf_proxies :: "proxy_profile list"
  cf_hosts :: "host_profile list"

definition CONFIG_SCHEMA_VERSION :: nat where
  "CONFIG_SCHEMA_VERSION = 1"

definition default_host_group :: str where
  "default_host_group = ''default''"

definition default_group_color :: str where
  "default_group_color = ''#4A6CF7''"

definition default_host_groups :: "host_group list" where
  "default_host_groups =
     [\<lparr>hg_id = default_host_group, hg_name = ''Default'', hg_color = default_group_color,
       hg_sort_order = 0\<rparr>]"

definition empty_config :: app_config where
  "empty_config = \<lparr>cf_schema_version = 0, cf_groups = [], cf_proxies = [], cf_hosts = []\<rparr>"

fun protocol_name :: "proxy_protocol \<Rightarrow> str" where
  "protocol_name Http = ''http''"
| "protocol_name Socks5 = ''socks5''"

section \<open>Cleaning\<close>

text \<open>\<open>as_deref().map(str::trim).filter(non-empty)\<close>\<close>

definition trimmed_or_none :: "str option \<Rightarrow> str option" where
  "trimmed_or_none v =
     (case v of None \<Rightarrow> None | Some x \<Rightarrow> if trim x = [] then None else Some (trim x))"

definition trim_fields :: "proxy_profile \<Rightarrow> proxy_profile" where
  "trim_fields p =
     p\<lparr>px_id := trim (px_id p), px_name := trim (px_name p), px_host := trim (px_host p),
       px_username := trimmed_or_none (px_username p),
       px_password := (case px_password p of Some v \<Rightarrow> if v = [] then None else Some v | None \<Rightarrow> None)\<rparr>"

definition proxy_complete :: "proxy_profile \<Rightarrow> bool" where
  "proxy_complete p \<longleftrightarrow> px_id p \<noteq> [] \<and> px_name p \<noteq> [] \<and> px_host p \<noteq> [] \<and> px_port p > 0"

definition clean_group :: "host_group \<Rightarrow> host_group" where
  "clean_group g =
     (let i = (if trim (hg_id g) = [] then default_host_group else trim (hg_id g));
          n = (if trim (hg_name g) = [] then i else trim (hg_name g))
      in g\<lparr>hg_id := i, hg_name := n\<rparr>)"

definition ensure_default_group :: "host_group list \<Rightarrow> host_group list" where
  "ensure_default_group gs =
     (let gs1 = (if gs = [] then default_host_groups else gs)
      in if list_ex (\<lambda>g. hg_id g = default_host_group) gs1 then gs1
         else hd default_host_groups # gs1)"

definition group_key :: "host_group \<Rightarrow> bool \<times> str" where
  "group_key g = (hg_id g \<noteq> default_host_group, if hg_id g = default_host_group then [] else to_lowercase (hg_name g))"

text \<open>
  The comparator of \<open>normalize_config\<close> puts the default group before everything, another default
  group included, so it is an order only when there is one.
\<close>

definition sort_groups :: "host_group list \<Rightarrow> host_group list option" where
  "sort_groups gs =
     (if length (filter (\<lambda>g. hg_id g = default_host_group) gs) \<le> 1 then Some (sort_key group_key gs)
      else None)"

definition repair_host :: "str set \<Rightarrow> str set \<Rightarrow> host_profile \<Rightarrow> host_profile" where
  "repair_host valid_groups valid_proxies h =
     h\<lparr>hp_group := (if trim (hp_group h) = [] \<or> trim (hp_group h) \<notin> valid_groups then default_host_group
                    else trim (hp_group h)),
       hp_proxy_id := (case trimmed_or_none (hp_proxy_id h) of
           Some v \<Rightarrow> if v \<in> valid_proxies then Some v else None
         | None \<Rightarrow> None)\<rparr>"

definition normalize_config :: "app_config \<Rightarrow> app_config option" where
  "normalize_config c =
     map_option (\<lambda>groups.
       let proxies = sort_key (\<lambda>p. to_lowercase (px_name p))
             (filter proxy_complete (map trim_fields (cf_proxies c)))
       in \<lparr>cf_schema_version = max (cf_schema_version c) CONFIG_SCHEMA_VERSION, cf_groups = groups,
           cf_proxies = proxies,
           cf_hosts = map (repair_host (set (map hg_id groups)) (set (map px_id proxies))) (cf_hosts c)\<rparr>)
       (sort_groups (map clean_group (ensure_default_group (cf_groups c))))"

definition migrate_config :: "app_config \<Rightarrow> app_config" where
  "migrate_config c =
     (if cf_schema_version c \<ge> CONFIG_SCHEMA_VERSION then c
      else if cf_schema_version c < 1 then c\<lparr>cf_schema_version := 1\<rparr> else c)"

definition list_host_groups_core :: "app_config \<Rightarrow> host_group list" where
  "list_host_groups_core c = sort_key (\<lambda>g. (hg_sort_order g, to_lowercase (hg_name g))) (cf_groups c)"

section \<open>Well-formed configurations\<close>

definition group_ok :: "host_group \<Rightarrow> bool" where
  "group_ok g \<longleftrightarrow> hg_id g \<noteq> [] \<and> trim (hg_id g) = hg_id g \<and> hg_name g \<noteq> [] \<and> trim (hg_name g) = hg_name g"

definition proxy_ok :: "proxy_profile \<Rightarrow> bool" where
  "proxy_ok p \<longleftrightarrow> proxy_complete p \<and> trim_fields p = p"

definition default_groups :: "host_group list \<Rightarrow> nat" where
  "default_groups gs = length (filter (\<lambda>g. hg_id g = default_host_group) gs)"

definition host_ok :: "app_config \<Rightarrow> host_profile \<Rightarrow> bool" where
  "host_ok c h \<longleftrightarrow>
     hp_group h \<in> hg_id ` set (cf_groups c) \<and>
     (case hp_proxy_id h of None \<Rightarrow> True | Some i \<Rightarrow> i \<in> px_id ` set (cf_proxies c))"

text \<open>
  Every group and proxy is complete and trimmed, there is one default group and it comes first,
  and every host names a group and a proxy that exist.
\<close>

definition well_formed :: "app_config \<Rightarrow> bool" where
  "well_formed c \<longleftrightarrow>
     cf_schema_version c \<ge> CONFIG_SCHEMA_VERSION \<and>
     list_all group_ok (cf_groups c) \<and> default_groups (cf_groups c) = 1 \<and>
     sorted (map group_key (cf_groups c)) \<and>
     list_all proxy_ok (cf_proxies c) \<and> sorted (map (\<lambda>p. to_lowercase (px_name p)) (cf_proxies c)) \<and>
     list_all (host_ok c) (cf_hosts c)"

lemma trim_Nil [simp]: "trim [] = []"
  by (simp add: trim_def trim_start_def trim_end_def)

lemma default_trimmed [simp]: "trim default_host_group = default_host_group" "default_host_group \<noteq> []"
  by code_simp+

lemma default_groups_Cons:
  "default_groups (g # gs) = (if hg_id g = default_host_group then 1 else 0) + default_groups gs"
  by (simp add: default_groups_def)

lemma default_groups_append: "default_groups (gs @ hs) = default_groups gs + default_groups hs"
  by (simp add: default_groups_def)

lemma default_groups_sort: "default_groups (sort_key f gs) = default_groups gs"
  by (simp add: default_groups_def filter_sort)

lemma trimmed_or_none_idem: "trimmed_or_none (trimmed_or_none v) = trimmed_or_none v"
  by (auto simp: trimmed_or_none_def split: option.split)

lemma trim_fields_idem: "trim_fields (trim_fields p) = trim_fields p"
  by (simp add: trim_fields_def trimmed_or_none_idem split: option.split)

lemma clean_group_ok: "group_ok (clean_group g)"
  by (auto simp: clean_group_def group_ok_def Let_def)

lemma clean_group_id: "group_ok g \<Longrightarrow> clean_group g = g"
  by (simp add: clean_group_def group_ok_def Let_def)

lemma ensure_default_ge: "default_groups (map clean_group (ensure_default_group gs)) \<ge> 1"
proof -
  have "\<exists>g \<in> set (ensure_default_group gs). hg_id g = default_host_group"
    by (auto simp: ensure_default_group_def default_host_groups_def list_ex_iff Let_def)
  then obtain g where "g \<in> set (ensure_default_group gs)" "hg_id g = default_host_group" by blast
  moreover from this have "hg_id (clean_group g) = default_host_group" by (simp add: clean_group_def Let_def)
  ultimately have "clean_group g \<in> set (filter (\<lambda>g. hg_id g = default_host_group)
      (map clean_group (ensure_default_group gs)))"
    by simp
  then have "filter (\<lambda>g. hg_id g = default_host_group) (map clean_group (ensure_default_group gs)) \<noteq> []"
    by (metis empty_iff empty_set)
  then show ?thesis unfolding default_groups_def by (metis One_nat_def Suc_leI length_greater_0_conv)
qed

lemma normalize_groups:
  "normalize_config c = Some c' \<Longrightarrow>
     cf_groups c' = sort_key group_key (map clean_group (ensure_default_group (cf_groups c))) \<and>
     default_groups (cf_groups c') = 1"
  using ensure_default_ge [of "cf_groups c"]
  by (auto simp: normalize_config_def sort_groups_def Let_def default_groups_sort
      default_groups_def [symmetric] split: if_splits)

lemma default_in_groups:
  assumes "default_groups gs = 1"
  shows "default_host_group \<in> hg_id ` set gs"
proof -
  from assms have "filter (\<lambda>g. hg_id g = default_host_group) gs \<noteq> []"
    unfolding default_groups_def by fastforce
  then show ?thesis by (force simp: filter_empty_conv)
qed

lemma repair_host_ok:
  assumes "default_host_group \<in> hg_id ` set (cf_groups c)"
  shows "host_ok c (repair_host (set (map hg_id (cf_groups c))) (set (map px_id (cf_proxies c))) h)"
  using assms by (auto simp: host_ok_def repair_host_def split: option.split)

lemma normalize_gives_well_formed:
  assumes "normalize_config c = Some c'"
  shows "well_formed c'"
proof -
  from normalize_groups [OF assms] have gs:
      "cf_groups c' = sort_key group_key (map clean_group (ensure_default_group (cf_groups c)))"
      "default_groups (cf_groups c') = 1"
    by auto
  have ps: "cf_proxies c' = sort_key (\<lambda>p. to_lowercase (px_name p))
      (filter proxy_complete (map trim_fields (cf_proxies c)))"
    and hs: "cf_hosts c' = map (repair_host (set (map hg_id (cf_groups c'))) (set (map px_id (cf_proxies c'))))
      (cf_hosts c)"
    and ver: "cf_schema_version c' = max (cf_schema_version c) CONFIG_SCHEMA_VERSION"
    using assms by (auto simp: normalize_config_def Let_def)
  have "list_all (host_ok c') (cf_hosts c')"
    using repair_host_ok [OF default_in_groups [OF gs(2)]] by (auto simp: hs list_all_iff)
  moreover have "list_all group_ok (cf_groups c')"
    by (auto simp: gs(1) list_all_iff clean_group_ok)
  moreover have "list_all proxy_ok (cf_proxies c')"
    by (auto simp: ps list_all_iff proxy_ok_def trim_fields_idem)
  ultimately show ?thesis
    using gs by (simp add: well_formed_def ver ps)
qed

lemma repair_host_same:
  assumes "host_ok c h" "list_all group_ok (cf_groups c)" "list_all proxy_ok (cf_proxies c)"
  shows "repair_host (set (map hg_id (cf_groups c))) (set (map px_id (cf_proxies c))) h = h"
proof -
  from assms obtain g where "g \<in> set (cf_groups c)" "hg_id g = hp_group h" by (auto simp: host_ok_def)
  then have member: "hp_group h \<in> set (map hg_id (cf_groups c))" by force
  from \<open>g \<in> _\<close> assms(2) have "group_ok g" by (simp add: list_all_iff)
  with \<open>hg_id g = _\<close> member have group: "trim (hp_group h) = hp_group h" "hp_group h \<noteq> []"
      "hp_group h \<in> set (map hg_id (cf_groups c))"
    by (auto simp: group_ok_def)
  show ?thesis
  proof (cases "hp_proxy_id h")
    case None
    with group show ?thesis by (simp add: repair_host_def trimmed_or_none_def)
  next
    case (Some i)
    with assms(1) obtain p where p: "p \<in> set (cf_proxies c)" "px_id p = i" by (auto simp: host_ok_def)
    with assms(3) have "px_id (trim_fields p) = px_id p" "proxy_complete p"
      by (auto simp: proxy_ok_def list_all_iff)
    with p Some group show ?thesis
      by (auto simp: repair_host_def trimmed_or_none_def trim_fields_def proxy_complete_def)
  qed
qed

lemma normalize_well_formed:
  assumes "well_formed c"
  shows "normalize_config c = Some c"
proof -
  have gs: "list_all group_ok (cf_groups c)" "default_groups (cf_groups c) = 1"
      "sorted (map group_key (cf_groups c))"
    and ps: "list_all proxy_ok (cf_proxies c)" "sorted (map (\<lambda>p. to_lowercase (px_name p)) (cf_proxies c))"
    and hs: "list_all (host_ok c) (cf_hosts c)"
    and ver: "CONFIG_SCHEMA_VERSION \<le> cf_schema_version c"
    using assms by (auto simp: well_formed_def)
  have "map clean_group (cf_groups c) = cf_groups c"
    using gs(1) by (intro map_idI) (auto simp: list_all_iff clean_group_id)
  moreover have "ensure_default_group (cf_groups c) = cf_groups c"
    using default_in_groups [OF gs(2)]
    by (cases "cf_groups c") (force simp: ensure_default_group_def list_ex_iff Let_def)+
  ultimately have groups: "sort_groups (map clean_group (ensure_default_group (cf_groups c))) = Some (cf_groups c)"
    using gs(2,3) by (simp add: sort_groups_def default_groups_def sorted_sort_id sort_key_id_if_sorted)
  have "map trim_fields (cf_proxies c) = cf_proxies c"
    using ps(1) by (intro map_idI) (auto simp: list_all_iff proxy_ok_def)
  moreover have "filter proxy_complete (cf_proxies c) = cf_proxies c"
    using ps(1) by (auto simp: filter_id_conv list_all_iff proxy_ok_def)
  ultimately have proxies: "sort_key (\<lambda>p. to_lowercase (px_name p))
      (filter proxy_complete (map trim_fields (cf_proxies c))) = cf_proxies c"
    using ps(2) by (simp add: sort_key_id_if_sorted)
  have "map (repair_host (set (map hg_id (cf_groups c))) (set (map px_id (cf_proxies c)))) (cf_hosts c) =
      cf_hosts c"
    using hs repair_host_same [OF _ gs(1) ps(1)] by (intro map_idI) (simp add: list_all_iff)
  with groups proxies ver show ?thesis
    by (simp add: normalize_config_def Let_def max_absorb1)
qed

text \<open>
  Loading repairs, and settles after one pass. Whatever a configuration file holds, its
  normal form has one default group, complete and trimmed groups and proxies, and no host with a
  group or proxy that is missing; what a save writes is what the next load reads.
\<close>

theorem normalize_repairs:
  assumes "normalize_config c = Some c'"
  shows "well_formed c' \<and> normalize_config (migrate_config c') = Some c'"
proof -
  have wf: "well_formed c'" using assms by (rule normalize_gives_well_formed)
  then have "migrate_config c' = c'" by (simp add: migrate_config_def well_formed_def)
  with wf show ?thesis by (simp add: normalize_well_formed)
qed

definition demo_groups :: app_config where
  "demo_groups = empty_config
     \<lparr>cf_groups := [\<lparr>hg_id = '' ops '', hg_name = [], hg_color = [], hg_sort_order = 3\<rparr>]\<rparr>"

lemma normalize_repairs_witness:
  "\<exists>c'. normalize_config demo_groups = Some c' \<and> well_formed c'"
proof -
  have "normalize_config demo_groups \<noteq> None" by code_simp
  then show ?thesis using normalize_repairs [of demo_groups] by auto
qed

text \<open>A file with a group without id beside the default group cannot be ordered.\<close>

lemma two_default_groups:
  "normalize_config (empty_config\<lparr>cf_groups := default_host_groups @
     [\<lparr>hg_id = '' '', hg_name = ''x'', hg_color = [], hg_sort_order = 0\<rparr>]\<rparr>) = None"
  by code_simp

end
