(* ===== verification/Vault.thy ===== *)
theory Vault
  imports Rust_Text "HOL-Library.AList"
begin

text \<open>
  \<open>secrets.rs\<close>: the encrypted credential store. The cryptography (Argon2id, AES-256-GCM) is a
  parameter, the record \<open>crypto\<close>; what the store relies on is the predicate \<open>aead\<close>. A file holds its
  parsed form (JSON and base64 are codecs of third parties), \<open>Garbled\<close> when it does not parse. A hash
  map is the association list of its entries. Salts, nonces, digests and instants come from the
  environment, so does the file another process may create first (\<open>race\<close>). Derivation and encryption
  do not fail and plaintexts are valid UTF-8; other file errors are not modelled.
\<close>

section \<open>Markers and accounts\<close>

definition SECRET_REF :: str where
  "SECRET_REF = ''$agent2ssh-secret$''"

definition LEGACY_KEYRING_REF :: str where
  "LEGACY_KEYRING_REF = ''$agent2ssh-keyring$''"

definition is_secret_ref :: "str \<Rightarrow> bool" where
  "is_secret_ref v \<longleftrightarrow> v = SECRET_REF \<or> v = LEGACY_KEYRING_REF"

definition is_current_secret_ref :: "str \<Rightarrow> bool" where
  "is_current_secret_ref v \<longleftrightarrow> v = SECRET_REF"

definition host_account :: "str \<Rightarrow> str" where
  "host_account host_name = ''host:'' @ host_name"

definition host_passphrase_account :: "str \<Rightarrow> str" where
  "host_passphrase_account host_name = ''host-key-passphrase:'' @ host_name"

definition proxy_account :: "str \<Rightarrow> str" where
  "proxy_account proxy_id = ''proxy:'' @ proxy_id"

definition KEY_CHECK_ACCOUNT :: str where
  "KEY_CHECK_ACCOUNT = ''__agent2ssh_key_check__''"

definition KEY_CHECK_PLAINTEXT :: str where
  "KEY_CHECK_PLAINTEXT = ''agent2ssh-key-check''"

section \<open>State\<close>

text \<open>Key, salt, nonce and ciphertext are types of the cryptographic libraries.\<close>

record ('k, 's, 'n, 'c) crypto =
  derive_key :: "str \<Rightarrow> 's \<Rightarrow> 'k"
  encrypt :: "'k \<Rightarrow> str \<Rightarrow> 'n \<Rightarrow> str \<Rightarrow> 'c"
  decrypt :: "'k \<Rightarrow> str \<Rightarrow> 'n \<Rightarrow> 'c \<Rightarrow> str option"
  decrypt_v1 :: "'k \<Rightarrow> 'n \<Rightarrow> 'c \<Rightarrow> (str \<times> str) list option"

type_synonym ('n, 'c) encrypted_entry = "'n \<times> 'c"

datatype ('s, 'n, 'c) secrets_file =
    StoreV1 's 'n 'c
  | StoreV2 's "(str \<times> ('n, 'c) encrypted_entry) list"
  | Garbled

datatype migration_status = Completed | Skipped

record migration_record =
  mi_id :: str
  mi_completed_at :: nat
  mi_file_sha256 :: str
  mi_status :: migration_status
  mi_skip_reason :: "str option"

datatype ledger_file = NoLedger | BadLedger | Ledger "migration_record list"

record ('k, 's, 'n, 'c) vault =
  secrets :: "('s, 'n, 'c) secrets_file option"
  ledger :: ledger_file
  secrets_key :: "'k option"
  secrets_memory :: "(str \<times> str) list"
  passphrase_cache :: "(str \<times> str) list"
  backend_var :: "str option"
  master_var :: "str option"

datatype vault_error =
    StoreLocked | StoreUnreadable | SaltMissing | DecryptionFailed | EmptyPassword | ReservedAccount

section \<open>The migration ledger\<close>

definition MIGRATION_V1_TO_V2 :: str where
  "MIGRATION_V1_TO_V2 = ''secrets_v1_to_v2''"

fun load_ledger :: "ledger_file \<Rightarrow> migration_record list option" where
  "load_ledger NoLedger = Some []"
| "load_ledger BadLedger = None"
| "load_ledger (Ledger completed) = Some completed"

definition append_and_save :: "migration_record list \<Rightarrow> migration_record \<Rightarrow> ledger_file \<Rightarrow> ledger_file" where
  "append_and_save completed r old =
     (if list_ex (\<lambda>q. mi_id q = mi_id r) completed then old else Ledger (completed @ [r]))"

definition is_done :: "str \<Rightarrow> migration_record list \<Rightarrow> bool" where
  "is_done i completed \<longleftrightarrow> list_ex (\<lambda>r. mi_id r = i \<and> mi_status r = Completed) completed"

definition is_skipped :: "str \<Rightarrow> migration_record list \<Rightarrow> bool" where
  "is_skipped i completed \<longleftrightarrow> list_ex (\<lambda>r. mi_id r = i \<and> mi_status r = Skipped) completed"

definition is_resolved :: "str \<Rightarrow> migration_record list \<Rightarrow> bool" where
  "is_resolved i completed \<longleftrightarrow> list_ex (\<lambda>r. mi_id r = i) completed"

definition append_skipped ::
  "migration_record list \<Rightarrow> str \<Rightarrow> str \<Rightarrow> nat \<Rightarrow> ledger_file \<Rightarrow> ledger_file" where
  "append_skipped completed i reason now old =
     (if is_resolved i completed then old
      else append_and_save completed
        \<lparr>mi_id = i, mi_completed_at = now, mi_file_sha256 = [], mi_status = Skipped,
         mi_skip_reason = Some reason\<rparr> old)"

definition is_v1_to_v2_migration_resolved :: "ledger_file \<Rightarrow> bool" where
  "is_v1_to_v2_migration_resolved l =
     (case load_ledger l of Some completed \<Rightarrow> is_resolved MIGRATION_V1_TO_V2 completed | None \<Rightarrow> False)"

text \<open>\<open>digest\<close> is the SHA-256 of the secrets file. A ledger that does not parse is left alone.\<close>

definition mark_v1_to_v2_migration_done :: "str \<Rightarrow> nat \<Rightarrow> ledger_file \<Rightarrow> ledger_file" where
  "mark_v1_to_v2_migration_done digest now l =
     (case load_ledger l of
        Some completed \<Rightarrow>
          append_and_save completed
            \<lparr>mi_id = MIGRATION_V1_TO_V2, mi_completed_at = now, mi_file_sha256 = digest,
             mi_status = Completed, mi_skip_reason = None\<rparr> l
      | None \<Rightarrow> l)"

section \<open>Reading and writing the file\<close>

definition backend_is_memory :: "('k, 's, 'n, 'c) vault \<Rightarrow> bool" where
  "backend_is_memory v =
     (case backend_var v of Some s \<Rightarrow> eq_ignore_ascii_case s ''memory'' | None \<Rightarrow> False)"

definition is_initialized :: "('k, 's, 'n, 'c) vault \<Rightarrow> bool" where
  "is_initialized v \<longleftrightarrow> backend_is_memory v \<or> secrets v \<noteq> None"

definition is_unlocked :: "('k, 's, 'n, 'c) vault \<Rightarrow> bool" where
  "is_unlocked v \<longleftrightarrow> backend_is_memory v \<or> secrets_key v \<noteq> None"

fun read_salt :: "('s, 'n, 'c) secrets_file \<Rightarrow> 's option" where
  "read_salt (StoreV1 s n c) = Some s"
| "read_salt (StoreV2 s es) = Some s"
| "read_salt Garbled = None"

text \<open>The loop of \<open>load_map\<close>: every entry but the key check is decrypted for its own account.\<close>

definition open_entries ::
  "('k, 's, 'n, 'c) crypto \<Rightarrow> 'k \<Rightarrow> (str \<times> ('n, 'c) encrypted_entry) list \<Rightarrow> (str \<times> str) list option" where
  "open_entries cr key es =
     mapM (\<lambda>(a, n, c). map_option (Pair a) (decrypt cr key a n c))
       (filter (\<lambda>(a, _). a \<noteq> KEY_CHECK_ACCOUNT) es)"

definition load_map ::
  "('k, 's, 'n, 'c) crypto \<Rightarrow> ('k, 's, 'n, 'c) vault \<Rightarrow> vault_error + (str \<times> str) list" where
  "load_map cr v =
     (case secrets_key v of
        None \<Rightarrow> Inl StoreLocked
      | Some key \<Rightarrow>
          (case secrets v of
             None \<Rightarrow> Inr []
           | Some Garbled \<Rightarrow> Inl StoreUnreadable
           | Some (StoreV2 s es) \<Rightarrow>
               (case open_entries cr key es of Some m \<Rightarrow> Inr m | None \<Rightarrow> Inl DecryptionFailed)
           | Some (StoreV1 s n c) \<Rightarrow>
               if is_v1_to_v2_migration_resolved (ledger v) then Inl StoreUnreadable
               else (case decrypt_v1 cr key n c of Some m \<Rightarrow> Inr m | None \<Rightarrow> Inl DecryptionFailed)))"

definition key_check_entry ::
  "('k, 's, 'n, 'c) crypto \<Rightarrow> (str \<Rightarrow> 'n) \<Rightarrow> 'k \<Rightarrow> str \<times> ('n, 'c) encrypted_entry" where
  "key_check_entry cr nonces key =
     (KEY_CHECK_ACCOUNT, nonces KEY_CHECK_ACCOUNT,
      encrypt cr key KEY_CHECK_ACCOUNT (nonces KEY_CHECK_ACCOUNT) KEY_CHECK_PLAINTEXT)"

text \<open>The entries of a map under a key: the key check, then every secret with a nonce of its own.\<close>

definition seal ::
  "('k, 's, 'n, 'c) crypto \<Rightarrow> (str \<Rightarrow> 'n) \<Rightarrow> 'k \<Rightarrow> (str \<times> str) list \<Rightarrow>
   (str \<times> ('n, 'c) encrypted_entry) list" where
  "seal cr nonces key m =
     foldl (\<lambda>es (a, p). AList.update a (nonces a, encrypt cr key a (nonces a) p) es)
       [key_check_entry cr nonces key] m"

record 'n draw =
  nonce_for :: "str \<Rightarrow> 'n"
  draw_digest :: str
  draw_now :: nat

definition save_map ::
  "('k, 's, 'n, 'c) crypto \<Rightarrow> 'n draw \<Rightarrow> (str \<times> str) list \<Rightarrow> ('k, 's, 'n, 'c) vault \<Rightarrow>
   (vault_error + unit) \<times> ('k, 's, 'n, 'c) vault" where
  "save_map cr d m v =
     (case secrets_key v of
        None \<Rightarrow> (Inl StoreLocked, v)
      | Some key \<Rightarrow>
          (case secrets v of
             None \<Rightarrow> (Inl SaltMissing, v)
           | Some f \<Rightarrow>
               (case read_salt f of
                  None \<Rightarrow> (Inl StoreUnreadable, v)
                | Some salt \<Rightarrow>
                    (let v' = v\<lparr>secrets := Some (StoreV2 salt (seal cr (nonce_for d) key m))\<rparr>
                     in (Inr (),
                         if is_v1_to_v2_migration_resolved (ledger v') then v'
                         else v'\<lparr>ledger := mark_v1_to_v2_migration_done (draw_digest d) (draw_now d)
                                (ledger v')\<rparr>)))))"

section \<open>Unlocking\<close>

definition verify_key_check ::
  "('k, 's, 'n, 'c) crypto \<Rightarrow> 'k \<Rightarrow> (str \<times> ('n, 'c) encrypted_entry) list \<Rightarrow> vault_error + bool" where
  "verify_key_check cr key es =
     (case map_of es KEY_CHECK_ACCOUNT of
        None \<Rightarrow> Inr False
      | Some (n, c) \<Rightarrow>
          (case decrypt cr key KEY_CHECK_ACCOUNT n c of
             Some p \<Rightarrow> if p = KEY_CHECK_PLAINTEXT then Inr True else Inl DecryptionFailed
           | None \<Rightarrow> Inl DecryptionFailed))"

text \<open>The verification of a password against an existing file, the same code at both places.\<close>

definition unlock_existing ::
  "('k, 's, 'n, 'c) crypto \<Rightarrow> str \<Rightarrow> ('s, 'n, 'c) secrets_file \<Rightarrow> vault_error + 'k" where
  "unlock_existing cr password f =
     (case f of
        Garbled \<Rightarrow> Inl StoreUnreadable
      | StoreV2 salt es \<Rightarrow>
          (let key = derive_key cr password salt
           in case verify_key_check cr key es of
                Inl e \<Rightarrow> Inl e
              | Inr True \<Rightarrow> Inr key
              | Inr False \<Rightarrow>
                  (case es of
                     [] \<Rightarrow> Inr key
                   | (a, n, c) # _ \<Rightarrow>
                       (case decrypt cr key a n c of Some _ \<Rightarrow> Inr key | None \<Rightarrow> Inl DecryptionFailed)))
      | StoreV1 salt n c \<Rightarrow>
          (let key = derive_key cr password salt
           in case decrypt_v1 cr key n c of Some _ \<Rightarrow> Inr key | None \<Rightarrow> Inl DecryptionFailed))"

definition unlock_or_init ::
  "('k, 's, 'n, 'c) crypto \<Rightarrow> 'n draw \<Rightarrow> 's \<Rightarrow> ('s, 'n, 'c) secrets_file option \<Rightarrow> str \<Rightarrow>
   ('k, 's, 'n, 'c) vault \<Rightarrow> (vault_error + unit) \<times> ('k, 's, 'n, 'c) vault" where
  "unlock_or_init cr d fresh_salt race password v =
     (let adopt = (\<lambda>f v. case unlock_existing cr password f of
            Inl e \<Rightarrow> (Inl e, v)
          | Inr key \<Rightarrow> (Inr (), v\<lparr>secrets_key := Some key\<rparr>))
      in if backend_is_memory v then (Inr (), v)
         else if password = [] then (Inl EmptyPassword, v)
         else case secrets v of
           Some f \<Rightarrow> adopt f v
         | None \<Rightarrow>
             (case race of
                Some f \<Rightarrow> adopt f (v\<lparr>secrets := Some f\<rparr>)
              | None \<Rightarrow>
                  (let key = derive_key cr password fresh_salt
                   in (Inr (), v\<lparr>secrets := Some (StoreV2 fresh_salt [key_check_entry cr (nonce_for d) key]),
                                secrets_key := Some key\<rparr>))))"

definition change_master_password ::
  "('k, 's, 'n, 'c) crypto \<Rightarrow> 'n draw \<Rightarrow> 's \<Rightarrow> str \<Rightarrow> ('k, 's, 'n, 'c) vault \<Rightarrow>
   (vault_error + unit) \<times> ('k, 's, 'n, 'c) vault" where
  "change_master_password cr d fresh_salt new_password v =
     (if backend_is_memory v then (Inr (), v)
      else if new_password = [] then (Inl EmptyPassword, v)
      else case load_map cr v of
        Inl e \<Rightarrow> (Inl e, v)
      | Inr m \<Rightarrow>
          (let key = derive_key cr new_password fresh_salt
           in (Inr (), v\<lparr>secrets := Some (StoreV2 fresh_salt (seal cr (nonce_for d) key m)),
                        secrets_key := Some key\<rparr>)))"

text \<open>The store exists when \<open>unlock_or_init\<close> is called here, so it creates none.\<close>

definition try_unlock_from_env ::
  "('k, 's, 'n, 'c) crypto \<Rightarrow> 'n draw \<Rightarrow> 's \<Rightarrow> ('k, 's, 'n, 'c) vault \<Rightarrow> bool \<times> ('k, 's, 'n, 'c) vault" where
  "try_unlock_from_env cr d fresh_salt v =
     (if is_unlocked v then (True, v)
      else if \<not> is_initialized v then (False, v)
      else case master_var v of
        Some pw \<Rightarrow>
          if pw \<noteq> [] then
            (case unlock_or_init cr d fresh_salt None pw v of
               (Inr _, v') \<Rightarrow> (True, v')
             | (Inl e, v') \<Rightarrow> (False, v'))
          else (False, v)
      | None \<Rightarrow> (False, v))"

definition lock_vault :: "('k, 's, 'n, 'c) vault \<Rightarrow> ('k, 's, 'n, 'c) vault" where
  "lock_vault v = v\<lparr>secrets_key := None, passphrase_cache := []\<rparr>"

section \<open>One account\<close>

definition store_secret ::
  "('k, 's, 'n, 'c) crypto \<Rightarrow> 'n draw \<Rightarrow> 's \<Rightarrow> ('s, 'n, 'c) secrets_file option \<Rightarrow> str \<Rightarrow> str \<Rightarrow>
   ('k, 's, 'n, 'c) vault \<Rightarrow> (vault_error + unit) \<times> ('k, 's, 'n, 'c) vault" where
  "store_secret cr d fresh_salt race account secret v =
     (if account = KEY_CHECK_ACCOUNT then (Inl ReservedAccount, v)
      else if backend_is_memory v then
        (Inr (), v\<lparr>secrets_memory := AList.update account secret (secrets_memory v)\<rparr>)
      else
        (let (unlocked, v1) = try_unlock_from_env cr d fresh_salt v;
             (ready, v2) =
               (if unlocked then (Inr (), v1)
                else case master_var v1 of
                  Some pw \<Rightarrow>
                    if pw \<noteq> [] then unlock_or_init cr d fresh_salt race pw v1 else (Inl StoreLocked, v1)
                | None \<Rightarrow> (Inl StoreLocked, v1))
         in case ready of
              Inl e \<Rightarrow> (Inl e, v2)
            | Inr _ \<Rightarrow>
                (case load_map cr v2 of
                   Inl e \<Rightarrow> (Inl e, v2)
                 | Inr m \<Rightarrow> save_map cr d (AList.update account secret m) v2)))"

definition get_secret ::
  "('k, 's, 'n, 'c) crypto \<Rightarrow> 'n draw \<Rightarrow> 's \<Rightarrow> str \<Rightarrow> ('k, 's, 'n, 'c) vault \<Rightarrow>
   str option \<times> ('k, 's, 'n, 'c) vault" where
  "get_secret cr d fresh_salt account v =
     (if backend_is_memory v then (map_of (secrets_memory v) account, v)
      else case try_unlock_from_env cr d fresh_salt v of
        (False, v') \<Rightarrow> (None, v')
      | (True, v') \<Rightarrow>
          ((case load_map cr v' of Inr m \<Rightarrow> map_of m account | Inl e \<Rightarrow> None), v'))"

definition secret_exists :: "str \<Rightarrow> ('k, 's, 'n, 'c) vault \<Rightarrow> bool" where
  "secret_exists account v =
     (if backend_is_memory v then map_of (secrets_memory v) account \<noteq> None
      else case secrets v of
        Some (StoreV2 s es) \<Rightarrow> map_of es account \<noteq> None
      | _ \<Rightarrow> False)"

definition delete_secret ::
  "('k, 's, 'n, 'c) crypto \<Rightarrow> 'n draw \<Rightarrow> 's \<Rightarrow> str \<Rightarrow> ('k, 's, 'n, 'c) vault \<Rightarrow> ('k, 's, 'n, 'c) vault" where
  "delete_secret cr d fresh_salt account v =
     (if backend_is_memory v then v\<lparr>secrets_memory := AList.delete account (secrets_memory v)\<rparr>
      else case try_unlock_from_env cr d fresh_salt v of
        (False, v') \<Rightarrow> v'
      | (True, v') \<Rightarrow>
          (case load_map cr v' of
             Inl e \<Rightarrow> v'
           | Inr m \<Rightarrow>
               if map_of m account \<noteq> None
               then snd (save_map cr d (AList.delete account m) v') else v'))"

section \<open>What the store relies on\<close>

text \<open>
  Authenticated encryption: a ciphertext opens for its key, account and nonce, and for no other key
  or account.
\<close>

definition aead :: "('k, 's, 'n, 'c) crypto \<Rightarrow> bool" where
  "aead cr \<longleftrightarrow>
     (\<forall>k a n p. decrypt cr k a n (encrypt cr k a n p) = Some p) \<and>
     (\<forall>k a n p k' a' n' q. decrypt cr k' a' n' (encrypt cr k a n p) = Some q \<longrightarrow> k' = k \<and> a' = a)"

lemma aead_open: "aead cr \<Longrightarrow> decrypt cr k a n (encrypt cr k a n p) = Some p"
  by (simp add: aead_def)

lemma aead_other:
  "aead cr \<Longrightarrow> k' \<noteq> k \<or> a' \<noteq> a \<Longrightarrow> decrypt cr k' a' n' (encrypt cr k a n p) = None"
  unfolding aead_def by (metis not_Some_eq)

text \<open>The entries that represent the secrets \<open>m\<close> under a key.\<close>

definition sealed ::
  "('k, 's, 'n, 'c) crypto \<Rightarrow> 'k \<Rightarrow> (str \<times> str) list \<Rightarrow> (str \<times> ('n, 'c) encrypted_entry) list \<Rightarrow> bool" where
  "sealed cr key m es \<longleftrightarrow>
     distinct (map fst m) \<and> KEY_CHECK_ACCOUNT \<notin> fst ` set m \<and>
     (\<exists>nonces. es = (KEY_CHECK_ACCOUNT, nonces KEY_CHECK_ACCOUNT,
         encrypt cr key KEY_CHECK_ACCOUNT (nonces KEY_CHECK_ACCOUNT) KEY_CHECK_PLAINTEXT) #
       map (\<lambda>(a, p). (a, nonces a, encrypt cr key a (nonces a) p)) m)"

text \<open>The store holds \<open>m\<close> under the key \<open>k\<close>, which is cached when \<open>open\<close>.\<close>

definition holds ::
  "('k, 's, 'n, 'c) crypto \<Rightarrow> ('k, 's, 'n, 'c) vault \<Rightarrow> 'k \<Rightarrow> (str \<rightharpoonup> str) \<Rightarrow> bool" where
  "holds cr v k m \<longleftrightarrow>
     \<not> backend_is_memory v \<and>
     (\<exists>salt es l. secrets v = Some (StoreV2 salt es) \<and> sealed cr k l es \<and> map_of l = m)"

lemma update_absent: "k \<notin> fst ` set al \<Longrightarrow> AList.update k x al = al @ [(k, x)]"
  by (induction al) auto

lemma seal_map:
  assumes "distinct (map fst m)" "KEY_CHECK_ACCOUNT \<notin> fst ` set m"
  shows "seal cr nonces key m = key_check_entry cr nonces key #
    map (\<lambda>(a, p). (a, nonces a, encrypt cr key a (nonces a) p)) m"
proof -
  let ?f = "\<lambda>es (a, p). AList.update a (nonces a, encrypt cr key a (nonces a) p) es"
  let ?g = "\<lambda>(a, p). (a, nonces a, encrypt cr key a (nonces a) p)"
  have "foldl ?f es m = es @ map ?g m"
    if "distinct (map fst m)" "fst ` set es \<inter> fst ` set m = {}" for es
    using that
  proof (induction m arbitrary: es)
    case (Cons x m)
    obtain a p where x: "x = (a, p)" by (cases x)
    from Cons.prems have "a \<notin> fst ` set es" by (auto simp: x)
    then have "?f es x = es @ [?g x]" by (simp add: x update_absent)
    moreover have "foldl ?f (es @ [?g x]) m = (es @ [?g x]) @ map ?g m"
      using Cons.prems by (intro Cons.IH) (auto simp: x)
    ultimately show ?case by simp
  qed simp
  from this [of "[key_check_entry cr nonces key]"] assms show ?thesis
    by (simp add: seal_def key_check_entry_def)
qed

lemma seal_sealed:
  "distinct (map fst m) \<Longrightarrow> KEY_CHECK_ACCOUNT \<notin> fst ` set m \<Longrightarrow> sealed cr key m (seal cr nonces key m)"
  by (auto simp: sealed_def seal_map key_check_entry_def)

lemma mapM_all: "(\<And>x. x \<in> set xs \<Longrightarrow> f x = Some (g x)) \<Longrightarrow> mapM f xs = Some (map g xs)"
  by (induction xs) simp_all

lemma sealed_opens:
  assumes "aead cr" "sealed cr key m es"
  shows "open_entries cr key es = Some m"
proof -
  from assms(2) obtain nonces where m: "KEY_CHECK_ACCOUNT \<notin> fst ` set m"
    and es: "es = (KEY_CHECK_ACCOUNT, nonces KEY_CHECK_ACCOUNT,
         encrypt cr key KEY_CHECK_ACCOUNT (nonces KEY_CHECK_ACCOUNT) KEY_CHECK_PLAINTEXT) #
       map (\<lambda>(a, p). (a, nonces a, encrypt cr key a (nonces a) p)) m"
    by (auto simp: sealed_def)
  have "filter (\<lambda>(a, _). a \<noteq> KEY_CHECK_ACCOUNT) es =
      map (\<lambda>(a, p). (a, nonces a, encrypt cr key a (nonces a) p)) m"
    using m by (force simp: es intro!: filter_True)
  moreover have "mapM (\<lambda>(a, n, c). map_option (Pair a) (decrypt cr key a n c))
      (map (\<lambda>(a, p). (a, nonces a, encrypt cr key a (nonces a) p)) m) = Some m"
    by (induction m) (auto simp: aead_open [OF assms(1)])
  ultimately show ?thesis by (simp add: open_entries_def)
qed

lemma load_map_holds:
  assumes "aead cr" "secrets v = Some (StoreV2 salt es)" "sealed cr k l es" "secrets_key v = Some k"
  shows "load_map cr v = Inr l"
  using assms(2,4) sealed_opens [OF assms(1,3)] by (simp add: load_map_def)

lemma unlocked_env: "is_unlocked v \<Longrightarrow> try_unlock_from_env cr d fs v = (True, v)"
  by (simp add: try_unlock_from_env_def)

lemma save_map_holds:
  assumes "secrets v = Some (StoreV2 salt es)" "secrets_key v = Some k" "\<not> backend_is_memory v"
    and "distinct (map fst l)" "KEY_CHECK_ACCOUNT \<notin> fst ` set l"
  shows "\<exists>v'. save_map cr d l v = (Inr (), v') \<and> holds cr v' k (map_of l) \<and> secrets_key v' = Some k"
proof -
  have "sealed cr k l (seal cr (nonce_for d) k l)" using assms(4,5) by (rule seal_sealed)
  with assms(1-3) show ?thesis
    by (auto simp: save_map_def Let_def holds_def backend_is_memory_def)
qed

text \<open>The store holds \<open>m\<close> and is unlocked.\<close>

definition is_open ::
  "('k, 's, 'n, 'c) crypto \<Rightarrow> ('k, 's, 'n, 'c) vault \<Rightarrow> 'k \<Rightarrow> (str \<rightharpoonup> str) \<Rightarrow> bool" where
  "is_open cr v k m \<longleftrightarrow> holds cr v k m \<and> secrets_key v = Some k"

lemma is_openE:
  assumes "aead cr" "is_open cr v k m"
  obtains salt es l where "secrets v = Some (StoreV2 salt es)" "map_of l = m" "load_map cr v = Inr l"
    "distinct (map fst l)" "KEY_CHECK_ACCOUNT \<notin> fst ` set l" "\<not> backend_is_memory v"
    "secrets_key v = Some k" "\<And>d fs. try_unlock_from_env cr d fs v = (True, v)"
proof -
  from assms(2) obtain salt es l where v: "secrets v = Some (StoreV2 salt es)" "sealed cr k l es"
      "map_of l = m" "\<not> backend_is_memory v" "secrets_key v = Some k"
    by (auto simp: is_open_def holds_def)
  moreover from v(2) have "distinct (map fst l)" "KEY_CHECK_ACCOUNT \<notin> fst ` set l"
    by (auto simp: sealed_def)
  moreover have "load_map cr v = Inr l" using assms(1) v(1,2,5) by (rule load_map_holds)
  moreover have "try_unlock_from_env cr d fs v = (True, v)" for d fs
    using v(5) by (simp add: unlocked_env is_unlocked_def)
  ultimately show thesis by (rule_tac that)
qed

lemma open_store:
  assumes "aead cr" "is_open cr v k m" "a \<noteq> KEY_CHECK_ACCOUNT"
  shows "\<exists>v'. store_secret cr d fs race a s v = (Inr (), v') \<and> is_open cr v' k (m(a \<mapsto> s))"
  using assms(1,2)
proof (rule is_openE)
  fix salt es l
  assume v: "secrets v = Some (StoreV2 salt es)" "map_of l = m" "load_map cr v = Inr l"
    "distinct (map fst l)" "KEY_CHECK_ACCOUNT \<notin> fst ` set l" "\<not> backend_is_memory v"
    "secrets_key v = Some k" "\<And>d fs. try_unlock_from_env cr d fs v = (True, v)"
  have "store_secret cr d fs race a s v = save_map cr d (AList.update a s l) v"
    using assms(3) v by (simp add: store_secret_def)
  moreover have "distinct (map fst (AList.update a s l))"
    "KEY_CHECK_ACCOUNT \<notin> fst ` set (AList.update a s l)"
    using v(4,5) assms(3) by (auto simp: distinct_update dom_update)
  moreover have "map_of (AList.update a s l) = m(a \<mapsto> s)" by (simp add: update_conv' v(2))
  ultimately show ?thesis
    using save_map_holds [OF v(1,7,6)] by (metis is_open_def)
qed

lemma open_get:
  assumes "aead cr" "is_open cr v k m"
  shows "get_secret cr d fs a v = (m a, v)"
  using assms by (rule is_openE) (auto simp: get_secret_def)

lemma open_delete:
  assumes "aead cr" "is_open cr v k m"
  shows "is_open cr (delete_secret cr d fs a v) k (m(a := None))"
  using assms
proof (rule is_openE)
  fix salt es l
  assume v: "secrets v = Some (StoreV2 salt es)" "map_of l = m" "load_map cr v = Inr l"
    "distinct (map fst l)" "KEY_CHECK_ACCOUNT \<notin> fst ` set l" "\<not> backend_is_memory v"
    "secrets_key v = Some k" "\<And>d fs. try_unlock_from_env cr d fs v = (True, v)"
  show ?thesis
  proof (cases "m a")
    case None
    then have "delete_secret cr d fs a v = v" using v by (simp add: delete_secret_def)
    moreover have "m(a := None) = m" using None by auto
    ultimately show ?thesis using assms(2) by simp
  next
    case (Some x)
    then have "delete_secret cr d fs a v = snd (save_map cr d (AList.delete a l) v)"
      using v by (simp add: delete_secret_def)
    moreover have "distinct (map fst (AList.delete a l))" "KEY_CHECK_ACCOUNT \<notin> fst ` set (AList.delete a l)"
      using v(4,5) dom_delete_subset [of a l] by (auto intro: distinct_delete)
    moreover have "map_of (AList.delete a l) = m(a := None)" by (simp add: delete_conv' v(2))
    ultimately show ?thesis
      using save_map_holds [OF v(1,7,6)] by (metis is_open_def snd_conv)
  qed
qed

lemma open_change_password:
  assumes "aead cr" "is_open cr v k m" "pw \<noteq> []"
  shows "\<exists>v'. change_master_password cr d fs pw v = (Inr (), v') \<and> is_open cr v' (derive_key cr pw fs) m"
  using assms(1,2)
proof (rule is_openE)
  fix salt es l
  assume v: "map_of l = m" "load_map cr v = Inr l" "distinct (map fst l)"
    "KEY_CHECK_ACCOUNT \<notin> fst ` set l" "\<not> backend_is_memory v"
  from assms(3) v show ?thesis
    using seal_sealed [OF v(3,4), of cr "derive_key cr pw fs" "nonce_for d"]
    by (auto simp: change_master_password_def Let_def is_open_def holds_def backend_is_memory_def)
qed

section \<open>Properties\<close>

text \<open>
  Property (C16): an unlocked store is a map from accounts to secrets. Storing, reading and deleting
  one account act on that account alone, and a new master password leaves every secret as it was.
\<close>

theorem vault_refines_map:
  assumes "aead cr" "is_open cr v k m" "a \<noteq> KEY_CHECK_ACCOUNT" "pw \<noteq> []"
  shows "(\<exists>v'. store_secret cr d fs race a s v = (Inr (), v') \<and> is_open cr v' k (m(a \<mapsto> s))) \<and>
    get_secret cr d fs a v = (m a, v) \<and>
    is_open cr (delete_secret cr d fs a v) k (m(a := None)) \<and>
    (\<exists>v'. change_master_password cr d fs pw v = (Inr (), v') \<and> is_open cr v' (derive_key cr pw fs) m)"
  using assms by (simp add: open_store open_get open_delete open_change_password)

text \<open>A transparent cipher with the laws, for closed examples.\<close>

definition toy :: "(str \<times> nat, nat, nat, (str \<times> nat) \<times> str \<times> nat \<times> str) crypto" where
  "toy = \<lparr>derive_key = Pair, encrypt = (\<lambda>k a n p. (k, a, n, p)),
     decrypt = (\<lambda>k a n (k', a', n', p). if k = k' \<and> a = a' \<and> n = n' then Some p else None),
     decrypt_v1 = (\<lambda>k n (k', a', n', p). if k = k' \<and> n = n' then Some [(a', p)] else None)\<rparr>"

lemma toy_aead: "aead toy"
  by (auto simp: aead_def toy_def split: if_splits)

definition toy_draw :: "nat draw" where
  "toy_draw = \<lparr>nonce_for = length, draw_digest = [], draw_now = 0\<rparr>"

definition empty_vault :: "(str \<times> nat, nat, nat, (str \<times> nat) \<times> str \<times> nat \<times> str) vault" where
  "empty_vault = \<lparr>secrets = None, ledger = NoLedger, secrets_key = None, secrets_memory = [],
     passphrase_cache = [], backend_var = None, master_var = None\<rparr>"

lemma init_holds:
  assumes "\<not> backend_is_memory v" "pw \<noteq> []" "secrets v = None"
  shows "is_open cr (snd (unlock_or_init cr d fs None pw v)) (derive_key cr pw fs) Map.empty"
  using assms seal_sealed [of "[]" cr "derive_key cr pw fs" "nonce_for d"]
  by (auto simp: unlock_or_init_def Let_def is_open_def holds_def backend_is_memory_def seal_def)

lemma vault_refines_map_witness:
  "get_secret toy toy_draw 1 ''host:web'' (snd (unlock_or_init toy toy_draw 7 None ''pw'' empty_vault)) =
     (None, snd (unlock_or_init toy toy_draw 7 None ''pw'' empty_vault))"
proof -
  let ?v = "snd (unlock_or_init toy toy_draw 7 None ''pw'' empty_vault)"
  have h: "is_open toy ?v (''pw'', 7) Map.empty"
    using init_holds [of empty_vault "''pw''" toy toy_draw 7]
    by (simp add: empty_vault_def backend_is_memory_def toy_def)
  have "''host:web'' \<noteq> KEY_CHECK_ACCOUNT" "''pw'' \<noteq> ([] :: str)" by (simp_all add: KEY_CHECK_ACCOUNT_def)
  from vault_refines_map [OF toy_aead h this, of toy_draw 1] show ?thesis by simp
qed

text \<open>
  Only the master password opens the store. A locked store is unlocked by exactly the
  passwords that derive its key; any other is rejected and nothing changes, also when the store
  holds no secret yet.
\<close>

theorem wrong_password_rejected:
  assumes "aead cr" "holds cr v k m" "secrets v = Some (StoreV2 salt es)" "pw \<noteq> []"
  shows "unlock_or_init cr d fs race pw v =
    (if derive_key cr pw salt = k then (Inr (), v\<lparr>secrets_key := Some k\<rparr>)
     else (Inl DecryptionFailed, v))"
proof -
  from assms(2,3) obtain l where "sealed cr k l es" and mem: "\<not> backend_is_memory v"
    by (auto simp: holds_def)
  then obtain n where "map_of es KEY_CHECK_ACCOUNT =
      Some (n, encrypt cr k KEY_CHECK_ACCOUNT n KEY_CHECK_PLAINTEXT)"
    by (auto simp: sealed_def)
  with mem assms(3,4) show ?thesis
    by (auto simp: unlock_or_init_def unlock_existing_def verify_key_check_def Let_def
        aead_open [OF assms(1)] aead_other [OF assms(1)])
qed

lemma wrong_password_rejected_witness:
  "fst (unlock_or_init toy toy_draw 1 None ''guess'' (snd (unlock_or_init toy toy_draw 7 None ''pw'' empty_vault)))
     = Inl DecryptionFailed"
proof -
  let ?v = "snd (unlock_or_init toy toy_draw 7 None ''pw'' empty_vault)"
  have h: "holds toy ?v (''pw'', 7) Map.empty"
    using init_holds [of empty_vault "''pw''" toy toy_draw 7]
    by (simp add: empty_vault_def backend_is_memory_def toy_def is_open_def)
  have f: "secrets ?v = Some (StoreV2 7 [key_check_entry toy length (''pw'', 7)])"
    by (simp add: unlock_or_init_def empty_vault_def backend_is_memory_def toy_def toy_draw_def Let_def)
  from wrong_password_rejected [OF toy_aead h f, of "''guess''" toy_draw 1 None]
  show ?thesis by (simp add: toy_def)
qed

text \<open>
  A ciphertext cannot be moved. When the entry of one account is replaced by what was
  encrypted for another, no secret is read from the store any more.
\<close>

theorem moved_ciphertext_is_refused:
  assumes "aead cr" "secrets_key v = Some k" "secrets v = Some (StoreV2 salt (es1 @ (a, n, encrypt cr k b n p) # es2))"
    and "a \<noteq> b" "a \<noteq> KEY_CHECK_ACCOUNT"
  shows "load_map cr v = Inl DecryptionFailed"
proof -
  have "decrypt cr k a n (encrypt cr k b n p) = None" using assms(4) by (intro aead_other [OF assms(1)]) simp
  moreover have "mapM f (xs @ y # ys) = None" if "f y = None"
    for f :: "str \<times> 'c \<times> 'd \<Rightarrow> (str \<times> str) option" and xs y ys
    using that by (induction xs) (auto simp: bind_eq_None_conv)
  ultimately have "open_entries cr k (es1 @ (a, n, encrypt cr k b n p) # es2) = None"
    using assms(5) by (simp add: open_entries_def)
  with assms(2,3) show ?thesis by (simp add: load_map_def)
qed

lemma moved_ciphertext_is_refused_witness:
  "load_map toy (empty_vault\<lparr>secrets := Some (StoreV2 7 ([] @ (''host:a'', 0, encrypt toy (''pw'', 7) ''host:b'' 0 ''x'') # [])),
     secrets_key := Some (''pw'', 7)\<rparr>) = Inl DecryptionFailed"
  by (rule moved_ciphertext_is_refused [OF toy_aead, where a = "''host:a''" and b = "''host:b''"
        and salt = 7 and n = 0 and p = "''x''" and k = "(''pw'', 7)" and ?es1.0 = "[]" and ?es2.0 = "[]"])
     (simp_all add: KEY_CHECK_ACCOUNT_def)

section \<open>Two processes\<close>

text \<open>
  A process that unlocked the store before another one changed the master password keeps the old key.
  While the store is empty, reading it finds nothing to decrypt, so the next secret is written under
  the old key beside the new salt, and neither password opens the store again.
\<close>

definition stale_vault :: "(str \<times> nat, nat, nat, (str \<times> nat) \<times> str \<times> nat \<times> str) vault" where
  "stale_vault =
     (let v1 = snd (unlock_or_init toy toy_draw 7 None ''old'' empty_vault);
          v2 = snd (change_master_password toy toy_draw 8 ''new'' v1)
      in v1\<lparr>secrets := secrets v2\<rparr>)"

lemma stale_key_closes_the_store:
  "let (r, v) = store_secret toy toy_draw 9 None ''host:web'' ''s3cret'' stale_vault
   in r = Inr () \<and> fst (unlock_or_init toy toy_draw 9 None ''old'' (lock_vault v)) = Inl DecryptionFailed \<and>
      fst (unlock_or_init toy toy_draw 9 None ''new'' (lock_vault v)) = Inl DecryptionFailed"
  by code_simp

text \<open>Once the migration is on record, an older file that is restored unlocks but cannot be read.\<close>

lemma restored_v1_is_unreadable:
  "let v = empty_vault\<lparr>secrets := Some (StoreV1 7 0 ((''pw'', 7), ''host:web'', 0, ''s3cret'')),
         ledger := mark_v1_to_v2_migration_done [] 0 NoLedger\<rparr>;
       (r, v') = unlock_or_init toy toy_draw 9 None ''pw'' v
   in r = Inr () \<and> load_map toy v' = Inl StoreUnreadable"
  by code_simp

text \<open>\<open>secret_exists\<close> answers for a locked store, unlike its documentation says.\<close>

lemma secret_exists_when_locked:
  "let v = lock_vault (snd (store_secret toy toy_draw 9 None ''host:web'' ''s3cret''
         (snd (unlock_or_init toy toy_draw 7 None ''pw'' empty_vault))))
   in \<not> is_unlocked v \<and> secret_exists ''host:web'' v"
  by code_simp

section \<open>The ledger\<close>

text \<open>Records are only ever added, and a migration is recorded once.\<close>

definition ledger_extends :: "ledger_file \<Rightarrow> ledger_file \<Rightarrow> bool" where
  "ledger_extends l l' \<longleftrightarrow>
     (case (load_ledger l, load_ledger l') of
        (Some rs, Some rs') \<Rightarrow> prefix rs rs' \<and> (distinct (map mi_id rs) \<longrightarrow> distinct (map mi_id rs'))
      | (None, None) \<Rightarrow> True
      | _ \<Rightarrow> False)"

lemma mark_extends: "ledger_extends l (mark_v1_to_v2_migration_done digest now l)"
  by (cases l) (auto simp: ledger_extends_def mark_v1_to_v2_migration_done_def append_and_save_def list_ex_iff)

lemma save_map_ledger: "ledger_extends (ledger v) (ledger (snd (save_map cr d m v)))"
proof -
  have refl: "ledger_extends l l" for l by (cases l) (auto simp: ledger_extends_def)
  then show ?thesis
    by (auto simp: save_map_def Let_def mark_extends split: option.split)
qed

end
