(* ===== verification/Config_Store.thy ===== *)
theory Config_Store
  imports Config_Normal Vault
begin

text \<open>
  The persistence boundary of \<open>store.rs\<close>: loading and saving \<open>hosts.json\<close>, with the credentials in the
  vault of the theory \<open>Vault\<close>. A file holds its parsed configuration. The cache of the loaded file is
  transparent and left out; writing the file itself does not fail. The records \<open>admin_env\<close> hold
  what comes from outside: the cryptography and the random values, one draw for an operation.
\<close>

datatype config_file = ConfigAbsent | ConfigGarbled | ConfigFile app_config

record ('k, 's, 'n, 'c) config_store =
  hosts_json :: config_file
  vault_of :: "('k, 's, 'n, 'c) vault"

record ('k, 's, 'n, 'c) admin_env =
  ad_crypto :: "('k, 's, 'n, 'c) crypto"
  ad_draw :: "'n draw"
  ad_salt :: 's
  ad_race :: "('s, 'n, 'c) secrets_file option"

datatype admin_error =
    ConfigFileUnreadable
  | PlaintextRefused str
  | AliasRequired
  | AddressRequired
  | BadOscName osc_error
  | UnknownProxy str
  | OriginalNameRequired
  | HostNotFound str
  | HostExists str
  | UnlockBeforeRename
  | NoHostProfile str
  | IdRequired
  | NameRequired
  | HostRequired
  | PortRequired
  | DefaultGroupKept

section \<open>Secrets in memory and on disk\<close>

text \<open>
  One field: the marker is replaced by the secret when there is one, by nothing when the store is open
  and has none, and stays while the store is locked.
\<close>

definition internalize_field ::
  "('k, 's, 'n, 'c) admin_env \<Rightarrow> bool \<Rightarrow> str \<Rightarrow> str option \<Rightarrow> ('k, 's, 'n, 'c) vault \<Rightarrow>
   str option \<times> ('k, 's, 'n, 'c) vault" where
  "internalize_field e unlocked account field v =
     (case field of
        None \<Rightarrow> (None, v)
      | Some pw \<Rightarrow>
          if is_current_secret_ref pw then
            (case get_secret (ad_crypto e) (ad_draw e) (ad_salt e) account v of
               (Some real, v') \<Rightarrow> (Some real, v')
             | (None, v') \<Rightarrow> (if unlocked then None else Some pw, v'))
          else (Some pw, v))"

definition internalize_host ::
  "('k, 's, 'n, 'c) admin_env \<Rightarrow> bool \<Rightarrow> host_profile \<Rightarrow> ('k, 's, 'n, 'c) vault \<Rightarrow>
   host_profile \<times> ('k, 's, 'n, 'c) vault" where
  "internalize_host e unlocked h v =
     (let (pw, v1) = internalize_field e unlocked (host_account (hp_name h)) (hp_password h) v;
          (pp, v2) = internalize_field e unlocked (host_passphrase_account (hp_name h)) (hp_passphrase h) v1
      in (h\<lparr>hp_password := pw, hp_passphrase := pp\<rparr>, v2))"

definition internalize_proxy ::
  "('k, 's, 'n, 'c) admin_env \<Rightarrow> bool \<Rightarrow> proxy_profile \<Rightarrow> ('k, 's, 'n, 'c) vault \<Rightarrow>
   proxy_profile \<times> ('k, 's, 'n, 'c) vault" where
  "internalize_proxy e unlocked p v =
     (let (pw, v1) = internalize_field e unlocked (proxy_account (px_id p)) (px_password p) v
      in (p\<lparr>px_password := pw\<rparr>, v1))"

fun map_state :: "('a \<Rightarrow> 'v \<Rightarrow> 'b \<times> 'v) \<Rightarrow> 'a list \<Rightarrow> 'v \<Rightarrow> 'b list \<times> 'v" where
  "map_state f [] v = ([], v)"
| "map_state f (x # xs) v =
     (let (y, v1) = f x v; (ys, v2) = map_state f xs v1 in (y # ys, v2))"

definition internalize_secrets ::
  "('k, 's, 'n, 'c) admin_env \<Rightarrow> app_config \<Rightarrow> ('k, 's, 'n, 'c) vault \<Rightarrow>
   app_config \<times> ('k, 's, 'n, 'c) vault" where
  "internalize_secrets e c v =
     (let (unlocked, v0) = try_unlock_from_env (ad_crypto e) (ad_draw e) (ad_salt e) v;
          (hosts, v1) = map_state (internalize_host e unlocked) (cf_hosts c) v0;
          (proxies, v2) = map_state (internalize_proxy e unlocked) (cf_proxies c) v1
      in (c\<lparr>cf_hosts := hosts, cf_proxies := proxies\<rparr>, v2))"

text \<open>A field that is written as it is: empty, or a marker already.\<close>

definition kept_as_is :: "str \<Rightarrow> bool" where
  "kept_as_is v \<longleftrightarrow> v = [] \<or> is_secret_ref v"

definition put_secret ::
  "('k, 's, 'n, 'c) admin_env \<Rightarrow> str \<Rightarrow> str \<Rightarrow> ('k, 's, 'n, 'c) vault \<Rightarrow>
   (vault_error + unit) \<times> ('k, 's, 'n, 'c) vault" where
  "put_secret e account secret v =
     store_secret (ad_crypto e) (ad_draw e) (ad_salt e) (ad_race e) account secret v"

definition externalize_passphrase ::
  "('k, 's, 'n, 'c) admin_env \<Rightarrow> host_profile \<Rightarrow> ('k, 's, 'n, 'c) vault \<Rightarrow>
   (admin_error + host_profile) \<times> ('k, 's, 'n, 'c) vault" where
  "externalize_passphrase e h v =
     (case hp_passphrase h of
        None \<Rightarrow> (Inr h, v)
      | Some pp \<Rightarrow>
          if kept_as_is pp then (Inr h, v)
          else case put_secret e (host_passphrase_account (hp_name h)) pp v of
            (Inr _, v1) \<Rightarrow> (Inr (h\<lparr>hp_passphrase := Some SECRET_REF\<rparr>), v1)
          | (Inl _, v1) \<Rightarrow> (Inl (PlaintextRefused (hp_name h)), v1))"

text \<open>
  One turn of the loop over the hosts. The \<open>continue\<close> for a password that is kept leaves the turn, so
  the passphrase of that host is not looked at.
\<close>

definition externalize_host ::
  "('k, 's, 'n, 'c) admin_env \<Rightarrow> str option \<Rightarrow> host_profile \<Rightarrow> ('k, 's, 'n, 'c) vault \<Rightarrow>
   (admin_error + host_profile) \<times> ('k, 's, 'n, 'c) vault" where
  "externalize_host e strict_host h v =
     (case hp_password h of
        None \<Rightarrow> externalize_passphrase e h v
      | Some pw \<Rightarrow>
          if kept_as_is pw then (Inr h, v)
          else case put_secret e (host_account (hp_name h)) pw v of
            (Inr _, v1) \<Rightarrow> externalize_passphrase e (h\<lparr>hp_password := Some SECRET_REF\<rparr>) v1
          | (Inl _, v1) \<Rightarrow>
              if strict_host = Some (hp_name h) then (Inl (PlaintextRefused (hp_name h)), v1)
              else externalize_passphrase e h v1)"

definition externalize_proxy ::
  "('k, 's, 'n, 'c) admin_env \<Rightarrow> proxy_profile \<Rightarrow> ('k, 's, 'n, 'c) vault \<Rightarrow>
   proxy_profile \<times> ('k, 's, 'n, 'c) vault" where
  "externalize_proxy e p v =
     (case px_password p of
        None \<Rightarrow> (p, v)
      | Some pw \<Rightarrow>
          if kept_as_is pw then (p, v)
          else case put_secret e (proxy_account (px_id p)) pw v of
            (Inr _, v1) \<Rightarrow> (p\<lparr>px_password := Some SECRET_REF\<rparr>, v1)
          | (Inl _, v1) \<Rightarrow> (p, v1))"

fun map_until_error :: "('a \<Rightarrow> 'v \<Rightarrow> ('e + 'b) \<times> 'v) \<Rightarrow> 'a list \<Rightarrow> 'v \<Rightarrow> ('e + 'b list) \<times> 'v" where
  "map_until_error f [] v = (Inr [], v)"
| "map_until_error f (x # xs) v =
     (case f x v of
        (Inl e, v1) \<Rightarrow> (Inl e, v1)
      | (Inr y, v1) \<Rightarrow>
          (case map_until_error f xs v1 of
             (Inl e, v2) \<Rightarrow> (Inl e, v2)
           | (Inr ys, v2) \<Rightarrow> (Inr (y # ys), v2)))"

definition externalize_secrets ::
  "('k, 's, 'n, 'c) admin_env \<Rightarrow> str option \<Rightarrow> app_config \<Rightarrow> ('k, 's, 'n, 'c) vault \<Rightarrow>
   (admin_error + app_config) \<times> ('k, 's, 'n, 'c) vault" where
  "externalize_secrets e strict_host c v =
     (case map_until_error (externalize_host e strict_host) (cf_hosts c) v of
        (Inl err, v1) \<Rightarrow> (Inl err, v1)
      | (Inr hosts, v1) \<Rightarrow>
          (let (proxies, v2) = map_state (externalize_proxy e) (cf_proxies c) v1
           in (Inr (c\<lparr>cf_hosts := hosts, cf_proxies := proxies\<rparr>), v2)))"

section \<open>Loading and saving\<close>

text \<open>The outer option is the unspecified sort of the theory \<open>Config_Normal\<close>.\<close>

definition load_config ::
  "('k, 's, 'n, 'c) admin_env \<Rightarrow> ('k, 's, 'n, 'c) config_store \<Rightarrow>
   ((admin_error + app_config) \<times> ('k, 's, 'n, 'c) config_store) option" where
  "load_config e s =
     (case hosts_json s of
        ConfigAbsent \<Rightarrow> map_option (\<lambda>c. (Inr c, s)) (normalize_config empty_config)
      | ConfigGarbled \<Rightarrow> Some (Inl ConfigFileUnreadable, s)
      | ConfigFile raw \<Rightarrow>
          map_option (\<lambda>c. let (c', v) = internalize_secrets e c (vault_of s) in (Inr c', s\<lparr>vault_of := v\<rparr>))
            (normalize_config (migrate_config raw)))"

definition save_config_unlocked_strict_host ::
  "('k, 's, 'n, 'c) admin_env \<Rightarrow> app_config \<Rightarrow> str option \<Rightarrow> ('k, 's, 'n, 'c) config_store \<Rightarrow>
   ((admin_error + unit) \<times> ('k, 's, 'n, 'c) config_store) option" where
  "save_config_unlocked_strict_host e c strict_host s =
     map_option (\<lambda>normalized.
       case externalize_secrets e strict_host normalized (vault_of s) of
         (Inl err, v) \<Rightarrow> (Inl err, s\<lparr>vault_of := v\<rparr>)
       | (Inr written, v) \<Rightarrow> (Inr (), s\<lparr>hosts_json := ConfigFile written, vault_of := v\<rparr>))
       (normalize_config c)"

definition plaintext_count :: "app_config \<Rightarrow> nat" where
  "plaintext_count c =
     length (filter (\<lambda>h. case hp_password h of Some pw \<Rightarrow> \<not> kept_as_is pw | None \<Rightarrow> False) (cf_hosts c)) +
     length (filter (\<lambda>h. case hp_passphrase h of Some pp \<Rightarrow> \<not> kept_as_is pp | None \<Rightarrow> False) (cf_hosts c)) +
     length (filter (\<lambda>p. case px_password p of Some pw \<Rightarrow> \<not> kept_as_is pw | None \<Rightarrow> False) (cf_proxies c))"

definition migrate_plaintext_secrets ::
  "('k, 's, 'n, 'c) admin_env \<Rightarrow> ('k, 's, 'n, 'c) config_store \<Rightarrow>
   ((admin_error + nat) \<times> ('k, 's, 'n, 'c) config_store) option" where
  "migrate_plaintext_secrets e s =
     (case hosts_json s of
        ConfigAbsent \<Rightarrow> Some (Inr 0, s)
      | ConfigGarbled \<Rightarrow> Some (Inl ConfigFileUnreadable, s)
      | ConfigFile raw \<Rightarrow>
          if plaintext_count raw = 0 then Some (Inr 0, s)
          else case try_unlock_from_env (ad_crypto e) (ad_draw e) (ad_salt e) (vault_of s) of
            (False, v) \<Rightarrow> Some (Inr 0, s\<lparr>vault_of := v\<rparr>)
          | (True, v) \<Rightarrow>
              do {
                (loaded, s1) \<leftarrow> load_config e (s\<lparr>vault_of := v\<rparr>);
                (case loaded of
                   Inl err \<Rightarrow> Some (Inl err, s1)
                 | Inr c \<Rightarrow>
                     do {
                       (saved, s2) \<leftarrow> save_config_unlocked_strict_host e c None s1;
                       Some (case saved of Inl err \<Rightarrow> Inl err | Inr _ \<Rightarrow> Inr (plaintext_count raw), s2)
                     })
              })"

section \<open>Passphrases on disk\<close>

text \<open>
  The credentials of a host that are neither empty nor a marker, after one turn of the loop: with the
  password a marker, the passphrase is written in plain text, whatever the store would have done.
\<close>

lemma passphrase_left_in_plaintext:
  "hp_password h = Some SECRET_REF \<Longrightarrow> externalize_host e strict_host h v = (Inr h, v)"
  by (simp add: externalize_host_def kept_as_is_def is_secret_ref_def)


definition with_passphrase :: host_profile where
  "with_passphrase =
     \<lparr>hp_name = ''web'', hp_host = ''h'', hp_user = None, hp_port = None, hp_key_path = None,
      hp_password = None, hp_jump_host = None, hp_proxy_id = None, hp_risk_override = None, hp_tags = [],
      hp_group = [], hp_env = None, hp_role = None, hp_owner = None, hp_init_command = None,
      hp_passphrase = Some ''secret'', hp_ai_allowed = True\<rparr>"


lemma locked_store_refuses_passphrase:
  "externalize_host \<lparr>ad_crypto = toy, ad_draw = toy_draw, ad_salt = 1, ad_race = None\<rparr> None
     with_passphrase empty_vault = (Inl (PlaintextRefused ''web''), empty_vault)"
  by code_simp

section \<open>Saving and loading with an open store\<close>

text \<open>Credentials in memory: absent or plain text.\<close>

definition plain_field :: "str option \<Rightarrow> bool" where
  "plain_field f \<longleftrightarrow> (case f of None \<Rightarrow> True | Some v \<Rightarrow> \<not> kept_as_is v)"

definition plain_config :: "app_config \<Rightarrow> bool" where
  "plain_config c \<longleftrightarrow>
     distinct (map hp_name (cf_hosts c)) \<and> distinct (map px_id (cf_proxies c)) \<and>
     list_all (\<lambda>h. plain_field (hp_password h) \<and> plain_field (hp_passphrase h)) (cf_hosts c) \<and>
     list_all (\<lambda>p. plain_field (px_password p)) (cf_proxies c)"

definition mark :: "str option \<Rightarrow> str option" where
  "mark f = map_option (\<lambda>_. SECRET_REF) f"

definition mark_host :: "host_profile \<Rightarrow> host_profile" where
  "mark_host h = h\<lparr>hp_password := mark (hp_password h), hp_passphrase := mark (hp_passphrase h)\<rparr>"

definition mark_proxy :: "proxy_profile \<Rightarrow> proxy_profile" where
  "mark_proxy p = p\<lparr>px_password := mark (px_password p)\<rparr>"

text \<open>The store has the secret of every field that is set.\<close>

definition has_field :: "(str \<rightharpoonup> str) \<Rightarrow> str \<Rightarrow> str option \<Rightarrow> bool" where
  "has_field m account f \<longleftrightarrow> (case f of None \<Rightarrow> True | Some v \<Rightarrow> m account = Some v)"

definition has_host :: "(str \<rightharpoonup> str) \<Rightarrow> host_profile \<Rightarrow> bool" where
  "has_host m h \<longleftrightarrow>
     has_field m (host_account (hp_name h)) (hp_password h) \<and>
     has_field m (host_passphrase_account (hp_name h)) (hp_passphrase h)"

definition has_proxy :: "(str \<rightharpoonup> str) \<Rightarrow> proxy_profile \<Rightarrow> bool" where
  "has_proxy m p \<longleftrightarrow> has_field m (proxy_account (px_id p)) (px_password p)"

definition host_accounts :: "host_profile \<Rightarrow> str set" where
  "host_accounts h = {host_account (hp_name h), host_passphrase_account (hp_name h)}"

lemma accounts_distinct [simp]:
  "host_account n \<noteq> KEY_CHECK_ACCOUNT" "host_passphrase_account n \<noteq> KEY_CHECK_ACCOUNT"
  "proxy_account i \<noteq> KEY_CHECK_ACCOUNT"
  "host_account n \<noteq> host_passphrase_account n'" "host_passphrase_account n' \<noteq> host_account n"
  "host_account n \<noteq> proxy_account i" "proxy_account i \<noteq> host_account n"
  "host_passphrase_account n \<noteq> proxy_account i" "proxy_account i \<noteq> host_passphrase_account n"
  "host_account n = host_account n' \<longleftrightarrow> n = n'"
  "host_passphrase_account n = host_passphrase_account n' \<longleftrightarrow> n = n'"
  "proxy_account i = proxy_account i' \<longleftrightarrow> i = i'"
  by (simp_all add: host_account_def host_passphrase_account_def proxy_account_def KEY_CHECK_ACCOUNT_def)

lemma mark_simps [simp]: "mark None = None" "mark (Some v) = Some SECRET_REF"
  by (simp_all add: mark_def)

lemma plain_field_simps [simp]: "plain_field None" "plain_field (Some v) \<longleftrightarrow> \<not> kept_as_is v"
  by (simp_all add: plain_field_def)

lemma marker_kept [simp]: "kept_as_is SECRET_REF" "is_current_secret_ref SECRET_REF"
  by (simp_all add: kept_as_is_def is_secret_ref_def is_current_secret_ref_def)

lemma has_host_cong: "(\<And>a. a \<in> host_accounts h \<Longrightarrow> m' a = m a) \<Longrightarrow> has_host m h \<Longrightarrow> has_host m' h"
  by (auto simp: has_host_def has_field_def host_accounts_def split: option.splits)

lemma put_open:
  assumes aead: "aead (ad_crypto e)" and "is_open (ad_crypto e) v k m" "a \<noteq> KEY_CHECK_ACCOUNT"
  shows "\<exists>v'. put_secret e a s v = (Inr (), v') \<and> is_open (ad_crypto e) v' k (m(a \<mapsto> s))"
  unfolding put_secret_def using assms by (rule open_store)

lemma externalize_passphrase_open:
  assumes aead: "aead (ad_crypto e)" and "is_open (ad_crypto e) v k m" "plain_field (hp_passphrase h)"
  shows "\<exists>v'. externalize_passphrase e h v = (Inr (h\<lparr>hp_passphrase := mark (hp_passphrase h)\<rparr>), v') \<and>
    is_open (ad_crypto e) v' k (case hp_passphrase h of None \<Rightarrow> m
      | Some pp \<Rightarrow> m(host_passphrase_account (hp_name h) \<mapsto> pp))"
proof (cases "hp_passphrase h")
  case None
  then show ?thesis using assms(2) by (simp add: externalize_passphrase_def)
next
  case (Some pp)
  with assms(3) put_open [OF aead assms(2), of "host_passphrase_account (hp_name h)" pp] show ?thesis
    by (auto simp: externalize_passphrase_def)
qed

lemma externalize_host_open:
  assumes aead: "aead (ad_crypto e)" and "is_open (ad_crypto e) v k m" "plain_field (hp_password h)" "plain_field (hp_passphrase h)"
  shows "\<exists>v' m'. externalize_host e strict h v = (Inr (mark_host h), v') \<and>
    is_open (ad_crypto e) v' k m' \<and> has_host m' h \<and> (\<forall>a. a \<notin> host_accounts h \<longrightarrow> m' a = m a)"
proof -
  let ?m = "case hp_password h of None \<Rightarrow> m | Some pw \<Rightarrow> m(host_account (hp_name h) \<mapsto> pw)"
  let ?g = "h\<lparr>hp_password := mark (hp_password h)\<rparr>"
  obtain v1 where v1: "externalize_host e strict h v = externalize_passphrase e ?g v1"
      "is_open (ad_crypto e) v1 k ?m"
  proof (cases "hp_password h")
    case None
    then have "h\<lparr>hp_password := None\<rparr> = h" by simp
    with None assms(2) that [of v] show thesis by (simp add: externalize_host_def)
  next
    case (Some pw)
    with assms(3) put_open [OF aead assms(2), of "host_account (hp_name h)" pw] that show thesis
      by (auto simp: externalize_host_def)
  qed
  define m2 where "m2 = (case hp_passphrase ?g of None \<Rightarrow> ?m
      | Some pp \<Rightarrow> ?m(host_passphrase_account (hp_name ?g) \<mapsto> pp))"
  have "plain_field (hp_passphrase ?g)" using assms(4) by simp
  from externalize_passphrase_open [OF aead v1(2) this] obtain v2 where
      v2: "externalize_passphrase e ?g v1 = (Inr (?g\<lparr>hp_passphrase := mark (hp_passphrase ?g)\<rparr>), v2)"
      "is_open (ad_crypto e) v2 k m2"
    unfolding m2_def by blast
  have "has_host m2 h" "\<forall>a. a \<notin> host_accounts h \<longrightarrow> m2 a = m a"
    by (auto simp: m2_def has_host_def has_field_def host_accounts_def split: option.split)
  with v1(1) v2 show ?thesis by (auto simp: mark_host_def)
qed

lemma externalize_hosts_open:
  assumes aead: "aead (ad_crypto e)" and "is_open (ad_crypto e) v k m" "distinct (map hp_name hs)"
    and "list_all (\<lambda>h. plain_field (hp_password h) \<and> plain_field (hp_passphrase h)) hs"
  shows "\<exists>v' m'. map_until_error (externalize_host e strict) hs v = (Inr (map mark_host hs), v') \<and>
    is_open (ad_crypto e) v' k m' \<and> list_all (has_host m') hs \<and>
    (\<forall>a. a \<notin> \<Union> (host_accounts ` set hs) \<longrightarrow> m' a = m a)"
  using assms
proof (induction hs arbitrary: v m)
  case (Cons h hs)
  from Cons.prems externalize_host_open [OF aead Cons.prems(2), of h strict] obtain v1 m1 where 1:
      "externalize_host e strict h v = (Inr (mark_host h), v1)" "is_open (ad_crypto e) v1 k m1"
      "has_host m1 h" "\<forall>a. a \<notin> host_accounts h \<longrightarrow> m1 a = m a"
    by auto
  from Cons.IH [OF aead 1(2)] Cons.prems obtain v2 m2 where 2:
      "map_until_error (externalize_host e strict) hs v1 = (Inr (map mark_host hs), v2)"
      "is_open (ad_crypto e) v2 k m2" "list_all (has_host m2) hs"
      "\<forall>a. a \<notin> \<Union> (host_accounts ` set hs) \<longrightarrow> m2 a = m1 a"
    by auto
  have "host_accounts h \<inter> \<Union> (host_accounts ` set hs) = {}"
    using Cons.prems(3) by (auto simp: host_accounts_def)
  with 2(4) have "\<forall>a \<in> host_accounts h. m2 a = m1 a" by blast
  with 1(3) have "has_host m2 h" by (auto intro: has_host_cong)
  with 1 2 show ?case by auto
next
  case Nil
  then show ?case by auto
qed

lemma externalize_proxies_open:
  assumes aead: "aead (ad_crypto e)" and "is_open (ad_crypto e) v k m" "distinct (map px_id ps)"
    and "list_all (\<lambda>p. plain_field (px_password p)) ps"
  shows "\<exists>v' m'. map_state (externalize_proxy e) ps v = (map mark_proxy ps, v') \<and>
    is_open (ad_crypto e) v' k m' \<and> list_all (has_proxy m') ps \<and>
    (\<forall>a. a \<notin> (\<lambda>p. proxy_account (px_id p)) ` set ps \<longrightarrow> m' a = m a)"
  using assms
proof (induction ps arbitrary: v m)
  case (Cons p ps)
  obtain v1 where 1: "externalize_proxy e p v = (mark_proxy p, v1)"
      "is_open (ad_crypto e) v1 k (case px_password p of None \<Rightarrow> m | Some pw \<Rightarrow> m(proxy_account (px_id p) \<mapsto> pw))"
      (is "is_open _ _ _ ?m")
  proof (cases "px_password p")
    case None
    then have "p\<lparr>px_password := None\<rparr> = p" by simp
    with None Cons.prems that [of v] show thesis by (simp add: externalize_proxy_def mark_proxy_def)
  next
    case (Some pw)
    with Cons.prems put_open [OF aead Cons.prems(2), of "proxy_account (px_id p)" pw] that show thesis
      by (auto simp: externalize_proxy_def mark_proxy_def)
  qed
  from Cons.IH [OF aead 1(2)] Cons.prems obtain v2 m2 where 2:
      "map_state (externalize_proxy e) ps v1 = (map mark_proxy ps, v2)" "is_open (ad_crypto e) v2 k m2"
      "list_all (has_proxy m2) ps" "\<forall>a. a \<notin> (\<lambda>p. proxy_account (px_id p)) ` set ps \<longrightarrow> m2 a = ?m a"
    by auto
  have "m2 (proxy_account (px_id p)) = ?m (proxy_account (px_id p))"
    using Cons.prems(3) 2(4) by (auto simp: image_iff)
  then have "has_proxy m2 p" by (auto simp: has_proxy_def has_field_def split: option.split)
  with 1 2 show ?case by (auto split: option.split)
next
  case Nil
  then show ?case by auto
qed

lemma internalize_field_open:
  assumes aead: "aead (ad_crypto e)" and "is_open (ad_crypto e) v k m" "has_field m a f" "plain_field f"
  shows "internalize_field e True a (mark f) v = (f, v)"
  using assms open_get [OF aead assms(2)]
  by (cases f) (auto simp: internalize_field_def has_field_def)

lemma internalize_hosts_open:
  assumes aead: "aead (ad_crypto e)" and "is_open (ad_crypto e) v k m" "list_all (has_host m) hs"
    and "list_all (\<lambda>h. plain_field (hp_password h) \<and> plain_field (hp_passphrase h)) hs"
  shows "map_state (internalize_host e True) (map mark_host hs) v = (hs, v)"
  using assms(3,4)
proof (induction hs)
  case (Cons h hs)
  then have "internalize_host e True (mark_host h) v = (h, v)"
    using internalize_field_open [OF aead assms(2)]
    by (simp add: internalize_host_def mark_host_def has_host_def)
  with Cons show ?case by simp
qed simp

lemma internalize_proxies_open:
  assumes aead: "aead (ad_crypto e)" and "is_open (ad_crypto e) v k m" "list_all (has_proxy m) ps"
    and "list_all (\<lambda>p. plain_field (px_password p)) ps"
  shows "map_state (internalize_proxy e True) (map mark_proxy ps) v = (ps, v)"
  using assms(3,4)
proof (induction ps)
  case (Cons p ps)
  then have "internalize_proxy e True (mark_proxy p) v = (p, v)"
    using internalize_field_open [OF aead assms(2)]
    by (simp add: internalize_proxy_def mark_proxy_def has_proxy_def)
  with Cons show ?case by simp
qed simp

lemma mark_well_formed:
  assumes "well_formed c"
  shows "well_formed (c\<lparr>cf_hosts := map mark_host (cf_hosts c), cf_proxies := map mark_proxy (cf_proxies c)\<rparr>)"
proof -
  have "SECRET_REF \<noteq> []" by (simp add: SECRET_REF_def)
  then have "proxy_ok p \<Longrightarrow> proxy_ok (mark_proxy p)" for p
    by (cases p) (auto simp: proxy_ok_def mark_proxy_def proxy_complete_def trim_fields_def mark_def
        split: option.splits)
  moreover have "px_name (mark_proxy p) = px_name p" "px_id (mark_proxy p) = px_id p" for p
    by (simp_all add: mark_proxy_def)
  moreover have "host_ok (c\<lparr>cf_hosts := hs, cf_proxies := map mark_proxy (cf_proxies c)\<rparr>) (mark_host h) = host_ok c h"
    for hs h
    by (simp add: host_ok_def mark_host_def mark_proxy_def image_image split: option.split)
  ultimately show ?thesis
    using assms by (simp add: well_formed_def list_all_iff comp_def)
qed

lemma mark_no_plaintext:
  "plaintext_count (c\<lparr>cf_hosts := map mark_host (cf_hosts c), cf_proxies := map mark_proxy (cf_proxies c)\<rparr>) = 0"
  by (auto simp: plaintext_count_def filter_empty_conv mark_host_def mark_proxy_def mark_def split: option.splits)

text \<open>The store represents a configuration: markers on disk, the secrets in the open vault.\<close>

definition marked :: "app_config \<Rightarrow> app_config" where
  "marked c = c\<lparr>cf_hosts := map mark_host (cf_hosts c), cf_proxies := map mark_proxy (cf_proxies c)\<rparr>"

definition synced ::
  "('k, 's, 'n, 'c) admin_env \<Rightarrow> ('k, 's, 'n, 'c) config_store \<Rightarrow> app_config \<Rightarrow> 'k \<Rightarrow> (str \<rightharpoonup> str) \<Rightarrow> bool" where
  "synced e s c k m \<longleftrightarrow>
     is_open (ad_crypto e) (vault_of s) k m \<and> hosts_json s = ConfigFile (marked c) \<and>
     well_formed c \<and> plain_config c \<and>
     list_all (has_host m) (cf_hosts c) \<and> list_all (has_proxy m) (cf_proxies c)"

lemma plain_configD:
  assumes "plain_config c"
  shows "distinct (map hp_name (cf_hosts c))" "distinct (map px_id (cf_proxies c))"
    "list_all (\<lambda>h. plain_field (hp_password h) \<and> plain_field (hp_passphrase h)) (cf_hosts c)"
    "list_all (\<lambda>p. plain_field (px_password p)) (cf_proxies c)"
  using assms by (auto simp: plain_config_def)

lemma load_synced:
  assumes "aead (ad_crypto e)" "synced e s c k m"
  shows "load_config e s = Some (Inr c, s)"
proof -
  from assms(2) have s: "is_open (ad_crypto e) (vault_of s) k m" "hosts_json s = ConfigFile (marked c)"
      "well_formed (marked c)" "plain_config c"
      "list_all (has_host m) (cf_hosts c)" "list_all (has_proxy m) (cf_proxies c)"
    by (auto simp: synced_def marked_def mark_well_formed)
  have "normalize_config (migrate_config (marked c)) = Some (marked c)"
    using s(3) by (simp add: normalize_well_formed migrate_config_def well_formed_def)
  moreover have "try_unlock_from_env (ad_crypto e) (ad_draw e) (ad_salt e) (vault_of s) = (True, vault_of s)"
    using s(1) by (simp add: is_open_def unlocked_env is_unlocked_def)
  moreover have "c\<lparr>cf_hosts := cf_hosts c, cf_proxies := cf_proxies c\<rparr> = c" by simp
  moreover have "s\<lparr>vault_of := vault_of s\<rparr> = s" by simp
  ultimately show ?thesis
    using internalize_hosts_open [OF assms(1) s(1,5) plain_configD(3) [OF s(4)]]
      internalize_proxies_open [OF assms(1) s(1,6) plain_configD(4) [OF s(4)]] s(2)
    by (simp add: load_config_def internalize_secrets_def marked_def)
qed

definition accounts_of :: "app_config \<Rightarrow> str set" where
  "accounts_of c = \<Union> (host_accounts ` set (cf_hosts c)) \<union> (\<lambda>p. proxy_account (px_id p)) ` set (cf_proxies c)"

lemma save_synced:
  assumes "aead (ad_crypto e)" "is_open (ad_crypto e) (vault_of s) k m"
    and "normalize_config c = Some n" "plain_config n"
  shows "\<exists>s' m'. save_config_unlocked_strict_host e c strict s = Some (Inr (), s') \<and> synced e s' n k m' \<and>
    (\<forall>a. a \<notin> accounts_of n \<longrightarrow> m' a = m a)"
proof -
  note plain = plain_configD [OF assms(4)]
  obtain v1 m1 where 1: "map_until_error (externalize_host e strict) (cf_hosts n) (vault_of s) =
      (Inr (map mark_host (cf_hosts n)), v1)" "is_open (ad_crypto e) v1 k m1"
      "list_all (has_host m1) (cf_hosts n)"
      "\<forall>a. a \<notin> \<Union> (host_accounts ` set (cf_hosts n)) \<longrightarrow> m1 a = m a"
    using externalize_hosts_open [OF assms(1,2) plain(1,3), of strict] by blast
  obtain v2 m2 where 2: "map_state (externalize_proxy e) (cf_proxies n) v1 = (map mark_proxy (cf_proxies n), v2)"
      "is_open (ad_crypto e) v2 k m2" "list_all (has_proxy m2) (cf_proxies n)"
      "\<forall>a. a \<notin> (\<lambda>p. proxy_account (px_id p)) ` set (cf_proxies n) \<longrightarrow> m2 a = m1 a"
    using externalize_proxies_open [OF assms(1) 1(2) plain(2,4)] by blast
  have hosts: "list_all (has_host m2) (cf_hosts n)"
  proof -
    have "m2 a = m1 a" if "a \<in> host_accounts h" for a h
      using that by (intro 2(4) [rule_format]) (auto simp: host_accounts_def)
    then have "has_host m2 h" if "has_host m1 h" for h
      using that by (blast intro: has_host_cong)
    then show ?thesis using 1(3) by (auto simp: list_all_iff)
  qed
  have save: "save_config_unlocked_strict_host e c strict s =
      Some (Inr (), s\<lparr>hosts_json := ConfigFile (marked n), vault_of := v2\<rparr>)"
    using 1(1) 2(1) assms(3)
    by (simp add: save_config_unlocked_strict_host_def externalize_secrets_def marked_def)
  moreover have "synced e (s\<lparr>hosts_json := ConfigFile (marked n), vault_of := v2\<rparr>) n k m2"
    using 2 hosts assms(4) normalize_gives_well_formed [OF assms(3)] by (simp add: synced_def)
  moreover have "m2 a = m a" if "a \<notin> accounts_of n" for a
    using that 1(4) 2(4) by (simp add: accounts_of_def)
  ultimately show ?thesis by blast
qed


definition demo_env :: "(str \<times> nat, nat, nat, (str \<times> nat) \<times> str \<times> nat \<times> str) admin_env" where
  "demo_env = \<lparr>ad_crypto = toy, ad_draw = toy_draw, ad_salt = 1, ad_race = None\<rparr>"

definition demo_web :: host_profile where
  "demo_web = \<lparr>hp_name = ''web'', hp_host = ''10.0.0.5'', hp_user = None, hp_port = None,
     hp_key_path = None, hp_password = Some ''s3cret'', hp_jump_host = None, hp_proxy_id = None,
     hp_risk_override = None, hp_tags = [], hp_group = ''default'', hp_env = None, hp_role = None,
     hp_owner = None, hp_init_command = None, hp_passphrase = Some ''key'', hp_ai_allowed = True\<rparr>"

definition demo_config :: app_config where
  "demo_config = \<lparr>cf_schema_version = 1, cf_groups = default_host_groups, cf_proxies = [],
     cf_hosts = [demo_web]\<rparr>"

definition demo_store :: "(str \<times> nat, nat, nat, (str \<times> nat) \<times> str \<times> nat \<times> str) config_store" where
  "demo_store = \<lparr>hosts_json = ConfigAbsent,
     vault_of = snd (unlock_or_init toy toy_draw 7 None ''pw'' empty_vault)\<rparr>"

lemma demo_store_open: "is_open toy (vault_of demo_store) (''pw'', 7) Map.empty"
  using init_holds [of empty_vault "''pw''" toy toy_draw 7]
  by (simp add: demo_store_def empty_vault_def backend_is_memory_def toy_def)

lemma demo_config_ok: "well_formed demo_config" "plain_config demo_config"
  by code_simp+


text \<open>
  With the store locked, a host whose password is a marker and whose passphrase is new is saved with the
  passphrase in plain text; without the password the same save is refused.
\<close>

lemma marker_lets_passphrase_through:
  "(let c = demo_config\<lparr>cf_hosts := [demo_web\<lparr>hp_password := Some SECRET_REF\<rparr>]\<rparr>
    in map_option (\<lambda>(r, s). (r, case hosts_json s of ConfigFile w \<Rightarrow> map hp_passphrase (cf_hosts w) | _ \<Rightarrow> []))
         (save_config_unlocked_strict_host demo_env c None \<lparr>hosts_json = ConfigAbsent, vault_of = empty_vault\<rparr>)
       = Some (Inr (), [Some ''key''])) \<and>
   (let c = demo_config\<lparr>cf_hosts := [demo_web\<lparr>hp_password := None\<rparr>]\<rparr>
    in map_option fst
         (save_config_unlocked_strict_host demo_env c None \<lparr>hosts_json = ConfigAbsent, vault_of = empty_vault\<rparr>)
       = Some (Inl (PlaintextRefused ''web'')))"
  by code_simp

end
