(* ===== verification/Record_List.thy ===== *)
theory Record_List
  imports A2S_Prelude "HOL-Library.Sublist"
begin

text \<open>
  Lists of records with a name, as several configuration files keep them: changed in place or
  appended, removed by name, looked up by the first match. The contract of such a list is a map from
  names to records; it is the locale \<open>keyed_store\<close>, whose client lemma carries it over any run of
  changes.
\<close>

text \<open>\<open>iter_mut().find(p)\<close> with an update, or a push when nothing is found.\<close>

fun upsert :: "('a \<Rightarrow> bool) \<Rightarrow> ('a \<Rightarrow> 'a) \<Rightarrow> 'a \<Rightarrow> 'a list \<Rightarrow> 'a list" where
  "upsert p f new [] = [new]"
| "upsert p f new (x # xs) = (if p x then f x # xs else x # upsert p f new xs)"

text \<open>\<open>iter().find(|x| x.key == k)\<close>\<close>

definition find_by :: "('a \<Rightarrow> 'k) \<Rightarrow> 'a list \<Rightarrow> 'k \<Rightarrow> 'a option" where
  "find_by key xs k = List.find (\<lambda>x. key x = k) xs"

definition put_by :: "('a \<Rightarrow> 'k) \<Rightarrow> 'a \<Rightarrow> 'a list \<Rightarrow> 'a list" where
  "put_by key y xs = upsert (\<lambda>x. key x = key y) (\<lambda>_. y) y xs"

text \<open>\<open>retain(|x| x.key != k)\<close>\<close>

definition remove_by :: "('a \<Rightarrow> 'k) \<Rightarrow> 'k \<Rightarrow> 'a list \<Rightarrow> 'a list" where
  "remove_by key k xs = filter (\<lambda>x. key x \<noteq> k) xs"

lemma find_by_simps [simp]:
  "find_by key [] k = None"
  "find_by key (x # xs) k = (if key x = k then Some x else find_by key xs k)"
  by (simp_all add: find_by_def)

lemma find_by_append:
  "find_by key (xs @ ys) k = (case find_by key xs k of Some x \<Rightarrow> Some x | None \<Rightarrow> find_by key ys k)"
  by (induction xs) auto

lemma find_by_key: "find_by key xs k = Some x \<Longrightarrow> key x = k \<and> x \<in> set xs"
  by (induction xs) (auto split: if_splits)

lemma find_by_None: "find_by key xs k = None \<longleftrightarrow> k \<notin> key ` set xs"
  by (induction xs) auto

lemma find_by_filter: "find_by key xs k = find_by key (filter (\<lambda>x. key x = k) xs) k"
  by (induction xs) auto

lemma find_put_by: "find_by key (put_by key y xs) k = (if k = key y then Some y else find_by key xs k)"
  unfolding put_by_def by (induction xs) auto

lemma find_remove_by: "find_by key (remove_by key j xs) k = (if k = j then None else find_by key xs k)"
  unfolding remove_by_def by (induction xs) auto

text \<open>Sorting is stable, so the first record with a name stays the first.\<close>

lemma find_sort_key: "find_by key (sort_key key xs) k = find_by key xs k"
  by (metis find_by_filter sort_key_stable)

lemma keys_put_by:
  "map key (put_by key y xs) = (if key y \<in> set (map key xs) then map key xs else map key xs @ [key y])"
  unfolding put_by_def by (induction xs) auto

lemma set_put_by: "set (put_by key y xs) \<subseteq> insert y (set xs)"
  unfolding put_by_def by (induction xs) auto

lemma distinct_put_by: "distinct (map key xs) \<Longrightarrow> distinct (map key (put_by key y xs))"
  by (simp add: keys_put_by)

lemma distinct_remove_by: "distinct (map key xs) \<Longrightarrow> distinct (map key (remove_by key k xs))"
  unfolding remove_by_def by (simp add: distinct_map_filter)

lemma length_remove_by: "length (remove_by key k xs) = length xs \<longleftrightarrow> k \<notin> key ` set xs"
  unfolding remove_by_def by (induction xs) (auto simp: le_imp_less_Suc less_Suc_eq_le, metis Suc_n_not_le_n length_filter_le)

section \<open>The contract\<close>

datatype ('k, 'v) change = Put 'v | Remove 'k

fun change_map :: "('v \<Rightarrow> 'k) \<Rightarrow> ('k \<rightharpoonup> 'v) \<Rightarrow> ('k, 'v) change \<Rightarrow> ('k \<rightharpoonup> 'v)" where
  "change_map key m (Put v) = m(key v \<mapsto> v)"
| "change_map key m (Remove k) = m(k := None)"

locale keyed_store =
  fixes key :: "'v \<Rightarrow> 'k"
    and lookup :: "'s \<Rightarrow> 'k \<Rightarrow> 'v option"
    and put :: "'v \<Rightarrow> 's \<Rightarrow> 's"
    and remove :: "'k \<Rightarrow> 's \<Rightarrow> 's"
  assumes lookup_put: "lookup (put v s) k = (if k = key v then Some v else lookup s k)"
    and lookup_remove: "lookup (remove k s) j = (if j = k then None else lookup s j)"
begin

fun change_store :: "'s \<Rightarrow> ('k, 'v) change \<Rightarrow> 's" where
  "change_store s (Put v) = put v s"
| "change_store s (Remove k) = remove k s"

lemma change_refines: "lookup (change_store s c) = change_map key (lookup s) c"
  by (cases c) (auto simp: lookup_put lookup_remove)

lemma changes_refine: "lookup (foldl change_store s cs) = foldl (change_map key) (lookup s) cs"
  by (induction cs arbitrary: s) (simp_all add: change_refines)

end

interpretation name_list: keyed_store key "find_by key" "put_by key" "remove_by key"
  for key :: "'v \<Rightarrow> 'k"
  by unfold_locales (simp_all add: find_put_by find_remove_by)

interpretation sorted_list: keyed_store key "find_by key" "\<lambda>v xs. sort_key key (put_by key v xs)" "remove_by key"
  for key :: "'v \<Rightarrow> ('k :: linorder)"
  by unfold_locales (simp_all add: find_put_by find_remove_by find_sort_key)

end
