(* ===== verification/Host_Admin.thy ===== *)
theory Host_Admin
  imports Config_Store Record_List
begin

text \<open>
  \<open>core.rs\<close>: the administration of hosts, proxies and host groups. Every operation loads the
  configuration, changes it and saves it under the write lock, then cleans up the credentials of the
  accounts that are no longer used. The outer option of a result is the unspecified sort of the
  theory \<open>Config_Normal\<close>.
\<close>

type_synonym ('k, 's, 'n, 'c, 'r) outcome =
  "((admin_error + 'r) \<times> ('k, 's, 'n, 'c) config_store) option"

section \<open>Validation\<close>

definition validate_host ::
  "('k, 's, 'n, 'c) admin_env \<Rightarrow> host_profile \<Rightarrow> ('k, 's, 'n, 'c) config_store \<Rightarrow>
   ('k, 's, 'n, 'c, unit) outcome" where
  "validate_host e h s =
     (if trim (hp_name h) = [] then Some (Inl AliasRequired, s)
      else case validate_osc_name (trim (hp_name h)) of
        Inl err \<Rightarrow> Some (Inl (BadOscName err), s)
      | Inr _ \<Rightarrow>
          if trim (hp_host h) = [] then Some (Inl AddressRequired, s)
          else case trimmed_or_none (hp_proxy_id h) of
            None \<Rightarrow> Some (Inr (), s)
          | Some proxy_id \<Rightarrow>
              map_option (\<lambda>(loaded, s1).
                (case loaded of
                   Inl err \<Rightarrow> Inl err
                 | Inr c \<Rightarrow> if list_ex (\<lambda>p. px_id p = proxy_id) (cf_proxies c) then Inr ()
                            else Inl (UnknownProxy proxy_id), s1))
                (load_config e s))"

definition is_ascii_hexdigit :: "char \<Rightarrow> bool" where
  "is_ascii_hexdigit c \<longleftrightarrow> digit_value 16 c \<noteq> None"

definition upper_char :: "char \<Rightarrow> char" where
  "upper_char c = (if is_ascii_lower c then char_of (of_char c - (32 :: nat)) else c)"

definition normalize_group_color :: "str \<Rightarrow> str" where
  "normalize_group_color color =
     (let trimmed = trim color
      in if length trimmed = 7 \<and> starts_with trimmed ''#'' \<and> list_all is_ascii_hexdigit (drop 1 trimmed)
         then map upper_char trimmed else default_group_color)"

definition normalize_host_group :: "host_group \<Rightarrow> admin_error + host_group" where
  "normalize_host_group g =
     (let i = trim (hg_id g); n = trim (hg_name g)
      in if i = [] then Inl IdRequired
         else if n = [] then Inl NameRequired
         else case validate_osc_name n of
           Inl err \<Rightarrow> Inl (BadOscName err)
         | Inr _ \<Rightarrow> Inr (g\<lparr>hg_id := i, hg_name := n, hg_color := normalize_group_color (hg_color g)\<rparr>))"

definition normalize_proxy :: "proxy_profile \<Rightarrow> admin_error + proxy_profile" where
  "normalize_proxy p0 =
     (let p = trim_fields p0
      in if px_id p = [] then Inl IdRequired
         else if px_name p = [] then Inl NameRequired
         else if px_host p = [] then Inl HostRequired
         else if px_port p = 0 then Inl PortRequired
         else Inr p)"

definition ensure_host_group_exists :: "str \<Rightarrow> app_config \<Rightarrow> app_config" where
  "ensure_host_group_exists group_id c =
     (let i = trim group_id
      in if i = [] \<or> list_ex (\<lambda>g. hg_id g = i) (cf_groups c) then c
         else c\<lparr>cf_groups := cf_groups c @
                [\<lparr>hg_id = i, hg_name = i, hg_color = default_group_color, hg_sort_order = 0\<rparr>]\<rparr>)"

section \<open>Editing the configuration\<close>

text \<open>Load, change and save; \<open>None\<close> in place of a configuration leaves the file alone.\<close>

definition edit_config ::
  "('k, 's, 'n, 'c) admin_env \<Rightarrow> str option \<Rightarrow>
   (('k, 's, 'n, 'c) vault \<Rightarrow> app_config \<Rightarrow> admin_error + (app_config option \<times> 'r)) \<Rightarrow>
   ('k, 's, 'n, 'c) config_store \<Rightarrow> ('k, 's, 'n, 'c, 'r) outcome" where
  "edit_config e strict_host f s =
     do {
       (loaded, s1) \<leftarrow> load_config e s;
       (case loaded of
          Inl err \<Rightarrow> Some (Inl err, s1)
        | Inr c \<Rightarrow>
            (case f (vault_of s1) c of
               Inl err \<Rightarrow> Some (Inl err, s1)
             | Inr (None, r) \<Rightarrow> Some (Inr r, s1)
             | Inr (Some c', r) \<Rightarrow>
                 map_option (\<lambda>(saved, s2). (case saved of Inl err \<Rightarrow> Inl err | Inr _ \<Rightarrow> Inr r, s2))
                   (save_config_unlocked_strict_host e c' strict_host s1)))
     }"

section \<open>Hosts\<close>

definition put_host :: "host_profile \<Rightarrow> app_config \<Rightarrow> app_config" where
  "put_host h c =
     (let c1 = ensure_host_group_exists (hp_group h) c
      in c1\<lparr>cf_hosts := sort_key hp_name (upsert (\<lambda>g. hp_name g = hp_name h) (\<lambda>_. h) h (cf_hosts c1))\<rparr>)"

definition add_host_core_impl ::
  "('k, 's, 'n, 'c) admin_env \<Rightarrow> host_profile \<Rightarrow> bool \<Rightarrow> ('k, 's, 'n, 'c) config_store \<Rightarrow>
   ('k, 's, 'n, 'c, host_profile) outcome" where
  "add_host_core_impl e h strict s =
     do {
       (valid, s1) \<leftarrow> validate_host e h s;
       (case valid of
          Inl err \<Rightarrow> Some (Inl err, s1)
        | Inr _ \<Rightarrow>
            edit_config e (if strict then Some (hp_name h) else None)
              (\<lambda>_ c. Inr (Some (put_host h c), h)) s1)
     }"

text \<open>The fields a caller leaves out keep their value, an empty one clears it.\<close>

definition keep_field :: "str option \<Rightarrow> str option \<Rightarrow> str option" where
  "keep_field new old = (case new of None \<Rightarrow> old | Some v \<Rightarrow> if v = [] then None else Some v)"

definition keep_credentials :: "host_profile \<Rightarrow> host_profile \<Rightarrow> host_profile" where
  "keep_credentials h old =
     h\<lparr>hp_password := keep_field (hp_password h) (hp_password old),
       hp_passphrase := keep_field (hp_passphrase h) (hp_passphrase old)\<rparr>"

definition field_is_ref :: "str option \<Rightarrow> bool" where
  "field_is_ref f \<longleftrightarrow> (case f of None \<Rightarrow> False | Some v \<Rightarrow> is_secret_ref v)"

fun position :: "('a \<Rightarrow> bool) \<Rightarrow> 'a list \<Rightarrow> nat option" where
  "position p [] = None"
| "position p (x # xs) = (if p x then Some 0 else map_option Suc (position p xs))"

definition replace_host ::
  "('k, 's, 'n, 'c) admin_env \<Rightarrow> str \<Rightarrow> host_profile \<Rightarrow> ('k, 's, 'n, 'c) vault \<Rightarrow> app_config \<Rightarrow>
   admin_error + (app_config option \<times> host_profile)" where
  "replace_host e original_name h v c0 =
     (let c = ensure_host_group_exists (hp_group h) c0
      in case position (\<lambda>g. hp_name g = original_name) (cf_hosts c) of
           None \<Rightarrow> Inl (HostNotFound original_name)
         | Some idx \<Rightarrow>
             (let old = cf_hosts c ! idx;
                  h' = keep_credentials h old;
                  renamed = (original_name \<noteq> hp_name h)
              in if renamed \<and> list_ex (\<lambda>g. hp_name g = hp_name h) (cf_hosts c) then Inl (HostExists (hp_name h))
                 else if renamed \<and> (field_is_ref (hp_password old) \<or> field_is_ref (hp_passphrase old)) \<and>
                         \<not> fst (try_unlock_from_env (ad_crypto e) (ad_draw e) (ad_salt e) v)
                 then Inl UnlockBeforeRename
                 else Inr (Some (c\<lparr>cf_hosts := sort_key hp_name ((cf_hosts c)[idx := h'])\<rparr>), h')))"

definition get_account ::
  "('k, 's, 'n, 'c) admin_env \<Rightarrow> str \<Rightarrow> ('k, 's, 'n, 'c) vault \<Rightarrow> str option \<times> ('k, 's, 'n, 'c) vault" where
  "get_account e a v = get_secret (ad_crypto e) (ad_draw e) (ad_salt e) a v"

definition delete_account ::
  "('k, 's, 'n, 'c) admin_env \<Rightarrow> str \<Rightarrow> ('k, 's, 'n, 'c) vault \<Rightarrow> ('k, 's, 'n, 'c) vault" where
  "delete_account e a v = delete_secret (ad_crypto e) (ad_draw e) (ad_salt e) a v"

text \<open>The secret of a renamed host, carried over when the new account has none.\<close>

definition move_account ::
  "('k, 's, 'n, 'c) admin_env \<Rightarrow> bool \<Rightarrow> str \<Rightarrow> str \<Rightarrow> ('k, 's, 'n, 'c) vault \<Rightarrow> ('k, 's, 'n, 'c) vault" where
  "move_account e cleared old new v =
     (let v1 =
        (if cleared then v
         else case get_account e new v of
           (Some _, v') \<Rightarrow> v'
         | (None, v') \<Rightarrow>
             (case get_account e old v' of
                (Some secret, v'') \<Rightarrow> snd (put_secret e new secret v'')
              | (None, v'') \<Rightarrow> v''))
      in delete_account e old v1)"

definition passphrase_cache_evict :: "str \<Rightarrow> ('k, 's, 'n, 'c) vault \<Rightarrow> ('k, 's, 'n, 'c) vault" where
  "passphrase_cache_evict key v = v\<lparr>passphrase_cache := AList.delete key (passphrase_cache v)\<rparr>"

definition after_update ::
  "('k, 's, 'n, 'c) admin_env \<Rightarrow> str \<Rightarrow> host_profile \<Rightarrow> ('k, 's, 'n, 'c) vault \<Rightarrow> ('k, 's, 'n, 'c) vault" where
  "after_update e original_name h v =
     (let clear_password = (hp_password h = Some []);
          clear_passphrase = (hp_passphrase h = Some []);
          renamed = (original_name \<noteq> hp_name h);
          v1 = (if renamed then
                  passphrase_cache_evict (''host:'' @ original_name)
                    (move_account e clear_passphrase (host_passphrase_account original_name)
                       (host_passphrase_account (hp_name h))
                       (move_account e clear_password (host_account original_name)
                          (host_account (hp_name h)) v))
                else v);
          v2 = (if clear_password then delete_account e (host_account (hp_name h)) v1 else v1);
          v3 = (if clear_passphrase then delete_account e (host_passphrase_account (hp_name h)) v2 else v2)
      in if hp_passphrase h \<noteq> None \<or> renamed then passphrase_cache_evict (''host:'' @ hp_name h) v3 else v3)"

definition update_host_core ::
  "('k, 's, 'n, 'c) admin_env \<Rightarrow> str \<Rightarrow> host_profile \<Rightarrow> ('k, 's, 'n, 'c) config_store \<Rightarrow>
   ('k, 's, 'n, 'c, host_profile) outcome" where
  "update_host_core e original_name h s =
     do {
       (valid, s1) \<leftarrow> validate_host e h s;
       (case valid of
          Inl err \<Rightarrow> Some (Inl err, s1)
        | Inr _ \<Rightarrow>
            if trim original_name = [] then Some (Inl OriginalNameRequired, s1)
            else
              map_option (\<lambda>(r, s2).
                case r of
                  Inl err \<Rightarrow> (Inl err, s2)
                | Inr h' \<Rightarrow> (Inr h', s2\<lparr>vault_of := after_update e (trim original_name) h (vault_of s2)\<rparr>))
                (edit_config e None (replace_host e (trim original_name) h) s1))
     }"

definition remove_host_core ::
  "('k, 's, 'n, 'c) admin_env \<Rightarrow> str \<Rightarrow> ('k, 's, 'n, 'c) config_store \<Rightarrow>
   ('k, 's, 'n, 'c, unit) outcome" where
  "remove_host_core e name s =
     map_option (\<lambda>(r, s1).
       case r of
         Inl err \<Rightarrow> (Inl err, s1)
       | Inr _ \<Rightarrow>
           (Inr (), s1\<lparr>vault_of := passphrase_cache_evict (''host:'' @ name)
              (delete_account e (host_passphrase_account name)
                (delete_account e (host_account name) (vault_of s1)))\<rparr>))
       (edit_config e None
         (\<lambda>_ c. let hosts = filter (\<lambda>h. hp_name h \<noteq> name) (cf_hosts c)
                in if length hosts = length (cf_hosts c) then Inl (NoHostProfile name)
                   else Inr (Some (c\<lparr>cf_hosts := hosts\<rparr>), ())) s)"

section \<open>Proxies and groups\<close>

definition save_proxy_core ::
  "('k, 's, 'n, 'c) admin_env \<Rightarrow> proxy_profile \<Rightarrow> ('k, 's, 'n, 'c) config_store \<Rightarrow>
   ('k, 's, 'n, 'c, proxy_profile) outcome" where
  "save_proxy_core e proxy s =
     (case normalize_proxy proxy of
        Inl err \<Rightarrow> Some (Inl err, s)
      | Inr p \<Rightarrow>
          edit_config e None
            (\<lambda>_ c. Inr (Some (c\<lparr>cf_proxies := upsert (\<lambda>q. px_id q = px_id p) (\<lambda>_. p) p (cf_proxies c)\<rparr>), p)) s)"

definition drop_proxy :: "str \<Rightarrow> app_config \<Rightarrow> app_config" where
  "drop_proxy i c =
     c\<lparr>cf_proxies := filter (\<lambda>p. px_id p \<noteq> i) (cf_proxies c),
       cf_hosts := map (\<lambda>h. if hp_proxy_id h = Some i then h\<lparr>hp_proxy_id := None\<rparr> else h) (cf_hosts c)\<rparr>"

definition delete_proxy_core ::
  "('k, 's, 'n, 'c) admin_env \<Rightarrow> str \<Rightarrow> ('k, 's, 'n, 'c) config_store \<Rightarrow>
   ('k, 's, 'n, 'c, bool) outcome" where
  "delete_proxy_core e proxy_id s =
     (let i = trim proxy_id
      in if i = [] then Some (Inl IdRequired, s)
         else map_option (\<lambda>(r, s1).
           case r of
             Inr True \<Rightarrow> (Inr True, s1\<lparr>vault_of := delete_account e (proxy_account i) (vault_of s1)\<rparr>)
           | _ \<Rightarrow> (r, s1))
           (edit_config e None
             (\<lambda>_ c. if length (filter (\<lambda>p. px_id p \<noteq> i) (cf_proxies c)) \<noteq> length (cf_proxies c)
                    then Inr (Some (drop_proxy i c), True) else Inr (None, False)) s))"

definition save_host_group_core ::
  "('k, 's, 'n, 'c) admin_env \<Rightarrow> host_group \<Rightarrow> ('k, 's, 'n, 'c) config_store \<Rightarrow>
   ('k, 's, 'n, 'c, host_group) outcome" where
  "save_host_group_core e grp s =
     (case normalize_host_group grp of
        Inl err \<Rightarrow> Some (Inl err, s)
      | Inr g \<Rightarrow>
          edit_config e None
            (\<lambda>_ c. Inr (Some (c\<lparr>cf_groups := upsert (\<lambda>q. hg_id q = hg_id g)
                (\<lambda>q. q\<lparr>hg_name := hg_name g, hg_color := hg_color g, hg_sort_order := hg_sort_order g\<rparr>)
                g (cf_groups c)\<rparr>), g)) s)"

definition drop_group :: "str \<Rightarrow> app_config \<Rightarrow> app_config" where
  "drop_group i c =
     c\<lparr>cf_groups := filter (\<lambda>g. hg_id g \<noteq> i) (cf_groups c),
       cf_hosts := map (\<lambda>h. if hp_group h = i then h\<lparr>hp_group := default_host_group\<rparr> else h) (cf_hosts c)\<rparr>"

text \<open>A group is found by its id or its name; the found group is a member, so it is removed.\<close>

definition delete_host_group_core ::
  "('k, 's, 'n, 'c) admin_env \<Rightarrow> str \<Rightarrow> ('k, 's, 'n, 'c) config_store \<Rightarrow>
   ('k, 's, 'n, 'c, bool) outcome" where
  "delete_host_group_core e group_id s =
     (let i = trim group_id
      in if i = [] then Some (Inl IdRequired, s)
         else if i = default_host_group then Some (Inl DefaultGroupKept, s)
         else edit_config e None
           (\<lambda>_ c. case List.find (\<lambda>g. hg_id g = i \<or> hg_name g = i) (cf_groups c) of
                None \<Rightarrow> Inr (None, False)
              | Some g \<Rightarrow>
                  if hg_id g = default_host_group then Inl DefaultGroupKept
                  else if length (filter (\<lambda>q. hg_id q \<noteq> hg_id g) (cf_groups c)) \<noteq> length (cf_groups c)
                  then Inr (Some (drop_group (hg_id g) c), True) else Inr (None, False)) s)"

section \<open>The file stays well-formed\<close>

definition disk_ok :: "('k, 's, 'n, 'c) config_store \<Rightarrow> bool" where
  "disk_ok s \<longleftrightarrow> (case hosts_json s of ConfigFile c \<Rightarrow> well_formed c | _ \<Rightarrow> True)"

definition groups_ok :: "app_config \<Rightarrow> bool" where
  "groups_ok c \<longleftrightarrow> list_all group_ok (cf_groups c) \<and> default_groups (cf_groups c) = 1"

lemma normalize_total: "groups_ok c \<Longrightarrow> \<exists>c'. normalize_config c = Some c'"
proof -
  assume ok: "groups_ok c"
  then have "map clean_group (cf_groups c) = cf_groups c"
    by (intro map_idI) (auto simp: groups_ok_def list_all_iff clean_group_id)
  moreover have "ensure_default_group (cf_groups c) = cf_groups c"
    using default_in_groups [of "cf_groups c"] ok
    by (cases "cf_groups c") (force simp: ensure_default_group_def list_ex_iff Let_def groups_ok_def)+
  ultimately show ?thesis
    using ok by (simp add: normalize_config_def sort_groups_def groups_ok_def default_groups_def)
qed

lemma normalize_empty: "\<exists>c. normalize_config empty_config = Some c \<and> well_formed c"
proof -
  have "normalize_config empty_config \<noteq> None" by code_simp
  then show ?thesis using normalize_gives_well_formed by blast
qed

lemma well_formed_groups_ok: "well_formed c \<Longrightarrow> groups_ok c"
  by (simp add: well_formed_def groups_ok_def)

lemma internalize_groups [simp]: "cf_groups (fst (internalize_secrets e c v)) = cf_groups c"
  by (simp add: internalize_secrets_def split: prod.split)

lemma load_config_ok:
  assumes "disk_ok s"
  shows "\<exists>r s1. load_config e s = Some (r, s1) \<and> hosts_json s1 = hosts_json s \<and>
    (\<forall>c. r = Inr c \<longrightarrow> groups_ok c)"
proof (cases "hosts_json s")
  case ConfigAbsent
  with normalize_empty show ?thesis by (auto simp: load_config_def well_formed_groups_ok)
next
  case ConfigGarbled
  then show ?thesis by (simp add: load_config_def)
next
  case (ConfigFile raw)
  with assms have wf: "well_formed raw" by (simp add: disk_ok_def)
  then have "normalize_config (migrate_config raw) = Some raw"
    by (simp add: migrate_config_def normalize_well_formed well_formed_def)
  moreover obtain c v where "internalize_secrets e raw (vault_of s) = (c, v)" by fastforce
  moreover from this have "cf_groups c = cf_groups raw" using internalize_groups [of e raw "vault_of s"] by simp
  ultimately show ?thesis
    using wf ConfigFile by (simp add: load_config_def groups_ok_def well_formed_def)
qed

lemma externalize_host_refs:
  "externalize_host e strict_host h v = (Inr h', v') \<Longrightarrow>
     hp_group h' = hp_group h \<and> hp_proxy_id h' = hp_proxy_id h \<and> hp_name h' = hp_name h"
  by (auto simp: externalize_host_def externalize_passphrase_def
      split: option.splits if_splits prod.splits sum.splits)

lemma externalize_hosts_ok:
  "map_until_error (externalize_host e strict_host) hs v = (Inr hs', v') \<Longrightarrow>
     list_all (host_ok c) hs \<Longrightarrow> list_all (host_ok c) hs'"
proof (induction hs arbitrary: v hs')
  case (Cons h hs)
  from Cons.prems(1) obtain g gs v1 where "externalize_host e strict_host h v = (Inr g, v1)"
      "map_until_error (externalize_host e strict_host) hs v1 = (Inr gs, v')" "hs' = g # gs"
    by (auto split: prod.splits sum.splits)
  with Cons externalize_host_refs [of e strict_host h v g v1] show ?case
    by (auto simp: host_ok_def)
qed simp

lemma externalize_proxy_ok:
  "proxy_ok p \<Longrightarrow> proxy_ok (fst (externalize_proxy e p v)) \<and> px_id (fst (externalize_proxy e p v)) = px_id p \<and>
     px_name (fst (externalize_proxy e p v)) = px_name p"
  by (cases p) (auto simp: externalize_proxy_def proxy_ok_def proxy_complete_def trim_fields_def SECRET_REF_def
      split: option.splits prod.splits sum.splits)

lemma externalize_proxies_ok:
  assumes "list_all proxy_ok ps"
  shows "list_all proxy_ok (fst (map_state (externalize_proxy e) ps v)) \<and>
    map px_id (fst (map_state (externalize_proxy e) ps v)) = map px_id ps \<and>
    map px_name (fst (map_state (externalize_proxy e) ps v)) = map px_name ps"
  using assms
proof (induction ps arbitrary: v)
  case (Cons p ps)
  then show ?case
    using externalize_proxy_ok [of p e v] by (auto split: prod.splits) (metis fst_conv)+
qed simp

lemma externalize_well_formed:
  assumes "externalize_secrets e strict_host c v = (Inr c', v')" "well_formed c"
  shows "well_formed c'"
proof -
  from assms(1) obtain hs v1 where hs: "map_until_error (externalize_host e strict_host) (cf_hosts c) v = (Inr hs, v1)"
      "c' = c\<lparr>cf_hosts := hs, cf_proxies := fst (map_state (externalize_proxy e) (cf_proxies c) v1)\<rparr>"
    by (auto simp: externalize_secrets_def split: prod.splits sum.splits)
  let ?ps = "fst (map_state (externalize_proxy e) (cf_proxies c) v1)"
  from assms(2) externalize_proxies_ok [of "cf_proxies c" e v1] have ps:
      "list_all proxy_ok ?ps" "map px_id ?ps = map px_id (cf_proxies c)"
      "map px_name ?ps = map px_name (cf_proxies c)"
    by (auto simp: well_formed_def)
  have "map (\<lambda>p. to_lowercase (px_name p)) ?ps = map (\<lambda>p. to_lowercase (px_name p)) (cf_proxies c)"
    using arg_cong [OF ps(3), of "map to_lowercase"] by (simp add: comp_def)
  moreover have "px_id ` set ?ps = px_id ` set (cf_proxies c)"
    using arg_cong [OF ps(2), of set] by simp
  moreover have "list_all (host_ok c) hs"
    using externalize_hosts_ok [OF hs(1)] assms(2) by (simp add: well_formed_def)
  moreover from this have "host_ok c' h = host_ok c h" for h
    using \<open>px_id ` set ?ps = _\<close> by (simp add: host_ok_def hs(2) split: option.split)
  ultimately show ?thesis
    using assms(2) ps(1) by (simp add: well_formed_def list_all_iff) (simp add: hs(2))
qed

lemma save_config_ok:
  assumes "groups_ok c" "disk_ok s"
  shows "\<exists>r s1. save_config_unlocked_strict_host e c strict_host s = Some (r, s1) \<and> disk_ok s1"
proof -
  from normalize_total [OF assms(1)] obtain n where n: "normalize_config c = Some n" by blast
  then have "well_formed n" by (rule normalize_gives_well_formed)
  with n assms(2) show ?thesis
    using externalize_well_formed [of e strict_host n "vault_of s"]
    by (auto simp: save_config_unlocked_strict_host_def disk_ok_def split: prod.split sum.split)
qed

lemma edit_config_ok:
  assumes "disk_ok s"
    and "\<And>v c c' r. groups_ok c \<Longrightarrow> f v c = Inr (Some c', r) \<Longrightarrow> groups_ok c'"
  shows "\<exists>r s1. edit_config e strict_host f s = Some (r, s1) \<and> disk_ok s1"
proof -
  from load_config_ok [OF assms(1)] obtain l s1 where l: "load_config e s = Some (l, s1)"
      "hosts_json s1 = hosts_json s" "\<forall>c. l = Inr c \<longrightarrow> groups_ok c"
    by blast
  have s1: "disk_ok s1" using assms(1) l(2) by (simp add: disk_ok_def)
  show ?thesis
  proof (cases l)
    case (Inl err)
    with l s1 show ?thesis by (simp add: edit_config_def)
  next
    case (Inr c)
    then have c: "groups_ok c" using l(3) by simp
    show ?thesis
    proof (cases "f (vault_of s1) c")
      case (Inl err)
      with l s1 Inr show ?thesis by (simp add: edit_config_def)
    next
      case (Inr p)
      obtain w r where p: "p = (w, r)" by fastforce
      show ?thesis
      proof (cases w)
        case None
        with l s1 Inr p \<open>l = Inr c\<close> show ?thesis by (simp add: edit_config_def)
      next
        case (Some c')
        with Inr p have "groups_ok c'" using assms(2) [OF c, of "vault_of s1" c' r] by simp
        from save_config_ok [OF this s1] obtain q s2 where
            "save_config_unlocked_strict_host e c' strict_host s1 = Some (q, s2)" "disk_ok s2"
          by blast
        with l Inr p Some \<open>l = Inr c\<close> show ?thesis by (simp add: edit_config_def)
      qed
    qed
  qed
qed

lemma ensure_group_ok: "groups_ok c \<Longrightarrow> groups_ok (ensure_host_group_exists i c)"
proof -
  assume ok: "groups_ok c"
  then have "\<exists>g \<in> set (cf_groups c). hg_id g = default_host_group"
    using default_in_groups [of "cf_groups c"] by (force simp: groups_ok_def)
  with ok show ?thesis
    by (auto simp: ensure_host_group_exists_def groups_ok_def group_ok_def default_groups_append
        default_groups_Cons list_ex_iff Let_def) (simp_all add: default_groups_def)
qed

lemma groups_ok_cong: "cf_groups c' = cf_groups c \<Longrightarrow> groups_ok c' = groups_ok c"
  by (simp add: groups_ok_def)

lemma put_host_ok: "groups_ok c \<Longrightarrow> groups_ok (put_host h c)"
  using ensure_group_ok [of c "hp_group h"] by (simp add: put_host_def Let_def groups_ok_def)

lemma replace_host_ok: "groups_ok c \<Longrightarrow> replace_host e n h v c = Inr (Some c', h') \<Longrightarrow> groups_ok c'"
  using ensure_group_ok [of c "hp_group h"]
  by (auto simp: replace_host_def Let_def groups_ok_def split: option.splits if_splits)

lemma upsert_group_ok:
  assumes "groups_ok c" "normalize_host_group grp = Inr g"
  shows "groups_ok (c\<lparr>cf_groups := upsert (\<lambda>q. hg_id q = hg_id g)
    (\<lambda>q. q\<lparr>hg_name := hg_name g, hg_color := hg_color g, hg_sort_order := hg_sort_order g\<rparr>) g (cf_groups c)\<rparr>)"
proof -
  let ?up = "upsert (\<lambda>q. hg_id q = hg_id g)
    (\<lambda>q. q\<lparr>hg_name := hg_name g, hg_color := hg_color g, hg_sort_order := hg_sort_order g\<rparr>) g"
  have g: "group_ok g" using assms(2)
    by (auto simp: normalize_host_group_def group_ok_def Let_def split: if_splits sum.splits)
  then have "list_all group_ok gs \<Longrightarrow> list_all group_ok (?up gs)" for gs
    by (induction gs) (auto simp: group_ok_def)
  moreover have "default_groups (?up gs) = default_groups gs +
      (if hg_id g \<in> hg_id ` set gs \<or> hg_id g \<noteq> default_host_group then 0 else 1)" for gs
    by (induction gs) (auto simp: default_groups_Cons)
  moreover have "hg_id g \<in> hg_id ` set (cf_groups c) \<or> hg_id g \<noteq> default_host_group"
    using assms(1) default_in_groups [of "cf_groups c"] by (auto simp: groups_ok_def)
  ultimately show ?thesis using assms(1) by (simp add: groups_ok_def)
qed

lemma drop_group_ok: "groups_ok c \<Longrightarrow> i \<noteq> default_host_group \<Longrightarrow> groups_ok (drop_group i c)"
proof -
  assume "groups_ok c" "i \<noteq> default_host_group"
  moreover have "default_groups (filter (\<lambda>g. hg_id g \<noteq> i) gs) = default_groups gs" for gs
    using \<open>i \<noteq> _\<close> by (induction gs) (auto simp: default_groups_Cons)
  ultimately show ?thesis by (auto simp: groups_ok_def drop_group_def list_all_iff)
qed

datatype admin_op =
    AddHost host_profile bool
  | UpdateHost str host_profile
  | RemoveHost str
  | SaveProxy proxy_profile
  | DeleteProxy str
  | SaveGroup host_group
  | DeleteGroup str

text \<open>The store after an operation, whatever it returns.\<close>

fun admin_run ::
  "('k, 's, 'n, 'c) admin_env \<Rightarrow> admin_op \<Rightarrow> ('k, 's, 'n, 'c) config_store \<Rightarrow> ('k, 's, 'n, 'c) config_store option" where
  "admin_run e (AddHost h strict) s = map_option snd (add_host_core_impl e h strict s)"
| "admin_run e (UpdateHost n h) s = map_option snd (update_host_core e n h s)"
| "admin_run e (RemoveHost n) s = map_option snd (remove_host_core e n s)"
| "admin_run e (SaveProxy p) s = map_option snd (save_proxy_core e p s)"
| "admin_run e (DeleteProxy i) s = map_option snd (delete_proxy_core e i s)"
| "admin_run e (SaveGroup g) s = map_option snd (save_host_group_core e g s)"
| "admin_run e (DeleteGroup i) s = map_option snd (delete_host_group_core e i s)"

lemma disk_ok_vault [simp]: "disk_ok (s\<lparr>vault_of := v\<rparr>) = disk_ok s"
  by (simp add: disk_ok_def)

lemma validate_host_ok:
  assumes "disk_ok s"
  shows "\<exists>r s1. validate_host e h s = Some (r, s1) \<and> disk_ok s1"
proof -
  obtain r s1 where "load_config e s = Some (r, s1)" "hosts_json s1 = hosts_json s"
    using load_config_ok [OF assms] by blast
  with assms show ?thesis
    by (auto simp: validate_host_def disk_ok_def split: sum.split option.split)
qed

text \<open>An operation that edits, and what it does to the vault afterwards.\<close>

lemma edit_then_ok:
  assumes "disk_ok s" "\<And>v c c' r. groups_ok c \<Longrightarrow> f v c = Inr (Some c', r) \<Longrightarrow> groups_ok c'"
    and "\<And>r s1. hosts_json (snd (g (r, s1))) = hosts_json s1"
  shows "\<exists>s'. map_option snd (map_option g (edit_config e strict_host f s)) = Some s' \<and> disk_ok s'"
proof -
  have "\<exists>r s1. edit_config e strict_host f s = Some (r, s1) \<and> disk_ok s1"
    using assms(1,2) by (rule edit_config_ok)
  then obtain r s1 where "edit_config e strict_host f s = Some (r, s1)" "disk_ok s1" by blast
  with assms(3) [of r s1] show ?thesis by (auto simp: disk_ok_def)
qed

lemma edit_only_ok:
  assumes "disk_ok s" "\<And>v c c' r. groups_ok c \<Longrightarrow> f v c = Inr (Some c', r) \<Longrightarrow> groups_ok c'"
  shows "\<exists>s'. map_option snd (edit_config e strict_host f s) = Some s' \<and> disk_ok s'"
proof -
  have "\<exists>r s1. edit_config e strict_host f s = Some (r, s1) \<and> disk_ok s1"
    using assms by (rule edit_config_ok)
  then show ?thesis by auto
qed

lemma validated_ok:
  assumes "disk_ok s" "\<And>s1. disk_ok s1 \<Longrightarrow> \<exists>s'. map_option snd (k s1) = Some s' \<and> disk_ok s'"
  shows "\<exists>s'. map_option snd (validate_host e h s \<bind>
    (\<lambda>(valid, s1). case valid of Inl err \<Rightarrow> Some (Inl err, s1) | Inr _ \<Rightarrow> k s1)) = Some s' \<and> disk_ok s'"
proof -
  obtain r s1 where "validate_host e h s = Some (r, s1)" "disk_ok s1"
    using validate_host_ok [OF assms(1)] by blast
  with assms(2) [of s1] show ?thesis by (cases r) auto
qed

lemma admin_run_ok:
  assumes "disk_ok s"
  shows "\<exists>s'. admin_run e op s = Some s' \<and> disk_ok s'"
proof (cases op)
  case (AddHost h strict)
  have "\<exists>s'. map_option snd (edit_config e (if strict then Some (hp_name h) else None)
      (\<lambda>_ c. Inr (Some (put_host h c), h)) s1) = Some s' \<and> disk_ok s'" if "disk_ok s1" for s1
    by (rule edit_only_ok [OF that]) (auto intro: put_host_ok)
  then show ?thesis
    unfolding AddHost admin_run.simps add_host_core_impl_def by (rule validated_ok [OF assms])
next
  case (UpdateHost n h)
  let ?after = "\<lambda>(r, s2). case r of
      Inl err \<Rightarrow> (Inl err, s2)
    | Inr h' \<Rightarrow> (Inr h', s2\<lparr>vault_of := after_update e (trim n) h (vault_of s2)\<rparr>)"
  have "\<exists>s'. map_option snd (if trim n = [] then Some (Inl OriginalNameRequired, s1)
      else map_option ?after (edit_config e None (replace_host e (trim n) h) s1)) = Some s' \<and> disk_ok s'"
    if "disk_ok s1" for s1
  proof (cases "trim n = []")
    case False
    have "\<exists>s'. map_option snd (map_option ?after (edit_config e None (replace_host e (trim n) h) s1)) =
        Some s' \<and> disk_ok s'"
      by (rule edit_then_ok [OF that]) (auto intro: replace_host_ok split: sum.split)
    with False show ?thesis by simp
  qed (use that in simp)
  then show ?thesis
    unfolding UpdateHost admin_run.simps update_host_core_def by (rule validated_ok [OF assms])
next
  case (RemoveHost n)
  show ?thesis
    unfolding RemoveHost admin_run.simps remove_host_core_def
    by (rule edit_then_ok [OF assms])
       (auto simp: Let_def groups_ok_def split: if_splits sum.split)
next
  case (SaveProxy p)
  show ?thesis
  proof (cases "normalize_proxy p")
    case (Inr q)
    show ?thesis
      unfolding SaveProxy admin_run.simps save_proxy_core_def Inr sum.case
      by (rule edit_only_ok [OF assms]) (auto simp: groups_ok_def)
  qed (use assms in \<open>simp add: SaveProxy save_proxy_core_def\<close>)
next
  case (DeleteProxy i)
  show ?thesis
  proof (cases "trim i = []")
    case False
    have "\<exists>s'. map_option snd (map_option (\<lambda>(r, s1). case r of
          Inr True \<Rightarrow> (Inr True, s1\<lparr>vault_of := delete_account e (proxy_account (trim i)) (vault_of s1)\<rparr>)
        | _ \<Rightarrow> (r, s1))
        (edit_config e None
          (\<lambda>_ c. if length (filter (\<lambda>p. px_id p \<noteq> trim i) (cf_proxies c)) \<noteq> length (cf_proxies c)
                 then Inr (Some (drop_proxy (trim i) c), True) else Inr (None, False)) s)) = Some s' \<and> disk_ok s'"
      by (rule edit_then_ok [OF assms])
         (auto simp: groups_ok_def drop_proxy_def split: if_splits sum.split bool.split)
    with False show ?thesis by (simp add: DeleteProxy delete_proxy_core_def Let_def)
  qed (use assms in \<open>simp add: DeleteProxy delete_proxy_core_def\<close>)
next
  case (SaveGroup grp)
  show ?thesis
  proof (cases "normalize_host_group grp")
    case (Inr g)
    show ?thesis
      unfolding SaveGroup admin_run.simps save_host_group_core_def Inr sum.case
      by (rule edit_only_ok [OF assms]) (auto intro: upsert_group_ok [OF _ Inr])
  qed (use assms in \<open>simp add: SaveGroup save_host_group_core_def\<close>)
next
  case (DeleteGroup i)
  let ?f = "\<lambda>_ c. case List.find (\<lambda>g. hg_id g = trim i \<or> hg_name g = trim i) (cf_groups c) of
      None \<Rightarrow> Inr (None, False)
    | Some g \<Rightarrow>
        if hg_id g = default_host_group then Inl DefaultGroupKept
        else if length (filter (\<lambda>q. hg_id q \<noteq> hg_id g) (cf_groups c)) \<noteq> length (cf_groups c)
        then Inr (Some (drop_group (hg_id g) c), True) else Inr (None, False)"
  have "\<exists>s'. map_option snd (edit_config e None ?f s) = Some s' \<and> disk_ok s'"
    by (rule edit_only_ok [OF assms]) (auto intro: drop_group_ok split: option.splits if_splits)
  with assms show ?thesis by (auto simp: DeleteGroup delete_host_group_core_def Let_def)
qed

text \<open>
  Property (C25): the configuration on disk stays well-typed. Whatever sequence of operations runs, with
  the credential store open or locked, every one of them returns, and the file keeps one default
  group, complete groups and proxies, and no host that names a group or proxy it does not have.
\<close>

theorem admin_keeps_file_well_formed:
  assumes "disk_ok s"
  shows "\<exists>s'. foldM (\<lambda>s (e, op). admin_run e op s) s ops = Some s' \<and> disk_ok s'"
  using assms
proof (induction ops arbitrary: s)
  case (Cons x ops)
  obtain e op where x: "x = (e, op)" by (cases x)
  from admin_run_ok [OF Cons.prems, of e op] obtain s1 where "admin_run e op s = Some s1" "disk_ok s1"
    by blast
  with Cons.IH [of s1] show ?case by (simp add: x)
qed simp

lemma admin_keeps_file_well_formed_witness:
  "\<exists>s'. foldM (\<lambda>s (e, op). admin_run e op s) demo_store
     [(demo_env, AddHost demo_web False), (demo_env, DeleteGroup ''default'')] = Some s' \<and> disk_ok s'"
  by (rule admin_keeps_file_well_formed) (simp add: disk_ok_def demo_store_def)

section \<open>Deleting a group\<close>

lemma normalize_keeps:
  assumes "groups_ok c" "normalize_config c = Some n"
  shows "hg_id ` set (cf_groups n) = hg_id ` set (cf_groups c)" "map hp_name (cf_hosts n) = map hp_name (cf_hosts c)"
proof -
  have "map clean_group (cf_groups c) = cf_groups c"
    using assms(1) by (intro map_idI) (auto simp: groups_ok_def list_all_iff clean_group_id)
  moreover have "ensure_default_group (cf_groups c) = cf_groups c"
    using default_in_groups [of "cf_groups c"] assms(1)
    by (cases "cf_groups c") (force simp: ensure_default_group_def list_ex_iff Let_def groups_ok_def)+
  ultimately show "hg_id ` set (cf_groups n) = hg_id ` set (cf_groups c)"
    using normalize_groups [OF assms(2)] by simp
  show "map hp_name (cf_hosts n) = map hp_name (cf_hosts c)"
    using assms(2) by (auto simp: normalize_config_def repair_host_def Let_def)
qed

lemma externalize_names:
  "map_until_error (externalize_host e strict_host) hs v = (Inr hs', v') \<Longrightarrow> map hp_name hs' = map hp_name hs"
proof (induction hs arbitrary: v hs')
  case (Cons h hs)
  from Cons.prems(1) obtain g gs v1 where "externalize_host e strict_host h v = (Inr g, v1)"
      "map_until_error (externalize_host e strict_host) hs v1 = (Inr gs, v')" "hs' = g # gs"
    by (auto split: prod.splits sum.splits)
  with Cons externalize_host_refs [of e strict_host h v g v1] show ?case by auto
qed simp

lemma save_SomeD:
  assumes "save_config_unlocked_strict_host e c strict_host s = Some (Inr r, s')"
  shows "\<exists>n w v. normalize_config c = Some n \<and> externalize_secrets e strict_host n (vault_of s) = (Inr w, v) \<and>
    s' = s\<lparr>hosts_json := ConfigFile w, vault_of := v\<rparr>"
proof -
  from assms obtain n where n: "normalize_config c = Some n"
      "(case externalize_secrets e strict_host n (vault_of s) of
         (Inl err, v) \<Rightarrow> (Inl err, s\<lparr>vault_of := v\<rparr>)
       | (Inr written, v) \<Rightarrow> (Inr (), s\<lparr>hosts_json := ConfigFile written, vault_of := v\<rparr>)) = (Inr r, s')"
    by (auto simp: save_config_unlocked_strict_host_def)
  obtain x v where "externalize_secrets e strict_host n (vault_of s) = (x, v)" by fastforce
  with n show ?thesis by (cases x) auto
qed

lemma saved_file:
  assumes "save_config_unlocked_strict_host e c strict_host s = Some (Inr r, s')" "groups_ok c"
  shows "\<exists>w. hosts_json s' = ConfigFile w \<and> well_formed w \<and>
    hg_id ` set (cf_groups w) = hg_id ` set (cf_groups c) \<and> map hp_name (cf_hosts w) = map hp_name (cf_hosts c)"
proof -
  from assms(1) obtain n w v where n: "normalize_config c = Some n"
      "externalize_secrets e strict_host n (vault_of s) = (Inr w, v)" "hosts_json s' = ConfigFile w"
    using save_SomeD [OF assms(1)] by auto
  have "well_formed w"
    using externalize_well_formed [OF n(2) normalize_gives_well_formed [OF n(1)]] .
  moreover from n(2) have "cf_groups w = cf_groups n" "map hp_name (cf_hosts w) = map hp_name (cf_hosts n)"
    by (auto simp: externalize_secrets_def externalize_names split: prod.splits sum.splits)
  ultimately show ?thesis using normalize_keeps [OF assms(2) n(1)] n(3) by auto
qed

lemma internalize_names [simp]:
  "map hp_name (cf_hosts (fst (internalize_secrets e c v))) = map hp_name (cf_hosts c)"
proof -
  have "map hp_name (fst (map_state (internalize_host e unlocked) hs v)) = map hp_name hs" for unlocked hs v
    by (induction hs arbitrary: v) (auto simp: internalize_host_def split: prod.splits, metis fst_conv)
  then show ?thesis by (simp add: internalize_secrets_def split: prod.split) (metis fst_conv)
qed

text \<open>
  Deleting a group leaves nothing behind. When the deletion reports success, the group
  is a former one other than the default group, it is gone, no host belongs to it any more, and no
  host was lost.
\<close>

theorem deleted_group_is_unreferenced:
  assumes "hosts_json s = ConfigFile c" "well_formed c"
    and "delete_host_group_core e i s = Some (Inr True, s')"
  shows "\<exists>g c'. g \<in> set (cf_groups c) \<and> (hg_id g = trim i \<or> hg_name g = trim i) \<and>
    hg_id g \<noteq> default_host_group \<and> hosts_json s' = ConfigFile c' \<and>
    hg_id g \<notin> hg_id ` set (cf_groups c') \<and> hg_id g \<notin> hp_group ` set (cf_hosts c') \<and>
    map hp_name (cf_hosts c') = map hp_name (cf_hosts c)"
proof -
  have "normalize_config (migrate_config c) = Some c"
    using assms(2) by (simp add: migrate_config_def normalize_well_formed well_formed_def)
  then obtain l s1 where l: "load_config e s = Some (Inr l, s1)" "cf_groups l = cf_groups c"
      "map hp_name (cf_hosts l) = map hp_name (cf_hosts c)"
    using assms(1) internalize_names [of e c "vault_of s"] internalize_groups [of e c "vault_of s"]
    by (cases "internalize_secrets e c (vault_of s)") (simp add: load_config_def)
  obtain g where g: "List.find (\<lambda>g. hg_id g = trim i \<or> hg_name g = trim i) (cf_groups l) = Some g"
      "hg_id g \<noteq> default_host_group"
      "save_config_unlocked_strict_host e (drop_group (hg_id g) l) None s1 = Some (Inr (), s')"
  proof (cases "List.find (\<lambda>g. hg_id g = trim i \<or> hg_name g = trim i) (cf_groups l)")
    case None
    with assms(3) l(1) show thesis by (auto simp: delete_host_group_core_def edit_config_def Let_def split: if_splits)
  next
    case (Some g)
    with assms(3) l(1) have g: "hg_id g \<noteq> default_host_group"
        "map_option (\<lambda>(saved, s2). (case saved of Inl err \<Rightarrow> Inl err | Inr _ \<Rightarrow> Inr True, s2))
           (save_config_unlocked_strict_host e (drop_group (hg_id g) l) None s1) = Some (Inr True, s')"
      by (auto simp: delete_host_group_core_def edit_config_def Let_def split: if_splits)
    then obtain r where "save_config_unlocked_strict_host e (drop_group (hg_id g) l) None s1 = Some (r, s')"
        "(case r of Inl err \<Rightarrow> Inl err | Inr _ \<Rightarrow> Inr True) = (Inr True :: admin_error + bool)"
      by auto
    with Some g(1) that show thesis by (cases r) auto
  qed
  have "groups_ok l" using assms(2) l(2) by (simp add: groups_ok_def well_formed_def)
  then have "groups_ok (drop_group (hg_id g) l)" using g(2) by (rule drop_group_ok)
  from saved_file [OF g(3) this] obtain w where w: "hosts_json s' = ConfigFile w" "well_formed w"
      "hg_id ` set (cf_groups w) = hg_id ` set (cf_groups (drop_group (hg_id g) l))"
      "map hp_name (cf_hosts w) = map hp_name (cf_hosts (drop_group (hg_id g) l))"
    by blast
  have gone: "hg_id g \<notin> hg_id ` set (cf_groups w)" by (auto simp: w(3) drop_group_def)
  moreover have "hg_id g \<notin> hp_group ` set (cf_hosts w)"
    using w(2) gone by (auto simp: well_formed_def list_all_iff host_ok_def)
  moreover have "map hp_name (cf_hosts w) = map hp_name (cf_hosts c)"
    using l(3) by (simp add: w(4) drop_group_def comp_def if_distrib cong: if_cong)
  moreover have "g \<in> set (cf_groups c)" "hg_id g = trim i \<or> hg_name g = trim i"
    using g(1) l(2) by (auto simp: find_Some_iff)
  ultimately show ?thesis using g(2) w(1) by blast
qed

definition ops_config :: app_config where
  "ops_config = demo_config
     \<lparr>cf_groups := default_host_groups @ [\<lparr>hg_id = ''ops'', hg_name = ''Ops'', hg_color = [], hg_sort_order = 0\<rparr>],
      cf_hosts := [demo_web\<lparr>hp_group := ''ops''\<rparr>]\<rparr>"

lemma deleted_group_is_unreferenced_witness:
  "\<exists>s' c'. delete_host_group_core demo_env ''Ops'' (demo_store\<lparr>hosts_json := ConfigFile ops_config\<rparr>) = Some (Inr True, s') \<and>
     hosts_json s' = ConfigFile c' \<and> map hp_name (cf_hosts c') = [''web'']"
proof -
  let ?s = "demo_store\<lparr>hosts_json := ConfigFile ops_config\<rparr>"
  have "map_option fst (delete_host_group_core demo_env ''Ops'' ?s) = Some (Inr True)" by code_simp
  then obtain s' where s': "delete_host_group_core demo_env ''Ops'' ?s = Some (Inr True, s')" by auto
  have "well_formed ops_config" by code_simp
  moreover have "hosts_json ?s = ConfigFile ops_config" by simp
  ultimately show ?thesis
    using deleted_group_is_unreferenced [OF _ _ s', of ops_config] s'
    by (auto simp: ops_config_def demo_web_def)
qed

end
