(* ===== verification/Host_Rename.thy ===== *)
theory Host_Rename
  imports Host_Admin
begin

text \<open>
  Credentials across an update (\<open>update_host_core\<close>): a host that is renamed keeps its password and
  passphrase, and its old accounts are emptied.
\<close>

section \<open>The vault after an update\<close>

lemma move_account_open:
  assumes "aead (ad_crypto e)" "is_open (ad_crypto e) v k m" "old \<noteq> new"
    and "old \<noteq> KEY_CHECK_ACCOUNT" "new \<noteq> KEY_CHECK_ACCOUNT"
  shows "\<exists>m'. is_open (ad_crypto e) (move_account e cleared old new v) k m' \<and> m' old = None \<and>
    (\<forall>a. a \<noteq> old \<longrightarrow> a \<noteq> new \<or> m new \<noteq> None \<longrightarrow> m' a = m a)"
proof -
  let ?moved = "if cleared then v else case get_account e new v of
      (Some _, v') \<Rightarrow> v'
    | (None, v') \<Rightarrow> (case get_account e old v' of
          (Some secret, v'') \<Rightarrow> snd (put_secret e new secret v'')
        | (None, v'') \<Rightarrow> v'')"
  have get: "get_account e a v = (m a, v)" for a
    unfolding get_account_def using assms(1,2) by (rule open_get)
  have "\<exists>m1. is_open (ad_crypto e) ?moved k m1 \<and> (\<forall>a. a \<noteq> old \<longrightarrow> a \<noteq> new \<or> m new \<noteq> None \<longrightarrow> m1 a = m a)"
  proof (cases "cleared \<or> m new \<noteq> None \<or> m old = None")
    case True
    then have "?moved = v" by (auto simp: get split: option.splits)
    with assms(2) show ?thesis by auto
  next
    case False
    then obtain secret where "m old = Some secret" by auto
    with False have "?moved = snd (put_secret e new secret v)" by (simp add: get)
    moreover obtain v' where "put_secret e new secret v = (Inr (), v')"
        "is_open (ad_crypto e) v' k (m(new \<mapsto> secret))"
      using put_open [OF assms(1,2,5)] by blast
    ultimately show ?thesis using False by auto
  qed
  then obtain m1 where m1: "is_open (ad_crypto e) ?moved k m1"
      "\<forall>a. a \<noteq> old \<longrightarrow> a \<noteq> new \<or> m new \<noteq> None \<longrightarrow> m1 a = m a" by blast
  have "move_account e cleared old new v = delete_account e old ?moved"
    by (simp only: move_account_def Let_def)
  moreover have "is_open (ad_crypto e) (delete_account e old ?moved) k (m1(old := None))"
    unfolding delete_account_def using assms(1) m1(1) by (rule open_delete)
  ultimately show ?thesis using m1(2) by (intro exI [of _ "m1(old := None)"]) simp
qed

lemma evict_open [simp]:
  "is_open cr (passphrase_cache_evict key v) k m = is_open cr v k m"
  by (simp add: is_open_def holds_def passphrase_cache_evict_def backend_is_memory_def)

lemma after_update_open:
  assumes "aead (ad_crypto e)" "is_open (ad_crypto e) v k m" "original \<noteq> hp_name h"
    and "hp_password h = None" "hp_passphrase h = None"
  shows "\<exists>m'. is_open (ad_crypto e) (after_update e original h v) k m' \<and>
    m' (host_account original) = None \<and> m' (host_passphrase_account original) = None \<and>
    (\<forall>a. a \<notin> {host_account original, host_passphrase_account original} \<longrightarrow>
       a \<notin> host_accounts h \<or> m a \<noteq> None \<longrightarrow> m' a = m a)"
proof -
  obtain m1 where m1: "is_open (ad_crypto e) (move_account e False (host_account original) (host_account (hp_name h)) v) k m1"
      "m1 (host_account original) = None"
      "\<forall>a. a \<noteq> host_account original \<longrightarrow> a \<noteq> host_account (hp_name h) \<or> m (host_account (hp_name h)) \<noteq> None \<longrightarrow> m1 a = m a"
    using move_account_open [OF assms(1,2), of "host_account original" "host_account (hp_name h)" False] assms(3)
    by auto
  obtain m2 where m2: "is_open (ad_crypto e) (move_account e False (host_passphrase_account original)
        (host_passphrase_account (hp_name h))
        (move_account e False (host_account original) (host_account (hp_name h)) v)) k m2"
      "m2 (host_passphrase_account original) = None"
      "\<forall>a. a \<noteq> host_passphrase_account original \<longrightarrow> a \<noteq> host_passphrase_account (hp_name h) \<or>
        m1 (host_passphrase_account (hp_name h)) \<noteq> None \<longrightarrow> m2 a = m1 a"
    using move_account_open [OF assms(1) m1(1), of "host_passphrase_account original"
        "host_passphrase_account (hp_name h)" False] assms(3)
    by auto
  have "is_open (ad_crypto e) (after_update e original h v) k m2"
    using m2(1) assms(3-5) by (simp add: after_update_def)
  moreover have "m2 (host_account original) = None"
    using m2(3) m1(2) by simp
  moreover have "m2 a = m a" if "a \<notin> {host_account original, host_passphrase_account original}"
      "a \<notin> host_accounts h \<or> m a \<noteq> None" for a
  proof -
    have "m1 a = m a" using m1(3) that by (auto simp: host_accounts_def)
    moreover have "m1 (host_passphrase_account (hp_name h)) = m (host_passphrase_account (hp_name h))"
      using m1(3) by simp
    ultimately show ?thesis using m2(3) that by (auto simp: host_accounts_def)
  qed
  ultimately show ?thesis using m2(2) by blast
qed

section \<open>The configuration after an update\<close>

lemma position_Some:
  "position p xs = Some i \<Longrightarrow> i < length xs \<and> p (xs ! i)"
  by (induction xs arbitrary: i) (auto split: if_splits)

lemma position_None: "position p xs = None \<longleftrightarrow> \<not> (\<exists>x \<in> set xs. p x)"
  by (induction xs) auto

lemma position_unique:
  assumes "distinct (map f xs)" "x \<in> set xs"
  shows "\<exists>i. position (\<lambda>y. f y = f x) xs = Some i \<and> i < length xs \<and> xs ! i = x"
proof -
  obtain i where i: "position (\<lambda>y. f y = f x) xs = Some i"
    using assms(2) position_None [of "\<lambda>y. f y = f x" xs] by (cases "position (\<lambda>y. f y = f x) xs") auto
  with position_Some have "i < length xs" "f (xs ! i) = f x" by fastforce+
  moreover from assms(2) obtain j where "j < length xs" "xs ! j = x" by (auto simp: in_set_conv_nth)
  ultimately have "i = j" using assms(1) by (metis length_map nth_eq_iff_index_eq nth_map)
  with i \<open>j < _\<close> \<open>xs ! j = x\<close> show ?thesis by blast
qed

lemma repair_host_fields [simp]:
  "hp_name (repair_host gs ps h) = hp_name h" "hp_password (repair_host gs ps h) = hp_password h"
  "hp_passphrase (repair_host gs ps h) = hp_passphrase h"
  by (simp_all add: repair_host_def)

lemma normalize_same_proxies:
  assumes "well_formed c" "normalize_config (c\<lparr>cf_groups := gs, cf_hosts := hs\<rparr>) = Some n"
  shows "cf_proxies n = cf_proxies c"
proof -
  from assms(1) have ps: "list_all proxy_ok (cf_proxies c)"
      "sorted (map (\<lambda>p. to_lowercase (px_name p)) (cf_proxies c))"
    by (auto simp: well_formed_def)
  then have "map trim_fields (cf_proxies c) = cf_proxies c"
    by (intro map_idI) (auto simp: list_all_iff proxy_ok_def)
  moreover from ps have "filter proxy_complete (cf_proxies c) = cf_proxies c"
    by (auto simp: filter_id_conv list_all_iff proxy_ok_def)
  ultimately have "sort_key (\<lambda>p. to_lowercase (px_name p)) (filter proxy_complete (map trim_fields (cf_proxies c))) = cf_proxies c"
    using ps(2) by (simp add: sort_key_id_if_sorted)
  with assms(2) show ?thesis by (auto simp: normalize_config_def Let_def)
qed

lemma normalize_hosts:
  "normalize_config c = Some n \<Longrightarrow> \<exists>gs ps. cf_hosts n = map (repair_host gs ps) (cf_hosts c)"
proof -
  assume "normalize_config c = Some n"
  moreover from this obtain z where "sort_groups (map clean_group (ensure_default_group (cf_groups c))) = Some z"
    by (auto simp: normalize_config_def)
  ultimately have "cf_hosts n = map (repair_host (set (map hg_id z)) (set (map px_id (sort_key (\<lambda>p. to_lowercase (px_name p))
      (filter proxy_complete (map trim_fields (cf_proxies c))))))) (cf_hosts c)"
    by (auto simp: normalize_config_def Let_def)
  then show ?thesis by blast
qed

lemma normalize_plain:
  assumes "well_formed c" "plain_config c" "normalize_config (c\<lparr>cf_groups := gs, cf_hosts := hs\<rparr>) = Some n"
    and "distinct (map hp_name hs)"
    and "list_all (\<lambda>h. plain_field (hp_password h) \<and> plain_field (hp_passphrase h)) hs"
  shows "plain_config n"
proof -
  obtain gids pids where "cf_hosts n = map (repair_host gids pids) hs"
    using normalize_hosts [OF assms(3)] by auto
  with assms(2,4,5) normalize_same_proxies [OF assms(1,3)] show ?thesis
    by (simp add: plain_config_def list_all_iff comp_def)
qed

lemma ensure_group_fields [simp]:
  "cf_hosts (ensure_host_group_exists i c) = cf_hosts c"
  "cf_proxies (ensure_host_group_exists i c) = cf_proxies c"
  by (simp_all add: ensure_host_group_exists_def Let_def)

lemma ensure_group_shape: "\<exists>gs. ensure_host_group_exists i c = c\<lparr>cf_groups := gs\<rparr>"
proof -
  have "c = c\<lparr>cf_groups := cf_groups c\<rparr>" by simp
  then show ?thesis unfolding ensure_host_group_exists_def Let_def by (metis (full_types))
qed

lemma plain_not_ref: "plain_field f \<Longrightarrow> \<not> field_is_ref f"
  by (cases f) (auto simp: field_is_ref_def kept_as_is_def)

section \<open>Renaming\<close>

lemma kept_credentials:
  "hp_password h = None \<Longrightarrow> hp_passphrase h = None \<Longrightarrow>
    hp_name (keep_credentials h h0) = hp_name h \<and> hp_password (keep_credentials h h0) = hp_password h0 \<and>
    hp_passphrase (keep_credentials h h0) = hp_passphrase h0"
  by (simp add: keep_credentials_def keep_field_def)

lemma replace_host_renames:
  assumes "plain_config c" "h0 \<in> set (cf_hosts c)" "hp_name h \<notin> hp_name ` set (cf_hosts c)"
  shows "\<exists>i. i < length (cf_hosts c) \<and> cf_hosts c ! i = h0 \<and>
    replace_host e (hp_name h0) h v c =
      Inr (Some ((ensure_host_group_exists (hp_group h) c)
        \<lparr>cf_hosts := sort_key hp_name ((cf_hosts c)[i := keep_credentials h h0])\<rparr>), keep_credentials h h0)"
proof -
  note plain = plain_configD [OF assms(1)]
  from position_unique [OF plain(1) assms(2)] obtain i where i:
      "position (\<lambda>g. hp_name g = hp_name h0) (cf_hosts c) = Some i" "i < length (cf_hosts c)" "cf_hosts c ! i = h0"
    by blast
  have fields: "plain_field (hp_password h0)" "plain_field (hp_passphrase h0)"
    using plain(3) assms(2) by (auto simp: list_all_iff)
  have "hp_name h0 \<noteq> hp_name h" using assms(2,3) by (metis image_eqI)
  moreover have "\<not> list_ex (\<lambda>g. hp_name g = hp_name h) (cf_hosts c)"
    using assms(3) by (metis (mono_tags) image_eqI list_ex_iff)
  ultimately show ?thesis
    using i plain_not_ref [OF fields(1)] plain_not_ref [OF fields(2)]
    by (intro exI [of _ i]) (simp add: replace_host_def Let_def)
qed

lemma renamed_hosts:
  assumes "plain_config c" "i < length (cf_hosts c)" "cf_hosts c ! i = h0"
    and "hp_name h \<notin> hp_name ` set (cf_hosts c)"
    and "hp_name h' = hp_name h" "hp_password h' = hp_password h0" "hp_passphrase h' = hp_passphrase h0"
    and "hs = sort_key hp_name ((cf_hosts c)[i := h'])"
  shows "set hs = insert h' (set (cf_hosts c) - {h0})"
    and "distinct (map hp_name hs)"
    and "list_all (\<lambda>h. plain_field (hp_password h) \<and> plain_field (hp_passphrase h)) hs"
    and "hp_name h0 \<notin> hp_name ` set hs"
proof -
  note plain = plain_configD [OF assms(1)]
  have h0: "h0 \<in> set (cf_hosts c)" using assms(2,3) by auto
  then have ren: "hp_name h0 \<noteq> hp_name h" using assms(4) by (metis image_eqI)
  show set_hs: "set hs = insert h' (set (cf_hosts c) - {h0})"
    using assms(2,3) plain(1) by (simp add: assms(8) set_update_distinct distinct_map)
  have "distinct (map hp_name ((cf_hosts c)[i := h']))"
    using plain(1) assms(4,5) by (simp add: map_update distinct_list_update)
  then show "distinct (map hp_name hs)" by (simp add: assms(8) distinct_map)
  show "list_all (\<lambda>h. plain_field (hp_password h) \<and> plain_field (hp_passphrase h)) hs"
    using plain(3) h0 assms(6,7) unfolding list_all_iff set_hs by auto
  have "g = h0" if "g \<in> set (cf_hosts c)" "hp_name g = hp_name h0" for g
    using that h0 plain(1) by (auto simp: distinct_map inj_on_def)
  then show "hp_name h0 \<notin> hp_name ` set hs" using ren assms(5) by (auto simp: set_hs)
qed

lemma rename_edits:
  assumes "aead (ad_crypto e)" "synced e s c k m" "h0 \<in> set (cf_hosts c)"
    and "hp_name h \<notin> hp_name ` set (cf_hosts c)" "hp_password h = None" "hp_passphrase h = None"
  shows "\<exists>s' c' m'. edit_config e None (replace_host e (hp_name h0) h) s = Some (Inr (keep_credentials h h0), s') \<and>
    synced e s' c' k m' \<and> hp_name h0 \<notin> hp_name ` set (cf_hosts c') \<and>
    (\<exists>g \<in> set (cf_hosts c'). hp_name g = hp_name h \<and> hp_password g = hp_password h0 \<and>
       hp_passphrase g = hp_passphrase h0)"
proof -
  let ?h' = "keep_credentials h h0"
  let ?c1 = "ensure_host_group_exists (hp_group h) c"
  from assms(2) have s: "is_open (ad_crypto e) (vault_of s) k m" "well_formed c" "plain_config c"
    by (auto simp: synced_def)
  have h': "hp_name ?h' = hp_name h" "hp_password ?h' = hp_password h0" "hp_passphrase ?h' = hp_passphrase h0"
    using kept_credentials [OF assms(5,6)] by auto
  from replace_host_renames [OF s(3) assms(3,4), of e] obtain i where i: "i < length (cf_hosts c)" "cf_hosts c ! i = h0"
      and replaced: "replace_host e (hp_name h0) h (vault_of s) c =
        Inr (Some (?c1\<lparr>cf_hosts := sort_key hp_name ((cf_hosts c)[i := ?h'])\<rparr>), ?h')"
    by blast
  define hs where "hs = sort_key hp_name ((cf_hosts c)[i := ?h'])"
  note hs = renamed_hosts [OF s(3) i assms(4) h' hs_def]
  obtain gs where gs: "?c1\<lparr>cf_hosts := hs\<rparr> = c\<lparr>cf_groups := gs, cf_hosts := hs\<rparr>"
    using ensure_group_shape [of "hp_group h" c] by auto
  have "groups_ok (?c1\<lparr>cf_hosts := hs\<rparr>)"
    using ensure_group_ok [OF well_formed_groups_ok [OF s(2)], of "hp_group h"] by (simp add: groups_ok_def)
  then obtain n where n: "normalize_config (?c1\<lparr>cf_hosts := hs\<rparr>) = Some n"
    using normalize_total by blast
  with hs(2,3) gs s have "plain_config n" by (simp add: normalize_plain)
  from save_synced [OF assms(1) s(1) n this] obtain s1 m1 where s1:
      "save_config_unlocked_strict_host e (?c1\<lparr>cf_hosts := hs\<rparr>) None s = Some (Inr (), s1)" "synced e s1 n k m1"
    by blast
  have edit: "edit_config e None (replace_host e (hp_name h0) h) s = Some (Inr ?h', s1)"
    using load_synced [OF assms(1,2)] replaced s1(1) by (simp add: edit_config_def hs_def)
  obtain gids pids where hosts_n: "cf_hosts n = map (repair_host gids pids) hs"
    using normalize_hosts [OF n] by auto
  have "hp_name h0 \<notin> hp_name ` set (cf_hosts n)"
    using hs(4) by (simp add: hosts_n image_image)
  moreover have "repair_host gids pids ?h' \<in> set (cf_hosts n)" by (simp add: hosts_n hs(1))
  ultimately show ?thesis using edit s1(2) h' by (metis repair_host_fields)
qed

lemma after_update_synced:
  assumes "aead (ad_crypto e)" "synced e s c k m" "old \<notin> hp_name ` set (cf_hosts c)"
    and "old \<noteq> hp_name h" "hp_password h = None" "hp_passphrase h = None"
  shows "\<exists>m'. synced e (s\<lparr>vault_of := after_update e old h (vault_of s)\<rparr>) c k m' \<and>
    m' (host_account old) = None \<and> m' (host_passphrase_account old) = None"
proof -
  from assms(2) have m: "is_open (ad_crypto e) (vault_of s) k m" "list_all (has_host m) (cf_hosts c)"
      "list_all (has_proxy m) (cf_proxies c)"
    by (auto simp: synced_def)
  from after_update_open [OF assms(1) m(1) assms(4-6)] obtain m' where m':
      "is_open (ad_crypto e) (after_update e old h (vault_of s)) k m'"
      "m' (host_account old) = None" "m' (host_passphrase_account old) = None"
      "\<forall>a. a \<notin> {host_account old, host_passphrase_account old} \<longrightarrow>
        a \<notin> host_accounts h \<or> m a \<noteq> None \<longrightarrow> m' a = m a"
    by blast
  have keep: "m' a = Some x" if "m a = Some x" "a \<noteq> host_account old" "a \<noteq> host_passphrase_account old" for a x
    using m'(4) that by auto
  have "has_host m' g" if "g \<in> set (cf_hosts c)" for g
  proof -
    have "hp_name g \<noteq> old" using assms(3) that by (metis image_eqI)
    moreover have "has_host m g" using m(2) that by (simp add: list_all_iff)
    ultimately show ?thesis
      using keep [of "host_account (hp_name g)"] keep [of "host_passphrase_account (hp_name g)"]
      by (cases "hp_password g"; cases "hp_passphrase g") (simp_all add: has_host_def has_field_def)
  qed
  then have "list_all (has_host m') (cf_hosts c)" by (simp add: list_all_iff)
  moreover have "list_all (has_proxy m') (cf_proxies c)"
    using m(3) keep by (auto simp: list_all_iff has_proxy_def has_field_def split: option.splits)
  ultimately show ?thesis using assms(2) m'(1-3) by (auto simp: synced_def)
qed

text \<open>
  Renaming a host keeps its credentials. With the store open, a rename that sends no
  credentials succeeds; the host is listed under its new name with the old password and passphrase,
  the file and the vault agree, and the vault has nothing left under the old name.
\<close>

theorem rename_keeps_credentials:
  assumes "aead (ad_crypto e)" "synced e s c k m" "h0 \<in> set (cf_hosts c)"
    and "trim original = hp_name h0" "hp_name h0 \<noteq> []" "hp_name h \<notin> hp_name ` set (cf_hosts c)"
    and "hp_password h = None" "hp_passphrase h = None" "validate_host e h s = Some (Inr (), s)"
  shows "\<exists>s' h' c' m'. update_host_core e original h s = Some (Inr h', s') \<and> synced e s' c' k m' \<and>
    (\<exists>g \<in> set (cf_hosts c'). hp_name g = hp_name h \<and> hp_password g = hp_password h0 \<and>
       hp_passphrase g = hp_passphrase h0) \<and>
    m' (host_account (hp_name h0)) = None \<and> m' (host_passphrase_account (hp_name h0)) = None"
proof -
  from rename_edits [OF assms(1-3,6-8)] obtain s1 n m1 where edit:
      "edit_config e None (replace_host e (hp_name h0) h) s = Some (Inr (keep_credentials h h0), s1)"
      "synced e s1 n k m1" "hp_name h0 \<notin> hp_name ` set (cf_hosts n)"
      "\<exists>g \<in> set (cf_hosts n). hp_name g = hp_name h \<and> hp_password g = hp_password h0 \<and>
         hp_passphrase g = hp_passphrase h0"
    by blast
  have "hp_name h0 \<noteq> hp_name h" using assms(3,6) by (metis image_eqI)
  from after_update_synced [OF assms(1) edit(2,3) this assms(7,8)] obtain m2 where m2:
      "synced e (s1\<lparr>vault_of := after_update e (hp_name h0) h (vault_of s1)\<rparr>) n k m2"
      "m2 (host_account (hp_name h0)) = None" "m2 (host_passphrase_account (hp_name h0)) = None"
    by blast
  have "update_host_core e original h s =
      Some (Inr (keep_credentials h h0), s1\<lparr>vault_of := after_update e (hp_name h0) h (vault_of s1)\<rparr>)"
    using assms(4,5,9) edit(1) by (simp add: update_host_core_def)
  with edit(4) m2 show ?thesis by (intro exI conjI)
qed

definition renamed_web :: host_profile where
  "renamed_web = demo_web\<lparr>hp_name := ''web2'', hp_password := None, hp_passphrase := None\<rparr>"

lemma rename_keeps_credentials_witness:
  "\<exists>s h' s'. save_config_unlocked_strict_host demo_env demo_config None demo_store = Some (Inr (), s) \<and>
     update_host_core demo_env ''web'' renamed_web s = Some (Inr h', s')"
proof -
  have a: "aead (ad_crypto demo_env)" "is_open (ad_crypto demo_env) (vault_of demo_store) (''pw'', 7) Map.empty"
    using toy_aead demo_store_open by (simp_all add: demo_env_def)
  from save_synced [OF a normalize_well_formed [OF demo_config_ok(1)] demo_config_ok(2)] obtain s m where s:
      "save_config_unlocked_strict_host demo_env demo_config None demo_store = Some (Inr (), s)"
      "synced demo_env s demo_config (''pw'', 7) m"
    by blast
  have h: "demo_web \<in> set (cf_hosts demo_config)" "trim ''web'' = hp_name demo_web" "hp_name demo_web \<noteq> []"
      "hp_name renamed_web \<notin> hp_name ` set (cf_hosts demo_config)" "hp_password renamed_web = None"
      "hp_passphrase renamed_web = None"
    by (simp_all add: demo_config_def demo_web_def renamed_web_def trim_def trim_start_def trim_end_def is_ws_def)
  have "trim (hp_name renamed_web) = ''web2''" "validate_osc_name ''web2'' = Inr ()"
      "trim (hp_host renamed_web) \<noteq> []" "hp_proxy_id renamed_web = None"
    by code_simp+
  then have "validate_host demo_env renamed_web s = Some (Inr (), s)"
    by (simp add: validate_host_def trimmed_or_none_def)
  from rename_keeps_credentials [OF a(1) s(2) h this] s(1) show ?thesis by blast
qed

text \<open>
  Blanks around a name are ignored when it is checked but kept when it is stored, while the original
  name of an update is trimmed: such a host can be added and never be updated.
\<close>

lemma blank_name_cannot_be_updated:
  "(case add_host_core_impl demo_env (demo_web\<lparr>hp_name := '' web''\<rparr>) False demo_store of
      Some (Inr _, s) \<Rightarrow>
        map_option fst (update_host_core demo_env '' web'' (demo_web\<lparr>hp_name := '' web''\<rparr>) s)
    | _ \<Rightarrow> None) = Some (Inl (HostNotFound ''web''))"
  by code_simp

end
