(* ===== verification/Audit_Query.thy ===== *)
theory Audit_Query
  imports Audit_Log Host_Config Glob
begin

text \<open>
  \<open>store.rs\<close>: reading the audit log. \<open>visit_lines_reverse\<close> reads the file backwards in chunks,
  \<open>list_audit_raw\<close> selects the newest matching entries, the exports write them as JSON lines or CSV.
  A file is its bytes. Parsing an entry or an instant and rendering numbers, ids and instants are
  functions of third parties (serde, chrono, uuid) and arguments here.
\<close>

section \<open>UTF-8\<close>

definition byte_in :: "nat \<Rightarrow> nat \<Rightarrow> char \<Rightarrow> bool" where
  "byte_in lo hi c \<longleftrightarrow> lo \<le> (of_char c :: nat) \<and> of_char c \<le> hi"

text \<open>\<open>str::from_utf8\<close> accepts exactly the well-formed sequences of the Unicode standard.\<close>

fun utf8_valid :: "str \<Rightarrow> bool" where
  "utf8_valid [] = True"
| "utf8_valid (a # s) =
     (if byte_in 0 0x7F a then utf8_valid s
      else if byte_in 0xC2 0xDF a then
        (case s of b # s1 \<Rightarrow> byte_in 0x80 0xBF b \<and> utf8_valid s1 | _ \<Rightarrow> False)
      else if byte_in 0xE0 0xEF a then
        (case s of
           b # c # s2 \<Rightarrow>
             byte_in (if byte_in 0xE0 0xE0 a then 0xA0 else 0x80) (if byte_in 0xED 0xED a then 0x9F else 0xBF) b \<and>
             byte_in 0x80 0xBF c \<and> utf8_valid s2
         | _ \<Rightarrow> False)
      else if byte_in 0xF0 0xF4 a then
        (case s of
           b # c # d # s3 \<Rightarrow>
             byte_in (if byte_in 0xF0 0xF0 a then 0x90 else 0x80) (if byte_in 0xF4 0xF4 a then 0x8F else 0xBF) b \<and>
             byte_in 0x80 0xBF c \<and> byte_in 0x80 0xBF d \<and> utf8_valid s3
         | _ \<Rightarrow> False)
      else False)"

section \<open>Reading lines backwards\<close>

datatype read_error = NotUtf8

text \<open>A visitor has a state and says whether to go on. \<open>Inl True\<close> is the early \<open>return Ok\<close>.\<close>

definition visit_line ::
  "(str \<Rightarrow> 'v \<Rightarrow> bool \<times> 'v) \<Rightarrow> str \<Rightarrow> 'v \<Rightarrow> ((read_error + unit) + unit) \<times> 'v" where
  "visit_line visit line st =
     (if line = [] then (Inr (), st)
      else if \<not> utf8_valid line then (Inl (Inl NotUtf8), st)
      else case visit line st of
        (True, st') \<Rightarrow> (Inr (), st')
      | (False, st') \<Rightarrow> (Inl (Inr ()), st'))"

text \<open>The last newline of a buffer splits it.\<close>

definition split_last_newline :: "str \<Rightarrow> (str \<times> str) option" where
  "split_last_newline buf =
     (if newline \<in> set buf
      then Some (rev (drop 1 (dropWhile (\<lambda>c. c \<noteq> newline) (rev buf))), rev (takeWhile (\<lambda>c. c \<noteq> newline) (rev buf)))
      else None)"

lemma split_last_newline_length: "split_last_newline buf = Some (a, b) \<Longrightarrow> length a < length buf"
proof -
  assume "split_last_newline buf = Some (a, b)"
  then have a: "a = rev (drop 1 (dropWhile (\<lambda>c. c \<noteq> newline) (rev buf)))" and n: "newline \<in> set buf"
    by (auto simp: split_last_newline_def split: if_splits)
  have "dropWhile (\<lambda>c. c \<noteq> newline) (rev buf) \<noteq> []" using n by (auto simp: dropWhile_eq_Nil_conv)
  moreover have "length (dropWhile (\<lambda>c. c \<noteq> newline) (rev buf)) \<le> length (rev buf)"
    by (rule length_dropWhile_le)
  ultimately show ?thesis
    by (cases "dropWhile (\<lambda>c. c \<noteq> newline) (rev buf)") (simp_all add: a)
qed

text \<open>The inner loop: the lines of the buffer that are complete, last one first.\<close>

function scan_buffer ::
  "(str \<Rightarrow> 'v \<Rightarrow> bool \<times> 'v) \<Rightarrow> str \<Rightarrow> 'v \<Rightarrow> ((read_error + unit) + str) \<times> 'v" where
  "scan_buffer visit buf st =
     (case split_last_newline buf of
        None \<Rightarrow> (Inr buf, st)
      | Some (before, line) \<Rightarrow>
          (case visit_line visit line st of
             (Inl r, st') \<Rightarrow> (Inl r, st')
           | (Inr _, st') \<Rightarrow> scan_buffer visit before st'))"
  by pat_completeness auto
termination
  by (relation "measure (\<lambda>(visit, buf, st). length buf)") (auto dest!: split_last_newline_length)

declare scan_buffer.simps [simp del]

text \<open>The outer loop. \<open>content\<close> is what precedes the position; a chunk of size 0 would not advance.\<close>

function read_chunks ::
  "nat \<Rightarrow> (str \<Rightarrow> 'v \<Rightarrow> bool \<times> 'v) \<Rightarrow> str \<Rightarrow> str \<Rightarrow> 'v \<Rightarrow> (read_error + unit) \<times> 'v" where
  "read_chunks chunk visit content carry st =
     (if content = [] \<or> chunk = 0 then
        (case visit_line visit carry st of
           (Inl r, st') \<Rightarrow> (r, st')
         | (Inr _, st') \<Rightarrow> (Inr (), st'))
      else
        (let pos = length content - min chunk (length content)
         in case scan_buffer visit (drop pos content @ carry) st of
              (Inl r, st') \<Rightarrow> (r, st')
            | (Inr carry', st') \<Rightarrow> read_chunks chunk visit (take pos content) carry' st'))"
  by pat_completeness auto
termination by (relation "measure (\<lambda>(chunk, visit, content, carry, st). length content)") auto

declare read_chunks.simps [simp del]

definition CHUNK_SIZE :: nat where
  "CHUNK_SIZE = 64 * 1024"

definition visit_lines_reverse ::
  "(str \<Rightarrow> 'v \<Rightarrow> bool \<times> 'v) \<Rightarrow> str \<Rightarrow> 'v \<Rightarrow> (read_error + unit) \<times> 'v" where
  "visit_lines_reverse visit content st = read_chunks CHUNK_SIZE visit content [] st"

section \<open>Queries\<close>

record audit_filter =
  af_host :: "str option"
  af_risk_level :: "risk_level option"
  af_exit_code :: "int option"
  af_since :: "str option"
  af_until :: "str option"
  af_limit :: nat
  af_search :: "str option"
  af_command_pattern :: "str option"
  af_host_env :: "str option"
  af_host_role :: "str option"
  af_host_owner :: "str option"
  af_decision :: "audit_decision option"
  af_agent :: "str option"
  af_host_scope :: "str list option"

text \<open>\<open>opt\<close> is a field of the filter that is absent or has to match.\<close>

definition if_given :: "'a option \<Rightarrow> ('a \<Rightarrow> bool) \<Rightarrow> bool" where
  "if_given opt p \<longleftrightarrow> (case opt of None \<Rightarrow> True | Some x \<Rightarrow> p x)"

definition label_matches :: "str option \<Rightarrow> str option \<Rightarrow> bool" where
  "label_matches wanted label \<longleftrightarrow>
     if_given wanted (\<lambda>v. case label of None \<Rightarrow> False | Some l \<Rightarrow> eq_ignore_ascii_case l v)"

text \<open>
  The hosts that match the label filters; a name that occurs twice has the labels of its last profile.
  A configuration that cannot be read counts as empty.
\<close>

definition matching_hosts :: "config option \<Rightarrow> audit_filter \<Rightarrow> str set option" where
  "matching_hosts config f =
     (if af_host_env f = None \<and> af_host_role f = None \<and> af_host_owner f = None then None
      else
        (let profiles = (case config of Some hs \<Rightarrow> hs | None \<Rightarrow> []);
             labels = map_of (rev (map (\<lambda>h. (hp_name h, hp_env h, hp_role h, hp_owner h)) profiles))
         in Some (set (filter
              (\<lambda>n. case labels n of
                  Some (env, role, owner) \<Rightarrow>
                    label_matches (af_host_env f) env \<and> label_matches (af_host_role f) role \<and>
                    label_matches (af_host_owner f) owner
                | None \<Rightarrow> False)
              (map hp_name profiles)))))"

definition in_scope :: "str list option \<Rightarrow> audit_entry \<Rightarrow> bool" where
  "in_scope scope e \<longleftrightarrow> if_given scope (list_ex (\<lambda>host. eq_ignore_ascii_case host (ae_host e)))"

text \<open>\<open>parse_instant\<close> is the parser of chrono; a bound that does not parse is ignored.\<close>

definition bound :: "(str \<Rightarrow> int option) \<Rightarrow> str option \<Rightarrow> int option" where
  "bound parse_instant field = Option.bind field parse_instant"

definition matches_filter ::
  "(str \<Rightarrow> int option) \<Rightarrow> config option \<Rightarrow> audit_filter \<Rightarrow> audit_entry \<Rightarrow> bool" where
  "matches_filter parse_instant config f e \<longleftrightarrow>
     in_scope (af_host_scope f) e \<and>
     if_given (af_host f) (\<lambda>h. eq_ignore_ascii_case (ae_host e) h) \<and>
     if_given (af_risk_level f) (\<lambda>r. ae_risk_level e = r) \<and>
     if_given (af_exit_code f) (\<lambda>c. ae_exit_code e = Some c) \<and>
     if_given (af_decision f) (\<lambda>d. ae_decision e = Some d) \<and>
     if_given (af_agent f) (\<lambda>a. case ae_source e of Some s \<Rightarrow> eq_ignore_ascii_case s a | None \<Rightarrow> False) \<and>
     if_given (bound parse_instant (af_since f)) (\<lambda>t. ae_ts e \<ge> t) \<and>
     if_given (bound parse_instant (af_until f)) (\<lambda>t. ae_ts e \<le> t) \<and>
     if_given (af_search f) (\<lambda>s. let needle = to_lowercase s in
       contains (to_lowercase (ae_command e)) needle \<or> contains (to_lowercase (ae_host e)) needle \<or>
       contains (to_lowercase (case ae_source e of Some x \<Rightarrow> x | None \<Rightarrow> [])) needle) \<and>
     if_given (af_command_pattern f) (\<lambda>p. glob_match p (ae_command e)) \<and>
     if_given (matching_hosts config f) (\<lambda>hosts. ae_host e \<in> hosts)"

definition query_visitor ::
  "(str \<Rightarrow> int option) \<Rightarrow> (str \<Rightarrow> audit_entry option) \<Rightarrow> config option \<Rightarrow> audit_filter \<Rightarrow>
   str \<Rightarrow> audit_entry list \<Rightarrow> bool \<times> audit_entry list" where
  "query_visitor parse_instant parse config f line entries =
     (if length entries \<ge> af_limit f then (False, entries)
      else case parse line of
        None \<Rightarrow> (True, entries)
      | Some e \<Rightarrow>
          if \<not> if_given (bound parse_instant (af_since f)) (\<lambda>t. ae_ts e \<ge> t) then (False, entries)
          else if matches_filter parse_instant config f e then (True, entries @ [e]) else (True, entries))"

definition list_audit_raw ::
  "(str \<Rightarrow> int option) \<Rightarrow> (str \<Rightarrow> audit_entry option) \<Rightarrow> config option \<Rightarrow> str option \<Rightarrow> audit_filter \<Rightarrow>
   read_error + audit_entry list" where
  "list_audit_raw parse_instant parse config audit_file f =
     (case audit_file of
        None \<Rightarrow> Inr []
      | Some content \<Rightarrow>
          if af_limit f = 0 then Inr []
          else case visit_lines_reverse (query_visitor parse_instant parse config f) content [] of
            (Inl err, entries) \<Rightarrow> Inl err
          | (Inr _, entries) \<Rightarrow> Inr entries)"

section \<open>Exports\<close>

record renderers =
  show_id :: "nat \<Rightarrow> str"
  show_instant :: "int \<Rightarrow> str"
  show_code :: "int \<Rightarrow> str"
  show_duration :: "nat \<Rightarrow> str"

definition csv_header :: "str list" where
  "csv_header = [''id'', ''timestamp'', ''host'', ''command'', ''exit_code'', ''duration_ms'', ''risk_level'',
     ''reason'', ''change_id'', ''source'']"

definition opt_text :: "str option \<Rightarrow> str" where
  "opt_text v = (case v of Some s \<Rightarrow> s | None \<Rightarrow> [])"

definition csv_line :: "renderers \<Rightarrow> audit_entry \<Rightarrow> str" where
  "csv_line sh e =
     join '','' [show_id sh (ae_id e), show_instant sh (ae_ts e), csv_escape (ae_host e), csv_escape (ae_command e),
       (case ae_exit_code e of Some c \<Rightarrow> show_code sh c | None \<Rightarrow> []), show_duration sh (ae_duration_ms e),
       display_risk (ae_risk_level e), csv_escape (opt_text (ae_reason e)), csv_escape (opt_text (ae_change_id e)),
       csv_escape (opt_text (ae_source e))] @ [newline]"

definition export_csv_of :: "renderers \<Rightarrow> audit_entry list \<Rightarrow> str" where
  "export_csv_of sh entries = join '','' csv_header @ [newline] @ concat (map (csv_line sh) entries)"

definition export_audit_csv ::
  "renderers \<Rightarrow> (str \<Rightarrow> int option) \<Rightarrow> (str \<Rightarrow> audit_entry option) \<Rightarrow> config option \<Rightarrow> str option \<Rightarrow>
   audit_filter \<Rightarrow> read_error + str" where
  "export_audit_csv sh parse_instant parse config audit_file f =
     map_sum id (export_csv_of sh) (list_audit_raw parse_instant parse config audit_file f)"

definition export_audit_jsonl ::
  "(audit_entry \<Rightarrow> str) \<Rightarrow> (str \<Rightarrow> int option) \<Rightarrow> (str \<Rightarrow> audit_entry option) \<Rightarrow> config option \<Rightarrow>
   str option \<Rightarrow> audit_filter \<Rightarrow> read_error + str" where
  "export_audit_jsonl render parse_instant parse config audit_file f =
     map_sum id (\<lambda>entries. concat (map (\<lambda>e. render e @ [newline]) entries))
       (list_audit_raw parse_instant parse config audit_file f)"

section \<open>Reading backwards is reading in reverse\<close>

text \<open>The specification: the lines in the given order until one stops the visit.\<close>

fun visit_all :: "(str \<Rightarrow> 'v \<Rightarrow> bool \<times> 'v) \<Rightarrow> str list \<Rightarrow> 'v \<Rightarrow> (read_error + unit) \<times> 'v" where
  "visit_all visit [] st = (Inr (), st)"
| "visit_all visit (l # ls) st =
     (case visit_line visit l st of
        (Inl r, st') \<Rightarrow> (r, st')
      | (Inr _, st') \<Rightarrow> visit_all visit ls st')"

lemma split_char_sep: "split_char d (x @ d # y) = split_char d x @ split_char d y"
  by (induction x) (auto split: list.split)

lemma split_char_none: "d \<notin> set x \<Longrightarrow> split_char d x = [x]"
  by (induction x) auto

lemma split_last_newline_Some:
  assumes "split_last_newline buf = Some (before, line)"
  shows "buf = before @ newline # line" "newline \<notin> set line"
proof -
  let ?p = "\<lambda>c. c \<noteq> newline"
  from assms have b: "before = rev (drop 1 (dropWhile ?p (rev buf)))" "line = rev (takeWhile ?p (rev buf))"
      "newline \<in> set buf"
    by (auto simp: split_last_newline_def split: if_splits)
  then have "dropWhile ?p (rev buf) \<noteq> []" by (auto simp: dropWhile_eq_Nil_conv)
  moreover from this have "hd (dropWhile ?p (rev buf)) = newline" using hd_dropWhile by blast
  ultimately have "dropWhile ?p (rev buf) = newline # drop 1 (dropWhile ?p (rev buf))"
    by (cases "dropWhile ?p (rev buf)") auto
  then have "rev buf = rev line @ newline # rev before"
    using takeWhile_dropWhile_id [of ?p "rev buf"] by (simp add: b)
  then have "rev buf = rev (before @ newline # line)" by simp
  then show "buf = before @ newline # line" by (simp only: rev_is_rev_conv)
  show "newline \<notin> set line" using set_takeWhileD [of newline ?p "rev buf"] by (auto simp: b(2))
qed

lemma split_last_newline_None: "split_last_newline buf = None \<longleftrightarrow> newline \<notin> set buf"
  by (simp add: split_last_newline_def)

lemma scan_buffer_spec:
  "visit_all visit (rev (split_char newline (pre @ buf))) st =
     (case scan_buffer visit buf st of
        (Inl r, st') \<Rightarrow> (r, st')
      | (Inr carry, st') \<Rightarrow> visit_all visit (rev (split_char newline (pre @ carry))) st')"
proof (induction visit buf st rule: scan_buffer.induct)
  case (1 visit buf st)
  show ?case
  proof (cases "split_last_newline buf")
    case None
    then show ?thesis by (simp add: scan_buffer.simps [of visit buf])
  next
    case (Some p)
    obtain before line where p: "p = (before, line)" by (cases p)
    note buf = split_last_newline_Some [OF Some [unfolded p]]
    have lines: "rev (split_char newline (pre @ buf)) = line # rev (split_char newline (pre @ before))"
      using split_char_sep [of newline "pre @ before" line] by (simp add: buf(1) split_char_none [OF buf(2)])
    obtain r st' where v: "visit_line visit line st = (r, st')" by fastforce
    show ?thesis
    proof (cases r)
      case (Inl x)
      with v Some p lines show ?thesis by (simp add: scan_buffer.simps [of visit buf])
    next
      case (Inr u)
      with v Some p lines 1 [OF Some [unfolded p] refl v [symmetric] Inr] show ?thesis
        by (simp add: scan_buffer.simps [of visit buf])
    qed
  qed
qed

lemma scan_buffer_carry: "scan_buffer visit buf st = (Inr carry, st') \<Longrightarrow> newline \<notin> set carry"
  by (induction visit buf st rule: scan_buffer.induct, subst (asm) (2) scan_buffer.simps)
     (auto split: option.splits prod.splits sum.splits simp: split_last_newline_None)

lemma read_chunks_spec:
  assumes "chunk > 0" "newline \<notin> set carry"
  shows "read_chunks chunk visit content carry st = visit_all visit (rev (split_char newline (content @ carry))) st"
  using assms
proof (induction chunk visit content carry st rule: read_chunks.induct)
  case (1 chunk visit content carry st)
  show ?case
  proof (cases "content = []")
    case True
    with 1(3) show ?thesis
      by (simp add: read_chunks.simps [of chunk visit "[]" carry st] split_char_none split: prod.split sum.split)
  next
    case False
    let ?pos = "length content - min chunk (length content)"
    have spec: "visit_all visit (rev (split_char newline (content @ carry))) st =
        (case scan_buffer visit (drop ?pos content @ carry) st of
           (Inl r, st') \<Rightarrow> (r, st')
         | (Inr carry', st') \<Rightarrow> visit_all visit (rev (split_char newline (take ?pos content @ carry'))) st')"
      using scan_buffer_spec [of visit "take ?pos content" "drop ?pos content @ carry" st]
      by (metis append.assoc append_take_drop_id)
    obtain r st' where r: "scan_buffer visit (drop ?pos content @ carry) st = (r, st')" by fastforce
    show ?thesis
    proof (cases r)
      case (Inl x)
      with r spec False 1(2) show ?thesis by (simp add: read_chunks.simps [of chunk visit content] Let_def)
    next
      case (Inr carry')
      with r have "newline \<notin> set carry'" by (auto dest: scan_buffer_carry)
      from 1(1) [OF _ refl r [symmetric] Inr 1(2) this] r spec False 1(2) Inr show ?thesis
        by (simp add: read_chunks.simps [of chunk visit content] Let_def)
    qed
  qed
qed

text \<open>
  Reading the log backwards in chunks visits exactly its lines, last one first, however
  the chunks cut them, up to the line that stops the visit.
\<close>

theorem visit_lines_reverse_exact:
  "visit_lines_reverse visit content st = visit_all visit (rev (split_char newline content)) st"
  unfolding visit_lines_reverse_def using read_chunks_spec [of CHUNK_SIZE "[]" visit content st]
  by (simp add: CHUNK_SIZE_def)

section \<open>What a query returns\<close>

lemma reverse_reading: "visit_lines_reverse visit content st = visit_all visit (rev (split_char newline content)) st"
  unfolding visit_lines_reverse_def using read_chunks_spec [of CHUNK_SIZE "[]" visit content st]
  by (simp add: CHUNK_SIZE_def)

definition parsed :: "(str \<Rightarrow> audit_entry option) \<Rightarrow> str list \<Rightarrow> audit_entry list" where
  "parsed parse ls = concat (map (\<lambda>l. if l = [] then [] else case parse l of Some e \<Rightarrow> [e] | None \<Rightarrow> []) ls)"

lemma parsed_simps [simp]:
  "parsed parse [] = []"
  "parsed parse (l # ls) = (if l = [] then [] else case parse l of Some e \<Rightarrow> [e] | None \<Rightarrow> []) @ parsed parse ls"
  by (simp_all add: parsed_def)

lemma parsed_rev: "parsed parse (rev ls) = rev (parsed parse ls)"
  by (induction ls) (auto simp: parsed_def split: option.splits)

lemma not_since: "\<not> if_given (bound pi (af_since f)) (\<lambda>t. ae_ts e \<ge> t) \<Longrightarrow> ae_ts d \<le> ae_ts e \<Longrightarrow>
    \<not> matches_filter pi config f d"
  by (auto simp: matches_filter_def if_given_def split: option.splits)

lemma query_lines:
  assumes "list_all utf8_valid ls" "sorted_wrt (\<lambda>a b. ae_ts a \<ge> ae_ts b) (parsed parse ls)"
    and "length entries \<le> af_limit f"
  shows "visit_all (query_visitor pi parse config f) ls entries =
    (Inr (), entries @ take (af_limit f - length entries) (filter (matches_filter pi config f) (parsed parse ls)))"
  using assms
proof (induction ls arbitrary: entries)
  case (Cons l ls)
  let ?m = "matches_filter pi config f"
  consider "l = []" | "l \<noteq> []" "length entries \<ge> af_limit f"
    | "l \<noteq> []" "length entries < af_limit f" "parse l = None"
    | e where "l \<noteq> []" "length entries < af_limit f" "parse l = Some e" by (cases "parse l") force+
  then show ?case
  proof cases
    case 1
    with Cons show ?thesis by (simp add: visit_line_def)
  next
    case 2
    then have "query_visitor pi parse config f l entries = (False, entries)" by (simp add: query_visitor_def)
    with 2 Cons.prems show ?thesis by (simp add: visit_line_def)
  next
    case 3
    then have "query_visitor pi parse config f l entries = (True, entries)" by (simp add: query_visitor_def)
    with 3 Cons show ?thesis by (simp add: visit_line_def)
  next
    case (4 e)
    then have sorted: "sorted_wrt (\<lambda>a b. ae_ts a \<ge> ae_ts b) (e # parsed parse ls)" using Cons.prems(2) by simp
    show ?thesis
    proof (cases "if_given (bound pi (af_since f)) (\<lambda>t. ae_ts e \<ge> t)")
      case False
      then have "\<not> ?m d" if "d \<in> set (e # parsed parse ls)" for d
        using sorted that by (intro not_since [OF False]) auto
      then have "filter ?m (e # parsed parse ls) = []" by (simp add: filter_empty_conv)
      moreover have "query_visitor pi parse config f l entries = (False, entries)"
        using False 4 by (simp add: query_visitor_def)
      ultimately show ?thesis using 4 Cons.prems(1) by (simp add: visit_line_def)
    next
      case True
      show ?thesis
      proof (cases "?m e")
        case yes: True
        have "visit_all (query_visitor pi parse config f) ls (entries @ [e]) = (Inr (), (entries @ [e]) @
            take (af_limit f - length (entries @ [e])) (filter ?m (parsed parse ls)))"
          using Cons.prems 4 sorted by (intro Cons.IH) auto
        moreover have "query_visitor pi parse config f l entries = (True, entries @ [e])"
          using True yes 4 by (simp add: query_visitor_def)
        ultimately show ?thesis
          using yes 4 Cons.prems(1) by (simp add: visit_line_def take_Cons')
      next
        case no: False
        have "visit_all (query_visitor pi parse config f) ls entries = (Inr (), entries @
            take (af_limit f - length entries) (filter ?m (parsed parse ls)))"
          using Cons.prems 4 sorted by (intro Cons.IH) auto
        moreover have "query_visitor pi parse config f l entries = (True, entries)"
          using True no 4 by (simp add: query_visitor_def)
        ultimately show ?thesis using no 4 Cons.prems(1) by (simp add: visit_line_def)
      qed
    qed
  qed
qed simp

text \<open>
  Property (C18): a query returns the newest matching entries, newest first, up to the limit. Stopping at
  the first entry that is older than the lower bound loses nothing as long as the instants in the
  file do not decrease.
\<close>

theorem audit_query_exact:
  assumes "list_all utf8_valid (split_char newline content)"
    and "sorted (map ae_ts (parsed parse (split_char newline content)))"
  shows "list_audit_raw pi parse config (Some content) f =
    Inr (take (af_limit f) (filter (matches_filter pi config f) (rev (parsed parse (split_char newline content)))))"
proof -
  let ?ls = "split_char newline content"
  have "sorted_wrt (\<lambda>a b. ae_ts a \<ge> ae_ts b) (parsed parse (rev ?ls))"
    using assms(2) by (simp add: parsed_rev sorted_wrt_rev sorted_map)
  with assms(1) show ?thesis
    using query_lines [of "rev ?ls" parse "[]" f pi config]
    by (simp add: list_audit_raw_def reverse_reading parsed_rev)
qed

text \<open>After a step of the clock backwards, an entry inside the window is not found.\<close>

definition entry_at :: "int \<Rightarrow> audit_entry" where
  "entry_at t = \<lparr>ae_id = 0, ae_ts = t, ae_host = ''web'', ae_command = ''ls'', ae_exit_code = Some 0,
     ae_duration_ms = 1, ae_risk_level = Low, ae_reason = None, ae_change_id = None, ae_side_effect = None,
     ae_source = None, ae_action = None, ae_outcome = None, ae_decision = None, ae_decided_by = None,
     ae_original_command = None, ae_risk_unclassified = False\<rparr>"

definition demo_parse_entry :: "str \<Rightarrow> audit_entry option" where
  "demo_parse_entry l = (if l = ''a'' then Some (entry_at 5) else if l = ''b'' then Some (entry_at 3) else None)"

definition any_entry :: audit_filter where
  "any_entry = \<lparr>af_host = None, af_risk_level = None, af_exit_code = None, af_since = None, af_until = None,
     af_limit = 20, af_search = None, af_command_pattern = None, af_host_env = None, af_host_role = None,
     af_host_owner = None, af_decision = None, af_agent = None, af_host_scope = None\<rparr>"

lemma clock_step_hides_entry:
  "visit_all (query_visitor (\<lambda>_. Some 4) demo_parse_entry None (any_entry\<lparr>af_since := Some ''t''\<rparr>))
     (rev [''a'', ''b'', []]) [] = (Inr (), [])"
  "matches_filter (\<lambda>_. Some 4) None (any_entry\<lparr>af_since := Some ''t''\<rparr>) (entry_at 5)"
  by code_simp+

lemma audit_query_exact_witness:
  "list_audit_raw (\<lambda>_. None) demo_parse_entry None (Some (''b'' @ [newline] @ ''a'' @ [newline])) any_entry =
     Inr [entry_at 5, entry_at 3]"
proof -
  have u: "list_all utf8_valid (split_char newline (''b'' @ [newline] @ ''a'' @ [newline]))"
    and e: "parsed demo_parse_entry (split_char newline (''b'' @ [newline] @ ''a'' @ [newline])) = [entry_at 3, entry_at 5]"
    by code_simp+
  then have "sorted (map ae_ts (parsed demo_parse_entry (split_char newline (''b'' @ [newline] @ ''a'' @ [newline]))))"
    by (simp add: entry_at_def)
  from audit_query_exact [OF u this] show ?thesis
    unfolding e
    by (simp add: matches_filter_def in_scope_def if_given_def any_entry_def bound_def matching_hosts_def)
qed

lemma visit_all_inv:
  assumes "P st" "\<And>l st. P st \<Longrightarrow> P (snd (visit l st))"
  shows "P (snd (visit_all visit ls st))"
  using assms(1)
proof (induction ls arbitrary: st)
  case (Cons l ls)
  have "P (snd (visit_line visit l st))"
    using Cons.prems assms(2) [of st l] by (auto simp: visit_line_def split: prod.splits bool.splits)
  with Cons.IH show ?case by (auto split: prod.splits sum.splits)
qed simp

text \<open>
  A scoped client sees its hosts only. Whatever the file holds, even when its lines are
  out of order, every returned entry matches the filter, belongs to a host of the scope, and no more
  than the limit are returned.
\<close>

theorem query_respects_scope:
  assumes "list_audit_raw pi parse config audit_file f = Inr entries"
  shows "list_all (in_scope (af_host_scope f)) entries \<and>
    list_all (matches_filter pi config f) entries \<and> length entries \<le> af_limit f"
proof -
  let ?P = "\<lambda>es. list_all (matches_filter pi config f) es \<and> length es \<le> af_limit f"
  have step: "?P (snd (query_visitor pi parse config f l es))" if "?P es" for l es
    using that by (auto simp: query_visitor_def split: option.split)
  have "?P entries"
  proof (cases audit_file)
    case None
    with assms show ?thesis by (auto simp: list_audit_raw_def)
  next
    case (Some content)
    show ?thesis
    proof (cases "af_limit f = 0")
      case True
      with assms Some show ?thesis by (auto simp: list_audit_raw_def)
    next
      case False
      with Some assms have "entries = snd (visit_all (query_visitor pi parse config f) (rev (split_char newline content)) [])"
        by (auto simp: list_audit_raw_def reverse_reading split: prod.splits sum.splits)
      then show ?thesis using visit_all_inv [of ?P "[]" "query_visitor pi parse config f"] step by simp
    qed
  qed
  then show ?thesis by (auto simp: list_all_iff matches_filter_def)
qed

lemma query_respects_scope_witness:
  "list_all (in_scope (Some [''db''])) []"
  using query_respects_scope [of "\<lambda>_. None" demo_parse_entry None None "any_entry\<lparr>af_host_scope := Some [''db'']\<rparr>" "[]"]
  by (simp add: list_audit_raw_def)

section \<open>The CSV export is read back\<close>

text \<open>A reader of records: fields separated by commas up to the end of the line.\<close>

lemma csv_quoted_length: "length (snd (csv_quoted s)) \<le> length s"
proof (induction s rule: csv_quoted.induct)
  case (2 c s)
  show ?case
  proof (cases "c = dquote")
    case False
    obtain v rest where "csv_quoted s = (v, rest)" by fastforce
    with 2(1) [OF False] False show ?thesis by simp
  next
    case True
    show ?thesis
    proof (cases s)
      case (Cons d t)
      obtain v rest where "csv_quoted t = (v, rest)" by fastforce
      with True Cons 2(2) [OF _ Cons] show ?thesis by (cases "d = dquote") simp_all
    qed (simp add: True)
  qed
qed simp

lemma csv_field_length: "length (snd (csv_field s)) \<le> length s"
proof (cases s)
  case (Cons c t)
  show ?thesis
  proof (cases "c = dquote")
    case True
    with Cons csv_quoted_length [of t] show ?thesis by (simp add: csv_field_def)
  next
    case False
    then have "snd (csv_field s) = dropWhile (\<lambda>c. c \<noteq> CHR '','' \<and> c \<noteq> newline) s"
      by (simp only: csv_field_def Cons list.case if_False snd_conv)
    then show ?thesis by (simp only: length_dropWhile_le)
  qed
qed (simp add: csv_field_def)

function csv_record :: "str \<Rightarrow> str list \<times> str" where
  "csv_record s =
     (let (v, rest) = csv_field s
      in if rest = [] then ([v], [])
         else if hd rest = CHR '','' then (let (vs, rest') = csv_record (tl rest) in (v # vs, rest'))
         else ([v], tl rest))"
  by pat_completeness auto
termination
proof (relation "measure length")
  fix s :: str and x v rest assume "x = csv_field s" "(v, rest) = x" "rest \<noteq> []"
  then show "(tl rest, s) \<in> measure length"
    using csv_field_length [of s] by (cases rest) (auto dest: sym)
qed auto

declare csv_record.simps [simp del]

lemma csv_record_length: "length (snd (csv_record s)) \<le> length s - 1"
proof (induction s rule: csv_record.induct)
  case (1 s)
  obtain v rest where f: "csv_field s = (v, rest)" by fastforce
  with csv_field_length [of s] have len: "length rest \<le> length s" by simp
  show ?case
  proof (cases "rest = [] \<or> hd rest \<noteq> CHR '',''")
    case True
    with f len show ?thesis by (auto simp: csv_record.simps [of s] Let_def)
  next
    case False
    then have "length (snd (csv_record (tl rest))) \<le> length (tl rest) - 1"
      using 1 [OF f [symmetric] refl] by auto
    with False f len show ?thesis
      by (auto simp: csv_record.simps [of s] Let_def split: prod.split)
  qed
qed

function csv_records :: "str \<Rightarrow> str list list" where
  "csv_records s = (if s = [] then [] else (let (r, rest) = csv_record s in r # csv_records rest))"
  by pat_completeness auto
termination
proof (relation "measure length")
  fix s :: str and x r rest assume "s \<noteq> []" "x = csv_record s" "(r, rest) = x"
  then show "(rest, s) \<in> measure length"
    using csv_record_length [of s] by (cases s) (auto dest: sym)
qed auto

declare csv_records.simps [simp del]

definition csv_plain :: "str \<Rightarrow> bool" where
  "csv_plain v \<longleftrightarrow> CHR '','' \<notin> set v \<and> dquote \<notin> set v \<and> newline \<notin> set v"

lemma csv_escape_plain: "csv_plain v \<Longrightarrow> csv_escape v = v"
  by (simp add: csv_plain_def csv_escape_def)

lemma csv_record_join:
  "vs \<noteq> [] \<Longrightarrow> csv_record (join '','' (map csv_escape vs) @ newline # rest) = (vs, rest)"
proof (induction vs rule: induct_list012)
  case (2 v)
  have "csv_field (csv_escape v @ newline # rest) = (v, newline # rest)" by (rule csv_escape_reads_back) simp
  then show ?case by (simp add: csv_record.simps [of "csv_escape v @ newline # rest"])
next
  case (3 v w vs)
  let ?more = "join '','' (map csv_escape (w # vs)) @ newline # rest"
  have "csv_field (csv_escape v @ CHR '','' # ?more) = (v, CHR '','' # ?more)"
    by (rule csv_escape_reads_back) simp
  moreover have "csv_record ?more = (w # vs, rest)" using 3(2) by simp
  ultimately show ?case by (simp add: csv_record.simps [of "csv_escape v @ CHR '','' # _"])
qed simp

text \<open>The cells of one row.\<close>

definition csv_cells :: "renderers \<Rightarrow> audit_entry \<Rightarrow> str list" where
  "csv_cells sh e =
     [show_id sh (ae_id e), show_instant sh (ae_ts e), ae_host e, ae_command e,
      (case ae_exit_code e of Some c \<Rightarrow> show_code sh c | None \<Rightarrow> []), show_duration sh (ae_duration_ms e),
      display_risk (ae_risk_level e), opt_text (ae_reason e), opt_text (ae_change_id e), opt_text (ae_source e)]"

definition plain_renderers :: "renderers \<Rightarrow> bool" where
  "plain_renderers sh \<longleftrightarrow>
     (\<forall>i. csv_plain (show_id sh i)) \<and> (\<forall>t. csv_plain (show_instant sh t)) \<and>
     (\<forall>c. csv_plain (show_code sh c)) \<and> (\<forall>d. csv_plain (show_duration sh d))"

lemma csv_line_cells:
  assumes "plain_renderers sh"
  shows "csv_line sh e = join '','' (map csv_escape (csv_cells sh e)) @ [newline]"
proof -
  have "csv_plain (display_risk r)" for r by (cases r) (simp_all add: csv_plain_def)
  then show ?thesis
    using assms by (simp add: csv_line_def csv_cells_def plain_renderers_def csv_escape_plain csv_plain_def
        split: option.split)
qed

text \<open>
  An exported audit log can be read back. A reader of RFC 4180 finds the header and one
  record for each entry, with every cell as it was, commas, quotes and line breaks in a command included.
\<close>

theorem export_reads_back:
  assumes "plain_renderers sh"
  shows "csv_records (export_csv_of sh entries) = csv_header # map (csv_cells sh) entries"
proof -
  have rows: "csv_records (concat (map (csv_line sh) es)) = map (csv_cells sh) es" for es
  proof (induction es)
    case (Cons e es)
    have "csv_record (csv_line sh e @ concat (map (csv_line sh) es)) = (csv_cells sh e, concat (map (csv_line sh) es))"
      using csv_record_join [of "csv_cells sh e" "concat (map (csv_line sh) es)"]
      by (simp add: csv_line_cells [OF assms]) (simp add: csv_cells_def)
    moreover have "csv_line sh e \<noteq> []" by (simp add: csv_line_def)
    ultimately show ?case
      using Cons by (simp add: csv_records.simps [of "csv_line sh e @ _"])
  qed (simp add: csv_records.simps)
  have "map csv_escape csv_header = csv_header" by code_simp
  then have "csv_record (export_csv_of sh entries) = (csv_header, concat (map (csv_line sh) entries))"
    using csv_record_join [of csv_header "concat (map (csv_line sh) entries)"]
    by (simp add: export_csv_of_def) (simp add: csv_header_def)
  moreover have "export_csv_of sh entries \<noteq> []" by (simp add: export_csv_of_def)
  ultimately show ?thesis using rows by (simp add: csv_records.simps [of "export_csv_of sh entries"])
qed

lemma export_reads_back_witness:
  "csv_records (export_csv_of \<lparr>show_id = (\<lambda>_. ''i''), show_instant = (\<lambda>_. ''t''), show_code = (\<lambda>_. ''0''),
       show_duration = (\<lambda>_. ''1'')\<rparr> [(entry_at 5)\<lparr>ae_command := ''echo a,b''\<rparr>]) ! 1 ! 3 = ''echo a,b''"
  by (subst export_reads_back)
     (simp_all add: plain_renderers_def csv_plain_def csv_cells_def entry_at_def)

end
