(* ===== verification/Audit_Metrics.thy ===== *)
theory Audit_Metrics
  imports Audit_Query Complex_Main "HOL-Library.List_Lexorder" "HOL-Library.Char_ord" "HOL-Library.Multiset"
begin

text \<open>
  \<open>store.rs\<close>: the trends computed from the audit log. Floating-point ratios are rational numbers, without
  rounding. The hour of an instant and its text are functions of chrono; a hash map is the association
  list of its entries in the order \<open>shuffle\<close> chooses.
\<close>

datatype trend_period = Last24h | Last7d | Last30d | AllTime

record risk_distribution =
  rd_low :: nat
  rd_medium :: nat
  rd_high :: nat
  rd_blocked :: nat

record host_execution_count =
  hc_host :: str
  hc_count :: nat

record hourly_bucket =
  hb_hour :: str
  hb_count :: nat
  hb_failures :: nat

record metrics_trend =
  mt_period :: trend_period
  mt_total_executions :: nat
  mt_success_count :: nat
  mt_failure_count :: nat
  mt_blocked_count :: nat
  mt_failure_rate :: rat
  mt_risk_distribution :: risk_distribution
  mt_avg_duration_ms :: rat
  mt_top_hosts :: "host_execution_count list"
  mt_hourly_breakdown :: "hourly_bucket list"

text \<open>Hours back from now, in nanoseconds.\<close>

fun window_start :: "trend_period \<Rightarrow> int \<Rightarrow> int option" where
  "window_start Last24h now = Some (now - 24 * 3600 * 1000000000)"
| "window_start Last7d now = Some (now - 7 * 24 * 3600 * 1000000000)"
| "window_start Last30d now = Some (now - 30 * 24 * 3600 * 1000000000)"
| "window_start AllTime now = None"

definition USIZE_MAX :: nat where
  "USIZE_MAX = 2 ^ 64 - 1"

definition trend_filter :: "(int \<Rightarrow> str) \<Rightarrow> trend_period \<Rightarrow> int \<Rightarrow> audit_filter" where
  "trend_filter show_time period now =
     \<lparr>af_host = None, af_risk_level = None, af_exit_code = None,
      af_since = map_option show_time (window_start period now), af_until = None, af_limit = USIZE_MAX,
      af_search = None, af_command_pattern = None, af_host_env = None, af_host_role = None,
      af_host_owner = None, af_decision = None, af_agent = None, af_host_scope = None\<rparr>"

definition is_failure :: "audit_entry \<Rightarrow> bool" where
  "is_failure e \<longleftrightarrow> (case ae_exit_code e of Some c \<Rightarrow> c \<noteq> 0 | None \<Rightarrow> True)"

definition count_if :: "('a \<Rightarrow> bool) \<Rightarrow> 'a list \<Rightarrow> nat" where
  "count_if p xs = length (filter p xs)"

text \<open>\<open>*map.entry(k).or_insert(d) = f(\<dots>)\<close>\<close>

fun alter :: "'k \<Rightarrow> 'v \<Rightarrow> ('v \<Rightarrow> 'v) \<Rightarrow> ('k \<times> 'v) list \<Rightarrow> ('k \<times> 'v) list" where
  "alter k d f [] = [(k, f d)]"
| "alter k d f ((l, v) # m) = (if k = l then (l, f v) # m else (l, v) # alter k d f m)"

definition host_counts :: "audit_entry list \<Rightarrow> (str \<times> nat) list" where
  "host_counts entries = foldl (\<lambda>m e. alter (ae_host e) 0 Suc m) [] entries"

definition top_hosts ::
  "((str \<times> nat) list \<Rightarrow> (str \<times> nat) list) \<Rightarrow> audit_entry list \<Rightarrow> host_execution_count list" where
  "top_hosts shuffle entries =
     take 10 (sort_key (\<lambda>h. - int (hc_count h))
       (map (\<lambda>(host, n). \<lparr>hc_host = host, hc_count = n\<rparr>) (shuffle (host_counts entries))))"

definition hourly :: "(int \<Rightarrow> str) \<Rightarrow> audit_entry list \<Rightarrow> (str \<times> nat \<times> nat) list" where
  "hourly hour_key entries =
     foldl (\<lambda>m e. alter (hour_key (ae_ts e)) (0, 0)
       (\<lambda>(n, failed). (n + 1, if is_failure e then failed + 1 else failed)) m) [] entries"

definition hourly_breakdown :: "(int \<Rightarrow> str) \<Rightarrow> audit_entry list \<Rightarrow> hourly_bucket list" where
  "hourly_breakdown hour_key entries =
     map (\<lambda>(hour, n, failed). \<lparr>hb_hour = hour, hb_count = n, hb_failures = failed\<rparr>)
       (sort_key fst (hourly hour_key entries))"

definition trend_of ::
  "(int \<Rightarrow> str) \<Rightarrow> ((str \<times> nat) list \<Rightarrow> (str \<times> nat) list) \<Rightarrow> trend_period \<Rightarrow> audit_entry list \<Rightarrow>
   metrics_trend" where
  "trend_of hour_key shuffle period entries =
     (let total = length entries;
          failed = count_if is_failure entries
      in \<lparr>mt_period = period, mt_total_executions = total, mt_success_count = total - failed,
          mt_failure_count = failed,
          mt_blocked_count = count_if (\<lambda>e. ae_risk_level e = Blocked) entries,
          mt_failure_rate = (if total > 0 then of_nat failed / of_nat total else 0),
          mt_risk_distribution =
            \<lparr>rd_low = count_if (\<lambda>e. ae_risk_level e = Low) entries,
             rd_medium = count_if (\<lambda>e. ae_risk_level e = Medium) entries,
             rd_high = count_if (\<lambda>e. ae_risk_level e = High) entries,
             rd_blocked = count_if (\<lambda>e. ae_risk_level e = Blocked) entries\<rparr>,
          mt_avg_duration_ms =
            (if total > 0 then (\<Sum>e\<leftarrow>entries. of_nat (ae_duration_ms e)) / of_nat total else 0),
          mt_top_hosts = top_hosts shuffle entries,
          mt_hourly_breakdown = hourly_breakdown hour_key entries\<rparr>)"

definition compute_metrics_trend ::
  "(int \<Rightarrow> str) \<Rightarrow> ((str \<times> nat) list \<Rightarrow> (str \<times> nat) list) \<Rightarrow> (int \<Rightarrow> str) \<Rightarrow> (str \<Rightarrow> int option) \<Rightarrow>
   (str \<Rightarrow> audit_entry option) \<Rightarrow> str option \<Rightarrow> trend_period \<Rightarrow> int \<Rightarrow> read_error + metrics_trend" where
  "compute_metrics_trend hour_key shuffle show_time parse_instant parse audit_file period now =
     map_sum id (trend_of hour_key shuffle period)
       (list_audit_raw parse_instant parse None audit_file (trend_filter show_time period now))"

section \<open>Facts about counting\<close>

lemma alter_lookup:
  "map_of (alter k d f m) = (map_of m)(k \<mapsto> f (case map_of m k of Some v \<Rightarrow> v | None \<Rightarrow> d))"
  by (induction m) (auto simp: fun_eq_iff)

lemma alter_keys: "set (map fst (alter k d f m)) = insert k (set (map fst m))"
  by (induction k d f m rule: alter.induct) auto

lemma alter_distinct: "distinct (map fst m) \<Longrightarrow> distinct (map fst (alter k d f m))"
proof (induction m)
  case (Cons p m)
  then show ?case using alter_keys [of k d f m] by (cases p) auto
qed simp

lemma alter_sum:
  fixes g :: "'v \<Rightarrow> nat"
  assumes "\<And>v. g (f v) = g v + c" "g d = 0"
  shows "(\<Sum>p\<leftarrow>alter k d f m. g (snd p)) = (\<Sum>p\<leftarrow>m. g (snd p)) + c"
  using assms by (induction k d f m rule: alter.induct) auto

lemma host_counts_snoc: "host_counts (es @ [e]) = alter (ae_host e) 0 Suc (host_counts es)"
  by (simp add: host_counts_def)

lemma host_counts_distinct: "distinct (map fst (host_counts es))"
  by (induction es rule: rev_induct) (auto simp: host_counts_snoc intro: alter_distinct, simp add: host_counts_def)

lemma host_counts_lookup:
  "map_of (host_counts es) h =
     (if count_if (\<lambda>e. ae_host e = h) es = 0 then None else Some (count_if (\<lambda>e. ae_host e = h) es))"
proof (induction es rule: rev_induct)
  case Nil
  show ?case by (simp add: host_counts_def count_if_def)
next
  case (snoc e es)
  then show ?case by (auto simp: host_counts_snoc alter_lookup count_if_def split: if_splits)
qed

lemma hourly_snoc: "hourly hk (es @ [e]) = alter (hk (ae_ts e)) (0, 0)
    (\<lambda>(n, failed). (n + 1, if is_failure e then failed + 1 else failed)) (hourly hk es)"
  by (simp add: hourly_def)

lemma hourly_distinct: "distinct (map fst (hourly hk es))"
  by (induction es rule: rev_induct) (auto simp: hourly_snoc intro: alter_distinct, simp add: hourly_def)

lemma hourly_sums:
  "(\<Sum>p\<leftarrow>hourly hk es. fst (snd p)) = length es"
  "(\<Sum>p\<leftarrow>hourly hk es. snd (snd p)) = count_if is_failure es"
proof (induction es rule: rev_induct)
  case (snoc e es)
  let ?f = "\<lambda>(n, failed). (n + 1, if is_failure e then failed + 1 else failed)"
  have "(\<Sum>p\<leftarrow>alter (hk (ae_ts e)) (0, 0) ?f (hourly hk es). fst (snd p)) =
      (\<Sum>p\<leftarrow>hourly hk es. fst (snd p)) + 1"
    by (rule alter_sum) auto
  then show "(\<Sum>p\<leftarrow>hourly hk (es @ [e]). fst (snd p)) = length (es @ [e])"
    using snoc(1) by (simp add: hourly_snoc)
  have "(\<Sum>p\<leftarrow>alter (hk (ae_ts e)) (0, 0) ?f (hourly hk es). snd (snd p)) =
      (\<Sum>p\<leftarrow>hourly hk es. snd (snd p)) + (if is_failure e then 1 else 0)"
    by (rule alter_sum) auto
  then show "(\<Sum>p\<leftarrow>hourly hk (es @ [e]). snd (snd p)) = count_if is_failure (es @ [e])"
    using snoc(2) by (simp add: hourly_snoc count_if_def)
qed (simp_all add: hourly_def count_if_def)

lemma count_levels:
  "count_if (\<lambda>e. ae_risk_level e = Low) es + count_if (\<lambda>e. ae_risk_level e = Medium) es +
   count_if (\<lambda>e. ae_risk_level e = High) es + count_if (\<lambda>e. ae_risk_level e = Blocked) es = length es"
proof (induction es)
  case (Cons e es)
  then show ?case by (cases "ae_risk_level e") (simp_all add: count_if_def)
qed (simp add: count_if_def)

lemma sum_list_mset: "mset xs = mset ys \<Longrightarrow> (\<Sum>x\<leftarrow>xs. (f x :: nat)) = (\<Sum>x\<leftarrow>ys. f x)"
  by (metis mset_map sum_mset_sum_list)

lemma hourly_breakdown_sums:
  "sum_list (map hb_count (hourly_breakdown hour_key es)) = length es"
  "sum_list (map hb_failures (hourly_breakdown hour_key es)) = count_if is_failure es"
  using hourly_sums [of hour_key es]
    sum_list_mset [of "sort_key fst (hourly hour_key es)" "hourly hour_key es" "\<lambda>p. fst (snd p)"]
    sum_list_mset [of "sort_key fst (hourly hour_key es)" "hourly hour_key es" "\<lambda>p. snd (snd p)"]
  by (simp_all add: hourly_breakdown_def comp_def case_prod_beta)

lemma hourly_breakdown_order:
  "sorted (map hb_hour (hourly_breakdown hour_key es))" "distinct (map hb_hour (hourly_breakdown hour_key es))"
proof -
  have hours: "map hb_hour (hourly_breakdown hour_key es) = map fst (sort_key fst (hourly hour_key es))"
    by (simp add: hourly_breakdown_def case_prod_beta)
  have "mset (map fst (sort_key fst (hourly hour_key es))) = mset (map fst (hourly hour_key es))" by simp
  then have "distinct (map fst (sort_key fst (hourly hour_key es)))"
    using hourly_distinct mset_eq_imp_distinct_iff by blast
  then show "sorted (map hb_hour (hourly_breakdown hour_key es))" "distinct (map hb_hour (hourly_breakdown hour_key es))"
    by (simp_all add: hours)
qed

definition ranked :: "((str \<times> nat) list \<Rightarrow> (str \<times> nat) list) \<Rightarrow> audit_entry list \<Rightarrow> host_execution_count list" where
  "ranked shuffle es =
     sort_key (\<lambda>h. - int (hc_count h)) (map (\<lambda>(host, n). \<lparr>hc_host = host, hc_count = n\<rparr>) (shuffle (host_counts es)))"

lemma top_hosts_ranked: "top_hosts shuffle es = take 10 (ranked shuffle es)"
  by (simp add: top_hosts_def ranked_def)

lemma ranked_set:
  assumes "mset (shuffle (host_counts es)) = mset (host_counts es)"
  shows "h \<in> set (ranked shuffle es) \<longleftrightarrow> map_of (host_counts es) (hc_host h) = Some (hc_count h)"
proof -
  let ?h = "\<lambda>(host, n). \<lparr>hc_host = host, hc_count = n\<rparr>"
  have "set (ranked shuffle es) = ?h ` set (host_counts es)"
    by (simp only: ranked_def set_sort set_map mset_eq_setD [OF assms])
  moreover have "?h p = h \<longleftrightarrow> p = (hc_host h, hc_count h)" for p
    by (cases p, cases h) simp
  ultimately have "h \<in> set (ranked shuffle es) \<longleftrightarrow> (hc_host h, hc_count h) \<in> set (host_counts es)"
    by (metis (no_types, lifting) image_iff)
  then show ?thesis using host_counts_distinct [of es] by simp
qed

lemma top_hosts_counts:
  assumes "mset (shuffle (host_counts es)) = mset (host_counts es)"
  shows "list_all (\<lambda>h. hc_count h = count_if (\<lambda>e. ae_host e = hc_host h) es) (top_hosts shuffle es)"
proof -
  have "hc_count h = count_if (\<lambda>e. ae_host e = hc_host h) es" if "h \<in> set (ranked shuffle es)" for h
    using that unfolding ranked_set [where shuffle = shuffle, OF assms] host_counts_lookup by (auto split: if_splits)
  then show ?thesis unfolding list_all_iff top_hosts_ranked by (blast dest: in_set_takeD)
qed

lemma top_hosts_busiest:
  assumes "mset (shuffle (host_counts es)) = mset (host_counts es)" "e \<in> set es"
  shows "ae_host e \<in> hc_host ` set (top_hosts shuffle es) \<or>
    list_all (\<lambda>h. count_if (\<lambda>d. ae_host d = ae_host e) es \<le> hc_count h) (top_hosts shuffle es)"
proof -
  let ?top = "take 10 (ranked shuffle es)"
  let ?rest = "drop 10 (ranked shuffle es)"
  let ?g = "\<lparr>hc_host = ae_host e, hc_count = count_if (\<lambda>d. ae_host d = ae_host e) es\<rparr>"
  have "count_if (\<lambda>d. ae_host d = ae_host e) es \<noteq> 0"
    using assms(2) by (auto simp: count_if_def filter_empty_conv)
  then have "?g \<in> set (ranked shuffle es)"
    unfolding ranked_set [where shuffle = shuffle, OF assms(1)] host_counts_lookup by simp
  then consider "?g \<in> set ?top" | "?g \<in> set ?rest"
    by (metis Un_iff append_take_drop_id set_append)
  then show ?thesis
  proof cases
    case 1
    then show ?thesis unfolding top_hosts_ranked by (metis (no_types) host_execution_count.select_convs(1) image_eqI)
  next
    case 2
    have sorted: "sorted (map (\<lambda>h. - int (hc_count h)) (?top @ ?rest))"
      unfolding append_take_drop_id by (simp add: ranked_def)
    have "hc_count ?g \<le> hc_count h" if "h \<in> set ?top" for h
    proof -
      from sorted have "- int (hc_count h) \<le> - int (hc_count ?g)"
        using that 2 unfolding map_append sorted_append set_map by blast
      then show ?thesis by linarith
    qed
    then show ?thesis unfolding top_hosts_ranked list_all_iff host_execution_count.select_convs by blast
  qed
qed

lemma trend_fields:
  "mt_success_count (trend_of hour_key shuffle period es) = length es - count_if is_failure es"
  "mt_failure_count (trend_of hour_key shuffle period es) = count_if is_failure es"
  "mt_total_executions (trend_of hour_key shuffle period es) = length es"
  "mt_hourly_breakdown (trend_of hour_key shuffle period es) = hourly_breakdown hour_key es"
  "mt_top_hosts (trend_of hour_key shuffle period es) = top_hosts shuffle es"
  "mt_risk_distribution (trend_of hour_key shuffle period es) =
     \<lparr>rd_low = count_if (\<lambda>e. ae_risk_level e = Low) es, rd_medium = count_if (\<lambda>e. ae_risk_level e = Medium) es,
      rd_high = count_if (\<lambda>e. ae_risk_level e = High) es, rd_blocked = count_if (\<lambda>e. ae_risk_level e = Blocked) es\<rparr>"
  by (simp_all only: trend_of_def Let_def metrics_trend.select_convs)

text \<open>
  The trend figures add up. Successes and failures make the total, so do the four risk
  levels and the hours, the failures of the hours make the failures, every listed hour is distinct
  and in order, and the listed hosts have their number of executions and are the busiest ones,
  at most ten of them.
\<close>

theorem trend_adds_up:
  assumes "mset (shuffle (host_counts es)) = mset (host_counts es)"
  shows "let t = trend_of hour_key shuffle period es; d = mt_risk_distribution t; hs = mt_hourly_breakdown t in
    mt_success_count t + mt_failure_count t = mt_total_executions t \<and>
    rd_low d + rd_medium d + rd_high d + rd_blocked d = mt_total_executions t \<and>
    sum_list (map hb_count hs) = mt_total_executions t \<and>
    sum_list (map hb_failures hs) = mt_failure_count t \<and>
    sorted (map hb_hour hs) \<and> distinct (map hb_hour hs) \<and>
    list_all (\<lambda>h. hc_count h = count_if (\<lambda>e. ae_host e = hc_host h) es) (mt_top_hosts t) \<and>
    (\<forall>e \<in> set es. ae_host e \<in> hc_host ` set (mt_top_hosts t) \<or>
       list_all (\<lambda>h. count_if (\<lambda>d. ae_host d = ae_host e) es \<le> hc_count h) (mt_top_hosts t)) \<and>
    length (mt_top_hosts t) \<le> 10"
proof -
  have "count_if is_failure es \<le> length es" by (simp add: count_if_def)
  then have sum: "length es - count_if is_failure es + count_if is_failure es = length es" by simp
  have ten: "length (top_hosts shuffle es) \<le> 10" by (simp add: top_hosts_ranked)
  show ?thesis
    unfolding Let_def trend_fields risk_distribution.select_convs
    by (intro conjI ballI sum hourly_breakdown_sums hourly_breakdown_order count_levels
        top_hosts_counts [where shuffle = shuffle, OF assms] ten)
      (erule top_hosts_busiest [where shuffle = shuffle, OF assms])
qed

lemma trend_adds_up_witness:
  "mt_success_count (trend_of (\<lambda>_. ''12'') id AllTime [entry_at 5, (entry_at 6)\<lparr>ae_exit_code := None\<rparr>]) +
   mt_failure_count (trend_of (\<lambda>_. ''12'') id AllTime [entry_at 5, (entry_at 6)\<lparr>ae_exit_code := None\<rparr>]) = 2"
  using trend_adds_up [of id "[entry_at 5, (entry_at 6)\<lparr>ae_exit_code := None\<rparr>]" "\<lambda>_. ''12''" AllTime]
  by (simp add: Let_def trend_of_def)

end
