(* ===== verification/Playbook.thy ===== *)
theory Playbook
  imports Exec_Core Record_List Text_Split
begin

text \<open>
  \<open>playbook.rs\<close>: named lists of command templates with parameters, their file, their expansion and
  their execution step by step through the execution gate. The TOML codec is the identity: a file is
  absent, unreadable, or the list it holds.
\<close>

record playbook_param =
  pp_name :: str
  pp_description :: "str option"
  pp_default :: "str option"
  pp_required :: bool

record playbook_step =
  ps_command :: str
  ps_description :: "str option"
  ps_params :: "playbook_param list"

record playbook =
  pb_name :: str
  pb_description :: str
  pb_steps :: "str list"
  pb_tags :: "str list"
  pb_risk_override :: "risk_level option"
  pb_advanced_steps :: "playbook_step list option"

record playbook_step_result =
  sr_step :: nat
  sr_command :: str
  sr_result :: "exec_result option"
  sr_error :: "exec_error option"

record playbook_run_result =
  pr_playbook :: str
  pr_host :: str
  pr_steps_completed :: "playbook_step_result list"
  pr_success :: bool

record dry_run_step =
  dr_step :: nat
  dr_template :: str
  dr_resolved :: str
  dr_params_used :: "str list"

datatype playbook_error =
    PlaybooksUnreadable
  | PlaybookNotFound str
  | NameRequired
  | NoSteps
  | MissingParam str

datatype playbook_file = NoPlaybooks | BadPlaybooks | Playbooks "playbook list"

section \<open>The file\<close>

fun load_playbooks :: "playbook_file \<Rightarrow> playbook_error + playbook list" where
  "load_playbooks NoPlaybooks = Inr []"
| "load_playbooks BadPlaybooks = Inl PlaybooksUnreadable"
| "load_playbooks (Playbooks ps) = Inr ps"

definition trimmed_items :: "str list \<Rightarrow> str list" where
  "trimmed_items xs = filter (\<lambda>x. x \<noteq> []) (map trim xs)"

definition normalize_playbook :: "playbook \<Rightarrow> playbook_error + playbook" where
  "normalize_playbook p =
     (let q = p\<lparr>pb_name := trim (pb_name p), pb_description := trim (pb_description p),
                pb_tags := trimmed_items (pb_tags p), pb_steps := trimmed_items (pb_steps p)\<rparr>
      in if pb_name q = [] then Inl NameRequired
         else let r = (if pb_description q = [] then q\<lparr>pb_description := ''No description''\<rparr> else q);
                  has_advanced_steps = (case pb_advanced_steps r of Some s \<Rightarrow> s \<noteq> [] | None \<Rightarrow> False)
              in if pb_steps r = [] \<and> \<not> has_advanced_steps then Inl NoSteps else Inr r)"

definition save_playbook_core :: "playbook \<Rightarrow> playbook_file \<Rightarrow> (playbook_error + playbook) \<times> playbook_file" where
  "save_playbook_core p file =
     (case normalize_playbook p of
        Inl e \<Rightarrow> (Inl e, file)
      | Inr q \<Rightarrow>
          (case load_playbooks file of
             Inl e \<Rightarrow> (Inl e, file)
           | Inr ps \<Rightarrow> (Inr q, Playbooks (sort_key pb_name (put_by pb_name q ps)))))"

definition delete_playbook_core :: "str \<Rightarrow> playbook_file \<Rightarrow> (playbook_error + bool) \<times> playbook_file" where
  "delete_playbook_core name file =
     (let n = trim name
      in if n = [] then (Inl NameRequired, file)
         else case load_playbooks file of
           Inl e \<Rightarrow> (Inl e, file)
         | Inr ps \<Rightarrow>
             (let qs = remove_by pb_name n ps;
                  removed = (length qs \<noteq> length ps)
              in (Inr removed, if removed then Playbooks qs else file)))"

definition find_playbook :: "str \<Rightarrow> playbook_file \<Rightarrow> playbook_error + playbook" where
  "find_playbook name file =
     (case load_playbooks file of
        Inl e \<Rightarrow> Inl e
      | Inr ps \<Rightarrow>
          (case find_by pb_name ps name of None \<Rightarrow> Inl (PlaybookNotFound name) | Some p \<Rightarrow> Inr p))"

section \<open>Templates\<close>

definition open_braces :: str where "open_braces = ''{{''"
definition close_braces :: str where "close_braces = ''}}''"

text \<open>
  The second \<open>find\<close> starts at the opening braces, which hold no closing brace, so it finds the first
  closing pair after them. Braces are ASCII, so the slices are at boundaries.
\<close>

lemma split_once_shorter:
  "split_once open_braces s = Some (u, v) \<Longrightarrow> split_once close_braces v = Some (w, t) \<Longrightarrow> length t < length s"
  by (drule split_once_Some)+ (simp add: open_braces_def close_braces_def)

definition placeholder :: "str \<Rightarrow> str" where
  "placeholder name = open_braces @ name @ close_braces"

text \<open>The value for a placeholder: an error, or the text and whether a parameter was used.\<close>

definition fill :: "(str \<rightharpoonup> str) \<Rightarrow> playbook_param list \<Rightarrow> str \<Rightarrow> playbook_error + (str \<times> bool)" where
  "fill params defs name =
     (case params name of
        Some v \<Rightarrow> Inr (v, True)
      | None \<Rightarrow>
          (case find_by pp_name defs name of
             None \<Rightarrow> Inr (placeholder name, False)
           | Some d \<Rightarrow>
               (case pp_default d of
                  Some v \<Rightarrow> Inr (v, True)
                | None \<Rightarrow> if pp_required d then Inl (MissingParam name) else Inr (placeholder name, False))))"

function resolve_go ::
  "(str \<rightharpoonup> str) \<Rightarrow> playbook_param list \<Rightarrow> str \<Rightarrow> str \<Rightarrow> str list \<Rightarrow>
   playbook_error + (str \<times> str list)" where
  "resolve_go params defs remaining result used =
     (case split_once open_braces remaining of
        None \<Rightarrow> Inr (result @ remaining, used)
      | Some (before, rest) \<Rightarrow>
          (case split_once close_braces rest of
             None \<Rightarrow> Inr (result @ remaining, used)
           | Some (inner, rest') \<Rightarrow>
               (case fill params defs (trim inner) of
                  Inl e \<Rightarrow> Inl e
                | Inr (v, u) \<Rightarrow>
                    resolve_go params defs rest' (result @ before @ v)
                      (if u then used @ [trim inner] else used))))"
  by pat_completeness auto
termination
  by (relation "measure (\<lambda>(_, _, remaining, _, _). length remaining)") (auto intro: split_once_shorter)

declare resolve_go.simps [simp del]

definition resolve_command_template ::
  "str \<Rightarrow> (str \<rightharpoonup> str) \<Rightarrow> playbook_param list \<Rightarrow> playbook_error + (str \<times> str list)" where
  "resolve_command_template template params defs = resolve_go params defs template [] []"

definition effective_steps :: "playbook \<Rightarrow> (str \<times> playbook_param list) list" where
  "effective_steps p =
     (case pb_advanced_steps p of
        Some advanced \<Rightarrow> map (\<lambda>s. (ps_command s, ps_params s)) advanced
      | None \<Rightarrow> map (\<lambda>s. (s, [])) (pb_steps p))"

fun add_missing :: "(str \<rightharpoonup> str) \<Rightarrow> playbook_param list \<Rightarrow> str list \<Rightarrow> str list" where
  "add_missing params [] missing = missing"
| "add_missing params (d # ds) missing =
     add_missing params ds
       (if pp_required d \<and> params (pp_name d) = None \<and> pp_default d = None \<and> pp_name d \<notin> set missing
        then missing @ [pp_name d] else missing)"

definition validate_playbook_params ::
  "str \<Rightarrow> (str \<rightharpoonup> str) \<Rightarrow> playbook_file \<Rightarrow> playbook_error + str list" where
  "validate_playbook_params name params file =
     map_sum id (\<lambda>p. foldl (\<lambda>missing (_, defs). add_missing params defs missing) [] (effective_steps p))
       (find_playbook name file)"

fun dry_steps ::
  "(str \<rightharpoonup> str) \<Rightarrow> nat \<Rightarrow> (str \<times> playbook_param list) list \<Rightarrow> playbook_error + dry_run_step list" where
  "dry_steps params idx [] = Inr []"
| "dry_steps params idx ((template, defs) # steps) =
     (case resolve_command_template template params defs of
        Inl e \<Rightarrow> Inl e
      | Inr (resolved, used) \<Rightarrow>
          map_sum id (\<lambda>ds. \<lparr>dr_step = idx, dr_template = template, dr_resolved = resolved, dr_params_used = used\<rparr> # ds)
            (dry_steps params (idx + 1) steps))"

definition dry_run_playbook ::
  "str \<Rightarrow> (str \<rightharpoonup> str) \<Rightarrow> playbook_file \<Rightarrow> playbook_error + (str \<times> dry_run_step list)" where
  "dry_run_playbook name params file =
     (case find_playbook name file of
        Inl e \<Rightarrow> Inl e
      | Inr p \<Rightarrow> map_sum id (Pair (pb_name p)) (dry_steps params 0 (effective_steps p)))"

section \<open>Execution\<close>

text \<open>The caller's choices for a run.\<close>

record run_options =
  ro_host :: str
  ro_force :: bool
  ro_reason :: "str option"
  ro_change_id :: "str option"
  ro_source :: "str option"
  ro_approved_steps :: "nat list"

definition step_request :: "run_options \<Rightarrow> nat \<Rightarrow> str \<Rightarrow> exec_request" where
  "step_request ro idx command =
     \<lparr>rq_host = ro_host ro, rq_command = command,
      rq_force = (ro_force ro \<or> idx \<in> set (ro_approved_steps ro)), rq_timeout_secs = None, rq_stdin = None,
      rq_max_output_bytes = None, rq_reason = ro_reason ro, rq_change_id = ro_change_id ro,
      rq_side_effect = None, rq_source = ro_source ro\<rparr>"

text \<open>
  \<open>exec idx q w\<close> is the execution gate at the time of step \<open>idx\<close>. The result is \<open>None\<close> for a panic, an
  error when a template cannot be resolved, and otherwise the results of the steps and whether all
  of them exited with code 0.
\<close>

fun run_steps ::
  "(nat \<Rightarrow> exec_request \<Rightarrow> audit_world \<Rightarrow> ((exec_error + exec_result) \<times> audit_world) option) \<Rightarrow>
   run_options \<Rightarrow> (str \<rightharpoonup> str) \<Rightarrow> nat \<Rightarrow> (str \<times> playbook_param list) list \<Rightarrow>
   playbook_step_result list \<Rightarrow> audit_world \<Rightarrow>
   ((playbook_error + (playbook_step_result list \<times> bool)) \<times> audit_world) option" where
  "run_steps exec ro params idx [] completed w = Some (Inr (completed, True), w)"
| "run_steps exec ro params idx ((template, defs) # steps) completed w =
     (case resolve_command_template template params defs of
        Inl e \<Rightarrow> Some (Inl e, w)
      | Inr (command, _) \<Rightarrow>
          (case exec idx (step_request ro idx command) w of
             None \<Rightarrow> None
           | Some (Inr r, w') \<Rightarrow>
               (let completed' = completed @
                      [\<lparr>sr_step = idx, sr_command = command, sr_result = Some r, sr_error = None\<rparr>]
                in if er_exit_code r = Some 0 then run_steps exec ro params (idx + 1) steps completed' w'
                   else Some (Inr (completed', False), w'))
           | Some (Inl e, w') \<Rightarrow>
               Some (Inr (completed @
                      [\<lparr>sr_step = idx, sr_command = command, sr_result = None, sr_error = Some e\<rparr>], False), w')))"

text \<open>The gate with the contexts, the environment and the transport at the time of each step.\<close>

type_synonym transport = "host_profile \<Rightarrow> str \<Rightarrow> str option \<Rightarrow> nat \<Rightarrow> nat \<Rightarrow> capture_end \<times> nat"

definition gate_at ::
  "(nat \<Rightarrow> exec_ctx \<times> exec_ctx) \<Rightarrow> str option \<Rightarrow> (nat \<Rightarrow> transport) \<Rightarrow> risk_level option \<Rightarrow>
   nat \<Rightarrow> exec_request \<Rightarrow> audit_world \<Rightarrow> ((exec_error + exec_result) \<times> audit_world) option" where
  "gate_at ctxs env_var links risk_override idx q w =
     exec_ssh_core_with_risk_override (fst (ctxs idx)) (snd (ctxs idx)) env_var (links idx) q risk_override w"

definition run_playbook ::
  "(nat \<Rightarrow> exec_ctx \<times> exec_ctx) \<Rightarrow> str option \<Rightarrow> (nat \<Rightarrow> transport) \<Rightarrow> str \<Rightarrow> run_options \<Rightarrow>
   (str \<rightharpoonup> str) \<Rightarrow> playbook_file \<Rightarrow> audit_world \<Rightarrow>
   ((playbook_error + playbook_run_result) \<times> audit_world) option" where
  "run_playbook ctxs env_var links name ro params file w =
     (case find_playbook name file of
        Inl e \<Rightarrow> Some (Inl e, w)
      | Inr p \<Rightarrow>
          map_option (map_prod (map_sum id (\<lambda>(completed, success).
              \<lparr>pr_playbook = pb_name p, pr_host = ro_host ro, pr_steps_completed = completed,
               pr_success = success\<rparr>)) id)
            (run_steps (gate_at ctxs env_var links (pb_risk_override p)) ro params 0 (effective_steps p) [] w))"

section \<open>The file is a map from names to playbooks\<close>

text \<open>A file as a map; an unreadable file has no entries.\<close>

definition playbooks_of :: "playbook_file \<Rightarrow> str \<Rightarrow> playbook option" where
  "playbooks_of file = (case load_playbooks file of Inl _ \<Rightarrow> Map.empty | Inr ps \<Rightarrow> find_by pb_name ps)"

lemma normalize_playbook_ok:
  assumes "normalize_playbook p = Inr q"
  shows "pb_name q = trim (pb_name p)" "pb_name q \<noteq> []" "pb_description q \<noteq> []" "normalize_playbook q = Inr q"
proof -
  have items: "trimmed_items (trimmed_items xs) = trimmed_items xs" for xs
    by (induction xs) (auto simp: trimmed_items_def)
  have "trim ''No description'' = ''No description''" by code_simp
  with assms items show "pb_name q = trim (pb_name p)" "pb_name q \<noteq> []" "pb_description q \<noteq> []"
      "normalize_playbook q = Inr q"
    by (auto simp: normalize_playbook_def Let_def split: if_splits)
qed

lemma save_playbook_map:
  "playbooks_of (snd (save_playbook_core p f)) =
     (case (fst (save_playbook_core p f)) of
        Inr q \<Rightarrow> (playbooks_of f)(pb_name q \<mapsto> q)
      | Inl _ \<Rightarrow> playbooks_of f)"
  by (cases f) (auto simp: save_playbook_core_def playbooks_of_def fun_eq_iff sorted_list.lookup_put
      split: sum.splits)

lemma delete_playbook_map:
  "playbooks_of (snd (delete_playbook_core name f)) =
     (case (fst (delete_playbook_core name f)) of
        Inr removed \<Rightarrow> (playbooks_of f)(trim name := None)
      | Inl _ \<Rightarrow> playbooks_of f)"
proof (cases "load_playbooks f")
  case (Inr ps)
  let ?qs = "remove_by pb_name (trim name) ps"
  have unchanged: "(find_by pb_name ps)(trim name := None) = find_by pb_name ps" if "length ?qs = length ps"
    using that find_by_None [of pb_name ps "trim name"] by (auto simp: fun_eq_iff length_remove_by)
  have removed: "find_by pb_name ?qs = (find_by pb_name ps)(trim name := None)"
    by (auto simp: fun_eq_iff name_list.lookup_remove)
  show ?thesis
    using Inr unchanged removed by (simp add: delete_playbook_core_def playbooks_of_def Let_def)
qed (simp add: delete_playbook_core_def playbooks_of_def Let_def)

section \<open>What a template means\<close>

datatype piece = Literal str | Slot str

function pieces :: "str \<Rightarrow> piece list" where
  "pieces s =
     (case split_once open_braces s of
        None \<Rightarrow> [Literal s]
      | Some (u, v) \<Rightarrow>
          (case split_once close_braces v of
             None \<Rightarrow> [Literal s]
           | Some (inner, t) \<Rightarrow> Literal u # Slot inner # pieces t))"
  by pat_completeness auto
termination
  by (relation "measure length") (auto intro: split_once_shorter)

declare pieces.simps [simp del]

fun piece_text :: "piece \<Rightarrow> str" where
  "piece_text (Literal s) = s"
| "piece_text (Slot inner) = placeholder inner"

definition piece_value ::
  "(str \<rightharpoonup> str) \<Rightarrow> playbook_param list \<Rightarrow> piece \<Rightarrow> playbook_error + (str \<times> str list)" where
  "piece_value params defs p =
     (case p of
        Literal s \<Rightarrow> Inr (s, [])
      | Slot inner \<Rightarrow> map_sum id (\<lambda>(v, u). (v, if u then [trim inner] else [])) (fill params defs (trim inner)))"

text \<open>The values of the pieces side by side, or the first error.\<close>

fun gather :: "('a \<Rightarrow> 'e + (str \<times> str list)) \<Rightarrow> 'a list \<Rightarrow> 'e + (str \<times> str list)" where
  "gather f [] = Inr ([], [])"
| "gather f (x # xs) =
     (case f x of
        Inl e \<Rightarrow> Inl e
      | Inr (v, us) \<Rightarrow> map_sum id (\<lambda>(w, vs). (v @ w, us @ vs)) (gather f xs))"

lemma pieces_text: "concat (map piece_text (pieces s)) = s"
proof (induction s rule: pieces.induct)
  case (1 s)
  show ?case
  proof (cases "split_once open_braces s")
    case (Some uv)
    obtain u v where uv: "split_once open_braces s = Some (u, v)" using Some by (cases uv) auto
    show ?thesis
    proof (cases "split_once close_braces v")
      case (Some it)
      then obtain inner t where it: "split_once close_braces v = Some (inner, t)" by (cases it) auto
      have "concat (map piece_text (pieces t)) = t" using 1 [OF uv refl it refl] .
      then have "concat (map piece_text (pieces s)) = u @ placeholder inner @ t"
        by (simp add: pieces.simps [of s] uv it)
      then show ?thesis
        using split_once_Some [OF uv] split_once_Some [OF it] by (simp add: placeholder_def)
    qed (simp add: pieces.simps [of s] uv)
  qed (simp add: pieces.simps [of s])
qed

lemma resolve_go_gather:
  "resolve_go params defs s r us =
     map_sum id (\<lambda>(w, vs). (r @ w, us @ vs)) (gather (piece_value params defs) (pieces s))"
proof (induction params defs s r us rule: resolve_go.induct)
  case (1 params defs s r us)
  show ?case
  proof (cases "split_once open_braces s")
    case None
    then show ?thesis by (simp add: resolve_go.simps [of params defs s] pieces.simps [of s] piece_value_def)
  next
    case (Some uv)
    obtain u v where uv: "split_once open_braces s = Some (u, v)" using Some by (cases uv) auto
    show ?thesis
    proof (cases "split_once close_braces v")
      case None
      then show ?thesis by (simp add: resolve_go.simps [of params defs s] pieces.simps [of s] uv piece_value_def)
    next
      case (Some it)
      then obtain inner t where it: "split_once close_braces v = Some (inner, t)" by (cases it) auto
      show ?thesis
      proof (cases "fill params defs (trim inner)")
        case (Inl e)
        then show ?thesis
          by (simp add: resolve_go.simps [of params defs s] pieces.simps [of s] uv it piece_value_def)
      next
        case (Inr vb)
        obtain val b where b: "fill params defs (trim inner) = Inr (val, b)" using Inr by (cases vb) auto
        have "resolve_go params defs t (r @ u @ val) (if b then us @ [trim inner] else us) =
            map_sum id (\<lambda>(w, vs). ((r @ u @ val) @ w, (if b then us @ [trim inner] else us) @ vs))
              (gather (piece_value params defs) (pieces t))"
          using 1 [OF uv refl it refl b refl] .
        moreover have "piece_value params defs (Slot inner) = Inr (val, if b then [trim inner] else [])"
          by (simp add: piece_value_def b)
        moreover have "piece_value params defs (Literal u) = Inr (u, [])" by (simp add: piece_value_def)
        ultimately show ?thesis
          by (cases "gather (piece_value params defs) (pieces t)")
             (auto simp: resolve_go.simps [of params defs s] pieces.simps [of s] uv it b)
      qed
    qed
  qed
qed

lemma resolve_gather: "resolve_command_template t params defs = gather (piece_value params defs) (pieces t)"
  by (cases "gather (piece_value params defs) (pieces t)")
     (auto simp: resolve_command_template_def resolve_go_gather)

text \<open>
  A template is expanded by substitution, once. It is cut into literal text and
  placeholders, whose texts side by side are the template; the result is the values of the pieces
  side by side, or the error of the first placeholder that has none. What a value holds is not
  expanded again.
\<close>

theorem template_is_substituted:
  "resolve_command_template t params defs = gather (piece_value params defs) (pieces t) \<and>
   concat (map piece_text (pieces t)) = t \<and>
   list_all (\<lambda>p. case p of Literal _ \<Rightarrow> True | Slot inner \<Rightarrow> \<not> contains inner close_braces) (pieces t)"
proof -
  have slots: "list_all (\<lambda>p. case p of Literal _ \<Rightarrow> True | Slot inner \<Rightarrow> \<not> contains inner close_braces) (pieces t)"
  proof (induction t rule: pieces.induct)
    case (1 s)
    then show ?case
      by (subst pieces.simps) (auto split: option.splits dest: split_once_first simp: close_braces_def)
  qed
  then show ?thesis using pieces_text resolve_gather by blast
qed

section \<open>Checking the parameters\<close>

definition lacks :: "(str \<rightharpoonup> str) \<Rightarrow> playbook_param \<Rightarrow> bool" where
  "lacks params d \<longleftrightarrow> pp_required d \<and> params (pp_name d) = None \<and> pp_default d = None"

lemma set_add_missing:
  "set (add_missing params ds m) = set m \<union> pp_name ` {d \<in> set ds. lacks params d}"
  by (induction ds arbitrary: m) (auto simp: lacks_def)

lemma set_missing:
  "set (foldl (\<lambda>missing (_, defs). add_missing params defs missing) m steps) =
     set m \<union> (\<Union>(t, defs) \<in> set steps. pp_name ` {d \<in> set defs. lacks params d})"
  by (induction steps arbitrary: m) (auto simp: set_add_missing)

lemma fill_lacks: "fill params defs n = Inl e \<Longrightarrow> e = MissingParam n \<and> (\<exists>d \<in> set defs. pp_name d = n \<and> lacks params d)"
  by (auto simp: fill_def lacks_def split: option.splits if_splits dest: find_by_key)

lemma gather_Inl: "gather f xs = Inl e \<Longrightarrow> \<exists>x \<in> set xs. f x = Inl e"
  by (induction xs) (auto split: sum.splits simp: map_sum_def)

lemma piece_value_Inl: "piece_value params defs p = Inl e \<Longrightarrow> \<exists>n. fill params defs n = Inl e"
  by (cases p; cases "fill params defs (trim (case p of Slot i \<Rightarrow> i | Literal i \<Rightarrow> i))") (auto simp: piece_value_def)

lemma resolve_lacks:
  assumes "resolve_command_template t params defs = Inl e"
  shows "\<exists>d \<in> set defs. lacks params d \<and> e = MissingParam (pp_name d)"
proof -
  from assms obtain p where "piece_value params defs p = Inl e"
    using gather_Inl [of "piece_value params defs" "pieces t" e] by (auto simp: resolve_gather)
  then obtain n where "fill params defs n = Inl e" using piece_value_Inl by blast
  then show ?thesis using fill_lacks by blast
qed

lemma dry_steps_total:
  assumes "list_all (\<lambda>(t, defs). list_all (\<lambda>d. \<not> lacks params d) defs) steps"
  shows "\<exists>ds. dry_steps params idx steps = Inr ds \<and> map dr_template ds = map fst steps"
  using assms
proof (induction steps arbitrary: idx)
  case (Cons step steps)
  obtain t defs where step: "step = (t, defs)" by (cases step)
  have "\<exists>r. resolve_command_template t params defs = Inr r"
  proof (cases "resolve_command_template t params defs")
    case (Inl e)
    from resolve_lacks [OF Inl] obtain d where "d \<in> set defs" "lacks params d" by blast
    with Cons.prems step show ?thesis by (simp add: list_all_iff)
  qed auto
  then obtain v us where "resolve_command_template t params defs = Inr (v, us)" by auto
  moreover obtain ds where "dry_steps params (idx + 1) steps = Inr ds" "map dr_template ds = map fst steps"
    using Cons by auto
  ultimately show ?case using step by simp
qed simp

text \<open>
  Parameters that validate are enough. When no required parameter is reported missing,
  every step of the playbook can be expanded.
\<close>

theorem validated_playbook_expands:
  assumes "validate_playbook_params name params f = Inr []"
  shows "\<exists>p ds. find_playbook name f = Inr p \<and> dry_run_playbook name params f = Inr (pb_name p, ds) \<and>
    map dr_template ds = map fst (effective_steps p)"
proof -
  obtain p where p: "find_playbook name f = Inr p"
      "foldl (\<lambda>missing (_, defs). add_missing params defs missing) [] (effective_steps p) = []"
    using assms by (cases "find_playbook name f") (auto simp: validate_playbook_params_def)
  then have "list_all (\<lambda>(t, defs). list_all (\<lambda>d. \<not> lacks params d) defs) (effective_steps p)"
    using set_missing [of params "[]" "effective_steps p"] by (auto simp: list_all_iff)
  from dry_steps_total [OF this, of 0] p(1) show ?thesis by (auto simp: dry_run_playbook_def)
qed

section \<open>What a run does\<close>

definition failed_step :: "playbook_step_result \<Rightarrow> bool" where
  "failed_step r \<longleftrightarrow> (case sr_result r of Some x \<Rightarrow> er_exit_code x \<noteq> Some 0 | None \<Rightarrow> True)"

lemma run_steps_dry:
  assumes "dry_steps params idx steps = Inr ds" "run_steps exec ro params idx steps completed w = Some (res, w')"
  shows "\<exists>new. res = Inr (completed @ new, length new = length ds \<and> \<not> list_ex failed_step new) \<and>
    map (\<lambda>r. (sr_step r, sr_command r)) new = take (length new) (map (\<lambda>d. (dr_step d, dr_resolved d)) ds) \<and>
    \<not> list_ex failed_step (butlast new) \<and> (length new < length ds \<longrightarrow> list_ex failed_step new)"
  using assms
proof (induction exec ro params idx steps completed w arbitrary: ds rule: run_steps.induct)
  case (1 exec ro params idx completed w)
  then show ?case by simp
next
  case (2 exec ro params idx template defs steps completed w)
  from "2.prems"(1) obtain command us ds' where c: "resolve_command_template template params defs = Inr (command, us)"
      "dry_steps params (idx + 1) steps = Inr ds'"
      "ds = \<lparr>dr_step = idx, dr_template = template, dr_resolved = command, dr_params_used = us\<rparr> # ds'"
    by (auto split: sum.splits prod.splits simp: map_sum_def)
  let ?q = "step_request ro idx command"
  show ?case
  proof (cases "exec idx ?q w")
    case None
    with "2.prems"(2) c(1) show ?thesis by simp
  next
    case (Some out)
    show ?thesis
    proof (cases "fst out")
      case (Inl e)
      with Some "2.prems"(2) c(1) have "res = Inr (completed @
          [\<lparr>sr_step = idx, sr_command = command, sr_result = None, sr_error = Some e\<rparr>], False)"
        by (cases out) simp
      then show ?thesis using c(3) by (simp add: failed_step_def)
    next
      case (Inr r)
      let ?new = "\<lparr>sr_step = idx, sr_command = command, sr_result = Some r, sr_error = None\<rparr>"
      show ?thesis
      proof (cases "er_exit_code r = Some 0")
        case True
        obtain w1 where out: "out = (Inr r, w1)" using Inr by (cases out) auto
        have run: "run_steps exec ro params (idx + 1) steps (completed @ [?new]) w1 = Some (res, w')"
          using "2.prems"(2) Some out True c(1) by (simp add: Let_def)
        have ok: "\<not> failed_step ?new" using True by (simp add: failed_step_def)
        have "\<exists>new. res = Inr ((completed @ [?new]) @ new, length new = length ds' \<and> \<not> list_ex failed_step new) \<and>
            map (\<lambda>r. (sr_step r, sr_command r)) new = take (length new) (map (\<lambda>d. (dr_step d, dr_resolved d)) ds') \<and>
            \<not> list_ex failed_step (butlast new) \<and> (length new < length ds' \<longrightarrow> list_ex failed_step new)"
          using "2.IH" c(1,2) Some out True run by (auto simp: Let_def)
        then obtain new where new: "res = Inr ((completed @ [?new]) @ new, length new = length ds' \<and> \<not> list_ex failed_step new)"
            "map (\<lambda>r. (sr_step r, sr_command r)) new = take (length new) (map (\<lambda>d. (dr_step d, dr_resolved d)) ds')"
            "\<not> list_ex failed_step (butlast new)" "length new < length ds' \<longrightarrow> list_ex failed_step new"
          by blast
        then show ?thesis using c(3) ok by (intro exI [of _ "?new # new"]) auto
      next
        case False
        with Inr Some "2.prems"(2) c(1) have "res = Inr (completed @ [?new], False)"
          by (cases out) (simp add: Let_def)
        with False show ?thesis using c(3) by (simp add: failed_step_def)
      qed
    qed
  qed
qed

lemma run_playbook_Inr:
  assumes "run_playbook ctxs env_var links name ro params f w = Some (Inr res, w')"
  shows "\<exists>p. find_playbook name f = Inr p \<and>
    run_steps (gate_at ctxs env_var links (pb_risk_override p)) ro params 0 (effective_steps p) [] w =
      Some (Inr (pr_steps_completed res, pr_success res), w')"
proof -
  from assms obtain p where p: "find_playbook name f = Inr p"
    by (cases "find_playbook name f") (auto simp: run_playbook_def)
  let ?run = "run_steps (gate_at ctxs env_var links (pb_risk_override p)) ro params 0 (effective_steps p) [] w"
  from assms p obtain out where out: "?run = Some (out, w')"
    by (cases ?run) (auto simp: run_playbook_def)
  with assms p show ?thesis by (cases out) (auto simp: run_playbook_def)
qed

text \<open>
  Property (C28): a dry run shows what a run does. The steps of a run are the first steps of the dry run,
  with the same commands; every step but the last one exited with code 0, a run stops before the end
  only after a failed step, and it reports success exactly when all steps ran and none failed.
\<close>

theorem run_follows_dry_run:
  assumes "dry_run_playbook name params f = Inr (n, ds)"
    and "run_playbook ctxs env_var links name ro params f w = Some (Inr res, w')"
  shows "let new = pr_steps_completed res in
    map (\<lambda>r. (sr_step r, sr_command r)) new = take (length new) (map (\<lambda>d. (dr_step d, dr_resolved d)) ds) \<and>
    \<not> list_ex failed_step (butlast new) \<and> (length new < length ds \<longrightarrow> list_ex failed_step new) \<and>
    pr_success res = (length new = length ds \<and> \<not> list_ex failed_step new)"
proof -
  from run_playbook_Inr [OF assms(2)] obtain p where p: "find_playbook name f = Inr p"
      "run_steps (gate_at ctxs env_var links (pb_risk_override p)) ro params 0 (effective_steps p) [] w =
        Some (Inr (pr_steps_completed res, pr_success res), w')"
    by blast
  with assms(1) have "dry_steps params 0 (effective_steps p) = Inr ds"
    by (cases "dry_steps params 0 (effective_steps p)") (auto simp: dry_run_playbook_def)
  from run_steps_dry [OF this p(2)] show ?thesis by (auto simp: Let_def)
qed

lemma gate_result:
  assumes "exec_ssh_core_with_risk_override ctx ctx' env_var run q override w = Some (Inr x, w')"
  shows "er_risk_level x \<noteq> Blocked" "er_risk_level x = High \<longrightarrow> rq_force q"
    and "effective_command_risk ctx (rq_command q) \<noteq> Some Blocked"
proof -
  from assms obtain h where h: "resolve_host (ctx_config ctx) (rq_host q) = Inr h"
    by (auto simp: exec_ssh_core_with_risk_override_def split: if_splits sum.splits)
  with assms obtain classified where c: "effective_command_risk ctx (rq_command q) = Some classified"
    by (auto simp: exec_ssh_core_with_risk_override_def split: if_splits)
  let ?risk = "apply_risk_override classified (opt_or override (hp_risk_override h))"
  have ok: "policy_refusal q ?risk = None"
    using assms h c by (cases "policy_refusal q ?risk") (auto simp: exec_ssh_core_with_risk_override_def Let_def split: if_splits)
  obtain ending where fin: "finish_exec ctx' q ?risk (request_source env_var q) False ending w = (Inr x, w')"
    using assms h c ok by (auto simp: exec_ssh_core_with_risk_override_def Let_def split: if_splits)
  have "er_risk_level x = ?risk"
    using fin by (cases ending; cases "fst ending") (auto simp: finish_exec_def result_of_def Let_def)
  with ok show "er_risk_level x \<noteq> Blocked" "er_risk_level x = High \<longrightarrow> rq_force q"
    by (auto simp: policy_refusal_None)
  from ok show "effective_command_risk ctx (rq_command q) \<noteq> Some Blocked"
    unfolding c by (auto simp: policy_refusal_None)
qed

lemma run_steps_gated:
  assumes "run_steps exec ro params idx steps completed w = Some (Inr (all, success), w')"
    and "r \<in> set all" "sr_result r = Some x" "r \<notin> set completed"
  shows "\<exists>u u'. exec (sr_step r) (step_request ro (sr_step r) (sr_command r)) u = Some (Inr x, u')"
  using assms
proof (induction exec ro params idx steps completed w rule: run_steps.induct)
  case (2 exec ro params idx template defs steps completed w)
  show ?case
  proof (cases "resolve_command_template template params defs")
    case (Inr cu)
    obtain command us where c: "resolve_command_template template params defs = Inr (command, us)"
      using Inr by (cases cu) auto
    show ?thesis
    proof (cases "exec idx (step_request ro idx command) w")
      case None
      with "2.prems"(1) c show ?thesis by simp
    next
      case (Some out)
      obtain o' w1 where out: "out = (o', w1)" by (cases out)
      show ?thesis
      proof (cases o')
        case (Inl e)
        with "2.prems" Some out c show ?thesis by auto
      next
        case (Inr y)
        let ?new = "\<lparr>sr_step = idx, sr_command = command, sr_result = Some y, sr_error = None\<rparr>"
        have this_step: "r = ?new \<Longrightarrow> ?thesis" using "2.prems"(3) Some out Inr by auto
        show ?thesis
        proof (cases "er_exit_code y = Some 0")
          case True
          with "2.prems"(1) Some out Inr c have
              "run_steps exec ro params (idx + 1) steps (completed @ [?new]) w1 = Some (Inr (all, success), w')"
            by (simp add: Let_def)
          from "2.IH" [OF c refl Some out [symmetric] Inr refl True this] "2.prems"(2-4) this_step show ?thesis
            by (cases "r = ?new") auto
        next
          case False
          with "2.prems" Some out Inr c this_step show ?thesis by (auto simp: Let_def)
        qed
      qed
    qed
  qed (use "2.prems"(1) in simp)
qed simp

text \<open>
  A playbook is no way around the gate. Every step that ran was let through by the
  classification at its time: its command is not one the rules block, whatever risk the playbook
  declares, and a high risk ran with the force of the run or an approval for that step.
\<close>

theorem playbook_steps_are_gated:
  assumes "run_playbook ctxs env_var links name ro params f w = Some (Inr res, w')"
    and "r \<in> set (pr_steps_completed res)" "sr_result r = Some x"
  shows "er_risk_level x \<noteq> Blocked \<and>
    (er_risk_level x = High \<longrightarrow> ro_force ro \<or> sr_step r \<in> set (ro_approved_steps ro)) \<and>
    effective_command_risk (fst (ctxs (sr_step r))) (sr_command r) \<noteq> Some Blocked"
proof -
  from run_playbook_Inr [OF assms(1)] obtain p where
      "run_steps (gate_at ctxs env_var links (pb_risk_override p)) ro params 0 (effective_steps p) [] w =
        Some (Inr (pr_steps_completed res, pr_success res), w')"
    by blast
  from run_steps_gated [OF this assms(2,3)] obtain u u' where
      "gate_at ctxs env_var links (pb_risk_override p) (sr_step r) (step_request ro (sr_step r) (sr_command r)) u =
         Some (Inr x, u')"
    by auto
  from gate_result [OF this [unfolded gate_at_def]] show ?thesis by (auto simp: step_request_def)
qed

section \<open>Examples\<close>

definition demo_book :: playbook where
  "demo_book = \<lparr>pb_name = ''check'', pb_description = ''d'', pb_steps = [''ls (('', ''ls {{dir}}''], pb_tags = [],
     pb_risk_override = None,
     pb_advanced_steps = Some
       [\<lparr>ps_command = ''ls (('', ps_description = None, ps_params = []\<rparr>,
        \<lparr>ps_command = ''ls {{ dir }}'', ps_description = None,
         ps_params = [\<lparr>pp_name = ''dir'', pp_description = None, pp_default = None, pp_required = True\<rparr>]\<rparr>]\<rparr>"

definition demo_options :: run_options where
  "demo_options = \<lparr>ro_host = ''web'', ro_force = True, ro_reason = None, ro_change_id = None,
     ro_source = None, ro_approved_steps = []\<rparr>"

definition demo_links :: "nat \<Rightarrow> transport" where
  "demo_links idx host command stdin timeout max_bytes =
     (Captured \<lparr>cap_exit_code = Some 0, cap_stdout = [], cap_stderr = [], cap_truncated = False,
                cap_dropped_bytes = 0\<rparr>, 5)"

definition demo_ctxs :: "nat \<Rightarrow> exec_ctx \<times> exec_ctx" where
  "demo_ctxs idx = (demo_ctx\<lparr>ctx_config := Some [demo_host]\<rparr>, demo_ctx)"

lemma demo_dry_run:
  "dry_run_playbook ''check'' [''dir'' \<mapsto> ''(('' ] (Playbooks [demo_book]) =
     Inr (''check'',
       [\<lparr>dr_step = 0, dr_template = ''ls (('', dr_resolved = ''ls (('', dr_params_used = []\<rparr>,
        \<lparr>dr_step = 1, dr_template = ''ls {{ dir }}'', dr_resolved = ''ls (('', dr_params_used = [''dir'']\<rparr>])"
  by code_simp

lemma validated_playbook_expands_witness:
  "\<exists>ds. dry_run_playbook ''check'' [''dir'' \<mapsto> ''x''] (Playbooks [demo_book]) = Inr (''check'', ds) \<and> length ds = 2"
proof -
  have "validate_playbook_params ''check'' [''dir'' \<mapsto> ''x''] (Playbooks [demo_book]) = Inr []" by code_simp
  from validated_playbook_expands [OF this] obtain p ds where p: "find_playbook ''check'' (Playbooks [demo_book]) = Inr p"
      "dry_run_playbook ''check'' [''dir'' \<mapsto> ''x''] (Playbooks [demo_book]) = Inr (pb_name p, ds)"
      "map dr_template ds = map fst (effective_steps p)"
    by blast
  then have "p = demo_book" by (simp add: find_playbook_def demo_book_def)
  with p show ?thesis by (auto simp: demo_book_def effective_steps_def dest: map_eq_imp_length_eq)
qed

lemma demo_gate:
  "\<exists>x w'. gate_at demo_ctxs None demo_links None idx (step_request demo_options idx ''ls (('') w = Some (Inr x, w') \<and>
     er_exit_code x = Some 0"
proof -
  have risk: "effective_command_risk (demo_ctx\<lparr>ctx_config := Some [demo_host]\<rparr>) ''ls (('' = Some High"
    by (simp add: effective_command_risk_def classify_effective_risk_def classify_with_user_rules_def demo_ctx_def)
  have host: "hp_name demo_host = ''web''" "hp_risk_override demo_host = None" by (simp_all add: demo_host_def)
  show ?thesis
    by (simp add: gate_at_def demo_ctxs_def exec_ssh_core_with_risk_override_def step_request_def demo_options_def
        risk command_too_long_def MAX_COMMAND_BYTES_def resolve_host_def host policy_refusal_def
        finish_exec_def demo_links_def result_of_def Let_def)
qed

text \<open>An empty list of advanced steps hides the plain steps: the run does nothing and succeeds.\<close>

lemma empty_advanced_steps_run_nothing:
  "normalize_playbook (demo_book\<lparr>pb_advanced_steps := Some []\<rparr>) = Inr (demo_book\<lparr>pb_advanced_steps := Some []\<rparr>) \<and>
   run_playbook ctxs env_var links ''check'' ro params (Playbooks [demo_book\<lparr>pb_advanced_steps := Some []\<rparr>]) w =
     Some (Inr \<lparr>pr_playbook = ''check'', pr_host = ro_host ro, pr_steps_completed = [], pr_success = True\<rparr>, w)"
proof
  show "normalize_playbook (demo_book\<lparr>pb_advanced_steps := Some []\<rparr>) = Inr (demo_book\<lparr>pb_advanced_steps := Some []\<rparr>)"
    by code_simp
qed (simp add: run_playbook_def find_playbook_def demo_book_def effective_steps_def)

text \<open>A template that cannot be expanded ends the run with an error, and what ran before is not reported.\<close>

lemma late_error_hides_executed_steps:
  "\<exists>w'. run_playbook demo_ctxs None demo_links ''check'' demo_options Map.empty (Playbooks [demo_book]) w =
     Some (Inl (MissingParam ''dir''), w')"
proof -
  obtain x w' where x: "gate_at demo_ctxs None demo_links None 0 (step_request demo_options 0 ''ls (('') w = Some (Inr x, w')"
      "er_exit_code x = Some 0"
    using demo_gate by blast
  have steps: "find_playbook ''check'' (Playbooks [demo_book]) = Inr demo_book"
      "effective_steps demo_book = [(''ls (('', []), (''ls {{ dir }}'', [\<lparr>pp_name = ''dir'', pp_description = None, pp_default = None, pp_required = True\<rparr>])]"
      "pb_risk_override demo_book = None"
    by (simp_all add: find_playbook_def demo_book_def effective_steps_def)
  have "resolve_command_template ''ls (('' Map.empty [] = Inr (''ls (('', [])"
      "resolve_command_template ''ls {{ dir }}'' Map.empty
         [\<lparr>pp_name = ''dir'', pp_description = None, pp_default = None, pp_required = True\<rparr>] = Inl (MissingParam ''dir'')"
    by code_simp+
  with x show ?thesis by (simp add: run_playbook_def steps Let_def)
qed

lemma demo_playbook_run:
  "\<exists>x y w'. run_playbook demo_ctxs None demo_links ''check'' demo_options [''dir'' \<mapsto> ''(('' ] (Playbooks [demo_book]) w =
     Some (Inr \<lparr>pr_playbook = ''check'', pr_host = ''web'', pr_steps_completed =
       [\<lparr>sr_step = 0, sr_command = ''ls (('', sr_result = Some x, sr_error = None\<rparr>,
        \<lparr>sr_step = 1, sr_command = ''ls (('', sr_result = Some y, sr_error = None\<rparr>], pr_success = True\<rparr>, w')"
proof -
  obtain x w1 where x: "gate_at demo_ctxs None demo_links None 0 (step_request demo_options 0 ''ls (('') w = Some (Inr x, w1)"
      "er_exit_code x = Some 0"
    using demo_gate by blast
  obtain y w2 where y: "gate_at demo_ctxs None demo_links None (Suc 0) (step_request demo_options (Suc 0) ''ls (('') w1 = Some (Inr y, w2)"
      "er_exit_code y = Some 0"
    using demo_gate by blast
  have steps: "find_playbook ''check'' (Playbooks [demo_book]) = Inr demo_book"
      "effective_steps demo_book = [(''ls (('', []), (''ls {{ dir }}'', [\<lparr>pp_name = ''dir'', pp_description = None, pp_default = None, pp_required = True\<rparr>])]"
      "pb_risk_override demo_book = None" "pb_name demo_book = ''check''" "ro_host demo_options = ''web''"
    by (simp_all add: find_playbook_def demo_book_def effective_steps_def demo_options_def)
  have "resolve_command_template ''ls (('' [''dir'' \<mapsto> ''(('' ] [] = Inr (''ls (('', [])"
      "resolve_command_template ''ls {{ dir }}'' [''dir'' \<mapsto> ''(('' ]
         [\<lparr>pp_name = ''dir'', pp_description = None, pp_default = None, pp_required = True\<rparr>] = Inr (''ls (('', [''dir''])"
    by code_simp+
  with x y show ?thesis by (simp add: run_playbook_def steps Let_def)
qed

lemma run_follows_dry_run_witness:
  "\<exists>res w'. run_playbook demo_ctxs None demo_links ''check'' demo_options [''dir'' \<mapsto> ''(('' ] (Playbooks [demo_book]) empty_world =
     Some (Inr res, w') \<and> map sr_command (pr_steps_completed res) = [''ls (('', ''ls (('' ] \<and> pr_success res"
proof -
  obtain x y w' where run: "run_playbook demo_ctxs None demo_links ''check'' demo_options [''dir'' \<mapsto> ''(('' ] (Playbooks [demo_book]) empty_world =
     Some (Inr \<lparr>pr_playbook = ''check'', pr_host = ''web'', pr_steps_completed =
       [\<lparr>sr_step = 0, sr_command = ''ls (('', sr_result = Some x, sr_error = None\<rparr>,
        \<lparr>sr_step = 1, sr_command = ''ls (('', sr_result = Some y, sr_error = None\<rparr>], pr_success = True\<rparr>, w')"
    using demo_playbook_run by blast
  from run_follows_dry_run [OF demo_dry_run run] run show ?thesis by (auto simp: Let_def)
qed

lemma playbook_steps_are_gated_witness:
  "\<exists>res w' r x. run_playbook demo_ctxs None demo_links ''check'' demo_options [''dir'' \<mapsto> ''(('' ] (Playbooks [demo_book]) empty_world =
     Some (Inr res, w') \<and> r \<in> set (pr_steps_completed res) \<and> sr_result r = Some x \<and> er_risk_level x \<noteq> Blocked"
proof -
  obtain x y w' where run: "run_playbook demo_ctxs None demo_links ''check'' demo_options [''dir'' \<mapsto> ''(('' ] (Playbooks [demo_book]) empty_world =
     Some (Inr \<lparr>pr_playbook = ''check'', pr_host = ''web'', pr_steps_completed =
       [\<lparr>sr_step = 0, sr_command = ''ls (('', sr_result = Some x, sr_error = None\<rparr>,
        \<lparr>sr_step = 1, sr_command = ''ls (('', sr_result = Some y, sr_error = None\<rparr>], pr_success = True\<rparr>, w')"
    using demo_playbook_run by blast
  from playbook_steps_are_gated [OF run, of "\<lparr>sr_step = 0, sr_command = ''ls (('', sr_result = Some x, sr_error = None\<rparr>" x]
  have "er_risk_level x \<noteq> Blocked" by simp
  with run show ?thesis by fastforce
qed

end
