(* ===== verification/Snippets.thy ===== *)
theory Snippets
  imports Record_List Text_Split
begin

text \<open>
  \<open>snippets.rs\<close>: named commands in a JSON file, which is absent, unreadable, or the list it holds. The
  lock around a change makes it one step.
\<close>

record snippet =
  sn_name :: str
  sn_command :: str
  sn_description :: "str option"

datatype snippet_error =
    SnippetNameEmpty
  | SnippetNameTooLong
  | SnippetNameControl
  | SnippetCommandEmpty
  | SnippetCommandTooLong
  | SnippetDescriptionTooLong
  | SnippetsUnreadable
  | DuplicateSnippet str
  | InvalidSnippetName

datatype snippet_file = NoSnippets | BadSnippets | Snippets "snippet list"

definition MAX_NAME_CHARS :: nat where "MAX_NAME_CHARS = 128"
definition MAX_SNIPPET_BYTES :: nat where "MAX_SNIPPET_BYTES = 64 * 1024"
definition MAX_DESCRIPTION_CHARS :: nat where "MAX_DESCRIPTION_CHARS = 4 * 1024"

definition name_error :: "str \<Rightarrow> snippet_error option" where
  "name_error name =
     (if name = [] then Some SnippetNameEmpty
      else if length (chars name) > MAX_NAME_CHARS then Some SnippetNameTooLong
      else if list_ex is_control_char (chars name) then Some SnippetNameControl
      else None)"

definition trimmed_description :: "str option \<Rightarrow> str option" where
  "trimmed_description d = (case d of None \<Rightarrow> None | Some x \<Rightarrow> if trim x = [] then None else Some (trim x))"

definition validate_snippet :: "snippet \<Rightarrow> snippet_error + snippet" where
  "validate_snippet s =
     (let t = s\<lparr>sn_name := trim (sn_name s)\<rparr>
      in case name_error (sn_name t) of
           Some e \<Rightarrow> Inl e
         | None \<Rightarrow>
             if trim (sn_command t) = [] then Inl SnippetCommandEmpty
             else if length (sn_command t) > MAX_SNIPPET_BYTES then Inl SnippetCommandTooLong
             else let u = t\<lparr>sn_description := trimmed_description (sn_description t)\<rparr>
                  in case sn_description u of
                       None \<Rightarrow> Inr u
                     | Some d \<Rightarrow>
                         if length (chars d) > MAX_DESCRIPTION_CHARS then Inl SnippetDescriptionTooLong else Inr u)"

fun load_snippets :: "snippet_file \<Rightarrow> snippet_error + snippet list" where
  "load_snippets NoSnippets = Inr []"
| "load_snippets BadSnippets = Inl SnippetsUnreadable"
| "load_snippets (Snippets ss) = Inr ss"

text \<open>\<open>collect::<Result<Vec<_>>>()\<close>: all values, or the first error.\<close>

fun collect_results :: "('e + 'a) list \<Rightarrow> 'e + 'a list" where
  "collect_results [] = Inr []"
| "collect_results (Inl e # rs) = Inl e"
| "collect_results (Inr x # rs) = map_sum id ((#) x) (collect_results rs)"

text \<open>The first name that was seen before.\<close>

fun first_duplicate :: "str set \<Rightarrow> str list \<Rightarrow> str option" where
  "first_duplicate seen [] = None"
| "first_duplicate seen (n # ns) = (if n \<in> seen then Some n else first_duplicate (insert n seen) ns)"

definition save_snippets :: "snippet list \<Rightarrow> snippet_file \<Rightarrow> (snippet_error + unit) \<times> snippet_file" where
  "save_snippets ss f =
     (case collect_results (map validate_snippet ss) of
        Inl e \<Rightarrow> (Inl e, f)
      | Inr validated \<Rightarrow>
          (case first_duplicate {} (map sn_name validated) of
             Some n \<Rightarrow> (Inl (DuplicateSnippet n), f)
           | None \<Rightarrow> (Inr (), Snippets validated)))"

definition add_snippet ::
  "str \<Rightarrow> str \<Rightarrow> str option \<Rightarrow> snippet_file \<Rightarrow> (snippet_error + snippet list) \<times> snippet_file" where
  "add_snippet name command description f =
     (case validate_snippet \<lparr>sn_name = name, sn_command = command, sn_description = description\<rparr> of
        Inl e \<Rightarrow> (Inl e, f)
      | Inr s \<Rightarrow>
          (case load_snippets f of
             Inl e \<Rightarrow> (Inl e, f)
           | Inr ss \<Rightarrow>
               (let ss' = put_by sn_name s ss
                in case save_snippets ss' f of
                     (Inl e, f') \<Rightarrow> (Inl e, f')
                   | (Inr _, f') \<Rightarrow> (Inr ss', f'))))"

definition remove_snippet :: "str \<Rightarrow> snippet_file \<Rightarrow> (snippet_error + bool) \<times> snippet_file" where
  "remove_snippet name f =
     (let n = trim name
      in if n = [] then (Inl SnippetNameEmpty, f)
         else if length (chars n) > MAX_NAME_CHARS \<or> list_ex is_control_char (chars n) then (Inl InvalidSnippetName, f)
         else case load_snippets f of
           Inl e \<Rightarrow> (Inl e, f)
         | Inr ss \<Rightarrow>
             (let ss' = remove_by sn_name n ss
              in if length ss' < length ss
                 then (case save_snippets ss' f of
                         (Inl e, f') \<Rightarrow> (Inl e, f')
                       | (Inr _, f') \<Rightarrow> (Inr True, f'))
                 else (Inr False, f)))"

definition merge_snippets :: "snippet list \<Rightarrow> snippet list \<Rightarrow> snippet list" where
  "merge_snippets local_ones incoming =
     foldl (\<lambda>result inc.
        upsert (\<lambda>s. sn_name s = sn_name inc)
          (\<lambda>s. s\<lparr>sn_command := sn_command inc, sn_description := sn_description inc\<rparr>) inc result)
       local_ones incoming"

section \<open>What is saved is valid\<close>

definition valid_snippet :: "snippet \<Rightarrow> bool" where
  "valid_snippet s \<longleftrightarrow>
     trim (sn_name s) = sn_name s \<and> name_error (sn_name s) = None \<and> trim (sn_command s) \<noteq> [] \<and>
     length (sn_command s) \<le> MAX_SNIPPET_BYTES \<and>
     (case sn_description s of
        None \<Rightarrow> True
      | Some d \<Rightarrow> trim d = d \<and> d \<noteq> [] \<and> length (chars d) \<le> MAX_DESCRIPTION_CHARS)"

definition snippets_ok :: "snippet_file \<Rightarrow> bool" where
  "snippets_ok f \<longleftrightarrow>
     (case f of
        NoSnippets \<Rightarrow> True | BadSnippets \<Rightarrow> False
      | Snippets ss \<Rightarrow> list_all valid_snippet ss \<and> distinct (map sn_name ss))"

lemma validate_gives_valid: "validate_snippet s = Inr t \<Longrightarrow> valid_snippet t"
  by (auto simp: validate_snippet_def valid_snippet_def Let_def trimmed_description_def
      split: option.splits if_splits)

lemma validate_valid: "valid_snippet s \<Longrightarrow> validate_snippet s = Inr s"
  by (cases s) (auto simp: validate_snippet_def valid_snippet_def Let_def trimmed_description_def split: option.splits)

lemma collect_validated: "collect_results (map validate_snippet ss) = Inr ts \<Longrightarrow> list_all valid_snippet ts"
proof (induction ss arbitrary: ts)
  case (Cons s ss)
  then show ?case
    by (cases "validate_snippet s"; cases "collect_results (map validate_snippet ss)")
       (auto dest: validate_gives_valid)
qed simp

lemma collect_valid: "list_all valid_snippet ss \<Longrightarrow> collect_results (map validate_snippet ss) = Inr ss"
  by (induction ss) (auto simp: validate_valid)

lemma first_duplicate_None: "first_duplicate seen ns = None \<longleftrightarrow> distinct ns \<and> seen \<inter> set ns = {}"
  by (induction ns arbitrary: seen) auto

lemma save_valid:
  "list_all valid_snippet ss \<Longrightarrow> distinct (map sn_name ss) \<Longrightarrow> save_snippets ss f = (Inr (), Snippets ss)"
  using first_duplicate_None [of "{}" "map sn_name ss"] by (simp add: save_snippets_def collect_valid)

lemma save_snippets_ok: "snippets_ok f \<Longrightarrow> snippets_ok (snd (save_snippets ss f))"
  by (auto simp: save_snippets_def snippets_ok_def first_duplicate_None dest: collect_validated
      split: sum.splits option.splits)

text \<open>The operations on a list, for an invalid file too, leave it alone or save something valid.\<close>

lemma loaded_ok:
  "snippets_ok f \<Longrightarrow> load_snippets f = Inr ss \<Longrightarrow> list_all valid_snippet ss \<and> distinct (map sn_name ss)"
  by (cases f) (auto simp: snippets_ok_def)

section \<open>The file is a map\<close>

definition snippets_of :: "snippet_file \<Rightarrow> str \<Rightarrow> snippet option" where
  "snippets_of f = (case load_snippets f of Inl _ \<Rightarrow> Map.empty | Inr ss \<Rightarrow> find_by sn_name ss)"

lemma ok_loads: "snippets_ok f \<Longrightarrow> \<exists>ss. load_snippets f = Inr ss"
  by (cases f) (auto simp: snippets_ok_def)

lemma add_snippet_ok:
  assumes "snippets_ok f" "validate_snippet \<lparr>sn_name = name, sn_command = command, sn_description = description\<rparr> = Inr s"
  shows "\<exists>ss. add_snippet name command description f = (Inr ss, Snippets ss) \<and> snippets_ok (Snippets ss) \<and>
    find_by sn_name ss = (snippets_of f)(sn_name s \<mapsto> s)"
proof -
  obtain ss where ss: "load_snippets f = Inr ss" using ok_loads [OF assms(1)] by blast
  note ok = loaded_ok [OF assms(1) ss]
  let ?ss = "put_by sn_name s ss"
  have "\<forall>x \<in> insert s (set ss). valid_snippet x"
    using ok validate_gives_valid [OF assms(2)] by (simp add: list_all_iff)
  then have "list_all valid_snippet ?ss"
    unfolding list_all_iff using set_put_by [of sn_name s ss] by (meson subsetD)
  moreover have "distinct (map sn_name ?ss)" using ok distinct_put_by [of sn_name ss s] by simp
  moreover have "find_by sn_name ?ss = (snippets_of f)(sn_name s \<mapsto> s)"
    using ss by (auto simp: snippets_of_def fun_eq_iff find_put_by)
  ultimately show ?thesis
    using assms(2) ss by (intro exI [of _ ?ss]) (simp add: add_snippet_def save_valid Let_def snippets_ok_def)
qed

lemma remove_snippet_ok:
  assumes "snippets_ok f" "name_error (trim name) = None"
  shows "\<exists>f'. remove_snippet name f = (Inr (trim name \<in> dom (snippets_of f)), f') \<and> snippets_ok f' \<and>
    snippets_of f' = (snippets_of f)(trim name := None)"
proof -
  obtain ss where ss: "load_snippets f = Inr ss" using ok_loads [OF assms(1)] by blast
  note ok = loaded_ok [OF assms(1) ss]
  let ?ss = "remove_by sn_name (trim name) ss"
  have keep: "list_all valid_snippet ?ss" "distinct (map sn_name ?ss)"
    using ok distinct_remove_by [of sn_name ss "trim name"] by (simp_all add: remove_by_def list_all_iff)
  have shorter: "length ?ss < length ss \<longleftrightarrow> trim name \<in> sn_name ` set ss"
    using length_remove_by [of sn_name "trim name" ss] length_filter_le [of _ ss]
    by (auto simp: remove_by_def le_less)
  have named: "trim name \<in> dom (snippets_of f) \<longleftrightarrow> trim name \<in> sn_name ` set ss"
    using ss find_by_None [of sn_name ss "trim name"] by (auto simp: snippets_of_def)
  from assms(2) have name: "trim name \<noteq> []" "\<not> MAX_NAME_CHARS < length (chars (trim name))"
      "\<not> list_ex is_control_char (chars (trim name))"
    by (auto simp: name_error_def split: if_splits)
  show ?thesis
  proof (cases "trim name \<in> sn_name ` set ss")
    case True
    then show ?thesis
      using ss keep shorter named name
      by (intro exI [of _ "Snippets ?ss"])
         (auto simp: remove_snippet_def save_valid snippets_ok_def snippets_of_def fun_eq_iff find_remove_by)
  next
    case False
    moreover from this have "find_by sn_name ss (trim name) = None" using find_by_None by metis
    ultimately show ?thesis
      using ss assms(1) shorter named name
      by (intro exI [of _ f]) (auto simp: remove_snippet_def snippets_of_def fun_eq_iff)
  qed
qed

text \<open>
  The snippet file behaves as a map and stays valid. With a valid file, adding puts the
  trimmed and checked snippet under its name, or reports the error of its check and changes nothing;
  removing takes the name out and says whether it was there; the saved file is valid again.
\<close>

theorem snippet_file_is_a_map:
  assumes "snippets_ok f"
  shows "(case validate_snippet \<lparr>sn_name = name, sn_command = command, sn_description = description\<rparr> of
      Inl e \<Rightarrow> add_snippet name command description f = (Inl e, f)
    | Inr s \<Rightarrow> (\<exists>ss. add_snippet name command description f = (Inr ss, Snippets ss) \<and>
        snippets_ok (Snippets ss) \<and> find_by sn_name ss = (snippets_of f)(sn_name s \<mapsto> s))) \<and>
    (name_error (trim name) = None \<longrightarrow>
      (\<exists>f'. remove_snippet name f = (Inr (trim name \<in> dom (snippets_of f)), f') \<and> snippets_ok f' \<and>
        snippets_of f' = (snippets_of f)(trim name := None)))"
  using add_snippet_ok [OF assms] remove_snippet_ok [OF assms]
  by (cases "validate_snippet \<lparr>sn_name = name, sn_command = command, sn_description = description\<rparr>")
     (simp_all add: add_snippet_def)

lemma snippet_file_is_a_map_witness:
  "(\<exists>ss. add_snippet '' up '' ''uptime'' None NoSnippets = (Inr ss, Snippets ss) \<and>
     find_by sn_name ss ''up'' = Some \<lparr>sn_name = ''up'', sn_command = ''uptime'', sn_description = None\<rparr>) \<and>
   fst (remove_snippet ''up'' NoSnippets) = Inr False"
proof
  have v: "validate_snippet \<lparr>sn_name = '' up '', sn_command = ''uptime'', sn_description = None\<rparr> =
      Inr \<lparr>sn_name = ''up'', sn_command = ''uptime'', sn_description = None\<rparr>"
    by (simp add: validate_snippet_def name_error_def trim_def trim_start_def trim_end_def is_ws_def is_cont_byte_def
        is_control_char_def MAX_NAME_CHARS_def MAX_SNIPPET_BYTES_def trimmed_description_def)
  have n: "name_error (trim ''up'') = None" "trim ''up'' = ''up''"
    by (simp_all add: name_error_def trim_def trim_start_def trim_end_def is_ws_def is_cont_byte_def
        is_control_char_def MAX_NAME_CHARS_def)
  have ok: "snippets_ok NoSnippets" by (simp add: snippets_ok_def)
  from snippet_file_is_a_map [OF ok, of "'' up ''" "''uptime''" None, THEN conjunct1, unfolded v sum.case]
  obtain ss where ss: "add_snippet '' up '' ''uptime'' None NoSnippets = (Inr ss, Snippets ss)"
      "find_by sn_name ss = (snippets_of NoSnippets)(''up'' \<mapsto> \<lparr>sn_name = ''up'', sn_command = ''uptime'', sn_description = None\<rparr>)"
    by (metis snippet.select_convs(1))
  then show "\<exists>ss. add_snippet '' up '' ''uptime'' None NoSnippets = (Inr ss, Snippets ss) \<and>
     find_by sn_name ss ''up'' = Some \<lparr>sn_name = ''up'', sn_command = ''uptime'', sn_description = None\<rparr>"
    by (metis fun_upd_same)
  from snippet_file_is_a_map [OF ok, of "''up''", THEN conjunct2, rule_format, OF n(1)] n(2)
  show "fst (remove_snippet ''up'' NoSnippets) = Inr False" by (auto simp: snippets_of_def)
qed

section \<open>Merging\<close>

lemma upsert_incoming:
  fixes inc :: snippet
  shows "upsert (\<lambda>s. sn_name s = sn_name inc)
     (\<lambda>s. s\<lparr>sn_command := sn_command inc, sn_description := sn_description inc\<rparr>) inc ss = put_by sn_name inc ss"
  unfolding put_by_def
proof (induction ss)
  case (Cons a ss)
  then show ?case by (cases a; cases inc) auto
qed simp

text \<open>
  Merging snippets never deletes. A name the payload has gets its last entry there, every
  other name keeps its local one, no local name is lost and distinct names stay distinct.
\<close>

theorem merge_snippets_exact:
  "find_by sn_name (merge_snippets l incoming) n =
     (case find_by sn_name (rev incoming) n of Some s \<Rightarrow> Some s | None \<Rightarrow> find_by sn_name l n) \<and>
   (\<exists>new. map sn_name (merge_snippets l incoming) = map sn_name l @ new)"
proof (induction incoming rule: rev_induct)
  case Nil
  show ?case by (simp add: merge_snippets_def)
next
  case (snoc i incoming)
  have step: "merge_snippets l (incoming @ [i]) = put_by sn_name i (merge_snippets l incoming)"
    by (simp add: merge_snippets_def upsert_incoming)
  with snoc show ?case
    by (auto simp: find_put_by keys_put_by)
qed

end
