(* ===== verification/Unix_Path.thy ===== *)
theory Unix_Path
  imports Text_Split
begin

text \<open>
  \<open>std::path\<close> on Unix, as far as the code uses it. Two paths are equal when they have the same
  components; an empty component and a \<open>.\<close> that is not the first one do not count.
\<close>

definition is_absolute :: "str \<Rightarrow> bool" where
  "is_absolute p = starts_with p ''/''"

text \<open>Whether the path starts at the root, and its other components.\<close>

definition components :: "str \<Rightarrow> bool \<times> str list" where
  "components p =
     (let ps = split_char (CHR ''/'') p;
          rest = filter (\<lambda>c. c \<noteq> [] \<and> c \<noteq> ''.'') (tl ps)
      in (is_absolute p, if hd ps = [] then rest else hd ps # rest))"

definition same_path :: "str \<Rightarrow> str \<Rightarrow> bool" where
  "same_path p q \<longleftrightarrow> components p = components q"

definition parent :: "str \<Rightarrow> (bool \<times> str list) option" where
  "parent p = (case components p of (root, cs) \<Rightarrow> if cs = [] then None else Some (root, butlast cs))"

definition join_path :: "str \<Rightarrow> str \<Rightarrow> str" where
  "join_path base p =
     (if is_absolute p then p
      else if base = [] \<or> last base = CHR ''/'' then base @ p else base @ ''/'' @ p)"

text \<open>\<open>path_resolver.rs\<close> \<open>expand_tilde\<close>; \<open>home\<close> is the home directory.\<close>

definition expand_tilde :: "str option \<Rightarrow> str \<Rightarrow> str" where
  "expand_tilde home path =
     (if path = ''~'' then (case home of Some h \<Rightarrow> h | None \<Rightarrow> path)
      else case strip_prefix path ''~/'' of
             Some rest \<Rightarrow> (case home of Some h \<Rightarrow> join_path h rest | None \<Rightarrow> path)
           | None \<Rightarrow> path)"

end
