(* ===== verification/Ssh_Include.thy ===== *)
theory Ssh_Include
  imports Unix_Path "HOL-Library.List_Lexorder" "HOL-Library.Char_ord"
begin

text \<open>
  \<open>ssh_config.rs\<close>: the \<open>Include\<close> directives of an SSH configuration, spliced in place. The file system
  is the record of what it answers: the text of a readable file, the canonical form of a path where
  there is one, and the paths the glob crate finds.
\<close>

record file_system =
  fs_read :: "str \<Rightarrow> str option"
  fs_exists :: "str \<Rightarrow> bool"
  fs_canonicalize :: "str \<Rightarrow> str option"
  fs_glob :: "str \<Rightarrow> str list"
  fs_home :: "str option"
  fs_symlink :: "str \<Rightarrow> bool"

definition MAX_INCLUDE_DEPTH :: nat where
  "MAX_INCLUDE_DEPTH = 16"

text \<open>\<open>split_once(char::is_whitespace)\<close>\<close>

definition split_at_ws :: "str \<Rightarrow> (str \<times> str) option" where
  "split_at_ws l =
     (case dropWhile (\<lambda>c. \<not> is_ws c) l of [] \<Rightarrow> None | _ # v \<Rightarrow> Some (takeWhile (\<lambda>c. \<not> is_ws c) l, v))"

definition include_patterns :: "str \<Rightarrow> str option" where
  "include_patterns line =
     (case split_at_ws (trim line) of
        None \<Rightarrow> None
      | Some (key, v) \<Rightarrow> if eq_ignore_ascii_case key ''include'' then Some (trim v) else None)"

fun split_patterns_go :: "bool \<Rightarrow> str \<Rightarrow> str \<Rightarrow> str list" where
  "split_patterns_go in_quotes cur [] = (if cur = [] then [] else [cur])"
| "split_patterns_go in_quotes cur (c # s) =
     (if c = dquote then split_patterns_go (\<not> in_quotes) cur s
      else if is_ws c \<and> \<not> in_quotes then
        (if cur = [] then split_patterns_go in_quotes [] s else cur # split_patterns_go in_quotes [] s)
      else split_patterns_go in_quotes (cur @ [c]) s)"

definition split_include_patterns :: "str \<Rightarrow> str list" where
  "split_include_patterns v = split_patterns_go False [] v"

definition has_glob_meta :: "str \<Rightarrow> bool" where
  "has_glob_meta s = list_ex (\<lambda>c. c \<in> {CHR ''*'', CHR ''?'', CHR ''['', CHR '']''}) s"

definition canonical :: "file_system \<Rightarrow> str \<Rightarrow> str" where
  "canonical fs p = (case fs_canonicalize fs p of Some c \<Rightarrow> c | None \<Rightarrow> p)"

text \<open>The paths a glob finds are sorted, which compares them by their components.\<close>

definition pattern_files :: "file_system \<Rightarrow> str \<Rightarrow> str \<Rightarrow> str list" where
  "pattern_files fs base pattern =
     (let full = join_path base (expand_tilde (fs_home fs) pattern)
      in if has_glob_meta full then sort_key (\<lambda>p. snd (components p)) (fs_glob fs full) else [full])"

text \<open>
  The mutual recursion of \<open>splice_includes\<close>, \<open>splice_pattern\<close> and \<open>expand_single_file\<close> in one: the text a
  line stands for. A chain is at most 17 files long when a line of the last one is looked at.
\<close>

function splice_line :: "file_system \<Rightarrow> str \<Rightarrow> str list \<Rightarrow> str \<Rightarrow> str" where
  "splice_line fs base chain line =
     (case include_patterns line of
        Some patterns \<Rightarrow>
          (if length chain \<le> MAX_INCLUDE_DEPTH then
             concat (map (\<lambda>pattern. concat (map (\<lambda>path.
               if canonical fs path \<in> set chain then []
               else case fs_read fs path of
                 None \<Rightarrow> []
               | Some content \<Rightarrow>
                   concat (map (splice_line fs base (chain @ [canonical fs path])) (str_lines content)))
               (pattern_files fs base pattern))) (split_include_patterns patterns))
           else line @ [newline])
      | None \<Rightarrow> line @ [newline])"
  by pat_completeness auto
termination
  by (relation "measure (\<lambda>(_, _, chain, _). MAX_INCLUDE_DEPTH + 1 - length chain)") auto

declare splice_line.simps [simp del]

definition splice_includes :: "file_system \<Rightarrow> str \<Rightarrow> str list \<Rightarrow> str \<Rightarrow> str" where
  "splice_includes fs base chain content = concat (map (splice_line fs base chain) (str_lines content))"

definition load_with_includes :: "file_system \<Rightarrow> str \<Rightarrow> str \<Rightarrow> str option" where
  "load_with_includes fs path base =
     map_option (splice_includes fs base [canonical fs path]) (fs_read fs path)"

end
