(* ===== verification/Ssh_Config.thy ===== *)
theory Ssh_Config
  imports Ssh_Include Host_Admin "HOL-Library.Multiset"
begin

text \<open>
  \<open>core.rs\<close>: hosts from and to an OpenSSH client configuration: the import, the comparison with the
  stored hosts, the export, and the check of the path an agent may export to.
\<close>

section \<open>Reading\<close>

record ssh_block =
  sb_alias :: "str option"
  sb_hostname :: "str option"
  sb_user :: "str option"
  sb_port :: "nat option"
  sb_identity :: "str option"
  sb_jump :: "str option"

definition no_block :: ssh_block where
  "no_block = \<lparr>sb_alias = None, sb_hostname = None, sb_user = None, sb_port = None, sb_identity = None, sb_jump = None\<rparr>"

text \<open>The alias a \<open>ProxyJump\<close> value stands for: the host part of its first target.\<close>

definition jump_alias :: "str \<Rightarrow> str" where
  "jump_alias raw =
     (let target = (case split_whitespace raw of t # _ \<Rightarrow> t | [] \<Rightarrow> raw);
          no_user = last (split_char (CHR ''@'') target)
      in hd (split_char (CHR '':'') no_user))"

definition block_profile :: "ssh_block \<Rightarrow> str \<Rightarrow> str \<Rightarrow> host_profile" where
  "block_profile b alias hostname =
     \<lparr>hp_name = alias, hp_host = hostname, hp_user = sb_user b, hp_port = sb_port b,
      hp_key_path = sb_identity b, hp_password = None, hp_jump_host = map_option jump_alias (sb_jump b),
      hp_proxy_id = None, hp_risk_override = None, hp_tags = [], hp_group = default_host_group,
      hp_env = None, hp_role = None, hp_owner = None, hp_init_command = None, hp_passphrase = None,
      hp_ai_allowed = True\<rparr>"

definition or_empty :: "str option \<Rightarrow> str" where
  "or_empty v = (case v of Some s \<Rightarrow> s | None \<Rightarrow> [])"

definition flush_block :: "ssh_block \<Rightarrow> host_profile list" where
  "flush_block b =
     (let alias = or_empty (sb_alias b); hostname = or_empty (sb_hostname b)
      in if alias = [] \<or> CHR ''*'' \<in> set alias \<or> CHR ''?'' \<in> set alias \<or> hostname = [] then []
         else [block_profile b alias hostname])"

definition parse_line :: "ssh_block \<times> host_profile list \<Rightarrow> str \<Rightarrow> ssh_block \<times> host_profile list" where
  "parse_line st l =
     (case st of (b, profiles) \<Rightarrow>
        let line = trim l
        in if line = [] \<or> starts_with line ''#'' then (b, profiles)
           else case split_at_ws line of
             None \<Rightarrow> (b, profiles)
           | Some (k, v) \<Rightarrow>
               (let key = to_lowercase k; value = trim v
                in if key = ''host'' then (no_block\<lparr>sb_alias := Some value\<rparr>, profiles @ flush_block b)
                   else if key = ''hostname'' then (b\<lparr>sb_hostname := Some value\<rparr>, profiles)
                   else if key = ''user'' then (b\<lparr>sb_user := Some value\<rparr>, profiles)
                   else if key = ''port'' then (b\<lparr>sb_port := from_str_radix 16 10 value\<rparr>, profiles)
                   else if key = ''identityfile'' then (b\<lparr>sb_identity := Some value\<rparr>, profiles)
                   else if key = ''proxyjump'' then (b\<lparr>sb_jump := Some value\<rparr>, profiles)
                   else (b, profiles)))"

definition parse_ssh_text :: "str \<Rightarrow> host_profile list" where
  "parse_ssh_text raw =
     (case foldl parse_line (no_block, []) (str_lines raw) of (b, profiles) \<Rightarrow> profiles @ flush_block b)"

datatype ssh_error = SshUnreadable | NoHomeDirectory | ExportOutside | ExportDirSymlink | ExportSymlink

text \<open>The directory of the file, in which relative patterns are looked up.\<close>

definition show_components :: "bool \<times> str list \<Rightarrow> str" where
  "show_components rc = (case rc of (root, cs) \<Rightarrow> (if root then ''/'' else []) @ join ''/'' cs)"

definition read_expanded :: "file_system \<Rightarrow> str \<Rightarrow> ssh_error + str" where
  "read_expanded fs path =
     (case parent path of
        Some dir \<Rightarrow>
          (case load_with_includes fs path (show_components dir) of
             Some raw \<Rightarrow> Inr raw
           | None \<Rightarrow> (case fs_read fs path of Some raw \<Rightarrow> Inr raw | None \<Rightarrow> Inl SshUnreadable))
      | None \<Rightarrow> (case fs_read fs path of Some raw \<Rightarrow> Inr raw | None \<Rightarrow> Inl SshUnreadable))"

definition parse_ssh_config_file :: "file_system \<Rightarrow> str \<Rightarrow> ssh_error + host_profile list" where
  "parse_ssh_config_file fs path =
     (if \<not> fs_exists fs path then Inr [] else map_sum id parse_ssh_text (read_expanded fs path))"

definition ssh_config_path :: "file_system \<Rightarrow> str option \<Rightarrow> ssh_error + str" where
  "ssh_config_path fs path =
     (case path of
        Some p \<Rightarrow> Inr (expand_tilde (fs_home fs) p)
      | None \<Rightarrow>
          (case fs_home fs of
             None \<Rightarrow> Inl NoHomeDirectory
           | Some h \<Rightarrow> Inr (join_path (join_path h ''.ssh'') ''config'')))"

text \<open>The loop over the parsed profiles: the names are those stored before it starts.\<close>

definition add_new :: "host_profile list \<Rightarrow> app_config \<Rightarrow> host_profile list \<times> app_config" where
  "add_new profiles c =
     (let added = filter (\<lambda>p. hp_name p \<notin> hp_name ` set (cf_hosts c)) profiles
      in (added, c\<lparr>cf_hosts := sort_key hp_name (cf_hosts c @ added)\<rparr>))"

text \<open>\<open>Inl\<close> is an error before the store is touched.\<close>

definition import_ssh_config_core ::
  "('k, 's, 'n, 'c) admin_env \<Rightarrow> file_system \<Rightarrow> str option \<Rightarrow> ('k, 's, 'n, 'c) config_store \<Rightarrow>
   ssh_error + ('k, 's, 'n, 'c, host_profile list) outcome" where
  "import_ssh_config_core e fs path s =
     (case ssh_config_path fs path of
        Inl err \<Rightarrow> Inl err
      | Inr p \<Rightarrow>
          if \<not> fs_exists fs p then Inr (Some (Inr [], s))
          else case read_expanded fs p of
            Inl err \<Rightarrow> Inl err
          | Inr raw \<Rightarrow>
              Inr (edit_config e None
                (\<lambda>_ c. case add_new (parse_ssh_text raw) c of (added, c') \<Rightarrow> Inr (Some c', added)) s))"

section \<open>Comparing\<close>

record ssh_host_diff =
  sd_name :: str
  sd_host :: str
  sd_user :: "str option"
  sd_port :: "nat option"

record ssh_conflict =
  sc_name :: str
  sc_field :: str
  sc_agent2ssh_value :: str
  sc_ssh_config_value :: str

record ssh_sync_diff =
  only_in_agent2ssh :: "ssh_host_diff list"
  only_in_ssh_config :: "ssh_host_diff list"
  conflicts :: "ssh_conflict list"
  matching :: "str list"
  diff_summary :: str

definition host_diff :: "str \<Rightarrow> host_profile \<Rightarrow> ssh_host_diff" where
  "host_diff name h = \<lparr>sd_name = name, sd_host = hp_host h, sd_user = hp_user h, sd_port = hp_port h\<rparr>"

definition port_text :: "nat option \<Rightarrow> str" where
  "port_text p = (case p of Some n \<Rightarrow> show_nat n | None \<Rightarrow> [])"

definition host_conflicts :: "str \<Rightarrow> host_profile \<Rightarrow> host_profile \<Rightarrow> ssh_conflict list" where
  "host_conflicts name h g =
     (if hp_host h \<noteq> hp_host g
      then [\<lparr>sc_name = name, sc_field = ''hostname'', sc_agent2ssh_value = hp_host h, sc_ssh_config_value = hp_host g\<rparr>]
      else []) @
     (if hp_user h \<noteq> hp_user g
      then [\<lparr>sc_name = name, sc_field = ''user'', sc_agent2ssh_value = or_empty (hp_user h),
             sc_ssh_config_value = or_empty (hp_user g)\<rparr>]
      else []) @
     (if hp_port h \<noteq> hp_port g
      then [\<lparr>sc_name = name, sc_field = ''port'', sc_agent2ssh_value = port_text (hp_port h),
             sc_ssh_config_value = port_text (hp_port g)\<rparr>]
      else [])"

text \<open>Collecting into a hash map: the last profile with a name stays, \<open>shuffle\<close> orders the entries.\<close>

definition by_name :: "host_profile list \<Rightarrow> (str \<times> host_profile) list" where
  "by_name hs = foldl (\<lambda>m h. AList.update (hp_name h) h m) [] hs"

definition compare_hosts ::
  "((str \<times> host_profile) list \<Rightarrow> (str \<times> host_profile) list) \<Rightarrow> host_profile list \<Rightarrow> host_profile list \<Rightarrow>
   ssh_sync_diff" where
  "compare_hosts shuffle ssh_entries a2s_hosts =
     (let ssh_map = by_name ssh_entries;
          a2s_map = by_name a2s_hosts;
          both = filter (\<lambda>(n, _). map_of ssh_map n \<noteq> None) (shuffle a2s_map);
          clashes = (\<lambda>(n, h). case map_of ssh_map n of Some g \<Rightarrow> host_conflicts n h g | None \<Rightarrow> []);
          ours = map (\<lambda>(n, h). host_diff n h) (filter (\<lambda>(n, _). map_of ssh_map n = None) (shuffle a2s_map));
          theirs = map (\<lambda>(n, h). host_diff n h) (filter (\<lambda>(n, _). map_of a2s_map n = None) (shuffle ssh_map));
          same = map fst (filter (\<lambda>p. clashes p = []) both);
          clash = concat (map clashes both)
      in \<lparr>only_in_agent2ssh = ours, only_in_ssh_config = theirs, conflicts = clash, matching = same,
          diff_summary =
            show_nat (length same) @ '' matching, '' @ show_nat (length ours) @ '' only in Agent2SSH, '' @
            show_nat (length theirs) @ '' only in ~/.ssh/config, '' @ show_nat (length clash) @ '' conflicts''\<rparr>)"

definition compare_ssh_configs ::
  "('k, 's, 'n, 'c) admin_env \<Rightarrow> file_system \<Rightarrow> ((str \<times> host_profile) list \<Rightarrow> (str \<times> host_profile) list) \<Rightarrow>
   str option \<Rightarrow> ('k, 's, 'n, 'c) config_store \<Rightarrow> ssh_error + ('k, 's, 'n, 'c, ssh_sync_diff) outcome" where
  "compare_ssh_configs e fs shuffle path s =
     (case ssh_config_path fs path of
        Inl err \<Rightarrow> Inl err
      | Inr p \<Rightarrow>
          (case parse_ssh_config_file fs p of
             Inl err \<Rightarrow> Inl err
           | Inr ssh_entries \<Rightarrow>
               Inr (map_option (\<lambda>(loaded, s'). (map_sum id (\<lambda>c. compare_hosts shuffle ssh_entries (cf_hosts c)) loaded, s'))
                     (load_config e s))))"

section \<open>Writing\<close>

text \<open>The dash of the first line is U+2014.\<close>

definition export_header :: str where
  "export_header =
     ''# Generated by Agent2SSH '' @ [CHR 0xE2, CHR 0x80, CHR 0x94] @ '' do not edit manually within this block'' @ [newline] @
     ''# Managed hosts are identified by the comment line above each block'' @ [newline, newline]"

definition meta_words :: "host_profile \<Rightarrow> str list" where
  "meta_words h =
     (if hp_group h \<noteq> default_host_group then [''group='' @ hp_group h] else []) @
     (case hp_env h of Some v \<Rightarrow> [''env='' @ v] | None \<Rightarrow> []) @
     (case hp_role h of Some v \<Rightarrow> [''role='' @ v] | None \<Rightarrow> []) @
     (if hp_tags h \<noteq> [] then [''tags='' @ join '','' (hp_tags h)] else [])"

definition unless_blank :: "str \<Rightarrow> str option \<Rightarrow> str list" where
  "unless_blank keyword v = (case v of Some s \<Rightarrow> if trim s = [] then [] else [keyword @ s] | None \<Rightarrow> [])"

text \<open>The lines of a host; a condition of the code that the comment needs at least one word is \<open>meta_words h \<noteq> []\<close>.\<close>

definition export_lines :: "host_profile \<Rightarrow> str list" where
  "export_lines h =
     (if hp_tags h \<noteq> [] \<or> hp_group h \<noteq> default_host_group \<or> hp_env h \<noteq> None \<or> hp_role h \<noteq> None
      then [''# agent2ssh: '' @ join '' '' (meta_words h)] else []) @
     [''Host '' @ hp_name h, ''    HostName '' @ hp_host h] @
     unless_blank ''    User '' (hp_user h) @
     (case hp_port h of Some p \<Rightarrow> if p \<noteq> 22 then [''    Port '' @ show_nat p] else [] | None \<Rightarrow> []) @
     unless_blank ''    IdentityFile '' (hp_key_path h) @
     (case hp_jump_host h of Some j \<Rightarrow> [''    ProxyJump '' @ j] | None \<Rightarrow> []) @ [[]]"

definition export_to_ssh_config_format :: "host_profile list \<Rightarrow> str" where
  "export_to_ssh_config_format hosts =
     export_header @ concat (map (\<lambda>l. l @ [newline]) (concat (map export_lines hosts)))"

text \<open>
  What is written where, and how many hosts; the strategy has no other effect than \<open>export_missing\<close>.
  Without a path, \<open>config.d/agent2ssh.conf\<close> is written.
\<close>

definition resolve_ssh_export_path :: "file_system \<Rightarrow> str option \<Rightarrow> ssh_error + str" where
  "resolve_ssh_export_path fs path =
     (case path of
        Some p \<Rightarrow> Inr (expand_tilde (fs_home fs) p)
      | None \<Rightarrow>
          (case fs_home fs of
             None \<Rightarrow> Inl NoHomeDirectory
           | Some h \<Rightarrow> Inr (join_path (join_path (join_path h ''.ssh'') ''config.d'') ''agent2ssh.conf'')))"

definition export_hosts ::
  "file_system \<Rightarrow> str option \<Rightarrow> bool \<Rightarrow> host_profile list \<Rightarrow> ssh_error + (str \<times> str \<times> nat)" where
  "export_hosts fs path export_missing hosts =
     (if export_missing
      then map_sum id (\<lambda>out. (out, export_to_ssh_config_format hosts, length hosts)) (resolve_ssh_export_path fs path)
      else case ssh_config_path fs path of
        Inl err \<Rightarrow> Inl err
      | Inr p \<Rightarrow>
          (case parse_ssh_config_file fs p of
             Inl err \<Rightarrow> Inl err
           | Inr existing \<Rightarrow>
               (let filtered = filter (\<lambda>h. hp_name h \<in> hp_name ` set existing) hosts
                in map_sum id (\<lambda>out. (out, export_to_ssh_config_format filtered, length filtered))
                     (resolve_ssh_export_path fs path))))"

definition export_to_ssh_config ::
  "('k, 's, 'n, 'c) admin_env \<Rightarrow> file_system \<Rightarrow> str option \<Rightarrow> bool option \<Rightarrow> ('k, 's, 'n, 'c) config_store \<Rightarrow>
   ('k, 's, 'n, 'c, ssh_error + (str \<times> str \<times> nat)) outcome" where
  "export_to_ssh_config e fs path export_missing s =
     map_option (\<lambda>(loaded, s').
        (map_sum id (\<lambda>c. export_hosts fs path (case export_missing of Some b \<Rightarrow> b | None \<Rightarrow> True) (cf_hosts c)) loaded, s'))
       (load_config e s)"

text \<open>The destination an agent may choose: directly inside \<open>~/.ssh/config.d\<close>, with no symbolic link.\<close>

definition validate_mcp_ssh_export_path :: "file_system \<Rightarrow> str option \<Rightarrow> ssh_error + unit" where
  "validate_mcp_ssh_export_path fs path =
     (case path of
        None \<Rightarrow> Inr ()
      | Some p \<Rightarrow>
          (case fs_home fs of
             None \<Rightarrow> Inl NoHomeDirectory
           | Some h \<Rightarrow>
               (let allowed_dir = join_path (join_path h ''.ssh'') ''config.d'';
                    requested = expand_tilde (fs_home fs) p
                in if parent requested \<noteq> Some (components allowed_dir) then Inl ExportOutside
                   else if fs_symlink fs allowed_dir then Inl ExportDirSymlink
                   else if fs_symlink fs requested then Inl ExportSymlink
                   else Inr ())))"

section \<open>Reading back what was written\<close>

lemma trim_end_Nil: "trim_end v = [] \<longleftrightarrow> trim v = []"
proof -
  have "trim_end v = [] \<longleftrightarrow> list_all is_ws v" "trim_start v = [] \<longleftrightarrow> list_all is_ws v" for v
    by (simp_all add: trim_end_def trim_start_def list_all_iff)
  moreover have "list_all is_ws (trim_start v) \<longleftrightarrow> list_all is_ws v"
    by (induction v) (auto simp: trim_start_def)
  ultimately show ?thesis by (simp add: trim_def)
qed

lemma trim_trim_end [simp]: "trim (trim_end v) = trim v"
  by (simp add: trim_def trim_start_trim_end)

lemma trim_strip_cr: "trim (strip_cr l) = trim l"
proof (cases "l \<noteq> [] \<and> last l = CHR 0x0D")
  case True
  then obtain k where "l = k @ [CHR 0x0D]" by (metis append_butlast_last_id)
  then have "trim_end (strip_cr l) = trim_end l" by (simp add: strip_cr_def trim_end_def is_ws_def)
  then show ?thesis by (metis trim_trim_end)
qed (auto simp: strip_cr_def)

lemma parse_line_strip_cr: "parse_line st (strip_cr l) = parse_line st l"
  by (simp add: parse_line_def trim_strip_cr)

lemmas directive_simps = parse_line_def Let_def trim_def trim_start_def trim_end_Cons is_ws_def split_at_ws_def
  to_lowercase_def text_simps

lemma parse_blank: "parse_line st [] = st"
  by (cases st) (simp add: parse_line_def trim_def trim_start_def trim_end_def)

lemma parse_comment: "parse_line st (CHR ''#'' # l) = st"
  by (cases st) (simp add: directive_simps)

lemma parse_user: "trim_end v \<noteq> [] \<Longrightarrow> parse_line (b, ps) (''    User '' @ v) = (b\<lparr>sb_user := Some (trim v)\<rparr>, ps)"
  using trim_trim_end [of v] by (simp add: directive_simps)

lemma parse_identity:
  "trim_end v \<noteq> [] \<Longrightarrow> parse_line (b, ps) (''    IdentityFile '' @ v) = (b\<lparr>sb_identity := Some (trim v)\<rparr>, ps)"
  using trim_trim_end [of v] by (simp add: directive_simps)

lemma parse_jump:
  "parse_line (b, ps) (''    ProxyJump '' @ v) =
     (if trim v = [] then (b, ps) else (b\<lparr>sb_jump := Some (trim v)\<rparr>, ps))"
  using trim_trim_end [of v] trim_end_Nil [of v] by (simp add: directive_simps)

lemma parse_hostname:
  "trim_end v \<noteq> [] \<Longrightarrow> parse_line (b, ps) (''    HostName '' @ v) = (b\<lparr>sb_hostname := Some (trim v)\<rparr>, ps)"
  using trim_trim_end [of v] by (simp add: directive_simps)

lemma parse_port:
  "trim_end v \<noteq> [] \<Longrightarrow>
    parse_line (b, ps) (''    Port '' @ v) = (b\<lparr>sb_port := from_str_radix 16 10 (trim v)\<rparr>, ps)"
  using trim_trim_end [of v] by (simp add: directive_simps)

lemma parse_host:
  "trim_end v \<noteq> [] \<Longrightarrow>
    parse_line (b, ps) (''Host '' @ v) = (no_block\<lparr>sb_alias := Some (trim v)\<rparr>, ps @ flush_block b)"
  using trim_trim_end [of v] by (simp add: directive_simps)

lemma trim_show_nat: "trim (show_nat n) = show_nat n" "trim_end (show_nat n) = show_nat n"
proof -
  have plain: "list_all (\<lambda>c. \<not> is_ws c) (show_nat n)" using show_nat_plain [of n] by (auto simp: list_all_iff)
  have "dropWhile is_ws s = s" if "list_all (\<lambda>c. \<not> is_ws c) s" for s
    using that by (cases s) auto
  from this [OF plain] this [of "rev (show_nat n)"] plain
  show "trim (show_nat n) = show_nat n" "trim_end (show_nat n) = show_nat n"
    by (auto simp: trim_def trim_start_def trim_end_def)
qed

text \<open>
  A host whose fields stand on one line each, whose alias and address survive trimming, and whose alias
  is no pattern.
\<close>

definition one_line :: "str option \<Rightarrow> bool" where
  "one_line v \<longleftrightarrow> (case v of None \<Rightarrow> True | Some s \<Rightarrow> newline \<notin> set s)"

definition exportable :: "host_profile \<Rightarrow> bool" where
  "exportable h \<longleftrightarrow>
     trim (hp_name h) = hp_name h \<and> hp_name h \<noteq> [] \<and> newline \<notin> set (hp_name h) \<and>
     CHR ''*'' \<notin> set (hp_name h) \<and> CHR ''?'' \<notin> set (hp_name h) \<and>
     trim (hp_host h) = hp_host h \<and> hp_host h \<noteq> [] \<and> newline \<notin> set (hp_host h) \<and>
     one_line (hp_user h) \<and> one_line (hp_key_path h) \<and> one_line (hp_jump_host h) \<and>
     (case hp_port h of None \<Rightarrow> True | Some p \<Rightarrow> p < 2 ^ 16) \<and>
     newline \<notin> set (hp_group h) \<and> one_line (hp_env h) \<and> one_line (hp_role h) \<and>
     list_all (\<lambda>t. newline \<notin> set t) (hp_tags h)"

text \<open>What is left of a host in an SSH configuration.\<close>

definition exported_view :: "host_profile \<Rightarrow> host_profile" where
  "exported_view h =
     \<lparr>hp_name = hp_name h, hp_host = hp_host h, hp_user = trimmed_or_none (hp_user h),
      hp_port = (if hp_port h = Some 22 then None else hp_port h),
      hp_key_path = trimmed_or_none (hp_key_path h), hp_password = None,
      hp_jump_host = map_option jump_alias (trimmed_or_none (hp_jump_host h)), hp_proxy_id = None,
      hp_risk_override = None, hp_tags = [], hp_group = default_host_group, hp_env = None, hp_role = None,
      hp_owner = None, hp_init_command = None, hp_passphrase = None, hp_ai_allowed = True\<rparr>"

definition block_of :: "host_profile \<Rightarrow> ssh_block" where
  "block_of h =
     \<lparr>sb_alias = Some (hp_name h), sb_hostname = Some (hp_host h), sb_user = trimmed_or_none (hp_user h),
      sb_port = (if hp_port h = Some 22 then None else hp_port h),
      sb_identity = trimmed_or_none (hp_key_path h), sb_jump = trimmed_or_none (hp_jump_host h)\<rparr>"

lemma flush_block_of: "exportable h \<Longrightarrow> flush_block (block_of h) = [exported_view h]"
  by (simp add: flush_block_def block_of_def block_profile_def exported_view_def exportable_def or_empty_def)

lemma trim_end_ne: "trim v = v \<Longrightarrow> v \<noteq> [] \<Longrightarrow> trim_end v \<noteq> []"
  by (simp add: trim_end_Nil)

lemma parse_export_lines:
  assumes "exportable h"
  shows "foldl parse_line (b, ps) (export_lines h) = (block_of h, ps @ flush_block b)"
proof -
  let ?b0 = "no_block\<lparr>sb_alias := Some (hp_name h)\<rparr>"
  let ?b1 = "?b0\<lparr>sb_hostname := Some (hp_host h)\<rparr>"
  let ?b2 = "?b1\<lparr>sb_user := trimmed_or_none (hp_user h)\<rparr>"
  let ?b3 = "?b2\<lparr>sb_port := (if hp_port h = Some 22 then None else hp_port h)\<rparr>"
  let ?b4 = "?b3\<lparr>sb_identity := trimmed_or_none (hp_key_path h)\<rparr>"
  let ?ps = "ps @ flush_block b"
  note h = assms [unfolded exportable_def]
  have comment: "foldl parse_line st (if c then [''# agent2ssh: '' @ w] else []) = st" for st c w
    by (simp add: parse_comment)
  have names: "foldl parse_line (b, ps) [''Host '' @ hp_name h, ''    HostName '' @ hp_host h] = (?b1, ?ps)"
    using h parse_host [OF trim_end_ne, of "hp_name h" b ps] parse_hostname [OF trim_end_ne, of "hp_host h" ?b0 ?ps]
    by (simp del: append.simps)
  have user: "foldl parse_line (?b1, ?ps) (unless_blank ''    User '' (hp_user h)) = (?b2, ?ps)"
    using parse_user by (cases "hp_user h") (simp_all add: unless_blank_def trimmed_or_none_def trim_end_Nil no_block_def del: append.simps)
  have port: "foldl parse_line (?b2, ?ps)
      (case hp_port h of Some p \<Rightarrow> if p \<noteq> 22 then [''    Port '' @ show_nat p] else [] | None \<Rightarrow> []) = (?b3, ?ps)"
    using h parse_port [of "show_nat p" for p]
    by (cases "hp_port h") (simp_all add: trim_show_nat parse_show no_block_def del: append.simps)
  have key: "foldl parse_line (?b3, ?ps) (unless_blank ''    IdentityFile '' (hp_key_path h)) = (?b4, ?ps)"
    using parse_identity by (cases "hp_key_path h") (simp_all add: unless_blank_def trimmed_or_none_def trim_end_Nil no_block_def del: append.simps)
  have jump: "foldl parse_line (?b4, ?ps) (case hp_jump_host h of Some j \<Rightarrow> [''    ProxyJump '' @ j] | None \<Rightarrow> []) =
      (block_of h, ?ps)"
    by (cases "hp_jump_host h")
       (simp_all add: parse_jump trimmed_or_none_def block_of_def no_block_def del: append.simps)
  show ?thesis
    unfolding export_lines_def foldl_append comment names user port key jump by (simp add: parse_blank)
qed

definition parsed_total :: "ssh_block \<times> host_profile list \<Rightarrow> host_profile list" where
  "parsed_total st = snd st @ flush_block (fst st)"

lemma parse_all_hosts:
  "list_all exportable hs \<Longrightarrow>
    parsed_total (foldl parse_line st (concat (map export_lines hs))) = parsed_total st @ map exported_view hs"
proof (induction hs arbitrary: st)
  case (Cons h hs)
  obtain b ps where st: "st = (b, ps)" by (cases st)
  from Cons have "foldl parse_line st (export_lines h) = (block_of h, ps @ flush_block b)"
    using parse_export_lines st by simp
  with Cons st show ?case by (simp add: parsed_total_def flush_block_of)
qed simp

lemma parse_lines_strip: "foldl parse_line st (map strip_cr ls) = foldl parse_line st ls"
  by (induction ls arbitrary: st) (simp_all add: parse_line_strip_cr)

lemma parse_ssh_total: "parse_ssh_text raw = parsed_total (foldl parse_line (no_block, []) (str_lines raw))"
  by (simp add: parse_ssh_text_def parsed_total_def case_prod_beta)

lemma join_no_newline: "newline \<notin> set sep \<Longrightarrow> list_all (\<lambda>w. newline \<notin> set w) ws \<Longrightarrow> newline \<notin> set (join sep ws)"
  by (induction sep ws rule: join.induct) auto

lemma meta_no_newline: "exportable h \<Longrightarrow> newline \<notin> set (join '' '' (meta_words h))"
  by (rule join_no_newline)
     (auto simp: meta_words_def exportable_def one_line_def join_no_newline split: option.splits)

lemma show_nat_no_newline: "newline \<notin> set (show_nat n)"
  using show_nat_plain [of n] by (auto simp: list_all_iff is_ws_def)

lemma export_lines_no_newline: "exportable h \<Longrightarrow> list_all (\<lambda>l. newline \<notin> set l) (export_lines h)"
  using meta_no_newline [of h] show_nat_no_newline
  by (auto simp: export_lines_def exportable_def one_line_def unless_blank_def split: option.splits)

definition header_lines :: "str list" where
  "header_lines =
     [''# Generated by Agent2SSH '' @ [CHR 0xE2, CHR 0x80, CHR 0x94] @ '' do not edit manually within this block'',
      ''# Managed hosts are identified by the comment line above each block'', []]"

lemma export_rendered:
  "export_to_ssh_config_format hs =
     concat (map (\<lambda>l. l @ [newline]) (header_lines @ concat (map export_lines hs)))"
  by (simp add: export_to_ssh_config_format_def export_header_def header_lines_def)

lemma header_parses: "foldl parse_line st header_lines = st"
  by (simp add: header_lines_def parse_comment parse_blank)

lemma str_lines_exported:
  assumes "list_all exportable hs"
  shows "str_lines (export_to_ssh_config_format hs) = map strip_cr (header_lines @ concat (map export_lines hs))"
proof -
  have "newline \<notin> set l" if "l \<in> set (header_lines @ concat (map export_lines hs))" for l
    using that assms export_lines_no_newline by (fastforce simp: header_lines_def list_all_iff)
  then show ?thesis unfolding export_rendered
    using str_lines_rendered [of "header_lines @ concat (map export_lines hs)" "\<lambda>l. l"] by (simp add: comp_def)
qed

lemma parse_exported:
  "list_all exportable hs \<Longrightarrow> parse_ssh_text (export_to_ssh_config_format hs) = map exported_view hs"
  by (simp add: parse_ssh_total str_lines_exported parse_lines_strip header_parses parse_all_hosts
      del: map_append)
     (simp add: parsed_total_def flush_block_def no_block_def or_empty_def)

section \<open>Through the expansion of includes\<close>

lemma splice_plain:
  "list_all (\<lambda>l. include_patterns l = None) (str_lines raw) \<Longrightarrow>
    splice_includes fs base chain raw = concat (map (\<lambda>l. l @ [newline]) (str_lines raw))"
  unfolding splice_includes_def
  by (rule arg_cong [of _ _ concat]) (auto simp: list_all_iff splice_line.simps)

lemma str_lines_no_newline: "l \<in> set (str_lines raw) \<Longrightarrow> newline \<notin> set l"
proof -
  have pieces: "\<forall>p \<in> set (split_char newline s). newline \<notin> set p" for s
    by (induction s) (auto split: list.splits)
  let ?ps = "split_char newline raw"
  assume "l \<in> set (str_lines raw)"
  then have "l \<in> strip_cr ` set (butlast ?ps) \<or> l = last ?ps"
    by (auto simp: str_lines_def Let_def split: if_splits)
  then have "\<exists>p \<in> set ?ps. l = p \<or> l = strip_cr p"
    using last_in_set [OF split_char_not_Nil [of newline raw]] by (auto dest: in_set_butlastD)
  moreover have "set (strip_cr p) \<subseteq> set p" for p by (auto simp: strip_cr_def dest: in_set_butlastD)
  ultimately show ?thesis using pieces [of raw] by blast
qed

lemma parse_splice_plain:
  assumes "list_all (\<lambda>l. include_patterns l = None) (str_lines raw)"
  shows "parse_ssh_text (splice_includes fs base chain raw) = parse_ssh_text raw"
proof -
  have "str_lines (concat (map (\<lambda>l. l @ [newline]) (str_lines raw))) = map strip_cr (str_lines raw)"
    using str_lines_rendered [of "str_lines raw" "\<lambda>l. l"] str_lines_no_newline by (simp add: comp_def)
  then show ?thesis by (simp add: parse_ssh_total splice_plain [OF assms] parse_lines_strip)
qed

lemma include_strip_cr: "include_patterns (strip_cr l) = include_patterns l"
  by (simp add: include_patterns_def trim_strip_cr)

lemma trim_end_prefix: "prefix (trim_end s) s"
proof -
  have "suffix (dropWhile is_ws (rev s)) (rev s)" by (rule suffix_dropWhile)
  then show ?thesis by (simp add: trim_end_def suffix_to_prefix)
qed

lemma include_first_letters:
  assumes "include_patterns l \<noteq> None"
  shows "map lower_char (take 2 (trim_start l)) = ''in''"
proof -
  from assms have key: "map lower_char (takeWhile (\<lambda>c. \<not> is_ws c) (trim l)) = map lower_char ''include''"
    by (auto simp: include_patterns_def split_at_ws_def eq_ignore_ascii_case_def split: option.splits if_splits list.splits)
  moreover have "map lower_char ''include'' = ''include''" by code_simp
  ultimately obtain a b r where key: "takeWhile (\<lambda>c. \<not> is_ws c) (trim l) = a # b # r"
      "lower_char a = CHR ''i''" "lower_char b = CHR ''n''"
    by (auto simp: map_eq_Cons_conv)
  have "prefix (takeWhile (\<lambda>c. \<not> is_ws c) (trim l)) (trim l)" by (metis takeWhile_dropWhile_id prefixI)
  then have "prefix (a # b # r) (trim_start l)"
    using key(1) trim_end_prefix [of "trim_start l"] by (metis prefix_order.trans trim_def)
  then have "take 2 (trim_start l) = [a, b]" by (auto simp: prefix_def)
  with key show ?thesis by simp
qed

lemma exported_not_include: "exportable h \<Longrightarrow> l \<in> set (export_lines h) \<Longrightarrow> include_patterns l = None"
  by (rule ccontr, drule include_first_letters)
     (auto simp: export_lines_def unless_blank_def trim_start_def is_ws_def text_simps split: option.splits if_splits)

lemma header_not_include: "l \<in> set header_lines \<Longrightarrow> include_patterns l = None"
  by (rule ccontr, drule include_first_letters) (auto simp: header_lines_def trim_start_def is_ws_def text_simps)


definition demo_ssh_host :: host_profile where
  "demo_ssh_host = demo_web\<lparr>hp_user := Some ''root'', hp_port := Some 2222, hp_env := Some ''prod''\<rparr>"


text \<open>
  A field that is not checked can end the comment line it is written to: what follows is read as
  directives of its own.
\<close>

lemma label_injects_directives:
  "map (\<lambda>h. (hp_name h, hp_host h))
     (parse_ssh_text (export_to_ssh_config_format
       [demo_web\<lparr>hp_env := Some (''x'' @ [newline] @ ''Host evil'' @ [newline] @ ''HostName bad'')\<rparr>])) =
   [(''evil'', ''bad''), (hp_name demo_web, hp_host demo_web)]"
  by code_simp

section \<open>Importing\<close>

text \<open>
  An import adds and never changes. A host that is stored keeps its profile, every other
  alias of the file is added with its first block, and the configuration has no other name.
\<close>

theorem import_only_adds:
  "case add_new profiles c of (added, c') \<Rightarrow>
     find_by hp_name (cf_hosts c') n =
       (case find_by hp_name (cf_hosts c) n of Some h \<Rightarrow> Some h | None \<Rightarrow> find_by hp_name profiles n) \<and>
     list_all (\<lambda>h. find_by hp_name (cf_hosts c) (hp_name h) = None) added \<and>
     cf_groups c' = cf_groups c \<and> cf_proxies c' = cf_proxies c"
proof -
  let ?added = "filter (\<lambda>p. hp_name p \<notin> hp_name ` set (cf_hosts c)) profiles"
  have "find_by hp_name ?added n = (if n \<in> hp_name ` set (cf_hosts c) then None else find_by hp_name profiles n)"
    by (induction profiles) auto
  moreover have "find_by hp_name (cf_hosts c) n = None \<longleftrightarrow> n \<notin> hp_name ` set (cf_hosts c)" by (rule find_by_None)
  ultimately have "find_by hp_name (sort_key hp_name (cf_hosts c @ ?added)) n =
      (case find_by hp_name (cf_hosts c) n of Some h \<Rightarrow> Some h | None \<Rightarrow> find_by hp_name profiles n)"
    by (auto simp: find_sort_key find_by_append split: option.splits)
  then show ?thesis by (simp add: add_new_def Let_def list_all_iff find_by_None)
qed

text \<open>Two blocks with one alias are both added: the names that exist are not updated in the loop.\<close>

lemma import_duplicates_alias:
  "map hp_host (fst (add_new (parse_ssh_text
      (''Host a'' @ [newline] @ ''HostName x'' @ [newline] @ ''Host a'' @ [newline] @ ''HostName y'')) c)) =
     (if ''a'' \<in> hp_name ` set (cf_hosts c) then [] else [''x'', ''y''])"
proof -
  have "map (\<lambda>h. (hp_name h, hp_host h)) (parse_ssh_text
      (''Host a'' @ [newline] @ ''HostName x'' @ [newline] @ ''Host a'' @ [newline] @ ''HostName y'')) =
      [(''a'', ''x''), (''a'', ''y'')]"
    by code_simp
  then show ?thesis by (auto simp: add_new_def map_eq_Cons_conv)
qed

section \<open>Comparing\<close>

lemma by_name_map: "map_of (by_name hs) n = find_by hp_name (rev hs) n"
proof (induction hs rule: rev_induct)
  case (snoc h hs)
  then show ?case by (simp add: by_name_def update_conv)
qed (simp add: by_name_def)

lemma by_name_distinct: "distinct (map fst (by_name hs))"
  by (induction hs rule: rev_induct) (simp_all add: by_name_def distinct_update)

lemma shuffled_entry:
  assumes "\<And>m. mset (shuffle m) = mset m"
  shows "(n, h) \<in> set (shuffle (by_name hs)) \<longleftrightarrow> find_by hp_name (rev hs) n = Some h"
  using mset_eq_setD [of "shuffle (by_name hs)" "by_name hs", OF assms] by_name_distinct [of hs] by (simp add: by_name_map [symmetric])

lemma shuffled_distinct:
  assumes "\<And>m. mset (shuffle m) = mset m"
  shows "distinct (map fst (shuffle (by_name hs)))"
proof -
  have "mset (map fst (shuffle (by_name hs))) = mset (map fst (by_name hs))" by (simp add: assms)
  then show ?thesis using by_name_distinct [of hs] mset_eq_imp_distinct_iff by blast
qed

lemma host_conflicts_Nil:
  "host_conflicts n h g = [] \<longleftrightarrow> hp_host h = hp_host g \<and> hp_user h = hp_user g \<and> hp_port h = hp_port g"
  by (simp add: host_conflicts_def)

lemma host_conflicts_name: "c \<in> set (host_conflicts n h g) \<Longrightarrow> sc_name c = n"
  by (auto simp: host_conflicts_def split: if_splits)

lemma conflict_names: "m \<in> sc_name ` set (host_conflicts n h g) \<longleftrightarrow> host_conflicts n h g \<noteq> [] \<and> m = n"
proof (cases "host_conflicts n h g")
  case (Cons c cs)
  then have "c \<in> set (host_conflicts n h g)" by simp
  then show ?thesis using Cons host_conflicts_name by (metis image_eqI image_iff list.distinct(1))
qed simp

lemma host_diff_name [simp]: "sd_name (host_diff n h) = n"
  by (simp add: host_diff_def)

text \<open>
  The comparison accounts for every host. A name of either side is listed exactly once:
  as only here, as only there, as matching, or with its conflicts, and it matches exactly when the
  address, the user and the port agree.
\<close>

theorem comparison_is_complete:
  assumes "\<And>m. mset (shuffle m) = mset m"
  shows "let d = compare_hosts shuffle ssh a2s; ours = find_by hp_name (rev a2s); theirs = find_by hp_name (rev ssh) in
    (n \<in> sd_name ` set (only_in_agent2ssh d) \<longleftrightarrow> ours n \<noteq> None \<and> theirs n = None) \<and>
    (n \<in> sd_name ` set (only_in_ssh_config d) \<longleftrightarrow> ours n = None \<and> theirs n \<noteq> None) \<and>
    (n \<in> set (matching d) \<longleftrightarrow> (\<exists>h g. ours n = Some h \<and> theirs n = Some g \<and>
       hp_host h = hp_host g \<and> hp_user h = hp_user g \<and> hp_port h = hp_port g)) \<and>
    (n \<in> sc_name ` set (conflicts d) \<longleftrightarrow> ours n \<noteq> None \<and> theirs n \<noteq> None \<and> n \<notin> set (matching d))"
proof -
  define d where "d = compare_hosts shuffle ssh a2s"
  define ours where "ours = find_by hp_name (rev a2s)"
  define theirs where "theirs = find_by hp_name (rev ssh)"
  have ours: "(k, h) \<in> set (shuffle (by_name a2s)) \<longleftrightarrow> ours k = Some h" for k h
    unfolding ours_def by (rule shuffled_entry [where shuffle = shuffle, OF assms])
  have theirs: "(k, h) \<in> set (shuffle (by_name ssh)) \<longleftrightarrow> theirs k = Some h" for k h
    unfolding theirs_def by (rule shuffled_entry [where shuffle = shuffle, OF assms])
  have maps: "map_of (by_name a2s) = ours" "map_of (by_name ssh) = theirs"
    by (simp_all add: fun_eq_iff by_name_map ours_def theirs_def)
  let ?clash = "\<lambda>(k, h). case theirs k of Some g \<Rightarrow> host_conflicts k h g | None \<Rightarrow> []"
  let ?both = "filter (\<lambda>(k, _). theirs k \<noteq> None) (shuffle (by_name a2s))"
  have both: "(k, h) \<in> set ?both \<longleftrightarrow> ours k = Some h \<and> theirs k \<noteq> None" for k h by (auto simp: ours)
  have clash: "n \<in> sc_name ` set (?clash (k, h)) \<longleftrightarrow> (\<exists>g. theirs k = Some g \<and> host_conflicts k h g \<noteq> [] \<and> n = k)" for k h
    by (cases "theirs k") (simp_all add: conflict_names)
  have d: "only_in_agent2ssh d = map (\<lambda>(k, h). host_diff k h) (filter (\<lambda>(k, _). theirs k = None) (shuffle (by_name a2s)))"
      "only_in_ssh_config d = map (\<lambda>(k, h). host_diff k h) (filter (\<lambda>(k, _). ours k = None) (shuffle (by_name ssh)))"
      "matching d = map fst (filter (\<lambda>p. ?clash p = []) ?both)" "conflicts d = concat (map ?clash ?both)"
    by (simp_all add: d_def compare_hosts_def Let_def maps)
  have 1: "n \<in> sd_name ` set (only_in_agent2ssh d) \<longleftrightarrow> ours n \<noteq> None \<and> theirs n = None"
    by (auto simp: d(1) image_iff ours)
  have 2: "n \<in> sd_name ` set (only_in_ssh_config d) \<longleftrightarrow> ours n = None \<and> theirs n \<noteq> None"
    by (auto simp: d(2) image_iff theirs)
  have 3: "n \<in> set (matching d) \<longleftrightarrow> (\<exists>h g. ours n = Some h \<and> theirs n = Some g \<and> host_conflicts n h g = [])"
    unfolding d(3) by (auto simp: image_iff ours)
  have "n \<in> sc_name ` set (conflicts d) \<longleftrightarrow> (\<exists>k h. (k, h) \<in> set ?both \<and> n \<in> sc_name ` set (?clash (k, h)))"
    unfolding d(4) by (auto simp: image_iff)
  also have "\<dots> \<longleftrightarrow> (\<exists>h g. ours n = Some h \<and> theirs n = Some g \<and> host_conflicts n h g \<noteq> [])"
    unfolding both clash by auto
  finally have 4: "n \<in> sc_name ` set (conflicts d) \<longleftrightarrow> ours n \<noteq> None \<and> theirs n \<noteq> None \<and> n \<notin> set (matching d)"
    unfolding 3 by auto
  show ?thesis
    unfolding Let_def d_def [symmetric] ours_def [symmetric] theirs_def [symmetric]
    using 1 2 3 [unfolded host_conflicts_Nil] 4 by blast
qed

lemma comparison_is_complete_witness:
  "''web'' \<in> set (matching (compare_hosts id [demo_web] [demo_web\<lparr>hp_env := Some ''prod''\<rparr>]))"
  using comparison_is_complete [of id "[demo_web]" "[demo_web\<lparr>hp_env := Some ''prod''\<rparr>]" "''web''"]
  by (simp add: Let_def demo_web_def)

section \<open>Exporting from an agent\<close>

text \<open>
  An agent exports into its directory. A destination that passes the check lies directly
  inside \<open>~/.ssh/config.d\<close>, and neither it nor the directory is a symbolic link.
\<close>

theorem agent_export_stays_inside:
  assumes "validate_mcp_ssh_export_path fs (Some p) = Inr ()"
  shows "\<exists>h out f. fs_home fs = Some h \<and> resolve_ssh_export_path fs (Some p) = Inr out \<and>
    components out = (fst (components (join_path (join_path h ''.ssh'') ''config.d'')),
      snd (components (join_path (join_path h ''.ssh'') ''config.d'')) @ [f]) \<and>
    \<not> fs_symlink fs out \<and> \<not> fs_symlink fs (join_path (join_path h ''.ssh'') ''config.d'')"
proof -
  from assms obtain h where h: "fs_home fs = Some h"
    by (auto simp: validate_mcp_ssh_export_path_def split: option.splits)
  let ?dir = "join_path (join_path h ''.ssh'') ''config.d''"
  let ?out = "expand_tilde (fs_home fs) p"
  from assms h have ok: "parent ?out = Some (components ?dir)" "\<not> fs_symlink fs ?dir" "\<not> fs_symlink fs ?out"
    by (auto simp: validate_mcp_ssh_export_path_def Let_def split: if_splits)
  obtain root cs where cs: "components ?out = (root, cs)" by (cases "components ?out")
  with ok(1) have "cs \<noteq> []" "components ?dir = (root, butlast cs)"
    by (auto simp: parent_def split: if_splits)
  then have "components ?out = (fst (components ?dir), snd (components ?dir) @ [last cs])"
    by (simp add: cs)
  with h ok show ?thesis by (auto simp: resolve_ssh_export_path_def)
qed

lemma agent_export_stays_inside_witness:
  "\<exists>out. resolve_ssh_export_path
      \<lparr>fs_read = Map.empty, fs_exists = (\<lambda>_. False), fs_canonicalize = Some, fs_glob = (\<lambda>_. []),
       fs_home = Some ''/home/u'', fs_symlink = (\<lambda>_. False)\<rparr> (Some ''~/.ssh/config.d/x.conf'') = Inr out \<and>
     snd (components out) = [''home'', ''u'', ''.ssh'', ''config.d'', ''x.conf'']"
proof -
  let ?fs = "\<lparr>fs_read = Map.empty, fs_exists = (\<lambda>_. False), fs_canonicalize = Some, fs_glob = (\<lambda>_. []),
    fs_home = Some ''/home/u'', fs_symlink = (\<lambda>_. False)\<rparr>"
  have "validate_mcp_ssh_export_path ?fs (Some ''~/.ssh/config.d/x.conf'') = Inr ()" by code_simp
  from agent_export_stays_inside [OF this] obtain out where out:
      "resolve_ssh_export_path ?fs (Some ''~/.ssh/config.d/x.conf'') = Inr out"
    by blast
  moreover have "resolve_ssh_export_path ?fs (Some ''~/.ssh/config.d/x.conf'') = Inr ''/home/u/.ssh/config.d/x.conf''"
    "snd (components ''/home/u/.ssh/config.d/x.conf'') = [''home'', ''u'', ''.ssh'', ''config.d'', ''x.conf'']"
    by code_simp+
  ultimately show ?thesis by simp
qed

end
