(* ===== verification/Sync_Remote.thy ===== *)
theory Sync_Remote
  imports Text_Split
begin

text \<open>
  The transport of \<open>webdav_sync.rs\<close>: its configuration, the requests of \<open>WebDavRemote\<close>, and the contract
  \<open>SyncRemote\<close> the synchronization is written against. The HTTP client and the server are a function
  from a request and the state of the world to the outcome and the state after it; other clients of
  the same server act inside it.
\<close>

section \<open>Configuration\<close>

record webdav_settings =
  wo_url :: "str option"
  wo_username :: "str option"
  wo_password :: "str option"
  wo_password_env :: "str option"
  wo_sync_password :: "str option"
  wo_sync_password_env :: "str option"

record webdav_config =
  wc_url :: str
  wc_username :: "str option"
  wc_password :: "str option"
  wc_sync_password :: "str option"

datatype config_error =
    ConfigFileUnreadable | UrlRequired | MissingScheme | PlainHttp | BadScheme str | EmbeddedCredentials
  | QueryString

definition validate_webdav_url :: "(str \<Rightarrow> str option) \<Rightarrow> str \<Rightarrow> config_error + unit" where
  "validate_webdav_url env url =
     (case split_once ''://'' (to_lowercase url) of
        None \<Rightarrow> Inl MissingScheme
      | Some (scheme, _) \<Rightarrow>
          if scheme = ''http'' \<and> env ''AGENT2SSH_ALLOW_HTTP_WEBDAV'' \<noteq> Some ''1'' then Inl PlainHttp
          else if scheme \<noteq> ''https'' \<and> scheme \<noteq> ''http'' then Inl (BadScheme scheme)
          else
            let after_scheme = drop (length scheme + 3) url;
                authority = takeWhile (\<lambda>c. c \<noteq> CHR ''/'') after_scheme
            in if CHR ''@'' \<in> set authority then Inl EmbeddedCredentials
               else if CHR ''?'' \<in> set url then Inl QueryString
               else Inr ())"

text \<open>\<open>or\<close>, \<open>or_else\<close> and \<open>filter\<close> of an option.\<close>

definition or_option :: "'a option \<Rightarrow> 'a option \<Rightarrow> 'a option" where
  "or_option a b = (case a of Some _ \<Rightarrow> a | None \<Rightarrow> b)"

definition keep_if :: "('a \<Rightarrow> bool) \<Rightarrow> 'a option \<Rightarrow> 'a option" where
  "keep_if p a = (case a of Some x \<Rightarrow> if p x then Some x else None | None \<Rightarrow> None)"

abbreviation not_blank :: "str option \<Rightarrow> str option" where
  "not_blank \<equiv> keep_if (\<lambda>v. trim v \<noteq> [])"

text \<open>The first of: the option, the variable, the file, and the variable the settings name.\<close>

definition password_of ::
  "(str \<Rightarrow> str option) \<Rightarrow> str \<Rightarrow> str option \<Rightarrow> str option \<Rightarrow> str option \<Rightarrow> str option \<Rightarrow> str option" where
  "password_of env var given given_env filed filed_env =
     keep_if (\<lambda>v. v \<noteq> [])
       (or_option given (or_option (env var) (or_option filed
         (Option.bind (not_blank (or_option given_env filed_env)) env))))"

definition trim_end_slashes :: "str \<Rightarrow> str" where
  "trim_end_slashes s = rev (dropWhile (\<lambda>c. c = CHR ''/'') (rev s))"

text \<open>\<open>file\<close> is what \<open>load_config_file\<close> gives.\<close>

definition resolve_config ::
  "(str \<Rightarrow> str option) \<Rightarrow> webdav_settings \<Rightarrow> (config_error + webdav_settings) \<Rightarrow> config_error + webdav_config" where
  "resolve_config env o0 file =
     (case file of
        Inl e \<Rightarrow> Inl e
      | Inr f \<Rightarrow>
          (case not_blank (or_option (wo_url o0) (or_option (env ''AGENT2SSH_WEBDAV_URL'') (wo_url f))) of
             None \<Rightarrow> Inl UrlRequired
           | Some url \<Rightarrow>
               (case validate_webdav_url env url of
                  Inl e \<Rightarrow> Inl e
                | Inr _ \<Rightarrow> Inr
                    \<lparr>wc_url = trim_end_slashes url,
                     wc_username = not_blank (or_option (wo_username o0)
                       (or_option (env ''AGENT2SSH_WEBDAV_USERNAME'') (wo_username f))),
                     wc_password = password_of env ''AGENT2SSH_WEBDAV_PASSWORD'' (wo_password o0)
                       (wo_password_env o0) (wo_password f) (wo_password_env f),
                     wc_sync_password = password_of env ''AGENT2SSH_SYNC_PASSWORD'' (wo_sync_password o0)
                       (wo_sync_password_env o0) (wo_sync_password f) (wo_sync_password_env f)\<rparr>)))"

section \<open>Requests\<close>

datatype webdav_kind = TimeoutKind | AuthKind | ApiKind | NetworkKind

record http_request =
  hq_method :: str
  hq_url :: str
  hq_auth :: "(str \<times> str option) option"
  hq_if_none_match :: "str option"
  hq_if_match :: "str option"
  hq_body :: str

text \<open>A body that cannot be read is \<open>None\<close>; an entity tag that is not text is no entity tag.\<close>

record http_response =
  hr_status :: nat
  hr_etag :: "str option"
  hr_body :: "str option"

type_synonym 's http = "http_request \<Rightarrow> 's \<Rightarrow> (webdav_kind + http_response) \<times> 's"

datatype remote_error =
    RequestFailed str webdav_kind
  | HttpError str webdav_kind nat str
  | BodyUnreadable
  | ChangedConcurrently str
  | SlicePanic

definition join_url :: "str \<Rightarrow> str \<Rightarrow> str" where
  "join_url base child = trim_end_slashes base @ ''/'' @ dropWhile (\<lambda>c. c = CHR ''/'') child"

definition with_auth :: "webdav_config \<Rightarrow> (str \<times> str option) option" where
  "with_auth c = map_option (\<lambda>u. (u, wc_password c)) (wc_username c)"

definition MAX_ERROR_BODY :: nat where
  "MAX_ERROR_BODY = 2048"

text \<open>\<open>None\<close> is the panic of a slice that cuts a character.\<close>

definition truncate_error_body :: "str \<Rightarrow> str option" where
  "truncate_error_body body =
     (let trimmed = trim body
      in if length trimmed \<le> MAX_ERROR_BODY then Some trimmed
         else map_option (\<lambda>s. s @ ''...(truncated, '' @ show_nat (length trimmed) @ '' bytes total)'')
                (slice trimmed 0 MAX_ERROR_BODY))"

definition classify_status :: "nat \<Rightarrow> webdav_kind" where
  "classify_status status =
     (if status \<in> {401, 403, 407} then AuthKind else if status \<in> {408, 504} then TimeoutKind else ApiKind)"

definition webdav_error :: "str \<Rightarrow> http_response \<Rightarrow> remote_error" where
  "webdav_error operation r =
     (case truncate_error_body (case hr_body r of Some b \<Rightarrow> b | None \<Rightarrow> []) of
        None \<Rightarrow> SlicePanic
      | Some b \<Rightarrow> HttpError operation (classify_status (hr_status r)) (hr_status r) b)"

definition is_success :: "nat \<Rightarrow> bool" where
  "is_success status \<longleftrightarrow> 200 \<le> status \<and> status < 300"

definition plain_request :: "webdav_config \<Rightarrow> str \<Rightarrow> str \<Rightarrow> http_request" where
  "plain_request c verb url =
     \<lparr>hq_method = verb, hq_url = url, hq_auth = with_auth c, hq_if_none_match = None, hq_if_match = None,
      hq_body = []\<rparr>"

definition ensure_collection :: "'s http \<Rightarrow> webdav_config \<Rightarrow> str \<Rightarrow> 's \<Rightarrow> (remote_error + unit) \<times> 's" where
  "ensure_collection serve c url s =
     (case serve (plain_request c ''MKCOL'' url) s of
        (Inl k, s') \<Rightarrow> (Inl (RequestFailed ''MKCOL'' k), s')
      | (Inr r, s') \<Rightarrow>
          if is_success (hr_status r) \<or> hr_status r = 405 \<or> hr_status r = 409 then (Inr (), s')
          else (Inl (webdav_error ''MKCOL'' r), s'))"

section \<open>The contract and its provider\<close>

record remote_object =
  ro_bytes :: str
  ro_version :: "str option"

datatype write_condition = WriteAny | WriteMissing | WriteVersion str

record 's sync_remote =
  ensure_layout :: "'s \<Rightarrow> (remote_error + unit) \<times> 's"
  read_object :: "str \<Rightarrow> 's \<Rightarrow> (remote_error + remote_object option) \<times> 's"
  write_object :: "str \<Rightarrow> str \<Rightarrow> write_condition \<Rightarrow> 's \<Rightarrow> (remote_error + unit) \<times> 's"

definition REMOTE_FILES_DIR :: str where "REMOTE_FILES_DIR = ''files''"
definition REMOTE_VERSIONS_DIR :: str where "REMOTE_VERSIONS_DIR = ''versions''"

definition webdav_ensure_layout :: "'s http \<Rightarrow> webdav_config \<Rightarrow> 's \<Rightarrow> (remote_error + unit) \<times> 's" where
  "webdav_ensure_layout serve c s =
     (case ensure_collection serve c (wc_url c) s of
        (Inl e, s1) \<Rightarrow> (Inl e, s1)
      | (Inr _, s1) \<Rightarrow>
          (case ensure_collection serve c (join_url (wc_url c) REMOTE_FILES_DIR) s1 of
             (Inl e, s2) \<Rightarrow> (Inl e, s2)
           | (Inr _, s2) \<Rightarrow> ensure_collection serve c (join_url (wc_url c) REMOTE_VERSIONS_DIR) s2))"

definition webdav_read ::
  "'s http \<Rightarrow> webdav_config \<Rightarrow> str \<Rightarrow> 's \<Rightarrow> (remote_error + remote_object option) \<times> 's" where
  "webdav_read serve c path s =
     (case serve (plain_request c ''GET'' (join_url (wc_url c) path)) s of
        (Inl k, s') \<Rightarrow> (Inl (RequestFailed ''GET'' k), s')
      | (Inr r, s') \<Rightarrow>
          (if hr_status r = 404 then (Inr None, s')
           else if \<not> is_success (hr_status r) then (Inl (webdav_error ''GET'' r), s')
           else case hr_body r of
             None \<Rightarrow> (Inl BodyUnreadable, s')
           | Some b \<Rightarrow> (Inr (Some \<lparr>ro_bytes = b, ro_version = hr_etag r\<rparr>), s')))"

definition put_request :: "webdav_config \<Rightarrow> str \<Rightarrow> str \<Rightarrow> write_condition \<Rightarrow> http_request" where
  "put_request c path bytes condition =
     (let q = (plain_request c ''PUT'' (join_url (wc_url c) path))\<lparr>hq_body := bytes\<rparr>
      in case condition of
           WriteAny \<Rightarrow> q
         | WriteMissing \<Rightarrow> q\<lparr>hq_if_none_match := Some ''*''\<rparr>
         | WriteVersion v \<Rightarrow> q\<lparr>hq_if_match := Some v\<rparr>)"

definition webdav_write ::
  "'s http \<Rightarrow> webdav_config \<Rightarrow> str \<Rightarrow> str \<Rightarrow> write_condition \<Rightarrow> 's \<Rightarrow> (remote_error + unit) \<times> 's" where
  "webdav_write serve c path bytes condition s =
     (case serve (put_request c path bytes condition) s of
        (Inl k, s') \<Rightarrow> (Inl (RequestFailed ''PUT'' k), s')
      | (Inr r, s') \<Rightarrow>
          if hr_status r = 412 \<or> hr_status r = 409 then (Inl (ChangedConcurrently path), s')
          else if \<not> is_success (hr_status r) then (Inl (webdav_error ''PUT'' r), s')
          else (Inr (), s'))"

definition webdav_remote :: "'s http \<Rightarrow> webdav_config \<Rightarrow> 's sync_remote" where
  "webdav_remote serve c =
     \<lparr>ensure_layout = webdav_ensure_layout serve c, read_object = webdav_read serve c,
      write_object = webdav_write serve c\<rparr>"

text \<open>Credentials go to an https address, or to a plain http one when that is asked for.\<close>

lemma resolved_url_is_secure:
  assumes "resolve_config env o0 file = Inr c"
  shows "\<exists>url rest. wc_url c = trim_end_slashes url \<and> CHR ''?'' \<notin> set url \<and>
    (to_lowercase url = ''https://'' @ rest \<or>
     to_lowercase url = ''http://'' @ rest \<and> env ''AGENT2SSH_ALLOW_HTTP_WEBDAV'' = Some ''1'')"
proof -
  from assms obtain url where url: "wc_url c = trim_end_slashes url" "validate_webdav_url env url = Inr ()"
    by (auto simp: resolve_config_def split: sum.splits option.splits)
  from url(2) obtain scheme rest where *: "split_once ''://'' (to_lowercase url) = Some (scheme, rest)"
      "scheme = ''http'' \<longrightarrow> env ''AGENT2SSH_ALLOW_HTTP_WEBDAV'' = Some ''1''" "scheme \<in> {''https'', ''http''}"
      "CHR ''?'' \<notin> set url"
    by (auto simp: validate_webdav_url_def Let_def split: option.splits if_splits)
  from split_once_Some [OF *(1)] *(2-4) url(1) show ?thesis by auto
qed

text \<open>The text of an error body is cut at a byte: a server can make it cut a character.\<close>

lemma trim_id: "s \<noteq> [] \<Longrightarrow> \<not> is_ws (hd s) \<Longrightarrow> \<not> is_ws (last s) \<Longrightarrow> trim s = s"
proof -
  assume s: "s \<noteq> []" "\<not> is_ws (hd s)" "\<not> is_ws (last s)"
  then have "dropWhile is_ws s = s" "dropWhile is_ws (rev s) = rev s"
    by (simp_all add: dropWhile_eq_self_iff hd_rev)
  then show ?thesis by (simp add: trim_def trim_start_def trim_end_def)
qed

lemma error_body_panics:
  "truncate_error_body (replicate 2047 CHR ''a'' @ [CHR 0xC3, CHR 0xA9]) = None"
proof -
  have "trim (replicate 2047 CHR ''a'' @ [CHR 0xC3, CHR 0xA9]) = replicate 2047 CHR ''a'' @ [CHR 0xC3, CHR 0xA9]"
    by (rule trim_id) (simp_all add: is_ws_def)
  then show ?thesis
    by (simp add: truncate_error_body_def MAX_ERROR_BODY_def slice_def is_char_boundary_def nth_append is_cont_byte_def)
qed

section \<open>What the contract promises\<close>

text \<open>
  \<open>view\<close> is what is stored under a name, and \<open>later\<close> the passing of time, in which other clients may act.
  A call takes effect at one instant between its start and its end. A version that is seen again
  stands for the same bytes.
\<close>

locale versioned_store =
  fixes R :: "'s sync_remote"
    and view :: "'s \<Rightarrow> str \<Rightarrow> remote_object option"
    and later :: "'s \<Rightarrow> 's \<Rightarrow> bool"
  assumes later_refl: "later s s"
    and later_trans: "later s t \<Longrightarrow> later t u \<Longrightarrow> later s u"
    and layout_later: "later s (snd (ensure_layout R s))"
    and read_later: "later s (snd (read_object R p s))"
    and write_later: "later s (snd (write_object R p b c s))"
    and read_at: "read_object R p s = (Inr ob, s') \<Longrightarrow> \<exists>t. later s t \<and> later t s' \<and> view t p = ob"
    and write_at: "write_object R p b c s = (Inr (), s') \<Longrightarrow>
      \<exists>t t' w. later s t \<and> later t t' \<and> later t' s' \<and> view t' p = Some \<lparr>ro_bytes = b, ro_version = w\<rparr> \<and>
        (c = WriteMissing \<longrightarrow> view t p = None) \<and>
        (\<forall>v. c = WriteVersion v \<longrightarrow> (\<exists>b'. view t p = Some \<lparr>ro_bytes = b', ro_version = Some v\<rparr>))"
    and version_stands: "later s t \<Longrightarrow> view s p = Some \<lparr>ro_bytes = b, ro_version = Some v\<rparr> \<Longrightarrow>
      view t p = Some \<lparr>ro_bytes = b', ro_version = Some v\<rparr> \<Longrightarrow> b' = b"
begin

text \<open>A write on the version that was read replaces the bytes that were read.\<close>

lemma replaces_what_was_read:
  assumes "read_object R p s0 = (Inr (Some ob), s1)" "ro_version ob = Some v" "later s1 s2"
    "write_object R p b (WriteVersion v) s2 = (Inr (), s3)"
  shows "\<exists>t t' w. later s2 t \<and> later t t' \<and> later t' s3 \<and> map_option ro_bytes (view t p) = Some (ro_bytes ob) \<and>
    view t' p = Some \<lparr>ro_bytes = b, ro_version = w\<rparr>"
proof -
  from read_at [OF assms(1)] obtain r where r: "later s0 r" "later r s1" "view r p = Some ob" by blast
  from write_at [OF assms(4)] obtain t t' w b' where t: "later s2 t" "later t t'" "later t' s3"
      "view t' p = Some \<lparr>ro_bytes = b, ro_version = w\<rparr>" "view t p = Some \<lparr>ro_bytes = b', ro_version = Some v\<rparr>"
    by blast
  from r(2) assms(3) t(1) have "later r t" by (meson later_trans)
  moreover have "view r p = Some \<lparr>ro_bytes = ro_bytes ob, ro_version = Some v\<rparr>"
    using r(3) assms(2) by (cases ob) simp
  ultimately have "b' = ro_bytes ob" using t(5) by (metis version_stands)
  then have "map_option ro_bytes (view t p) = Some (ro_bytes ob)" by (simp add: t(5))
  with t show ?thesis by blast
qed

text \<open>A write that needs the name to be free replaces nothing.\<close>

lemma creates_what_was_missing:
  assumes "write_object R p b WriteMissing s2 = (Inr (), s3)"
  shows "\<exists>t t' w. later s2 t \<and> later t t' \<and> later t' s3 \<and> view t p = None \<and>
    view t' p = Some \<lparr>ro_bytes = b, ro_version = w\<rparr>"
  using write_at [OF assms] by blast

end

section \<open>The WebDAV provider keeps it\<close>

text \<open>
  What the requests rely on: a server answers a read with what it holds at some instant, honours
  \<open>If-Match\<close> and \<open>If-None-Match\<close> of a write, and never uses an entity tag for other bytes.
\<close>

definition time_passes :: "'s http \<Rightarrow> ('s \<Rightarrow> 's \<Rightarrow> bool) \<Rightarrow> bool" where
  "time_passes serve later \<longleftrightarrow>
     (\<forall>s. later s s) \<and> (\<forall>s t u. later s t \<longrightarrow> later t u \<longrightarrow> later s u) \<and> (\<forall>q s. later s (snd (serve q s)))"

definition reads_are_true ::
  "'s http \<Rightarrow> ('s \<Rightarrow> str \<Rightarrow> remote_object option) \<Rightarrow> ('s \<Rightarrow> 's \<Rightarrow> bool) \<Rightarrow> bool" where
  "reads_are_true serve page later \<longleftrightarrow>
     (\<forall>q s r s'. serve q s = (Inr r, s') \<longrightarrow> hq_method q = ''GET'' \<longrightarrow>
        (\<exists>t. later s t \<and> later t s' \<and>
          (hr_status r = 404 \<longrightarrow> page t (hq_url q) = None) \<and>
          (\<forall>b. is_success (hr_status r) \<longrightarrow> hr_body r = Some b \<longrightarrow>
             page t (hq_url q) = Some \<lparr>ro_bytes = b, ro_version = hr_etag r\<rparr>)))"

definition writes_are_conditional ::
  "'s http \<Rightarrow> ('s \<Rightarrow> str \<Rightarrow> remote_object option) \<Rightarrow> ('s \<Rightarrow> 's \<Rightarrow> bool) \<Rightarrow> bool" where
  "writes_are_conditional serve page later \<longleftrightarrow>
     (\<forall>q s r s'. serve q s = (Inr r, s') \<longrightarrow> hq_method q = ''PUT'' \<longrightarrow> is_success (hr_status r) \<longrightarrow>
        (\<exists>t t' w. later s t \<and> later t t' \<and> later t' s' \<and>
          page t' (hq_url q) = Some \<lparr>ro_bytes = hq_body q, ro_version = w\<rparr> \<and>
          (hq_if_none_match q = Some ''*'' \<longrightarrow> page t (hq_url q) = None) \<and>
          (\<forall>v. hq_if_match q = Some v \<longrightarrow>
             (\<exists>b. page t (hq_url q) = Some \<lparr>ro_bytes = b, ro_version = Some v\<rparr>))))"

definition tags_are_unique :: "('s \<Rightarrow> str \<Rightarrow> remote_object option) \<Rightarrow> ('s \<Rightarrow> 's \<Rightarrow> bool) \<Rightarrow> bool" where
  "tags_are_unique page later \<longleftrightarrow>
     (\<forall>s t url b b' v. later s t \<longrightarrow> page s url = Some \<lparr>ro_bytes = b, ro_version = Some v\<rparr> \<longrightarrow>
        page t url = Some \<lparr>ro_bytes = b', ro_version = Some v\<rparr> \<longrightarrow> b' = b)"

definition conditional_server ::
  "'s http \<Rightarrow> ('s \<Rightarrow> str \<Rightarrow> remote_object option) \<Rightarrow> ('s \<Rightarrow> 's \<Rightarrow> bool) \<Rightarrow> bool" where
  "conditional_server serve page later \<longleftrightarrow>
     time_passes serve later \<and> reads_are_true serve page later \<and> writes_are_conditional serve page later \<and>
     tags_are_unique page later"

lemma conditional_server_later:
  assumes "conditional_server serve page later"
  shows "later s s" "later s t \<Longrightarrow> later t u \<Longrightarrow> later s u" "later s (snd (serve q s))"
  using assms unfolding conditional_server_def time_passes_def by blast+

lemma webdav_read_at:
  assumes "conditional_server serve page later" "webdav_read serve c p s = (Inr ob, s')"
  shows "\<exists>t. later s t \<and> later t s' \<and> page t (join_url (wc_url c) p) = ob"
proof -
  let ?q = "plain_request c ''GET'' (join_url (wc_url c) p)"
  from assms(2) obtain r where r: "serve ?q s = (Inr r, s')"
      "(if hr_status r = 404 then ob = None
        else is_success (hr_status r) \<and> (\<exists>b. hr_body r = Some b \<and> ob = Some \<lparr>ro_bytes = b, ro_version = hr_etag r\<rparr>))"
    by (auto simp: webdav_read_def split: prod.splits sum.splits if_splits option.splits)
  have m: "hq_method ?q = ''GET''" "hq_url ?q = join_url (wc_url c) p" by (simp_all add: plain_request_def)
  from assms(1) r(1) m(1) obtain t where "later s t" "later t s'" "hr_status r = 404 \<longrightarrow> page t (hq_url ?q) = None"
      "\<forall>b. is_success (hr_status r) \<longrightarrow> hr_body r = Some b \<longrightarrow>
         page t (hq_url ?q) = Some \<lparr>ro_bytes = b, ro_version = hr_etag r\<rparr>"
    unfolding conditional_server_def reads_are_true_def by blast
  with r(2) show ?thesis unfolding m(2) by (auto split: if_splits)
qed

lemma put_request_simps [simp]:
  "hq_method (put_request c p b k) = ''PUT''" "hq_url (put_request c p b k) = join_url (wc_url c) p"
  "hq_body (put_request c p b k) = b"
  "hq_if_none_match (put_request c p b k) = (if k = WriteMissing then Some ''*'' else None)"
  "hq_if_match (put_request c p b k) = (case k of WriteVersion v \<Rightarrow> Some v | _ \<Rightarrow> None)"
  by (cases k; simp add: put_request_def plain_request_def)+

lemma webdav_write_at:
  assumes "conditional_server serve page later" "webdav_write serve c p b k s = (Inr (), s')"
  shows "\<exists>t t' w. later s t \<and> later t t' \<and> later t' s' \<and>
    page t' (join_url (wc_url c) p) = Some \<lparr>ro_bytes = b, ro_version = w\<rparr> \<and>
    (k = WriteMissing \<longrightarrow> page t (join_url (wc_url c) p) = None) \<and>
    (\<forall>v. k = WriteVersion v \<longrightarrow> (\<exists>b'. page t (join_url (wc_url c) p) = Some \<lparr>ro_bytes = b', ro_version = Some v\<rparr>))"
proof -
  from assms(2) obtain r where r: "serve (put_request c p b k) s = (Inr r, s')" "is_success (hr_status r)"
    by (auto simp: webdav_write_def split: prod.splits sum.splits if_splits)
  have m: "hq_method (put_request c p b k) = ''PUT''" by simp
  from assms(1) have "writes_are_conditional serve page later" by (simp add: conditional_server_def)
  with r m have "\<exists>t t' w. later s t \<and> later t t' \<and> later t' s' \<and>
      page t' (hq_url (put_request c p b k)) = Some \<lparr>ro_bytes = hq_body (put_request c p b k), ro_version = w\<rparr> \<and>
      (hq_if_none_match (put_request c p b k) = Some ''*'' \<longrightarrow> page t (hq_url (put_request c p b k)) = None) \<and>
      (\<forall>v. hq_if_match (put_request c p b k) = Some v \<longrightarrow>
         (\<exists>b'. page t (hq_url (put_request c p b k)) = Some \<lparr>ro_bytes = b', ro_version = Some v\<rparr>))"
    unfolding writes_are_conditional_def by blast
  then show ?thesis by (elim ex_forward conj_forward) (auto split: write_condition.splits if_splits)
qed

lemma webdav_later:
  assumes "conditional_server serve page later"
  shows "later s (snd (webdav_read serve c p s))" "later s (snd (webdav_write serve c p b k s))"
    "later s (snd (webdav_ensure_layout serve c s))"
proof -
  have q: "later s s'" if "serve q s = (r, s')" for q s r s'
    using conditional_server_later(3) [OF assms, of s q] that by simp
  have col: "later s (snd (ensure_collection serve c url s))" for url s
    by (auto simp: ensure_collection_def split: prod.splits sum.splits dest: q)
  show "later s (snd (webdav_read serve c p s))" "later s (snd (webdav_write serve c p b k s))"
    by (auto simp: webdav_read_def webdav_write_def split: prod.splits sum.splits option.splits dest: q)
  show "later s (snd (webdav_ensure_layout serve c s))"
    using col by (auto simp: webdav_ensure_layout_def split: prod.splits sum.splits)
      (metis conditional_server_later(2) [OF assms] snd_conv)+
qed

lemma webdav_is_versioned:
  assumes "conditional_server serve page later"
  shows "versioned_store (webdav_remote serve c) (\<lambda>s p. page s (join_url (wc_url c) p)) later"
proof
  show "later s u" if "later s t" "later t u" for s t u
    using conditional_server_later(2) [OF assms that] .
  show "b' = b" if "later s t" "page s (join_url (wc_url c) p) = Some \<lparr>ro_bytes = b, ro_version = Some v\<rparr>"
    "page t (join_url (wc_url c) p) = Some \<lparr>ro_bytes = b', ro_version = Some v\<rparr>" for s t p b b' v
    using assms that unfolding conditional_server_def tags_are_unique_def by blast
  show "\<exists>t t' w. later s t \<and> later t t' \<and> later t' s' \<and>
      page t' (join_url (wc_url c) p) = Some \<lparr>ro_bytes = b, ro_version = w\<rparr> \<and>
      (k = WriteMissing \<longrightarrow> page t (join_url (wc_url c) p) = None) \<and>
      (\<forall>v. k = WriteVersion v \<longrightarrow>
        (\<exists>b'. page t (join_url (wc_url c) p) = Some \<lparr>ro_bytes = b', ro_version = Some v\<rparr>))"
    if "write_object (webdav_remote serve c) p b k s = (Inr (), s')" for p b k s s'
    using that webdav_write_at [OF assms] by (simp add: webdav_remote_def)
qed (simp_all add: webdav_remote_def conditional_server_later [OF assms] webdav_later [OF assms]
      webdav_read_at [OF assms])

end
