(* ===== verification/Backup_Crypto.thy ===== *)
theory Backup_Crypto
  imports Rust_Text
begin

text \<open>
  \<open>backup_crypto.rs\<close>: the envelope of an uploaded file. Key derivation and the authenticated cipher are
  those of the cryptographic libraries, over byte strings; the random bytes are arguments, \<open>None\<close> where
  the system gives none.
\<close>

record backup_cipher =
  bc_derive :: "str \<Rightarrow> str \<Rightarrow> str option"
  bc_encrypt :: "str \<Rightarrow> str \<Rightarrow> str \<Rightarrow> str \<Rightarrow> str option"
  bc_decrypt :: "str \<Rightarrow> str \<Rightarrow> str \<Rightarrow> str \<Rightarrow> str option"

definition ENCRYPTED_MAGIC :: str where "ENCRYPTED_MAGIC = ''AGENT2SSH_ENCRYPTED_BACKUP_V1''"
definition SALT_LEN :: nat where "SALT_LEN = 16"
definition NONCE_LEN :: nat where "NONCE_LEN = 12"

datatype backup_error = NoEntropy | KeyDerivation | EncryptionFailed | TooShort | MissingMagic | NotAuthentic

definition encrypt_backup ::
  "backup_cipher \<Rightarrow> str option \<Rightarrow> str option \<Rightarrow> str \<Rightarrow> str \<Rightarrow> backup_error + str" where
  "encrypt_backup C salt nonce password plaintext =
     (case (salt, nonce) of
        (Some salt, Some nonce) \<Rightarrow>
          (case bc_derive C password salt of
             None \<Rightarrow> Inl KeyDerivation
           | Some key \<Rightarrow>
               (case bc_encrypt C key nonce ENCRYPTED_MAGIC plaintext of
                  None \<Rightarrow> Inl EncryptionFailed
                | Some ciphertext \<Rightarrow> Inr (ENCRYPTED_MAGIC @ salt @ nonce @ ciphertext)))
      | _ \<Rightarrow> Inl NoEntropy)"

definition decrypt_backup :: "backup_cipher \<Rightarrow> str \<Rightarrow> str \<Rightarrow> backup_error + str" where
  "decrypt_backup C password d =
     (if length d < length ENCRYPTED_MAGIC + SALT_LEN + NONCE_LEN then Inl TooShort
      else
        let magic = take (length ENCRYPTED_MAGIC) d; rest = drop (length ENCRYPTED_MAGIC) d
        in if magic \<noteq> ENCRYPTED_MAGIC then Inl MissingMagic
           else
             let salt = take SALT_LEN rest; rest = drop SALT_LEN rest;
                 nonce = take NONCE_LEN rest; ciphertext = drop NONCE_LEN rest
             in case bc_derive C password salt of
                  None \<Rightarrow> Inl KeyDerivation
                | Some key \<Rightarrow>
                    (case bc_decrypt C key nonce ENCRYPTED_MAGIC ciphertext of
                       None \<Rightarrow> Inl NotAuthentic
                     | Some plaintext \<Rightarrow> Inr plaintext))"

definition is_encrypted_backup :: "str \<Rightarrow> bool" where
  "is_encrypted_backup d \<longleftrightarrow>
     length d \<ge> length ENCRYPTED_MAGIC \<and> take (length ENCRYPTED_MAGIC) d = ENCRYPTED_MAGIC"

section \<open>What the envelope relies on and gives\<close>

text \<open>
  Authenticated encryption: what was encrypted opens with the same key, nonce and associated data, and
  with no other key.
\<close>

definition seals :: "backup_cipher \<Rightarrow> bool" where
  "seals C \<longleftrightarrow> (\<forall>k n a p c. bc_encrypt C k n a p = Some c \<longrightarrow>
     bc_decrypt C k n a c = Some p \<and> (\<forall>k' n' a' q. bc_decrypt C k' n' a' c = Some q \<longrightarrow> k' = k))"

text \<open>The random bytes have the lengths of the buffers they fill.\<close>

definition drawn :: "str option \<Rightarrow> str option \<Rightarrow> bool" where
  "drawn salt nonce \<longleftrightarrow>
     (case salt of Some s \<Rightarrow> length s = SALT_LEN | None \<Rightarrow> True) \<and>
     (case nonce of Some n \<Rightarrow> length n = NONCE_LEN | None \<Rightarrow> True)"

lemma encrypt_backup_Inr:
  assumes "encrypt_backup C salt nonce pw p = Inr d"
  obtains s n k c where "salt = Some s" "nonce = Some n" "bc_derive C pw s = Some k"
    "bc_encrypt C k n ENCRYPTED_MAGIC p = Some c" "d = ENCRYPTED_MAGIC @ s @ n @ c"
  using assms by (auto simp: encrypt_backup_def split: option.splits)

lemma decrypt_envelope:
  assumes "length s = SALT_LEN" "length n = NONCE_LEN"
  shows "decrypt_backup C pw (ENCRYPTED_MAGIC @ s @ n @ c) =
    (case bc_derive C pw s of
       None \<Rightarrow> Inl KeyDerivation
     | Some key \<Rightarrow>
         (case bc_decrypt C key n ENCRYPTED_MAGIC c of None \<Rightarrow> Inl NotAuthentic | Some p \<Rightarrow> Inr p))"
proof -
  have "take NONCE_LEN (n @ c) = n" "drop NONCE_LEN (n @ c) = c"
    "take SALT_LEN (s @ n @ c) = s" "drop SALT_LEN (s @ n @ c) = n @ c"
    "take (length ENCRYPTED_MAGIC) (ENCRYPTED_MAGIC @ s @ n @ c) = ENCRYPTED_MAGIC"
    "drop (length ENCRYPTED_MAGIC) (ENCRYPTED_MAGIC @ s @ n @ c) = s @ n @ c"
    by (simp_all add: assms [symmetric])
  then show ?thesis
    by (cases "bc_derive C pw s") (simp_all add: decrypt_backup_def Let_def assms del: take_append drop_append)
qed

lemma envelope_is_encrypted: "is_encrypted_backup (ENCRYPTED_MAGIC @ d)"
  by (simp add: is_encrypted_backup_def)

lemma encrypted_opens:
  assumes "seals C" "drawn salt nonce" "encrypt_backup C salt nonce pw p = Inr d"
  shows "is_encrypted_backup d" "decrypt_backup C pw d = Inr p"
    "decrypt_backup C pw' d = Inr q \<Longrightarrow>
       \<exists>s. salt = Some s \<and> bc_derive C pw' s = bc_derive C pw s"
proof -
  from assms(3) obtain s n k c where v: "salt = Some s" "nonce = Some n" "bc_derive C pw s = Some k"
      "bc_encrypt C k n ENCRYPTED_MAGIC p = Some c" "d = ENCRYPTED_MAGIC @ s @ n @ c"
    by (rule encrypt_backup_Inr)
  from assms(2) v have l: "length s = SALT_LEN" "length n = NONCE_LEN" by (simp_all add: drawn_def)
  from assms(1) v(4) have c: "bc_decrypt C k n ENCRYPTED_MAGIC c = Some p"
      "\<And>k' n' a' q. bc_decrypt C k' n' a' c = Some q \<Longrightarrow> k' = k"
    unfolding seals_def by blast+
  show "is_encrypted_backup d" unfolding v(5) by (rule envelope_is_encrypted)
  show "decrypt_backup C pw d = Inr p" unfolding v(5) decrypt_envelope [OF l] by (simp add: v(3) c(1))
  show "\<exists>s. salt = Some s \<and> bc_derive C pw' s = bc_derive C pw s"
    if "decrypt_backup C pw' d = Inr q"
    using that c(2) unfolding v(5) decrypt_envelope [OF l] by (auto simp: v split: option.splits)
qed

text \<open>
  An encrypted backup opens with its password to what was encrypted, it is recognised as
  one, and a password that derives another key does not open it.
\<close>

theorem backup_envelope_roundtrip:
  assumes "seals C" "drawn salt nonce" "encrypt_backup C salt nonce pw p = Inr d"
  shows "is_encrypted_backup d \<and> decrypt_backup C pw d = Inr p \<and>
    (\<forall>pw' s q. salt = Some s \<and> bc_derive C pw' s \<noteq> bc_derive C pw s \<longrightarrow> decrypt_backup C pw' d \<noteq> Inr q)"
  using encrypted_opens [OF assms] by blast

text \<open>A transparent cipher with the laws, for closed examples: its keys have 18 bytes.\<close>

definition toy_cipher :: backup_cipher where
  "toy_cipher =
     \<lparr>bc_derive = (\<lambda>pw s. Some (pw @ s)),
      bc_encrypt = (\<lambda>k n a p. if length k = 18 then Some (k @ p) else None),
      bc_decrypt = (\<lambda>k n a c. if length k = 18 \<and> take 18 c = k then Some (drop 18 c) else None)\<rparr>"

definition toy_salt :: str where "toy_salt = replicate 16 CHR ''s''"
definition toy_nonce :: str where "toy_nonce = replicate 12 CHR ''n''"

lemma toy_cipher_seals: "seals toy_cipher"
  by (auto simp: seals_def toy_cipher_def split: if_splits)

lemma toy_drawn: "drawn (Some toy_salt) (Some toy_nonce)"
  by (simp add: drawn_def toy_salt_def toy_nonce_def SALT_LEN_def NONCE_LEN_def)

lemma toy_encrypts:
  "encrypt_backup toy_cipher (Some toy_salt) (Some toy_nonce) [a, b] p =
     Inr (ENCRYPTED_MAGIC @ toy_salt @ toy_nonce @ [a, b] @ toy_salt @ p)"
  by (simp add: encrypt_backup_def toy_cipher_def toy_salt_def)

lemma backup_envelope_roundtrip_witness:
  "\<exists>d. encrypt_backup toy_cipher (Some toy_salt) (Some toy_nonce) ''pw'' ''text'' = Inr d \<and>
     decrypt_backup toy_cipher ''pw'' d = Inr ''text'' \<and> decrypt_backup toy_cipher ''no'' d \<noteq> Inr ''text''"
proof -
  have "bc_derive toy_cipher ''no'' toy_salt \<noteq> bc_derive toy_cipher ''pw'' toy_salt" by (simp add: toy_cipher_def)
  then show ?thesis
    using backup_envelope_roundtrip [OF toy_cipher_seals toy_drawn toy_encrypts, of "CHR ''p''" "CHR ''w''" "''text''"]
      toy_encrypts [of "CHR ''p''" "CHR ''w''" "''text''"] by blast
qed

text \<open>The constants: the magic prefix has 29 bytes.\<close>

lemma magic_length: "length ENCRYPTED_MAGIC = 29"
  by (simp add: ENCRYPTED_MAGIC_def)

end
