(* ===== verification/Sync_Marker.thy ===== *)
theory Sync_Marker
  imports Sync_Remote Backup_Crypto "HOL-Library.Word" "HOL-Library.List_Lexorder" "HOL-Library.Char_ord"
begin

text \<open>
  \<open>webdav_sync.rs\<close>: the portable configuration files of two devices, kept equal through a remote. The
  hash, the marker's text and the clock are those of the libraries, in the record \<open>sync_env\<close>; the
  configuration directory is the map of its entries.
\<close>

section \<open>Files\<close>

text \<open>What a name stands for: a file, a link to a file, a directory, or a link to nothing.\<close>

datatype dir_node = Regular str | Link str | Folder | Dangling

type_synonym dir = "str \<Rightarrow> dir_node option"

definition is_file :: "dir \<Rightarrow> str \<Rightarrow> bool" where
  "is_file d p = (case d p of Some (Regular _) \<Rightarrow> True | Some (Link _) \<Rightarrow> True | _ \<Rightarrow> False)"

text \<open>\<open>fs::read\<close>, \<open>None\<close> for an error.\<close>

definition content :: "dir \<Rightarrow> str \<Rightarrow> str option" where
  "content d p = (case d p of Some (Regular b) \<Rightarrow> Some b | Some (Link b) \<Rightarrow> Some b | _ \<Rightarrow> None)"

definition exists :: "dir \<Rightarrow> str \<Rightarrow> bool" where
  "exists d p \<longleftrightarrow> d p \<noteq> None \<and> d p \<noteq> Some Dangling"

definition SYNC_VERSION_FILE :: str where "SYNC_VERSION_FILE = ''sync_version.json''"
definition SYNC_MARKER_CLIENT_VERSION :: str where "SYNC_MARKER_CLIENT_VERSION = ''redacted''"
definition CURRENT_SYNC_SCHEMA :: nat where "CURRENT_SYNC_SCHEMA = 2"

definition SYNCABLE_FILES :: "str list" where
  "SYNCABLE_FILES =
     [''hosts.json'', ''playbooks.toml'', ''risk_rules.toml'', ''policy.toml'', ''policy.json'',
      ''execution_limits.toml'', ''anomaly.toml'', ''webhook.toml'', ''app_preferences.json'']"

definition LEGACY_UNSYNCABLE_REMOTE_FILES :: "str list" where
  "LEGACY_UNSYNCABLE_REMOTE_FILES =
     [''known_hosts.json'', ''secrets.enc'', ''snippets.json'', ''approval_policies.toml'']"

definition is_legacy_unsyncable_remote_file :: "str \<Rightarrow> bool" where
  "is_legacy_unsyncable_remote_file p \<longleftrightarrow> p \<in> set LEGACY_UNSYNCABLE_REMOTE_FILES"

record sync_file =
  sf_path :: str
  sf_bytes :: nat
  sf_sha256 :: str

record sync_marker =
  sm_schema_version :: nat
  sm_global_version :: "64 word"
  sm_sync_id :: str
  sm_updated_at :: int
  sm_app_version :: str
  sm_direction :: str
  sm_files :: "sync_file list"
  sm_digest :: "str option"
  sm_object_prefix :: "str option"

datatype sync_state = InSync | LocalAhead | RemoteAhead | Diverged | UnknownState

text \<open>
  What a run draws and calls: the hash in hexadecimal, the marker as JSON, the clock, new identifiers,
  and the random bytes for a file. The disk refuses some writes and removals.
\<close>

record sync_env =
  se_sha :: "str \<Rightarrow> str"
  se_encode :: "sync_marker \<Rightarrow> str"
  se_decode :: "str \<Rightarrow> sync_marker option"
  se_cipher :: backup_cipher
  se_entropy :: "str \<Rightarrow> str option \<times> str option"
  se_now :: int
  se_uuid :: str
  se_backup_id :: str
  se_cannot_write :: "str \<Rightarrow> bool"
  se_cannot_remove :: "str \<Rightarrow> bool"

datatype sync_error =
    NoSyncPassword
  | TransportError remote_error
  | MarkerUnparsable
  | SchemaZero
  | DigestLength nat
  | DigestAlphabet
  | LocalMarkerUnreadable
  | LocalMarkerUnparsable
  | SyncConflict sync_state
  | RemoteMarkerMissing
  | MarkerDisappeared
  | MarkerChanged
  | UnsupportedFile str
  | ObjectMissing str
  | CannotDecrypt str backup_error
  | ChecksumMismatch str
  | CannotRead str
  | CannotEncrypt str backup_error
  | CannotWrite str
  | CannotRemove str
  | BackupFailed

section \<open>Digests and markers\<close>

definition portable_config_digest :: "(str \<Rightarrow> str) \<Rightarrow> sync_file list \<Rightarrow> str" where
  "portable_config_digest sha files =
     sha (''agent2ssh-portable-config-v1'' @ [CHR 0x00] @
       concat (map (\<lambda>f. sf_path f @ [CHR 0x00] @ sf_sha256 f @ [CHR 0x00]) (sort_key sf_path files)))"

definition sync_marker_digest :: "(str \<Rightarrow> str) \<Rightarrow> sync_marker \<Rightarrow> str" where
  "sync_marker_digest sha m =
     (case sm_digest m of Some d \<Rightarrow> d | None \<Rightarrow> portable_config_digest sha (sm_files m))"

definition classify_sync_state ::
  "(str \<Rightarrow> str) \<Rightarrow> str \<Rightarrow> sync_marker option \<Rightarrow> sync_marker option \<Rightarrow> sync_state" where
  "classify_sync_state sha local_digest local_marker remote_marker =
     (case remote_marker of
        None \<Rightarrow> LocalAhead
      | Some r \<Rightarrow>
          if sync_marker_digest sha r = local_digest then InSync
          else case local_marker of
            None \<Rightarrow> if local_digest = portable_config_digest sha [] then RemoteAhead else UnknownState
          | Some l \<Rightarrow>
              if local_digest = sync_marker_digest sha l then
                (if sm_global_version l < sm_global_version r then RemoteAhead else Diverged)
              else if sync_marker_digest sha r = sync_marker_digest sha l then LocalAhead
              else Diverged)"

definition collect_sync_files :: "(str \<Rightarrow> str) \<Rightarrow> dir \<Rightarrow> sync_file list" where
  "collect_sync_files sha d =
     sort_key sf_path
       (List.map_filter (\<lambda>p. map_option (\<lambda>b. \<lparr>sf_path = p, sf_bytes = length b, sf_sha256 = sha b\<rparr>) (content d p))
         SYNCABLE_FILES)"

definition current_portable_config_digest :: "(str \<Rightarrow> str) \<Rightarrow> dir \<Rightarrow> str" where
  "current_portable_config_digest sha d = portable_config_digest sha (collect_sync_files sha d)"

definition validate_digest_format :: "str \<Rightarrow> sync_error + unit" where
  "validate_digest_format d =
     (if length d \<noteq> 64 then Inl (DigestLength (length d))
      else if list_all (\<lambda>c. is_ascii_digit c \<or> c \<in> {CHR ''a'', CHR ''b'', CHR ''c'', CHR ''d'', CHR ''e'', CHR ''f''}) d
      then Inr () else Inl DigestAlphabet)"

definition validate_marker_schema :: "sync_marker \<Rightarrow> sync_error + unit" where
  "validate_marker_schema m =
     (if sm_schema_version m = 0 then Inl SchemaZero
      else case sm_digest m of Some d \<Rightarrow> validate_digest_format d | None \<Rightarrow> Inr ())"

text \<open>The maximum plus one, which wraps at 64 bits.\<close>

definition next_global_version :: "sync_marker option \<Rightarrow> sync_marker option \<Rightarrow> 64 word" where
  "next_global_version remote_marker local_marker =
     (case (remote_marker, local_marker) of
        (Some r, Some l) \<Rightarrow> max (sm_global_version r) (sm_global_version l)
      | (Some r, None) \<Rightarrow> sm_global_version r
      | (None, Some l) \<Rightarrow> sm_global_version l
      | (None, None) \<Rightarrow> 0) + 1"

definition new_marker :: "sync_env \<Rightarrow> 64 word \<Rightarrow> str \<Rightarrow> sync_file list \<Rightarrow> sync_marker" where
  "new_marker e global_version direction files =
     \<lparr>sm_schema_version = CURRENT_SYNC_SCHEMA, sm_global_version = global_version, sm_sync_id = se_uuid e,
      sm_updated_at = se_now e, sm_app_version = SYNC_MARKER_CLIENT_VERSION, sm_direction = direction,
      sm_files = files, sm_digest = Some (portable_config_digest (se_sha e) files),
      sm_object_prefix = Some (REMOTE_VERSIONS_DIR @ ''/'' @ se_uuid e @ ''-'')\<rparr>"

definition remote_object_path :: "sync_marker \<Rightarrow> sync_file \<Rightarrow> str" where
  "remote_object_path m f =
     (case sm_object_prefix m of
        Some pre \<Rightarrow> pre @ sf_path f
      | None \<Rightarrow> REMOTE_FILES_DIR @ ''/'' @ sf_path f)"

text \<open>The three comparisons that tell whether a marker is still the one that was read.\<close>

definition same_marker :: "(str \<Rightarrow> str) \<Rightarrow> sync_marker \<Rightarrow> sync_marker \<Rightarrow> bool" where
  "same_marker sha m n \<longleftrightarrow> sm_sync_id m = sm_sync_id n \<and> sm_global_version m = sm_global_version n \<and>
     sync_marker_digest sha m = sync_marker_digest sha n"

definition parse_marker :: "sync_env \<Rightarrow> str \<Rightarrow> sync_error + sync_marker" where
  "parse_marker e b =
     (case se_decode e b of
        None \<Rightarrow> Inl MarkerUnparsable
      | Some m \<Rightarrow> (case validate_marker_schema m of Inl err \<Rightarrow> Inl err | Inr _ \<Rightarrow> Inr m))"

definition get_remote_marker ::
  "sync_env \<Rightarrow> 's sync_remote \<Rightarrow> 's \<Rightarrow> (sync_error + (sync_marker \<times> str option) option) \<times> 's" where
  "get_remote_marker e R s =
     (case read_object R SYNC_VERSION_FILE s of
        (Inl err, s') \<Rightarrow> (Inl (TransportError err), s')
      | (Inr None, s') \<Rightarrow> (Inr None, s')
      | (Inr (Some ob), s') \<Rightarrow>
          (map_sum id (\<lambda>m. Some (m, ro_version ob)) (parse_marker e (ro_bytes ob)), s'))"

definition load_local_sync_marker :: "sync_env \<Rightarrow> dir \<Rightarrow> sync_error + sync_marker option" where
  "load_local_sync_marker e d =
     (if \<not> exists d SYNC_VERSION_FILE then Inr None
      else case content d SYNC_VERSION_FILE of
        None \<Rightarrow> Inl LocalMarkerUnreadable
      | Some b \<Rightarrow> (case se_decode e b of None \<Rightarrow> Inl LocalMarkerUnparsable | Some m \<Rightarrow> Inr (Some m)))"

text \<open>A temporary file, renamed over the name; a directory is in the way.\<close>

definition replace_file :: "sync_env \<Rightarrow> str \<Rightarrow> str \<Rightarrow> dir \<Rightarrow> (sync_error + unit) \<times> dir" where
  "replace_file e p b d =
     (if se_cannot_write e p \<or> d p = Some Folder then (Inl (CannotWrite p), d)
      else (Inr (), d(p := Some (Regular b))))"

definition write_local_marker :: "sync_env \<Rightarrow> sync_marker \<Rightarrow> dir \<Rightarrow> (sync_error + unit) \<times> dir" where
  "write_local_marker e m d = replace_file e SYNC_VERSION_FILE (se_encode e m) d"

definition validate_remote_file :: "str \<Rightarrow> sync_error + unit" where
  "validate_remote_file p =
     (if p \<in> set SYNCABLE_FILES \<or> is_legacy_unsyncable_remote_file p then Inr () else Inl (UnsupportedFile p))"

definition applied_sync_files :: "sync_file list \<Rightarrow> sync_file list" where
  "applied_sync_files files = filter (\<lambda>f. \<not> is_legacy_unsyncable_remote_file (sf_path f)) files"

end
