(* ===== verification/Config_Snapshots.thy ===== *)
theory Config_Snapshots
  imports Sync_Marker "HOL-Library.Product_Lexorder"
begin

text \<open>
  \<open>webdav_sync.rs\<close>: the backups under \<open>backups/\<close> that every synchronization, restore and template takes
  first, and their restoration. A backup is its directory and its manifest, as the JSON parser gives it.
\<close>

text \<open>The list of files of a manifest is \<open>None\<close> when it is missing or no list of strings.\<close>

datatype manifest =
    NoManifest
  | BadManifest
  | Manifest (mf_label: "str option") (mf_created: "int option") (mf_files: "str list option")

record backup =
  bk_entries :: dir
  bk_manifest :: manifest

record local_state =
  ls_dir :: dir
  ls_backups :: "str \<Rightarrow> backup option"

record snapshot_info =
  si_id :: str
  si_label :: "str option"
  si_created_at :: "int option"
  si_files :: "str list"

datatype snapshot_error =
    InvalidId
  | ManifestUnreadable
  | FilesListMissing
  | SnapshotUnsupported str
  | SnapshotDuplicate str
  | SnapshotFileBad str
  | NonRegular str
  | UnsafeName str
  | NonSyncable str
  | SnapshotSync sync_error

definition managed :: "str list" where
  "managed = SYNCABLE_FILES @ [SYNC_VERSION_FILE]"

section \<open>Taking a backup\<close>

text \<open>The copies, in order; a failed copy ends them. A directory of that name would be continued.\<close>

fun copy_files :: "sync_env \<Rightarrow> dir \<Rightarrow> str list \<Rightarrow> dir \<Rightarrow> str list \<Rightarrow> (sync_error + str list) \<times> dir" where
  "copy_files e d [] b copied = (Inr copied, b)"
| "copy_files e d (p # ps) b copied =
     (case content d p of
        None \<Rightarrow> copy_files e d ps b copied
      | Some bytes \<Rightarrow>
          if se_cannot_write e (''backups/'' @ se_backup_id e @ ''/'' @ p) then (Inl BackupFailed, b)
          else copy_files e d ps (b(p := Some (Regular bytes))) (copied @ [p]))"

definition backup_at :: "str \<Rightarrow> local_state \<Rightarrow> backup" where
  "backup_at i st =
     (case ls_backups st i of Some b \<Rightarrow> b | None \<Rightarrow> \<lparr>bk_entries = Map.empty, bk_manifest = NoManifest\<rparr>)"

definition create_sync_backup ::
  "sync_env \<Rightarrow> str option \<Rightarrow> local_state \<Rightarrow> (sync_error + str) \<times> local_state" where
  "create_sync_backup e label st =
     (let i = se_backup_id e; b = backup_at i st
      in case copy_files e (ls_dir st) managed (bk_entries b) [] of
           (Inl err, entries) \<Rightarrow>
             (Inl err, st\<lparr>ls_backups := (ls_backups st)(i \<mapsto> b\<lparr>bk_entries := entries\<rparr>)\<rparr>)
         | (Inr copied, entries) \<Rightarrow>
             if se_cannot_write e (''backups/'' @ i @ ''/backup_manifest.json'')
             then (Inl BackupFailed, st\<lparr>ls_backups := (ls_backups st)(i \<mapsto> b\<lparr>bk_entries := entries\<rparr>)\<rparr>)
             else (Inr i, st\<lparr>ls_backups := (ls_backups st)(i \<mapsto>
                     \<lparr>bk_entries = entries, bk_manifest = Manifest label (Some (se_now e)) (Some copied)\<rparr>)\<rparr>))"

section \<open>Reading backups\<close>

fun check_names :: "str set \<Rightarrow> str list \<Rightarrow> snapshot_error + unit" where
  "check_names seen [] = Inr ()"
| "check_names seen (n # ns) =
     (if n \<notin> set SYNCABLE_FILES \<and> n \<noteq> SYNC_VERSION_FILE then Inl (SnapshotUnsupported n)
      else if n \<in> seen then Inl (SnapshotDuplicate n)
      else check_names (insert n seen) ns)"

definition read_backup_manifest :: "str \<Rightarrow> local_state \<Rightarrow> snapshot_error + snapshot_info" where
  "read_backup_manifest i st =
     (case bk_manifest (backup_at i st) of
        Manifest label created files \<Rightarrow>
          (case files of
             None \<Rightarrow> Inl FilesListMissing
           | Some fs \<Rightarrow>
               (case check_names {} fs of
                  Inl err \<Rightarrow> Inl err
                | Inr _ \<Rightarrow> Inr \<lparr>si_id = i, si_label = label, si_created_at = created, si_files = fs\<rparr>))
      | _ \<Rightarrow> Inl ManifestUnreadable)"

text \<open>\<open>order\<close> lists the entries of the directory as the system does. Without a time, a snapshot is last.\<close>

definition list_config_snapshots :: "str list \<Rightarrow> local_state \<Rightarrow> snapshot_info list" where
  "list_config_snapshots order st =
     sort_key (\<lambda>i. case si_created_at i of Some t \<Rightarrow> (0 :: nat, - t) | None \<Rightarrow> (1, 0))
       (concat (map (\<lambda>i. case read_backup_manifest i st of Inr info \<Rightarrow> [info] | Inl _ \<Rightarrow> [])
          (filter (\<lambda>i. ls_backups st i \<noteq> None) order)))"

definition backup_dir_for_id :: "str \<Rightarrow> snapshot_error + str" where
  "backup_dir_for_id i =
     (if i = [] \<or> CHR ''/'' \<in> set i \<or> CHR 0x5C \<in> set i \<or> contains i ''..'' then Inl InvalidId else Inr i)"

definition create_named_snapshot ::
  "sync_env \<Rightarrow> str \<Rightarrow> local_state \<Rightarrow> (snapshot_error + snapshot_info) \<times> local_state" where
  "create_named_snapshot e label st =
     (case create_sync_backup e (Some label) st of
        (Inl err, st') \<Rightarrow> (Inl (SnapshotSync err), st')
      | (Inr i, st') \<Rightarrow> (read_backup_manifest i st', st'))"

definition delete_config_snapshot :: "sync_env \<Rightarrow> str \<Rightarrow> local_state \<Rightarrow> (snapshot_error + unit) \<times> local_state" where
  "delete_config_snapshot e i st =
     (case backup_dir_for_id i of
        Inl err \<Rightarrow> (Inl err, st)
      | Inr i \<Rightarrow>
          if ls_backups st i = None then (Inr (), st)
          else if se_cannot_remove e (''backups/'' @ i) then (Inl (SnapshotSync (CannotRemove i)), st)
          else (Inr (), st\<lparr>ls_backups := (ls_backups st)(i := None)\<rparr>))"

section \<open>Restoring\<close>

fun read_contents :: "dir \<Rightarrow> str list \<Rightarrow> snapshot_error + (str \<times> str) list" where
  "read_contents b [] = Inr []"
| "read_contents b (p # ps) =
     (case b p of
        Some (Regular bytes) \<Rightarrow> map_sum id ((#) (p, bytes)) (read_contents b ps)
      | _ \<Rightarrow> Inl (SnapshotFileBad p))"

text \<open>The files in scope that are not in the snapshot.\<close>

fun find_removals :: "dir \<Rightarrow> str list \<Rightarrow> str list \<Rightarrow> snapshot_error + str list" where
  "find_removals d files [] = Inr []"
| "find_removals d files (p # ps) =
     (case d p of
        None \<Rightarrow> find_removals d files ps
      | Some (Regular _) \<Rightarrow> map_sum id (\<lambda>rs. if p \<in> set files then rs else p # rs) (find_removals d files ps)
      | _ \<Rightarrow> Inl (NonRegular p))"

fun write_all :: "sync_env \<Rightarrow> (str \<times> str) list \<Rightarrow> dir \<Rightarrow> (sync_error + unit) \<times> dir" where
  "write_all e [] d = (Inr (), d)"
| "write_all e ((p, b) # ps) d =
     (case replace_file e p b d of
        (Inl err, d') \<Rightarrow> (Inl err, d')
      | (Inr _, d') \<Rightarrow> write_all e ps d')"

fun remove_all :: "sync_env \<Rightarrow> str list \<Rightarrow> dir \<Rightarrow> (sync_error + unit) \<times> dir" where
  "remove_all e [] d = (Inr (), d)"
| "remove_all e (p # ps) d =
     (if se_cannot_remove e p \<or> d p = Some Folder then (Inl (CannotRemove p), d)
      else remove_all e ps (d(p := None)))"

definition write_and_remove ::
  "sync_env \<Rightarrow> (str \<times> str) list \<Rightarrow> str list \<Rightarrow> dir \<Rightarrow> (sync_error + unit) \<times> dir" where
  "write_and_remove e ws rs d =
     (case write_all e ws d of
        (Inl err, d') \<Rightarrow> (Inl err, d')
      | (Inr _, d') \<Rightarrow> remove_all e rs d')"

definition restore_config_snapshot ::
  "sync_env \<Rightarrow> str \<Rightarrow> local_state \<Rightarrow> (snapshot_error + snapshot_info) \<times> local_state" where
  "restore_config_snapshot e i st =
     (case backup_dir_for_id i of
        Inl err \<Rightarrow> (Inl err, st)
      | Inr i \<Rightarrow>
     (case read_backup_manifest i st of
        Inl err \<Rightarrow> (Inl err, st)
      | Inr info \<Rightarrow>
     (case read_contents (bk_entries (backup_at i st)) (si_files info) of
        Inl err \<Rightarrow> (Inl err, st)
      | Inr contents \<Rightarrow>
     (case find_removals (ls_dir st) (si_files info) managed of
        Inl err \<Rightarrow> (Inl err, st)
      | Inr removals \<Rightarrow>
     (case create_sync_backup e (Some ''pre-restore'') st of
        (Inl err, st1) \<Rightarrow> (Inl (SnapshotSync err), st1)
      | (Inr _, st1) \<Rightarrow>
     (case write_and_remove e contents removals (ls_dir st1) of
        (result, d) \<Rightarrow> (map_sum SnapshotSync (\<lambda>_. info) result, st1\<lparr>ls_dir := d\<rparr>)))))))"

section \<open>Templates\<close>

text \<open>\<open>keys.rs\<close>\<close>

definition is_safe_filename :: "str \<Rightarrow> bool" where
  "is_safe_filename name \<longleftrightarrow>
     CHR ''/'' \<notin> set name \<and> CHR 0x5C \<notin> set name \<and> name \<noteq> ''.'' \<and> name \<noteq> ''..''"

fun check_template :: "(str \<times> str) list \<Rightarrow> snapshot_error + unit" where
  "check_template [] = Inr ()"
| "check_template ((name, _) # fs) =
     (if \<not> is_safe_filename name then Inl (UnsafeName name)
      else if name \<notin> set SYNCABLE_FILES then Inl (NonSyncable name)
      else check_template fs)"

text \<open>\<open>fs::write\<close> goes through a link, also to what it does not find yet.\<close>

fun write_template :: "sync_env \<Rightarrow> (str \<times> str) list \<Rightarrow> dir \<Rightarrow> (sync_error + unit) \<times> dir" where
  "write_template e [] d = (Inr (), d)"
| "write_template e ((p, b) # fs) d =
     (if se_cannot_write e p \<or> d p = Some Folder then (Inl (CannotWrite p), d)
      else write_template e fs
        (d(p := Some (case d p of Some (Link _) \<Rightarrow> Link b | Some Dangling \<Rightarrow> Link b | _ \<Rightarrow> Regular b))))"

definition apply_config_template ::
  "sync_env \<Rightarrow> (str \<times> str) list \<Rightarrow> local_state \<Rightarrow> (snapshot_error + snapshot_info) \<times> local_state" where
  "apply_config_template e files st =
     (case check_template files of
        Inl err \<Rightarrow> (Inl err, st)
      | Inr _ \<Rightarrow>
          (case create_named_snapshot e ''pre-template'' st of
             (Inl err, st1) \<Rightarrow> (Inl err, st1)
           | (Inr info, st1) \<Rightarrow>
               (case write_template e files (ls_dir st1) of
                  (Inl err, d) \<Rightarrow> (Inl (SnapshotSync err), st1\<lparr>ls_dir := d\<rparr>)
                | (Inr _, d) \<Rightarrow> (Inr info, st1\<lparr>ls_dir := d\<rparr>))))"

section \<open>What a backup holds\<close>

lemma map_sum_Inr: "map_sum f g x = Inr c \<longleftrightarrow> (\<exists>y. x = Inr y \<and> c = g y)"
  by (cases x) auto

lemma distinct_managed: "distinct managed"
  by (simp add: managed_def SYNCABLE_FILES_def SYNC_VERSION_FILE_def)

lemma set_managed: "set managed = insert SYNC_VERSION_FILE (set SYNCABLE_FILES)"
  by (simp add: managed_def)

definition present :: "dir \<Rightarrow> str list" where
  "present d = filter (\<lambda>p. content d p \<noteq> None) managed"

definition holds_copy :: "backup \<Rightarrow> dir \<Rightarrow> bool" where
  "holds_copy b d \<longleftrightarrow>
     (\<exists>label t. bk_manifest b = Manifest label t (Some (present d))) \<and>
     (\<forall>p \<in> set (present d). bk_entries b p = map_option Regular (content d p))"

lemma copy_files_Inr:
  "copy_files e d ps b cs = (Inr cs', b') \<Longrightarrow>
     cs' = cs @ filter (\<lambda>p. content d p \<noteq> None) ps \<and>
     (\<forall>p. b' p = (if p \<in> set ps \<and> content d p \<noteq> None then map_option Regular (content d p) else b p))"
proof (induction ps arbitrary: b cs)
  case (Cons p ps)
  show ?case
  proof (cases "content d p")
    case None
    with Cons.prems have "copy_files e d ps b cs = (Inr cs', b')" by simp
    from Cons.IH [OF this] None show ?thesis by auto
  next
    case (Some v)
    with Cons.prems have "copy_files e d ps (b(p := Some (Regular v))) (cs @ [p]) = (Inr cs', b')"
      by (simp split: if_splits)
    from Cons.IH [OF this] Some show ?thesis by auto
  qed
qed simp

lemma create_sync_backup_frame:
  assumes "create_sync_backup e label st = (r, st')"
  shows "ls_dir st' = ls_dir st" "i \<noteq> se_backup_id e \<Longrightarrow> ls_backups st' i = ls_backups st i"
  using assms by (auto simp: create_sync_backup_def Let_def split: prod.splits sum.splits if_splits)

lemma create_sync_backup_holds:
  assumes "create_sync_backup e label st = (Inr i, st')"
  shows "i = se_backup_id e" "holds_copy (backup_at i st') (ls_dir st)"
    "\<exists>b. ls_backups st' i = Some b"
proof -
  from assms obtain cs es where c: "copy_files e (ls_dir st) managed (bk_entries (backup_at (se_backup_id e) st)) [] = (Inr cs, es)"
      "i = se_backup_id e"
      "ls_backups st' i = Some \<lparr>bk_entries = es, bk_manifest = Manifest label (Some (se_now e)) (Some cs)\<rparr>"
    by (auto simp: create_sync_backup_def Let_def split: prod.splits sum.splits if_splits)
  then show "i = se_backup_id e" "\<exists>b. ls_backups st' i = Some b" by auto
  from copy_files_Inr [OF c(1)] c(3) show "holds_copy (backup_at i st') (ls_dir st)"
    by (auto simp: holds_copy_def backup_at_def present_def)
qed

lemma check_names_ok:
  "set ns \<subseteq> set managed \<Longrightarrow> distinct ns \<Longrightarrow> set ns \<inter> seen = {} \<Longrightarrow> check_names seen ns = Inr ()"
  by (induction seen ns rule: check_names.induct) (auto simp: set_managed)

lemma read_manifest_of_copy:
  assumes "holds_copy (backup_at i st) d"
  shows "\<exists>label t. read_backup_manifest i st = Inr \<lparr>si_id = i, si_label = label, si_created_at = t, si_files = present d\<rparr>"
proof -
  have "check_names {} (present d) = Inr ()"
    by (rule check_names_ok) (auto simp: present_def distinct_managed)
  with assms show ?thesis by (auto simp: holds_copy_def read_backup_manifest_def)
qed

lemma read_contents_copies:
  "\<forall>p \<in> set ps. b p = map_option Regular (content d p) \<and> content d p \<noteq> None \<Longrightarrow>
     read_contents b ps = Inr (map (\<lambda>p. (p, the (content d p))) ps)"
  by (induction ps) auto

lemma find_removals_Inr:
  "find_removals d files ps = Inr rs \<Longrightarrow> rs = filter (\<lambda>p. d p \<noteq> None \<and> p \<notin> set files) ps"
proof (induction d files ps arbitrary: rs rule: find_removals.induct)
  case (2 d files p ps)
  then show ?case by (cases "d p") (auto split: dir_node.splits if_splits, (case_tac "find_removals d files ps"; auto)+)
qed simp

lemma write_all_frame: "write_all e ps d = (r, d') \<Longrightarrow> p \<notin> fst ` set ps \<Longrightarrow> d' p = d p"
proof (induction ps arbitrary: d)
  case (Cons x ps)
  obtain q b where x: "x = (q, b)" by (cases x)
  show ?case
  proof (cases "se_cannot_write e q \<or> d q = Some Folder")
    case False
    with Cons.prems x have "write_all e ps (d(q := Some (Regular b))) = (r, d')" by (simp add: replace_file_def)
    from Cons.IH [OF this] Cons.prems x show ?thesis by simp
  qed (use Cons.prems x in \<open>auto simp: replace_file_def\<close>)
qed simp

lemma write_all_Inr:
  "write_all e ps d = (Inr (), d') \<Longrightarrow> distinct (map fst ps) \<Longrightarrow>
     d' p = (case map_of ps p of Some b \<Rightarrow> Some (Regular b) | None \<Rightarrow> d p)"
proof (induction ps arbitrary: d)
  case (Cons x ps)
  obtain q b where x: "x = (q, b)" by (cases x)
  from Cons.prems x have "write_all e ps (d(q := Some (Regular b))) = (Inr (), d')"
    by (auto simp: replace_file_def split: if_splits)
  from Cons.IH [OF this] Cons.prems(2) x
  have IH: "d' p = (case map_of ps p of Some b \<Rightarrow> Some (Regular b) | None \<Rightarrow> (d(q := Some (Regular b))) p)"
    by simp
  show ?case
  proof (cases "p = q")
    case True
    with Cons.prems(2) x have "map_of ps p = None" by (simp add: map_of_eq_None_iff)
    with IH True x show ?thesis by simp
  qed (use IH x in \<open>auto split: option.splits\<close>)
qed simp

lemma write_and_remove_Inr:
  "write_and_remove e ws rs d = (Inr (), d2) \<longleftrightarrow>
     (\<exists>d1. write_all e ws d = (Inr (), d1) \<and> remove_all e rs d1 = (Inr (), d2))"
  by (auto simp: write_and_remove_def split: prod.splits sum.splits)

lemma remove_all_step:
  "remove_all e (q # ps) d = (Inr (), d') \<Longrightarrow> remove_all e ps (d(q := None)) = (Inr (), d')"
  by (simp split: if_splits)

lemma remove_all_frame: "remove_all e ps d = (r, d') \<Longrightarrow> p \<notin> set ps \<Longrightarrow> d' p = d p"
proof (induction ps arbitrary: d)
  case (Cons q ps)
  show ?case
  proof (cases "se_cannot_remove e q \<or> d q = Some Folder")
    case False
    with Cons.prems have "remove_all e ps (d(q := None)) = (r, d')" by simp
    from Cons.IH [OF this] Cons.prems(2) show ?thesis by simp
  qed (use Cons.prems in auto)
qed simp

lemma remove_all_Inr: "remove_all e ps d = (Inr (), d') \<Longrightarrow> p \<in> set ps \<Longrightarrow> d' p = None"
proof (induction ps arbitrary: d)
  case (Cons q ps)
  note step = remove_all_step [OF Cons.prems(1)]
  show ?case
  proof (cases "p \<in> set ps")
    case False
    with remove_all_frame [OF step this] Cons.prems(2) show ?thesis by simp
  qed (rule Cons.IH [OF step])
qed simp

lemma write_and_remove_frame:
  "write_and_remove e ws rs d = (r, d') \<Longrightarrow> p \<notin> fst ` set ws \<Longrightarrow> p \<notin> set rs \<Longrightarrow> d' p = d p"
  by (auto simp: write_and_remove_def split: prod.splits sum.splits dest: write_all_frame)
    (metis remove_all_frame write_all_frame)

section \<open>Restoring what was backed up\<close>

text \<open>The last two steps of a restore, over the directory as it is then.\<close>

lemma restored_dir:
  assumes copy: "holds_copy b d0" and files: "read_contents (bk_entries b) (present d0) = Inr cs"
    and rs: "find_removals d (present d0) managed = Inr rs"
    and w: "write_all e cs d = (Inr (), d1)" and r: "remove_all e rs d1 = (Inr (), d2)"
  shows "\<forall>p. d2 p = (if p \<in> set managed then map_option Regular (content d0 p) else d p)"
proof
  fix p
  have cs: "cs = map (\<lambda>p. (p, the (content d0 p))) (present d0)"
    using files copy read_contents_copies [of "present d0" "bk_entries b" d0]
    by (auto simp: holds_copy_def present_def)
  have keys: "distinct (map fst cs)" using distinct_managed by (simp add: cs comp_def present_def)
  have look: "map_of cs p = (if p \<in> set (present d0) then content d0 p else None)"
    unfolding cs by (auto simp: map_of_map_restrict present_def)
  have d1: "d1 p = (if p \<in> set (present d0) then map_option Regular (content d0 p) else d p)"
    unfolding write_all_Inr [OF w keys] look by (auto simp: present_def)
  have rset: "p \<in> set rs \<longleftrightarrow> p \<in> set managed \<and> d p \<noteq> None \<and> p \<notin> set (present d0)"
    using find_removals_Inr [OF rs] by auto
  have "d2 p = (if p \<in> set rs then None else d1 p)"
    using remove_all_Inr [OF r] remove_all_frame [OF r] by auto
  then show "d2 p = (if p \<in> set managed then map_option Regular (content d0 p) else d p)"
    unfolding d1 rset by (auto simp: present_def)
qed

lemma restore_steps:
  assumes "restore_config_snapshot e i st = (Inr info, st')"
  obtains cs rs st1 d1 d2 where "read_backup_manifest i st = Inr info"
    "read_contents (bk_entries (backup_at i st)) (si_files info) = Inr cs"
    "find_removals (ls_dir st) (si_files info) managed = Inr rs"
    "create_sync_backup e (Some ''pre-restore'') st = (Inr (se_backup_id e), st1)"
    "write_all e cs (ls_dir st) = (Inr (), d1)" "remove_all e rs d1 = (Inr (), d2)" "st' = st1\<lparr>ls_dir := d2\<rparr>"
proof -
  from assms obtain cs rs k st1 d1 d2 where *: "read_backup_manifest i st = Inr info"
    "read_contents (bk_entries (backup_at i st)) (si_files info) = Inr cs"
    "find_removals (ls_dir st) (si_files info) managed = Inr rs"
    "create_sync_backup e (Some ''pre-restore'') st = (Inr k, st1)"
    "write_all e cs (ls_dir st1) = (Inr (), d1)" "remove_all e rs d1 = (Inr (), d2)" "st' = st1\<lparr>ls_dir := d2\<rparr>"
    by (auto simp: restore_config_snapshot_def backup_dir_for_id_def map_sum_Inr write_and_remove_Inr
        split: sum.splits prod.splits if_splits)
  with that create_sync_backup_frame(1) [OF *(4)] create_sync_backup_holds(1) [OF *(4)] show thesis by metis
qed

text \<open>
  Property (C29): a snapshot is restored exactly. Whatever happened to the configuration since the
  snapshot was taken, a restore gives every managed file its content of then, or removes it where
  there was none, and no other file changes.
\<close>

theorem snapshot_restores:
  assumes "create_named_snapshot e label st = (Inr info, st1)"
    "ls_backups st2 (si_id info) = ls_backups st1 (si_id info)"
    "restore_config_snapshot e' (si_id info) st2 = (Inr info', st3)"
  shows "\<forall>p. ls_dir st3 p = (if p \<in> set managed then map_option Regular (content (ls_dir st) p) else ls_dir st2 p)"
proof -
  from assms(1) obtain i where c: "create_sync_backup e (Some label) st = (Inr i, st1)"
      "read_backup_manifest i st1 = Inr info"
    by (auto simp: create_named_snapshot_def split: prod.splits sum.splits)
  note h = create_sync_backup_holds [OF c(1)]
  from read_manifest_of_copy [OF h(2)] c(2) have i: "si_id info = i" by auto
  with assms(2) have "backup_at i st2 = backup_at i st1" by (simp add: backup_at_def)
  with h(2) have copy: "holds_copy (backup_at i st2) (ls_dir st)" by simp
  from restore_steps [OF assms(3) [unfolded i]] obtain cs rs st4 d1 d2 where r:
    "read_backup_manifest i st2 = Inr info'"
    "read_contents (bk_entries (backup_at i st2)) (si_files info') = Inr cs"
    "find_removals (ls_dir st2) (si_files info') managed = Inr rs"
    "write_all e' cs (ls_dir st2) = (Inr (), d1)" "remove_all e' rs d1 = (Inr (), d2)" "st3 = st4\<lparr>ls_dir := d2\<rparr>"
    by metis
  from read_manifest_of_copy [OF copy] r(1) have "si_files info' = present (ls_dir st)" by auto
  with r restored_dir [OF copy] show ?thesis by simp
qed

text \<open>
  What a change of the configuration leaves: nothing but managed files differ, and where one does,
  the backup just taken holds the state before.
\<close>

definition undoable :: "sync_env \<Rightarrow> local_state \<Rightarrow> local_state \<Rightarrow> bool" where
  "undoable e st st' \<longleftrightarrow>
     (\<forall>p. p \<notin> set managed \<longrightarrow> ls_dir st' p = ls_dir st p) \<and>
     (ls_dir st' = ls_dir st \<or> holds_copy (backup_at (se_backup_id e) st') (ls_dir st))"

lemma undoable_same: "ls_dir st' = ls_dir st \<Longrightarrow> undoable e st st'"
  by (simp add: undoable_def)

lemma undoable_after_backup:
  assumes "create_sync_backup e label st = (Inr i, st1)" "\<And>p. p \<notin> set managed \<Longrightarrow> d p = ls_dir st p"
  shows "undoable e st (st1\<lparr>ls_dir := d\<rparr>)"
  using create_sync_backup_holds [OF assms(1)] assms(2) by (auto simp: undoable_def backup_at_def)

lemma read_contents_keys: "read_contents b ps = Inr cs \<Longrightarrow> map fst cs = ps"
  by (induction b ps arbitrary: cs rule: read_contents.induct)
    (auto simp: map_sum_Inr split: option.splits dir_node.splits)

lemma manifest_files_managed: "read_backup_manifest i st = Inr info \<Longrightarrow> set (si_files info) \<subseteq> set managed"
proof -
  have "check_names seen ns = Inr () \<Longrightarrow> set ns \<subseteq> set managed" for seen ns
    by (induction seen ns rule: check_names.induct) (auto simp: set_managed split: if_splits)
  then show "read_backup_manifest i st = Inr info \<Longrightarrow> set (si_files info) \<subseteq> set managed"
    by (auto simp: read_backup_manifest_def split: manifest.splits option.splits sum.splits) blast
qed

lemma restore_undoable:
  assumes "restore_config_snapshot e i st = (r, st')"
  shows "undoable e st st'"
proof (cases "ls_dir st' = ls_dir st")
  case False
  then obtain info cs rs j st1 d r1 where *: "read_backup_manifest i st = Inr info"
    "read_contents (bk_entries (backup_at i st)) (si_files info) = Inr cs"
    "find_removals (ls_dir st) (si_files info) managed = Inr rs"
    "create_sync_backup e (Some ''pre-restore'') st = (Inr j, st1)"
    "write_and_remove e cs rs (ls_dir st1) = (r1, d)" "st' = st1\<lparr>ls_dir := d\<rparr>"
    using assms by (auto simp: restore_config_snapshot_def backup_dir_for_id_def
        dest: create_sync_backup_frame(1) split: sum.splits prod.splits if_splits)
  have "fst ` set cs \<subseteq> set managed"
    using read_contents_keys [OF *(2)] manifest_files_managed [OF *(1)] by (metis image_set)
  moreover have "set rs \<subseteq> set managed" using find_removals_Inr [OF *(3)] by auto
  ultimately have "d p = ls_dir st p" if "p \<notin> set managed" for p
    using write_and_remove_frame [OF *(5), of p] create_sync_backup_frame(1) [OF *(4)] that by auto
  then show ?thesis using undoable_after_backup [OF *(4), of d] *(6) by simp
qed (rule undoable_same)

lemma write_template_frame:
  "write_template e fs d = (r, d') \<Longrightarrow> p \<notin> fst ` set fs \<Longrightarrow> d' p = d p"
proof (induction fs arbitrary: d)
  case (Cons x fs)
  obtain q b where x: "x = (q, b)" by (cases x)
  show ?case
  proof (cases "se_cannot_write e q \<or> d q = Some Folder")
    case False
    with Cons.prems x obtain n where "write_template e fs (d(q := n)) = (r, d')" by (auto split: if_splits)
    from Cons.IH [OF this] Cons.prems x show ?thesis by simp
  qed (use Cons.prems x in auto)
qed simp

lemma check_template_names: "check_template fs = Inr () \<Longrightarrow> fst ` set fs \<subseteq> set SYNCABLE_FILES"
  by (induction fs rule: check_template.induct) (auto split: if_splits)

lemma template_undoable:
  assumes "apply_config_template e fs st = (r, st')"
  shows "undoable e st st'"
proof -
  obtain c st1 where c: "create_sync_backup e (Some ''pre-template'') st = (c, st1)" by (metis surj_pair)
  obtain r1 d where w: "write_template e fs (ls_dir st1) = (r1, d)" by (metis surj_pair)
  note same = create_sync_backup_frame(1) [OF c]
  show ?thesis
  proof (cases "check_template fs = Inr () \<and> (\<exists>i. c = Inr i)")
    case True
    then obtain i where i: "check_template fs = Inr ()" "c = Inr i" by blast
    have frame: "d p = ls_dir st p" if "p \<notin> set managed" for p
      using write_template_frame [OF w, of p] check_template_names [OF i(1)] that same by (auto simp: set_managed)
    have "st' = st1 \<or> st' = st1\<lparr>ls_dir := d\<rparr>"
      using assms c i w by (simp add: apply_config_template_def create_named_snapshot_def split: sum.splits prod.splits)
    then show ?thesis
      using undoable_same [of st1 st e] undoable_after_backup [OF c [unfolded i(2)], of d] same frame by blast
  next
    case False
    then have "st' = st \<or> st' = st1"
      using assms c by (cases "check_template fs"; cases c) (auto simp: apply_config_template_def create_named_snapshot_def)
    then show ?thesis using undoable_same [of st' st e] same by auto
  qed
qed

text \<open>
  A restore and a template can be undone. Whether it succeeds or fails part way, only
  managed files differ, and where one does, the backup it took holds the configuration before it.
\<close>

theorem configuration_changes_are_undoable:
  "undoable e st (snd (restore_config_snapshot e i st)) \<and> undoable e st (snd (apply_config_template e fs st))"
  by (rule conjI; rule restore_undoable template_undoable; rule prod.collapse [symmetric])

section \<open>When they succeed\<close>

lemma copy_files_succeeds:
  "(\<And>q. \<not> se_cannot_write e q) \<Longrightarrow> \<exists>cs b'. copy_files e d ps b copied = (Inr cs, b')"
  by (induction ps arbitrary: b copied) (auto split: option.splits)

lemma create_sync_backup_succeeds:
  assumes "\<And>q. \<not> se_cannot_write e q"
  shows "\<exists>st'. create_sync_backup e label st = (Inr (se_backup_id e), st')"
proof -
  obtain cs b' where "copy_files e (ls_dir st) managed (bk_entries (backup_at (se_backup_id e) st)) [] = (Inr cs, b')"
    using copy_files_succeeds [OF assms] by blast
  then show ?thesis by (simp add: create_sync_backup_def Let_def assms)
qed

lemma find_removals_succeeds:
  "\<forall>p \<in> set ps. d p = None \<or> (\<exists>b. d p = Some (Regular b)) \<Longrightarrow> \<exists>rs. find_removals d files ps = Inr rs"
  by (induction ps) auto

lemma write_all_succeeds:
  assumes "\<And>q. \<not> se_cannot_write e q"
  shows "\<forall>p \<in> fst ` set ws. d p \<noteq> Some Folder \<Longrightarrow> \<exists>d'. write_all e ws d = (Inr (), d')"
proof (induction ws arbitrary: d)
  case (Cons x ws)
  obtain q b where x: "x = (q, b)" by (cases x)
  with Cons.prems have "\<forall>p \<in> fst ` set ws. (d(q := Some (Regular b))) p \<noteq> Some Folder" by auto
  from Cons.IH [of "d(q := Some (Regular b))", OF this] Cons.prems x show ?case
    by (auto simp: replace_file_def assms simp del: fun_upd_apply)
qed simp

lemma remove_all_succeeds:
  assumes "\<And>q. \<not> se_cannot_remove e q"
  shows "\<forall>p \<in> set ps. d p \<noteq> Some Folder \<Longrightarrow> \<exists>d'. remove_all e ps d = (Inr (), d')"
  by (induction ps arbitrary: d) (auto simp: assms)

lemma restore_succeeds:
  assumes faults: "\<And>q. \<not> se_cannot_write e q" "\<And>q. \<not> se_cannot_remove e q"
    and copy: "holds_copy (backup_at i st) d0" and id_ok: "backup_dir_for_id i = Inr i"
    and plain: "\<forall>p \<in> set managed. ls_dir st p = None \<or> (\<exists>b. ls_dir st p = Some (Regular b))"
  shows "\<exists>info st'. restore_config_snapshot e i st = (Inr info, st')"
proof -
  from read_manifest_of_copy [OF copy] obtain info where info: "read_backup_manifest i st = Inr info"
      "si_files info = present d0" by auto
  have cs: "read_contents (bk_entries (backup_at i st)) (present d0) = Inr (map (\<lambda>p. (p, the (content d0 p))) (present d0))"
    (is "_ = Inr ?cs") by (rule read_contents_copies) (use copy in \<open>auto simp: holds_copy_def present_def\<close>)
  from find_removals_succeeds [OF plain] obtain rs where rs: "find_removals (ls_dir st) (present d0) managed = Inr rs" by blast
  obtain st1 where st1: "create_sync_backup e (Some ''pre-restore'') st = (Inr (se_backup_id e), st1)"
    using create_sync_backup_succeeds [OF faults(1)] by blast
  note same = create_sync_backup_frame(1) [OF st1]
  have "fst ` set ?cs \<subseteq> set managed" by (auto simp: present_def)
  then obtain d1 where d1: "write_all e ?cs (ls_dir st1) = (Inr (), d1)"
    using write_all_succeeds [OF faults(1), of ?cs "ls_dir st1"] plain same by fastforce
  have "d1 p \<noteq> Some Folder" if "p \<in> set rs" for p
  proof -
    from that find_removals_Inr [OF rs] have "p \<in> set managed" "p \<notin> fst ` set ?cs" by (auto simp: image_image)
    with write_all_frame [OF d1] plain same show ?thesis by fastforce
  qed
  then obtain d2 where d2: "remove_all e rs d1 = (Inr (), d2)"
    using remove_all_succeeds [OF faults(2), of rs d1] by blast
  have "write_and_remove e ?cs rs (ls_dir st1) = (Inr (), d2)" using d1 d2 by (simp add: write_and_remove_def)
  then show ?thesis using id_ok info cs rs st1 by (simp add: restore_config_snapshot_def)
qed

definition plain_env :: sync_env where
  "plain_env =
     \<lparr>se_sha = id, se_encode = (\<lambda>_. []), se_decode = (\<lambda>_. None), se_cipher = toy_cipher,
      se_entropy = (\<lambda>_. (Some toy_salt, Some toy_nonce)), se_now = 0, se_uuid = ''u1'', se_backup_id = ''sync-1'',
      se_cannot_write = (\<lambda>_. False), se_cannot_remove = (\<lambda>_. False)\<rparr>"

lemma snapshot_restores_witness:
  "\<exists>info st1 info' st3. create_named_snapshot plain_env ''before''
       \<lparr>ls_dir = [''policy.toml'' \<mapsto> Regular ''old''], ls_backups = Map.empty\<rparr> = (Inr info, st1) \<and>
     restore_config_snapshot (plain_env\<lparr>se_backup_id := ''sync-2''\<rparr>) (si_id info)
       (st1\<lparr>ls_dir := [''policy.toml'' \<mapsto> Regular ''new'', ''known_hosts.json'' \<mapsto> Regular ''k'']\<rparr>) = (Inr info', st3) \<and>
     ls_dir st3 ''policy.toml'' = Some (Regular ''old'') \<and> ls_dir st3 ''known_hosts.json'' = Some (Regular ''k'')"
proof -
  let ?st = "\<lparr>ls_dir = [''policy.toml'' \<mapsto> Regular ''old''], ls_backups = Map.empty\<rparr>"
  obtain st1 where c: "create_sync_backup plain_env (Some ''before'') ?st = (Inr ''sync-1'', st1)"
    using create_sync_backup_succeeds [of plain_env "Some ''before''" ?st] by (auto simp: plain_env_def)
  note copy = create_sync_backup_holds(2) [OF c]
  from read_manifest_of_copy [OF copy] obtain info where info: "read_backup_manifest ''sync-1'' st1 = Inr info"
      "si_id info = ''sync-1''" by auto
  with c have named: "create_named_snapshot plain_env ''before'' ?st = (Inr info, st1)"
    by (simp add: create_named_snapshot_def)
  let ?st2 = "st1\<lparr>ls_dir := [''policy.toml'' \<mapsto> Regular ''new'', ''known_hosts.json'' \<mapsto> Regular ''k'']\<rparr>"
  let ?e = "plain_env\<lparr>se_backup_id := ''sync-2''\<rparr>"
  from copy have copy2: "holds_copy (backup_at (si_id info) ?st2) (ls_dir ?st)" by (simp add: info backup_at_def)
  have "backup_dir_for_id (si_id info) = Inr (si_id info)" by (simp add: info backup_dir_for_id_def)
  moreover have "\<not> se_cannot_write ?e q" "\<not> se_cannot_remove ?e q" for q by (simp_all add: plain_env_def)
  moreover have "\<forall>p \<in> set managed. ls_dir ?st2 p = None \<or> (\<exists>b. ls_dir ?st2 p = Some (Regular b))" by simp
  ultimately obtain info' st3 where r: "restore_config_snapshot ?e (si_id info) ?st2 = (Inr info', st3)"
    using restore_succeeds [OF _ _ copy2, of ?e] by blast
  have m: "''policy.toml'' \<in> set managed" "''known_hosts.json'' \<notin> set managed"
    by (simp_all add: managed_def SYNCABLE_FILES_def SYNC_VERSION_FILE_def)
  from snapshot_restores [OF named _ r] m have "ls_dir st3 ''policy.toml'' = Some (Regular ''old'')"
      "ls_dir st3 ''known_hosts.json'' = Some (Regular ''k'')"
    by (simp_all add: content_def)
  with named r show ?thesis by blast
qed

end
