(* ===== verification/Webdav_Sync.thy ===== *)
theory Webdav_Sync
  imports Config_Snapshots
begin

text \<open>
  \<open>webdav_sync.rs\<close>: push, pull and status, over any remote that keeps the contract of \<open>SyncRemote\<close>.
\<close>

record sync_result =
  sr_direction :: str
  sr_global_version :: "64 word"
  sr_sync_id :: str
  sr_files :: "sync_file list"
  sr_backup :: str

section \<open>Push\<close>

text \<open>\<open>d\<close> is the directory as it is when the files are read again for the upload.\<close>

fun upload_files ::
  "sync_env \<Rightarrow> 's sync_remote \<Rightarrow> str \<Rightarrow> dir \<Rightarrow> sync_marker \<Rightarrow> sync_file list \<Rightarrow> 's \<Rightarrow> (sync_error + unit) \<times> 's" where
  "upload_files e R password d m [] s = (Inr (), s)"
| "upload_files e R password d m (f # fs) s =
     (case content d (sf_path f) of
        None \<Rightarrow> (Inl (CannotRead (sf_path f)), s)
      | Some bytes \<Rightarrow>
          (case encrypt_backup (se_cipher e) (fst (se_entropy e (sf_path f))) (snd (se_entropy e (sf_path f)))
                  password bytes of
             Inl err \<Rightarrow> (Inl (CannotEncrypt (sf_path f) err), s)
           | Inr blob \<Rightarrow>
               (case write_object R (remote_object_path m f) blob WriteMissing s of
                  (Inl err, s') \<Rightarrow> (Inl (TransportError err), s')
                | (Inr _, s') \<Rightarrow> upload_files e R password d m fs s')))"

text \<open>Without a version, the marker is read again and compared, and then written unconditionally.\<close>

definition commit_condition ::
  "sync_env \<Rightarrow> 's sync_remote \<Rightarrow> (sync_marker \<times> str option) option \<Rightarrow> 's \<Rightarrow>
   (sync_error + write_condition) \<times> 's" where
  "commit_condition e R remote_info s =
     (case remote_info of
        None \<Rightarrow> (Inr WriteMissing, s)
      | Some (expected, Some version) \<Rightarrow> (Inr (WriteVersion version), s)
      | Some (expected, None) \<Rightarrow>
          (case get_remote_marker e R s of
             (Inl err, s') \<Rightarrow> (Inl err, s')
           | (Inr None, s') \<Rightarrow> (Inl MarkerDisappeared, s')
           | (Inr (Some (current, _)), s') \<Rightarrow>
               if same_marker (se_sha e) current expected then (Inr WriteAny, s') else (Inl MarkerChanged, s')))"

text \<open>The upload and the commit, once the backup is taken.\<close>

definition upload_and_commit ::
  "sync_env \<Rightarrow> 's sync_remote \<Rightarrow> str \<Rightarrow> dir \<Rightarrow> (sync_marker \<times> str option) option \<Rightarrow> sync_marker \<Rightarrow> 's \<Rightarrow>
   (sync_error + unit) \<times> 's" where
  "upload_and_commit e R password d remote_info m s =
     (case upload_files e R password d m (sm_files m) s of
        (Inl err, s1) \<Rightarrow> (Inl err, s1)
      | (Inr _, s1) \<Rightarrow>
     (case commit_condition e R remote_info s1 of
        (Inl err, s2) \<Rightarrow> (Inl err, s2)
      | (Inr condition, s2) \<Rightarrow>
     (case write_object R SYNC_VERSION_FILE (se_encode e m) condition s2 of
        (Inl err, s3) \<Rightarrow> (Inl (TransportError err), s3)
      | (Inr _, s3) \<Rightarrow> (Inr (), s3))))"

definition push_refused :: "bool \<Rightarrow> sync_state \<Rightarrow> bool" where
  "push_refused force state \<longleftrightarrow> \<not> force \<and> state \<in> {RemoteAhead, Diverged, UnknownState}"

text \<open>\<open>meanwhile\<close> is what others do to the directory between its inventory and the upload.\<close>

definition sync_push ::
  "sync_env \<Rightarrow> 's sync_remote \<Rightarrow> str option \<Rightarrow> bool \<Rightarrow> (dir \<Rightarrow> dir) \<Rightarrow> local_state \<Rightarrow> 's \<Rightarrow>
   (sync_error + sync_result) \<times> local_state \<times> 's" where
  "sync_push e R sync_password force meanwhile st s =
     (case sync_password of
        None \<Rightarrow> (Inl NoSyncPassword, st, s)
      | Some password \<Rightarrow>
     (case ensure_layout R s of
        (Inl err, s1) \<Rightarrow> (Inl (TransportError err), st, s1)
      | (Inr _, s1) \<Rightarrow>
     (case get_remote_marker e R s1 of
        (Inl err, s2) \<Rightarrow> (Inl err, st, s2)
      | (Inr remote_info, s2) \<Rightarrow>
     (case load_local_sync_marker e (ls_dir st) of
        Inl err \<Rightarrow> (Inl err, st, s2)
      | Inr local_marker \<Rightarrow>
          let files = collect_sync_files (se_sha e) (ls_dir st);
              state = classify_sync_state (se_sha e) (portable_config_digest (se_sha e) files) local_marker
                        (map_option fst remote_info)
          in if push_refused force state then (Inl (SyncConflict state), st, s2)
             else
     (case create_sync_backup e None st of
        (Inl err, st1) \<Rightarrow> (Inl err, st1, s2)
      | (Inr bk, st1) \<Rightarrow>
          let m = new_marker e (next_global_version (map_option fst remote_info) local_marker) ''push'' files;
              st2 = st1\<lparr>ls_dir := meanwhile (ls_dir st1)\<rparr>
          in
     (case upload_and_commit e R password (ls_dir st2) remote_info m s2 of
        (Inl err, s3) \<Rightarrow> (Inl err, st2, s3)
      | (Inr _, s3) \<Rightarrow>
     (case write_local_marker e m (ls_dir st2) of
        (Inl err, d) \<Rightarrow> (Inl err, st2\<lparr>ls_dir := d\<rparr>, s3)
      | (Inr _, d) \<Rightarrow>
          (Inr \<lparr>sr_direction = ''push'', sr_global_version = sm_global_version m, sr_sync_id = sm_sync_id m,
                sr_files = files, sr_backup = bk\<rparr>, st2\<lparr>ls_dir := d\<rparr>, s3))))))))"

section \<open>Pull\<close>

text \<open>The plain text of an object: an object that is not an envelope is taken as it is.\<close>

definition open_object :: "sync_env \<Rightarrow> str option \<Rightarrow> str \<Rightarrow> backup_error + str" where
  "open_object e sync_password bytes =
     (case sync_password of
        Some pw \<Rightarrow> if is_encrypted_backup bytes then decrypt_backup (se_cipher e) pw bytes else Inr bytes
      | None \<Rightarrow> Inr bytes)"

fun download_files ::
  "sync_env \<Rightarrow> 's sync_remote \<Rightarrow> str option \<Rightarrow> sync_marker \<Rightarrow> sync_file list \<Rightarrow> 's \<Rightarrow>
   (sync_error + (str \<times> str) list) \<times> 's" where
  "download_files e R sync_password m [] s = (Inr [], s)"
| "download_files e R sync_password m (f # fs) s =
     (case read_object R (remote_object_path m f) s of
        (Inl err, s') \<Rightarrow> (Inl (TransportError err), s')
      | (Inr None, s') \<Rightarrow> (Inl (ObjectMissing (sf_path f)), s')
      | (Inr (Some ob), s') \<Rightarrow>
          (case open_object e sync_password (ro_bytes ob) of
             Inl err \<Rightarrow> (Inl (CannotDecrypt (sf_path f) err), s')
           | Inr plaintext \<Rightarrow>
               if se_sha e plaintext \<noteq> sf_sha256 f then (Inl (ChecksumMismatch (sf_path f)), s')
               else (case download_files e R sync_password m fs s' of
                       (Inl err, s'') \<Rightarrow> (Inl err, s'')
                     | (Inr rest, s'') \<Rightarrow> (Inr ((sf_path f, plaintext) # rest), s''))))"

fun validate_remote_files :: "sync_file list \<Rightarrow> sync_error + unit" where
  "validate_remote_files [] = Inr ()"
| "validate_remote_files (f # fs) =
     (case validate_remote_file (sf_path f) of Inl err \<Rightarrow> Inl err | Inr _ \<Rightarrow> validate_remote_files fs)"

definition pull_refused :: "bool \<Rightarrow> sync_state \<Rightarrow> bool" where
  "pull_refused force state \<longleftrightarrow> \<not> force \<and> state \<in> {LocalAhead, Diverged, UnknownState}"

text \<open>The marker a pull leaves behind.\<close>

definition pulled_marker :: "sync_env \<Rightarrow> sync_marker \<Rightarrow> sync_marker" where
  "pulled_marker e r =
     r\<lparr>sm_schema_version := max (sm_schema_version r) 2, sm_direction := ''pull'', sm_sync_id := se_uuid e,
       sm_updated_at := se_now e, sm_app_version := SYNC_MARKER_CLIENT_VERSION,
       sm_files := applied_sync_files (sm_files r),
       sm_digest := Some (portable_config_digest (se_sha e) (applied_sync_files (sm_files r)))\<rparr>"

text \<open>The files in the set that the marker does not list.\<close>

definition stale_files :: "dir \<Rightarrow> str list \<Rightarrow> str list" where
  "stale_files d paths = filter (\<lambda>p. p \<notin> set paths \<and> exists d p) SYNCABLE_FILES"

text \<open>What a pull does to the directory: the files, the removals, the marker.\<close>

definition apply_snapshot ::
  "sync_env \<Rightarrow> sync_marker \<Rightarrow> (str \<times> str) list \<Rightarrow> dir \<Rightarrow> (sync_error + unit) \<times> dir" where
  "apply_snapshot e r downloaded d =
     (case write_and_remove e downloaded
             (stale_files d (map sf_path (applied_sync_files (sm_files r)))) d of
        (Inl err, d') \<Rightarrow> (Inl err, d')
      | (Inr _, d') \<Rightarrow> write_local_marker e (pulled_marker e r) d')"

definition sync_pull ::
  "sync_env \<Rightarrow> 's sync_remote \<Rightarrow> str option \<Rightarrow> bool \<Rightarrow> local_state \<Rightarrow> 's \<Rightarrow>
   (sync_error + sync_result) \<times> local_state \<times> 's" where
  "sync_pull e R sync_password force st s =
     (case get_remote_marker e R s of
        (Inl err, s1) \<Rightarrow> (Inl err, st, s1)
      | (Inr None, s1) \<Rightarrow> (Inl RemoteMarkerMissing, st, s1)
      | (Inr (Some (r, _)), s1) \<Rightarrow>
     (case validate_remote_files (sm_files r) of
        Inl err \<Rightarrow> (Inl err, st, s1)
      | Inr _ \<Rightarrow>
     (case load_local_sync_marker e (ls_dir st) of
        Inl err \<Rightarrow> (Inl err, st, s1)
      | Inr local_marker \<Rightarrow>
          let state = classify_sync_state (se_sha e) (current_portable_config_digest (se_sha e) (ls_dir st))
                        local_marker (Some r)
          in if pull_refused force state then (Inl (SyncConflict state), st, s1)
             else
     (case download_files e R sync_password r (applied_sync_files (sm_files r)) s1 of
        (Inl err, s2) \<Rightarrow> (Inl err, st, s2)
      | (Inr downloaded, s2) \<Rightarrow>
     (case get_remote_marker e R s2 of
        (Inl err, s3) \<Rightarrow> (Inl err, st, s3)
      | (Inr None, s3) \<Rightarrow> (Inl MarkerDisappeared, st, s3)
      | (Inr (Some (latest, _)), s3) \<Rightarrow>
          if \<not> same_marker (se_sha e) latest r then (Inl MarkerChanged, st, s3)
          else
     (case create_sync_backup e None st of
        (Inl err, st1) \<Rightarrow> (Inl err, st1, s3)
      | (Inr bk, st1) \<Rightarrow>
     (case apply_snapshot e r downloaded (ls_dir st1) of
        (Inl err, d) \<Rightarrow> (Inl err, st1\<lparr>ls_dir := d\<rparr>, s3)
      | (Inr _, d) \<Rightarrow>
          (Inr \<lparr>sr_direction = ''pull'', sr_global_version = sm_global_version r, sr_sync_id = se_uuid e,
                sr_files = applied_sync_files (sm_files r), sr_backup = bk\<rparr>,
           st1\<lparr>ls_dir := d\<rparr>, s3))))))))"

section \<open>Status\<close>

record sync_status =
  ss_local :: "sync_marker option"
  ss_remote :: "sync_marker option"
  ss_state :: sync_state
  ss_local_digest :: str
  ss_remote_digest :: "str option"
  ss_base_digest :: "str option"
  ss_metadata_errors :: "sync_error list"

text \<open>A summary is the text of the state and the errors.\<close>

definition sync_status_of ::
  "sync_env \<Rightarrow> 's sync_remote \<Rightarrow> local_state \<Rightarrow> 's \<Rightarrow> (sync_error + sync_status) \<times> 's" where
  "sync_status_of e R st s =
     (let (local_marker, errors) =
        (case load_local_sync_marker e (ls_dir st) of Inr m \<Rightarrow> (m, []) | Inl err \<Rightarrow> (None, [err]))
      in case read_object R SYNC_VERSION_FILE s of
           (Inl err, s') \<Rightarrow> (Inl (TransportError err), s')
         | (Inr ob, s') \<Rightarrow>
             let (remote_marker, errors) =
                   (case ob of
                      None \<Rightarrow> (None, errors)
                    | Some ob \<Rightarrow>
                        (case parse_marker e (ro_bytes ob) of
                           Inr m \<Rightarrow> (Some m, errors)
                         | Inl err \<Rightarrow> (None, errors @ [err])));
                 local_digest = current_portable_config_digest (se_sha e) (ls_dir st)
             in (Inr \<lparr>ss_local = local_marker, ss_remote = remote_marker,
                   ss_state = (if errors = [] then classify_sync_state (se_sha e) local_digest local_marker remote_marker
                               else UnknownState),
                   ss_local_digest = local_digest,
                   ss_remote_digest = map_option (sync_marker_digest (se_sha e)) remote_marker,
                   ss_base_digest = map_option (sync_marker_digest (se_sha e)) local_marker,
                   ss_metadata_errors = errors\<rparr>, s'))"

end
