(* ===== verification/Sync_Stores.thy ===== *)
theory Sync_Stores
  imports Webdav_Sync
begin

text \<open>
  Remotes as push and pull use them: one that nobody else uses, as the locale \<open>quiet_store\<close>, and the
  remote of the tests of \<open>webdav_sync.rs\<close>, which keeps both contracts.
\<close>

section \<open>A remote nobody else uses\<close>

text \<open>
  Reads give what is stored, and a successful write stores its bytes and nothing else. Names with a
  leading slash are left out: a URL drops it.
\<close>

abbreviation plain_name :: "str \<Rightarrow> bool" where
  "plain_name p \<equiv> \<not> starts_with p ''/''"

locale quiet_store =
  fixes R :: "'s sync_remote"
    and view :: "'s \<Rightarrow> str \<Rightarrow> remote_object option"
  assumes quiet_layout: "view (snd (ensure_layout R s)) = view s"
    and quiet_read: "\<exists>s'. read_object R p s = (Inr (view s p), s') \<and> view s' = view s"
    and quiet_write: "write_object R p b c s = (Inr (), s') \<Longrightarrow> plain_name p \<Longrightarrow>
      \<exists>w. \<forall>q. plain_name q \<longrightarrow> view s' q = ((view s)(p \<mapsto> \<lparr>ro_bytes = b, ro_version = w\<rparr>)) q"
    and quiet_failure: "write_object R p b c s = (Inl err, s') \<Longrightarrow> view s' = view s"
begin

lemma quiet_marker:
  "\<exists>s'. get_remote_marker e R s =
     ((case view s SYNC_VERSION_FILE of
         None \<Rightarrow> Inr None
       | Some ob \<Rightarrow> map_sum id (\<lambda>m. Some (m, ro_version ob)) (parse_marker e (ro_bytes ob))), s') \<and> view s' = view s"
  using quiet_read [of SYNC_VERSION_FILE s] by (auto simp: get_remote_marker_def split: option.splits)

lemma quiet_write_at:
  assumes "write_object R p b c s = (Inr (), s')" "plain_name p"
  shows "\<exists>w. view s' p = Some \<lparr>ro_bytes = b, ro_version = w\<rparr>"
    "plain_name q \<Longrightarrow> q \<noteq> p \<Longrightarrow> view s' q = view s q"
  using quiet_write [OF assms] assms(2) by auto

text \<open>Every object an upload stores is an envelope that opens to the content of the file.\<close>

lemma upload_stores:
  assumes "upload_files e R pw d m fs s = (Inr (), s')" "seals (se_cipher e)"
    "\<And>p. drawn (fst (se_entropy e p)) (snd (se_entropy e p))"
    "\<And>f. plain_name (remote_object_path m f)" "distinct (map sf_path fs)"
  shows "\<forall>f \<in> set fs. \<exists>ob. view s' (remote_object_path m f) = Some ob \<and>
    (\<exists>b. content d (sf_path f) = Some b \<and> is_encrypted_backup (ro_bytes ob) \<and>
       decrypt_backup (se_cipher e) pw (ro_bytes ob) = Inr b)"
    "plain_name q \<Longrightarrow> q \<notin> remote_object_path m ` set fs \<Longrightarrow> view s' q = view s q"
proof -
  have inj: "remote_object_path m f = remote_object_path m g \<longleftrightarrow> sf_path f = sf_path g" for f g
    by (simp add: remote_object_path_def split: option.splits)
  have "(\<forall>f \<in> set fs. \<exists>ob. view s' (remote_object_path m f) = Some ob \<and>
      (\<exists>b. content d (sf_path f) = Some b \<and> is_encrypted_backup (ro_bytes ob) \<and>
        decrypt_backup (se_cipher e) pw (ro_bytes ob) = Inr b)) \<and>
    (\<forall>q. plain_name q \<longrightarrow> q \<notin> remote_object_path m ` set fs \<longrightarrow> view s' q = view s q)"
    using assms(1, 5)
  proof (induction fs arbitrary: s)
    case (Cons f fs)
    let ?p = "remote_object_path m f" and ?r = "se_entropy e (sf_path f)"
    from Cons.prems(1) obtain b blob s1 where b: "content d (sf_path f) = Some b"
        "encrypt_backup (se_cipher e) (fst ?r) (snd ?r) pw b = Inr blob"
        "write_object R ?p blob WriteMissing s = (Inr (), s1)" "upload_files e R pw d m fs s1 = (Inr (), s')"
      by (auto split: option.splits sum.splits prod.splits)
    note IH = Cons.IH [OF b(4)] Cons.prems(2)
    note opens = encrypted_opens [OF assms(2) assms(3) b(2)]
    note stored = quiet_write_at [OF b(3) assms(4)]
    have fresh: "?p \<notin> remote_object_path m ` set fs" using Cons.prems(2) by (auto simp: inj)
    with IH assms(4) have "view s' ?p = view s1 ?p" by auto
    with stored(1) opens(1,2) b(1) IH stored(2) show ?case by auto
  qed simp
  then show "\<forall>f \<in> set fs. \<exists>ob. view s' (remote_object_path m f) = Some ob \<and>
      (\<exists>b. content d (sf_path f) = Some b \<and> is_encrypted_backup (ro_bytes ob) \<and>
        decrypt_backup (se_cipher e) pw (ro_bytes ob) = Inr b)"
    "plain_name q \<Longrightarrow> q \<notin> remote_object_path m ` set fs \<Longrightarrow> view s' q = view s q" by blast+
qed

text \<open>A download gives the contents of the objects whose hashes are those of the marker.\<close>

lemma download_gives:
  assumes "\<And>f. f \<in> set fs \<Longrightarrow> \<exists>ob. view s (remote_object_path m f) = Some ob \<and>
      open_object e pw (ro_bytes ob) = Inr (text_of f) \<and> se_sha e (text_of f) = sf_sha256 f"
  shows "\<exists>s'. download_files e R pw m fs s = (Inr (map (\<lambda>f. (sf_path f, text_of f)) fs), s') \<and> view s' = view s"
  using assms
proof (induction fs arbitrary: s)
  case (Cons f fs)
  from Cons.prems [of f] obtain ob where ob: "view s (remote_object_path m f) = Some ob"
      "open_object e pw (ro_bytes ob) = Inr (text_of f)" "se_sha e (text_of f) = sf_sha256 f" by auto
  from quiet_read [of "remote_object_path m f" s] ob(1) obtain s1 where
      s1: "read_object R (remote_object_path m f) s = (Inr (Some ob), s1)" "view s1 = view s" by auto
  from Cons.IH [of s1] Cons.prems s1(2) obtain s2 where
      "download_files e R pw m fs s1 = (Inr (map (\<lambda>f. (sf_path f, text_of f)) fs), s2)" "view s2 = view s1" by auto
  with ob s1 show ?case by simp
qed simp

end

section \<open>The remote of the tests\<close>

text \<open>\<open>FakeRemote\<close>: objects with a counter as version; a flag makes every upload touch the marker.\<close>

record fake_remote =
  fk_objects :: "str \<Rightarrow> (str \<times> nat) option"
  fk_mutate :: bool

definition fake_read :: "str \<Rightarrow> fake_remote \<Rightarrow> (remote_error + remote_object option) \<times> fake_remote" where
  "fake_read p s =
     (Inr (map_option (\<lambda>(b, v). \<lparr>ro_bytes = b, ro_version = Some (show_nat v)\<rparr>) (fk_objects s p)), s)"

definition fake_allows :: "write_condition \<Rightarrow> nat option \<Rightarrow> bool" where
  "fake_allows condition current =
     (case condition of
        WriteAny \<Rightarrow> True
      | WriteMissing \<Rightarrow> current = None
      | WriteVersion expected \<Rightarrow> map_option show_nat current = Some expected)"

definition fake_put :: "str \<Rightarrow> str \<Rightarrow> fake_remote \<Rightarrow> str \<Rightarrow> (str \<times> nat) option" where
  "fake_put p b s =
     (let objects = (fk_objects s)(p \<mapsto> (b, (case fk_objects s p of Some (_, v) \<Rightarrow> v | None \<Rightarrow> 0) + 1))
      in if fk_mutate s \<and> (starts_with p ''files/'' \<or> starts_with p ''versions/'')
         then objects(SYNC_VERSION_FILE := map_option (\<lambda>(b, v). (b, v + 1)) (objects SYNC_VERSION_FILE))
         else objects)"

definition fake_write ::
  "str \<Rightarrow> str \<Rightarrow> write_condition \<Rightarrow> fake_remote \<Rightarrow> (remote_error + unit) \<times> fake_remote" where
  "fake_write p b condition s =
     (if fake_allows condition (map_option snd (fk_objects s p))
      then (Inr (), s\<lparr>fk_objects := fake_put p b s\<rparr>)
      else (Inl (ChangedConcurrently p), s))"

definition fake :: "fake_remote sync_remote" where
  "fake = \<lparr>ensure_layout = (\<lambda>s. (Inr (), s)), read_object = fake_read, write_object = fake_write\<rparr>"

definition fake_view :: "fake_remote \<Rightarrow> str \<Rightarrow> remote_object option" where
  "fake_view s p = map_option (\<lambda>(b, v). \<lparr>ro_bytes = b, ro_version = Some (show_nat v)\<rparr>) (fk_objects s p)"

text \<open>A version only grows, and the bytes change only with it.\<close>

definition fake_later :: "fake_remote \<Rightarrow> fake_remote \<Rightarrow> bool" where
  "fake_later s t \<longleftrightarrow> (\<forall>p b v. fk_objects s p = Some (b, v) \<longrightarrow>
     (\<exists>b' v'. fk_objects t p = Some (b', v') \<and> v \<le> v' \<and> (v' = v \<longrightarrow> b' = b)))"

lemma show_nat_inj: "show_nat m = show_nat n \<longleftrightarrow> m = n"
  using digits_value_show by (metis option.inject)

lemma fake_later_trans:
  assumes "fake_later s t" "fake_later t u"
  shows "fake_later s u"
  unfolding fake_later_def
proof (intro allI impI)
  fix p b v assume "fk_objects s p = Some (b, v)"
  with assms(1) obtain b' v' where 1: "fk_objects t p = Some (b', v')" "v \<le> v'" "v' = v \<longrightarrow> b' = b"
    unfolding fake_later_def by blast
  with assms(2) obtain b'' v'' where "fk_objects u p = Some (b'', v'')" "v' \<le> v''" "v'' = v' \<longrightarrow> b'' = b'"
    unfolding fake_later_def by blast
  with 1 show "\<exists>b' v'. fk_objects u p = Some (b', v') \<and> v \<le> v' \<and> (v' = v \<longrightarrow> b' = b)"
    by (intro exI [of _ b''] exI [of _ v'']) auto
qed

lemma fake_put_at: "\<exists>v. fake_put p b s p = Some (b, v) \<and> (\<forall>b' v'. fk_objects s p = Some (b', v') \<longrightarrow> v' < v)"
  by (auto simp: fake_put_def Let_def)

lemma fake_put_other:
  "q \<noteq> p \<Longrightarrow> fake_put p b s q = fk_objects s q \<or> fake_put p b s q = map_option (\<lambda>(b, v). (b, v + 1)) (fk_objects s q)"
  by (auto simp: fake_put_def Let_def)

lemma fake_write_later: "fake_later s (snd (fake_write p b c s))"
proof -
  have "fake_later s (s\<lparr>fk_objects := fake_put p b s\<rparr>)"
    unfolding fake_later_def
  proof (intro allI impI)
    fix q b' v assume q: "fk_objects s q = Some (b', v)"
    show "\<exists>b'' v'. fk_objects (s\<lparr>fk_objects := fake_put p b s\<rparr>) q = Some (b'', v') \<and> v \<le> v' \<and> (v' = v \<longrightarrow> b'' = b')"
      using q fake_put_at [of p b s] fake_put_other [of q p b s] by (cases "q = p") auto
  qed
  moreover have "fake_later s s" by (simp add: fake_later_def)
  ultimately show ?thesis by (simp add: fake_write_def)
qed

lemma fake_write_at:
  assumes "fake_write p b c s = (Inr (), s')"
  shows "\<exists>w. fake_view s' p = Some \<lparr>ro_bytes = b, ro_version = w\<rparr>" "c = WriteMissing \<Longrightarrow> fake_view s p = None"
    "c = WriteVersion v \<Longrightarrow> \<exists>b'. fake_view s p = Some \<lparr>ro_bytes = b', ro_version = Some v\<rparr>"
  using assms fake_put_at [of p b s]
  by (auto simp: fake_write_def fake_view_def fake_allows_def split: if_splits)

interpretation fake: versioned_store fake fake_view fake_later
proof
  show "\<exists>t. fake_later s t \<and> fake_later t s' \<and> fake_view t p = ob"
    if "read_object fake p s = (Inr ob, s')" for p s ob s'
    using that by (intro exI [of _ s]) (auto simp: fake_def fake_read_def fake_view_def fake_later_def)
  show "\<exists>t t' w. fake_later s t \<and> fake_later t t' \<and> fake_later t' s' \<and>
      fake_view t' p = Some \<lparr>ro_bytes = b, ro_version = w\<rparr> \<and> (c = WriteMissing \<longrightarrow> fake_view t p = None) \<and>
      (\<forall>v. c = WriteVersion v \<longrightarrow> (\<exists>b'. fake_view t p = Some \<lparr>ro_bytes = b', ro_version = Some v\<rparr>))"
    if "write_object fake p b c s = (Inr (), s')" for p b c s s'
  proof -
    from that have w: "fake_write p b c s = (Inr (), s')" by (simp add: fake_def)
    moreover have "fake_later s s" "fake_later s' s'" by (auto simp: fake_later_def)
    ultimately show ?thesis using fake_write_later [of s p b c] fake_write_at [OF w] by (metis snd_conv)
  qed
  show "b' = b" if "fake_later s t" "fake_view s p = Some \<lparr>ro_bytes = b, ro_version = Some v\<rparr>"
    "fake_view t p = Some \<lparr>ro_bytes = b', ro_version = Some v\<rparr>" for s t p b b' v
    using that unfolding fake_later_def fake_view_def by (auto simp: show_nat_inj) (metis show_nat_inj Pair_inject option.inject)
qed (simp_all add: fake_def fake_read_def fake_later_trans fake_write_later, simp_all add: fake_later_def)

text \<open>Without the flag, nobody else touches it.\<close>

definition calm :: "fake_remote sync_remote" where
  "calm = \<lparr>ensure_layout = (\<lambda>s. (Inr (), s)), read_object = fake_read,
     write_object = (\<lambda>p b c s. fake_write p b c (s\<lparr>fk_mutate := False\<rparr>))\<rparr>"

lemma fake_view_mutate [simp]: "fake_view (s\<lparr>fk_mutate := m\<rparr>) = fake_view s"
  by (simp add: fake_view_def fun_eq_iff)

lemma calm_write:
  assumes "fake_write p b c (s\<lparr>fk_mutate := False\<rparr>) = (r, s')"
  shows "if r = Inr () then \<exists>w. fake_view s' = (fake_view s)(p \<mapsto> \<lparr>ro_bytes = b, ro_version = w\<rparr>)
    else fake_view s' = fake_view s"
  using assms by (auto simp: fake_write_def fake_put_def fake_view_def fun_eq_iff split: if_splits)

interpretation calm: quiet_store calm fake_view
proof
  show "\<exists>w. \<forall>q. plain_name q \<longrightarrow> fake_view s' q = ((fake_view s)(p \<mapsto> \<lparr>ro_bytes = b, ro_version = w\<rparr>)) q"
    if "write_object calm p b c s = (Inr (), s')" "plain_name p" for p b c s s'
    using calm_write [of p b c s "Inr ()" s'] that by (auto simp: calm_def)
  show "fake_view s' = fake_view s" if "write_object calm p b c s = (Inl err, s')" for p b c s err s'
    using calm_write [of p b c s "Inl err" s'] that by (simp add: calm_def)
qed (simp_all add: calm_def fake_read_def fake_view_def)

end
