(* ===== verification/Sync_Laws.thy ===== *)
theory Sync_Laws
  imports Sync_Stores "HOL-Library.Countable"
begin

text \<open>
  What push and pull give: over a remote that keeps its contract, and against other clients.
\<close>

section \<open>Inventories and markers\<close>

lemma SYNCABLE_not_legacy: "p \<in> set SYNCABLE_FILES \<Longrightarrow> \<not> is_legacy_unsyncable_remote_file p"
  by (auto simp: SYNCABLE_FILES_def is_legacy_unsyncable_remote_file_def LEGACY_UNSYNCABLE_REMOTE_FILES_def)

lemma distinct_SYNCABLE: "distinct SYNCABLE_FILES"
  by (simp add: SYNCABLE_FILES_def)

lemma marker_not_SYNCABLE: "SYNC_VERSION_FILE \<notin> set SYNCABLE_FILES"
  by (simp add: SYNCABLE_FILES_def SYNC_VERSION_FILE_def)

definition entry_of :: "(str \<Rightarrow> str) \<Rightarrow> dir \<Rightarrow> str \<Rightarrow> sync_file" where
  "entry_of sha d p =
     \<lparr>sf_path = p, sf_bytes = length (the (content d p)), sf_sha256 = sha (the (content d p))\<rparr>"

lemma collect_entries:
  "collect_sync_files sha d = sort_key sf_path (map (entry_of sha d) (filter (\<lambda>p. content d p \<noteq> None) SYNCABLE_FILES))"
proof -
  have "List.map_filter (\<lambda>p. map_option (\<lambda>b. \<lparr>sf_path = p, sf_bytes = length b, sf_sha256 = sha b\<rparr>) (content d p)) ps =
      map (entry_of sha d) (filter (\<lambda>p. content d p \<noteq> None) ps)" for ps
    by (induction ps) (auto simp: map_filter_simps entry_of_def split: option.splits)
  then show ?thesis by (simp add: collect_sync_files_def)
qed

lemma in_collect:
  "f \<in> set (collect_sync_files sha d) \<longleftrightarrow>
     sf_path f \<in> set SYNCABLE_FILES \<and> content d (sf_path f) \<noteq> None \<and> f = entry_of sha d (sf_path f)"
  by (auto simp: collect_entries image_iff) (auto simp: entry_of_def)

lemma collect_path_ok:
  assumes "f \<in> set (collect_sync_files sha d)"
  shows "sf_path f \<in> set SYNCABLE_FILES \<and> content d (sf_path f) \<noteq> None \<and>
    sha (the (content d (sf_path f))) = sf_sha256 f"
proof -
  from assms have f: "sf_path f \<in> set SYNCABLE_FILES" "content d (sf_path f) \<noteq> None" "f = entry_of sha d (sf_path f)"
    unfolding in_collect by blast+
  from arg_cong [OF f(3), of sf_sha256] have "sf_sha256 f = sha (the (content d (sf_path f)))"
    by (simp add: entry_of_def)
  with f(1,2) show ?thesis by simp
qed

lemma collect_paths: "p \<in> sf_path ` set (collect_sync_files sha d) \<longleftrightarrow> p \<in> set SYNCABLE_FILES \<and> content d p \<noteq> None"
  by (auto simp: collect_entries entry_of_def image_iff)

lemma collect_distinct: "distinct (map sf_path (collect_sync_files sha d))"
  using distinct_SYNCABLE by (auto simp: collect_entries distinct_map inj_on_def entry_of_def)

lemma collect_applied: "applied_sync_files (collect_sync_files sha d) = collect_sync_files sha d"
  unfolding applied_sync_files_def filter_id_conv by (blast dest: collect_path_ok SYNCABLE_not_legacy)

lemma collect_cong:
  "\<forall>p \<in> set SYNCABLE_FILES. content d p = content d' p \<Longrightarrow> collect_sync_files sha d = collect_sync_files sha d'"
  unfolding collect_entries by (intro arg_cong [where f = "sort_key sf_path"] map_cong filter_cong) (auto simp: entry_of_def)

lemma validate_collect: "validate_remote_files fs = Inr ()" if "\<forall>f \<in> set fs. sf_path f \<in> set SYNCABLE_FILES"
  using that by (induction fs) (simp_all add: validate_remote_file_def)

lemma new_marker_simps [simp]:
  "sm_files (new_marker e v dir fs) = fs" "sm_schema_version (new_marker e v dir fs) = 2"
  "sm_digest (new_marker e v dir fs) = Some (portable_config_digest (se_sha e) fs)"
  "sync_marker_digest sha (new_marker e v dir fs) = portable_config_digest (se_sha e) fs"
  by (simp_all add: new_marker_def CURRENT_SYNC_SCHEMA_def sync_marker_digest_def)

text \<open>The library of markers and hashes: what was encoded is read back, and a hash is 64 hexadecimal digits.\<close>

definition faithful_env :: "sync_env \<Rightarrow> bool" where
  "faithful_env e \<longleftrightarrow> (\<forall>m. se_decode e (se_encode e m) = Some m) \<and>
     (\<forall>b. validate_digest_format (se_sha e b) = Inr ()) \<and>
     seals (se_cipher e) \<and> (\<forall>p. drawn (fst (se_entropy e p)) (snd (se_entropy e p)))"

lemma parse_new_marker:
  "faithful_env e \<Longrightarrow> parse_marker e (se_encode e (new_marker e v dir fs)) = Inr (new_marker e v dir fs)"
  by (simp add: faithful_env_def parse_marker_def validate_marker_schema_def portable_config_digest_def)

text \<open>The devices use the same libraries.\<close>

definition same_libraries :: "sync_env \<Rightarrow> sync_env \<Rightarrow> bool" where
  "same_libraries e f \<longleftrightarrow> se_sha f = se_sha e \<and> se_encode f = se_encode e \<and> se_decode f = se_decode e \<and>
     se_cipher f = se_cipher e"

lemma parse_marker_cong: "same_libraries e f \<Longrightarrow> parse_marker f b = parse_marker e b"
  by (simp add: same_libraries_def parse_marker_def)

section \<open>The steps of a push\<close>

lemma push_steps:
  assumes "sync_push e R pw force meanwhile st s = (Inr res, st', s')"
  obtains password s1 s2 info l bk st1 m cond s4 s5 d where "pw = Some password"
    "ensure_layout R s = (Inr (), s1)" "get_remote_marker e R s1 = (Inr info, s2)"
    "load_local_sync_marker e (ls_dir st) = Inr l"
    "\<not> push_refused force (classify_sync_state (se_sha e) (current_portable_config_digest (se_sha e) (ls_dir st)) l (map_option fst info))"
    "create_sync_backup e None st = (Inr bk, st1)"
    "m = new_marker e (next_global_version (map_option fst info) l) ''push'' (collect_sync_files (se_sha e) (ls_dir st))"
    "upload_files e R password (meanwhile (ls_dir st)) m (sm_files m) s2 = (Inr (), s4)"
    "commit_condition e R info s4 = (Inr cond, s5)"
    "write_object R SYNC_VERSION_FILE (se_encode e m) cond s5 = (Inr (), s')"
    "write_local_marker e m (meanwhile (ls_dir st)) = (Inr (), d)" "st' = st1\<lparr>ls_dir := d\<rparr>"
proof -
  from assms obtain password where p: "pw = Some password" by (cases pw) (simp_all add: sync_push_def)
  obtain r1 s1 where e: "ensure_layout R s = (r1, s1)" by (cases "ensure_layout R s")
  with assms p have r1: "r1 = Inr ()" by (cases r1) (simp_all add: sync_push_def)
  obtain r2 s2 where g: "get_remote_marker e R s1 = (r2, s2)" by (cases "get_remote_marker e R s1")
  with assms p e r1 obtain info where r2: "r2 = Inr info" by (cases r2) (simp_all add: sync_push_def)
  from assms p e r1 g r2 obtain l where l: "load_local_sync_marker e (ls_dir st) = Inr l"
    by (cases "load_local_sync_marker e (ls_dir st)") (simp_all add: sync_push_def)
  let ?files = "collect_sync_files (se_sha e) (ls_dir st)"
  let ?state = "classify_sync_state (se_sha e) (current_portable_config_digest (se_sha e) (ls_dir st)) l (map_option fst info)"
  note step = assms [unfolded sync_push_def, simplified p e r1 g r2 l option.case sum.case prod.case Let_def
      current_portable_config_digest_def [symmetric]]
  from step have ok: "\<not> push_refused force ?state" by (auto split: if_splits)
  obtain r3 st1 where b: "create_sync_backup e None st = (r3, st1)" by (cases "create_sync_backup e None st")
  with step ok obtain bk where r3: "r3 = Inr bk" by (cases r3) simp_all
  note [simp] = create_sync_backup_frame(1) [OF b]
  let ?m = "new_marker e (next_global_version (map_option fst info) l) ''push'' ?files"
  obtain r4 s3 where u: "upload_and_commit e R password (meanwhile (ls_dir st)) info ?m s2 = (r4, s3)"
    by (cases "upload_and_commit e R password (meanwhile (ls_dir st)) info ?m s2")
  with step ok b r3 have r4: "r4 = Inr ()" by (cases r4) simp_all
  obtain r5 d where w: "write_local_marker e ?m (meanwhile (ls_dir st)) = (r5, d)"
    by (cases "write_local_marker e ?m (meanwhile (ls_dir st))")
  with step ok b r3 u r4 have r5: "r5 = Inr ()" and st': "st' = st1\<lparr>ls_dir := d\<rparr>" "s' = s3" by (cases r5; simp)+
  from u r4 obtain s4 cond s5 where "upload_files e R password (meanwhile (ls_dir st)) ?m (sm_files ?m) s2 = (Inr (), s4)"
    "commit_condition e R info s4 = (Inr cond, s5)"
    "write_object R SYNC_VERSION_FILE (se_encode e ?m) cond s5 = (Inr (), s3)"
    by (auto simp: upload_and_commit_def split: sum.splits prod.splits)
  with that p e r1 g r2 l ok b r3 w r5 st' show thesis by blast
qed

section \<open>What is pushed can be pulled\<close>

lemma new_object_path:
  "m = new_marker e v dir fs \<Longrightarrow> plain_name (remote_object_path m f) \<and> remote_object_path m f \<noteq> SYNC_VERSION_FILE"
  by (simp add: remote_object_path_def new_marker_def REMOTE_VERSIONS_DIR_def SYNC_VERSION_FILE_def)

lemma apply_snapshot_gives:
  assumes faults: "\<And>q. \<not> se_cannot_write e q" "\<And>q. \<not> se_cannot_remove e q"
    and plain: "\<forall>p \<in> set managed. d p \<noteq> Some Folder"
    and files: "sm_files r = collect_sync_files sha dA"
    and ws: "ws = map (\<lambda>f. (sf_path f, the (content dA (sf_path f)))) (sm_files r)"
  shows "\<exists>d'. apply_snapshot e r ws d = (Inr (), d') \<and> (\<forall>p. d' p =
    (if p = SYNC_VERSION_FILE then Some (Regular (se_encode e (pulled_marker e r)))
     else if p \<in> set SYNCABLE_FILES then
       (case content dA p of Some b \<Rightarrow> Some (Regular b) | None \<Rightarrow> if exists d p then None else d p)
     else d p))"
proof -
  let ?rs = "stale_files d (map sf_path (applied_sync_files (sm_files r)))"
  have keys: "map fst ws = map sf_path (sm_files r)" by (simp add: ws comp_def)
  have dist: "distinct (map fst ws)" unfolding keys files by (rule collect_distinct)
  have dom: "p \<in> fst ` set ws \<longleftrightarrow> p \<in> set SYNCABLE_FILES \<and> content dA p \<noteq> None" for p
    using collect_paths [of p sha dA] by (metis files keys list.set_map)
  have sub: "fst ` set ws \<subseteq> set managed" using dom by (auto simp: set_managed)
  obtain d1 where d1: "write_all e ws d = (Inr (), d1)"
    using write_all_succeeds [OF faults(1), of ws d] sub plain by blast
  have look: "map_of ws p = (if p \<in> fst ` set ws then content dA p else None)" for p
  proof (cases "p \<in> fst ` set ws")
    case True
    then obtain f where f: "f \<in> set (sm_files r)" "p = sf_path f" by (auto simp: ws)
    then have "(p, the (content dA p)) \<in> set ws" by (auto simp: ws)
    then have "map_of ws p = Some (the (content dA p))" using dist by simp
    with True dom show ?thesis by auto
  qed (simp add: map_of_eq_None_iff)
  have d1p: "d1 p = (if p \<in> fst ` set ws then map_option Regular (content dA p) else d p)" for p
    unfolding write_all_Inr [OF d1 dist] look by (auto simp: dom)
  have rset: "p \<in> set ?rs \<longleftrightarrow> p \<in> set SYNCABLE_FILES \<and> content dA p = None \<and> exists d p" for p
    using collect_paths [of p sha dA] by (auto simp: stale_files_def files collect_applied)
  then have "\<forall>p \<in> set ?rs. d1 p \<noteq> Some Folder" using plain by (auto simp: d1p dom set_managed)
  then obtain d2 where d2: "remove_all e ?rs d1 = (Inr (), d2)"
    using remove_all_succeeds [OF faults(2), of ?rs d1] by blast
  have d2p: "d2 p = (if p \<in> set ?rs then None else d1 p)" for p
    using remove_all_Inr [OF d2] remove_all_frame [OF d2] by auto
  have v: "d2 SYNC_VERSION_FILE = d SYNC_VERSION_FILE"
    using marker_not_SYNCABLE by (simp add: d2p rset d1p dom)
  have "apply_snapshot e r ws d = (Inr (), d2(SYNC_VERSION_FILE := Some (Regular (se_encode e (pulled_marker e r)))))"
    using d1 d2 v plain by (simp add: apply_snapshot_def write_and_remove_def write_local_marker_def replace_file_def
        faults set_managed)
  moreover have "(d2(SYNC_VERSION_FILE := Some (Regular (se_encode e (pulled_marker e r))))) p =
    (if p = SYNC_VERSION_FILE then Some (Regular (se_encode e (pulled_marker e r)))
     else if p \<in> set SYNCABLE_FILES then
       (case content dA p of Some b \<Rightarrow> Some (Regular b) | None \<Rightarrow> if exists d p then None else d p)
     else d p)" for p
    by (simp add: d2p rset d1p dom split: option.splits)
  ultimately show ?thesis by blast
qed

context quiet_store
begin

lemma quiet_condition:
  "commit_condition e R info s = (r, s') \<Longrightarrow> view s' = view s"
  using quiet_marker [of e s] unfolding commit_condition_def
  by (auto split: option.splits prod.splits sum.splits if_splits)

lemma quiet_get: "get_remote_marker e R s = (r, s') \<Longrightarrow> view s' = view s"
  using quiet_marker [of e s] by auto

text \<open>What a push leaves: the marker, and an envelope for every file.\<close>

lemma push_leaves:
  assumes push: "sync_push e R (Some pw) force meanwhile st s = (Inr res, st', s')"
    and env: "faithful_env e"
    and still: "\<forall>p \<in> set SYNCABLE_FILES. content (meanwhile (ls_dir st)) p = content (ls_dir st) p"
  obtains v where
    "\<exists>w. view s' SYNC_VERSION_FILE =
       Some \<lparr>ro_bytes = se_encode e (new_marker e v ''push'' (collect_sync_files (se_sha e) (ls_dir st))), ro_version = w\<rparr>"
    "\<forall>f \<in> set (collect_sync_files (se_sha e) (ls_dir st)).
       \<exists>ob. view s' (remote_object_path (new_marker e v ''push'' (collect_sync_files (se_sha e) (ls_dir st))) f) = Some ob \<and>
         is_encrypted_backup (ro_bytes ob) \<and>
         decrypt_backup (se_cipher e) pw (ro_bytes ob) = Inr (the (content (ls_dir st) (sf_path f)))"
proof -
  let ?files = "collect_sync_files (se_sha e) (ls_dir st)"
  obtain s2 info l m cond s4 s5 where
    m: "m = new_marker e (next_global_version (map_option fst info) l) ''push'' ?files"
    and up: "upload_files e R pw (meanwhile (ls_dir st)) m (sm_files m) s2 = (Inr (), s4)"
    and cond: "commit_condition e R info s4 = (Inr cond, s5)"
    and wr: "write_object R SYNC_VERSION_FILE (se_encode e m) cond s5 = (Inr (), s')"
    by (rule push_steps [OF push]) simp
  let ?v = "next_global_version (map_option fst info) l"
  from env have sealed: "seals (se_cipher e)" "\<And>p. drawn (fst (se_entropy e p)) (snd (se_entropy e p))"
    by (simp_all add: faithful_env_def)
  have plain: "plain_name (remote_object_path m f)" "remote_object_path m f \<noteq> SYNC_VERSION_FILE" for f
    using new_object_path [OF m] by blast+
  have "distinct (map sf_path (sm_files m))" by (simp add: m collect_distinct)
  note stored = upload_stores(1) [OF up sealed plain(1) this]
  have "plain_name SYNC_VERSION_FILE" by (simp add: SYNC_VERSION_FILE_def)
  note committed = quiet_write_at [OF wr this]
  have same: "view s' (remote_object_path m f) = view s4 (remote_object_path m f)" for f
    using committed(2) [OF plain] quiet_condition [OF cond] by simp
  show thesis
  proof (rule that [of ?v])
    show "\<exists>w. view s' SYNC_VERSION_FILE = Some \<lparr>ro_bytes = se_encode e (new_marker e ?v ''push'' ?files), ro_version = w\<rparr>"
      using committed(1) by (simp add: m)
    show "\<forall>f \<in> set ?files. \<exists>ob. view s' (remote_object_path (new_marker e ?v ''push'' ?files) f) = Some ob \<and>
         is_encrypted_backup (ro_bytes ob) \<and>
         decrypt_backup (se_cipher e) pw (ro_bytes ob) = Inr (the (content (ls_dir st) (sf_path f)))"
    proof
      fix f assume f: "f \<in> set ?files"
      with stored obtain ob b where "view s4 (remote_object_path m f) = Some ob"
          "content (meanwhile (ls_dir st)) (sf_path f) = Some b" "is_encrypted_backup (ro_bytes ob)"
          "decrypt_backup (se_cipher e) pw (ro_bytes ob) = Inr b"
        by (auto simp: m)
      moreover have "content (meanwhile (ls_dir st)) (sf_path f) = content (ls_dir st) (sf_path f)"
        using still collect_path_ok [OF f] by blast
      ultimately show "\<exists>ob. view s' (remote_object_path (new_marker e ?v ''push'' ?files) f) = Some ob \<and>
         is_encrypted_backup (ro_bytes ob) \<and>
         decrypt_backup (se_cipher e) pw (ro_bytes ob) = Inr (the (content (ls_dir st) (sf_path f)))"
        using same by (auto simp: m)
    qed
  qed
qed

text \<open>A pull of a marker whose objects open to the files of \<open>dA\<close>.\<close>

lemma pull_gives:
  assumes marker: "view s SYNC_VERSION_FILE = Some ob" "parse_marker e (ro_bytes ob) = Inr r"
    and files: "sm_files r = collect_sync_files (se_sha e) dA"
    and objects: "\<forall>f \<in> set (sm_files r). \<exists>ob. view s (remote_object_path r f) = Some ob \<and>
      open_object e pw (ro_bytes ob) = Inr (the (content dA (sf_path f)))"
    and faults: "\<And>q. \<not> se_cannot_write e q" "\<And>q. \<not> se_cannot_remove e q"
    and plain: "\<forall>p \<in> set managed. ls_dir st p \<noteq> Some Folder"
    and local_marker: "load_local_sync_marker e (ls_dir st) = Inr l"
    and allowed: "\<not> pull_refused force (classify_sync_state (se_sha e)
      (current_portable_config_digest (se_sha e) (ls_dir st)) l (Some r))"
  shows "\<exists>res st' s'. sync_pull e R pw force st s = (Inr res, st', s') \<and>
    (\<forall>p. ls_dir st' p =
      (if p = SYNC_VERSION_FILE then Some (Regular (se_encode e (pulled_marker e r)))
       else if p \<in> set SYNCABLE_FILES then
         (case content dA p of Some b \<Rightarrow> Some (Regular b)
          | None \<Rightarrow> if exists (ls_dir st) p then None else ls_dir st p)
       else ls_dir st p))"
proof -
  let ?text = "\<lambda>f. the (content dA (sf_path f))"
  have ok: "sf_path f \<in> set SYNCABLE_FILES" "se_sha e (?text f) = sf_sha256 f" if "f \<in> set (sm_files r)" for f
    using collect_path_ok [of f "se_sha e" dA] that by (simp_all add: files)
  have app: "applied_sync_files (sm_files r) = sm_files r" by (simp add: files collect_applied)
  from quiet_marker [of e s] marker obtain s1 where
      s1: "get_remote_marker e R s = (Inr (Some (r, ro_version ob)), s1)" "view s1 = view s" by auto
  have "\<exists>ob. view s1 (remote_object_path r f) = Some ob \<and> open_object e pw (ro_bytes ob) = Inr (?text f) \<and>
      se_sha e (?text f) = sf_sha256 f" if "f \<in> set (sm_files r)" for f
    using objects ok that s1(2) by auto
  from download_gives [OF this] obtain s2 where
      s2: "download_files e R pw r (sm_files r) s1 = (Inr (map (\<lambda>f. (sf_path f, ?text f)) (sm_files r)), s2)"
      "view s2 = view s1" by blast
  from quiet_marker [of e s2] marker s1(2) s2(2) obtain s3 where
      s3: "get_remote_marker e R s2 = (Inr (Some (r, ro_version ob)), s3)" by auto
  from create_sync_backup_succeeds [OF faults(1)] obtain st1 where
      bk: "create_sync_backup e None st = (Inr (se_backup_id e), st1)" by blast
  note [simp] = create_sync_backup_frame(1) [OF bk]
  from apply_snapshot_gives [OF faults plain files, OF refl] obtain d where
      d: "apply_snapshot e r (map (\<lambda>f. (sf_path f, ?text f)) (sm_files r)) (ls_dir st) = (Inr (), d)"
      "\<forall>p. d p = (if p = SYNC_VERSION_FILE then Some (Regular (se_encode e (pulled_marker e r)))
       else if p \<in> set SYNCABLE_FILES then
         (case content dA p of Some b \<Rightarrow> Some (Regular b)
          | None \<Rightarrow> if exists (ls_dir st) p then None else ls_dir st p)
       else ls_dir st p)" by blast
  have "validate_remote_files (sm_files r) = Inr ()" using ok(1) by (intro validate_collect) blast
  then have "sync_pull e R pw force st s = (Inr \<lparr>sr_direction = ''pull'', sr_global_version = sm_global_version r,
      sr_sync_id = se_uuid e, sr_files = sm_files r, sr_backup = se_backup_id e\<rparr>, st1\<lparr>ls_dir := d\<rparr>, s3)"
    using s1 s2 s3 bk d(1) local_marker allowed by (simp add: sync_pull_def app Let_def same_marker_def)
  with d(2) show ?thesis by simp
qed

end

lemma content_of_pulled:
  assumes "d' p = (case content dA p of Some b \<Rightarrow> Some (Regular b) | None \<Rightarrow> if exists d p then None else d p)"
  shows "content d' p = content dA p"
  using assms by (cases "content dA p"; cases "d p") (auto simp: content_def exists_def split: dir_node.splits)

lemma classify_pulled:
  "classify_sync_state sha (portable_config_digest sha (applied_sync_files (sm_files r))) (Some (pulled_marker e r)) (Some r) =
     (if sync_marker_digest sha r = portable_config_digest sha (applied_sync_files (sm_files r)) then InSync else Diverged)"
  if "se_sha e = sha"
  using that by (simp add: classify_sync_state_def sync_marker_digest_def pulled_marker_def)


section \<open>What a pull may change\<close>

lemma pull_changes:
  assumes "sync_pull e R pw force st s = (res, st', s')" "ls_dir st' \<noteq> ls_dir st"
  obtains r v s1 l downloaded s2 bk st1 u d where "get_remote_marker e R s = (Inr (Some (r, v)), s1)"
    "validate_remote_files (sm_files r) = Inr ()" "load_local_sync_marker e (ls_dir st) = Inr l"
    "\<not> pull_refused force (classify_sync_state (se_sha e) (current_portable_config_digest (se_sha e) (ls_dir st)) l (Some r))"
    "download_files e R pw r (applied_sync_files (sm_files r)) s1 = (Inr downloaded, s2)"
    "create_sync_backup e None st = (Inr bk, st1)" "apply_snapshot e r downloaded (ls_dir st) = (u, d)"
    "st' = st1\<lparr>ls_dir := d\<rparr>"
proof -
  obtain r1 s1 where g: "get_remote_marker e R s = (r1, s1)" by (cases "get_remote_marker e R s")
  with assms obtain r v where r1: "r1 = Inr (Some (r, v))"
    by (cases r1) (auto simp: sync_pull_def split: option.splits)
  from assms g r1 have v: "validate_remote_files (sm_files r) = Inr ()"
    by (cases "validate_remote_files (sm_files r)") (auto simp: sync_pull_def)
  from assms g r1 v obtain l where l: "load_local_sync_marker e (ls_dir st) = Inr l"
    by (cases "load_local_sync_marker e (ls_dir st)") (auto simp: sync_pull_def)
  note step = assms(1) [unfolded sync_pull_def, simplified g r1 v l option.case sum.case prod.case Let_def]
  from step assms(2) have ok: "\<not> pull_refused force (classify_sync_state (se_sha e)
      (current_portable_config_digest (se_sha e) (ls_dir st)) l (Some r))" by (auto split: if_splits)
  obtain r2 s2 where dl: "download_files e R pw r (applied_sync_files (sm_files r)) s1 = (r2, s2)"
    by (cases "download_files e R pw r (applied_sync_files (sm_files r)) s1")
  with step ok assms(2) obtain downloaded where r2: "r2 = Inr downloaded" by (cases r2) auto
  obtain r3 s3 where g2: "get_remote_marker e R s2 = (r3, s3)" by (cases "get_remote_marker e R s2")
  with step ok dl r2 assms(2) obtain latest v2 where r3: "r3 = Inr (Some (latest, v2))" "same_marker (se_sha e) latest r"
    by (cases r3) (auto split: option.splits if_splits)
  obtain r4 st1 where bk: "create_sync_backup e None st = (r4, st1)" by (cases "create_sync_backup e None st")
  note [simp] = create_sync_backup_frame(1) [OF bk]
  from step ok dl r2 g2 r3 bk assms(2) create_sync_backup_frame(1) [OF bk] obtain i where r4: "r4 = Inr i" by (cases r4) auto
  obtain u d where a: "apply_snapshot e r downloaded (ls_dir st) = (u, d)"
    by (cases "apply_snapshot e r downloaded (ls_dir st)")
  with step ok dl r2 g2 r3 bk r4 have "st' = st1\<lparr>ls_dir := d\<rparr>" by (cases u) auto
  with that g r1 v l ok dl r2 bk r4 a show thesis by blast
qed

lemma download_keys: "download_files e R pw m fs s = (Inr ws, s') \<Longrightarrow> map fst ws = map sf_path fs"
  by (induction e R pw m fs s arbitrary: ws rule: download_files.induct)
    (auto split: sum.splits prod.splits option.splits if_splits)

lemma validated_paths:
  "validate_remote_files fs = Inr () \<Longrightarrow> \<forall>f \<in> set (applied_sync_files fs). sf_path f \<in> set SYNCABLE_FILES"
  by (induction fs) (auto simp: applied_sync_files_def validate_remote_file_def split: sum.splits if_splits)

lemma apply_snapshot_frame:
  assumes "apply_snapshot e r ws d = (u, d')" "fst ` set ws \<subseteq> set SYNCABLE_FILES" "p \<notin> set managed"
  shows "d' p = d p"
proof -
  obtain w d1 where w: "write_and_remove e ws (stale_files d (map sf_path (applied_sync_files (sm_files r)))) d = (w, d1)"
    by (metis surj_pair)
  have "d1 p = d p"
    by (rule write_and_remove_frame [OF w]) (use assms(2,3) in \<open>auto simp: set_managed stale_files_def\<close>)
  moreover have "p \<noteq> SYNC_VERSION_FILE" using assms(3) by (auto simp: set_managed)
  ultimately show ?thesis
    using assms(1) w by (auto simp: apply_snapshot_def write_local_marker_def replace_file_def split: sum.splits if_splits)
qed

lemma pull_undoable:
  assumes "sync_pull e R pw force st s = (res, st', s')"
  shows "undoable e st st'"
proof (cases "ls_dir st' = ls_dir st")
  case False
  from pull_changes [OF assms False] obtain r s1 ws s2 bk st1 u d where
    v: "validate_remote_files (sm_files r) = Inr ()"
    and dl: "download_files e R pw r (applied_sync_files (sm_files r)) s1 = (Inr ws, s2)"
    and bk: "create_sync_backup e None st = (Inr bk, st1)"
    and a: "apply_snapshot e r ws (ls_dir st) = (u, d)" "st' = st1\<lparr>ls_dir := d\<rparr>"
    by metis
  have "fst ` set ws \<subseteq> set SYNCABLE_FILES"
    using download_keys [OF dl] validated_paths [OF v] by (metis (no_types, lifting) image_set imageE subsetI)
  from undoable_after_backup [OF bk apply_snapshot_frame [OF a(1) this]] a(2) show ?thesis by simp
qed (rule undoable_same)

text \<open>The digest of a configuration without files, which a new device has.\<close>

lemma classify_allows_pull:
  assumes "\<not> pull_refused False (classify_sync_state sha D l (Some r))"
  shows "D = sync_marker_digest sha r \<or> (l = None \<and> D = portable_config_digest sha []) \<or>
    (\<exists>m. l = Some m \<and> D = sync_marker_digest sha m \<and> sm_global_version m < sm_global_version r)"
  using assms by (auto simp: classify_sync_state_def pull_refused_def split: option.splits if_splits)


section \<open>What a push replaces\<close>

lemma classify_allows_push:
  assumes "\<not> push_refused False (classify_sync_state sha D l (Some r))"
  shows "sync_marker_digest sha r = D \<or> (\<exists>m. l = Some m \<and> sync_marker_digest sha r = sync_marker_digest sha m)"
  using assms by (auto simp: classify_sync_state_def push_refused_def split: option.splits if_splits)

text \<open>A stored marker whose configuration this device has seen: its own, or the one of its last synchronization.\<close>

definition seen_marker :: "sync_env \<Rightarrow> dir \<Rightarrow> remote_object option \<Rightarrow> bool" where
  "seen_marker e d ob =
     (case ob of
        None \<Rightarrow> True
      | Some ob \<Rightarrow>
          (case parse_marker e (ro_bytes ob) of
             Inl _ \<Rightarrow> False
           | Inr r \<Rightarrow>
               sync_marker_digest (se_sha e) r = current_portable_config_digest (se_sha e) d \<or>
               (\<exists>l. load_local_sync_marker e d = Inr (Some l) \<and>
                  sync_marker_digest (se_sha e) r = sync_marker_digest (se_sha e) l)))"

context versioned_store
begin

lemma upload_later: "later s (snd (upload_files e R pw d m fs s))"
proof (induction fs arbitrary: s)
  case (Cons f fs)
  have step: "later s s'" if "write_object R p b WriteMissing s = (r, s')" for p b r s'
    using write_later [of s p b WriteMissing] that by simp
  then have "later s (snd (upload_files e R pw d m fs s'))" if "write_object R p b WriteMissing s = (r, s')" for p b r s'
    using that later_trans [OF _ Cons.IH] by blast
  then show ?case using step later_refl by (auto split: option.splits sum.splits prod.splits)
qed (simp add: later_refl)

lemma read_marker:
  assumes "get_remote_marker e R s = (Inr info, s')"
  shows "\<exists>ob. read_object R SYNC_VERSION_FILE s = (Inr ob, s') \<and>
    (case ob of None \<Rightarrow> info = None | Some ob \<Rightarrow> \<exists>r. parse_marker e (ro_bytes ob) = Inr r \<and> info = Some (r, ro_version ob))"
  using assms by (auto simp: get_remote_marker_def map_sum_Inr split: prod.splits sum.splits option.splits)

lemma push_commits:
  assumes push: "sync_push e R pw False meanwhile st s = (Inr res, st', s')"
    and versions: "\<And>s ob. view s SYNC_VERSION_FILE = Some ob \<Longrightarrow> ro_version ob \<noteq> None"
  shows "\<exists>t t' v w. later s t \<and> later t t' \<and> later t' s' \<and> seen_marker e (ls_dir st) (view t SYNC_VERSION_FILE) \<and>
    view t' SYNC_VERSION_FILE = Some \<lparr>ro_bytes =
      se_encode e (new_marker e v ''push'' (collect_sync_files (se_sha e) (ls_dir st))), ro_version = w\<rparr>"
proof -
  obtain password s1 s2 info l m cond s4 s5 where
    lay: "ensure_layout R s = (Inr (), s1)" and get: "get_remote_marker e R s1 = (Inr info, s2)"
    and l: "load_local_sync_marker e (ls_dir st) = Inr l"
    and ok: "\<not> push_refused False (classify_sync_state (se_sha e)
      (current_portable_config_digest (se_sha e) (ls_dir st)) l (map_option fst info))"
    and m: "m = new_marker e (next_global_version (map_option fst info) l) ''push'' (collect_sync_files (se_sha e) (ls_dir st))"
    and up: "upload_files e R password (meanwhile (ls_dir st)) m (sm_files m) s2 = (Inr (), s4)"
    and cond: "commit_condition e R info s4 = (Inr cond, s5)"
    and wr: "write_object R SYNC_VERSION_FILE (se_encode e m) cond s5 = (Inr (), s')"
    by (rule push_steps [OF push]) simp
  from read_marker [OF get] obtain ob where rd: "read_object R SYNC_VERSION_FILE s1 = (Inr ob, s2)"
    and ob: "case ob of None \<Rightarrow> info = None | Some ob \<Rightarrow> \<exists>r. parse_marker e (ro_bytes ob) = Inr r \<and> info = Some (r, ro_version ob)"
    by blast
  have early: "later s s2" and mid: "later s2 s4"
    using layout_later [of s] read_later [of s1 SYNC_VERSION_FILE] upload_later [of s2 e password _ m "sm_files m"] lay rd up
    by (metis later_trans snd_conv)+
  show ?thesis
  proof (cases ob)
    case None
    with ob cond have "cond = WriteMissing" "s5 = s4" by (simp_all add: commit_condition_def)
    with creates_what_was_missing wr obtain t t' w where "later s4 t" "later t t'" "later t' s'"
        "view t SYNC_VERSION_FILE = None" "view t' SYNC_VERSION_FILE = Some \<lparr>ro_bytes = se_encode e m, ro_version = w\<rparr>"
      by metis
    moreover from this(1) early mid have "later s t" by (meson later_trans)
    moreover have "seen_marker e (ls_dir st) None" by (simp add: seen_marker_def)
    ultimately show ?thesis unfolding m by metis
  next
    case (Some o1)
    with ob obtain r where r: "parse_marker e (ro_bytes o1) = Inr r" "info = Some (r, ro_version o1)" by auto
    from read_at [OF rd] Some versions obtain v where v: "ro_version o1 = Some v" by auto
    with cond r have "cond = WriteVersion v" "s5 = s4" by (simp_all add: commit_condition_def)
    with replaces_what_was_read [OF rd [unfolded Some] v mid, of "se_encode e m" s'] wr obtain t t' w where
        t: "later s4 t" "later t t'" "later t' s'" "map_option ro_bytes (view t SYNC_VERSION_FILE) = Some (ro_bytes o1)"
        "view t' SYNC_VERSION_FILE = Some \<lparr>ro_bytes = se_encode e m, ro_version = w\<rparr>" by auto
    have "seen_marker e (ls_dir st) (view t SYNC_VERSION_FILE)"
      using classify_allows_push [OF ok [unfolded r(2) option.map fst_conv]] l t(4) r(1) by (auto simp: seen_marker_def)
    moreover from t(1) early mid have "later s t" by (meson later_trans)
    ultimately show ?thesis using t m by blast
  qed
qed

end

text \<open>
  A push overwrites nothing it has not seen. Against a server that honours conditional
  requests and gives entity tags, a push without force that succeeds replaced, at the instant it took
  effect, no marker at all, or one for the configuration this device has now or had at its last
  synchronization, whatever other clients did meanwhile.
\<close>

theorem push_overwrites_nothing_unseen:
  assumes "conditional_server serve page later"
    and "\<And>s ob. page s (join_url (wc_url c) SYNC_VERSION_FILE) = Some ob \<Longrightarrow> ro_version ob \<noteq> None"
    and "sync_push e (webdav_remote serve c) pw False meanwhile st s = (Inr res, st', s')"
  shows "\<exists>t t' v w. later s t \<and> later t t' \<and> later t' s' \<and>
    seen_marker e (ls_dir st) (page t (join_url (wc_url c) SYNC_VERSION_FILE)) \<and>
    page t' (join_url (wc_url c) SYNC_VERSION_FILE) = Some \<lparr>ro_bytes =
      se_encode e (new_marker e v ''push'' (collect_sync_files (se_sha e) (ls_dir st))), ro_version = w\<rparr>"
  using versioned_store.push_commits [OF webdav_is_versioned [OF assms(1)] assms(3)] assms(2) by blast

text \<open>The state a pull of an older marker leaves: neither side may follow without force.\<close>

lemma legacy_pull_diverges:
  assumes "sm_digest r = None" "portable_config_digest sha (sm_files r) \<noteq> portable_config_digest sha (applied_sync_files (sm_files r))"
    "se_sha e = sha"
  shows "classify_sync_state sha (portable_config_digest sha (applied_sync_files (sm_files r)))
    (Some (pulled_marker e r)) (Some r) = Diverged"
  using assms(1,2) by (simp add: classify_pulled [OF assms(3)] sync_marker_digest_def)

text \<open>A file that changes between the inventory and the upload makes every later pull fail.\<close>

lemma torn_upload_fails:
  assumes "se_sha e b \<noteq> sf_sha256 f" "read_object R (remote_object_path m f) s = (Inr (Some ob), s')"
    "open_object e pw (ro_bytes ob) = Inr b"
  shows "fst (download_files e R pw m (f # fs) s) = Inl (ChecksumMismatch (sf_path f))"
  using assms by simp

section \<open>What leaves the device\<close>

definition envelope :: "remote_object option \<Rightarrow> bool" where
  "envelope ob \<longleftrightarrow> (case ob of Some ob \<Rightarrow> is_encrypted_backup (ro_bytes ob) | None \<Rightarrow> False)"

context quiet_store
begin

lemma upload_only_envelopes:
  assumes "seals (se_cipher e)" "\<And>p. drawn (fst (se_entropy e p)) (snd (se_entropy e p))"
    "\<And>f. plain_name (remote_object_path m f)" "plain_name q"
  shows "upload_files e R pw d m fs s = (r, s') \<Longrightarrow> view s' q = view s q \<or> envelope (view s' q)"
proof (induction fs arbitrary: s)
  case (Cons f fs)
  let ?r = "se_entropy e (sf_path f)"
  show ?case
  proof (cases "\<exists>b blob s1. content d (sf_path f) = Some b \<and>
      encrypt_backup (se_cipher e) (fst ?r) (snd ?r) pw b = Inr blob \<and>
      write_object R (remote_object_path m f) blob WriteMissing s = (Inr (), s1)")
    case True
    then obtain b blob s1 where b: "content d (sf_path f) = Some b"
        "encrypt_backup (se_cipher e) (fst ?r) (snd ?r) pw b = Inr blob"
        "write_object R (remote_object_path m f) blob WriteMissing s = (Inr (), s1)" by blast
    with Cons.prems have rest: "upload_files e R pw d m fs s1 = (r, s')" by simp
    have "view s1 q = view s q \<or> envelope (view s1 q)"
      using quiet_write_at [OF b(3) assms(3)] encrypted_opens(1) [OF assms(1,2) b(2)] assms(4)
      by (cases "q = remote_object_path m f") (auto simp: envelope_def)
    with Cons.IH [OF rest] show ?thesis by auto
  next
    case False
    with Cons.prems have "s' = s \<or> (\<exists>p b err. write_object R p b WriteMissing s = (Inl err, s'))"
      by (auto split: option.splits sum.splits prod.splits)
    then show ?thesis using quiet_failure by auto
  qed
qed simp

lemma commit_only_envelopes:
  assumes "faithful_env e" "m = new_marker e v dir fs" "plain_name q" "q \<noteq> SYNC_VERSION_FILE"
    "upload_and_commit e R pw d info m s = (r, s')"
  shows "view s' q = view s q \<or> envelope (view s' q)"
proof -
  obtain r1 s1 where u: "upload_files e R pw d m (sm_files m) s = (r1, s1)" by (cases "upload_files e R pw d m (sm_files m) s")
  have sealed: "seals (se_cipher e)" "\<And>p. drawn (fst (se_entropy e p)) (snd (se_entropy e p))"
    using assms(1) by (simp_all add: faithful_env_def)
  have 1: "view s1 q = view s q \<or> envelope (view s1 q)"
    by (rule upload_only_envelopes [OF sealed _ assms(3) u]) (use new_object_path [OF assms(2)] in blast)
  obtain r2 s2 where c: "commit_condition e R info s1 = (r2, s2)" by (cases "commit_condition e R info s1")
  have plain: "plain_name SYNC_VERSION_FILE" by (simp add: SYNC_VERSION_FILE_def)
  have w: "view s3 q = view s2 q" if "write_object R SYNC_VERSION_FILE b cond s2 = (r3, s3)" for b cond r3 s3
    using that quiet_write_at(2) [OF _ plain assms(3,4)] quiet_failure by (cases r3) auto
  have "s' = s1 \<or> s' = s2 \<or> (\<exists>b cond r3. write_object R SYNC_VERSION_FILE b cond s2 = (r3, s'))"
    using assms(5) u c by (cases r1; cases r2) (auto simp: upload_and_commit_def split: prod.splits sum.splits)
  then show ?thesis using 1 w quiet_condition [OF c] by auto
qed

lemma push_only_envelopes:
  assumes "faithful_env e" "sync_push e R pw force meanwhile st s = (r, st', s')"
    "plain_name q" "q \<noteq> SYNC_VERSION_FILE"
  shows "view s' q = view s q \<or> envelope (view s' q)"
proof (cases pw)
  case None
  with assms(2) show ?thesis by (simp add: sync_push_def)
next
  case (Some password)
  obtain r1 s1 where e: "ensure_layout R s = (r1, s1)" by (cases "ensure_layout R s")
  obtain r2 s2 where g: "get_remote_marker e R s1 = (r2, s2)" by (cases "get_remote_marker e R s1")
  have same: "view s1 = view s" "view s2 = view s" using quiet_layout [of s] e quiet_get [OF g] by simp_all
  have "s' = s1 \<or> s' = s2 \<or> (\<exists>info m v fs d u. m = new_marker e v ''push'' fs \<and>
      upload_and_commit e R password d info m s2 = (u, s'))"
    using assms(2) Some e g unfolding sync_push_def Let_def
    by (auto split: sum.splits prod.splits if_splits; blast)
  then show ?thesis using commit_only_envelopes [OF assms(1) _ assms(3,4)] same by metis
qed

end

text \<open>
  Nothing is uploaded in plain text. Over a remote that nobody else uses, after a push
  with any outcome every object but the marker is what it was before or an encrypted envelope, and
  a push without a password changes nothing anywhere.
\<close>

theorem push_uploads_only_envelopes:
  assumes "quiet_store R view" "faithful_env e" "sync_push e R pw force meanwhile st s = (r, st', s')"
  shows "(\<forall>q. plain_name q \<and> q \<noteq> SYNC_VERSION_FILE \<longrightarrow> view s' q = view s q \<or> envelope (view s' q)) \<and>
    (pw = None \<longrightarrow> r = Inl NoSyncPassword \<and> st' = st \<and> s' = s)"
  using quiet_store.push_only_envelopes [OF assms] assms(3) by (auto simp: sync_push_def)

section \<open>What a digest tells\<close>

lemma first_separator:
  "u @ c # r = u' @ c # r' \<Longrightarrow> c \<notin> set u \<Longrightarrow> c \<notin> set u' \<Longrightarrow> u = u' \<and> r = r'"
proof (induction u arbitrary: u')
  case Nil
  then show ?case by (cases u') auto
next
  case (Cons a u)
  then show ?case by (cases u') auto
qed

definition nul_free :: "sync_file \<Rightarrow> bool" where
  "nul_free f \<longleftrightarrow> CHR 0x00 \<notin> set (sf_path f) \<and> CHR 0x00 \<notin> set (sf_sha256 f)"

lemma manifest_text_inj:
  assumes "concat (map (\<lambda>f. sf_path f @ [CHR 0x00] @ sf_sha256 f @ [CHR 0x00]) fs) =
      concat (map (\<lambda>f. sf_path f @ [CHR 0x00] @ sf_sha256 f @ [CHR 0x00]) gs)"
    "list_all nul_free fs" "list_all nul_free gs"
  shows "map (\<lambda>f. (sf_path f, sf_sha256 f)) fs = map (\<lambda>f. (sf_path f, sf_sha256 f)) gs"
  using assms
proof (induction fs arbitrary: gs)
  case Nil
  then show ?case by (cases gs) auto
next
  case (Cons f fs)
  then obtain g hs where g: "gs = g # hs" by (cases gs) auto
  let ?rest = "\<lambda>fs. concat (map (\<lambda>f. sf_path f @ [CHR 0x00] @ sf_sha256 f @ [CHR 0x00]) fs)"
  from Cons.prems g have n: "nul_free f" "nul_free g" "list_all nul_free fs" "list_all nul_free hs" by simp_all
  from Cons.prems(1) g have "sf_path f @ CHR 0x00 # (sf_sha256 f @ CHR 0x00 # ?rest fs) =
      sf_path g @ CHR 0x00 # (sf_sha256 g @ CHR 0x00 # ?rest hs)" by simp
  from first_separator [OF this] n have p: "sf_path f = sf_path g"
      "sf_sha256 f @ CHR 0x00 # ?rest fs = sf_sha256 g @ CHR 0x00 # ?rest hs" by (simp_all add: nul_free_def)
  from first_separator [OF p(2)] n have "sf_sha256 f = sf_sha256 g" "?rest fs = ?rest hs" by (simp_all add: nul_free_def)
  with Cons.IH [of hs] n p(1) g show ?case by simp
qed

lemma collect_sorted: "sort_key sf_path (collect_sync_files sha d) = collect_sync_files sha d"
  by (simp add: collect_sync_files_def sort_key_id_if_sorted)

lemma collect_nul_free:
  assumes "\<And>b. CHR 0x00 \<notin> set (sha b)"
  shows "list_all nul_free (collect_sync_files sha d)"
proof -
  have "\<forall>p \<in> set SYNCABLE_FILES. CHR 0x00 \<notin> set p" by (simp add: SYNCABLE_FILES_def)
  with assms show ?thesis unfolding list_all_iff nul_free_def by (metis collect_path_ok)
qed

lemma in_inventory:
  assumes "p \<in> set SYNCABLE_FILES"
  shows "(p, h) \<in> set (map (\<lambda>f. (sf_path f, sf_sha256 f)) (collect_sync_files sha d)) \<longleftrightarrow>
    map_option sha (content d p) = Some h"
  using assms by (auto simp: collect_entries image_iff entry_of_def)

lemma option_eqI: "(\<And>h. a = Some h \<longleftrightarrow> b = Some h) \<Longrightarrow> a = b"
  by (cases a; cases b) auto

text \<open>
  The digest tells configurations apart. With a hash without collisions, two
  directories have the same digest exactly when every file of the synchronized set has the same
  content in both, or is missing in both.
\<close>

theorem digest_tells_configurations_apart:
  assumes "inj sha" "\<And>b. CHR 0x00 \<notin> set (sha b)"
  shows "current_portable_config_digest sha d = current_portable_config_digest sha d' \<longleftrightarrow>
    (\<forall>p \<in> set SYNCABLE_FILES. content d p = content d' p)"
proof
  assume "current_portable_config_digest sha d = current_portable_config_digest sha d'"
  then have "map (\<lambda>f. (sf_path f, sf_sha256 f)) (collect_sync_files sha d) =
      map (\<lambda>f. (sf_path f, sf_sha256 f)) (collect_sync_files sha d')"
    using manifest_text_inj [of "collect_sync_files sha d" "collect_sync_files sha d'"]
      collect_nul_free [OF assms(2)] assms(1)
    by (simp add: current_portable_config_digest_def portable_config_digest_def collect_sorted inj_eq)
  then have listed: "set (map (\<lambda>f. (sf_path f, sf_sha256 f)) (collect_sync_files sha d)) =
      set (map (\<lambda>f. (sf_path f, sf_sha256 f)) (collect_sync_files sha d'))" by simp
  have same: "map_option sha (content d p) = map_option sha (content d' p)" if "p \<in> set SYNCABLE_FILES" for p
    by (rule option_eqI) (use listed in_inventory [OF that] in metis)
  show "\<forall>p \<in> set SYNCABLE_FILES. content d p = content d' p"
    using injD [OF option.inj_map [OF assms(1)] same] by blast
next
  assume "\<forall>p \<in> set SYNCABLE_FILES. content d p = content d' p"
  from collect_cong [OF this, of sha] show "current_portable_config_digest sha d = current_portable_config_digest sha d'"
    by (simp add: current_portable_config_digest_def)
qed

section \<open>Examples\<close>

lemma digit_char_not_nul: "d < 10 \<Longrightarrow> CHR 0x00 \<noteq> digit_char d"
  by (drule small_digit) (auto simp: digit_char_def char_of_def bit_iff_odd)

lemma show_nat_nul_free: "CHR 0x00 \<notin> set (show_nat n)"
proof (induction n rule: show_nat.induct)
  case (1 n)
  then show ?case by (subst show_nat.simps) (simp add: digit_char_not_nul)
qed

lemma digest_tells_configurations_apart_witness:
  "current_portable_config_digest (\<lambda>b. show_nat (to_nat b)) [''policy.toml'' \<mapsto> Regular ''a''] \<noteq>
   current_portable_config_digest (\<lambda>b. show_nat (to_nat b)) [''policy.toml'' \<mapsto> Regular ''b'']"
proof -
  have "inj (\<lambda>b. show_nat (to_nat b))" by (simp add: inj_def show_nat_inj)
  moreover have "''policy.toml'' \<in> set SYNCABLE_FILES" by (simp add: SYNCABLE_FILES_def)
  ultimately show ?thesis
    using digest_tells_configurations_apart [OF _ show_nat_nul_free, of "\<lambda>b. to_nat b"]
      show_nat_nul_free
    by (subst digest_tells_configurations_apart) (auto simp: content_def)
qed

instance sync_file_ext :: (countable) countable
  by (rule countable_classI [of "\<lambda>f. to_nat (sf_path f, sf_bytes f, sf_sha256 f, sync_file.more f)"]) simp

instance sync_marker_ext :: (countable) countable
  by (rule countable_classI [of "\<lambda>m. to_nat (sm_schema_version m, unat (sm_global_version m), sm_sync_id m,
    sm_updated_at m, sm_app_version m, sm_direction m, (sm_files m, sm_digest m, sm_object_prefix m, sync_marker.more m))"])
    (simp add: word_unat_eq_iff)

definition demo_sync :: sync_env where
  "demo_sync =
     \<lparr>se_sha = (\<lambda>_. replicate 64 CHR ''0''), se_encode = (\<lambda>m. show_nat (to_nat m)),
      se_decode = (\<lambda>b. map_option from_nat (digits_value 10 0 b)), se_cipher = toy_cipher,
      se_entropy = (\<lambda>_. (Some toy_salt, Some toy_nonce)), se_now = 0, se_uuid = ''u1'', se_backup_id = ''sync-1'',
      se_cannot_write = (\<lambda>_. False), se_cannot_remove = (\<lambda>_. False)\<rparr>"

lemma demo_sync_faithful: "faithful_env demo_sync"
  by (simp add: faithful_env_def demo_sync_def digits_value_show validate_digest_format_def is_ascii_digit_def
      list_all_iff toy_cipher_seals toy_drawn)

definition demo_device :: local_state where
  "demo_device = \<lparr>ls_dir = [''hosts.json'' \<mapsto> Regular ''x''], ls_backups = Map.empty\<rparr>"

definition new_device :: local_state where
  "new_device = \<lparr>ls_dir = Map.empty, ls_backups = Map.empty\<rparr>"

definition empty_fake :: fake_remote where
  "empty_fake = \<lparr>fk_objects = Map.empty, fk_mutate = False\<rparr>"

lemma demo_sync_simps [simp]:
  "se_cipher demo_sync = toy_cipher" "se_entropy demo_sync p = (Some toy_salt, Some toy_nonce)"
  "se_cannot_write demo_sync p = False" "se_cannot_remove demo_sync p = False" "se_uuid demo_sync = ''u1''"
  by (simp_all add: demo_sync_def)

lemma calm_simps [simp]:
  "ensure_layout calm s = (Inr (), s)" "read_object calm p s = fake_read p s"
  "write_object calm p b c s = fake_write p b c (s\<lparr>fk_mutate := False\<rparr>)"
  by (simp_all add: calm_def)

lemma demo_push: "\<exists>res st' s'. sync_push demo_sync calm (Some ''pw'') False id demo_device empty_fake = (Inr res, st', s')"
proof -
  let ?d = "ls_dir demo_device" and ?e = demo_sync
  have files: "collect_sync_files (se_sha ?e) ?d = [entry_of (se_sha ?e) ?d ''hosts.json'']"
    by (simp add: collect_entries demo_device_def content_def SYNCABLE_FILES_def)
  have content: "content ?d ''hosts.json'' = Some ''x''" by (simp add: demo_device_def content_def)
  have load: "load_local_sync_marker ?e ?d = Inr None"
    by (simp add: load_local_sync_marker_def exists_def demo_device_def SYNC_VERSION_FILE_def)
  have get: "get_remote_marker ?e calm empty_fake = (Inr None, empty_fake)"
    by (simp add: get_remote_marker_def fake_read_def empty_fake_def)
  have "\<not> se_cannot_write ?e q" for q by (simp add: demo_sync_def)
  from create_sync_backup_succeeds [OF this, of None demo_device] obtain st1 where
      bk: "create_sync_backup ?e None demo_device = (Inr (se_backup_id ?e), st1)" by blast
  let ?m = "new_marker ?e 1 ''push'' (collect_sync_files (se_sha ?e) ?d)"
  have path: "remote_object_path (new_marker ?e v ''push'' fs) f = ''versions/u1-'' @ sf_path f" for v fs f
    by (simp add: remote_object_path_def new_marker_def REMOTE_VERSIONS_DIR_def)
  obtain s1 where up: "upload_files ?e calm ''pw'' ?d ?m (sm_files ?m) empty_fake = (Inr (), s1)"
      and s1: "fk_objects s1 SYNC_VERSION_FILE = None"
  proof
    show "upload_files ?e calm ''pw'' ?d ?m (sm_files ?m) empty_fake = (Inr (), empty_fake\<lparr>fk_objects :=
        [''versions/u1-hosts.json'' \<mapsto> (ENCRYPTED_MAGIC @ toy_salt @ toy_nonce @ ''pw'' @ toy_salt @ ''x'', 1)]\<rparr>)"
      using toy_encrypts [of "CHR ''p''" "CHR ''w''" "''x''"]
      by (simp add: files path content entry_of_def fake_write_def fake_allows_def fake_put_def empty_fake_def)
    show "fk_objects (empty_fake\<lparr>fk_objects := [''versions/u1-hosts.json'' \<mapsto>
        (ENCRYPTED_MAGIC @ toy_salt @ toy_nonce @ ''pw'' @ toy_salt @ ''x'', 1)]\<rparr>) SYNC_VERSION_FILE = None"
      by (simp add: SYNC_VERSION_FILE_def)
  qed
  from s1 obtain s2 where "write_object calm SYNC_VERSION_FILE (se_encode ?e ?m) WriteMissing s1 = (Inr (), s2)"
    by (simp add: fake_write_def fake_allows_def)
  with up have commit: "upload_and_commit ?e calm ''pw'' ?d None ?m empty_fake = (Inr (), s2)"
    by (simp add: upload_and_commit_def commit_condition_def)
  obtain d where wr: "write_local_marker ?e ?m ?d = (Inr (), d)"
    by (simp add: write_local_marker_def replace_file_def demo_device_def SYNC_VERSION_FILE_def)
  show ?thesis
    unfolding sync_push_def Let_def
    by (simp add: get load bk commit wr classify_sync_state_def
        push_refused_def next_global_version_def create_sync_backup_frame(1) [OF bk])
qed


lemma push_uploads_only_envelopes_witness:
  "\<exists>r st' s'. sync_push demo_sync calm (Some ''pw'') False id demo_device empty_fake = (r, st', s') \<and>
     (fake_view s' ''versions/u1-hosts.json'' = None \<or> envelope (fake_view s' ''versions/u1-hosts.json''))"
proof -
  obtain r st' s' where push: "sync_push demo_sync calm (Some ''pw'') False id demo_device empty_fake = (r, st', s')"
    by (metis prod_cases3)
  have "fake_view empty_fake q = None" for q by (simp add: fake_view_def empty_fake_def)
  moreover have "''versions/u1-hosts.json'' \<noteq> SYNC_VERSION_FILE" by (simp add: SYNC_VERSION_FILE_def)
  ultimately show ?thesis
    using push push_uploads_only_envelopes [OF calm.quiet_store_axioms demo_sync_faithful push] by fastforce
qed


text \<open>A server with the promised behaviour, which holds the objects of the test remote.\<close>

definition demo_condition :: "http_request \<Rightarrow> write_condition" where
  "demo_condition q =
     (case hq_if_match q of
        Some v \<Rightarrow> WriteVersion v
      | None \<Rightarrow> if hq_if_none_match q = Some ''*'' then WriteMissing else WriteAny)"

definition demo_serve :: "fake_remote http" where
  "demo_serve q s =
     (if hq_method q = ''GET'' then
        (case fk_objects s (hq_url q) of
           None \<Rightarrow> (Inr \<lparr>hr_status = 404, hr_etag = None, hr_body = Some []\<rparr>, s)
         | Some (b, v) \<Rightarrow> (Inr \<lparr>hr_status = 200, hr_etag = Some (show_nat v), hr_body = Some b\<rparr>, s))
      else if hq_method q = ''PUT'' then
        (if hq_if_match q \<noteq> None \<and> hq_if_none_match q \<noteq> None
         then (Inr \<lparr>hr_status = 400, hr_etag = None, hr_body = Some []\<rparr>, s)
         else case fake_write (hq_url q) (hq_body q) (demo_condition q) s of
             (Inr _, s') \<Rightarrow> (Inr \<lparr>hr_status = 201, hr_etag = None, hr_body = Some []\<rparr>, s')
           | (Inl _, s') \<Rightarrow> (Inr \<lparr>hr_status = 412, hr_etag = None, hr_body = Some []\<rparr>, s'))
      else (Inr \<lparr>hr_status = 201, hr_etag = None, hr_body = Some []\<rparr>, s))"

lemma demo_serve_conditional: "conditional_server demo_serve fake_view fake_later"
proof -
  have refl: "fake_later s s" for s by (simp add: fake_later_def)
  have step: "fake_later s s'" if "fake_write p b c s = (r, s')" for p b c r s s'
    using fake_write_later [of s p b c] that by simp
  have "time_passes demo_serve fake_later"
    unfolding time_passes_def
  proof (intro conjI allI impI)
    show "fake_later s (snd (demo_serve q s))" for q s
      using refl step by (auto simp: demo_serve_def split: option.splits prod.splits sum.splits)
  qed (use refl fake_later_trans in blast)+
  moreover have "reads_are_true demo_serve fake_view fake_later"
    unfolding reads_are_true_def
  proof (intro allI impI)
    fix q s r s' assume *: "demo_serve q s = (Inr r, s')" "hq_method q = ''GET''"
    then have "s' = s \<and> (hr_status r = 404 \<longrightarrow> fake_view s (hq_url q) = None) \<and>
        (\<forall>b. is_success (hr_status r) \<longrightarrow> hr_body r = Some b \<longrightarrow>
          fake_view s (hq_url q) = Some \<lparr>ro_bytes = b, ro_version = hr_etag r\<rparr>)"
      by (auto simp: demo_serve_def fake_view_def is_success_def split: option.splits)
    with refl show "\<exists>t. fake_later s t \<and> fake_later t s' \<and> (hr_status r = 404 \<longrightarrow> fake_view t (hq_url q) = None) \<and>
        (\<forall>b. is_success (hr_status r) \<longrightarrow> hr_body r = Some b \<longrightarrow>
          fake_view t (hq_url q) = Some \<lparr>ro_bytes = b, ro_version = hr_etag r\<rparr>)" by blast
  qed
  moreover have "writes_are_conditional demo_serve fake_view fake_later"
    unfolding writes_are_conditional_def
  proof (intro allI impI)
    fix q s r s' assume *: "demo_serve q s = (Inr r, s')" "hq_method q = ''PUT''" "is_success (hr_status r)"
    then have one: "hq_if_match q = None \<or> hq_if_none_match q = None"
      and w: "fake_write (hq_url q) (hq_body q) (demo_condition q) s = (Inr (), s')"
      by (auto simp: demo_serve_def is_success_def split: prod.splits sum.splits if_splits)
    from fake_write_at [OF w] one step [OF w] refl
    show "\<exists>t t' w. fake_later s t \<and> fake_later t t' \<and> fake_later t' s' \<and>
        fake_view t' (hq_url q) = Some \<lparr>ro_bytes = hq_body q, ro_version = w\<rparr> \<and>
        (hq_if_none_match q = Some ''*'' \<longrightarrow> fake_view t (hq_url q) = None) \<and>
        (\<forall>v. hq_if_match q = Some v \<longrightarrow> (\<exists>b. fake_view t (hq_url q) = Some \<lparr>ro_bytes = b, ro_version = Some v\<rparr>))"
      by (intro exI [of _ s] exI [of _ s']) (auto simp: demo_condition_def)
  qed
  moreover have "tags_are_unique fake_view fake_later"
    unfolding tags_are_unique_def using fake.version_stands by blast
  ultimately show ?thesis by (simp add: conditional_server_def)
qed

definition demo_server :: webdav_config where
  "demo_server = \<lparr>wc_url = ''https://dav'', wc_username = None, wc_password = None, wc_sync_password = Some ''pw''\<rparr>"

lemma push_overwrites_nothing_unseen_witness:
  "\<exists>t' v w. fake_view t' ''https://dav/sync_version.json'' =
     Some \<lparr>ro_bytes = se_encode demo_sync (new_marker demo_sync v ''push'' []), ro_version = w\<rparr>"
proof -
  let ?R = "webdav_remote demo_serve demo_server"
  have url: "join_url (wc_url demo_server) SYNC_VERSION_FILE = ''https://dav/sync_version.json''"
    by (simp add: join_url_def trim_end_slashes_def demo_server_def SYNC_VERSION_FILE_def)
  have files: "collect_sync_files sha (ls_dir new_device) = []" for sha
    by (simp add: collect_entries new_device_def content_def SYNCABLE_FILES_def)
  have col: "ensure_collection demo_serve c u s = (Inr (), s)" for c u s
    by (simp add: ensure_collection_def demo_serve_def plain_request_def is_success_def)
  have lay: "ensure_layout ?R empty_fake = (Inr (), empty_fake)"
    by (simp add: webdav_remote_def webdav_ensure_layout_def col)
  have get: "get_remote_marker demo_sync ?R empty_fake = (Inr None, empty_fake)"
    by (simp add: get_remote_marker_def webdav_remote_def webdav_read_def demo_serve_def plain_request_def empty_fake_def)
  have load: "load_local_sync_marker demo_sync (ls_dir new_device) = Inr None"
    by (simp add: load_local_sync_marker_def exists_def new_device_def)
  from create_sync_backup_succeeds [of demo_sync None new_device] obtain st1 where
      bk: "create_sync_backup demo_sync None new_device = (Inr (se_backup_id demo_sync), st1)" by auto
  obtain s2 where "write_object ?R SYNC_VERSION_FILE b WriteMissing empty_fake = (Inr (), s2 b)" for b
    by (simp add: webdav_remote_def webdav_write_def demo_serve_def is_success_def demo_condition_def fake_write_def
        fake_allows_def empty_fake_def)
  then have commit: "\<exists>s2. upload_and_commit demo_sync ?R pw d None (new_marker demo_sync v ''push'' []) empty_fake = (Inr (), s2)"
    for pw d v by (simp add: upload_and_commit_def commit_condition_def)
  from commit obtain s2 where s2: "upload_and_commit demo_sync ?R ''pw'' (ls_dir new_device) None
      (new_marker demo_sync 1 ''push'' []) empty_fake = (Inr (), s2)" by blast
  obtain d where wr: "write_local_marker demo_sync (new_marker demo_sync 1 ''push'' []) (ls_dir new_device) = (Inr (), d)"
    by (simp add: write_local_marker_def replace_file_def new_device_def)
  have "\<exists>res st' s'. sync_push demo_sync ?R (Some ''pw'') False id new_device empty_fake = (Inr res, st', s')"
    unfolding sync_push_def Let_def
    by (simp add: lay get load bk files s2 wr classify_sync_state_def push_refused_def next_global_version_def
        create_sync_backup_frame(1) [OF bk])
  then obtain res st' s' where push: "sync_push demo_sync ?R (Some ''pw'') False id new_device empty_fake = (Inr res, st', s')"
    by blast
  have tagged: "ro_version ob \<noteq> None" if "fake_view s p = Some ob" for s p ob using that by (auto simp: fake_view_def)
  have "\<exists>t t' v w. fake_later empty_fake t \<and> fake_later t t' \<and> fake_later t' s' \<and>
      seen_marker demo_sync (ls_dir new_device) (fake_view t (join_url (wc_url demo_server) SYNC_VERSION_FILE)) \<and>
      fake_view t' (join_url (wc_url demo_server) SYNC_VERSION_FILE) = Some \<lparr>ro_bytes =
        se_encode demo_sync (new_marker demo_sync v ''push'' (collect_sync_files (se_sha demo_sync) (ls_dir new_device))),
        ro_version = w\<rparr>"
    by (rule push_overwrites_nothing_unseen [OF demo_serve_conditional tagged push])
  then show ?thesis unfolding url files by blast
qed

end
