(* ===== verification/Config_Cache.thy ===== *)
theory Config_Cache
  imports A2S_Prelude
begin

text \<open>
  \<open>config_cache.rs\<close>: the single-slot cache of a parsed configuration file. A load reads the file's
  signature, and then under the lock either answers from the slot or runs the loader; files change
  and the slot is dropped between any two of these steps. A file is the list of its versions, each
  with its signature, of which the last is current.
\<close>

record ('p, 'g, 't) cache_entry =
  ce_path :: 'p
  ce_signature :: 'g
  ce_value :: 't

text \<open>The locked part of \<open>load_with\<close>; \<open>loaded\<close> is what the loader gives now.\<close>

definition load_with ::
  "'p \<Rightarrow> 'g \<Rightarrow> ('e + 't) \<Rightarrow> ('p, 'g, 't) cache_entry option \<Rightarrow> ('e + 't) \<times> ('p, 'g, 't) cache_entry option" where
  "load_with path signature loaded slot =
     (case slot of
        Some entry \<Rightarrow>
          if ce_path entry = path \<and> ce_signature entry = signature then (Inr (ce_value entry), slot)
          else (case loaded of
                  Inl e \<Rightarrow> (Inl e, slot)
                | Inr v \<Rightarrow> (Inr v, Some \<lparr>ce_path = path, ce_signature = signature, ce_value = v\<rparr>))
      | None \<Rightarrow>
          (case loaded of
             Inl e \<Rightarrow> (Inl e, slot)
           | Inr v \<Rightarrow> (Inr v, Some \<lparr>ce_path = path, ce_signature = signature, ce_value = v\<rparr>)))"

definition invalidate :: "('p, 'g, 't) cache_entry option \<Rightarrow> ('p, 'g, 't) cache_entry option" where
  "invalidate slot = None"

section \<open>Threads\<close>

text \<open>
  A load that has read a signature is pending with it; \<open>ld_from\<close> is the version that was current then.
  An answer records the versions that were current at its start and its end.
\<close>

record ('p, 'g) pending_load =
  ld_path :: 'p
  ld_signature :: 'g
  ld_from :: nat

record ('p, 'e, 't) cache_answer =
  an_path :: 'p
  an_from :: nat
  an_to :: nat
  an_result :: "'e + 't"

record ('p, 'g, 'c, 'e, 't) cache_world =
  cw_versions :: "'p \<Rightarrow> ('g \<times> 'c) list"
  cw_slot :: "('p, 'g, 't) cache_entry option"
  cw_pending :: "nat \<Rightarrow> ('p, 'g) pending_load option"
  cw_answers :: "('p, 'e, 't) cache_answer list"

datatype ('p, 'g, 'c) cache_event =
    ReadSignature nat 'p
  | Answer nat
  | ChangeFile 'p 'g 'c
  | Invalidate

fun cache_step ::
  "('c \<Rightarrow> 'e + 't) \<Rightarrow> ('p, 'g, 'c, 'e, 't) cache_world \<Rightarrow> ('p, 'g, 'c) cache_event \<Rightarrow> ('p, 'g, 'c, 'e, 't) cache_world" where
  "cache_step loader w (ReadSignature i p) =
     (let vs = cw_versions w p
      in w\<lparr>cw_pending := (cw_pending w)(i \<mapsto>
             \<lparr>ld_path = p, ld_signature = fst (last vs), ld_from = length vs - 1\<rparr>)\<rparr>)"
| "cache_step loader w (Answer i) =
     (case cw_pending w i of
        None \<Rightarrow> w
      | Some l \<Rightarrow>
          (let vs = cw_versions w (ld_path l);
               (result, slot) = load_with (ld_path l) (ld_signature l) (loader (snd (last vs))) (cw_slot w)
           in w\<lparr>cw_slot := slot, cw_pending := (cw_pending w)(i := None),
                cw_answers := cw_answers w @
                  [\<lparr>an_path = ld_path l, an_from = ld_from l, an_to = length vs - 1, an_result = result\<rparr>]\<rparr>))"
| "cache_step loader w (ChangeFile p g c) =
     w\<lparr>cw_versions := (cw_versions w)(p := cw_versions w p @ [(g, c)])\<rparr>"
| "cache_step loader w Invalidate = w\<lparr>cw_slot := invalidate (cw_slot w)\<rparr>"

text \<open>
  A changed file has a signature it never had: what the modification time and the length are for. A
  missing file has the signature \<open>None\<close>, so a file that is removed again falls outside it.
\<close>

fun new_signature :: "('p, 'g, 'c, 'e, 't) cache_world \<Rightarrow> ('p, 'g, 'c) cache_event \<Rightarrow> bool" where
  "new_signature w (ChangeFile p g c) = (g \<notin> fst ` set (cw_versions w p))"
| "new_signature w _ = True"

text \<open>A world before any load.\<close>

definition fresh_world :: "('p, 'g, 'c, 'e, 't) cache_world \<Rightarrow> bool" where
  "fresh_world w \<longleftrightarrow> (\<forall>p. cw_versions w p \<noteq> [] \<and> distinct (map fst (cw_versions w p))) \<and>
     cw_slot w = None \<and> cw_pending w = Map.empty \<and> cw_answers w = []"

section \<open>The cache is transparent\<close>

text \<open>
  An entry holds what the loader gives for a version no older than the one with its signature.
\<close>

definition cache_invariant :: "('c \<Rightarrow> 'e + 't) \<Rightarrow> ('p, 'g, 'c, 'e, 't) cache_world \<Rightarrow> bool" where
  "cache_invariant loader w \<longleftrightarrow>
     (\<forall>p. cw_versions w p \<noteq> [] \<and> distinct (map fst (cw_versions w p))) \<and>
     (\<forall>e. cw_slot w = Some e \<longrightarrow>
        (\<exists>i j. i \<le> j \<and> j < length (cw_versions w (ce_path e)) \<and>
           fst (cw_versions w (ce_path e) ! i) = ce_signature e \<and>
           loader (snd (cw_versions w (ce_path e) ! j)) = Inr (ce_value e))) \<and>
     (\<forall>t l. cw_pending w t = Some l \<longrightarrow>
        ld_from l < length (cw_versions w (ld_path l)) \<and>
        fst (cw_versions w (ld_path l) ! ld_from l) = ld_signature l) \<and>
     (\<forall>a \<in> set (cw_answers w).
        \<exists>j. an_from a \<le> j \<and> j \<le> an_to a \<and> an_to a < length (cw_versions w (an_path a)) \<and>
          an_result a = loader (snd (cw_versions w (an_path a) ! j)))"

lemma invariant_init: "fresh_world w \<Longrightarrow> cache_invariant loader w"
  by (simp add: fresh_world_def cache_invariant_def)

lemma invariant_answer:
  assumes inv: "cache_invariant loader w" and p: "cw_pending w t = Some l"
    and r: "load_with (ld_path l) (ld_signature l) (loader (snd (last (cw_versions w (ld_path l))))) (cw_slot w) = (result, slot)"
  shows "\<exists>j. ld_from l \<le> j \<and> j \<le> length (cw_versions w (ld_path l)) - 1 \<and>
      result = loader (snd (cw_versions w (ld_path l) ! j))"
    "\<forall>e. slot = Some e \<longrightarrow>
        (\<exists>i j. i \<le> j \<and> j < length (cw_versions w (ce_path e)) \<and>
           fst (cw_versions w (ce_path e) ! i) = ce_signature e \<and>
           loader (snd (cw_versions w (ce_path e) ! j)) = Inr (ce_value e))"
proof -
  let ?vs = "cw_versions w (ld_path l)"
  let ?now = "loader (snd (last ?vs))"
  from inv p have vs: "?vs \<noteq> []" "distinct (map fst ?vs)" "ld_from l < length ?vs"
      "fst (?vs ! ld_from l) = ld_signature l"
    by (simp_all add: cache_invariant_def)
  have last: "last ?vs = ?vs ! (length ?vs - 1)" using vs(1) by (rule last_conv_nth)
  have entry: "\<exists>i j. i \<le> j \<and> j < length (cw_versions w (ce_path e)) \<and>
      fst (cw_versions w (ce_path e) ! i) = ce_signature e \<and>
      loader (snd (cw_versions w (ce_path e) ! j)) = Inr (ce_value e)" if "cw_slot w = Some e" for e
    using inv that by (simp add: cache_invariant_def)
  have outcomes: "(\<exists>e. cw_slot w = Some e \<and> ce_path e = ld_path l \<and> ce_signature e = ld_signature l \<and>
      result = Inr (ce_value e) \<and> slot = cw_slot w) \<or>
    result = ?now \<and> (slot = cw_slot w \<or> (\<exists>v. ?now = Inr v \<and>
      slot = Some \<lparr>ce_path = ld_path l, ce_signature = ld_signature l, ce_value = v\<rparr>))"
    using r unfolding load_with_def by (auto split: option.splits sum.splits if_splits)
  then show "\<exists>j. ld_from l \<le> j \<and> j \<le> length ?vs - 1 \<and> result = loader (snd (?vs ! j))"
  proof (elim disjE exE conjE)
    fix e assume e: "cw_slot w = Some e" "ce_path e = ld_path l" "ce_signature e = ld_signature l" "result = Inr (ce_value e)"
    from entry [OF e(1)] e obtain i j where ij: "i \<le> j" "j < length ?vs" "fst (?vs ! i) = ld_signature l"
        "loader (snd (?vs ! j)) = result" by auto
    have "map fst ?vs ! i = map fst ?vs ! ld_from l" using ij vs by simp
    with nth_eq_iff_index_eq [OF vs(2), of i "ld_from l"] ij vs(3) have "i = ld_from l" by simp
    with ij show ?thesis by (intro exI [of _ j]) auto
  qed (use vs(3) last in \<open>auto intro!: exI [of _ "length ?vs - 1"]\<close>)
  from vs(3,4) last have now: "\<exists>i j. i \<le> j \<and> j < length ?vs \<and> fst (?vs ! i) = ld_signature l \<and> loader (snd (?vs ! j)) = ?now"
    by (intro exI [of _ "ld_from l"] exI [of _ "length ?vs - 1"]) auto
  show "\<forall>e. slot = Some e \<longrightarrow>
        (\<exists>i j. i \<le> j \<and> j < length (cw_versions w (ce_path e)) \<and>
           fst (cw_versions w (ce_path e) ! i) = ce_signature e \<and>
           loader (snd (cw_versions w (ce_path e) ! j)) = Inr (ce_value e))"
  proof (intro allI impI)
    fix e assume "slot = Some e"
    with outcomes consider "cw_slot w = Some e"
      | v where "?now = Inr v" "e = \<lparr>ce_path = ld_path l, ce_signature = ld_signature l, ce_value = v\<rparr>"
      by auto
    then show "\<exists>i j. i \<le> j \<and> j < length (cw_versions w (ce_path e)) \<and>
           fst (cw_versions w (ce_path e) ! i) = ce_signature e \<and>
           loader (snd (cw_versions w (ce_path e) ! j)) = Inr (ce_value e)"
    proof cases
      case 2
      with now show ?thesis by simp
    qed (rule entry)
  qed
qed

lemma invariant_change:
  assumes "cache_invariant loader w" "g \<notin> fst ` set (cw_versions w p)"
  shows "cache_invariant loader (cache_step loader w (ChangeFile p g c))"
proof -
  let ?v = "\<lambda>q. cw_versions w q @ (if q = p then [(g, c)] else [])"
  have v: "(cw_versions w)(p := cw_versions w p @ [(g, c)]) = ?v" by auto
  have nth: "?v q ! i = cw_versions w q ! i" if "i < length (cw_versions w q)" for q i
    using that by (simp add: nth_append)
  have "\<exists>i j. i \<le> j \<and> j < length (?v (ce_path e)) \<and> fst (?v (ce_path e) ! i) = ce_signature e \<and>
      loader (snd (?v (ce_path e) ! j)) = Inr (ce_value e)" if e: "cw_slot w = Some e" for e
  proof -
    from assms(1) e obtain i j where "i \<le> j" "j < length (cw_versions w (ce_path e))"
        "fst (cw_versions w (ce_path e) ! i) = ce_signature e"
        "loader (snd (cw_versions w (ce_path e) ! j)) = Inr (ce_value e)"
      unfolding cache_invariant_def by blast
    then show ?thesis by (intro exI [of _ i] exI [of _ j]) (simp add: nth_append)
  qed
  moreover have "\<exists>j. an_from a \<le> j \<and> j \<le> an_to a \<and> an_to a < length (?v (an_path a)) \<and>
      an_result a = loader (snd (?v (an_path a) ! j))" if a: "a \<in> set (cw_answers w)" for a
  proof -
    from assms(1) a obtain j where "an_from a \<le> j" "j \<le> an_to a" "an_to a < length (cw_versions w (an_path a))"
        "an_result a = loader (snd (cw_versions w (an_path a) ! j))"
      unfolding cache_invariant_def by blast
    then show ?thesis by (intro exI [of _ j]) (simp add: nth_append)
  qed
  moreover have "ld_from l < length (?v (ld_path l)) \<and> fst (?v (ld_path l) ! ld_from l) = ld_signature l"
    if l: "cw_pending w t = Some l" for t l
  proof -
    from assms(1) l have "ld_from l < length (cw_versions w (ld_path l))"
        "fst (cw_versions w (ld_path l) ! ld_from l) = ld_signature l"
      unfolding cache_invariant_def by blast+
    then show ?thesis by (simp add: nth_append)
  qed
  moreover have "?v q \<noteq> [] \<and> distinct (map fst (?v q))" for q
    using assms by (auto simp: cache_invariant_def)
  ultimately show ?thesis unfolding cache_step.simps v by (simp add: cache_invariant_def)
qed

lemma invariant_step:
  assumes inv: "cache_invariant loader w" and new: "new_signature w ev"
  shows "cache_invariant loader (cache_step loader w ev)"
proof (cases ev)
  case (ReadSignature i p)
  have "cw_versions w p \<noteq> []" using inv by (simp add: cache_invariant_def)
  with inv show ?thesis unfolding ReadSignature by (simp add: cache_invariant_def Let_def last_conv_nth)
next
  case (Answer i)
  show ?thesis
  proof (cases "cw_pending w i")
    case (Some l)
    obtain result slot where r: "load_with (ld_path l) (ld_signature l)
        (loader (snd (last (cw_versions w (ld_path l))))) (cw_slot w) = (result, slot)" by (metis surj_pair)
    have "length (cw_versions w (ld_path l)) - 1 < length (cw_versions w (ld_path l))"
      using inv by (simp add: cache_invariant_def)
    with inv invariant_answer [OF inv Some r] show ?thesis
      unfolding Answer by (simp add: Some r Let_def cache_invariant_def)
  qed (use inv in \<open>simp add: Answer\<close>)
next
  case (ChangeFile p g c)
  with new invariant_change [OF inv] show ?thesis by simp
next
  case Invalidate
  with inv show ?thesis by (simp add: cache_invariant_def invalidate_def)
qed

interpretation cache: state_machine "cache_step loader" new_signature "cache_invariant loader"
  for loader :: "'c \<Rightarrow> 'e + 't"
  by unfold_locales (rule invariant_step)


definition demo_world :: "(nat, nat, nat, unit, nat) cache_world" where
  "demo_world = \<lparr>cw_versions = (\<lambda>_. [(0, 7)]), cw_slot = None, cw_pending = Map.empty, cw_answers = []\<rparr>"


text \<open>
  A file that appears between the signature and the loader, and is removed again, stays cached: the
  third load finds the signature of the missing file and answers with the content of the removed one.
\<close>

lemma vanished_file_stays_cached:
  "map an_result (cw_answers (foldl (cache_step Inr)
     \<lparr>cw_versions = (\<lambda>_. [(None, ''default'')]), cw_slot = None, cw_pending = Map.empty, cw_answers = []\<rparr>
     [ReadSignature 0 (0 :: nat), ChangeFile 0 (Some (1 :: nat)) ''strict'', Answer 0, ChangeFile 0 None ''default'',
      ReadSignature 0 0, Answer 0])) = [Inr ''strict'', Inr ''strict'' :: unit + string]"
  by (simp add: load_with_def)

text \<open>
  A missing file is not read again while it stays missing: its signature equals the one of the entry.
\<close>

lemma missing_file_is_cached:
  "load_with p None loaded (Some \<lparr>ce_path = p, ce_signature = None, ce_value = v\<rparr>) =
     (Inr v, Some \<lparr>ce_path = p, ce_signature = None, ce_value = v\<rparr>)"
  by (simp add: load_with_def)

end
