(* ===== verification/Policy.thy ===== *)
theory Policy
  imports Authorization_Laws Config_Cache Unix_Path
begin

text \<open>
  \<open>policy.rs\<close>, the loading half of \<open>risk_config.rs\<close> and of the policies of \<open>approval.rs\<close>, and the policy
  test of the command line client: one policy file in TOML or JSON, or else separate files for the
  risk rules and the approval policies, each read through a cache.

  The codecs are parameters, with reading a text that is not UTF-8 among their errors. A file is its
  modification time and its bytes. A write succeeds at some time, or fails and leaves any file behind.
\<close>

section \<open>Files\<close>

record agent_policy_file =
  ap_risk :: risk_rules
  ap_policies :: "approval_policy list"

datatype policy_error =
    NoConfigDir
  | FileUnreadable str
  | Unparsable str
  | UnsupportedExtension str
  | Unserializable
  | FileUnwritable str
  | NoPolicyFile

type_synonym policy_files = "str \<Rightarrow> (nat \<times> str) option"

datatype write_outcome = Written nat | WriteFailed "(nat \<times> str) option"

record policy_env =
  pe_dir :: "str option"
  pe_read_toml :: "str \<Rightarrow> agent_policy_file option"
  pe_read_json :: "str \<Rightarrow> agent_policy_file option"
  pe_show_toml :: "agent_policy_file \<Rightarrow> str option"
  pe_show_json :: "agent_policy_file \<Rightarrow> str option"
  pe_read_rules :: "str \<Rightarrow> risk_rules option"
  pe_read_approvals :: "str \<Rightarrow> approval_policy list option"
  pe_show_approvals :: "approval_policy list \<Rightarrow> str option"
  pe_write :: "str \<Rightarrow> str \<Rightarrow> write_outcome"

type_synonym policy_slot =
  "(bool \<times> str list, (nat \<times> nat) option, agent_policy_file option) cache_entry"

record cached_rules =
  cr_rules :: risk_rules
  cr_modified :: "nat option"

record policy_state =
  pol_files :: policy_files
  pol_slot :: "policy_slot option"
  pol_rules :: cached_rules

text \<open>The extension of a path: what follows the last dot of its file name, unless the name starts there.\<close>

definition extension :: "str \<Rightarrow> str option" where
  "extension p =
     (let cs = snd (components p); parts = split_char (CHR ''.'') (last cs)
      in if cs = [] \<or> last cs = ''..'' \<or> length parts < 2 \<or> (length parts = 2 \<and> hd parts = [])
         then None else Some (last parts))"

definition file_signature :: "policy_files \<Rightarrow> str \<Rightarrow> (nat \<times> nat) option" where
  "file_signature files p = map_option (\<lambda>(t, b). (t, length b)) (files p)"

definition read_as :: "(str \<Rightarrow> 'a option) \<Rightarrow> policy_files \<Rightarrow> str \<Rightarrow> policy_error + 'a" where
  "read_as decode files p =
     (case files p of
        None \<Rightarrow> Inl (FileUnreadable p)
      | Some (_, raw) \<Rightarrow> (case decode raw of None \<Rightarrow> Inl (Unparsable p) | Some v \<Rightarrow> Inr v))"

definition write_as :: "policy_env \<Rightarrow> str option \<Rightarrow> policy_files \<Rightarrow> str \<Rightarrow> (policy_error + unit) \<times> policy_files" where
  "write_as e encoded files p =
     (case encoded of
        None \<Rightarrow> (Inl Unserializable, files)
      | Some raw \<Rightarrow>
          (case pe_write e p raw of
             Written t \<Rightarrow> (Inr (), files(p \<mapsto> (t, raw)))
           | WriteFailed f \<Rightarrow> (Inl (FileUnwritable p), files(p := f))))"

section \<open>The unified policy file\<close>

definition policy_toml_path :: "str \<Rightarrow> str" where
  "policy_toml_path d = join_path d ''policy.toml''"

definition policy_json_path :: "str \<Rightarrow> str" where
  "policy_json_path d = join_path d ''policy.json''"

definition existing_policy_path :: "policy_env \<Rightarrow> policy_files \<Rightarrow> policy_error + str option" where
  "existing_policy_path e files =
     (case pe_dir e of
        None \<Rightarrow> Inl NoConfigDir
      | Some d \<Rightarrow>
          if files (policy_toml_path d) \<noteq> None then Inr (Some (policy_toml_path d))
          else if files (policy_json_path d) \<noteq> None then Inr (Some (policy_json_path d))
          else Inr None)"

definition parse_policy :: "policy_env \<Rightarrow> str \<Rightarrow> str \<Rightarrow> policy_error + agent_policy_file" where
  "parse_policy e p raw =
     (let parsed = (\<lambda>r. case r of None \<Rightarrow> Inl (Unparsable p) | Some v \<Rightarrow> Inr v)
      in case extension p of
           None \<Rightarrow> parsed (pe_read_toml e raw)
         | Some ext \<Rightarrow>
             if ext = ''json'' then parsed (pe_read_json e raw)
             else if ext = ''toml'' then parsed (pe_read_toml e raw)
             else Inl (UnsupportedExtension ext))"

definition load_policy_from_path :: "policy_env \<Rightarrow> policy_files \<Rightarrow> str \<Rightarrow> policy_error + agent_policy_file" where
  "load_policy_from_path e files p =
     (case files p of None \<Rightarrow> Inl (FileUnreadable p) | Some (_, raw) \<Rightarrow> parse_policy e p raw)"

definition load_policy_file ::
  "policy_env \<Rightarrow> policy_state \<Rightarrow> (policy_error + agent_policy_file option) \<times> policy_state" where
  "load_policy_file e s =
     (case (existing_policy_path e (pol_files s), pe_dir e) of
        (Inr resolved, Some d) \<Rightarrow>
          (let key = (case resolved of Some p \<Rightarrow> p | None \<Rightarrow> policy_toml_path d);
               loaded = (case resolved of
                   None \<Rightarrow> Inr None
                 | Some p \<Rightarrow> map_sum id Some (load_policy_from_path e (pol_files s) p));
               (r, slot) = load_with (components key) (file_signature (pol_files s) key) loaded (pol_slot s)
           in (r, s\<lparr>pol_slot := slot\<rparr>))
      | _ \<Rightarrow> (Inl NoConfigDir, s))"

definition validate_policy_path ::
  "policy_env \<Rightarrow> str option \<Rightarrow> policy_state \<Rightarrow> (policy_error + agent_policy_file) \<times> policy_state" where
  "validate_policy_path e path s =
     (case path of
        Some p \<Rightarrow> (load_policy_from_path e (pol_files s) p, s)
      | None \<Rightarrow>
          (case load_policy_file e s of
             (Inl err, s') \<Rightarrow> (Inl err, s')
           | (Inr None, s') \<Rightarrow> (Inl NoPolicyFile, s')
           | (Inr (Some f), s') \<Rightarrow> (Inr f, s')))"

definition policy_approval_policies ::
  "policy_env \<Rightarrow> policy_state \<Rightarrow> (policy_error + approval_policy list option) \<times> policy_state" where
  "policy_approval_policies e s = apfst (map_sum id (map_option ap_policies)) (load_policy_file e s)"

definition save_policy_to_path ::
  "policy_env \<Rightarrow> policy_files \<Rightarrow> str \<Rightarrow> agent_policy_file \<Rightarrow> (policy_error + unit) \<times> policy_files" where
  "save_policy_to_path e files p policy =
     (case extension p of
        None \<Rightarrow> write_as e (pe_show_toml e policy) files p
      | Some ext \<Rightarrow>
          if ext = ''json'' then write_as e (pe_show_json e policy) files p
          else if ext = ''toml'' then write_as e (pe_show_toml e policy) files p
          else (Inl (UnsupportedExtension ext), files))"

definition save_policy_approval_policies ::
  "policy_env \<Rightarrow> approval_policy list \<Rightarrow> policy_state \<Rightarrow> (policy_error + bool) \<times> policy_state" where
  "save_policy_approval_policies e policies s =
     (case existing_policy_path e (pol_files s) of
        Inl err \<Rightarrow> (Inl err, s)
      | Inr None \<Rightarrow> (Inr False, s)
      | Inr (Some p) \<Rightarrow>
          (case load_policy_from_path e (pol_files s) p of
             Inl err \<Rightarrow> (Inl err, s)
           | Inr policy \<Rightarrow>
               (case save_policy_to_path e (pol_files s) p (policy\<lparr>ap_policies := policies\<rparr>) of
                  (Inl err, files) \<Rightarrow> (Inl err, s\<lparr>pol_files := files\<rparr>)
                | (Inr _, files) \<Rightarrow>
                    (Inr True, s\<lparr>pol_files := files, pol_slot := invalidate (pol_slot s)\<rparr>))))"

section \<open>The separate files\<close>

definition in_config_dir :: "policy_env \<Rightarrow> str \<Rightarrow> str" where
  "in_config_dir e name = join_path (case pe_dir e of Some d \<Rightarrow> d | None \<Rightarrow> ''.'') name"

definition approval_policies_path :: "policy_env \<Rightarrow> str" where
  "approval_policies_path e = in_config_dir e ''approval_policies.toml''"

definition load_approval_policies ::
  "policy_env \<Rightarrow> policy_state \<Rightarrow> (policy_error + approval_policy list) \<times> policy_state" where
  "load_approval_policies e s =
     (case policy_approval_policies e s of
        (Inl err, s') \<Rightarrow> (Inl err, s')
      | (Inr (Some policies), s') \<Rightarrow> (Inr policies, s')
      | (Inr None, s') \<Rightarrow>
          (if pol_files s' (approval_policies_path e) = None then (Inr [], s')
           else (read_as (pe_read_approvals e) (pol_files s') (approval_policies_path e), s')))"

definition save_approval_policies ::
  "policy_env \<Rightarrow> approval_policy list \<Rightarrow> policy_state \<Rightarrow> (policy_error + unit) \<times> policy_state" where
  "save_approval_policies e policies s =
     (case save_policy_approval_policies e policies s of
        (Inl err, s') \<Rightarrow> (Inl err, s')
      | (Inr True, s') \<Rightarrow> (Inr (), s')
      | (Inr False, s') \<Rightarrow>
          (case write_as e (pe_show_approvals e policies) (pol_files s') (approval_policies_path e) of
             (r, files) \<Rightarrow> (r, s'\<lparr>pol_files := files\<rparr>)))"

definition risk_rules_path :: "policy_env \<Rightarrow> str" where
  "risk_rules_path e = in_config_dir e ''risk_rules.toml''"

definition no_rules :: risk_rules where
  "no_rules = \<lparr>blocked_rules = \<lparr>patterns = []\<rparr>, high_rules = \<lparr>patterns = []\<rparr>, medium_rules = \<lparr>patterns = []\<rparr>\<rparr>"

definition load_risk_rules :: "policy_env \<Rightarrow> policy_state \<Rightarrow> (policy_error + risk_rules) \<times> policy_state" where
  "load_risk_rules e s =
     (case existing_policy_path e (pol_files s) of
        Inl err \<Rightarrow> (Inl err, s)
      | Inr policy_path \<Rightarrow>
          (let p = (case policy_path of Some p \<Rightarrow> p | None \<Rightarrow> risk_rules_path e);
               current = map_option fst (pol_files s p)
           in if cr_modified (pol_rules s) \<noteq> None \<and> cr_modified (pol_rules s) = current
              then (Inr (cr_rules (pol_rules s)), s)
              else if policy_path = None \<and> pol_files s p = None
              then (Inr no_rules, s\<lparr>pol_rules := \<lparr>cr_rules = no_rules, cr_modified = None\<rparr>\<rparr>)
              else case (if policy_path \<noteq> None
                         then map_sum id ap_risk (load_policy_from_path e (pol_files s) p)
                         else read_as (pe_read_rules e) (pol_files s) p) of
                     Inl err \<Rightarrow> (Inl err, s)
                   | Inr rules \<Rightarrow> (Inr rules, s\<lparr>pol_rules := \<lparr>cr_rules = rules, cr_modified = current\<rparr>\<rparr>)))"

section \<open>The policy test of the command line client\<close>

datatype policy_decision = PolicyAllow | PolicyApprove | PolicyBlock

record policy_test_result =
  pt_command :: str
  pt_host :: str
  pt_risk_level :: risk_level
  pt_decision :: policy_decision
  pt_matched_approval_policy :: "str option"
  pt_matched_user_rule :: bool

text \<open>\<open>None\<close> is a panic of the classifier.\<close>

definition effective_risk_for_policy :: "exec_ctx \<Rightarrow> str \<Rightarrow> risk_level option \<Rightarrow> (risk_level \<times> bool) option" where
  "effective_risk_for_policy ctx command risk_override =
     map_option (\<lambda>effective. (apply_risk_override effective risk_override,
         classify_with_user_rules (ctx_rules ctx) command \<noteq> None))
       (effective_command_risk ctx command)"

definition test_policy_decision :: "exec_ctx \<Rightarrow> str \<Rightarrow> str \<Rightarrow> (str + policy_test_result) option" where
  "test_policy_decision ctx host command =
     (let target = command_authorization_target (ctx_config ctx) host
      in do { (risk, matched_user_rule) \<leftarrow>
                effective_risk_for_policy ctx command (target_risk_override target);
              Some (case check_approval_required (ctx_policies ctx) host (target_tags target) command risk of
                  Inl e \<Rightarrow> Inl e
                | Inr approval \<Rightarrow>
                    Inr \<lparr>pt_command = command, pt_host = host, pt_risk_level = risk,
                         pt_decision = (if risk = Blocked then PolicyBlock
                           else if risk = High \<or> approval \<noteq> None then PolicyApprove else PolicyAllow),
                         pt_matched_approval_policy = map_option policy_name approval,
                         pt_matched_user_rule = matched_user_rule\<rparr>) })"

section \<open>A save is read back\<close>

text \<open>What the code relies on: a text that was written is read back.\<close>

definition faithful_codec :: "policy_env \<Rightarrow> bool" where
  "faithful_codec e \<longleftrightarrow>
     (\<forall>p b. pe_show_toml e p = Some b \<longrightarrow> pe_read_toml e b = Some p) \<and>
     (\<forall>p b. pe_show_json e p = Some b \<longrightarrow> pe_read_json e b = Some p) \<and>
     (\<forall>p b. pe_show_approvals e p = Some b \<longrightarrow> pe_read_approvals e b = Some p)"

text \<open>What a process does with its policies, and what others do with the files.\<close>

datatype policy_event =
    LoadPolicyFile
  | ValidatePolicy "str option"
  | LoadApprovals
  | SaveApprovals "approval_policy list"
  | LoadRules
  | EditFile str "(nat \<times> str) option"

fun policy_step :: "policy_env \<Rightarrow> policy_state \<Rightarrow> policy_event \<Rightarrow> policy_state" where
  "policy_step e s LoadPolicyFile = snd (load_policy_file e s)"
| "policy_step e s (ValidatePolicy path) = snd (validate_policy_path e path s)"
| "policy_step e s LoadApprovals = snd (load_approval_policies e s)"
| "policy_step e s (SaveApprovals policies) = snd (save_approval_policies e policies s)"
| "policy_step e s LoadRules = snd (load_risk_rules e s)"
| "policy_step e s (EditFile p f) = s\<lparr>pol_files := (pol_files s)(p := f)\<rparr>"

definition policy_start :: "policy_files \<Rightarrow> policy_state" where
  "policy_start files =
     \<lparr>pol_files = files, pol_slot = None, pol_rules = \<lparr>cr_rules = no_rules, cr_modified = None\<rparr>\<rparr>"

text \<open>An entry made without a file says that there is no policy.\<close>

fun slot_ok :: "policy_slot option \<Rightarrow> bool" where
  "slot_ok None = True"
| "slot_ok (Some c) = (ce_signature c = None \<longrightarrow> ce_value c = None)"

definition slot_sound :: "policy_state \<Rightarrow> bool" where
  "slot_sound s = slot_ok (pol_slot s)"

lemma existing_policy_path_Some:
  assumes "existing_policy_path e files = Inr (Some p)"
  shows "files p \<noteq> None \<and> (\<exists>d. pe_dir e = Some d \<and> (p = policy_toml_path d \<or> p = policy_json_path d))"
  using assms by (auto simp: existing_policy_path_def split: option.splits if_splits)

lemma load_with_sound:
  assumes "load_with k g loaded slot = (r, slot')" "slot_ok slot"
    and "\<And>v. g = None \<Longrightarrow> loaded = Inr v \<Longrightarrow> v = None"
  shows "slot_ok slot'"
  using assms by (auto simp: load_with_def split: option.splits if_splits sum.splits)

lemma load_policy_file_steps:
  assumes "existing_policy_path e (pol_files s) = Inr resolved"
  obtains k loaded where
    "load_policy_file e s = (let (r, slot) = load_with (components k) (file_signature (pol_files s) k) loaded (pol_slot s)
       in (r, s\<lparr>pol_slot := slot\<rparr>))"
    "resolved = None \<longrightarrow> (\<exists>d. pe_dir e = Some d \<and> k = policy_toml_path d) \<and> loaded = Inr None"
    "\<And>p. resolved = Some p \<Longrightarrow> k = p \<and> loaded = map_sum id Some (load_policy_from_path e (pol_files s) p)"
proof -
  from assms obtain d where d: "pe_dir e = Some d" by (auto simp: existing_policy_path_def split: option.splits)
  show thesis
  proof (cases resolved)
    case None
    show thesis by (rule that [of "policy_toml_path d" "Inr None"]) (simp_all add: load_policy_file_def assms d None Let_def)
  next
    case (Some p)
    show thesis
      by (rule that [of p "map_sum id Some (load_policy_from_path e (pol_files s) p)"])
        (simp_all add: load_policy_file_def assms d Some Let_def)
  qed
qed

lemma load_policy_file_slot:
  assumes "slot_sound s"
  shows "slot_sound (snd (load_policy_file e s))" "pol_files (snd (load_policy_file e s)) = pol_files s"
proof -
  have "slot_sound (snd (load_policy_file e s)) \<and> pol_files (snd (load_policy_file e s)) = pol_files s"
  proof (cases "existing_policy_path e (pol_files s)")
    case (Inr resolved)
    then obtain k loaded where l: "load_policy_file e s =
        (let (r, slot) = load_with (components k) (file_signature (pol_files s) k) loaded (pol_slot s) in (r, s\<lparr>pol_slot := slot\<rparr>))"
        "resolved = None \<longrightarrow> loaded = Inr None" "\<And>p. resolved = Some p \<Longrightarrow> k = p"
      by (rule load_policy_file_steps) blast
    obtain r slot where lw: "load_with (components k) (file_signature (pol_files s) k) loaded (pol_slot s) = (r, slot)"
      by fastforce
    have none: "v = None" if "file_signature (pol_files s) k = None" "loaded = Inr v" for v
    proof (cases resolved)
      case (Some p)
      with existing_policy_path_Some [of e "pol_files s" p] Inr l(3) [OF Some] that(1) show ?thesis
        by (simp add: file_signature_def)
    qed (use l(2) that(2) in simp)
    have "slot_ok slot" by (rule load_with_sound [OF lw assms [unfolded slot_sound_def]]) (rule none)
    then have "slot_sound (s\<lparr>pol_slot := slot\<rparr>)" by (simp add: slot_sound_def)
    with l(1) lw show ?thesis by simp
  qed (use assms in \<open>simp add: load_policy_file_def split: option.split\<close>)
  then show "slot_sound (snd (load_policy_file e s))" "pol_files (snd (load_policy_file e s)) = pol_files s" by simp_all
qed

lemma load_approval_policies_slot:
  "snd (load_approval_policies e s) = snd (load_policy_file e s)"
  by (cases "load_policy_file e s")
    (auto simp: load_approval_policies_def policy_approval_policies_def split: sum.splits option.splits)

lemma validate_policy_path_slot:
  "snd (validate_policy_path e path s) = (if path = None then snd (load_policy_file e s) else s)"
proof -
  obtain r s' where "load_policy_file e s = (r, s')" by fastforce
  then show ?thesis by (cases path; cases r rule: sum.exhaust) (auto simp: validate_policy_path_def split: option.split)
qed

lemma save_policy_approval_policies_slot:
  assumes "save_policy_approval_policies e policies s = (r, s')"
  shows "pol_slot s' = pol_slot s \<or> pol_slot s' = None"
proof (cases "existing_policy_path e (pol_files s)")
  case (Inr resolved)
  show ?thesis
  proof (cases resolved)
    case (Some p)
    show ?thesis
    proof (cases "load_policy_from_path e (pol_files s) p")
      case (Inr policy)
      obtain q files where "save_policy_to_path e (pol_files s) p (policy\<lparr>ap_policies := policies\<rparr>) = (q, files)"
        by fastforce
      with assms Inr Some \<open>existing_policy_path e (pol_files s) = Inr resolved\<close> show ?thesis
        by (cases q) (auto simp: save_policy_approval_policies_def invalidate_def)
    qed (use assms Inr Some in \<open>simp add: save_policy_approval_policies_def\<close>)
  qed (use assms Inr in \<open>simp add: save_policy_approval_policies_def\<close>)
qed (use assms in \<open>simp add: save_policy_approval_policies_def\<close>)

lemma save_approval_policies_slot:
  "pol_slot (snd (save_approval_policies e policies s)) = pol_slot s \<or>
   pol_slot (snd (save_approval_policies e policies s)) = None"
proof -
  obtain r s' where "save_policy_approval_policies e policies s = (r, s')" by fastforce
  with save_policy_approval_policies_slot [OF this] show ?thesis
    by (auto simp: save_approval_policies_def split: sum.split bool.split prod.split)
qed

lemma load_risk_rules_slot: "pol_slot (snd (load_risk_rules e s)) = pol_slot s"
  by (auto simp: load_risk_rules_def Let_def split: sum.splits option.splits)

lemma policy_step_sound:
  assumes "slot_sound s"
  shows "slot_sound (policy_step e s ev)"
proof (cases ev)
  case (SaveApprovals policies)
  with assms save_approval_policies_slot [of e policies s] show ?thesis by (auto simp: slot_sound_def)
qed (use assms load_policy_file_slot(1) [OF assms] in
  \<open>auto simp: load_approval_policies_slot validate_policy_path_slot slot_sound_def load_risk_rules_slot\<close>)

interpretation policies: state_machine "policy_step e" "\<lambda>_ _. True" slot_sound
  for e :: policy_env
  by unfold_locales (rule policy_step_sound)

lemma policy_run_sound: "slot_sound (foldl (policy_step e) (policy_start files) evs)"
proof -
  have "admissible (policy_step e) (\<lambda>_ _. True) s evs" for s by (induction evs arbitrary: s) auto
  moreover have "slot_sound (policy_start files)" by (simp add: slot_sound_def policy_start_def)
  ultimately show ?thesis by (rule policies.run_inv [rotated])
qed

lemma split_char_append: "split_char d (u @ d # v) = split_char d u @ split_char d v"
  by (induction u) (auto split: list.split simp: Cons_eq_append_conv)

lemma last_component:
  assumes "f \<noteq> []" "CHR ''/'' \<notin> set f" "f \<noteq> ''.''"
  shows "snd (components (join_path d f)) \<noteq> [] \<and> last (snd (components (join_path d f))) = f"
proof -
  have f: "split_char (CHR ''/'') f = [f]" using assms(2) by (induction f) auto
  have rel: "\<not> is_absolute f" using assms(1,2) by (cases f) (auto simp: is_absolute_def)
  show ?thesis
  proof (cases "d = []")
    case True
    with f assms(1) rel show ?thesis by (simp add: join_path_def components_def Let_def)
  next
    case False
    have *: "snd (components (u @ ''/'' @ f)) \<noteq> [] \<and> last (snd (components (u @ ''/'' @ f))) = f" for u
      using assms(1,3) f split_char_not_Nil [of "CHR ''/''" u]
      by (cases "split_char (CHR ''/'') u") (auto simp: components_def Let_def split_char_append)
    from False obtain u c where d: "d = u @ [c]" by (cases d rule: rev_cases) auto
    show ?thesis using * [of u] * [of d] rel by (auto simp: join_path_def d)
  qed
qed

lemma policy_extension:
  "extension (policy_toml_path d) = Some ''toml''" "extension (policy_json_path d) = Some ''json''"
  using last_component [of "''policy.toml''" d] last_component [of "''policy.json''" d]
  by (simp_all add: extension_def policy_toml_path_def policy_json_path_def)

lemma join_path_inj:
  "\<not> is_absolute u \<Longrightarrow> \<not> is_absolute v \<Longrightarrow> join_path d u = join_path d v \<longleftrightarrow> u = v"
  by (auto simp: join_path_def)

lemma write_as_Inr:
  assumes "write_as e encoded files p = (Inr (), files')"
  shows "\<exists>raw t. encoded = Some raw \<and> files' = files(p \<mapsto> (t, raw))"
  using assms by (auto simp: write_as_def split: option.splits write_outcome.splits)

lemma save_policy_to_path_reads_back:
  assumes "faithful_codec e" "save_policy_to_path e files p policy = (Inr (), files')"
  shows "load_policy_from_path e files' p = Inr policy \<and> (\<exists>f. files' = files(p \<mapsto> f))"
proof -
  consider (toml) "extension p = None \<or> extension p = Some ''toml''" "write_as e (pe_show_toml e policy) files p = (Inr (), files')"
    | (json) "extension p = Some ''json''" "write_as e (pe_show_json e policy) files p = (Inr (), files')"
    using assms(2) by (auto simp: save_policy_to_path_def split: option.splits if_splits)
  then show ?thesis
  proof cases
    case toml
    from write_as_Inr [OF toml(2)] toml(1) assms(1) show ?thesis
      by (auto simp: load_policy_from_path_def parse_policy_def faithful_codec_def)
  next
    case json
    from write_as_Inr [OF json(2)] json(1) assms(1) show ?thesis
      by (auto simp: load_policy_from_path_def parse_policy_def faithful_codec_def)
  qed
qed

text \<open>What a process without a cache would read.\<close>

definition policy_on_disk :: "policy_env \<Rightarrow> policy_files \<Rightarrow> policy_error + agent_policy_file option" where
  "policy_on_disk e files =
     (case existing_policy_path e files of
        Inl err \<Rightarrow> Inl err
      | Inr None \<Rightarrow> Inr None
      | Inr (Some p) \<Rightarrow> map_sum id Some (load_policy_from_path e files p))"

lemma existing_after_write:
  "existing_policy_path e files = Inr (Some p) \<Longrightarrow> existing_policy_path e (files(p \<mapsto> f)) = Inr (Some p)"
  by (cases f) (auto simp: existing_policy_path_def split: option.splits if_splits)

lemma uncached_load:
  "pol_slot s = None \<Longrightarrow> fst (load_policy_file e s) = policy_on_disk e (pol_files s)"
proof (cases "existing_policy_path e (pol_files s)")
  case (Inr resolved)
  assume "pol_slot s = None"
  with Inr show ?thesis
    by (auto intro: load_policy_file_steps [OF Inr] simp: policy_on_disk_def load_with_def
        split: option.split sum.split)
qed (auto simp: load_policy_file_def policy_on_disk_def existing_policy_path_def split: option.splits if_splits)

lemma sound_load:
  assumes "slot_sound s" "existing_policy_path e (pol_files s) = Inr None"
  shows "fst (load_policy_file e s) = Inr None"
proof -
  from assms(2) obtain d where d: "pe_dir e = Some d" by (auto simp: existing_policy_path_def split: option.splits)
  with assms(2) have "pol_files s (policy_toml_path d) = None"
    by (cases "pol_files s (policy_toml_path d)") (auto simp: existing_policy_path_def split: if_splits)
  with assms d show ?thesis
    by (cases "pol_slot s") (auto simp: load_policy_file_def Let_def file_signature_def load_with_def slot_sound_def)
qed

text \<open>
  A saved list of approval policies is read back at once. After any loads, saves and
  edits of the files by others, whatever is cached, a save that succeeds makes the next load return
  the list, in the unified policy file or else in the separate one; and a unified policy file keeps
  everything else it says, the risk rules among it.
\<close>

theorem saved_policies_are_read:
  assumes "faithful_codec e" "s = foldl (policy_step e) (policy_start files) evs"
    and "save_approval_policies e policies s = (Inr (), s')"
  shows "fst (load_approval_policies e s') = Inr policies \<and>
    policy_on_disk e (pol_files s') =
      map_sum id (map_option (\<lambda>f. f\<lparr>ap_policies := policies\<rparr>)) (policy_on_disk e (pol_files s))"
proof -
  have sound: "slot_sound s" using policy_run_sound assms(2) by simp
  obtain r s1 where s1: "save_policy_approval_policies e policies s = (Inr r, s1)"
    using assms(3) by (auto simp: save_approval_policies_def split: prod.splits sum.splits)
  then obtain resolved where ex: "existing_policy_path e (pol_files s) = Inr resolved"
    by (auto simp: save_policy_approval_policies_def split: sum.splits)
  show ?thesis
  proof (cases resolved)
    case None
    with ex s1 have "r = False" "s1 = s" by (auto simp: save_policy_approval_policies_def)
    with assms(3) s1 obtain fs where w: "write_as e (pe_show_approvals e policies) (pol_files s) (approval_policies_path e) = (Inr (), fs)"
        "s' = s\<lparr>pol_files := fs\<rparr>"
      by (auto simp: save_approval_policies_def split: prod.splits)
    from write_as_Inr [OF w(1)] obtain raw t where raw: "pe_show_approvals e policies = Some raw"
        "fs = (pol_files s)(approval_policies_path e \<mapsto> (t, raw))" by blast
    from ex None obtain d where d: "pe_dir e = Some d" by (auto simp: existing_policy_path_def split: option.splits)
    then have ne: "approval_policies_path e \<noteq> policy_toml_path d" "approval_policies_path e \<noteq> policy_json_path d"
      by (simp_all add: approval_policies_path_def in_config_dir_def policy_toml_path_def policy_json_path_def
          join_path_inj is_absolute_def)
    with ex None d raw(2) have ex': "existing_policy_path e fs = Inr None"
      by (auto simp: existing_policy_path_def split: if_splits)
    have "fst (load_policy_file e s') = Inr None" using sound ex' w(2) by (intro sound_load) (simp_all add: slot_sound_def)
    moreover have "pol_files (snd (load_policy_file e s')) = fs" using sound w(2) load_policy_file_slot(2) [of s' e]
      by (simp add: slot_sound_def)
    moreover have "pe_read_approvals e raw = Some policies" using assms(1) raw(1) by (simp add: faithful_codec_def)
    ultimately have "fst (load_approval_policies e s') = Inr policies"
      by (cases "load_policy_file e s'") (simp add: load_approval_policies_def policy_approval_policies_def read_as_def raw(2))
    with ex ex' None w(2) show ?thesis by (simp add: policy_on_disk_def)
  next
    case (Some p)
    with ex s1 obtain policy fs where p: "load_policy_from_path e (pol_files s) p = Inr policy"
        "save_policy_to_path e (pol_files s) p (policy\<lparr>ap_policies := policies\<rparr>) = (Inr (), fs)"
        "r = True" "s1 = s\<lparr>pol_files := fs, pol_slot := None\<rparr>"
      by (auto simp: save_policy_approval_policies_def invalidate_def split: sum.splits prod.splits)
    with assms(3) s1 have s': "s' = s\<lparr>pol_files := fs, pol_slot := None\<rparr>" by (simp add: save_approval_policies_def)
    from save_policy_to_path_reads_back [OF assms(1) p(2)] existing_after_write [of e "pol_files s" p] ex Some
    have disk: "policy_on_disk e fs = Inr (Some (policy\<lparr>ap_policies := policies\<rparr>))"
      by (auto simp: policy_on_disk_def)
    with uncached_load [of s' e] s' have "fst (load_policy_file e s') = Inr (Some (policy\<lparr>ap_policies := policies\<rparr>))" by simp
    then have "fst (load_approval_policies e s') = Inr policies"
      by (cases "load_policy_file e s'") (simp add: load_approval_policies_def policy_approval_policies_def)
    with disk ex Some p(1) s' show ?thesis by (simp add: policy_on_disk_def)
  qed
qed

definition demo_rule :: approval_policy where
  "demo_rule = \<lparr>policy_name = ''prod'', policy_hosts = [], policy_tags = [''prod''], min_risk = Some High,
     command_pattern = None, requires_approval = True, policy_ttl_secs = Some 300\<rparr>"

definition demo_policy :: agent_policy_file where
  "demo_policy = \<lparr>ap_risk = no_rules\<lparr>blocked_rules := \<lparr>patterns = [''reboot'']\<rparr>\<rparr>, ap_policies = []\<rparr>"

definition demo_policy_env :: policy_env where
  "demo_policy_env =
     (let decode = map_of [(''p'', demo_policy), (''q'', demo_policy\<lparr>ap_policies := [demo_rule]\<rparr>)];
          encode = (\<lambda>f. if f = demo_policy then Some ''p'' else if f = demo_policy\<lparr>ap_policies := [demo_rule]\<rparr> then Some ''q'' else None)
      in \<lparr>pe_dir = Some ''/c'', pe_read_toml = decode, pe_read_json = decode, pe_show_toml = encode, pe_show_json = encode,
          pe_read_rules = map_of [(''r'', no_rules)], pe_read_approvals = Map.empty, pe_show_approvals = Map.empty,
          pe_write = (\<lambda>_ _. Written 7)\<rparr>)"

lemma demo_policy_env_faithful: "faithful_codec demo_policy_env"
  by (simp add: faithful_codec_def demo_policy_env_def Let_def demo_policy_def demo_rule_def)

lemma saved_policies_are_read_witness:
  "\<exists>s'. save_approval_policies demo_policy_env [demo_rule]
      (foldl (policy_step demo_policy_env) (policy_start Map.empty)
         [LoadApprovals, EditFile ''/c/policy.json'' (Some (3, ''p'')), LoadPolicyFile]) = (Inr (), s') \<and>
    fst (load_approval_policies demo_policy_env s') = Inr [demo_rule]"
proof -
  let ?evs = "[LoadApprovals, EditFile ''/c/policy.json'' (Some (3, ''p'')), LoadPolicyFile]"
  let ?s = "foldl (policy_step demo_policy_env) (policy_start Map.empty) ?evs"
  have "fst (save_approval_policies demo_policy_env [demo_rule] ?s) = Inr ()" by code_simp
  then have save: "save_approval_policies demo_policy_env [demo_rule] ?s =
      (Inr (), snd (save_approval_policies demo_policy_env [demo_rule] ?s))" by (simp add: prod_eq_iff)
  from saved_policies_are_read [OF demo_policy_env_faithful refl this] show ?thesis
    by (intro exI [of _ "snd (save_approval_policies demo_policy_env [demo_rule] ?s)"] conjI save) blast
qed

section \<open>The rules have a coarser cache\<close>

text \<open>
  The cached rules are identified by a modification time alone, without the path and the length. A
  policy file that appears with the time of the rule file it replaces is not read, whatever it says.
\<close>

lemma replaced_rules_stay_cached:
  assumes "pe_dir e = Some d" "files (policy_toml_path d) = None" "files (policy_json_path d) = None"
    and "files (risk_rules_path e) = Some (t, raw)" "pe_read_rules e raw = Some rules"
  shows "fst (load_risk_rules e (foldl (policy_step e) (policy_start files)
    [LoadRules, EditFile (policy_toml_path d) (Some (t, b))])) = Inr rules"
  using assms
  by (simp add: load_risk_rules_def policy_start_def existing_policy_path_def read_as_def)

section \<open>The policy test predicts the authorization\<close>

text \<open>
  Property (C33): the policy test of the command line predicts the authorization. For a source the
  host accepts, outside any token scope and without force, what it says is allowed runs without
  anybody being asked, what it says is blocked is refused, and for the rest the approver is asked
  about the policy and the risk the test names, with nothing between the question and its answer.
\<close>

theorem policy_test_predicts:
  assumes "test_policy_decision ctx (in_host i) (in_command i) = Some (Inr r)"
    and "target = command_authorization_target (ctx_config ctx) (in_host i)"
    and "in_tags i = target_tags target" "in_risk_override i = target_risk_override target"
    and "auth_scope i = None" "host_allows_source (ctx_config ctx) (in_host i) (in_source i)" "\<not> in_force i"
  shows "case pt_decision r of
      PolicyAllow \<Rightarrow> authorize_command_with_approval ctx ctx' i approval w =
        Some (Inr \<lparr>auth_risk = pt_risk_level r, auth_approved = False, auth_command = None\<rparr>, w)
    | PolicyBlock \<Rightarrow> map_option fst (authorize_command_with_approval ctx ctx' i approval w) =
        Some (Inl (BlockedError (pt_risk_level r) (about ''command blocked by risk policy'' (in_command i))))
    | PolicyApprove \<Rightarrow> (\<exists>policy. map_option policy_name policy = pt_matched_approval_policy r \<and>
        authorize_command_with_approval ctx ctx' i approval w =
          (case approval (prompt_of ctx i (pt_risk_level r) policy) w of
             (Inl e, w') \<Rightarrow> Some (Inl (Internal e), w')
           | (Inr outcome, w') \<Rightarrow> conclude ctx' i (pt_risk_level r) outcome w'))"
proof -
  from assms(1) obtain effective where eff: "effective_command_risk ctx (in_command i) = Some effective"
    by (auto simp: test_policy_decision_def effective_risk_for_policy_def bind_eq_Some_conv Let_def)
  let ?risk = "apply_risk_override effective (in_risk_override i)"
  from assms(1-4) eff obtain policy where p: "check_approval_required (ctx_policies ctx) (in_host i) (in_tags i) (in_command i) ?risk = Inr policy"
      "pt_risk_level r = ?risk" "pt_matched_approval_policy r = map_option policy_name policy"
      "pt_decision r = (if ?risk = Blocked then PolicyBlock else if ?risk = High \<or> policy \<noteq> None then PolicyApprove else PolicyAllow)"
    by (auto simp: test_policy_decision_def effective_risk_for_policy_def Let_def split: sum.splits)
  have scope: "check_daemon_scope (auth_scope i) (in_host i) (in_tags i) (in_command i) = Inr ()"
    using assms(5) by (simp add: check_daemon_scope_def)
  note auth = authorize_command_with_approval_def scope eff p(1) assms(6,7) Let_def
  consider (block) "?risk = Blocked" | (ask) "?risk \<noteq> Blocked" "?risk = High \<or> policy \<noteq> None"
    | (allow) "?risk \<noteq> Blocked" "?risk \<noteq> High" "policy = None" by blast
  then show ?thesis
  proof cases
    case block
    then show ?thesis by (simp add: p(2,4) auth)
  next
    case ask
    then have "authorize_command_with_approval ctx ctx' i approval w =
        (case approval (prompt_of ctx i ?risk policy) w of
           (Inl e, w') \<Rightarrow> Some (Inl (Internal e), w') | (Inr outcome, w') \<Rightarrow> conclude ctx' i ?risk outcome w')"
      by (auto simp: auth)
    moreover from ask have dec: "pt_decision r = PolicyApprove" by (auto simp: p(4))
    ultimately show ?thesis
      unfolding dec policy_decision.case p(2,3) by (intro exI [of _ policy] conjI) simp_all
  next
    case allow
    then show ?thesis by (simp add: p(2,4) auth)
  qed
qed

lemma policy_test_predicts_witness:
  "map_option (map_sum id pt_decision) (test_policy_decision demo_ctx ''web'' ''ls (('') = Some (Inr PolicyApprove) \<and>
   authorize_command_with_approval demo_ctx demo_ctx demo_input (\<lambda>_ w. (Inr Rejected, w)) empty_world =
      conclude demo_ctx demo_input High Rejected empty_world"
proof -
  let ?r = "\<lparr>pt_command = ''ls (('', pt_host = ''web'', pt_risk_level = High, pt_decision = PolicyApprove,
    pt_matched_approval_policy = None, pt_matched_user_rule = False\<rparr>"
  have t: "test_policy_decision demo_ctx (in_host demo_input) (in_command demo_input) = Some (Inr ?r)"
    by (simp add: test_policy_decision_def demo_ctx_def demo_input_def effective_risk_for_policy_def
        command_authorization_target_def find_profile_def effective_command_risk_def
        classify_effective_risk_def classify_with_user_rules_def check_approval_required_def Let_def)
  have "in_tags demo_input = target_tags (command_authorization_target (ctx_config demo_ctx) (in_host demo_input))"
    "in_risk_override demo_input = target_risk_override (command_authorization_target (ctx_config demo_ctx) (in_host demo_input))"
    "auth_scope demo_input = None" "host_allows_source (ctx_config demo_ctx) (in_host demo_input) (in_source demo_input)"
    "\<not> in_force demo_input"
    by (simp_all add: demo_ctx_def demo_input_def command_authorization_target_def find_profile_def host_allows_source_def)
  from policy_test_predicts [OF t refl this, of demo_ctx "\<lambda>_ w. (Inr Rejected, w)" empty_world] t show ?thesis
    by (simp add: demo_input_def)
qed

end
