(* ===== verification/Anomaly.thy ===== *)
theory Anomaly
  imports Audit_Query Risk_Rules Text_Split "HOL-Library.Multiset"
begin

text \<open>
  \<open>anomaly.rs\<close>: what is unusual about an audited command (a burst of one source, a sensitive command, a
  risky one after hours) and about the errors of the program itself. Instants count nanoseconds.
  Reading the file of the configuration goes through the cache of \<open>Config_Cache\<close>; it is an argument here.
  \<open>None\<close> is a panic of chrono: a duration it cannot hold, or an instant before \<open>earliest\<close>.
\<close>

record anomaly_config =
  an_enabled :: bool
  window_secs :: int
  source_burst_threshold :: nat
  sensitive_threshold :: nat
  sensitive_patterns :: "str list"
  after_hours_start :: nat
  after_hours_end :: nat
  after_hours_risks :: "risk_level list"
  diagnostic_error_threshold :: nat
  diagnostic_cooldown_secs :: int

datatype anomaly_kind = SourceBurst | SensitivePattern | AfterHours | DiagnosticErrorBurst

datatype anomaly_severity = MediumSeverity | HighSeverity

record anomaly_finding =
  fi_kind :: anomaly_kind
  fi_severity :: anomaly_severity
  fi_reason :: str
  fi_source :: str
  fi_host :: str
  fi_command :: str
  fi_count :: nat
  fi_threshold :: nat
  fi_window_secs :: int

definition default_sensitive_patterns :: "str list" where
  "default_sensitive_patterns = [''sudo*'', ''rm -rf*'', ''terraform destroy*'', ''kubectl delete*'', ''chmod 777*'',
     ''iptables*'', ''drop table*'']"

definition default_anomaly_config :: anomaly_config where
  "default_anomaly_config =
     \<lparr>an_enabled = True, window_secs = 300, source_burst_threshold = 10, sensitive_threshold = 1,
      sensitive_patterns = default_sensitive_patterns, after_hours_start = 22, after_hours_end = 6,
      after_hours_risks = [High, Blocked], diagnostic_error_threshold = 5, diagnostic_cooldown_secs = 120\<rparr>"

section \<open>Audited commands\<close>

definition command_matches :: "str \<Rightarrow> str \<Rightarrow> bool" where
  "command_matches command pattern0 =
     (let pattern = to_lowercase (trim pattern0)
      in if pattern = [] then False
         else if CHR ''*'' \<in> set pattern then
           parts_in_order command (filter (\<lambda>part. part \<noteq> []) (split_char (CHR ''*'') pattern))
         else contains command pattern)"

definition is_after_hours :: "nat \<Rightarrow> nat \<Rightarrow> nat \<Rightarrow> bool" where
  "is_after_hours hour start0 end0 =
     (let start = min start0 23; stop = min end0 23
      in if start = stop then False
         else if start < stop then hour \<ge> start \<and> hour < stop
         else hour \<ge> start \<or> hour < stop)"

text \<open>\<open>or_insert\<close> keeps the first finding of a kind; \<open>shuffle\<close> is the order of the hash map.\<close>

definition dedupe_findings :: "(anomaly_finding list \<Rightarrow> anomaly_finding list) \<Rightarrow> anomaly_finding list \<Rightarrow> anomaly_finding list" where
  "dedupe_findings shuffle findings =
     shuffle (foldl (\<lambda>seen f. if list_ex (\<lambda>g. fi_kind g = fi_kind f) seen then seen else seen @ [f]) [] findings)"

definition seconds :: "int \<Rightarrow> int option" where
  "seconds s = (if s > (2 ^ 63 - 1) div 1000 then None else Some (s * 1000000000))"

definition before :: "int \<Rightarrow> int \<Rightarrow> int \<Rightarrow> int option" where
  "before earliest t d = (if t - d < earliest then None else Some (t - d))"

definition utc_hour :: "int \<Rightarrow> nat" where
  "utc_hour t = nat ((t div 3600000000000) mod 24)"

definition source_name :: "audit_entry \<Rightarrow> str" where
  "source_name e = (case ae_source e of Some s \<Rightarrow> s | None \<Rightarrow> ''unknown'')"

definition two_digits :: "nat \<Rightarrow> str" where
  "two_digits n = (if n < 10 then ''0'' @ show_nat n else show_nat n)"

definition is_sensitive :: "anomaly_config \<Rightarrow> audit_entry \<Rightarrow> bool" where
  "is_sensitive config e = list_ex (command_matches (to_lowercase (ae_command e))) (sensitive_patterns config)"

definition finding_on :: "anomaly_config \<Rightarrow> audit_entry \<Rightarrow> anomaly_kind \<Rightarrow> anomaly_severity \<Rightarrow> str \<Rightarrow> nat \<Rightarrow> nat \<Rightarrow> anomaly_finding" where
  "finding_on config e k severity reason n threshold =
     \<lparr>fi_kind = k, fi_severity = severity, fi_reason = reason, fi_source = source_name e, fi_host = ae_host e,
      fi_command = ae_command e, fi_count = n, fi_threshold = threshold, fi_window_secs = window_secs config\<rparr>"

definition burst_findings :: "anomaly_config \<Rightarrow> audit_entry \<Rightarrow> audit_entry list \<Rightarrow> anomaly_finding list" where
  "burst_findings config current window =
     (let source_count = length (filter (\<lambda>e. source_name e = source_name current) window)
      in if source_burst_threshold config > 0 \<and> source_count \<ge> source_burst_threshold config
         then [finding_on config current SourceBurst HighSeverity
           (''source '' @ source_name current @ '' executed '' @ show_nat source_count @ '' commands in '' @
            show_int (window_secs config) @ ''s'') source_count (source_burst_threshold config)] else [])"

definition sensitive_findings :: "anomaly_config \<Rightarrow> audit_entry \<Rightarrow> audit_entry list \<Rightarrow> anomaly_finding list" where
  "sensitive_findings config current window =
     (let sensitive_count = length (filter (is_sensitive config) window)
      in if is_sensitive config current \<and> sensitive_threshold config > 0 \<and> sensitive_count \<ge> sensitive_threshold config
         then [finding_on config current SensitivePattern HighSeverity
           (''sensitive command pattern seen '' @ show_nat sensitive_count @ '' times in '' @
            show_int (window_secs config) @ ''s'') sensitive_count (sensitive_threshold config)] else [])"

definition after_hours_findings :: "anomaly_config \<Rightarrow> audit_entry \<Rightarrow> anomaly_finding list" where
  "after_hours_findings config current =
     (if is_after_hours (utc_hour (ae_ts current)) (after_hours_start config) (after_hours_end config) \<and>
         ae_risk_level current \<in> set (after_hours_risks config)
      then [finding_on config current AfterHours MediumSeverity
        (display_risk (ae_risk_level current) @ '' risk command during after-hours window '' @
         two_digits (after_hours_start config) @ '':00-'' @ two_digits (after_hours_end config) @ '':00 UTC'')
        1 1] else [])"

definition detect_anomalies ::
  "(anomaly_finding list \<Rightarrow> anomaly_finding list) \<Rightarrow> int \<Rightarrow> audit_entry list \<Rightarrow> audit_entry \<Rightarrow> anomaly_config \<Rightarrow>
   anomaly_finding list option" where
  "detect_anomalies shuffle earliest entries current config =
     (if \<not> an_enabled config then Some []
      else do {
        d \<leftarrow> seconds (max (window_secs config) 1);
        since \<leftarrow> before earliest (ae_ts current) d;
        (let window = filter (\<lambda>e. ae_ts e \<ge> since \<and> ae_ts e \<le> ae_ts current) entries
         in Some (dedupe_findings shuffle (burst_findings config current window @
              sensitive_findings config current window @ after_hours_findings config current))) })"

text \<open>\<open>store.rs\<close>: the scan after an audit entry has been written.\<close>

definition window_filter :: "str \<Rightarrow> str \<Rightarrow> audit_filter" where
  "window_filter since until =
     \<lparr>af_host = None, af_risk_level = None, af_exit_code = None, af_since = Some since, af_until = Some until,
      af_limit = 1000, af_search = None, af_command_pattern = None, af_host_env = None, af_host_role = None,
      af_host_owner = None, af_decision = None, af_agent = None, af_host_scope = None\<rparr>"

definition detect_and_publish_audit_anomalies ::
  "(anomaly_finding list \<Rightarrow> anomaly_finding list) \<Rightarrow> int \<Rightarrow> (int \<Rightarrow> str) \<Rightarrow> (str \<Rightarrow> int option) \<Rightarrow> (str \<Rightarrow> audit_entry option) \<Rightarrow>
   config option \<Rightarrow> str option \<Rightarrow> anomaly_config option \<Rightarrow> audit_entry \<Rightarrow> anomaly_finding list option" where
  "detect_and_publish_audit_anomalies shuffle earliest to_rfc3339 parse_instant parse hosts audit_file loaded entry =
     (case loaded of
        None \<Rightarrow> Some []
      | Some config \<Rightarrow>
          if \<not> an_enabled config then Some []
          else do {
            d \<leftarrow> seconds (max (window_secs config) 1);
            since \<leftarrow> before earliest (ae_ts entry) d;
            case list_audit_raw parse_instant parse hosts audit_file (window_filter (to_rfc3339 since) (to_rfc3339 (ae_ts entry))) of
              Inl err \<Rightarrow> Some []
            | Inr entries \<Rightarrow> detect_anomalies shuffle earliest entries entry config })"

section \<open>Errors of the program\<close>

record error_window =
  error_times :: "int list"
  last_error_alert :: "int option"

text \<open>
  \<open>loaded\<close> is the configuration, the default one when it cannot be read. A panic leaves the window as it
  is; the locks are taken over from a thread that panicked.
\<close>

definition record_diagnostic_error ::
  "anomaly_config option \<Rightarrow> int \<Rightarrow> str \<Rightarrow> str \<Rightarrow> error_window \<Rightarrow> anomaly_finding list option \<times> error_window" where
  "record_diagnostic_error loaded now component message w =
     (let config = (case loaded of Some c \<Rightarrow> c | None \<Rightarrow> default_anomaly_config)
      in if \<not> an_enabled config \<or> diagnostic_error_threshold config = 0 then (Some [], w)
         else if contains (to_lowercase message) ''webhook'' then (Some [], w)
         else case seconds (max (window_secs config) 1) of
           None \<Rightarrow> (None, w)
         | Some window \<Rightarrow>
             (let times = dropWhile (\<lambda>front. now - front > window) (error_times w @ [now]);
                  w1 = w\<lparr>error_times := times\<rparr>;
                  alert = (Some [\<lparr>fi_kind = DiagnosticErrorBurst, fi_severity = HighSeverity,
                      fi_reason = show_nat (length times) @ '' error-level diagnostics in '' @ show_int (window_secs config) @
                        ''s (latest component: '' @ component @ '')'',
                      fi_source = component, fi_host = ''local'', fi_command = concat (take 200 (chars message)),
                      fi_count = length times, fi_threshold = diagnostic_error_threshold config,
                      fi_window_secs = window_secs config\<rparr>], w1\<lparr>last_error_alert := Some now\<rparr>)
              in if length times < diagnostic_error_threshold config then (Some [], w1)
                 else case last_error_alert w of
                   None \<Rightarrow> alert
                 | Some prev \<Rightarrow>
                     (case seconds (max (diagnostic_cooldown_secs config) 1) of
                        None \<Rightarrow> (None, w1)
                      | Some cooldown \<Rightarrow> if now - prev < cooldown then (Some [], w1) else alert)))"

section \<open>What the scan finds\<close>

lemma parts_in_order_nonempty: "parts_in_order s (filter (\<lambda>p. p \<noteq> []) ps) = parts_in_order s ps"
  by (induction s ps rule: parts_in_order.induct) (auto split: option.splits)

text \<open>The patterns are those of the user's risk rules, except that a blank one matches nothing.\<close>

lemma command_matches_rule:
  "command_matches command pattern \<longleftrightarrow> trim pattern \<noteq> [] \<and> matches_pattern command pattern"
  by (auto simp: command_matches_def matches_pattern_def Let_def parts_in_order_nonempty to_lowercase_def)

text \<open>The hours between two instants of a day, also over midnight; 24 counts as 23.\<close>

lemma is_after_hours_exact:
  assumes "start < 24" "stop < 24" "hour < 24"
  shows "is_after_hours hour start stop \<longleftrightarrow> (hour + 24 - start) mod 24 < (stop + 24 - start) mod 24"
  using assms by (cases "start \<le> hour"; cases "start \<le> stop")
    (auto simp: is_after_hours_def Let_def le_mod_geq mod_if)

lemma day_never_ends: "is_after_hours 23 0 24 = False"
  by (simp add: is_after_hours_def)

lemma dedupe_kinds:
  assumes "distinct (map fi_kind fs)"
  shows "dedupe_findings shuffle fs = shuffle fs"
proof -
  have "foldl (\<lambda>seen f. if list_ex (\<lambda>g. fi_kind g = fi_kind f) seen then seen else seen @ [f]) seen gs = seen @ gs"
    if "distinct (map fi_kind (seen @ gs))" for seen gs
    using that
  proof (induction gs arbitrary: seen)
    case (Cons f gs)
    then have "fi_kind f \<notin> fi_kind ` set seen" by auto
    then have "\<not> list_ex (\<lambda>g. fi_kind g = fi_kind f) seen" unfolding list_ex_iff by (metis imageI)
    with Cons.IH [of "seen @ [f]"] Cons.prems show ?case by simp
  qed simp
  from this [of "[]" fs] assms show ?thesis by (simp add: dedupe_findings_def)
qed

definition window_of :: "anomaly_config \<Rightarrow> audit_entry \<Rightarrow> audit_entry list \<Rightarrow> audit_entry list" where
  "window_of c e entries =
     filter (\<lambda>x. ae_ts e - max (window_secs c) 1 * 1000000000 \<le> ae_ts x \<and> ae_ts x \<le> ae_ts e) entries"

definition burst_seen :: "anomaly_config \<Rightarrow> audit_entry \<Rightarrow> audit_entry list \<Rightarrow> bool" where
  "burst_seen c e entries \<longleftrightarrow> source_burst_threshold c > 0 \<and>
     source_burst_threshold c \<le> length (filter (\<lambda>x. source_name x = source_name e) (window_of c e entries))"

definition sensitive_seen :: "anomaly_config \<Rightarrow> audit_entry \<Rightarrow> audit_entry list \<Rightarrow> bool" where
  "sensitive_seen c e entries \<longleftrightarrow> is_sensitive c e \<and> sensitive_threshold c > 0 \<and>
     sensitive_threshold c \<le> length (filter (is_sensitive c) (window_of c e entries))"

definition late_risk :: "anomaly_config \<Rightarrow> audit_entry \<Rightarrow> bool" where
  "late_risk c e \<longleftrightarrow> is_after_hours (utc_hour (ae_ts e)) (after_hours_start c) (after_hours_end c) \<and>
     ae_risk_level e \<in> set (after_hours_risks c)"

lemma finding_kinds:
  "map fi_kind (burst_findings c e (window_of c e es)) = (if burst_seen c e es then [SourceBurst] else [])"
  "map fi_kind (sensitive_findings c e (window_of c e es)) = (if sensitive_seen c e es then [SensitivePattern] else [])"
  "map fi_kind (after_hours_findings c e) = (if late_risk c e then [AfterHours] else [])"
  by (simp_all add: burst_findings_def sensitive_findings_def after_hours_findings_def finding_on_def Let_def
      burst_seen_def sensitive_seen_def late_risk_def conj_commute)

lemma detected:
  assumes "detect_anomalies shuffle earliest entries e c = Some fs" "an_enabled c"
  shows "fs = dedupe_findings shuffle (burst_findings c e (window_of c e entries) @
    sensitive_findings c e (window_of c e entries) @ after_hours_findings c e)"
  using assms
  by (auto simp: detect_anomalies_def bind_eq_Some_conv Let_def seconds_def before_def window_of_def split: if_splits)

text \<open>
  The scan finds exactly what its configuration describes. When it is enabled it reports
  a burst when the source of the entry has as many entries in the window as the threshold, a sensitive
  command when the entry and enough others in the window match the patterns, and a risky command
  after hours, each at most once; when it is disabled it reports nothing.
\<close>

theorem anomalies_exact:
  assumes "detect_anomalies shuffle earliest entries e c = Some fs" "\<And>gs. mset (shuffle gs) = mset gs"
  shows "distinct (map fi_kind fs) \<and>
    fi_kind ` set fs = (if an_enabled c then
      (if burst_seen c e entries then {SourceBurst} else {}) \<union>
      (if sensitive_seen c e entries then {SensitivePattern} else {}) \<union> (if late_risk c e then {AfterHours} else {}) else {})"
proof (cases "an_enabled c")
  case True
  let ?gs = "burst_findings c e (window_of c e entries) @ sensitive_findings c e (window_of c e entries) @ after_hours_findings c e"
  have kinds: "map fi_kind ?gs = (if burst_seen c e entries then [SourceBurst] else []) @
       (if sensitive_seen c e entries then [SensitivePattern] else []) @ (if late_risk c e then [AfterHours] else [])"
    by (simp only: map_append finding_kinds)
  then have d: "distinct (map fi_kind ?gs)" by (simp del: map_append)
  with detected [OF assms(1) True] have "fs = shuffle ?gs" by (simp only: dedupe_kinds)
  with assms(2) have m: "mset (map fi_kind fs) = mset (map fi_kind ?gs)" by (simp only: mset_map)
  have "distinct (map fi_kind fs)" using d mset_eq_imp_distinct_iff [OF m] by blast
  moreover have "fi_kind ` set fs = set (map fi_kind ?gs)" using mset_eq_setD [OF m] by (simp only: set_map)
  ultimately show ?thesis unfolding kinds using True by auto
qed (use assms(1) in \<open>simp add: detect_anomalies_def\<close>)

lemma anomalies_exact_witness:
  "\<exists>fs. detect_anomalies rev 0 [entry_at 43200000000000] (entry_at 43200000000000)
      (default_anomaly_config\<lparr>source_burst_threshold := 1\<rparr>) = Some fs \<and> fi_kind ` set fs = {SourceBurst}"
proof -
  let ?c = "default_anomaly_config\<lparr>source_burst_threshold := 1\<rparr>" and ?e = "entry_at 43200000000000"
  have "detect_anomalies rev 0 [?e] ?e ?c \<noteq> None" by code_simp
  then obtain fs where fs: "detect_anomalies rev 0 [?e] ?e ?c = Some fs" by blast
  have "an_enabled ?c \<and> burst_seen ?c ?e [?e] \<and> \<not> sensitive_seen ?c ?e [?e] \<and> \<not> late_risk ?c ?e"
    by code_simp
  with anomalies_exact [OF fs mset_rev] have "fi_kind ` set fs = {SourceBurst}" by simp
  with fs show ?thesis by blast
qed

text \<open>A window that chrono cannot hold makes every scan panic, after the entry has been written.\<close>

lemma huge_window_panics:
  assumes "an_enabled c" "window_secs c > (2 ^ 63 - 1) div 1000"
  shows "detect_and_publish_audit_anomalies shuffle earliest render parse_instant parse hosts file (Some c) e = None"
proof -
  have "max (window_secs c) 1 = window_secs c" using assms(2) by simp
  with assms show ?thesis by (simp add: detect_and_publish_audit_anomalies_def seconds_def)
qed

section \<open>What the error window reports\<close>

record diagnostic_error =
  de_at :: int
  de_component :: str
  de_message :: str

record diagnostics_state =
  ds_window :: error_window
  ds_alerts :: "int list"

definition diagnostics_step :: "anomaly_config option \<Rightarrow> diagnostics_state \<Rightarrow> diagnostic_error \<Rightarrow> diagnostics_state" where
  "diagnostics_step loaded s d =
     (case record_diagnostic_error loaded (de_at d) (de_component d) (de_message d) (ds_window s) of
        (result, w) \<Rightarrow> s\<lparr>ds_window := w,
          ds_alerts := ds_alerts s @ (case result of Some (f # fs) \<Rightarrow> [de_at d] | _ \<Rightarrow> [])\<rparr>)"

definition quiet_start :: diagnostics_state where
  "quiet_start = \<lparr>ds_window = \<lparr>error_times = [], last_error_alert = None\<rparr>, ds_alerts = []\<rparr>"

definition cooldown_of :: "anomaly_config option \<Rightarrow> int" where
  "cooldown_of loaded =
     max (diagnostic_cooldown_secs (case loaded of Some c \<Rightarrow> c | None \<Rightarrow> default_anomaly_config)) 1 * 1000000000"

definition alerts_spaced :: "anomaly_config option \<Rightarrow> diagnostics_state \<Rightarrow> bool" where
  "alerts_spaced loaded s \<longleftrightarrow>
     sorted_wrt (\<lambda>t u. t + cooldown_of loaded \<le> u) (ds_alerts s) \<and>
     last_error_alert (ds_window s) = (if ds_alerts s = [] then None else Some (last (ds_alerts s)))"

lemma record_cases:
  assumes "record_diagnostic_error loaded now component message w = (result, w')"
  shows "(last_error_alert w' = last_error_alert w \<and> (result = None \<or> result = Some [])) \<or>
    (last_error_alert w' = Some now \<and> (\<exists>f. result = Some [f]) \<and>
     (\<forall>prev. last_error_alert w = Some prev \<longrightarrow> prev + cooldown_of loaded \<le> now))"
  using assms
  by (auto simp: record_diagnostic_error_def Let_def cooldown_of_def seconds_def split: if_splits option.splits)

lemma spaced_append:
  assumes "sorted_wrt (\<lambda>t u. t + c \<le> u) ts" "ts \<noteq> [] \<longrightarrow> last ts + c \<le> now" "0 \<le> (c :: int)"
  shows "sorted_wrt (\<lambda>t u. t + c \<le> u) (ts @ [now])"
proof -
  have "t + c \<le> now" if "t \<in> set ts" for t
  proof -
    from that obtain us vs where ts: "ts = us @ t # vs" by (auto simp: in_set_conv_decomp)
    show ?thesis
    proof (cases vs rule: rev_cases)
      case Nil
      with assms(2) ts show ?thesis by simp
    next
      case (snoc ws v)
      with assms ts show ?thesis by (auto simp: sorted_wrt_append)
    qed
  qed
  with assms(1) show ?thesis by (simp add: sorted_wrt_append)
qed

lemma diagnostics_step_spaced:
  assumes "alerts_spaced loaded s"
  shows "alerts_spaced loaded (diagnostics_step loaded s d)"
proof -
  obtain result w where r: "record_diagnostic_error loaded (de_at d) (de_component d) (de_message d) (ds_window s) = (result, w)"
    by fastforce
  have "0 \<le> cooldown_of loaded" by (simp add: cooldown_of_def)
  with record_cases [OF r] assms show ?thesis
    by (auto simp: alerts_spaced_def diagnostics_step_def r intro!: spaced_append)
qed

interpretation diagnostics: state_machine "diagnostics_step loaded" "\<lambda>_ _. True" "alerts_spaced loaded"
  for loaded :: "anomaly_config option"
  by unfold_locales (rule diagnostics_step_spaced)

text \<open>
  One alert per burst. Whatever errors are recorded, and however the clock moves, two
  alerts about them are at least the cooldown apart.
\<close>

theorem error_alerts_are_spaced:
  "sorted_wrt (\<lambda>t u. t + cooldown_of loaded \<le> u) (ds_alerts (foldl (diagnostics_step loaded) quiet_start errors))"
proof -
  have "admissible (diagnostics_step loaded) (\<lambda>_ _. True) s errors" for s by (induction errors arbitrary: s) auto
  moreover have "alerts_spaced loaded quiet_start" by (simp add: alerts_spaced_def quiet_start_def)
  ultimately have "alerts_spaced loaded (foldl (diagnostics_step loaded) quiet_start errors)"
    by (rule diagnostics.run_inv [rotated])
  then show ?thesis by (simp add: alerts_spaced_def)
qed

end
