(* ===== verification/Ws_Drain.thy ===== *)
theory Ws_Drain
  imports A2S_Prelude "HOL-Library.AList"
begin

text \<open>
  \<open>ws_drain.rs\<close>: how the daemon tells its WebSocket handlers to stop, and waits for the messages they are
  still sending. A step is what one task does between two awaits. What the code relies on is
  \<open>tokio::sync::Notify\<close>: a future made by \<open>notified()\<close> is woken by every \<open>notify_waiters()\<close> that happens
  after it was made, and by no earlier one.
\<close>

section \<open>The shutdown token\<close>

text \<open>Where a call of \<open>cancelled\<close> stands; \<open>Armed b\<close> holds a future that was woken when \<open>b\<close>.\<close>

datatype waiter = Entered | Looping | Armed bool | Awaiting bool | Woken | Returned

datatype canceller = Idle | FlagSet | Notified

record token_state =
  tk_cancelled :: bool
  tk_canceller :: canceller
  tk_waiters :: "waiter list"

datatype token_event = SetFlag | NotifyWaiters | Enter | Proceed nat

text \<open>
  \<open>cancelled\<close>: the check on entry, and then in a loop a new future, a check, the await and a check.
\<close>

fun proceed :: "bool \<Rightarrow> waiter \<Rightarrow> waiter" where
  "proceed cancelled Entered = (if cancelled then Returned else Looping)"
| "proceed cancelled Looping = Armed False"
| "proceed cancelled (Armed woken) = (if cancelled then Returned else Awaiting woken)"
| "proceed cancelled (Awaiting woken) = (if woken then Woken else Awaiting woken)"
| "proceed cancelled Woken = (if cancelled then Returned else Looping)"
| "proceed cancelled Returned = Returned"

fun wake :: "waiter \<Rightarrow> waiter" where
  "wake (Armed woken) = Armed True"
| "wake (Awaiting woken) = Awaiting True"
| "wake w = w"

text \<open>
  \<open>cancel\<close> sets the flag under its lock, and notifies after it released the lock; it may be called again.
  \<open>tk_canceller\<close> is how far any call has come.
\<close>

fun token_step :: "token_state \<Rightarrow> token_event \<Rightarrow> token_state" where
  "token_step s SetFlag =
     s\<lparr>tk_cancelled := True, tk_canceller := (if tk_canceller s = Idle then FlagSet else tk_canceller s)\<rparr>"
| "token_step s NotifyWaiters =
     (if tk_canceller s = Idle then s else s\<lparr>tk_canceller := Notified, tk_waiters := map wake (tk_waiters s)\<rparr>)"
| "token_step s Enter = s\<lparr>tk_waiters := tk_waiters s @ [Entered]\<rparr>"
| "token_step s (Proceed i) =
     (if i < length (tk_waiters s)
      then s\<lparr>tk_waiters := (tk_waiters s)[i := proceed (tk_cancelled s) (tk_waiters s ! i)]\<rparr> else s)"

definition new_token :: token_state where
  "new_token = \<lparr>tk_cancelled = False, tk_canceller = Idle, tk_waiters = []\<rparr>"

definition is_cancelled :: "token_state \<Rightarrow> bool" where
  "is_cancelled s = tk_cancelled s"

definition token_ok :: "token_state \<Rightarrow> bool" where
  "token_ok s \<longleftrightarrow> (tk_cancelled s \<longleftrightarrow> tk_canceller s \<noteq> Idle) \<and>
     (tk_canceller s = Notified \<longrightarrow> Awaiting False \<notin> set (tk_waiters s)) \<and>
     (tk_canceller s = Idle \<longrightarrow> Returned \<notin> set (tk_waiters s))"

lemma wake_not_asleep: "wake w \<noteq> Awaiting False"
  by (cases w) auto

lemma wake_Returned: "wake w = Returned \<longleftrightarrow> w = Returned"
  by (cases w) auto

lemma proceed_asleep: "proceed True w = Awaiting False \<longleftrightarrow> w = Awaiting False"
  by (cases w) auto

lemma proceed_Returned: "proceed False w = Returned \<longleftrightarrow> w = Returned"
  by (cases w) auto

lemma token_step_ok:
  assumes "token_ok s"
  shows "token_ok (token_step s ev)"
proof (cases ev)
  case NotifyWaiters
  with assms wake_not_asleep [symmetric] show ?thesis by (auto simp: token_ok_def)
next
  case (Proceed i)
  have "w \<in> set ((tk_waiters s)[i := proceed c (tk_waiters s ! i)]) \<Longrightarrow> w \<in> set (tk_waiters s) \<or> w = proceed c (tk_waiters s ! i)" for w c
    using set_update_subset_insert by fastforce
  with assms Proceed proceed_asleep proceed_Returned show ?thesis
    by (cases "tk_canceller s") (auto simp: token_ok_def, (metis nth_mem)+)
qed (use assms in \<open>auto simp: token_ok_def\<close>)

interpretation token: state_machine token_step "\<lambda>_ _. True" token_ok
  by unfold_locales (rule token_step_ok)

text \<open>How many of its own steps a call still needs once the token is cancelled.\<close>

fun steps_left :: "waiter \<Rightarrow> nat" where
  "steps_left Entered = 1"
| "steps_left Looping = 2"
| "steps_left (Armed woken) = 1"
| "steps_left (Awaiting woken) = 2"
| "steps_left Woken = 1"
| "steps_left Returned = 0"

lemma proceed_progress: "w \<noteq> Returned \<Longrightarrow> w \<noteq> Awaiting False \<Longrightarrow> steps_left (proceed True w) < steps_left w"
  by (cases w) auto

lemma proceed_bound: "w \<noteq> Awaiting False \<Longrightarrow> steps_left w \<le> k \<Longrightarrow> (proceed True ^^ k) w = Returned"
proof (induction k arbitrary: w)
  case 0
  then show ?case by (cases w) auto
next
  case (Suc k)
  have "(proceed True ^^ Suc k) w = (proceed True ^^ k) (proceed True w)" by (simp add: funpow_swap1)
  moreover have "proceed True w \<noteq> Awaiting False" using Suc.prems(1) proceed_asleep by blast
  moreover have "steps_left (proceed True w) \<le> k"
    using proceed_progress [of w] Suc.prems by (cases "w = Returned") auto
  ultimately show ?case using Suc.IH by simp
qed

text \<open>
  Property (C35): no cancellation is missed. Once a cancellation has notified, no call of \<open>cancelled\<close> sleeps
  without having been woken: each returns within two more steps of its own, at whatever point of its loop
  the cancellation met it; and before a cancellation none has returned.
\<close>

theorem cancellation_reaches_every_waiter:
  assumes "s = foldl token_step new_token evs" "w \<in> set (tk_waiters s)"
  shows "(tk_canceller s = Notified \<longrightarrow> (proceed (is_cancelled s) ^^ 2) w = Returned) \<and>
    (tk_canceller s = Idle \<longrightarrow> w \<noteq> Returned)"
proof -
  have "admissible token_step (\<lambda>_ _. True) t evs" for t by (induction evs arbitrary: t) auto
  moreover have "token_ok new_token" by (simp add: token_ok_def new_token_def)
  ultimately have ok: "token_ok s" unfolding assms(1) by (rule token.run_inv [rotated])
  have "steps_left w \<le> 2" by (cases w) auto
  with ok assms(2) proceed_bound [of w 2] show ?thesis by (auto simp: token_ok_def is_cancelled_def)
qed

lemma cancellation_reaches_every_waiter_witness: "(proceed True ^^ 2) (Awaiting True) = Returned"
  using cancellation_reaches_every_waiter
    [OF refl, of "Awaiting True" "[Enter, Proceed 0, Proceed 0, Proceed 0, SetFlag, NotifyWaiters]"]
  by (simp add: new_token_def is_cancelled_def)

section \<open>Draining\<close>

text \<open>
  The registry of connections and the number of messages each is sending; a handle keeps counting
  after its connection left the registry. \<open>drain_all\<close> walks over the connections it found: it checks one,
  then makes the future, then sleeps until it is woken or its time is up. \<open>dr_passed\<close> are the connections
  it is done with and why, and \<open>dr_idle\<close> those that were seen without a message since it started.
\<close>

type_synonym conn = nat

datatype drain_stage = NotStarted | Checking | BeforeFuture | Sleeping bool

datatype drain_reason = SeenIdle | WokenUp | TimeUp

record drain_state =
  dr_registry :: "conn list"
  dr_pending :: "conn \<Rightarrow> nat"
  dr_stage :: drain_stage
  dr_found :: "conn list"
  dr_left :: "conn list"
  dr_passed :: "(conn \<times> drain_reason) list"
  dr_idle :: "conn list"

datatype drain_event =
    RegisterConn conn
  | BeginSend conn
  | EndSend conn
  | Unregister conn
  | DrainStart
  | DrainCheck
  | MakeFuture
  | DrainWake
  | DrainTimeout

definition register_conn :: "conn \<Rightarrow> drain_state \<Rightarrow> drain_state" where
  "register_conn c s = s\<lparr>dr_registry := c # removeAll c (dr_registry s), dr_pending := (dr_pending s)(c := 0)\<rparr>"

definition begin_send :: "conn \<Rightarrow> drain_state \<Rightarrow> drain_state" where
  "begin_send c s = s\<lparr>dr_pending := (dr_pending s)(c := dr_pending s c + 1)\<rparr>"

definition notify_drain :: "conn \<Rightarrow> drain_state \<Rightarrow> drain_state" where
  "notify_drain c s =
     (case (dr_stage s, dr_left s) of
        (Sleeping woken, c' # rest) \<Rightarrow> if c' = c then s\<lparr>dr_stage := Sleeping True\<rparr> else s
      | _ \<Rightarrow> s)"

definition end_send :: "conn \<Rightarrow> drain_state \<Rightarrow> drain_state" where
  "end_send c s =
     (let n = dr_pending s c - 1; s' = s\<lparr>dr_pending := (dr_pending s)(c := n)\<rparr>
      in if n = 0 then notify_drain c (s'\<lparr>dr_idle := c # dr_idle s'\<rparr>) else s')"

definition unregister :: "conn \<Rightarrow> drain_state \<Rightarrow> drain_state" where
  "unregister c s = s\<lparr>dr_registry := removeAll c (dr_registry s)\<rparr>"

definition pass :: "drain_reason \<Rightarrow> drain_state \<Rightarrow> drain_state" where
  "pass why s =
     (case dr_left s of
        [] \<Rightarrow> s
      | c # rest \<Rightarrow> s\<lparr>dr_left := rest, dr_passed := dr_passed s @ [(c, why)], dr_stage := Checking\<rparr>)"

fun drain_step :: "drain_state \<Rightarrow> drain_event \<Rightarrow> drain_state" where
  "drain_step s (RegisterConn c) = register_conn c s"
| "drain_step s (BeginSend c) = begin_send c s"
| "drain_step s (EndSend c) = end_send c s"
| "drain_step s (Unregister c) = unregister c s"
| "drain_step s DrainStart =
     s\<lparr>dr_stage := Checking, dr_found := dr_registry s, dr_left := dr_registry s, dr_passed := [], dr_idle := []\<rparr>"
| "drain_step s DrainCheck =
     (case (dr_stage s, dr_left s) of
        (Checking, c # rest) \<Rightarrow>
          if dr_pending s c = 0 then pass SeenIdle (s\<lparr>dr_idle := c # dr_idle s\<rparr>) else s\<lparr>dr_stage := BeforeFuture\<rparr>
      | _ \<Rightarrow> s)"
| "drain_step s MakeFuture = (if dr_stage s = BeforeFuture then s\<lparr>dr_stage := Sleeping False\<rparr> else s)"
| "drain_step s DrainWake = (if dr_stage s = Sleeping True then pass WokenUp s else s)"
| "drain_step s DrainTimeout = (case dr_stage s of Sleeping woken \<Rightarrow> pass TimeUp s | _ \<Rightarrow> s)"

text \<open>What \<open>drain_all\<close> returns once it is done.\<close>

definition drain_result :: "drain_state \<Rightarrow> nat option" where
  "drain_result s = (if dr_stage s = Checking \<and> dr_left s = [] then Some (length (dr_found s)) else None)"

definition active_count :: "drain_state \<Rightarrow> nat" where
  "active_count s = length (dr_registry s)"

definition no_connections :: drain_state where
  "no_connections = \<lparr>dr_registry = [], dr_pending = (\<lambda>_. 0), dr_stage = NotStarted, dr_found = [], dr_left = [],
     dr_passed = [], dr_idle = []\<rparr>"

definition drain_ok :: "drain_state \<Rightarrow> bool" where
  "drain_ok s \<longleftrightarrow>
     dr_found s = map fst (dr_passed s) @ dr_left s \<and>
     (\<forall>c why. (c, why) \<in> set (dr_passed s) \<and> why \<noteq> TimeUp \<longrightarrow> c \<in> set (dr_idle s)) \<and>
     (dr_stage s = Sleeping True \<longrightarrow> dr_left s \<noteq> [] \<and> hd (dr_left s) \<in> set (dr_idle s))"

lemma pass_ok:
  assumes "drain_ok s" "why \<noteq> TimeUp \<Longrightarrow> dr_left s \<noteq> [] \<Longrightarrow> hd (dr_left s) \<in> set (dr_idle s)"
  shows "drain_ok (pass why s)"
  using assms by (cases "dr_left s"; cases why) (auto simp: drain_ok_def pass_def)

lemma drain_step_ok:
  assumes "drain_ok s"
  shows "drain_ok (drain_step s ev)"
proof (cases ev)
  case (EndSend c)
  with assms show ?thesis
    by (cases "dr_stage s"; cases "dr_left s") (auto simp: drain_ok_def end_send_def notify_drain_def Let_def)
next
  case DrainCheck
  have "drain_ok (s\<lparr>dr_idle := c # dr_idle s\<rparr>)" for c using assms by (auto simp: drain_ok_def)
  from pass_ok [OF this] assms DrainCheck show ?thesis
    by (cases "dr_stage s"; cases "dr_left s") (auto simp: drain_ok_def)
next
  case DrainWake
  have "drain_ok (pass WokenUp s)" if "dr_stage s = Sleeping True"
    by (rule pass_ok [OF assms]) (use assms that in \<open>simp add: drain_ok_def\<close>)
  with assms DrainWake show ?thesis by simp
next
  case DrainTimeout
  with pass_ok [OF assms, of TimeUp] assms show ?thesis by (cases "dr_stage s") auto
qed (use assms in \<open>auto simp: drain_ok_def register_conn_def begin_send_def unregister_def\<close>)

interpretation drain: state_machine drain_step "\<lambda>_ _. True" drain_ok
  by unfold_locales (rule drain_step_ok)

text \<open>
  A drain waits for every connection it found. However the handlers send, finish,
  connect and leave meanwhile, when it returns it has passed each connection that was registered at
  its start exactly once and in order, and each was seen without a pending message or its time was up.
\<close>

theorem drain_waits_for_all:
  assumes "s = foldl drain_step no_connections evs" "drain_result s = Some n"
  shows "map fst (dr_passed s) = dr_found s \<and> n = length (dr_found s) \<and>
    list_all (\<lambda>(c, why). why = TimeUp \<or> c \<in> set (dr_idle s)) (dr_passed s)"
proof -
  have "admissible drain_step (\<lambda>_ _. True) t evs" for t by (induction evs arbitrary: t) auto
  moreover have "drain_ok no_connections" by (simp add: drain_ok_def no_connections_def)
  ultimately have ok: "drain_ok s" unfolding assms(1) by (rule drain.run_inv [rotated])
  with assms(2) show ?thesis by (auto simp: drain_ok_def drain_result_def list_all_iff split: if_splits)
qed

lemma drain_waits_for_all_witness:
  "map fst (dr_passed (foldl drain_step no_connections
     [RegisterConn 1, BeginSend 1, DrainStart, DrainCheck, MakeFuture, EndSend 1, DrainWake])) = [1]"
  using drain_waits_for_all
    [OF refl, of "[RegisterConn 1, BeginSend 1, DrainStart, DrainCheck, MakeFuture, EndSend 1, DrainWake]" 1]
  by (simp add: no_connections_def register_conn_def begin_send_def end_send_def notify_drain_def pass_def drain_result_def)

text \<open>
  The last message may be sent between the check and the future. The drain then sleeps until its time is
  up, although nothing is pending any more.
\<close>

lemma drain_misses_the_last_message:
  "let s = foldl drain_step no_connections
     [RegisterConn 1, BeginSend 1, DrainStart, DrainCheck, EndSend 1, MakeFuture]
   in dr_pending s 1 = 0 \<and> drain_result s = None \<and> drain_step s DrainWake = s \<and>
      dr_passed (drain_step s DrainTimeout) = [(1, TimeUp)]"
  by (simp add: Let_def no_connections_def register_conn_def begin_send_def end_send_def notify_drain_def pass_def drain_result_def)

text \<open>The number it returns counts the connections that did not drain too.\<close>

lemma drain_counts_what_did_not_drain:
  "let s = foldl drain_step no_connections
     [RegisterConn 1, BeginSend 1, DrainStart, DrainCheck, MakeFuture, DrainTimeout]
   in drain_result s = Some 1 \<and> dr_pending s 1 = 1"
  by (simp add: Let_def no_connections_def register_conn_def begin_send_def end_send_def notify_drain_def pass_def drain_result_def)

end
