(* ===== verification/Prompt_Waiter.thy ===== *)
theory Prompt_Waiter
  imports A2S_Prelude Rust_Text "HOL-Library.AList"
begin

text \<open>
  \<open>prompt_waiter.rs\<close>: prompts of an SSH login that wait for an answer from outside. A prompt is
  registered under a random nonce with the sending half of a channel; the receiving half stays with the
  prompter, who drops it when it gives up. The registry is a hash map behind one mutex, here its
  entries. A channel is named by its nonce: \<open>pw_open\<close> are those whose receiver is alive, and sending on
  another one fails. \<open>pw_delivered\<close> are the answers that were sent, \<open>pw_drawn\<close> the nonces so far.
\<close>

record registered_prompt =
  rp_text :: str
  response_tx :: bool
  sync_response_tx :: bool

record prompt_world =
  pw_registry :: "(str \<times> registered_prompt) list"
  pw_open :: "str set"
  pw_delivered :: "(str \<times> str) list"
  pw_drawn :: "str set"

datatype prompt_error = UnknownNonce str | PrompterDropped str | AlreadyResponded str

section \<open>Operations\<close>

definition put_prompt :: "str \<Rightarrow> registered_prompt \<Rightarrow> prompt_world \<Rightarrow> prompt_world" where
  "put_prompt n p w = w\<lparr>pw_registry := AList.update n p (pw_registry w)\<rparr>"

definition take_out :: "str \<Rightarrow> prompt_world \<Rightarrow> prompt_world" where
  "take_out n w = w\<lparr>pw_registry := AList.delete n (pw_registry w)\<rparr>"

text \<open>\<open>register\<close> drops the receiver when it returns.\<close>

definition register_prompt :: "str \<Rightarrow> str \<Rightarrow> prompt_world \<Rightarrow> prompt_world" where
  "register_prompt n prompt w =
     put_prompt n \<lparr>rp_text = prompt, response_tx = True, sync_response_tx = False\<rparr> (w\<lparr>pw_drawn := insert n (pw_drawn w)\<rparr>)"

definition register_and_wait :: "str \<Rightarrow> str \<Rightarrow> prompt_world \<Rightarrow> prompt_world" where
  "register_and_wait n prompt w =
     put_prompt n \<lparr>rp_text = prompt, response_tx = True, sync_response_tx = False\<rparr>
       (w\<lparr>pw_open := insert n (pw_open w), pw_drawn := insert n (pw_drawn w)\<rparr>)"

definition register_blocking :: "str \<Rightarrow> str \<Rightarrow> prompt_world \<Rightarrow> prompt_world" where
  "register_blocking n prompt w =
     put_prompt n \<lparr>rp_text = prompt, response_tx = False, sync_response_tx = True\<rparr>
       (w\<lparr>pw_open := insert n (pw_open w), pw_drawn := insert n (pw_drawn w)\<rparr>)"

text \<open>A send that fails leaves the entry in the registry, without its sender.\<close>

definition send_answer :: "str \<Rightarrow> str \<Rightarrow> registered_prompt \<Rightarrow> prompt_world \<Rightarrow> (prompt_error + unit) \<times> prompt_world" where
  "send_answer n answer taken w =
     (if n \<in> pw_open w then (Inr (), take_out n (w\<lparr>pw_delivered := pw_delivered w @ [(n, answer)]\<rparr>))
      else (Inl (PrompterDropped n), put_prompt n taken w))"

definition respond :: "str \<Rightarrow> str \<Rightarrow> prompt_world \<Rightarrow> (prompt_error + unit) \<times> prompt_world" where
  "respond n answer w =
     (case map_of (pw_registry w) n of
        None \<Rightarrow> (Inl (UnknownNonce n), w)
      | Some entry \<Rightarrow>
          if response_tx entry then send_answer n answer (entry\<lparr>response_tx := False\<rparr>) w
          else if sync_response_tx entry then send_answer n answer (entry\<lparr>sync_response_tx := False\<rparr>) w
          else (Inl (AlreadyResponded n), w))"

text \<open>Called from code that is not asynchronous; the body is the same.\<close>

definition respond_blocking :: "str \<Rightarrow> str \<Rightarrow> prompt_world \<Rightarrow> (prompt_error + unit) \<times> prompt_world" where
  "respond_blocking n answer w =
     (case map_of (pw_registry w) n of
        None \<Rightarrow> (Inl (UnknownNonce n), w)
      | Some entry \<Rightarrow>
          if response_tx entry then send_answer n answer (entry\<lparr>response_tx := False\<rparr>) w
          else if sync_response_tx entry then send_answer n answer (entry\<lparr>sync_response_tx := False\<rparr>) w
          else (Inl (AlreadyResponded n), w))"

definition cancel :: "str \<Rightarrow> prompt_world \<Rightarrow> (prompt_error + unit) \<times> prompt_world" where
  "cancel n w =
     (if map_of (pw_registry w) n \<noteq> None then (Inr (), take_out n w) else (Inl (UnknownNonce n), w))"

definition drop_prompt_guard :: "str \<Rightarrow> prompt_world \<Rightarrow> prompt_world" where
  "drop_prompt_guard n w = take_out n w"

definition pending_count :: "prompt_world \<Rightarrow> nat" where
  "pending_count w = length (pw_registry w)"

definition pending_nonces :: "prompt_world \<Rightarrow> str list" where
  "pending_nonces w = map fst (pw_registry w)"

definition prompt_text :: "str \<Rightarrow> prompt_world \<Rightarrow> str option" where
  "prompt_text n w = map_option rp_text (map_of (pw_registry w) n)"

section \<open>Runs\<close>

datatype prompt_call =
    Register str str
  | RegisterAndWait str str
  | RegisterBlocking str str
  | Respond str str
  | RespondBlocking str str
  | Cancel str
  | DropGuard str
  | DropReceiver str

fun prompt_step :: "prompt_world \<Rightarrow> prompt_call \<Rightarrow> prompt_world" where
  "prompt_step w (Register n prompt) = register_prompt n prompt w"
| "prompt_step w (RegisterAndWait n prompt) = register_and_wait n prompt w"
| "prompt_step w (RegisterBlocking n prompt) = register_blocking n prompt w"
| "prompt_step w (Respond n answer) = snd (respond n answer w)"
| "prompt_step w (RespondBlocking n answer) = snd (respond_blocking n answer w)"
| "prompt_step w (Cancel n) = snd (cancel n w)"
| "prompt_step w (DropGuard n) = drop_prompt_guard n w"
| "prompt_step w (DropReceiver n) = w\<lparr>pw_open := pw_open w - {n}\<rparr>"

text \<open>A random nonce was not drawn before.\<close>

fun fresh_prompt :: "prompt_world \<Rightarrow> prompt_call \<Rightarrow> bool" where
  "fresh_prompt w (Register n prompt) \<longleftrightarrow> n \<notin> pw_drawn w"
| "fresh_prompt w (RegisterAndWait n prompt) \<longleftrightarrow> n \<notin> pw_drawn w"
| "fresh_prompt w (RegisterBlocking n prompt) \<longleftrightarrow> n \<notin> pw_drawn w"
| "fresh_prompt w _ \<longleftrightarrow> True"

definition no_prompts :: prompt_world where
  "no_prompts = \<lparr>pw_registry = [], pw_open = {}, pw_delivered = [], pw_drawn = {}\<rparr>"

text \<open>A prompt leaves the registry with its answer, and a sender is only lost to a dead receiver.\<close>

definition prompts_ok :: "prompt_world \<Rightarrow> bool" where
  "prompts_ok w \<longleftrightarrow>
     distinct (map fst (pw_registry w)) \<and> distinct (map fst (pw_delivered w)) \<and>
     dom (map_of (pw_registry w)) \<subseteq> pw_drawn w \<and> fst ` set (pw_delivered w) \<subseteq> pw_drawn w \<and> pw_open w \<subseteq> pw_drawn w \<and>
     dom (map_of (pw_registry w)) \<inter> fst ` set (pw_delivered w) = {} \<and>
     (\<forall>n p. map_of (pw_registry w) n = Some p \<and> n \<in> pw_open w \<longrightarrow> response_tx p \<or> sync_response_tx p)"

lemma respond_blocking_same: "respond_blocking = respond"
  by (intro ext) (simp add: respond_blocking_def respond_def)

declare map_of_eq_Some_iff [simp del]

lemmas prompt_defs = register_prompt_def register_and_wait_def register_blocking_def put_prompt_def
  take_out_def cancel_def drop_prompt_guard_def

lemma prompt_step_drawn: "pw_drawn w \<subseteq> pw_drawn (prompt_step w c)"
  by (cases c) (auto simp: prompt_defs respond_blocking_same respond_def send_answer_def split: option.split)

lemma put_prompt_ok:
  assumes "prompts_ok w" "n \<notin> fst ` set (pw_delivered w)" "n \<in> pw_open w \<longrightarrow> response_tx p \<or> sync_response_tx p" "n \<in> pw_drawn w"
  shows "prompts_ok (put_prompt n p w)"
  using assms by (auto simp: prompts_ok_def put_prompt_def update_conv' distinct_update)

lemma take_out_ok: "prompts_ok w \<Longrightarrow> prompts_ok (take_out n w)"
  by (auto simp: prompts_ok_def take_out_def delete_conv' distinct_delete)

lemma draw_ok: "prompts_ok w \<Longrightarrow> prompts_ok (w\<lparr>pw_drawn := insert n (pw_drawn w)\<rparr>)"
  by (auto simp: prompts_ok_def)

lemma open_ok:
  "prompts_ok w \<Longrightarrow> n \<notin> pw_drawn w \<Longrightarrow> prompts_ok (w\<lparr>pw_open := insert n (pw_open w), pw_drawn := insert n (pw_drawn w)\<rparr>)"
  by (auto simp: prompts_ok_def)

lemma not_drawn: "prompts_ok w \<Longrightarrow> n \<notin> pw_drawn w \<Longrightarrow> n \<notin> fst ` set (pw_delivered w) \<and> n \<notin> pw_open w"
  by (auto simp: prompts_ok_def)

lemma respond_cases:
  obtains (unknown) "map_of (pw_registry w) n = None" "respond n a w = (Inl (UnknownNonce n), w)"
  | (sent) p where "map_of (pw_registry w) n = Some p" "n \<in> pw_open w" "response_tx p \<or> sync_response_tx p"
      "respond n a w = (Inr (), take_out n (w\<lparr>pw_delivered := pw_delivered w @ [(n, a)]\<rparr>))"
  | (dropped) p taken where "map_of (pw_registry w) n = Some p" "n \<notin> pw_open w"
      "respond n a w = (Inl (PrompterDropped n), put_prompt n taken w)"
  | (repeated) p where "map_of (pw_registry w) n = Some p" "\<not> response_tx p" "\<not> sync_response_tx p"
      "respond n a w = (Inl (AlreadyResponded n), w)"
proof (cases "map_of (pw_registry w) n")
  case None
  with unknown show thesis by (simp add: respond_def)
next
  case (Some p)
  show thesis
  proof (cases "response_tx p \<or> sync_response_tx p")
    case True
    define taken where "taken = (if response_tx p then p\<lparr>response_tx := False\<rparr> else p\<lparr>sync_response_tx := False\<rparr>)"
    have "respond n a w = send_answer n a taken w" using True by (auto simp: respond_def Some taken_def)
    with sent [OF Some] dropped [OF Some] True show thesis by (cases "n \<in> pw_open w") (auto simp: send_answer_def)
  next
    case False
    with repeated [OF Some] show thesis by (simp add: respond_def Some)
  qed
qed

lemma respond_ok:
  assumes "prompts_ok w"
  shows "prompts_ok (snd (respond n a w))"
proof (cases rule: respond_cases [of w n a])
  case (sent p)
  from assms sent(1) have "n \<notin> fst ` set (pw_delivered w)" "n \<in> pw_drawn w" by (auto simp: prompts_ok_def)
  with assms have "prompts_ok (take_out n (w\<lparr>pw_delivered := pw_delivered w @ [(n, a)]\<rparr>))"
    by (auto simp: prompts_ok_def take_out_def delete_conv' distinct_delete)
  with sent show ?thesis by simp
next
  case (dropped p taken)
  from assms dropped(1) have "n \<notin> fst ` set (pw_delivered w)" "n \<in> pw_drawn w" by (auto simp: prompts_ok_def)
  with assms dropped show ?thesis by (simp add: put_prompt_ok)
qed (use assms in simp_all)

lemma prompt_step_ok:
  assumes "prompts_ok w" "fresh_prompt w c"
  shows "prompts_ok (prompt_step w c)"
proof (cases c)
  case (Register n prompt)
  with assms not_drawn [of w n] show ?thesis
    by (auto simp: register_prompt_def intro!: put_prompt_ok draw_ok)
next
  case (RegisterAndWait n prompt)
  with assms not_drawn [of w n] show ?thesis
    by (auto simp: register_and_wait_def intro!: put_prompt_ok open_ok)
next
  case (RegisterBlocking n prompt)
  with assms not_drawn [of w n] show ?thesis
    by (auto simp: register_blocking_def intro!: put_prompt_ok open_ok)
next
  case (Cancel n)
  with assms show ?thesis by (simp add: cancel_def take_out_ok)
next
  case (DropGuard n)
  with assms show ?thesis by (simp add: drop_prompt_guard_def take_out_ok)
next
  case (DropReceiver n)
  with assms show ?thesis by (auto simp: prompts_ok_def)
qed (use assms respond_ok in \<open>simp_all add: respond_blocking_same\<close>)

interpretation prompts: state_machine prompt_step fresh_prompt prompts_ok
  by unfold_locales (rule prompt_step_ok)

lemma no_prompts_ok: "prompts_ok no_prompts"
  by (simp add: prompts_ok_def no_prompts_def)

section \<open>What a prompter may rely on\<close>

text \<open>
  A prompt is answered at most once, and a waiting one can be. After any run of the
  registry no nonce was delivered two answers. An answer to a registered prompt whose prompter
  still listens is accepted and delivered, and takes the prompt out; any other answer is refused and
  delivered to nobody.
\<close>

theorem prompt_answered_once:
  assumes "admissible prompt_step fresh_prompt no_prompts calls" "w = foldl prompt_step no_prompts calls"
  shows "distinct (map fst (pw_delivered w)) \<and>
    (case respond n answer w of
       (Inr _, w') \<Rightarrow> n \<in> set (pending_nonces w) \<and> n \<in> pw_open w \<and>
         pw_delivered w' = pw_delivered w @ [(n, answer)] \<and> n \<notin> set (pending_nonces w')
     | (Inl _, w') \<Rightarrow> \<not> (n \<in> set (pending_nonces w) \<and> n \<in> pw_open w) \<and> pw_delivered w' = pw_delivered w)"
proof -
  from prompts.run_inv [OF no_prompts_ok assms(1)] assms(2) have ok: "prompts_ok w" by simp
  have pending: "n \<in> set (pending_nonces v) \<longleftrightarrow> map_of (pw_registry v) n \<noteq> None" for v
    by (simp add: pending_nonces_def map_of_eq_None_iff)
  show ?thesis
  proof (cases rule: respond_cases [of w n answer])
    case (sent p)
    with ok show ?thesis by (simp add: pending take_out_def delete_conv' prompts_ok_def)
  next
    case (dropped p taken)
    with ok show ?thesis by (simp add: pending put_prompt_def prompts_ok_def)
  next
    case (repeated p)
    with ok show ?thesis by (auto simp: pending prompts_ok_def)
  qed (use ok in \<open>simp add: pending prompts_ok_def\<close>)
qed

lemma prompt_answered_once_witness:
  "fst (respond ''a'' ''123'' (foldl prompt_step no_prompts
     [RegisterAndWait ''a'' ''Code:'', RegisterBlocking ''b'' ''Code:'', DropReceiver ''b''])) = Inr () \<and>
   distinct (map fst (pw_delivered (foldl prompt_step no_prompts [RegisterAndWait ''a'' ''Code:''])))"
proof -
  have "admissible prompt_step fresh_prompt no_prompts [RegisterAndWait ''a'' ''Code:'']"
    by (simp add: no_prompts_def)
  from prompt_answered_once [OF this refl] show ?thesis by (simp add: no_prompts_def prompt_defs respond_def send_answer_def)
qed

text \<open>\<open>register\<close> drops the receiver at once, so its prompt can never be answered.\<close>

lemma registered_prompt_cannot_be_answered:
  assumes "prompts_ok w" "n \<notin> pw_drawn w"
  shows "fst (respond n answer (register_prompt n prompt w)) = Inl (PrompterDropped n)"
  using not_drawn [OF assms] by (simp add: register_prompt_def put_prompt_def respond_def send_answer_def update_conv')

text \<open>
  An answer that came too late leaves the prompt listed as pending, and the next one is told that it
  was already answered.
\<close>

lemma late_answer_stays_pending:
  "let w = register_prompt ''a'' ''Code:'' no_prompts; w' = snd (respond ''a'' ''1'' w)
   in pending_count w' = 1 \<and> pw_delivered w' = [] \<and> fst (respond ''a'' ''2'' w') = Inl (AlreadyResponded ''a'')"
  by code_simp

end
