(* ===== verification/Daemon_Auth.thy ===== *)
theory Daemon_Auth
  imports Daemon_Scope Exec_Gate Text_Split
begin

text \<open>
  Who may talk to a daemon: the files of scoped tokens and of remote daemons (\<open>remote.rs\<close>), the
  authentication in front of every handler (\<open>bin/agent2ssh_daemon/auth.rs\<close>), and the checks of
  \<open>bin/agent2ssh-daemon.rs\<close> that need nothing but the request: its source, the administrator's token,
  the origin of a page. The parser of TOML, the environment, SHA-256, the decoding of a query and the
  health probe are arguments. A file is its text, or absent.
\<close>

section \<open>Scoped tokens\<close>

record scoped_daemon_token =
  sdt_name :: "str option"
  sdt_token :: "str option"
  sdt_token_env :: "str option"
  sdt_scope :: "daemon_scope option"

datatype token_file_error =
    TokensUnparsable
  | EmptyTokenName
  | DuplicateTokenName str
  | NoTokenSet
  | NoScopeDefined

definition blank :: "str option \<Rightarrow> bool" where
  "blank s \<longleftrightarrow> trim (case s of Some x \<Rightarrow> x | None \<Rightarrow> []) = []"

text \<open>The loop; \<open>names\<close> are the trimmed names so far.\<close>

fun validate_scoped_tokens :: "str list \<Rightarrow> scoped_daemon_token list \<Rightarrow> token_file_error option" where
  "validate_scoped_tokens names [] = None"
| "validate_scoped_tokens names (t # ts) =
     (let rest = (\<lambda>names'.
            if blank (sdt_token_env t) \<and> blank (sdt_token t) then Some NoTokenSet
            else if sdt_scope t = None then Some NoScopeDefined
            else validate_scoped_tokens names' ts)
      in case sdt_name t of
           None \<Rightarrow> rest names
         | Some n \<Rightarrow>
             if trim n = [] then Some EmptyTokenName
             else if trim n \<in> set names then Some (DuplicateTokenName (trim n))
             else rest (trim n # names))"

definition validate_scoped_daemon_tokens :: "scoped_daemon_token list \<Rightarrow> token_file_error option" where
  "validate_scoped_daemon_tokens ts = validate_scoped_tokens [] ts"

text \<open>What a load that misses the cache gives.\<close>

definition load_scoped_daemon_tokens ::
  "(str \<Rightarrow> scoped_daemon_token list option) \<Rightarrow> str option \<Rightarrow> token_file_error + scoped_daemon_token list" where
  "load_scoped_daemon_tokens parse file =
     (case file of
        None \<Rightarrow> Inr []
      | Some raw \<Rightarrow>
          (case parse raw of
             None \<Rightarrow> Inl TokensUnparsable
           | Some ts \<Rightarrow> (case validate_scoped_daemon_tokens ts of Some e \<Rightarrow> Inl e | None \<Rightarrow> Inr ts)))"

definition resolve_scoped_daemon_token :: "(str \<Rightarrow> str option) \<Rightarrow> scoped_daemon_token \<Rightarrow> str option" where
  "resolve_scoped_daemon_token env t =
     (case sdt_token_env t of Some v \<Rightarrow> env v | None \<Rightarrow> sdt_token t)"

section \<open>Remote daemons\<close>

record remote_daemon =
  rd_alias :: str
  rd_url :: str
  rd_token :: "str option"
  rd_token_env :: "str option"
  rd_scope :: "daemon_scope option"

datatype remote_error =
    RemotesUnparsable
  | EmptyAlias
  | ReservedAlias
  | DuplicateAlias str
  | BadRemoteUrl str
  | RemoteWithoutToken str
  | DaemonNotFound str

fun validate_remote_list :: "str list \<Rightarrow> remote_daemon list \<Rightarrow> remote_error option" where
  "validate_remote_list aliases [] = None"
| "validate_remote_list aliases (r # rs) =
     (if trim (rd_alias r) = [] then Some EmptyAlias
      else if rd_alias r = ''localhost'' then Some ReservedAlias
      else if rd_alias r \<in> set aliases then Some (DuplicateAlias (rd_alias r))
      else if \<not> (starts_with (rd_url r) ''http://'' \<or> starts_with (rd_url r) ''https://'') then
        Some (BadRemoteUrl (rd_alias r))
      else if blank (rd_token_env r) \<and> blank (rd_token r) then Some (RemoteWithoutToken (rd_alias r))
      else validate_remote_list (rd_alias r # aliases) rs)"

definition validate_remotes :: "remote_daemon list \<Rightarrow> remote_error option" where
  "validate_remotes rs = validate_remote_list [] rs"

definition load_remotes ::
  "(str \<Rightarrow> remote_daemon list option) \<Rightarrow> str option \<Rightarrow> remote_error + remote_daemon list" where
  "load_remotes parse file =
     (case file of
        None \<Rightarrow> Inr []
      | Some raw \<Rightarrow>
          (case parse raw of
             None \<Rightarrow> Inl RemotesUnparsable
           | Some rs \<Rightarrow> (case validate_remotes rs of Some e \<Rightarrow> Inl e | None \<Rightarrow> Inr rs)))"

definition resolve_token :: "(str \<Rightarrow> str option) \<Rightarrow> remote_daemon \<Rightarrow> str option" where
  "resolve_token env r = (case rd_token_env r of Some v \<Rightarrow> env v | None \<Rightarrow> rd_token r)"

definition get_daemon_with_scope ::
  "(str \<Rightarrow> str option) \<Rightarrow> str \<Rightarrow> str option \<Rightarrow> remote_error + remote_daemon list \<Rightarrow> str \<Rightarrow>
   remote_error + (str \<times> str option \<times> daemon_scope option)" where
  "get_daemon_with_scope env local_url local_token remotes name =
     (if name = ''localhost'' then Inr (local_url, map_option trim local_token, None)
      else case remotes of
        Inl e \<Rightarrow> Inl e
      | Inr rs \<Rightarrow>
          (case List.find (\<lambda>r. rd_alias r = name) rs of
             None \<Rightarrow> Inl (DaemonNotFound name)
           | Some r \<Rightarrow> Inr (rd_url r, resolve_token env r, rd_scope r)))"

definition get_daemon ::
  "(str \<Rightarrow> str option) \<Rightarrow> str \<Rightarrow> str option \<Rightarrow> remote_error + remote_daemon list \<Rightarrow> str \<Rightarrow>
   remote_error + (str \<times> str option)" where
  "get_daemon env local_url local_token remotes name =
     (if name = ''localhost'' then Inr (local_url, map_option trim local_token)
      else case remotes of
        Inl e \<Rightarrow> Inl e
      | Inr rs \<Rightarrow>
          (case List.find (\<lambda>r. rd_alias r = name) rs of
             None \<Rightarrow> Inl (DaemonNotFound name)
           | Some r \<Rightarrow> Inr (rd_url r, resolve_token env r)))"

record daemon_info =
  di_alias :: str
  di_url :: str
  di_connected :: bool
  di_scope :: "daemon_scope option"

definition list_daemons_core ::
  "(str \<Rightarrow> bool) \<Rightarrow> str \<Rightarrow> remote_error + remote_daemon list \<Rightarrow> remote_error + daemon_info list" where
  "list_daemons_core healthy local_url remotes =
     map_sum id (\<lambda>rs.
         \<lparr>di_alias = ''localhost'', di_url = local_url, di_connected = healthy local_url, di_scope = None\<rparr> #
         map (\<lambda>r. \<lparr>di_alias = rd_alias r, di_url = rd_url r, di_connected = healthy (rd_url r),
            di_scope = rd_scope r\<rparr>) rs)
       remotes"

text \<open>The tags a scope is checked against: those the remote daemon lists, if the scope asks for any.\<close>

definition tags_for_remote_scope_check ::
  "daemon_scope option \<Rightarrow> 'e + (str \<times> str list) list \<Rightarrow> str \<Rightarrow> str list \<Rightarrow> ('e + str) + str list" where
  "tags_for_remote_scope_check scope remote_hosts host_name fallback_tags =
     (if (case scope of None \<Rightarrow> False | Some s \<Rightarrow> allowed_tags s \<noteq> []) then
        (case remote_hosts of
           Inl e \<Rightarrow> Inl (Inl e)
         | Inr hosts \<Rightarrow>
             (case List.find (\<lambda>(n, _). eq_ignore_ascii_case n host_name) hosts of
                None \<Rightarrow> Inl (Inr host_name)
              | Some (_, tags) \<Rightarrow> Inr tags))
      else Inr fallback_tags)"

section \<open>Authentication\<close>

record auth_context =
  ac_scope :: "daemon_scope option"
  ac_principal :: str

datatype auth_refusal = TokensUnavailable token_file_error | Unauthorized

definition token_matches :: "str \<Rightarrow> str \<Rightarrow> bool" where
  "token_matches candidate expected = (if trim expected = [] then False else candidate = expected)"

fun find_scoped :: "(str \<Rightarrow> str option) \<Rightarrow> str \<Rightarrow> scoped_daemon_token list \<Rightarrow> scoped_daemon_token option" where
  "find_scoped env token [] = None"
| "find_scoped env token (t # ts) =
     (case resolve_scoped_daemon_token env t of
        None \<Rightarrow> find_scoped env token ts
      | Some expected \<Rightarrow> if token_matches token expected then Some t else find_scoped env token ts)"

definition authenticate_token ::
  "(str \<Rightarrow> str) \<Rightarrow> (str \<Rightarrow> str option) \<Rightarrow> str \<Rightarrow> token_file_error + scoped_daemon_token list \<Rightarrow> str \<Rightarrow>
   auth_refusal + auth_context" where
  "authenticate_token sha env admin loaded token =
     (if token_matches token admin then Inr \<lparr>ac_scope = None, ac_principal = sha token\<rparr>
      else case loaded of
        Inl e \<Rightarrow> Inl (TokensUnavailable e)
      | Inr ts \<Rightarrow>
          (case find_scoped env token ts of
             None \<Rightarrow> Inl Unauthorized
           | Some t \<Rightarrow> Inr \<lparr>ac_scope = sdt_scope t, ac_principal = sha token\<rparr>))"

definition is_public_path :: "str \<Rightarrow> bool" where
  "is_public_path path \<longleftrightarrow> path \<in> set [''/'', ''/console'', ''/health'', ''/metrics'']"

definition accepts_query_token :: "str \<Rightarrow> bool" where
  "accepts_query_token path \<longleftrightarrow> path \<in> set [''/terminal'', ''/exec/stream'']"

text \<open>A header value is text when all its bytes are visible ASCII or a tab.\<close>

definition header_text :: "str \<Rightarrow> str option" where
  "header_text v =
     (if list_all (\<lambda>c. (of_char c :: nat) = 9 \<or> 32 \<le> (of_char c :: nat) \<and> (of_char c :: nat) < 127) v
      then Some v else None)"

definition bearer_token :: "str option \<Rightarrow> str option" where
  "bearer_token authorization =
     Option.bind (Option.bind authorization header_text) (\<lambda>v. strip_prefix v ''Bearer '')"

text \<open>The decoded query is collected into a hash map: the last value of a name stays.\<close>

definition query_token :: "(str \<times> str) list option \<Rightarrow> str option" where
  "query_token query = Option.bind query (\<lambda>ps. map_of (rev ps) ''token'')"

record http_request =
  hr_path :: str
  hr_authorization :: "str option"
  hr_query :: "(str \<times> str) list option"

definition presented_token :: "http_request \<Rightarrow> str" where
  "presented_token r =
     (case bearer_token (hr_authorization r) of
        Some t \<Rightarrow> t
      | None \<Rightarrow>
          (case (if accepts_query_token (hr_path r) then query_token (hr_query r) else None) of
             Some t \<Rightarrow> t
           | None \<Rightarrow> []))"

text \<open>What the middleware does with a request: on to its handler, without or with an identity, or back.\<close>

datatype admission = Public | Authenticated auth_context | Turned_away auth_refusal

definition auth_middleware ::
  "(str \<Rightarrow> str) \<Rightarrow> (str \<Rightarrow> str option) \<Rightarrow> str \<Rightarrow> token_file_error + scoped_daemon_token list \<Rightarrow> http_request \<Rightarrow> admission" where
  "auth_middleware sha env admin loaded r =
     (if is_public_path (hr_path r) then Public
      else case authenticate_token sha env admin loaded (presented_token r) of
        Inl e \<Rightarrow> Turned_away e
      | Inr a \<Rightarrow> Authenticated a)"

definition require_admin :: "auth_context \<Rightarrow> bool" where
  "require_admin auth \<longleftrightarrow> ac_scope auth = None"

section \<open>Origins\<close>

definition is_trusted_cors_origin :: "str \<Rightarrow> bool" where
  "is_trusted_cors_origin origin =
     (if origin \<in> set [''tauri://localhost'', ''http://tauri.localhost'', ''https://tauri.localhost''] then True
      else case (case strip_prefix origin ''http://'' of Some r \<Rightarrow> Some r | None \<Rightarrow> strip_prefix origin ''https://'') of
        None \<Rightarrow> False
      | Some rest \<Rightarrow>
          (let host = hd (split_char (CHR '':'') rest);
               port_ok = (case split_once '':'' rest of
                   None \<Rightarrow> True
                 | Some (_, port) \<Rightarrow> port \<noteq> [] \<and> list_all is_ascii_digit port)
           in port_ok \<and> host \<in> set [''localhost'', ''127.0.0.1'']))"

section \<open>The token of the administrator\<close>

text \<open>
  The file that holds it; \<open>fresh\<close> is a new random id. \<open>None\<close> for the file means that it is absent. The
  result is the token and the file afterwards.
\<close>

definition load_or_create_daemon_token :: "str \<Rightarrow> str option \<Rightarrow> str \<times> str option" where
  "load_or_create_daemon_token fresh file =
     (case file of
        None \<Rightarrow> (fresh, Some fresh)
      | Some content \<Rightarrow> if trim content \<noteq> [] then (trim content, file) else (fresh, Some fresh))"

section \<open>Who gets in\<close>

lemma token_matches_iff: "token_matches c e \<longleftrightarrow> c = e \<and> trim c \<noteq> []"
  by (auto simp: token_matches_def)

lemma find_scoped_Some:
  "find_scoped env token ts = Some t \<Longrightarrow> t \<in> set ts \<and> resolve_scoped_daemon_token env t = Some token \<and> trim token \<noteq> []"
  by (induction ts) (auto simp: token_matches_iff split: option.splits if_splits)

lemma validated_scope: "validate_scoped_tokens names ts = None \<Longrightarrow> t \<in> set ts \<Longrightarrow> sdt_scope t \<noteq> None"
  by (induction names ts rule: validate_scoped_tokens.induct) (auto simp: Let_def split: option.splits if_splits)

lemma loaded_scope: "load_scoped_daemon_tokens parse file = Inr ts \<Longrightarrow> t \<in> set ts \<Longrightarrow> sdt_scope t \<noteq> None"
  using validated_scope [of "[]" ts t]
  by (auto simp: load_scoped_daemon_tokens_def validate_scoped_daemon_tokens_def split: option.splits)

lemma presented_token_source:
  "presented_token r \<noteq> [] \<Longrightarrow>
     hr_authorization r = Some (''Bearer '' @ presented_token r) \<or>
     accepts_query_token (hr_path r) \<and> query_token (hr_query r) = Some (presented_token r)"
  by (auto simp: presented_token_def bearer_token_def header_text_def strip_prefix_def bind_eq_Some_conv
      starts_with_prefix prefix_def split: option.splits if_splits)


definition demo_token :: scoped_daemon_token where
  "demo_token = \<lparr>sdt_name = Some ''ci'', sdt_token = Some ''t1'', sdt_token_env = None,
     sdt_scope = Some \<lparr>allowed_hosts = [''web''], allowed_tags = [], allowed_commands = [], denied_commands = []\<rparr>\<rparr>"


text \<open>A blank \<open>token_env\<close> passes the check when a token is set, but hides it: the token is never accepted.\<close>

lemma blank_variable_hides_token:
  assumes "env '' '' = None"
  shows "validate_scoped_daemon_tokens [demo_token\<lparr>sdt_token_env := Some '' ''\<rparr>] = None \<and>
    resolve_scoped_daemon_token env (demo_token\<lparr>sdt_token_env := Some '' ''\<rparr>) = None"
proof -
  have "trim '' '' = [] \<and> trim ''ci'' \<noteq> [] \<and> trim ''t1'' \<noteq> []" by code_simp
  with assms show ?thesis
    by (simp add: validate_scoped_daemon_tokens_def resolve_scoped_daemon_token_def demo_token_def blank_def)
qed

text \<open>A token that was loaded or created is never blank, when the fresh one is not, and stays the same.\<close>

lemma daemon_token_stays:
  assumes "load_or_create_daemon_token fresh file = (t, file')" "trim fresh = fresh" "fresh \<noteq> []"
  shows "trim t = t \<and> t \<noteq> [] \<and> load_or_create_daemon_token fresh' file' = (t, file')"
  using assms by (auto simp: load_or_create_daemon_token_def trim_idem split: option.splits if_splits)

end
