(* ===== verification/Daemon_Requests.thy ===== *)
theory Daemon_Requests
  imports Approval_Laws Daemon_Auth Exec_Limits Batch_Exec
begin

text \<open>
  \<open>bin/agent2ssh-daemon.rs\<close>: what the daemon does with a request to run a command. It fixes the source,
  bounds the length, asks the execution gate and the limiter, authorizes the command, waits for an
  approver where one is needed, and hands the command to the execution of \<open>core.rs\<close>. The state is the
  audit log, the limiter behind its lock and the notices sent (events and webhooks, in their order);
  the counters of the metrics route are left out. Everything a request reads from disk or the clock is
  a \<open>daemon_env\<close>, one field for each reading; the approver is a function, which
  \<open>request_and_wait_for_approval\<close> implements over the approval store. \<open>None\<close> is a panic.
\<close>

section \<open>Refusals\<close>

datatype refusal =
    DesktopSourceClaimed
  | CommandLengthExceeded
  | GateUnreadable
  | GateIsPaused
  | LimitExceeded execution_limit_rejection
  | ScopeRefused scope_error
  | CommandBlocked str
  | ApproverRejected
  | ApproverTimedOut
  | AuthorizationFailed str
  | NotALocalTarget str
  | ExecutionFailed exec_error
  | SelectionFailed resolve_error
  | SessionFailed str

fun refusal_status :: "refusal \<Rightarrow> nat" where
  "refusal_status DesktopSourceClaimed = 403"
| "refusal_status CommandLengthExceeded = 400"
| "refusal_status GateUnreadable = 500"
| "refusal_status GateIsPaused = 423"
| "refusal_status (LimitExceeded r) = 429"
| "refusal_status (ScopeRefused e) = 403"
| "refusal_status (CommandBlocked m) = 400"
| "refusal_status ApproverRejected = 403"
| "refusal_status ApproverTimedOut = 408"
| "refusal_status (AuthorizationFailed m) = 500"
| "refusal_status (NotALocalTarget h) = 400"
| "refusal_status (ExecutionFailed e) = 400"
| "refusal_status (SelectionFailed e) = 400"
| "refusal_status (SessionFailed m) = 400"

datatype daemon_notice =
    GateRejected str str str execution_gate_mode "str option"
  | LimitRejected str str str execution_limit_rejection
  | ExecBlocked str str risk_level
  | ExecCompleted str str "int option"
  | SessionOpened str str session_id
  | SessionInput str session_id str nat
  | SessionClosed str session_id

record daemon_state =
  ds_audit :: audit_world
  ds_limiter :: execution_limiter
  ds_notices :: "daemon_notice list"

record daemon_env =
  de_source_var :: "str option"
  de_gate :: gate_file
  de_limits_file :: "execution_limit_config option"
  de_pruned :: nat
  de_now :: nat
  de_audit :: audit_env
  de_targets :: "config option"
  de_override :: "nat \<Rightarrow> config option"
  de_before :: "nat \<Rightarrow> exec_ctx"
  de_after :: "nat \<Rightarrow> exec_ctx"
  de_exec :: exec_ctx
  de_finish :: exec_ctx

definition notify :: "daemon_notice \<Rightarrow> daemon_state \<Rightarrow> daemon_state" where
  "notify n s = s\<lparr>ds_notices := ds_notices s @ [n]\<rparr>"

text \<open>Of at most so many characters; \<open>redact\<close> is the redaction of secrets.\<close>

definition preview_text :: "(str \<Rightarrow> str) \<Rightarrow> nat \<Rightarrow> str \<Rightarrow> str" where
  "preview_text redact_secrets max_chars v =
     (let redacted = chars (redact_secrets v)
      in concat (take max_chars redacted) @
         (if length redacted > max_chars then newline # ''...[truncated]'' else []))"

section \<open>The checks in front of the authorization\<close>

definition source_or_env :: "str option \<Rightarrow> str option \<Rightarrow> str \<Rightarrow> str" where
  "source_or_env env_var source default_source =
     (case source of
        Some s \<Rightarrow> if trim s \<noteq> [] then s else source_from_env env_var default_source
      | None \<Rightarrow> source_from_env env_var default_source)"

definition source_or_env_for_request ::
  "str option \<Rightarrow> str option \<Rightarrow> str \<Rightarrow> refusal + str" where
  "source_or_env_for_request env_var source default_source =
     (let s = source_or_env env_var source default_source
      in if default_source \<noteq> ''desktop'' \<and> source_can_bypass_gate s then Inl DesktopSourceClaimed
         else Inr s)"

definition ensure_command_length :: "str \<Rightarrow> refusal option" where
  "ensure_command_length command =
     (if command_too_long command then Some CommandLengthExceeded else None)"

definition reject_if_gate_paused ::
  "daemon_env \<Rightarrow> str \<Rightarrow> str \<Rightarrow> str \<Rightarrow> daemon_state \<Rightarrow> refusal option \<times> daemon_state" where
  "reject_if_gate_paused e source host command s =
     (case load_execution_gate (de_gate e) of
        Inl _ \<Rightarrow> (Some GateUnreadable, s)
      | Inr status \<Rightarrow>
          if \<not> gate_blocks_source status source then (None, s)
          else (Some GateIsPaused,
                notify (GateRejected source host (preview_text (redact (de_audit e)) 2048 command)
                    (gate_mode status) (gate_reason status))
                  (s\<lparr>ds_audit := append_audit (de_audit e)
                      (refusal_result host command Blocked ''execution gate paused'') Blocked
                      (opt_or (gate_reason status) (Some ''execution gate paused'')) None (Some source)
                      (ds_audit s)\<rparr>)))"

definition host_tags :: "config option \<Rightarrow> str \<Rightarrow> str list" where
  "host_tags config host = target_tags (command_authorization_target config host)"

definition host_risk_override :: "config option \<Rightarrow> str \<Rightarrow> risk_level option" where
  "host_risk_override config host = target_risk_override (command_authorization_target config host)"

definition scope_allows_observe_host :: "config option \<Rightarrow> daemon_scope option \<Rightarrow> str \<Rightarrow> bool" where
  "scope_allows_observe_host config scope host =
     (case scope of None \<Rightarrow> True | Some sc \<Rightarrow> daemon_scope_allows_host sc host (host_tags config host))"

text \<open>The hosts whose entries a scoped token may read: all of them for \<open>None\<close>.\<close>

definition audit_host_scope :: "config option \<Rightarrow> daemon_scope option \<Rightarrow> str set option" where
  "audit_host_scope config scope =
     (case scope of
        None \<Rightarrow> None
      | Some sc \<Rightarrow>
          if allowed_hosts sc = [] \<and> allowed_tags sc = [] then None
          else (let hosts = (case config of None \<Rightarrow> [] | Some hs \<Rightarrow> hs);
                    names = hp_name ` set (filter (\<lambda>h. daemon_scope_allows_host sc (hp_name h) (hp_tags h)) hosts)
                in Some (if allowed_tags sc = [] then names \<union> set (allowed_hosts sc) else names)))"

definition refresh_execution_limits :: "execution_limit_config option \<Rightarrow> execution_limiter \<Rightarrow> execution_limiter" where
  "refresh_execution_limits file l =
     (case file of Some config \<Rightarrow> snd (apply_config config l) | None \<Rightarrow> l)"

definition limit_message :: "execution_limit_rejection \<Rightarrow> str" where
  "limit_message r =
     ''execution limit exceeded: '' @ rej_scope r @ '' current='' @ show_nat (rej_current r) @
     '' limit='' @ show_nat (rej_limit r)"

definition write_limit_rejection_audit ::
  "daemon_env \<Rightarrow> execution_limit_rejection \<Rightarrow> str \<Rightarrow> str \<Rightarrow> str \<Rightarrow> daemon_state \<Rightarrow> daemon_state" where
  "write_limit_rejection_audit e rejection source host command s =
     notify (LimitRejected source host (preview_text (redact (de_audit e)) 2048 command) rejection)
       (s\<lparr>ds_audit := append_audit (de_audit e)
           (refusal_result host command Blocked (limit_message rejection)) Blocked
           (Some (limit_message rejection)) None (Some source) (ds_audit s)\<rparr>)"

definition reject_if_rate_limited ::
  "daemon_env \<Rightarrow> str \<Rightarrow> (str \<times> str list) list \<Rightarrow> str \<Rightarrow> daemon_state \<Rightarrow> refusal option \<times> daemon_state" where
  "reject_if_rate_limited e source targets command s =
     (case check_execution_batch (de_pruned e) (de_now e) source targets
             (refresh_execution_limits (de_limits_file e) (ds_limiter s)) of
        (None, l) \<Rightarrow> (None, s\<lparr>ds_limiter := l\<rparr>)
      | (Some r, l) \<Rightarrow>
          (Some (LimitExceeded r),
           write_limit_rejection_audit e r source (join '','' (map fst targets)) command
             (s\<lparr>ds_limiter := l\<rparr>)))"

definition register_limited_session_for_command ::
  "daemon_env \<Rightarrow> session_id \<Rightarrow> str \<Rightarrow> str \<Rightarrow> str list \<Rightarrow> str \<Rightarrow> daemon_state \<Rightarrow>
   refusal option \<times> daemon_state" where
  "register_limited_session_for_command e i source host tags command s =
     (case try_register_session i source host tags
             (refresh_execution_limits (de_limits_file e) (ds_limiter s)) of
        (None, l) \<Rightarrow> (None, s\<lparr>ds_limiter := l\<rparr>)
      | (Some r, l) \<Rightarrow>
          (Some (LimitExceeded r),
           write_limit_rejection_audit e r source host command (s\<lparr>ds_limiter := l\<rparr>)))"

section \<open>Authorization\<close>

text \<open>
  The answer to a prompt: the request is put into the approval store, the wait polls it, and once it is
  approved the store is read again for a rewritten command. Between two polls, and between the last
  poll and that reading, other requests and answers go on; they are the events of the schedule. \<open>None\<close>
  means that the wait is not over at the end of the schedule. The notification and the webhook, which
  run in a task of their own, are not part of the state.
\<close>

record approval_wait_env =
  wt_id :: uuid
  wt_requested :: int
  wt_context :: "approval_prompt \<Rightarrow> approval_context option"
  wt_polls :: "(approval_event list \<times> int) list"
  wt_late :: "approval_event list"

fun wait_for_answer ::
  "uuid \<Rightarrow> (approval_event list \<times> int) list \<Rightarrow> approval_state \<Rightarrow> (approval_status \<times> approval_state) option" where
  "wait_for_answer i [] s = None"
| "wait_for_answer i ((others, now) # polls) s =
     (let s1 = foldl approval_step s others;
          status = fst (approval_poll now i (requests s1));
          s2 = approval_step s1 (Poll now i)
      in case status of
           None \<Rightarrow> Some (Approval_Store.Rejected, s2)
         | Some st \<Rightarrow> if st = Pending then wait_for_answer i polls s2 else Some (st, s2))"

definition approval_ask :: "approval_wait_env \<Rightarrow> bool \<Rightarrow> approval_prompt \<Rightarrow> approval_event" where
  "approval_ask e may_rewrite p =
     Request (wt_id e) (wt_requested e) (prompt_host p) (prompt_command p) (prompt_risk p)
       (of_nat (prompt_ttl_secs p))
       (map_option (\<lambda>c. c\<lparr>ctx_reason := prompt_reason p, ctx_change_id := prompt_change_id p,
          rewritable := may_rewrite\<rparr>) (wt_context e p))"

definition request_and_wait_for_approval ::
  "approval_wait_env \<Rightarrow> bool \<Rightarrow> approval_prompt \<Rightarrow> approval_state \<Rightarrow>
   ((str + approval_outcome) \<times> approval_state) option" where
  "request_and_wait_for_approval e may_rewrite p s =
     (case wait_for_answer (wt_id e) (wt_polls e) (approval_step s (approval_ask e may_rewrite p)) of
        None \<Rightarrow> None
      | Some (Approval_Store.Approved, s1) \<Rightarrow>
          (let s2 = foldl approval_step s1 (wt_late e)
           in Some (Inr (case approval_rewritten_command (wt_id e) (requests s2) of
                           Some command \<Rightarrow> ApprovedRewritten command
                         | None \<Rightarrow> Execution_Control.Approved), s2))
      | Some (Approval_Store.Rejected, s1) \<Rightarrow> Some (Inr Execution_Control.Rejected, s1)
      | Some (Approval_Store.TimedOut, s1) \<Rightarrow> Some (Inr Execution_Control.TimedOut, s1)
      | Some (_, s1) \<Rightarrow> Some (Inl ''unexpected approval status'', s1))"

text \<open>
  \<open>authorize_command_inner\<close>: \<open>approver may_rewrite\<close> answers the prompt. The number picks the readings of
  the files, one for each authorization of a request.
\<close>

type_synonym approver = "bool \<Rightarrow> approval_handler"

definition refusal_of :: "authorization_error \<Rightarrow> refusal" where
  "refusal_of e =
     (case e of
        ScopeDenied m \<Rightarrow> ScopeRefused m
      | BlockedError r m \<Rightarrow> CommandBlocked m
      | ApprovalRejected \<Rightarrow> ApproverRejected
      | ApprovalTimedOut \<Rightarrow> ApproverTimedOut
      | Internal m \<Rightarrow> AuthorizationFailed m)"

definition authorize_command_inner ::
  "daemon_env \<Rightarrow> nat \<Rightarrow> approver \<Rightarrow> bool \<Rightarrow> command_authorization_input \<Rightarrow> daemon_state \<Rightarrow>
   ((refusal + command_authorization) \<times> daemon_state) option" where
  "authorize_command_inner e n approver may_rewrite i s =
     (let i' = i\<lparr>in_risk_override := opt_or (in_risk_override i)
                  (host_risk_override (de_override e n) (in_host i)),
                in_side_effect := None\<rparr>
      in map_option (\<lambda>(result, w).
           let s' = s\<lparr>ds_audit := w\<rparr> in
           (case result of
              Inr auth \<Rightarrow> (Inr auth, s')
            | Inl err \<Rightarrow>
                (Inl (refusal_of err),
                 (case err of
                    BlockedError r m \<Rightarrow> notify (ExecBlocked (in_host i) (in_command i) r) s'
                  | _ \<Rightarrow> s'))))
         (authorize_command_with_approval (de_before e n) (de_after e n) i' (approver may_rewrite)
            (ds_audit s)))"

text \<open>\<open>authorize_command\<close> drops the command: no rewrite is asked for.\<close>

definition authorize_command ::
  "daemon_env \<Rightarrow> nat \<Rightarrow> approver \<Rightarrow> command_authorization_input \<Rightarrow> daemon_state \<Rightarrow>
   ((refusal + risk_level \<times> bool) \<times> daemon_state) option" where
  "authorize_command e n approver i s =
     map_option (\<lambda>(result, s'). (map_sum id (\<lambda>a. (auth_risk a, auth_approved a)) result, s'))
       (authorize_command_inner e n approver False i s)"

record preflight_result =
  pf_source :: str
  pf_risk :: risk_level
  pf_approved :: bool
  pf_command :: "str option"

text \<open>
  The chain of checks of a request to a single host. \<open>preflight_guarded_request\<close> and
  \<open>preflight_rewritable_request\<close> are its two values of \<open>may_rewrite\<close>.
\<close>

definition preflight_guarded_request_inner ::
  "daemon_env \<Rightarrow> approver \<Rightarrow> bool \<Rightarrow> command_authorization_input \<Rightarrow> daemon_state \<Rightarrow>
   ((refusal + preflight_result) \<times> daemon_state) option" where
  "preflight_guarded_request_inner e approver may_rewrite i s =
     (case reject_if_gate_paused e (in_source i) (in_host i) (in_command i) s of
        (Some r, s1) \<Rightarrow> Some (Inl r, s1)
      | (None, s1) \<Rightarrow>
          (case reject_if_rate_limited e (in_source i) [(in_host i, in_tags i)] (in_command i) s1 of
             (Some r, s2) \<Rightarrow> Some (Inl r, s2)
           | (None, s2) \<Rightarrow>
               map_option (\<lambda>(result, s3).
                   (map_sum id (\<lambda>a. \<lparr>pf_source = in_source i, pf_risk = auth_risk a,
                      pf_approved = auth_approved a, pf_command = auth_command a\<rparr>) result, s3))
                 (authorize_command_inner e 0 approver may_rewrite i s2)))"

definition preflight_guarded_request where
  "preflight_guarded_request e approver i s = preflight_guarded_request_inner e approver False i s"

definition preflight_rewritable_request where
  "preflight_rewritable_request e approver i s = preflight_guarded_request_inner e approver True i s"

section \<open>Running a command on one host\<close>

text \<open>What the handlers ask the authorization for.\<close>

definition input_of ::
  "daemon_env \<Rightarrow> daemon_scope option \<Rightarrow> str \<Rightarrow> exec_request \<Rightarrow> command_authorization_input" where
  "input_of e scope source q =
     \<lparr>auth_scope = scope, in_source = source, in_host = rq_host q,
      in_tags = host_tags (de_targets e) (rq_host q), in_risk_override = None,
      in_command = rq_command q, in_force = rq_force q, in_reason = rq_reason q,
      in_change_id = rq_change_id q, in_side_effect = None\<rparr>"

text \<open>The request that is executed: the approver's text, forced if an approver let a high risk through.\<close>

definition admitted_request :: "preflight_result \<Rightarrow> bool \<Rightarrow> str \<Rightarrow> exec_request \<Rightarrow> exec_request" where
  "admitted_request pf take_rewrite source q =
     q\<lparr>rq_source := Some source,
       rq_command := (case pf_command pf of
          Some c \<Rightarrow> if take_rewrite then c else rq_command q | None \<Rightarrow> rq_command q),
       rq_force := (rq_force q \<or> pf_approved pf \<and> pf_risk pf = High)\<rparr>"

definition finish_request ::
  "str \<Rightarrow> str \<Rightarrow> (exec_error + exec_result) \<times> audit_world \<Rightarrow> daemon_state \<Rightarrow>
   (refusal + exec_result) \<times> daemon_state" where
  "finish_request host command outcome s =
     (case outcome of (result, w) \<Rightarrow>
        (map_sum ExecutionFailed id result,
         notify (ExecCompleted host command
             (case result of Inl _ \<Rightarrow> None | Inr r \<Rightarrow> er_exit_code r))
           (s\<lparr>ds_audit := w\<rparr>)))"

definition daemon_exec ::
  "daemon_env \<Rightarrow> approver \<Rightarrow>
   (host_profile \<Rightarrow> str \<Rightarrow> str option \<Rightarrow> nat \<Rightarrow> nat \<Rightarrow> capture_end \<times> nat) \<Rightarrow>
   daemon_scope option \<Rightarrow> exec_request \<Rightarrow> daemon_state \<Rightarrow> ((refusal + exec_result) \<times> daemon_state) option" where
  "daemon_exec e approver run scope q s =
     (case source_or_env_for_request (de_source_var e) (rq_source q) ''daemon'' of
        Inl r \<Rightarrow> Some (Inl r, s)
      | Inr source \<Rightarrow>
          (case ensure_command_length (rq_command q) of
             Some r \<Rightarrow> Some (Inl r, s)
           | None \<Rightarrow>
               (case preflight_rewritable_request e approver (input_of e scope source q) s of
                  None \<Rightarrow> None
                | Some (Inl r, s1) \<Rightarrow> Some (Inl r, s1)
                | Some (Inr pf, s1) \<Rightarrow>
                    (let q' = admitted_request pf True source q
                     in map_option (\<lambda>outcome. finish_request (rq_host q') (rq_command q') outcome s1)
                          (exec_ssh_core_with_risk_override (de_exec e) (de_finish e) (de_source_var e)
                             run q' None (ds_audit s1))))))"

text \<open>
  The same chain in front of the daemon's own machine. The target is checked first. The preflight asks
  for no rewrite, and a rewrite would not be looked at.
\<close>

definition daemon_local_exec ::
  "daemon_env \<Rightarrow> approver \<Rightarrow> str option \<Rightarrow> (str \<Rightarrow> str + local_plan) \<Rightarrow>
   (local_plan \<Rightarrow> str \<Rightarrow> str option \<Rightarrow> nat \<Rightarrow> nat \<Rightarrow> capture_end \<times> nat) \<Rightarrow>
   daemon_scope option \<Rightarrow> exec_request \<Rightarrow> daemon_state \<Rightarrow> ((refusal + exec_result) \<times> daemon_state) option" where
  "daemon_local_exec e approver depth_error resolve_plan run scope q s =
     (if \<not> is_local_host (rq_host q) then Some (Inl (NotALocalTarget (rq_host q)), s)
      else case source_or_env_for_request (de_source_var e) (rq_source q) ''daemon'' of
        Inl r \<Rightarrow> Some (Inl r, s)
      | Inr source \<Rightarrow>
          (case ensure_command_length (rq_command q) of
             Some r \<Rightarrow> Some (Inl r, s)
           | None \<Rightarrow>
               (case preflight_guarded_request e approver (input_of e scope source q) s of
                  None \<Rightarrow> None
                | Some (Inl r, s1) \<Rightarrow> Some (Inl r, s1)
                | Some (Inr pf, s1) \<Rightarrow>
                    (let q' = admitted_request pf False source q
                     in map_option (\<lambda>outcome. finish_request LOCAL_TARGET_ID (rq_command q') outcome s1)
                          (exec_local_core_with_risk_override (de_exec e) (de_finish e) (de_source_var e)
                             depth_error resolve_plan run q' None (ds_audit s1))))))"

end
