(* ===== verification/Request_Answer.thy ===== *)
theory Request_Answer
  imports Daemon_Requests
begin

text \<open>
  The answer a request of the daemon gets is the one its approval request records: while the daemon
  waits, and other surfaces work on the same store, the request keeps its question and only moves
  forward. The other events may be anything but a request with the same id, which \<open>Uuid::new_v4\<close> does
  not give twice.
\<close>

definition other_event :: "uuid \<Rightarrow> approval_state \<Rightarrow> approval_event \<Rightarrow> bool" where
  "other_event i s e = (case e of Request j now host command risk ttl ctx \<Rightarrow> j \<noteq> i | _ \<Rightarrow> True)"

definition asked :: "uuid \<Rightarrow> approval_request \<Rightarrow> approval_state \<Rightarrow> bool" where
  "asked i r0 s \<longleftrightarrow> (case requests s i of None \<Rightarrow> False | Some r \<Rightarrow> request_ok i r \<and> evolves r0 r)"

lemma updates_one:
  "updates m effects m' \<Longrightarrow> m i = Some r \<Longrightarrow> request_ok i r \<Longrightarrow>
   \<exists>q. m' i = Some q \<and> request_ok i q \<and> evolves r q"
proof (induction arbitrary: r rule: updates.induct)
  case (create m j q effects m')
  then have "i \<noteq> j" by auto
  with create.IH [of r] create.prems show ?case by simp
next
  case (change m j q q' effects m')
  show ?case
  proof (cases "j = i")
    case True
    with change have q: "q = r" "request_ok i q'" by auto
    with change.IH [of q'] True obtain x where "m' i = Some x" "request_ok i x" "evolves q' x" by auto
    with change.hyps(2) q show ?thesis by (blast intro: evolves_trans)
  next
    case False
    with change.IH [of r] change.prems show ?thesis by simp
  qed
qed auto

lemma requests_step:
  "requests (approval_step s e) = fst (run_event e (requests s))"
proof -
  have "requests (foldl perform t es) = requests t" for t es
  proof (induction es arbitrary: t)
    case (Cons a es)
    then show ?case by (cases a) auto
  qed simp
  then show ?thesis by (simp add: approval_step_def split: prod.split)
qed

lemma asked_step:
  assumes "asked i r0 s" "other_event i s e"
  shows "asked i r0 (approval_step s e)"
proof -
  obtain r where r: "requests s i = Some r" "request_ok i r" "evolves r0 r"
    using assms(1) by (auto simp: asked_def split: option.splits)
  obtain m effects where run: "run_event e (requests s) = (m, effects)" by fastforce
  have "\<exists>q. m i = Some q \<and> request_ok i q \<and> evolves r q"
  proof (cases e)
    case (Request j now host command risk ttl ctx)
    then have "m i = Some r"
      using run r assms(2) by (cases ctx) (auto simp: approval_request_with_ttl_def
          approval_request_with_context_def new_request_def insert_request_def other_event_def)
    with r show ?thesis by simp
  qed (use updates_one [OF run_event_updates [OF run] r(1,2)] in auto)
  then show ?thesis
    using r(3) by (auto simp: asked_def requests_step run intro: evolves_trans)
qed

interpretation one_request: state_machine approval_step "other_event i" "asked i r0" for i r0
  by unfold_locales (rule asked_step)

definition others_only :: "uuid \<Rightarrow> approval_event list \<Rightarrow> bool" where
  "others_only i es \<longleftrightarrow> list_all (other_event i empty_store) es"

lemma others_admissible: "others_only i es \<Longrightarrow> admissible approval_step (other_event i) s es"
proof (induction es arbitrary: s)
  case (Cons e es)
  then show ?case by (cases e) (auto simp: others_only_def other_event_def)
qed simp

lemma others_keep: "asked i r0 s \<Longrightarrow> others_only i es \<Longrightarrow> asked i r0 (foldl approval_step s es)"
  using one_request.run_inv others_admissible by blast

lemma poll_keeps: "asked i r0 s \<Longrightarrow> asked i r0 (approval_step s (Poll now i))"
  by (rule asked_step) (simp_all add: other_event_def)

lemma poll_answer:
  assumes "asked i r0 s"
  shows "\<exists>r. requests (approval_step s (Poll now i)) i = Some r \<and>
    fst (approval_poll now i (requests s)) = Some (req_status r)"
proof -
  obtain r where "requests s i = Some r"
    using assms by (auto simp: asked_def split: option.splits)
  then show ?thesis
    by (auto simp: requests_step approval_poll_def expire_def split: option.splits if_splits)
qed

lemma wait_answer:
  assumes "asked i r0 s" "list_all (\<lambda>(others, now). others_only i others) polls"
    and "wait_for_answer i polls s = Some (st, s')"
  shows "asked i r0 s' \<and> (\<exists>r. requests s' i = Some r \<and> req_status r = st)"
  using assms
proof (induction polls arbitrary: s)
  case (Cons p polls)
  obtain others now where p: "p = (others, now)" by fastforce
  let ?s1 = "foldl approval_step s others"
  have asked1: "asked i r0 ?s1" using Cons.prems p by (auto intro: others_keep)
  obtain r where r: "requests (approval_step ?s1 (Poll now i)) i = Some r"
      "fst (approval_poll now i (requests ?s1)) = Some (req_status r)"
    using poll_answer [OF asked1] by blast
  show ?case
  proof (cases "req_status r = Pending")
    case True
    with Cons p r have "wait_for_answer i polls (approval_step ?s1 (Poll now i)) = Some (st, s')"
      by (simp add: Let_def)
    with Cons.IH [OF poll_keeps [OF asked1]] Cons.prems(2) show ?thesis by simp
  next
    case False
    with Cons.prems(3) p r have "st = req_status r" "s' = approval_step ?s1 (Poll now i)"
      by (auto simp: Let_def)
    with r poll_keeps [OF asked1] show ?thesis by auto
  qed
qed simp

text \<open>What the request says of an outcome.\<close>

fun signed_as :: "approval_prompt \<Rightarrow> bool \<Rightarrow> approval_request \<Rightarrow> approval_outcome \<Rightarrow> bool" where
  "signed_as p may_rewrite r Execution_Control.Approved \<longleftrightarrow>
     approved_command_snapshot r = Some (prompt_command p)"
| "signed_as p may_rewrite r (ApprovedRewritten c) \<longleftrightarrow>
     may_rewrite \<and> approved_command_snapshot r = Some c"
| "signed_as p may_rewrite r Execution_Control.Rejected \<longleftrightarrow> req_status r = Approval_Store.Rejected"
| "signed_as p may_rewrite r Execution_Control.TimedOut \<longleftrightarrow> req_status r = Approval_Store.TimedOut"

definition same_prompt :: "approval_prompt \<Rightarrow> approval_request \<Rightarrow> bool" where
  "same_prompt p r \<longleftrightarrow>
     req_host r = prompt_host p \<and> req_command r = prompt_command p \<and> req_risk r = prompt_risk p"

lemma ask_recorded:
  assumes "requests s (wt_id e) = None"
  shows "\<exists>r0. asked (wt_id e) r0 (approval_step s (approval_ask e may_rewrite p)) \<and>
    same_prompt p r0 \<and> (is_rewritable r0 \<longrightarrow> may_rewrite)"
proof -
  define ctx where "ctx = map_option (\<lambda>c. c\<lparr>ctx_reason := prompt_reason p,
    ctx_change_id := prompt_change_id p, rewritable := may_rewrite\<rparr>) (wt_context e p)"
  define r0 where "r0 = new_request (wt_id e) (wt_requested e) (prompt_host p) (prompt_command p)
    (prompt_risk p) (of_nat (prompt_ttl_secs p)) ctx"
  have "requests (approval_step s (approval_ask e may_rewrite p)) (wt_id e) = Some r0"
    by (cases ctx) (auto simp: requests_step approval_ask_def ctx_def [symmetric] r0_def
        approval_request_with_ttl_def approval_request_with_context_def insert_request_def new_request_def)
  then have "asked (wt_id e) r0 (approval_step s (approval_ask e may_rewrite p))"
    using new_request_ok by (simp add: asked_def r0_def)
  moreover have "same_prompt p r0" by (simp add: same_prompt_def r0_def new_request_def)
  moreover have "is_rewritable r0 \<longrightarrow> may_rewrite"
    by (auto simp: is_rewritable_def r0_def new_request_def ctx_def split: option.splits)
  ultimately show ?thesis by blast
qed

lemma asked_same:
  assumes "asked i r0 s" "same_prompt p r0" "is_rewritable r0 \<longrightarrow> may_rewrite"
  shows "\<exists>r. requests s i = Some r \<and> request_ok i r \<and> same_prompt p r \<and> (is_rewritable r \<longrightarrow> may_rewrite)"
  using assms by (auto simp: asked_def same_prompt_def evolves_def same_question_def is_rewritable_def
      split: option.splits)

lemma approved_keeps:
  assumes "asked i r0 s1" "requests s1 i = Some q" "req_status q = Approval_Store.Approved"
    and "others_only i late" "requests (foldl approval_step s1 late) i = Some r"
  shows "req_status r \<in> {Approval_Store.Approved, Revoked}"
proof -
  have "asked i q s1"
    using assms(1,2) by (auto simp: asked_def)
  then have "asked i q (foldl approval_step s1 late)"
    using assms(4) by (rule others_keep)
  with assms(3,5) show ?thesis by (auto simp: asked_def evolves_def)
qed

text \<open>
  Property (C7): the daemon acts on what the approver signed. Whatever other surfaces do to the approval
  store while it waits, an answer comes with its request in the store: the same host, command and risk
  that were prompted; approved as it is only if the snapshot is the prompted command, rewritten only if
  the caller runs rewritten commands and the snapshot is the text that will run.
\<close>

theorem answer_is_signed:
  assumes "requests s (wt_id e) = None"
    and "list_all (\<lambda>(others, now). others_only (wt_id e) others) (wt_polls e)"
    and "others_only (wt_id e) (wt_late e)"
    and "request_and_wait_for_approval e may_rewrite p s = Some (Inr outcome, s')"
  shows "\<exists>r. requests s' (wt_id e) = Some r \<and> same_prompt p r \<and> signed_as p may_rewrite r outcome"
proof -
  obtain r0 where r0: "asked (wt_id e) r0 (approval_step s (approval_ask e may_rewrite p))"
      "same_prompt p r0" "is_rewritable r0 \<longrightarrow> may_rewrite"
    using ask_recorded [OF assms(1)] by blast
  obtain st s1 where wait: "wait_for_answer (wt_id e) (wt_polls e)
      (approval_step s (approval_ask e may_rewrite p)) = Some (st, s1)"
    using assms(4) by (auto simp: request_and_wait_for_approval_def split: option.splits)
  obtain q where q: "asked (wt_id e) r0 s1" "requests s1 (wt_id e) = Some q" "req_status q = st"
    using wait_answer [OF r0(1) assms(2) wait] by blast
  show ?thesis
  proof (cases "st = Approval_Store.Approved")
    case True
    let ?s2 = "foldl approval_step s1 (wt_late e)"
    obtain r where r: "requests ?s2 (wt_id e) = Some r" "request_ok (wt_id e) r" "same_prompt p r"
        "is_rewritable r \<longrightarrow> may_rewrite"
      using asked_same [OF others_keep [OF q(1) assms(3)] r0(2,3)] by blast
    have st: "req_status r \<in> {Approval_Store.Approved, Revoked}"
      using approved_keeps [OF q(1,2) _ assms(3) r(1)] q(3) True by simp
    have "s' = ?s2" and out: "outcome = (case rewritten_command r of Some c \<Rightarrow> ApprovedRewritten c
        | None \<Rightarrow> Execution_Control.Approved)"
      using assms(4) wait True r(1)
      by (auto simp: request_and_wait_for_approval_def approval_rewritten_command_def Let_def)
    moreover have "signed_as p may_rewrite r outcome"
      using r st unfolding out
      by (cases "rewritten_command r") (auto simp: request_ok_def approved_text_def same_prompt_def)
    ultimately show ?thesis using r by blast
  next
    case False
    obtain r where "requests s1 (wt_id e) = Some r" "same_prompt p r"
      using asked_same [OF q(1) r0(2,3)] by blast
    with False q assms(4) wait show ?thesis
      by (cases st) (auto simp: request_and_wait_for_approval_def)
  qed
qed

definition demo_prompt :: approval_prompt where
  "demo_prompt =
     \<lparr>prompt_host = ''web'', prompt_command = ''rm x'', prompt_risk = High, prompt_matched_policy = None,
      prompt_ttl_secs = 300, prompt_reason = None, prompt_change_id = None, prompt_side_effect = None,
      prompt_source = ''daemon'', prompt_risk_unclassified = False\<rparr>"

definition demo_wait :: approval_wait_env where
  "demo_wait =
     \<lparr>wt_id = 7, wt_requested = 0, wt_context = (\<lambda>_. Some demo_context),
      wt_polls = [([], 500000000),
        ([ApproveRewritten (\<lambda>_. Low) (\<lambda>_. None) 600000000 7 ''ls''], 1000000000)], wt_late = []\<rparr>"

lemma demo_answer:
  "\<exists>s'. request_and_wait_for_approval demo_wait True demo_prompt empty_store =
     Some (Inr (ApprovedRewritten ''ls''), s')"
proof -
  have trimmed: "trim ''ls'' = ''ls''" by code_simp
  show ?thesis
    by (simp add: request_and_wait_for_approval_def demo_wait_def demo_prompt_def approval_ask_def
        requests_step approval_request_with_context_def insert_request_def new_request_def
        approval_poll_def expire_def past_ttl_def elapsed_secs_def signed_divide_int_def empty_store_def
        approval_approve_rewritten_def check_rewrite_def approval_respond_inner_def trimmed
        approval_rewritten_command_def demo_context_def Let_def)
qed

theorem answer_is_signed_witness:
  "\<exists>s' r. request_and_wait_for_approval demo_wait True demo_prompt empty_store =
      Some (Inr (ApprovedRewritten ''ls''), s') \<and>
    requests s' 7 = Some r \<and> approved_command_snapshot r = Some ''ls''"
proof -
  obtain s' where run: "request_and_wait_for_approval demo_wait True demo_prompt empty_store =
      Some (Inr (ApprovedRewritten ''ls''), s')"
    using demo_answer by blast
  have "requests empty_store (wt_id demo_wait) = None"
      "list_all (\<lambda>(others, now). others_only (wt_id demo_wait) others) (wt_polls demo_wait)"
      "others_only (wt_id demo_wait) (wt_late demo_wait)"
    by (simp_all add: empty_store_def demo_wait_def others_only_def other_event_def)
  from answer_is_signed [OF this run] run show ?thesis
    by (auto simp: demo_wait_def)
qed

end
