(* ===== verification/Request_Laws.thy ===== *)
theory Request_Laws
  imports Daemon_Requests
begin

text \<open>
  What a command that the daemon runs has passed, on one host and on many, and what the approval store
  says of an answer that let it pass.
\<close>

section \<open>What passes each check\<close>

lemma exec_ssh_Inr:
  assumes "exec_ssh_core_with_risk_override ctx ctx' v run q None w = Some (Inr r, w')"
  shows "\<exists>h e. resolve_host (ctx_config ctx) (rq_host q) = Inr h \<and>
    effective_command_risk ctx (rq_command q) = Some e \<and>
    er_risk_level r = profile_risk e h \<and> er_host r = rq_host q \<and> er_command r = rq_command q \<and>
    er_risk_level r \<noteq> Blocked \<and> (er_risk_level r = High \<longrightarrow> rq_force q)"
proof -
  have short: "\<not> command_too_long (rq_command q)"
    using assms by (auto simp: exec_ssh_core_with_risk_override_def)
  obtain h where h: "resolve_host (ctx_config ctx) (rq_host q) = Inr h"
    using assms short by (cases "resolve_host (ctx_config ctx) (rq_host q)")
      (auto simp: exec_ssh_core_with_risk_override_def)
  obtain e where e: "effective_command_risk ctx (rq_command q) = Some e"
    using assms short h by (auto simp: exec_ssh_core_with_risk_override_def)
  have out: "(case policy_refusal q (profile_risk e h) of
            Some (err, m) \<Rightarrow> (Inl err, audit_rejected_exec ctx q (profile_risk e h) (request_source v q) m w)
          | None \<Rightarrow> finish_exec ctx' q (profile_risk e h) (request_source v q) False
              (run h (rq_command q) (rq_stdin q)
                (case rq_timeout_secs q of Some t \<Rightarrow> t | None \<Rightarrow> 60)
                (case rq_max_output_bytes q of Some m \<Rightarrow> m | None \<Rightarrow> DEFAULT_MAX_OUTPUT)) w) = (Inr r, w')"
    using assms exec_ssh_resolved [OF short h e] by simp
  have none: "policy_refusal q (profile_risk e h) = None"
    using out by (auto split: option.splits)
  obtain ending where fin: "finish_exec ctx' q (profile_risk e h) (request_source v q) False ending w
      = (Inr r, w')"
    using out none by simp
  have "er_risk_level r = profile_risk e h \<and> er_host r = rq_host q \<and> er_command r = rq_command q"
    using fin by (cases ending; cases "fst ending") (auto simp: finish_exec_def Let_def result_of_def)
  with none h e show ?thesis by (auto simp: policy_refusal_None)
qed

lemma exec_local_Inr:
  assumes "exec_local_core_with_risk_override ctx ctx' v depth_error resolve_plan run q None w = Some (Inr r, w')"
  shows "\<exists>e. effective_command_risk ctx (rq_command q) = Some e \<and> er_risk_level r = e \<and>
    er_host r = rq_host q \<and> er_command r = rq_command q \<and>
    er_risk_level r \<noteq> Blocked \<and> (er_risk_level r = High \<longrightarrow> rq_force q)"
proof -
  have host: "\<not> command_too_long (rq_command q)" "is_local_host (rq_host q)"
    using assms by (auto simp: exec_local_core_with_risk_override_def split: if_splits)
  obtain e where e: "effective_command_risk ctx (rq_command q) = Some e"
    using assms host by (auto simp: exec_local_core_with_risk_override_def)
  have none: "policy_refusal q e = None"
    using assms host e by (auto simp: exec_local_core_with_risk_override_def Let_def split: option.splits)
  have depth: "depth_error = None"
    using assms host e none
    by (cases depth_error) (auto simp: exec_local_core_with_risk_override_def Let_def)
  obtain plan where plan: "resolve_plan (rq_host q) = Inr plan"
    using assms host e none depth
    by (cases "resolve_plan (rq_host q)") (auto simp: exec_local_core_with_risk_override_def Let_def)
  obtain u ending where fin: "finish_exec ctx' q e (request_source v q) u ending w = (Inr r, w')"
    using assms host e none depth plan
    by (auto simp: exec_local_core_with_risk_override_def Let_def split: if_splits)
  have "er_risk_level r = e \<and> er_host r = rq_host q \<and> er_command r = rq_command q"
    using fin by (cases ending; cases "fst ending") (auto simp: finish_exec_def Let_def result_of_def)
  with none e show ?thesis by (auto simp: policy_refusal_None)
qed

lemma source_accepted:
  assumes "source_or_env_for_request v source ''daemon'' = Inr src"
  shows "src = source_or_env v source ''daemon'' \<and> \<not> source_can_bypass_gate src"
  using assms by (auto simp: source_or_env_for_request_def Let_def split: if_splits)

lemma gate_passed:
  assumes "reject_if_gate_paused e source host command s = (None, s1)"
  shows "s1 = s \<and> execution_gate_blocks_source (de_gate e) source = Inr False"
  using assms by (auto simp: reject_if_gate_paused_def execution_gate_blocks_source_def
      split: sum.splits if_splits)

lemma limit_passed:
  assumes "reject_if_rate_limited e source targets command s = (None, s1)"
  shows "\<exists>l. check_execution_batch (de_pruned e) (de_now e) source targets
      (refresh_execution_limits (de_limits_file e) (ds_limiter s)) = (None, l) \<and>
    s1 = s\<lparr>ds_limiter := l\<rparr>"
  using assms by (auto simp: reject_if_rate_limited_def split: prod.splits option.splits)

text \<open>The approver was asked for this command on this host, with this risk, and gave this answer.\<close>

definition approver_said ::
  "approver \<Rightarrow> bool \<Rightarrow> str \<Rightarrow> str \<Rightarrow> risk_level \<Rightarrow> approval_outcome \<Rightarrow> bool" where
  "approver_said approver may_rewrite host command risk outcome \<longleftrightarrow>
     (\<exists>p w w'. approver may_rewrite p w = (Inr outcome, w') \<and> prompt_host p = host \<and>
        prompt_command p = command \<and> prompt_risk p = risk)"

definition approver_agreed :: "approver \<Rightarrow> bool \<Rightarrow> str \<Rightarrow> str \<Rightarrow> risk_level \<Rightarrow> bool" where
  "approver_agreed approver may_rewrite host command risk \<longleftrightarrow>
     approver_said approver may_rewrite host command risk Execution_Control.Approved \<or>
     (\<exists>c. approver_said approver may_rewrite host command risk (ApprovedRewritten c))"

lemma inner_Inr:
  assumes "authorize_command_inner e n approver may_rewrite i s = Some (Inr auth, s')"
  shows "check_daemon_scope (auth_scope i) (in_host i) (in_tags i) (in_command i) = Inr () \<and>
    host_allows_source (ctx_config (de_before e n)) (in_host i) (in_source i) \<and>
    (\<exists>effective. effective_command_risk (de_before e n) (in_command i) = Some effective \<and>
       auth_risk auth = apply_risk_override effective
         (opt_or (in_risk_override i) (host_risk_override (de_override e n) (in_host i)))) \<and>
    auth_risk auth \<noteq> Blocked \<and>
    (auth_risk auth = High \<longrightarrow> in_force i \<or> auth_approved auth) \<and>
    (auth_approved auth \<longrightarrow> approver_agreed approver may_rewrite (in_host i) (in_command i) (auth_risk auth)) \<and>
    (\<forall>c. auth_command auth = Some c \<longrightarrow>
       approver_said approver may_rewrite (in_host i) (in_command i) (auth_risk auth) (ApprovedRewritten c))"
proof -
  define i' where "i' = i\<lparr>in_risk_override := opt_or (in_risk_override i)
      (host_risk_override (de_override e n) (in_host i)), in_side_effect := None\<rparr>"
  obtain res w' where res: "authorize_command_with_approval (de_before e n) (de_after e n) i'
      (approver may_rewrite) (ds_audit s) = Some (res, w')"
    using assms by (auto simp: authorize_command_inner_def i'_def Let_def)
  with assms have "res = Inr auth"
    by (cases res) (auto simp: authorize_command_inner_def i'_def Let_def)
  with res have run: "authorize_command_with_approval (de_before e n) (de_after e n) i'
      (approver may_rewrite) (ds_audit s) = Some (Inr auth, w')" by simp
  have fields: "auth_scope i' = auth_scope i" "in_host i' = in_host i" "in_tags i' = in_tags i"
      "in_command i' = in_command i" "in_source i' = in_source i" "in_force i' = in_force i"
      "in_risk_override i' = opt_or (in_risk_override i) (host_risk_override (de_override e n) (in_host i))"
    by (simp_all add: i'_def)
  note auth = authorize_Inr [OF run, unfolded fields]
  have said: "approver_said approver may_rewrite (in_host i) (in_command i) (auth_risk auth) outcome"
    if "approver may_rewrite (prompt_of (de_before e n) i' (auth_risk auth) policy) (ds_audit s) = (Inr outcome, w1)"
    for policy outcome w1
    using that fields unfolding approver_said_def by (fastforce simp: prompt_of_def)
  have eff: "\<exists>effective. effective_command_risk (de_before e n) (in_command i) = Some effective \<and>
       auth_risk auth = apply_risk_override effective
         (opt_or (in_risk_override i) (host_risk_override (de_override e n) (in_host i)))"
    using auth by blast
  from auth consider
      (plain) "\<not> auth_approved auth" "auth_command auth = None" "auth_risk auth = High \<longrightarrow> in_force i"
    | (asked) policy outcome w1 where
        "approver may_rewrite (prompt_of (de_before e n) i' (auth_risk auth) policy) (ds_audit s) = (Inr outcome, w1)"
        "conclude (de_after e n) i' (auth_risk auth) outcome w1 = Some (Inr auth, w')"
    by (metis (full_types))
  then show ?thesis
  proof cases
    case plain
    then have "(auth_risk auth = High \<longrightarrow> in_force i \<or> auth_approved auth) \<and>
      (auth_approved auth \<longrightarrow> approver_agreed approver may_rewrite (in_host i) (in_command i) (auth_risk auth)) \<and>
      (\<forall>c. auth_command auth = Some c \<longrightarrow>
         approver_said approver may_rewrite (in_host i) (in_command i) (auth_risk auth) (ApprovedRewritten c))"
      by simp
    with auth eff show ?thesis by blast
  next
    case asked
    from conclude_Inr [OF asked(2)] said [OF asked(1)]
    have "(auth_risk auth = High \<longrightarrow> in_force i \<or> auth_approved auth) \<and>
      (auth_approved auth \<longrightarrow> approver_agreed approver may_rewrite (in_host i) (in_command i) (auth_risk auth)) \<and>
      (\<forall>c. auth_command auth = Some c \<longrightarrow>
         approver_said approver may_rewrite (in_host i) (in_command i) (auth_risk auth) (ApprovedRewritten c))"
      by (auto simp: approver_agreed_def)
    with auth eff show ?thesis by blast
  qed
qed

lemma authorize_keeps_limiter:
  assumes "authorize_command e n approver i s = Some (res, s')"
  shows "ds_limiter s' = ds_limiter s"
proof -
  obtain res' where "authorize_command_inner e n approver False i s = Some (res', s')"
    using assms by (auto simp: authorize_command_def)
  then obtain r w where "s' = (case r of Inr auth \<Rightarrow> s\<lparr>ds_audit := w\<rparr>
      | Inl err \<Rightarrow> (case err of
          BlockedError k m \<Rightarrow> notify (ExecBlocked (in_host i) (in_command i) k) (s\<lparr>ds_audit := w\<rparr>)
        | _ \<Rightarrow> s\<lparr>ds_audit := w\<rparr>))"
    unfolding authorize_command_inner_def Let_def by (fastforce split: sum.splits)
  then show ?thesis by (cases r) (auto simp: notify_def split: authorization_error.splits)
qed

lemma authorize_command_Inr:
  assumes "authorize_command e n approver i s = Some (Inr (risk, agreed), s')"
  shows "check_daemon_scope (auth_scope i) (in_host i) (in_tags i) (in_command i) = Inr () \<and>
    host_allows_source (ctx_config (de_before e n)) (in_host i) (in_source i) \<and>
    (\<exists>effective. effective_command_risk (de_before e n) (in_command i) = Some effective \<and>
       risk = apply_risk_override effective
         (opt_or (in_risk_override i) (host_risk_override (de_override e n) (in_host i)))) \<and>
    risk \<noteq> Blocked \<and> (risk = High \<longrightarrow> in_force i \<or> agreed) \<and>
    (agreed \<longrightarrow> approver_agreed approver False (in_host i) (in_command i) risk)"
proof -
  obtain res where res: "authorize_command_inner e n approver False i s = Some (res, s')"
    using assms by (auto simp: authorize_command_def)
  with assms obtain auth where "res = Inr auth" "risk = auth_risk auth" "agreed = auth_approved auth"
    by (cases res) (auto simp: authorize_command_def)
  with inner_Inr [OF res [unfolded this(1)]] show ?thesis by simp
qed

lemma preflight_Inr:
  assumes "preflight_guarded_request_inner e approver may_rewrite i s = Some (Inr pf, s')"
  shows "execution_gate_blocks_source (de_gate e) (in_source i) = Inr False \<and>
    fst (check_execution_batch (de_pruned e) (de_now e) (in_source i) [(in_host i, in_tags i)]
      (refresh_execution_limits (de_limits_file e) (ds_limiter s))) = None \<and>
    (\<exists>auth s1. authorize_command_inner e 0 approver may_rewrite i s1 = Some (Inr auth, s') \<and>
       pf = \<lparr>pf_source = in_source i, pf_risk = auth_risk auth, pf_approved = auth_approved auth,
             pf_command = auth_command auth\<rparr>)"
proof -
  obtain r1 s1 where gate: "reject_if_gate_paused e (in_source i) (in_host i) (in_command i) s = (r1, s1)"
    by fastforce
  with assms have r1: "r1 = None"
    by (cases r1) (auto simp: preflight_guarded_request_inner_def)
  obtain r2 s2 where limit: "reject_if_rate_limited e (in_source i) [(in_host i, in_tags i)] (in_command i) s1
      = (r2, s2)"
    by fastforce
  with assms gate r1 have r2: "r2 = None"
    by (cases r2) (auto simp: preflight_guarded_request_inner_def)
  obtain res s3 where auth: "authorize_command_inner e 0 approver may_rewrite i s2 = Some (res, s3)"
    using assms gate limit r1 r2 by (auto simp: preflight_guarded_request_inner_def)
  with assms gate limit r1 r2 obtain a where "res = Inr a" "s3 = s'"
      "pf = \<lparr>pf_source = in_source i, pf_risk = auth_risk a, pf_approved = auth_approved a,
             pf_command = auth_command a\<rparr>"
    by (cases res) (auto simp: preflight_guarded_request_inner_def)
  with auth gate_passed [OF gate [unfolded r1]] limit_passed [OF limit [unfolded r2]] show ?thesis by auto
qed

section \<open>Running on one host\<close>

text \<open>
  The checks between a request and its execution, over the source that was fixed for it: not the desktop,
  not paused, within the rates, within the token's scope, and allowed to act on the host.
\<close>

definition passed_checks ::
  "daemon_env \<Rightarrow> daemon_scope option \<Rightarrow> exec_request \<Rightarrow> daemon_state \<Rightarrow> bool" where
  "passed_checks e scope q s \<longleftrightarrow>
     (let source = source_or_env (de_source_var e) (rq_source q) ''daemon'';
          tags = host_tags (de_targets e) (rq_host q)
      in \<not> source_can_bypass_gate source \<and>
         length (rq_command q) \<le> MAX_COMMAND_BYTES \<and>
         execution_gate_blocks_source (de_gate e) source = Inr False \<and>
         fst (check_execution_batch (de_pruned e) (de_now e) source [(rq_host q, tags)]
           (refresh_execution_limits (de_limits_file e) (ds_limiter s))) = None \<and>
         check_daemon_scope scope (rq_host q) tags (rq_command q) = Inr () \<and>
         host_allows_source (ctx_config (de_before e 0)) (rq_host q) source)"

lemma admission:
  assumes "source_or_env_for_request (de_source_var e) (rq_source q) ''daemon'' = Inr source"
    and "ensure_command_length (rq_command q) = None"
    and "preflight_guarded_request_inner e approver may_rewrite (input_of e scope source q) s = Some (Inr pf, s1)"
  shows "passed_checks e scope q s \<and> pf_risk pf \<noteq> Blocked \<and>
    (pf_risk pf = High \<longrightarrow> rq_force q \<or> pf_approved pf) \<and>
    (pf_approved pf \<longrightarrow> approver_agreed approver may_rewrite (rq_host q) (rq_command q) (pf_risk pf)) \<and>
    (\<forall>c. pf_command pf = Some c \<longrightarrow>
       approver_said approver may_rewrite (rq_host q) (rq_command q) (pf_risk pf) (ApprovedRewritten c))"
proof -
  have fields: "auth_scope (input_of e scope source q) = scope" "in_source (input_of e scope source q) = source"
      "in_host (input_of e scope source q) = rq_host q" "in_command (input_of e scope source q) = rq_command q"
      "in_tags (input_of e scope source q) = host_tags (de_targets e) (rq_host q)"
      "in_force (input_of e scope source q) = rq_force q"
    by (simp_all add: input_of_def)
  obtain auth s2 where auth: "authorize_command_inner e 0 approver may_rewrite (input_of e scope source q) s2
        = Some (Inr auth, s1)"
      "pf = \<lparr>pf_source = source, pf_risk = auth_risk auth, pf_approved = auth_approved auth,
             pf_command = auth_command auth\<rparr>"
    using preflight_Inr [OF assms(3)] by (auto simp: fields)
  have "length (rq_command q) \<le> MAX_COMMAND_BYTES"
    using assms(2) by (simp add: ensure_command_length_def command_too_long_def split: if_splits)
  then have "passed_checks e scope q s"
    using preflight_Inr [OF assms(3), THEN conjunct1] preflight_Inr [OF assms(3), THEN conjunct2, THEN conjunct1]
      source_accepted [OF assms(1)] inner_Inr [OF auth(1)]
    unfolding passed_checks_def Let_def fields by auto
  with inner_Inr [OF auth(1)] show ?thesis
    unfolding auth(2) fields by simp
qed

text \<open>
  Property (C3): nothing runs on a host past the daemon's checks. When \<open>/exec\<close> returns a result, the
  request came from a source other than the desktop, was short enough, met an open gate and free rates,
  lay within the token's scope and named a host that accepts the source. The command that ran is the
  requested one, or the text an approver put in its place when asked about it. Its own risk on that host
  is not blocked, and if it is high, the request was forced or an approver agreed.
\<close>

theorem exec_is_guarded:
  assumes "daemon_exec e approver run scope q s = Some (Inr r, s')"
  shows "passed_checks e scope q s \<and> er_host r = rq_host q \<and>
    (er_command r = rq_command q \<or>
     (\<exists>risk. approver_said approver True (rq_host q) (rq_command q) risk (ApprovedRewritten (er_command r)))) \<and>
    (\<exists>h classified. resolve_host (ctx_config (de_exec e)) (rq_host q) = Inr h \<and>
       effective_command_risk (de_exec e) (er_command r) = Some classified \<and>
       er_risk_level r = apply_risk_override classified (hp_risk_override h)) \<and>
    er_risk_level r \<noteq> Blocked \<and>
    (er_risk_level r = High \<longrightarrow>
       rq_force q \<or> approver_agreed approver True (rq_host q) (rq_command q) High)"
proof -
  obtain source where source: "source_or_env_for_request (de_source_var e) (rq_source q) ''daemon'' = Inr source"
    using assms by (cases "source_or_env_for_request (de_source_var e) (rq_source q) ''daemon''")
      (auto simp: daemon_exec_def)
  have short: "ensure_command_length (rq_command q) = None"
    using assms source by (cases "ensure_command_length (rq_command q)") (auto simp: daemon_exec_def)
  obtain res s1 where pre: "preflight_rewritable_request e approver (input_of e scope source q) s = Some (res, s1)"
    using assms source short by (cases "preflight_rewritable_request e approver (input_of e scope source q) s")
      (auto simp: daemon_exec_def)
  with assms source short obtain pf where res: "res = Inr pf"
    by (cases res) (auto simp: daemon_exec_def)
  obtain outcome where run: "exec_ssh_core_with_risk_override (de_exec e) (de_finish e) (de_source_var e)
        run (admitted_request pf True source q) None (ds_audit s1) = Some outcome"
      "finish_request (rq_host (admitted_request pf True source q))
        (rq_command (admitted_request pf True source q)) outcome s1 = (Inr r, s')"
    using assms source short pre res by (auto simp: daemon_exec_def Let_def)
  then obtain w' where exec: "exec_ssh_core_with_risk_override (de_exec e) (de_finish e) (de_source_var e)
        run (admitted_request pf True source q) None (ds_audit s1) = Some (Inr r, w')"
    by (cases outcome; cases "fst outcome") (auto simp: finish_request_def)
  note passed = admission [OF source short pre [unfolded res preflight_rewritable_request_def]]
  show ?thesis
    using passed exec_ssh_Inr [OF exec]
    by (cases "pf_command pf") (auto simp: admitted_request_def profile_risk_override)
qed

definition demo_daemon :: daemon_env where
  "demo_daemon =
     (let ctx = demo_ctx\<lparr>ctx_config := Some [demo_host]\<rparr>
      in \<lparr>de_source_var = None, de_gate = NoFile, de_limits_file = None, de_pruned = 0, de_now = 0,
          de_audit = demo_env, de_targets = Some [demo_host], de_override = (\<lambda>_. Some [demo_host]),
          de_before = (\<lambda>_. ctx), de_after = (\<lambda>_. ctx), de_exec = ctx, de_finish = ctx\<rparr>)"

definition demo_daemon_state :: daemon_state where
  "demo_daemon_state =
     \<lparr>ds_audit = empty_world, ds_limiter = new_limiter default_limits, ds_notices = []\<rparr>"

definition demo_transport :: "host_profile \<Rightarrow> str \<Rightarrow> str option \<Rightarrow> nat \<Rightarrow> nat \<Rightarrow> capture_end \<times> nat" where
  "demo_transport h command stdin timeout max_bytes =
     (Captured \<lparr>cap_exit_code = Some 0, cap_stdout = command, cap_stderr = [], cap_truncated = False,
        cap_dropped_bytes = 0\<rparr>, 5)"

lemma demo_rates:
  "check_execution_batch 0 0 ''daemon'' [(''web'', [])] (new_limiter default_limits) =
     (None, (new_limiter default_limits)\<lparr>recorded := [event_of 0 ''daemon'' (''web'', [])]\<rparr>)"
  by code_simp

lemma demo_checks:
  "source_or_env_for_request None None ''daemon'' = Inr ''daemon''"
  "ensure_command_length ''ls (('' = None"
  "host_tags (Some [demo_host]) ''web'' = []"
  "host_risk_override (Some [demo_host]) ''web'' = None"
  "host_allows_source (Some [demo_host]) ''web'' ''daemon''"
  by (simp_all add: source_or_env_for_request_def source_or_env_def source_from_env_def
      source_can_bypass_gate_def ensure_command_length_def command_too_long_def MAX_COMMAND_BYTES_def
      host_tags_def host_risk_override_def host_allows_source_def command_authorization_target_def find_profile_def demo_host_def
      target_of_profile_def) code_simp

lemma demo_preflight:
  "\<exists>s1. preflight_rewritable_request demo_daemon (\<lambda>_ p w. (Inr Execution_Control.Approved, w))
     (input_of demo_daemon None ''daemon'' demo_exec) demo_daemon_state =
     Some (Inr \<lparr>pf_source = ''daemon'', pf_risk = High, pf_approved = True, pf_command = None\<rparr>, s1)"
  by (simp add: preflight_rewritable_request_def preflight_guarded_request_inner_def input_of_def
      demo_daemon_def demo_daemon_state_def demo_exec_def demo_checks demo_rates
      reject_if_gate_paused_def default_gate_def gate_blocks_source_def reject_if_rate_limited_def
      refresh_execution_limits_def authorize_command_inner_def authorize_command_with_approval_def
      check_daemon_scope_def effective_command_risk_def classify_effective_risk_def
      classify_with_user_rules_def check_approval_required_def conclude_def demo_ctx_def opt_or_def Let_def)

lemma demo_daemon_run:
  "\<exists>r s'. daemon_exec demo_daemon (\<lambda>_ p w. (Inr Execution_Control.Approved, w)) demo_transport None
     demo_exec demo_daemon_state = Some (Inr r, s') \<and> er_risk_level r = High \<and> er_command r = ''ls ((''"
proof -
  obtain s1 where pre: "preflight_rewritable_request demo_daemon (\<lambda>_ p w. (Inr Execution_Control.Approved, w))
     (input_of demo_daemon None ''daemon'' demo_exec) demo_daemon_state =
     Some (Inr \<lparr>pf_source = ''daemon'', pf_risk = High, pf_approved = True, pf_command = None\<rparr>, s1)"
    using demo_preflight by blast
  have fields: "de_source_var demo_daemon = None" "rq_source demo_exec = None"
      "rq_command demo_exec = ''ls ((''" "rq_host demo_exec = ''web''" "rq_force demo_exec = False"
    by (simp_all add: demo_daemon_def demo_exec_def Let_def)
  show ?thesis
    unfolding daemon_exec_def fields demo_checks sum.case option.case pre prod.case Let_def
    by (simp add: admitted_request_def exec_ssh_core_with_risk_override_def command_too_long_def
        MAX_COMMAND_BYTES_def demo_daemon_def demo_exec_def resolve_host_def demo_host_def demo_ctx_def
        effective_command_risk_def classify_effective_risk_def classify_with_user_rules_def
        policy_refusal_def finish_exec_def demo_transport_def result_of_def finish_request_def Let_def)
qed

theorem exec_is_guarded_witness:
  "approver_agreed (\<lambda>_ p w. (Inr Execution_Control.Approved, w)) True ''web'' ''ls (('' High"
proof -
  obtain r s' where run: "daemon_exec demo_daemon (\<lambda>_ p w. (Inr Execution_Control.Approved, w)) demo_transport
     None demo_exec demo_daemon_state = Some (Inr r, s')" "er_risk_level r = High"
    using demo_daemon_run by blast
  then show ?thesis using exec_is_guarded [OF run(1)] by (simp add: demo_exec_def)
qed

end
