(* ===== verification/Daemon_Batch.thy ===== *)
theory Daemon_Batch
  imports Request_Laws Result_Compare
begin

text \<open>
  \<open>bin/agent2ssh-daemon.rs\<close>: commands for several hosts (\<open>/exec-multi\<close>, \<open>/exec/compare\<close>), the checks of
  \<open>/ping\<close>, \<open>/risk/check\<close> and \<open>/exec/preview\<close>, and what they have in common: the hosts are expanded and
  authorized first, one after the other, and expanded again by the batch. The audit entries the tasks of
  a batch write are theirs (\<open>Exec_Core\<close>); the state here is the one before the batch starts.
\<close>

section \<open>Targets\<close>

text \<open>The hosts and their tags; what the request claims stands in where the expansion gives nothing.\<close>

definition claimed_tags :: "config option \<Rightarrow> str list option \<Rightarrow> str \<Rightarrow> str list" where
  "claimed_tags config tags host =
     foldl (\<lambda>all tag. if tag \<in> set all then all else all @ [tag]) (host_tags config host)
       (case tags of None \<Rightarrow> [] | Some ts \<Rightarrow> ts)"

definition targets_for_exec_multi ::
  "config option \<Rightarrow> config option \<Rightarrow> str list \<Rightarrow> str list option \<Rightarrow> (str \<times> str list) list" where
  "targets_for_exec_multi config config' hosts tags =
     (case expand_exec_targets config hosts tags of
        Inr (t # ts) \<Rightarrow> t # ts
      | _ \<Rightarrow>
          if hosts = [] then
            map (\<lambda>tag. (''tag:'' @ tag, [tag])) (case tags of None \<Rightarrow> [] | Some ts \<Rightarrow> ts)
          else map (\<lambda>host. (host, claimed_tags config' tags host)) hosts)"

definition target_host_label :: "str list \<Rightarrow> str list option \<Rightarrow> str" where
  "target_host_label hosts tags =
     (if hosts \<noteq> [] then join '','' hosts
      else (let label = join '','' (map (\<lambda>tag. ''tag:'' @ tag)
                  (filter (\<lambda>tag. trim tag \<noteq> []) (case tags of None \<Rightarrow> [] | Some ts \<Rightarrow> ts)))
            in if label = [] then ''no-targets'' else label))"

section \<open>Authorizing them\<close>

text \<open>The loop; \<open>n\<close> counts the authorizations, \<open>approved\<close> collects the high-risk hosts an approver allowed.\<close>

fun authorize_each_target ::
  "daemon_env \<Rightarrow> approver \<Rightarrow> command_authorization_input \<Rightarrow> nat \<Rightarrow> str list \<Rightarrow> (str \<times> str list) list \<Rightarrow>
   daemon_state \<Rightarrow> ((refusal + str list) \<times> daemon_state) option" where
  "authorize_each_target e approver i n approved [] s = Some (Inr approved, s)"
| "authorize_each_target e approver i n approved ((host, tags) # ts) s =
     (case authorize_command e n approver (i\<lparr>in_host := host, in_tags := tags\<rparr>) s of
        None \<Rightarrow> None
      | Some (Inl r, s') \<Rightarrow> Some (Inl r, s')
      | Some (Inr (risk, agreed), s') \<Rightarrow>
          authorize_each_target e approver i (n + 1)
            (if agreed \<and> risk = High then approved @ [host] else approved) ts s')"

definition authorize_targets ::
  "daemon_env \<Rightarrow> approver \<Rightarrow> command_authorization_input \<Rightarrow> (str \<times> str list) list \<Rightarrow> str \<Rightarrow>
   daemon_state \<Rightarrow> ((refusal + str list) \<times> daemon_state) option" where
  "authorize_targets e approver i targets fallback_host s =
     authorize_each_target e approver i 0 [] (if targets = [] then [(fallback_host, [])] else targets) s"

section \<open>Batches\<close>

definition batch_input ::
  "daemon_scope option \<Rightarrow> str \<Rightarrow> exec_multi_request \<Rightarrow> command_authorization_input" where
  "batch_input scope source r =
     \<lparr>auth_scope = scope, in_source = source, in_host = [], in_tags = [], in_risk_override = None,
      in_command = mr_command r, in_force = mr_force r, in_reason = mr_reason r,
      in_change_id = mr_change_id r, in_side_effect = None\<rparr>"

text \<open>
  What \<open>/exec-multi\<close> and \<open>/exec/compare\<close> do before they start: the request that the batch gets. The
  configuration is read for the expansion (\<open>de_targets\<close>) and, in the fall back, for the tags.
\<close>

definition admit_batch ::
  "daemon_env \<Rightarrow> config option \<Rightarrow> approver \<Rightarrow> daemon_scope option \<Rightarrow> str \<Rightarrow> exec_multi_request \<Rightarrow>
   daemon_state \<Rightarrow> ((refusal + exec_multi_request) \<times> daemon_state) option" where
  "admit_batch e tag_config approver scope source r s =
     (let targets = targets_for_exec_multi (de_targets e) tag_config (mr_hosts r) (mr_tags r);
          label = target_host_label (mr_hosts r) (mr_tags r)
      in case reject_if_gate_paused e source label (mr_command r) s of
           (Some x, s1) \<Rightarrow> Some (Inl x, s1)
         | (None, s1) \<Rightarrow>
             (case reject_if_rate_limited e source targets (mr_command r) s1 of
                (Some x, s2) \<Rightarrow> Some (Inl x, s2)
              | (None, s2) \<Rightarrow>
                  map_option (\<lambda>(result, s3).
                      (map_sum id (\<lambda>hosts. r\<lparr>mr_approved_hosts := hosts, mr_source := Some source\<rparr>)
                         result, s3))
                    (authorize_targets e approver (batch_input scope source r) targets label s2)))"

definition daemon_exec_multi ::
  "daemon_env \<Rightarrow> config option \<Rightarrow> config option \<Rightarrow> approver \<Rightarrow> (nat \<Rightarrow> task_event list) \<Rightarrow> nat \<Rightarrow>
   daemon_scope option \<Rightarrow> exec_multi_request \<Rightarrow> batch_strategy option \<Rightarrow> daemon_state \<Rightarrow>
   ((refusal + exec_multi_batch_result) \<times> daemon_state) option" where
  "daemon_exec_multi e tag_config batch_config approver order elapsed scope r strategy s =
     (case source_or_env_for_request (de_source_var e) (mr_source r) ''daemon'' of
        Inl x \<Rightarrow> Some (Inl x, s)
      | Inr source \<Rightarrow>
          (case ensure_command_length (mr_command r) of
             Some x \<Rightarrow> Some (Inl x, s)
           | None \<Rightarrow>
               (case admit_batch e tag_config approver scope source r s of
                  None \<Rightarrow> None
                | Some (Inl x, s1) \<Rightarrow> Some (Inl x, s1)
                | Some (Inr r', s1) \<Rightarrow>
                    map_option (\<lambda>(result, slept). (map_sum SelectionFailed id result, s1))
                      (exec_multi_with_strategy batch_config (de_source_var e) order elapsed r' strategy))))"

text \<open>The body of a comparison has neither a source nor a reason nor a change.\<close>

definition daemon_exec_compare ::
  "daemon_env \<Rightarrow> config option \<Rightarrow> config option \<Rightarrow> approver \<Rightarrow> task_event list \<Rightarrow>
   ((int option \<times> str list) list \<Rightarrow> (int option \<times> str list) list) \<Rightarrow>
   daemon_scope option \<Rightarrow> str list \<Rightarrow> str \<Rightarrow> bool \<Rightarrow> nat option \<Rightarrow> str list option \<Rightarrow> daemon_state \<Rightarrow>
   ((refusal + exec_comparison) \<times> daemon_state) option" where
  "daemon_exec_compare e tag_config batch_config approver run shuffle scope hosts command force timeout tags s =
     (let source = source_from_env (de_source_var e) ''daemon'';
          r = \<lparr>mr_hosts = hosts, mr_command = command, mr_force = force, mr_approved_hosts = [],
               mr_timeout_secs = timeout, mr_tags = tags, mr_reason = None, mr_change_id = None,
               mr_source = None\<rparr>
      in case ensure_command_length command of
           Some x \<Rightarrow> Some (Inl x, s)
         | None \<Rightarrow>
             (case admit_batch e tag_config approver scope source r s of
                None \<Rightarrow> None
              | Some (Inl x, s1) \<Rightarrow> Some (Inl x, s1)
              | Some (Inr r', s1) \<Rightarrow>
                  Some (map_sum SelectionFailed (compare_exec_results shuffle)
                      (exec_multi_core batch_config (de_source_var e) run r'), s1)))"

section \<open>Requests that run nothing\<close>

text \<open>\<open>/ping\<close> checks every host before it pings any.\<close>

fun ping_scope :: "config option \<Rightarrow> daemon_scope option \<Rightarrow> str list \<Rightarrow> refusal option" where
  "ping_scope config scope [] = None"
| "ping_scope config scope (host # hosts) =
     (case check_daemon_scope scope host (host_tags config host) ''ping'' of
        Inl e \<Rightarrow> Some (ScopeRefused e)
      | Inr _ \<Rightarrow> ping_scope config scope hosts)"

record risk_check_result =
  rc_risk_level :: risk_level
  rc_matched_rule :: "str option"

definition risk_check ::
  "exec_ctx \<Rightarrow> daemon_scope option \<Rightarrow> str \<Rightarrow> str option \<Rightarrow> (refusal + risk_check_result) option" where
  "risk_check ctx scope command host =
     (if command_too_long command then Some (Inl CommandLengthExceeded)
      else case (case host of None \<Rightarrow> Inr ()
                 | Some h \<Rightarrow> check_daemon_scope scope h (host_tags (ctx_config ctx) h) command) of
        Inl e \<Rightarrow> Some (Inl (ScopeRefused e))
      | Inr _ \<Rightarrow>
          map_option (\<lambda>effective. Inr
              \<lparr>rc_risk_level = apply_risk_override effective
                 (Option.bind host (host_risk_override (ctx_config ctx))),
               rc_matched_rule = (case classify_with_user_rules (ctx_rules ctx) command of
                  None \<Rightarrow> None | Some _ \<Rightarrow> Some ''user_rule'')\<rparr>)
            (effective_command_risk ctx command))"

fun scope_of_targets :: "daemon_scope option \<Rightarrow> str \<Rightarrow> (str \<times> str list) list \<Rightarrow> refusal option" where
  "scope_of_targets scope command [] = None"
| "scope_of_targets scope command ((host, tags) # ts) =
     (case check_daemon_scope scope host tags command of
        Inl e \<Rightarrow> Some (ScopeRefused e)
      | Inr _ \<Rightarrow> scope_of_targets scope command ts)"

datatype preview_refusal = PreviewRefused refusal | HostOrHostsRequired

definition daemon_exec_preview ::
  "exec_ctx \<Rightarrow> config option \<Rightarrow> daemon_scope option \<Rightarrow> str list option \<Rightarrow> str option \<Rightarrow> str \<Rightarrow>
   str list option \<Rightarrow> nat option \<Rightarrow> (preview_refusal + exec_plan) option" where
  "daemon_exec_preview ctx tag_config scope hosts host command tags timeout =
     (case ensure_command_length command of
        Some r \<Rightarrow> Some (Inl (PreviewRefused r))
      | None \<Rightarrow>
          (case hosts of
             Some hs \<Rightarrow>
               (case scope_of_targets scope command
                       (targets_for_exec_multi (ctx_config ctx) tag_config hs tags) of
                  Some r \<Rightarrow> Some (Inl (PreviewRefused r))
                | None \<Rightarrow> map_option (map_sum (\<lambda>e. PreviewRefused (ExecutionFailed e)) id)
                    (preview_exec_multi ctx hs command tags timeout))
           | None \<Rightarrow>
               (case host of
                  None \<Rightarrow> Some (Inl HostOrHostsRequired)
                | Some h \<Rightarrow>
                    (case check_daemon_scope scope h (host_tags tag_config h) command of
                       Inl e \<Rightarrow> Some (Inl (PreviewRefused (ScopeRefused e)))
                     | Inr _ \<Rightarrow> map_option (map_sum (\<lambda>e. PreviewRefused (ExecutionFailed e)) id)
                         (preview_exec ctx h command timeout)))))"

section \<open>What a batch has passed\<close>

text \<open>A target that was let through, by an authorization of some number.\<close>

definition target_passed ::
  "daemon_env \<Rightarrow> daemon_scope option \<Rightarrow> str \<Rightarrow> str \<Rightarrow> str \<times> str list \<Rightarrow> bool" where
  "target_passed e scope source command t \<longleftrightarrow>
     check_daemon_scope scope (fst t) (snd t) command = Inr () \<and>
     (\<exists>n. host_allows_source (ctx_config (de_before e n)) (fst t) source)"

lemma authorize_each_target_Inr:
  assumes "authorize_each_target e approver i n acc ts s = Some (Inr hosts, s')"
  shows "(\<forall>t \<in> set ts. target_passed e (auth_scope i) (in_source i) (in_command i) t) \<and>
    (\<forall>h \<in> set hosts. h \<in> set acc \<or> approver_agreed approver False h (in_command i) High)"
  using assms
proof (induction ts arbitrary: n acc s)
  case (Cons t ts)
  obtain host tags where t: "t = (host, tags)" by fastforce
  let ?i = "i\<lparr>in_host := host, in_tags := tags\<rparr>"
  obtain res s1 where step: "authorize_command e n approver ?i s = Some (res, s1)"
    using Cons.prems t by (auto split: option.splits)
  with Cons.prems t obtain risk agreed where res: "res = Inr (risk, agreed)"
    by (cases res) auto
  let ?acc = "if agreed \<and> risk = High then acc @ [host] else acc"
  have rest: "authorize_each_target e approver i (n + 1) ?acc ts s1 = Some (Inr hosts, s')"
    using Cons.prems t step res by simp
  note passed = authorize_command_Inr [OF step [unfolded res]]
  from passed have "target_passed e (auth_scope i) (in_source i) (in_command i) t"
    by (auto simp: target_passed_def t)
  with Cons.IH [OF rest] passed show ?case by (auto split: if_splits)
qed simp

lemma targets_are_resolved:
  assumes "resolve_exec_targets config hosts tags = Inr names"
  shows "map fst (targets_for_exec_multi config c hosts tags) = names"
proof (cases config)
  case None
  with assms have "names = hosts" "hosts \<noteq> []"
    by (auto simp: resolve_exec_targets_def expand_hosts_by_tags_def split: option.splits if_splits)
  with None show ?thesis
    by (simp add: targets_for_exec_multi_def expand_exec_targets_def expand_exec_authorization_targets_def
        comp_def)
next
  case (Some profiles)
  have names: "names \<noteq> []" "expand_hosts_by_tags config hosts tags = Inr names"
    using assms by (auto simp: resolve_exec_targets_def split: sum.splits if_splits)
  obtain ts where ts: "expand_exec_authorization_targets config hosts tags = Inr ts" "map target_host ts = names"
    using authorized_hosts_are_targets [of profiles hosts tags] names(2) Some
    by (cases "expand_exec_authorization_targets config hosts tags") auto
  then have "expand_exec_targets config hosts tags = Inr (map (\<lambda>t. (target_host t, target_tags t)) ts)"
    by (simp add: expand_exec_targets_def)
  moreover have "ts \<noteq> []" using ts(2) names(1) by auto
  ultimately show ?thesis
    using ts(2) by (cases ts) (auto simp: targets_for_exec_multi_def comp_def)
qed

lemma admit_batch_Inr:
  assumes "admit_batch e c approver scope source r s = Some (Inr r', s')"
  shows "execution_gate_blocks_source (de_gate e) source = Inr False \<and>
    fst (check_execution_batch (de_pruned e) (de_now e) source
      (targets_for_exec_multi (de_targets e) c (mr_hosts r) (mr_tags r))
      (refresh_execution_limits (de_limits_file e) (ds_limiter s))) = None \<and>
    (\<forall>t \<in> set (targets_for_exec_multi (de_targets e) c (mr_hosts r) (mr_tags r)).
       target_passed e scope source (mr_command r) t) \<and>
    (\<exists>hosts. r' = r\<lparr>mr_approved_hosts := hosts, mr_source := Some source\<rparr> \<and>
       (\<forall>h \<in> set hosts. approver_agreed approver False h (mr_command r) High))"
proof -
  let ?targets = "targets_for_exec_multi (de_targets e) c (mr_hosts r) (mr_tags r)"
  let ?label = "target_host_label (mr_hosts r) (mr_tags r)"
  obtain x1 s1 where gate: "reject_if_gate_paused e source ?label (mr_command r) s = (x1, s1)" by fastforce
  with assms have x1: "x1 = None" by (cases x1) (auto simp: admit_batch_def Let_def)
  obtain x2 s2 where limit: "reject_if_rate_limited e source ?targets (mr_command r) s1 = (x2, s2)" by fastforce
  with assms gate x1 have x2: "x2 = None" by (cases x2) (auto simp: admit_batch_def Let_def)
  obtain res s3 where auth: "authorize_targets e approver (batch_input scope source r) ?targets ?label s2
      = Some (res, s3)"
    using assms gate limit x1 x2 by (auto simp: admit_batch_def Let_def)
  with assms gate limit x1 x2 obtain hosts where res: "res = Inr hosts"
      "r' = r\<lparr>mr_approved_hosts := hosts, mr_source := Some source\<rparr>"
    by (cases res) (auto simp: admit_batch_def Let_def)
  have fields: "auth_scope (batch_input scope source r) = scope" "in_source (batch_input scope source r) = source"
      "in_command (batch_input scope source r) = mr_command r"
    by (simp_all add: batch_input_def)
  note each = authorize_each_target_Inr [OF auth [unfolded res(1) authorize_targets_def], unfolded fields]
  have "\<forall>t \<in> set ?targets. target_passed e scope source (mr_command r) t"
    using each by (cases "?targets = []") auto
  moreover have "\<forall>h \<in> set hosts. approver_agreed approver False h (mr_command r) High"
    using each by auto
  ultimately show ?thesis
    using gate_passed [OF gate [unfolded x1]] limit_passed [OF limit [unfolded x2]] res(2) by auto
qed

text \<open>The requests of a batch: what each of its tasks hands to \<open>exec_ssh_core\<close>.\<close>

lemma batch_requests:
  "set (concat (batches_of config v r strategy)) =
     (case resolve_exec_targets config (mr_hosts r) (mr_tags r) of
        Inl e \<Rightarrow> {} | Inr names \<Rightarrow> set (map (host_request v r) names))"
proof (cases "resolve_exec_targets config (mr_hosts r) (mr_tags r)")
  case (Inr names)
  then have "names \<noteq> []" by (auto simp: resolve_exec_targets_def split: sum.splits if_splits)
  then have "(if limit_or_zero strategy st_batch_size > 0 then limit_or_zero strategy st_batch_size
      else length names) > 0" by simp
  with Inr show ?thesis by (simp add: batches_of_def Let_def concat_chunks)
qed (simp add: batches_of_def)


section \<open>Examples\<close>

definition demo_batch :: "str list option \<Rightarrow> exec_multi_request" where
  "demo_batch tags =
     \<lparr>mr_hosts = [''web''], mr_command = ''ls (('', mr_force = True, mr_approved_hosts = [],
      mr_timeout_secs = None, mr_tags = tags, mr_reason = None, mr_change_id = None, mr_source = None\<rparr>"

definition reads :: "config option \<Rightarrow> daemon_env" where
  "reads config = demo_daemon\<lparr>de_targets := config\<rparr>"

lemma reads_simps:
  "de_targets (reads t) = t" "de_gate (reads t) = NoFile" "de_source_var (reads t) = None"
  "de_limits_file (reads t) = None" "de_pruned (reads t) = 0" "de_now (reads t) = 0"
  by (simp_all add: reads_def demo_daemon_def Let_def)

lemma demo_authorize_forced:
  "check_daemon_scope scope ''web'' tags ''ls (('' = Inr () \<Longrightarrow>
   authorize_command (reads t) n approver ((batch_input scope ''daemon'' (demo_batch ts))
     \<lparr>in_host := ''web'', in_tags := tags\<rparr>) s = Some (Inr (High, False), s)"
  by (simp add: authorize_command_def authorize_command_inner_def authorize_command_with_approval_def
      batch_input_def demo_batch_def reads_def demo_daemon_def demo_ctx_def demo_checks opt_or_def
      effective_command_risk_def classify_effective_risk_def classify_with_user_rules_def
      check_approval_required_def Let_def)

lemma demo_rates_any:
  "\<exists>l. check_execution_batch 0 0 ''daemon'' [(''web'', tags)] (new_limiter default_limits) = (None, l)"
  if "tags = [] \<or> tags = [''prod'']"
proof -
  have "fst (check_execution_batch 0 0 ''daemon'' [(''web'', [])] (new_limiter default_limits)) = None"
    "fst (check_execution_batch 0 0 ''daemon'' [(''web'', [''prod''])] (new_limiter default_limits)) = None"
    by code_simp+
  with that show ?thesis by (metis prod.collapse)
qed

lemma demo_admits:
  assumes "targets_for_exec_multi t c [''web''] ts = [(''web'', tags)]" "tags = [] \<or> tags = [''prod'']"
    and "check_daemon_scope scope ''web'' tags ''ls (('' = Inr ()"
  shows "\<exists>s1. admit_batch (reads t) c approver scope ''daemon'' (demo_batch ts) demo_daemon_state =
     Some (Inr ((demo_batch ts)\<lparr>mr_source := Some ''daemon''\<rparr>), s1)"
proof -
  obtain l where l: "check_execution_batch 0 0 ''daemon'' [(''web'', tags)] (new_limiter default_limits)
      = (None, l)"
    using demo_rates_any [OF assms(2)] by blast
  have batch: "mr_hosts (demo_batch ts) = [''web'']" "mr_command (demo_batch ts) = ''ls ((''"
      "mr_tags (demo_batch ts) = ts" "mr_approved_hosts (demo_batch ts) = []"
    by (simp_all add: demo_batch_def)
  have same: "(demo_batch ts)\<lparr>mr_approved_hosts := [], mr_source := Some ''daemon''\<rparr> =
      (demo_batch ts)\<lparr>mr_source := Some ''daemon''\<rparr>"
    by (simp add: demo_batch_def)
  show ?thesis
    by (simp add: admit_batch_def batch assms(1) reads_simps reject_if_gate_paused_def default_gate_def
        gate_blocks_source_def reject_if_rate_limited_def refresh_execution_limits_def demo_daemon_state_def
        l authorize_targets_def demo_authorize_forced [OF assms(3)] same)
qed

lemma demo_batch_run:
  assumes "targets_for_exec_multi t c [''web''] ts = [(''web'', tags)]" "tags = [] \<or> tags = [''prod'']"
    and "check_daemon_scope scope ''web'' tags ''ls (('' = Inr ()"
    and "resolve_exec_targets config [''web''] ts = Inr names" "names \<noteq> []"
  shows "\<exists>res s1. daemon_exec_multi (reads t) c config approver order 7 scope (demo_batch ts) None
      demo_daemon_state = Some (Inr res, s1) \<and> br_total_hosts res = length names"
proof -
  obtain s1 where admit: "admit_batch (reads t) c approver scope ''daemon'' (demo_batch ts) demo_daemon_state =
     Some (Inr ((demo_batch ts)\<lparr>mr_source := Some ''daemon''\<rparr>), s1)"
    using demo_admits [OF assms(1-3)] by blast
  have batch: "mr_source (demo_batch ts) = None" "mr_command (demo_batch ts) = ''ls ((''"
      "mr_hosts (demo_batch ts) = [''web'']" "mr_tags (demo_batch ts) = ts"
    by (simp_all add: demo_batch_def)
  show ?thesis
    by (simp add: daemon_exec_multi_def batch reads_simps demo_checks admit exec_multi_with_strategy_def
        assms(4) limit_or_zero_def Let_def)
qed


text \<open>
  Between the authorization and the start of the batch the configuration is read again: a host that gets
  the tag in between joins the batch, although it was never authorized, here for a token that may act
  on \<open>web\<close> only.
\<close>

definition web_only :: daemon_scope where
  "web_only = \<lparr>allowed_hosts = [''web''], allowed_tags = [], allowed_commands = [], denied_commands = []\<rparr>"

definition late_host :: host_profile where
  "late_host = demo_host\<lparr>hp_name := ''db'', hp_tags := [''prod'']\<rparr>"

lemma late_tag_joins_batch:
  "\<exists>res s1. daemon_exec_multi (reads (Some [demo_host])) None (Some [demo_host, late_host]) approver order
      7 (Some web_only) (demo_batch (Some [''prod''])) None demo_daemon_state = Some (Inr res, s1) \<and>
    br_total_hosts res = 2"
  "host_request None (demo_batch (Some [''prod''])) ''db'' \<in>
     set (concat (batches_of (Some [demo_host, late_host]) None (demo_batch (Some [''prod''])) None))"
  "check_daemon_scope (Some web_only) ''db'' [''prod''] ''ls (('' = Inl (HostNotAllowed ''db'')"
proof -
  have ts: "targets_for_exec_multi (Some [demo_host]) None [''web''] (Some [''prod'']) = [(''web'', [])]"
    by code_simp
  have scope: "check_daemon_scope (Some web_only) ''web'' [] ''ls (('' = Inr ()" by code_simp
  have names: "resolve_exec_targets (Some [demo_host, late_host]) [''web''] (Some [''prod'']) = Inr [''web'', ''db'']"
    by code_simp
  show "\<exists>res s1. daemon_exec_multi (reads (Some [demo_host])) None (Some [demo_host, late_host]) approver
      order 7 (Some web_only) (demo_batch (Some [''prod''])) None demo_daemon_state = Some (Inr res, s1) \<and>
    br_total_hosts res = 2"
    using demo_batch_run [OF ts _ scope names] by (simp add: numeral_2_eq_2)
  show "host_request None (demo_batch (Some [''prod''])) ''db'' \<in>
     set (concat (batches_of (Some [demo_host, late_host]) None (demo_batch (Some [''prod''])) None))"
    using names by (simp add: batch_requests demo_batch_def del: set_concat)
qed code_simp

text \<open>
  When the configuration cannot be read for the expansion, the tags a request claims stand in for those
  of the host: a token for hosts tagged \<open>prod\<close> reaches a host without the tag.
\<close>

definition prod_only :: daemon_scope where
  "prod_only = \<lparr>allowed_hosts = [], allowed_tags = [''prod''], allowed_commands = [], denied_commands = []\<rparr>"

lemma unreadable_config_trusts_claimed_tags:
  "\<exists>res s1. daemon_exec_multi (reads None) None (Some [demo_host]) approver order
      7 (Some prod_only) (demo_batch (Some [''prod''])) None demo_daemon_state = Some (Inr res, s1) \<and>
    br_total_hosts res = 1"
  "check_daemon_scope (Some prod_only) ''web'' (host_tags (Some [demo_host]) ''web'') ''ls (('' =
     Inl (NoAllowedTag ''web'' [''prod''])"
proof -
  have ts: "targets_for_exec_multi None None [''web''] (Some [''prod'']) = [(''web'', [''prod''])]"
    by code_simp
  have scope: "check_daemon_scope (Some prod_only) ''web'' [''prod''] ''ls (('' = Inr ()" by code_simp
  have names: "resolve_exec_targets (Some [demo_host]) [''web''] (Some [''prod'']) = Inr [''web'']"
    by code_simp
  show "\<exists>res s1. daemon_exec_multi (reads None) None (Some [demo_host]) approver order
      7 (Some prod_only) (demo_batch (Some [''prod''])) None demo_daemon_state = Some (Inr res, s1) \<and>
    br_total_hosts res = 1"
    using demo_batch_run [OF ts _ scope names] by simp
qed code_simp

end
