(* ===== verification/Daemon_Playbook.thy ===== *)
theory Daemon_Playbook
  imports Request_Laws Playbook
begin

text \<open>
  \<open>bin/agent2ssh-daemon.rs\<close>: \<open>run_playbook\<close>, the daemon's way to run a playbook. It expands the playbook
  without running it, authorizes every expanded command, remembers the steps an approver allowed, and
  then runs the playbook. The file of playbooks is read three times: for the expansion, for the risk
  override and for the run.
\<close>

datatype playbook_refusal =
    RunRefused refusal
  | RunFailed playbook_error
  | StepBlocked str

definition listed_override :: "str \<Rightarrow> playbook_file \<Rightarrow> risk_level option" where
  "listed_override name f =
     (case find_playbook name f of Inl _ \<Rightarrow> None | Inr p \<Rightarrow> pb_risk_override p)"

definition playbook_input ::
  "daemon_scope option \<Rightarrow> str \<Rightarrow> str list \<Rightarrow> run_options \<Rightarrow> risk_level option \<Rightarrow> command_authorization_input" where
  "playbook_input scope source tags ro override =
     \<lparr>auth_scope = scope, in_source = source, in_host = ro_host ro, in_tags = tags,
      in_risk_override = override, in_command = [], in_force = ro_force ro, in_reason = ro_reason ro,
      in_change_id = ro_change_id ro, in_side_effect = None\<rparr>"

text \<open>The loop over the expanded steps; \<open>checks n\<close> is read for the check in front of the \<open>n\<close>th authorization.\<close>

fun authorize_steps ::
  "daemon_env \<Rightarrow> (nat \<Rightarrow> exec_ctx) \<Rightarrow> approver \<Rightarrow> command_authorization_input \<Rightarrow> nat \<Rightarrow> nat list \<Rightarrow>
   dry_run_step list \<Rightarrow> daemon_state \<Rightarrow> ((playbook_refusal + nat list) \<times> daemon_state) option" where
  "authorize_steps e checks approver i n approved [] s = Some (Inr approved, s)"
| "authorize_steps e checks approver i n approved (d # ds) s =
     (case effective_command_risk (checks n) (dr_resolved d) of
        None \<Rightarrow> None
      | Some base \<Rightarrow>
          if apply_risk_override base (in_risk_override i) = Blocked then
            Some (Inl (StepBlocked (dr_resolved d)),
              s\<lparr>ds_audit := append_rejected_exec_audit (de_audit e) (in_source i) (in_host i) (dr_resolved d)
                  Blocked ''playbook step blocked by risk policy'' (in_change_id i) (ds_audit s)\<rparr>)
          else
            (case authorize_command e n approver (i\<lparr>in_command := dr_resolved d\<rparr>) s of
               None \<Rightarrow> None
             | Some (Inl r, s1) \<Rightarrow> Some (Inl (RunRefused r), s1)
             | Some (Inr (risk, agreed), s1) \<Rightarrow>
                 authorize_steps e checks approver i (n + 1)
                   (if agreed \<and> risk = High then approved @ [dr_step d] else approved) ds s1))"

text \<open>The body of a request: the playbook, the choices for its run and the parameters.\<close>

record playbook_body =
  pl_playbook :: str
  pl_options :: run_options
  pl_params :: "str \<rightharpoonup> str"

record playbook_files =
  pf_dry :: playbook_file
  pf_listed :: playbook_file
  pf_run :: playbook_file

definition admit_playbook ::
  "daemon_env \<Rightarrow> playbook_files \<Rightarrow> (nat \<Rightarrow> exec_ctx) \<Rightarrow> approver \<Rightarrow> daemon_scope option \<Rightarrow> str \<Rightarrow>
   playbook_body \<Rightarrow> daemon_state \<Rightarrow> ((playbook_refusal + nat list) \<times> daemon_state) option" where
  "admit_playbook e fs checks approver scope source body s =
     (let host = ro_host (pl_options body);
          tags = host_tags (de_targets e) host;
          label = ''playbook:'' @ pl_playbook body
      in case reject_if_gate_paused e source host label s of
           (Some r, s1) \<Rightarrow> Some (Inl (RunRefused r), s1)
         | (None, s1) \<Rightarrow>
             (case reject_if_rate_limited e source [(host, tags)] label s1 of
                (Some r, s2) \<Rightarrow> Some (Inl (RunRefused r), s2)
              | (None, s2) \<Rightarrow>
                  (case dry_run_playbook (pl_playbook body) (pl_params body) (pf_dry fs) of
                     Inl x \<Rightarrow> Some (Inl (RunFailed x), s2)
                   | Inr (_, ds) \<Rightarrow>
                       authorize_steps e checks approver
                         (playbook_input scope source tags (pl_options body)
                           (listed_override (pl_playbook body) (pf_listed fs))) 0 [] ds s2)))"

definition daemon_run_playbook ::
  "daemon_env \<Rightarrow> playbook_files \<Rightarrow> (nat \<Rightarrow> exec_ctx) \<Rightarrow> approver \<Rightarrow> (nat \<Rightarrow> exec_ctx \<times> exec_ctx) \<Rightarrow>
   (nat \<Rightarrow> transport) \<Rightarrow> daemon_scope option \<Rightarrow> playbook_body \<Rightarrow> daemon_state \<Rightarrow>
   ((playbook_refusal + playbook_run_result) \<times> daemon_state) option" where
  "daemon_run_playbook e fs checks approver ctxs links scope body s =
     (case source_or_env_for_request (de_source_var e) (ro_source (pl_options body)) ''daemon'' of
        Inl r \<Rightarrow> Some (Inl (RunRefused r), s)
      | Inr source \<Rightarrow>
          (case admit_playbook e fs checks approver scope source body s of
             None \<Rightarrow> None
           | Some (Inl r, s1) \<Rightarrow> Some (Inl r, s1)
           | Some (Inr approved, s1) \<Rightarrow>
               map_option (\<lambda>(result, w). (map_sum RunFailed id result, s1\<lparr>ds_audit := w\<rparr>))
                 (run_playbook ctxs (de_source_var e) links (pl_playbook body)
                   ((pl_options body)\<lparr>ro_source := Some source, ro_approved_steps := approved\<rparr>)
                   (pl_params body) (pf_run fs) (ds_audit s1))))"

text \<open>\<open>dry_run_playbook_handler\<close>: the name of the path and that of the body must agree.\<close>

definition dry_run_playbook_handler ::
  "str \<Rightarrow> str option \<Rightarrow> (str \<rightharpoonup> str) \<Rightarrow> playbook_file \<Rightarrow> playbook_error option + (str \<times> dry_run_step list)" where
  "dry_run_playbook_handler name body_name params f =
     (if (case body_name of None \<Rightarrow> False | Some n \<Rightarrow> n \<noteq> name) then Inl None
      else map_sum Some id (dry_run_playbook name params f))"

section \<open>What runs\<close>

lemma map_sum_InrE: "map_sum f g x = Inr y \<Longrightarrow> (\<And>z. x = Inr z \<Longrightarrow> y = g z \<Longrightarrow> P) \<Longrightarrow> P"
  by (cases x) auto

lemma dry_steps_numbered:
  "dry_steps params idx steps = Inr ds \<Longrightarrow> map dr_step ds = [idx..<idx + length ds]"
proof (induction params idx steps arbitrary: ds rule: dry_steps.induct)
  case (2 params idx template defs steps)
  then obtain command us ds' where parts: "resolve_command_template template params defs = Inr (command, us)"
      "dry_steps params (idx + 1) steps = Inr ds'"
      "ds = \<lparr>dr_step = idx, dr_template = template, dr_resolved = command, dr_params_used = us\<rparr> # ds'"
    by (auto split: sum.splits prod.splits simp: map_sum_def)
  have "[idx..<idx + length ds] = idx # [idx + 1..<idx + 1 + length ds']"
    using parts(3) by (simp add: upt_conv_Cons del: upt_Suc)
  with parts "2.IH" [of "(command, us)" command us ds'] show ?case by (simp del: upt_Suc)
qed simp

text \<open>The number of a step tells which of the expanded steps it is.\<close>

lemma step_of_number:
  assumes "dry_run_playbook name params f = Inr (n, ds)" "d \<in> set ds" "d' \<in> set ds" "dr_step d = dr_step d'"
  shows "d = d'"
proof -
  from assms(1) obtain p where "dry_steps params 0 (effective_steps p) = Inr ds"
    by (auto simp: dry_run_playbook_def map_sum_def split: sum.splits)
  from dry_steps_numbered [OF this] have "distinct (map dr_step ds)" by simp
  with assms(2-4) show ?thesis by (auto simp: distinct_map dest: inj_onD)
qed

text \<open>A step that ran is one of the expanded steps, and its result came through the execution gate.\<close>

lemma ran_as_expanded:
  assumes dry: "dry_run_playbook name params f = Inr (n, ds)"
    and run: "run_playbook ctxs env_var links name ro params f w = Some (Inr res, w')"
    and r: "r \<in> set (pr_steps_completed res)"
  shows "(\<exists>d \<in> set ds. dr_step d = sr_step r \<and> dr_resolved d = sr_command r) \<and>
    (\<forall>x. sr_result r = Some x \<longrightarrow> er_risk_level x \<noteq> Blocked \<and>
       (er_risk_level x = High \<longrightarrow> ro_force ro \<or> sr_step r \<in> set (ro_approved_steps ro)))"
proof -
  from run_playbook_Inr [OF run] obtain p where p: "find_playbook name f = Inr p"
      "run_steps (gate_at ctxs env_var links (pb_risk_override p)) ro params 0 (effective_steps p) [] w =
         Some (Inr (pr_steps_completed res, pr_success res), w')"
    by blast
  with dry have ds: "dry_steps params 0 (effective_steps p) = Inr ds"
    by (auto simp: dry_run_playbook_def map_sum_def split: sum.splits)
  from run_steps_dry [OF ds p(2)]
  have same: "map (\<lambda>r. (sr_step r, sr_command r)) (pr_steps_completed res) =
      take (length (pr_steps_completed res)) (map (\<lambda>d. (dr_step d, dr_resolved d)) ds)" by auto
  have "(sr_step r, sr_command r) \<in> set (map (\<lambda>r. (sr_step r, sr_command r)) (pr_steps_completed res))"
    using r by simp
  then have "(sr_step r, sr_command r) \<in> set (map (\<lambda>d. (dr_step d, dr_resolved d)) ds)"
    unfolding same by (rule in_set_takeD)
  then have expanded: "\<exists>d \<in> set ds. dr_step d = sr_step r \<and> dr_resolved d = sr_command r" by auto
  have "er_risk_level x \<noteq> Blocked \<and>
      (er_risk_level x = High \<longrightarrow> ro_force ro \<or> sr_step r \<in> set (ro_approved_steps ro))"
    if x: "sr_result r = Some x" for x
  proof -
    from run_steps_gated [OF p(2) r x] obtain u u' where
      "gate_at ctxs env_var links (pb_risk_override p) (sr_step r) (step_request ro (sr_step r) (sr_command r)) u =
         Some (Inr x, u')" by auto
    from gate_result [OF this [unfolded gate_at_def]] show ?thesis by (simp add: step_request_def)
  qed
  with expanded show ?thesis by blast
qed

definition step_passed ::
  "daemon_env \<Rightarrow> command_authorization_input \<Rightarrow> str \<Rightarrow> bool" where
  "step_passed e i command \<longleftrightarrow>
     check_daemon_scope (auth_scope i) (in_host i) (in_tags i) command = Inr () \<and>
     (\<exists>n. host_allows_source (ctx_config (de_before e n)) (in_host i) (in_source i))"

lemma authorize_steps_Inr:
  assumes "authorize_steps e checks approver i n acc ds s = Some (Inr approved, s')"
  shows "(\<forall>d \<in> set ds. step_passed e i (dr_resolved d)) \<and>
    (\<forall>k \<in> set approved. k \<in> set acc \<or>
       (\<exists>d \<in> set ds. dr_step d = k \<and> approver_agreed approver False (in_host i) (dr_resolved d) High))"
  using assms
proof (induction ds arbitrary: n acc s)
  case (Cons d ds)
  let ?i = "i\<lparr>in_command := dr_resolved d\<rparr>"
  obtain base where base: "effective_command_risk (checks n) (dr_resolved d) = Some base"
      "apply_risk_override base (in_risk_override i) \<noteq> Blocked"
    using Cons.prems by (auto split: option.splits if_splits)
  obtain res s1 where step: "authorize_command e n approver ?i s = Some (res, s1)"
    using Cons.prems base by (auto split: option.splits)
  with Cons.prems base obtain risk agreed where res: "res = Inr (risk, agreed)" by (cases res) auto
  let ?acc = "if agreed \<and> risk = High then acc @ [dr_step d] else acc"
  have rest: "authorize_steps e checks approver i (n + 1) ?acc ds s1 = Some (Inr approved, s')"
    using Cons.prems base step res by simp
  have passed: "check_daemon_scope (auth_scope i) (in_host i) (in_tags i) (dr_resolved d) = Inr ()"
      "host_allows_source (ctx_config (de_before e n)) (in_host i) (in_source i)"
      "agreed \<longrightarrow> approver_agreed approver False (in_host i) (dr_resolved d) risk"
    using authorize_command_Inr [OF step [unfolded res]] by simp_all
  then have "step_passed e i (dr_resolved d)" by (auto simp: step_passed_def)
  with Cons.IH [OF rest] passed(3) show ?case by (auto split: if_splits)
qed simp

lemma admit_playbook_Inr:
  assumes "admit_playbook e fs checks approver scope source body s = Some (Inr approved, s')"
  shows "execution_gate_blocks_source (de_gate e) source = Inr False \<and>
    (\<exists>n ds s1. dry_run_playbook (pl_playbook body) (pl_params body) (pf_dry fs) = Inr (n, ds) \<and>
       authorize_steps e checks approver
         (playbook_input scope source (host_tags (de_targets e) (ro_host (pl_options body))) (pl_options body)
           (listed_override (pl_playbook body) (pf_listed fs))) 0 [] ds s1 = Some (Inr approved, s'))"
proof -
  let ?host = "ro_host (pl_options body)" and ?label = "''playbook:'' @ pl_playbook body"
  obtain x1 s1 where gate: "reject_if_gate_paused e source ?host ?label s = (x1, s1)" by fastforce
  with assms have x1: "x1 = None" by (cases x1) (auto simp: admit_playbook_def Let_def)
  obtain x2 s2 where limit: "reject_if_rate_limited e source [(?host, host_tags (de_targets e) ?host)] ?label s1
      = (x2, s2)" by fastforce
  with assms gate x1 have x2: "x2 = None" by (cases x2) (auto simp: admit_playbook_def Let_def)
  obtain n ds where dry: "dry_run_playbook (pl_playbook body) (pl_params body) (pf_dry fs) = Inr (n, ds)"
    using assms gate limit x1 x2
    by (cases "dry_run_playbook (pl_playbook body) (pl_params body) (pf_dry fs)")
       (auto simp: admit_playbook_def Let_def)
  with assms gate limit x1 x2 gate_passed [OF gate [unfolded x1]] show ?thesis
    by (auto simp: admit_playbook_def Let_def)
qed

text \<open>
  Property (C13): what a playbook request runs has been authorized. While the file of playbooks does not
  change between its expansion and its run, every step that ran was allowed by the token's scope and by
  the sources of its host, the execution gate was open to the caller, no result is of a blocked command,
  and one of high risk either came with \<open>force\<close> or an approver agreed to that command.
\<close>

theorem playbook_run_is_guarded:
  assumes run: "daemon_run_playbook e fs checks approver ctxs links scope body s = Some (Inr res, s')"
    and same: "pf_run fs = pf_dry fs"
    and r: "r \<in> set (pr_steps_completed res)"
  shows "\<exists>source. source_or_env_for_request (de_source_var e) (ro_source (pl_options body)) ''daemon'' = Inr source \<and>
    execution_gate_blocks_source (de_gate e) source = Inr False \<and>
    step_passed e
      (playbook_input scope source (host_tags (de_targets e) (ro_host (pl_options body))) (pl_options body)
        (listed_override (pl_playbook body) (pf_listed fs))) (sr_command r) \<and>
    (\<forall>x. sr_result r = Some x \<longrightarrow> er_risk_level x \<noteq> Blocked \<and>
       (er_risk_level x = High \<longrightarrow> ro_force (pl_options body) \<or>
          approver_agreed approver False (ro_host (pl_options body)) (sr_command r) High))"
proof -
  let ?ro = "pl_options body"
  obtain source where source: "source_or_env_for_request (de_source_var e) (ro_source ?ro) ''daemon'' = Inr source"
    using run by (auto simp: daemon_run_playbook_def split: sum.splits)
  obtain approved s1 where admit: "admit_playbook e fs checks approver scope source body s = Some (Inr approved, s1)"
    using run source by (auto simp: daemon_run_playbook_def split: option.splits sum.splits prod.splits)
  let ?ro' = "?ro\<lparr>ro_source := Some source, ro_approved_steps := approved\<rparr>"
  obtain w where ran: "run_playbook ctxs (de_source_var e) links (pl_playbook body) ?ro' (pl_params body) (pf_run fs)
      (ds_audit s1) = Some (Inr res, w)"
    using run source admit by (auto simp: daemon_run_playbook_def elim!: map_sum_InrE)
  let ?i = "playbook_input scope source (host_tags (de_targets e) (ro_host ?ro)) ?ro
    (listed_override (pl_playbook body) (pf_listed fs))"
  from admit_playbook_Inr [OF admit] obtain n ds s2 where
    gate: "execution_gate_blocks_source (de_gate e) source = Inr False" and
    dry: "dry_run_playbook (pl_playbook body) (pl_params body) (pf_dry fs) = Inr (n, ds)" and
    auth: "authorize_steps e checks approver ?i 0 [] ds s2 = Some (Inr approved, s1)" by blast
  from ran_as_expanded [OF dry ran [unfolded same] r] obtain d where
    d: "d \<in> set ds" "dr_step d = sr_step r" "dr_resolved d = sr_command r" and
    result: "\<forall>x. sr_result r = Some x \<longrightarrow> er_risk_level x \<noteq> Blocked \<and>
      (er_risk_level x = High \<longrightarrow> ro_force ?ro \<or> sr_step r \<in> set approved)" by auto
  note steps = authorize_steps_Inr [OF auth]
  have agreed: "approver_agreed approver False (ro_host ?ro) (sr_command r) High" if in_ap: "sr_step r \<in> set approved"
  proof -
    from steps in_ap obtain d' where "d' \<in> set ds" "dr_step d' = sr_step r"
        "approver_agreed approver False (in_host ?i) (dr_resolved d') High" by auto
    moreover from this d have "d' = d" using step_of_number [OF dry] by simp
    ultimately show ?thesis using d(3) by (simp add: playbook_input_def)
  qed
  have "step_passed e ?i (sr_command r)" using steps d by auto
  with source gate result agreed show ?thesis by blast
qed

section \<open>Examples\<close>

definition step_book :: playbook where
  "step_book = demo_book\<lparr>pb_advanced_steps := Some [\<lparr>ps_command = ''ls (('', ps_description = None, ps_params = []\<rparr>]\<rparr>"

definition step_body :: "bool \<Rightarrow> playbook_body" where
  "step_body force =
     \<lparr>pl_playbook = ''check'', pl_options = demo_options\<lparr>ro_force := force\<rparr>, pl_params = Map.empty\<rparr>"

definition step_files :: "playbook \<Rightarrow> playbook_files" where
  "step_files before =
     \<lparr>pf_dry = Playbooks [before], pf_listed = Playbooks [before], pf_run = Playbooks [step_book]\<rparr>"

lemma step_book_fields:
  "dry_run_playbook ''check'' Map.empty (Playbooks [step_book]) =
     Inr (''check'', [\<lparr>dr_step = 0, dr_template = ''ls (('', dr_resolved = ''ls (('', dr_params_used = []\<rparr>])"
  "dry_run_playbook ''check'' Map.empty (Playbooks [step_book\<lparr>pb_advanced_steps := Some []\<rparr>]) = Inr (''check'', [])"
  "listed_override ''check'' (Playbooks [step_book]) = None"
  "find_playbook ''check'' (Playbooks [step_book]) = Inr step_book"
  "effective_steps step_book = [(''ls (('', [])]" "pb_risk_override step_book = None" "pb_name step_book = ''check''"
  "resolve_command_template ''ls (('' Map.empty [] = Inr (''ls (('', [])"
  by code_simp+

lemma step_admitted:
  "\<exists>s1. admit_playbook demo_daemon (step_files step_book) (\<lambda>_. de_exec demo_daemon)
     (\<lambda>_ p w. (Inr Execution_Control.Approved, w)) None ''daemon'' (step_body False) demo_daemon_state =
       Some (Inr [0], s1)"
  by (simp add: admit_playbook_def step_files_def step_body_def step_book_fields playbook_input_def demo_options_def
      demo_daemon_def demo_daemon_state_def demo_checks demo_rates
      reject_if_gate_paused_def default_gate_def gate_blocks_source_def reject_if_rate_limited_def
      refresh_execution_limits_def authorize_command_def authorize_command_inner_def
      authorize_command_with_approval_def check_daemon_scope_def effective_command_risk_def
      classify_effective_risk_def classify_with_user_rules_def check_approval_required_def conclude_def
      demo_ctx_def opt_or_def Let_def)

lemma step_runs:
  assumes "ro_force ro \<or> 0 \<in> set (ro_approved_steps ro)" "ro_host ro = ''web''"
  shows "\<exists>x w'. run_playbook demo_ctxs None demo_links ''check'' ro Map.empty (Playbooks [step_book]) w =
      Some (Inr \<lparr>pr_playbook = ''check'', pr_host = ''web'', pr_steps_completed =
        [\<lparr>sr_step = 0, sr_command = ''ls (('', sr_result = Some x, sr_error = None\<rparr>], pr_success = True\<rparr>, w') \<and>
      er_risk_level x = High"
proof -
  have risk: "effective_command_risk (demo_ctx\<lparr>ctx_config := Some [demo_host]\<rparr>) ''ls (('' = Some High"
    by (simp add: effective_command_risk_def classify_effective_risk_def classify_with_user_rules_def demo_ctx_def)
  have host: "hp_name demo_host = ''web''" "hp_risk_override demo_host = None" by (simp_all add: demo_host_def)
  obtain x w' where "gate_at demo_ctxs None demo_links None 0 (step_request ro 0 ''ls (('') w = Some (Inr x, w')"
      "er_exit_code x = Some 0" "er_risk_level x = High"
    using assms by (simp add: gate_at_def demo_ctxs_def exec_ssh_core_with_risk_override_def step_request_def
        risk command_too_long_def MAX_COMMAND_BYTES_def resolve_host_def host policy_refusal_def
        finish_exec_def demo_links_def result_of_def Let_def)
  then show ?thesis using assms by (simp add: run_playbook_def step_book_fields Let_def)
qed

theorem playbook_run_is_guarded_witness:
  "approver_agreed (\<lambda>_ p w. (Inr Execution_Control.Approved, w)) False ''web'' ''ls (('' High"
proof -
  let ?approver = "\<lambda>_ p w. (Inr Execution_Control.Approved, w)"
  obtain s1 where admit: "admit_playbook demo_daemon (step_files step_book) (\<lambda>_. de_exec demo_daemon) ?approver
      None ''daemon'' (step_body False) demo_daemon_state = Some (Inr [0], s1)"
    using step_admitted by blast
  obtain x w' where ran: "run_playbook demo_ctxs None demo_links ''check''
      (demo_options\<lparr>ro_force := False, ro_source := Some ''daemon'', ro_approved_steps := [0]\<rparr>) Map.empty
      (Playbooks [step_book]) (ds_audit s1) =
      Some (Inr \<lparr>pr_playbook = ''check'', pr_host = ''web'', pr_steps_completed =
        [\<lparr>sr_step = 0, sr_command = ''ls (('', sr_result = Some x, sr_error = None\<rparr>], pr_success = True\<rparr>, w')"
      "er_risk_level x = High"
    using step_runs [of "demo_options\<lparr>ro_force := False, ro_source := Some ''daemon'', ro_approved_steps := [0]\<rparr>" "ds_audit s1"]
    by (auto simp: demo_options_def)
  have fields: "de_source_var demo_daemon = None" "ro_source (pl_options (step_body False)) = None"
      "pl_playbook (step_body False) = ''check''" "pl_params (step_body False) = Map.empty"
      "pl_options (step_body False) = demo_options\<lparr>ro_force := False\<rparr>"
      "pf_run (step_files step_book) = Playbooks [step_book]" "pf_run (step_files step_book) = pf_dry (step_files step_book)"
    by (simp_all add: demo_daemon_def step_body_def demo_options_def step_files_def Let_def)
  have run: "daemon_run_playbook demo_daemon (step_files step_book) (\<lambda>_. de_exec demo_daemon) ?approver demo_ctxs
      demo_links None (step_body False) demo_daemon_state =
      Some (Inr \<lparr>pr_playbook = ''check'', pr_host = ''web'', pr_steps_completed =
        [\<lparr>sr_step = 0, sr_command = ''ls (('', sr_result = Some x, sr_error = None\<rparr>], pr_success = True\<rparr>,
        s1\<lparr>ds_audit := w'\<rparr>)"
    unfolding daemon_run_playbook_def fields(1,2) demo_checks(1) sum.case admit option.case prod.case
    by (simp add: fields(3-6) ran(1))
  from playbook_run_is_guarded [OF run fields(7), of "\<lparr>sr_step = 0, sr_command = ''ls (('', sr_result = Some x, sr_error = None\<rparr>"]
  show ?thesis using ran(2) by (auto simp: fields(5) demo_options_def)
qed

text \<open>
  The file of playbooks is read again for the run: a step that is added in between runs, and no check of
  the token has seen it. Here the token may run nothing but \<open>uptime\<close>.
\<close>

definition uptime_scope :: daemon_scope where
  "uptime_scope = \<lparr>allowed_hosts = [], allowed_tags = [], allowed_commands = [''uptime''], denied_commands = []\<rparr>"

lemma no_step_admitted:
  "\<exists>s1. admit_playbook demo_daemon (step_files (step_book\<lparr>pb_advanced_steps := Some []\<rparr>)) (\<lambda>_. de_exec demo_daemon)
     approver (Some uptime_scope) ''daemon'' (step_body True) demo_daemon_state = Some (Inr [], s1)"
  by (simp add: admit_playbook_def step_files_def step_body_def step_book_fields demo_options_def
      demo_daemon_def demo_daemon_state_def demo_checks demo_rates
      reject_if_gate_paused_def default_gate_def gate_blocks_source_def reject_if_rate_limited_def
      refresh_execution_limits_def Let_def)

lemma added_step_runs_unchecked:
  "check_daemon_scope (Some uptime_scope) ''web'' [] ''ls (('' = Inl (NoAllowedCommand ''ls (('') \<and>
   (\<exists>res s'. daemon_run_playbook demo_daemon (step_files (step_book\<lparr>pb_advanced_steps := Some []\<rparr>))
     (\<lambda>_. de_exec demo_daemon) approver demo_ctxs demo_links (Some uptime_scope) (step_body True) demo_daemon_state =
     Some (Inr res, s') \<and> map sr_command (pr_steps_completed res) = [''ls ((''])"
proof
  let ?fs = "step_files (step_book\<lparr>pb_advanced_steps := Some []\<rparr>)"
  show "check_daemon_scope (Some uptime_scope) ''web'' [] ''ls (('' = Inl (NoAllowedCommand ''ls (('')" by code_simp
  obtain s1 where s1: "admit_playbook demo_daemon ?fs (\<lambda>_. de_exec demo_daemon)
     approver (Some uptime_scope) ''daemon'' (step_body True) demo_daemon_state = Some (Inr [], s1)"
    using no_step_admitted by blast
  have fields: "de_source_var demo_daemon = None" "ro_source (pl_options (step_body True)) = None"
      "pl_playbook (step_body True) = ''check''" "pl_params (step_body True) = Map.empty"
      "pl_options (step_body True) = demo_options\<lparr>ro_force := True\<rparr>" "pf_run ?fs = Playbooks [step_book]"
    by (simp_all add: demo_daemon_def step_body_def demo_options_def step_files_def Let_def)
  obtain x w' where ran: "run_playbook demo_ctxs None demo_links ''check''
      (demo_options\<lparr>ro_force := True, ro_source := Some ''daemon'', ro_approved_steps := []\<rparr>) Map.empty
      (Playbooks [step_book]) (ds_audit s1) =
      Some (Inr \<lparr>pr_playbook = ''check'', pr_host = ''web'', pr_steps_completed =
        [\<lparr>sr_step = 0, sr_command = ''ls (('', sr_result = Some x, sr_error = None\<rparr>], pr_success = True\<rparr>, w')"
    using step_runs [of "demo_options\<lparr>ro_force := True, ro_source := Some ''daemon'', ro_approved_steps := []\<rparr>" "ds_audit s1"]
    by (auto simp: demo_options_def)
  show "\<exists>res s'. daemon_run_playbook demo_daemon ?fs (\<lambda>_. de_exec demo_daemon) approver demo_ctxs demo_links
     (Some uptime_scope) (step_body True) demo_daemon_state = Some (Inr res, s') \<and>
     map sr_command (pr_steps_completed res) = [''ls (('']"
    unfolding daemon_run_playbook_def fields(1,2) demo_checks(1) sum.case s1 option.case prod.case
    by (simp add: fields(3-6) ran(1))
qed

end
