(* ===== verification/Session_Input.thy ===== *)
theory Session_Input
  imports Request_Laws
begin

text \<open>
  Interactive sessions of the daemon: \<open>split_completed_session_commands\<close> (\<open>session.rs\<close>) cuts the input of
  a session into the commands that a line break completes and the rest, which waits in a buffer, and
  \<open>session_open\<close>, \<open>session_write\<close>, \<open>session_read\<close> and \<open>session_close\<close> (\<open>bin/agent2ssh-daemon.rs\<close>)
  authorize what is completed before it is sent. The transport is a channel that takes a message or
  refuses it; \<open>sw_shell\<close> is what a session's channel has taken. The two critical sections of
  \<open>session_write\<close>, reading the buffer and storing it, are separate definitions.
\<close>

section \<open>Completed commands\<close>

definition is_line_break :: "char \<Rightarrow> bool" where
  "is_line_break c \<longleftrightarrow> c = newline \<or> c = CHR 0x0D"

text \<open>\<open>line\<close> is the text since the last break.\<close>

fun split_completed :: "str \<Rightarrow> str \<Rightarrow> str list \<times> str" where
  "split_completed line [] = ([], line)"
| "split_completed line (c # s) =
     (if is_line_break c then
        (case split_completed [] s of (commands, rest) \<Rightarrow>
           (if trim line \<noteq> [] then trim line # commands else commands, rest))
      else split_completed (line @ [c]) s)"

definition split_completed_session_commands :: "str \<Rightarrow> str \<Rightarrow> str list \<times> str" where
  "split_completed_session_commands pending input = split_completed [] (pending @ input)"

section \<open>State and requests\<close>

record session_world =
  sw_daemon :: daemon_state
  sw_buffers :: "session_id \<Rightarrow> str option"
  sw_shell :: "session_id \<Rightarrow> str"

text \<open>
  A write: what it reads (\<open>sr_env\<close>), the approver, the scope of the token, the session, the body, and
  what the channel says (\<open>None\<close> is success); a path that is no session id was refused before. \<open>sr_elapsed\<close> is the measured duration.
\<close>

record session_request =
  sr_env :: daemon_env
  sr_approver :: approver
  sr_scope :: "daemon_scope option"
  sr_id :: session_id
  sr_source :: "str option"
  sr_input :: str
  sr_force :: bool
  sr_channel :: "str option"
  sr_elapsed :: nat

definition session_label :: "session_id \<Rightarrow> str" where
  "session_label i = ''session:'' @ show_nat i"

definition target_of_session :: "session_id \<Rightarrow> session_world \<Rightarrow> str \<times> str list" where
  "target_of_session i w =
     (case session_target i (ds_limiter (sw_daemon w)) of
        Some t \<Rightarrow> t
      | None \<Rightarrow> (session_label i, []))"

definition session_input_of ::
  "daemon_scope option \<Rightarrow> str \<Rightarrow> str \<times> str list \<Rightarrow> str \<Rightarrow> bool \<Rightarrow> command_authorization_input" where
  "session_input_of scope source target command force =
     \<lparr>auth_scope = scope, in_source = source, in_host = fst target, in_tags = snd target,
      in_risk_override = None, in_command = command, in_force = force, in_reason = None,
      in_change_id = None, in_side_effect = None\<rparr>"

text \<open>The loop over the completed commands; \<open>n\<close> counts the authorizations.\<close>

fun authorize_lines ::
  "daemon_env \<Rightarrow> approver \<Rightarrow> daemon_scope option \<Rightarrow> str \<Rightarrow> str \<times> str list \<Rightarrow> bool \<Rightarrow> nat \<Rightarrow> str list \<Rightarrow>
   daemon_state \<Rightarrow> ((refusal + (str \<times> risk_level) list) \<times> daemon_state) option" where
  "authorize_lines e approver scope source target force n [] s = Some (Inr [], s)"
| "authorize_lines e approver scope source target force n (c # cs) s =
     (case authorize_command e n approver (session_input_of scope source target c force) s of
        None \<Rightarrow> None
      | Some (Inl r, s') \<Rightarrow> Some (Inl r, s')
      | Some (Inr (risk, agreed), s') \<Rightarrow>
          map_option (\<lambda>(result, s''). (map_sum id ((#) (c, risk)) result, s''))
            (authorize_lines e approver scope source target force (n + 1) cs s'))"

text \<open>What is known of a write once its commands are authorized.\<close>

record checked_write =
  cw_source :: str
  cw_target :: "str \<times> str list"
  cw_risks :: "(str \<times> risk_level) list"
  cw_pending :: str

definition session_write_check ::
  "session_request \<Rightarrow> session_world \<Rightarrow> ((refusal + checked_write) \<times> session_world) option" where
  "session_write_check q w =
     (case source_or_env_for_request (de_source_var (sr_env q)) (sr_source q) ''daemon'' of
        Inl r \<Rightarrow> Some (Inl r, w)
      | Inr source \<Rightarrow>
          (let target = target_of_session (sr_id q) w;
               with_daemon = (\<lambda>s. w\<lparr>sw_daemon := s\<rparr>)
           in case reject_if_rate_limited (sr_env q) source [target] (sr_input q) (sw_daemon w) of
                (Some r, s1) \<Rightarrow> Some (Inl r, with_daemon s1)
              | (None, s1) \<Rightarrow>
                  (case reject_if_gate_paused (sr_env q) source (fst target) (sr_input q) s1 of
                     (Some r, s2) \<Rightarrow> Some (Inl r, with_daemon s2)
                   | (None, s2) \<Rightarrow>
                       (let pending = (case sw_buffers w (sr_id q) of Some p \<Rightarrow> p | None \<Rightarrow> []);
                            (commands, rest) = split_completed_session_commands pending (sr_input q)
                        in map_option (\<lambda>(result, s3).
                               (map_sum id (\<lambda>risks. \<lparr>cw_source = source, cw_target = target,
                                    cw_risks = risks, cw_pending = rest\<rparr>) result, with_daemon s3))
                             (authorize_lines (sr_env q) (sr_approver q) (sr_scope q) source target
                                (sr_force q) 0 commands s2)))))"

definition written_bytes :: "str \<Rightarrow> str" where
  "written_bytes input = ''session write '' @ show_nat (length input) @ '' bytes''"

definition audit_lines ::
  "session_request \<Rightarrow> checked_write \<Rightarrow> audit_world \<Rightarrow> audit_world" where
  "audit_lines q c a =
     (let log_it = (\<lambda>command risk. append_operation_audit (de_audit (sr_env q)) (cw_source c)
            (fst (cw_target c)) command risk (Some 0) (sr_elapsed q) None)
      in if cw_risks c = [] then log_it (written_bytes (sr_input q)) Low a
         else foldl (\<lambda>a (command, risk). log_it (''session command '' @ command) risk a) a (cw_risks c))"

definition session_write_finish ::
  "session_request \<Rightarrow> checked_write \<Rightarrow> session_world \<Rightarrow> (refusal + unit) \<times> session_world" where
  "session_write_finish q c w =
     (let s = sw_daemon w in
      case sr_channel q of
        None \<Rightarrow>
          (Inr (),
           w\<lparr>sw_daemon := notify (SessionInput (cw_source c) (sr_id q)
                (preview_text (redact (de_audit (sr_env q))) 2048 (sr_input q)) (length (sr_input q)))
                (s\<lparr>ds_audit := audit_lines q c (ds_audit s)\<rparr>),
             sw_buffers := (sw_buffers w)(sr_id q := Some (cw_pending c)),
             sw_shell := (sw_shell w)(sr_id q := sw_shell w (sr_id q) @ sr_input q)\<rparr>)
      | Some message \<Rightarrow>
          (Inl (SessionFailed message),
           w\<lparr>sw_daemon := s\<lparr>ds_audit := append_operation_audit (de_audit (sr_env q)) (cw_source c)
                (fst (cw_target c)) (written_bytes (sr_input q))
                (foldl max_severity Low (map snd (cw_risks c))) None (sr_elapsed q) (Some message)
                (ds_audit s)\<rparr>\<rparr>))"

definition session_write ::
  "session_request \<Rightarrow> session_world \<Rightarrow> ((refusal + unit) \<times> session_world) option" where
  "session_write q w =
     map_option (\<lambda>(checked, w1).
         case checked of Inl r \<Rightarrow> (Inl r, w1) | Inr c \<Rightarrow> session_write_finish q c w1)
       (session_write_check q w)"

section \<open>Opening, reading, closing\<close>

text \<open>
  A place in the limiter is reserved before the approver is asked, given back when the session is not
  opened, and exchanged for one under the session's own id when it is. \<open>opened\<close> is the result of
  \<open>session_open_core\<close>; \<open>w'\<close> returns the world with the daemon's part replaced.
\<close>

definition with_limiter :: "(execution_limiter \<Rightarrow> execution_limiter) \<Rightarrow> session_world \<Rightarrow> session_world" where
  "with_limiter f w = w\<lparr>sw_daemon := (sw_daemon w)\<lparr>ds_limiter := f (ds_limiter (sw_daemon w))\<rparr>\<rparr>"

definition audit_session ::
  "session_request \<Rightarrow> str \<Rightarrow> str \<Rightarrow> str \<Rightarrow> risk_level \<Rightarrow> str option \<Rightarrow> session_world \<Rightarrow> session_world" where
  "audit_session q source host action risk failed w =
     w\<lparr>sw_daemon := (sw_daemon w)\<lparr>ds_audit := append_operation_audit (de_audit (sr_env q)) source host
         action risk (if failed = None then Some 0 else None) (sr_elapsed q) failed
         (ds_audit (sw_daemon w))\<rparr>\<rparr>"

definition announce :: "daemon_notice \<Rightarrow> session_world \<Rightarrow> session_world" where
  "announce n w = w\<lparr>sw_daemon := notify n (sw_daemon w)\<rparr>"

definition finish_open ::
  "session_request \<Rightarrow> session_id \<Rightarrow> str \<Rightarrow> str \<Rightarrow> str list \<Rightarrow> str + session_id \<Rightarrow> risk_level \<Rightarrow>
   session_world \<Rightarrow> (refusal + session_id) \<times> session_world" where
  "finish_open q reservation source host tags opened risk w =
     (case opened of
        Inr i \<Rightarrow>
          (let w1 = with_limiter (\<lambda>l. register_session i source host tags (unregister_session reservation l)) w;
               w2 = w1\<lparr>sw_buffers := (sw_buffers w1)(i := Some [])\<rparr>
           in (Inr i, announce (SessionOpened source host i)
                 (audit_session q source host ''session_open'' risk None w2)))
      | Inl message \<Rightarrow>
          (Inl (SessionFailed message),
           audit_session q source host ''session_open'' risk (Some message)
             (with_limiter (unregister_session reservation) w)))"

definition session_open ::
  "session_request \<Rightarrow> session_id \<Rightarrow> str \<Rightarrow> str + session_id \<Rightarrow> session_world \<Rightarrow>
   ((refusal + session_id) \<times> session_world) option" where
  "session_open q reservation host opened w =
     (case source_or_env_for_request (de_source_var (sr_env q)) (sr_source q) ''daemon'' of
        Inl r \<Rightarrow> Some (Inl r, w)
      | Inr source \<Rightarrow>
          (let tags = host_tags (de_targets (sr_env q)) host;
               with_daemon = (\<lambda>s. w\<lparr>sw_daemon := s\<rparr>)
           in case reject_if_gate_paused (sr_env q) source host ''session_open'' (sw_daemon w) of
                (Some r, s1) \<Rightarrow> Some (Inl r, with_daemon s1)
              | (None, s1) \<Rightarrow>
                  (case check_daemon_scope (sr_scope q) host tags ''session_open'' of
                     Inl e \<Rightarrow> Some (Inl (ScopeRefused e), with_daemon s1)
                   | Inr _ \<Rightarrow>
                       (case register_limited_session_for_command (sr_env q) reservation source host tags
                               ''session_open'' s1 of
                          (Some r, s2) \<Rightarrow> Some (Inl r, with_daemon s2)
                        | (None, s2) \<Rightarrow>
                            (case authorize_command (sr_env q) 0 (sr_approver q)
                                    (session_input_of (sr_scope q) source (host, tags) ''session_open'' False) s2 of
                               None \<Rightarrow> None
                             | Some (Inl r, s3) \<Rightarrow>
                                 Some (Inl r, with_limiter (unregister_session reservation) (with_daemon s3))
                             | Some (Inr (risk, agreed), s3) \<Rightarrow>
                                 Some (finish_open q reservation source host tags opened risk
                                   (with_daemon s3)))))))"

text \<open>Reading publishes an event of what it read, if anything.\<close>

definition session_read ::
  "session_request \<Rightarrow> str + str \<Rightarrow> session_world \<Rightarrow> (refusal + str)" where
  "session_read q output w =
     (case source_or_env_for_request (de_source_var (sr_env q)) (sr_source q) ''daemon'' of
        Inl r \<Rightarrow> Inl r
      | Inr source \<Rightarrow>
          (case check_daemon_scope (sr_scope q) (fst (target_of_session (sr_id q) w))
                  (snd (target_of_session (sr_id q) w)) ''session_read'' of
             Inl e \<Rightarrow> Inl (ScopeRefused e)
           | Inr _ \<Rightarrow> map_sum SessionFailed id output))"

definition session_close ::
  "session_request \<Rightarrow> session_world \<Rightarrow> ((refusal + unit) \<times> session_world) option" where
  "session_close q w =
     (case source_or_env_for_request (de_source_var (sr_env q)) (sr_source q) ''daemon'' of
        Inl r \<Rightarrow> Some (Inl r, w)
      | Inr source \<Rightarrow>
          (let (host, tags) = target_of_session (sr_id q) w;
               with_daemon = (\<lambda>s. w\<lparr>sw_daemon := s\<rparr>)
           in case reject_if_gate_paused (sr_env q) source host ''session_close'' (sw_daemon w) of
                (Some r, s1) \<Rightarrow> Some (Inl r, with_daemon s1)
              | (None, s1) \<Rightarrow>
                  (case check_daemon_scope (sr_scope q) host tags ''session_close'' of
                     Inl e \<Rightarrow> Some (Inl (ScopeRefused e), with_daemon s1)
                   | Inr _ \<Rightarrow>
                       (case authorize_command (sr_env q) 0 (sr_approver q)
                               (session_input_of (sr_scope q) source (host, tags) ''session_close'' False) s1 of
                          None \<Rightarrow> None
                        | Some (Inl r, s2) \<Rightarrow> Some (Inl r, with_daemon s2)
                        | Some (Inr (risk, agreed), s2) \<Rightarrow>
                            Some (case sr_channel q of
                                Some message \<Rightarrow> (Inl (SessionFailed message), with_daemon s2)
                              | None \<Rightarrow>
                                  (let w1 = with_limiter (unregister_session (sr_id q)) (with_daemon s2);
                                       w2 = w1\<lparr>sw_buffers := (sw_buffers w1)(sr_id q := None)\<rparr>
                                   in (Inr (), announce (SessionClosed source (sr_id q))
                                     (audit_session q source host ''session_close'' risk None w2))))))))"

section \<open>Fragments\<close>

lemma split_completed_append:
  "split_completed line (a @ b) =
     (case split_completed line a of (cs, p) \<Rightarrow>
        (case split_completed p b of (ds, r) \<Rightarrow> (cs @ ds, r)))"
  by (induction line a rule: split_completed.induct) (auto split: prod.splits)

lemma split_rest:
  "list_all (\<lambda>c. \<not> is_line_break c) line \<Longrightarrow>
   list_all (\<lambda>c. \<not> is_line_break c) (snd (split_completed line s))"
  by (induction line s rule: split_completed.induct) (auto split: prod.splits)

lemma split_plain:
  "list_all (\<lambda>c. \<not> is_line_break c) s \<Longrightarrow> split_completed line s = ([], line @ s)"
  by (induction line s rule: split_completed.induct) auto

text \<open>Splitting goes on from the rest: how the input is cut into writes plays no part.\<close>

lemma split_fragments:
  assumes "split_completed [] a = (cs, p)"
  shows "split_completed [] (a @ b) =
    (cs @ fst (split_completed_session_commands p b), snd (split_completed_session_commands p b))"
proof -
  have "split_completed [] p = ([], p)"
    using split_rest [of "[]" a] assms by (simp add: split_plain)
  then show ?thesis
    using assms by (simp add: split_completed_session_commands_def split_completed_append split: prod.split)
qed

section \<open>Runs of writes\<close>

definition session_step :: "session_world \<Rightarrow> session_request \<Rightarrow> session_world" where
  "session_step w q = (case session_write q w of None \<Rightarrow> w | Some (res, w') \<Rightarrow> w')"

text \<open>The writes of a run are among \<open>Q\<close>, and none of them panics.\<close>

definition session_enabled :: "session_request set \<Rightarrow> session_world \<Rightarrow> session_request \<Rightarrow> bool" where
  "session_enabled Q w q \<longleftrightarrow> q \<in> Q \<and> session_write q w \<noteq> None"

text \<open>What was checked before a line went to a session.\<close>

definition line_passed ::
  "daemon_env \<Rightarrow> approver \<Rightarrow> daemon_scope option \<Rightarrow> str \<Rightarrow> str \<times> str list \<Rightarrow> bool \<Rightarrow> str \<Rightarrow> bool" where
  "line_passed e approver scope source target force c \<longleftrightarrow>
     check_daemon_scope scope (fst target) (snd target) c = Inr () \<and>
     (\<exists>n effective risk. host_allows_source (ctx_config (de_before e n)) (fst target) source \<and>
        effective_command_risk (de_before e n) c = Some effective \<and>
        risk = apply_risk_override effective (host_risk_override (de_override e n) (fst target)) \<and>
        risk \<noteq> Blocked \<and> (risk = High \<longrightarrow> force \<or> approver_agreed approver False (fst target) c High))"

definition line_allowed :: "session_request \<Rightarrow> str \<times> str list \<Rightarrow> str \<Rightarrow> bool" where
  "line_allowed q target c \<longleftrightarrow>
     (\<exists>source. source_or_env_for_request (de_source_var (sr_env q)) (sr_source q) ''daemon'' = Inr source \<and>
        execution_gate_blocks_source (de_gate (sr_env q)) source = Inr False \<and>
        line_passed (sr_env q) (sr_approver q) (sr_scope q) source target (sr_force q) c)"

text \<open>The buffer of a session is the text its shell got since the last line break.\<close>

definition lines_inv ::
  "session_request set \<Rightarrow> session_id \<Rightarrow> str \<times> str list \<Rightarrow> session_world \<Rightarrow> bool" where
  "lines_inv Q i target w \<longleftrightarrow>
     session_target i (ds_limiter (sw_daemon w)) = Some target \<and>
     (case split_completed [] (sw_shell w i) of (cs, p) \<Rightarrow>
        sw_buffers w i = Some p \<and> (\<forall>c \<in> set cs. \<exists>q \<in> Q. line_allowed q target c))"

lemma authorize_lines_Inr:
  assumes "authorize_lines e approver scope source target force n cs s = Some (Inr risks, s')"
  shows "ds_limiter s' = ds_limiter s \<and> map fst risks = cs \<and>
    (\<forall>c \<in> set cs. line_passed e approver scope source target force c)"
  using assms
proof (induction cs arbitrary: n s risks)
  case (Cons c cs)
  let ?i = "session_input_of scope source target c force"
  obtain res s1 where step: "authorize_command e n approver ?i s = Some (res, s1)"
    using Cons.prems by (auto split: option.splits)
  with Cons.prems obtain risk agreed where res: "res = Inr (risk, agreed)" by (cases res) auto
  obtain res' where rest: "authorize_lines e approver scope source target force (n + 1) cs s1 = Some (res', s')"
    using Cons.prems step res by (auto split: option.splits)
  with Cons.prems step res obtain risks' where res': "res' = Inr risks'" "risks = (c, risk) # risks'"
    by (cases res') auto
  have limiter: "ds_limiter s1 = ds_limiter s"
    using step by (rule authorize_keeps_limiter)
  have fields: "auth_scope ?i = scope" "in_host ?i = fst target" "in_tags ?i = snd target" "in_command ?i = c"
      "in_source ?i = source" "in_force ?i = force" "in_risk_override ?i = None"
    by (simp_all add: session_input_of_def)
  note passed = authorize_command_Inr [OF step [unfolded res], unfolded fields opt_or_None]
  have "line_passed e approver scope source target force c"
  proof -
    obtain effective where eff: "effective_command_risk (de_before e n) c = Some effective"
        "risk = apply_risk_override effective (host_risk_override (de_override e n) (fst target))"
      using passed by blast
    have "risk = High \<longrightarrow> force \<or> approver_agreed approver False (fst target) c High"
      using passed by metis
    with passed eff show ?thesis
      unfolding line_passed_def by (intro conjI exI [of _ n] exI [of _ effective] exI [of _ risk]) simp_all
  qed
  then show ?case
    using limiter Cons.IH [OF rest [unfolded res'(1)]] res'(2) by simp
qed auto

lemma rates_keep_sessions:
  "sessions (ds_limiter (snd (reject_if_rate_limited e source targets command s))) = sessions (ds_limiter s)"
proof -
  have "sessions (snd (check_execution_batch p n source targets l)) = sessions l" for p n l
    by (auto simp: check_execution_batch_def prune_old_events_def Let_def split: option.splits)
  moreover have "sessions (refresh_execution_limits read l) = sessions l" for read l
    by (auto simp: refresh_execution_limits_def apply_config_def split: option.splits)
  ultimately show ?thesis
    by (simp add: reject_if_rate_limited_def write_limit_rejection_audit_def notify_def
        split: prod.split option.split) (metis snd_conv)
qed

lemma gate_keeps_limiter:
  "ds_limiter (snd (reject_if_gate_paused e source host command s)) = ds_limiter s"
  by (auto simp: reject_if_gate_paused_def notify_def split: sum.splits)

lemma refused_lines_keep_limiter:
  "authorize_lines e approver scope source target force n cs s = Some (res, s') \<Longrightarrow>
   ds_limiter s' = ds_limiter s"
proof (induction cs arbitrary: n s res)
  case (Cons c cs)
  obtain r s1 where step: "authorize_command e n approver (session_input_of scope source target c force) s
      = Some (r, s1)"
    using Cons.prems by (auto split: option.splits)
  show ?case
  proof (cases r)
    case (Inl x)
    with Cons.prems step show ?thesis by (auto intro: authorize_keeps_limiter)
  next
    case (Inr a)
    with Cons.prems step obtain res' where
        "authorize_lines e approver scope source target force (n + 1) cs s1 = Some (res', s')"
      by (cases a) (auto split: option.splits)
    from Cons.IH [OF this] authorize_keeps_limiter [OF step] show ?thesis by simp
  qed
qed simp

text \<open>A check sends nothing; what it lets through has passed line by line.\<close>

lemma write_check:
  assumes "session_write_check q w = Some (res, w')"
  shows "sw_shell w' = sw_shell w \<and> sw_buffers w' = sw_buffers w \<and>
    sessions (ds_limiter (sw_daemon w')) = sessions (ds_limiter (sw_daemon w)) \<and>
    (\<forall>c. res = Inr c \<longrightarrow>
       cw_pending c = snd (split_completed_session_commands
         (case sw_buffers w (sr_id q) of Some p \<Rightarrow> p | None \<Rightarrow> []) (sr_input q)) \<and>
       (\<forall>line \<in> set (fst (split_completed_session_commands
          (case sw_buffers w (sr_id q) of Some p \<Rightarrow> p | None \<Rightarrow> []) (sr_input q))).
          line_allowed q (target_of_session (sr_id q) w) line))"
proof (cases "source_or_env_for_request (de_source_var (sr_env q)) (sr_source q) ''daemon''")
  case (Inl r)
  with assms show ?thesis by (auto simp: session_write_check_def)
next
  case (Inr source)
  let ?target = "target_of_session (sr_id q) w"
  obtain x1 s1 where limit: "reject_if_rate_limited (sr_env q) source [?target] (sr_input q) (sw_daemon w)
      = (x1, s1)" by fastforce
  then have sess1: "sessions (ds_limiter s1) = sessions (ds_limiter (sw_daemon w))"
    using rates_keep_sessions [of "sr_env q" source "[?target]" "sr_input q" "sw_daemon w"] by simp
  show ?thesis
  proof (cases x1)
    case (Some r)
    with assms Inr limit sess1 show ?thesis by (auto simp: session_write_check_def Let_def)
  next
    case None
    obtain x2 s2 where gate: "reject_if_gate_paused (sr_env q) source (fst ?target) (sr_input q) s1 = (x2, s2)"
      by fastforce
    then have lim2: "ds_limiter s2 = ds_limiter s1"
      using gate_keeps_limiter [of "sr_env q" source "fst ?target" "sr_input q" s1] by simp
    show ?thesis
    proof (cases x2)
      case (Some r)
      with assms Inr limit None gate sess1 lim2 show ?thesis by (auto simp: session_write_check_def Let_def)
    next
      case open_gate: None
      obtain cs rest where split: "split_completed_session_commands
          (case sw_buffers w (sr_id q) of Some p \<Rightarrow> p | None \<Rightarrow> []) (sr_input q) = (cs, rest)" by fastforce
      obtain res' s3 where lines: "authorize_lines (sr_env q) (sr_approver q) (sr_scope q) source ?target
          (sr_force q) 0 cs s2 = Some (res', s3)"
        and out: "w' = w\<lparr>sw_daemon := s3\<rparr>" "res = map_sum id (\<lambda>risks. \<lparr>cw_source = source,
          cw_target = ?target, cw_risks = risks, cw_pending = rest\<rparr>) res'"
        using assms Inr limit None gate open_gate split by (auto simp: session_write_check_def Let_def)
      have gate_open: "execution_gate_blocks_source (de_gate (sr_env q)) source = Inr False"
        using gate_passed [OF gate [unfolded open_gate]] by simp
      have "\<forall>line \<in> set cs. line_allowed q ?target line" if "res' = Inr risks" for risks
        using authorize_lines_Inr [OF lines [unfolded that]] Inr gate_open
        by (auto simp: line_allowed_def)
      with refused_lines_keep_limiter [OF lines] sess1 lim2 out split show ?thesis
        by (cases res') auto
    qed
  qed
qed

lemma write_finish:
  "(fst (session_write_finish q c w) = Inr () \<longleftrightarrow> sr_channel q = None) \<and>
   sw_shell (snd (session_write_finish q c w)) =
     (if sr_channel q = None then (sw_shell w)(sr_id q := sw_shell w (sr_id q) @ sr_input q) else sw_shell w) \<and>
   sw_buffers (snd (session_write_finish q c w)) =
     (if sr_channel q = None then (sw_buffers w)(sr_id q := Some (cw_pending c)) else sw_buffers w) \<and>
   ds_limiter (sw_daemon (snd (session_write_finish q c w))) = ds_limiter (sw_daemon w)"
  by (cases "sr_channel q") (simp_all add: session_write_finish_def notify_def Let_def)

lemma lines_inv_step:
  assumes "lines_inv Q i target w" "session_enabled Q w q"
  shows "lines_inv Q i target (session_step w q)"
proof -
  obtain cs p where split: "split_completed [] (sw_shell w i) = (cs, p)" by fastforce
  have inv: "session_target i (ds_limiter (sw_daemon w)) = Some target" "sw_buffers w i = Some p"
      "\<forall>c \<in> set cs. \<exists>q \<in> Q. line_allowed q target c"
    using assms(1) split by (auto simp: lines_inv_def)
  obtain res w1 where check: "session_write_check q w = Some (res, w1)"
    using assms(2) by (auto simp: session_enabled_def session_write_def)
  note checked = write_check [OF check]
  have target1: "session_target i (ds_limiter (sw_daemon w1)) = Some target"
    using checked inv(1) by (simp add: session_target_def)
  show ?thesis
  proof (cases res)
    case (Inl r)
    then have "session_step w q = w1" using check by (simp add: session_step_def session_write_def)
    with checked target1 inv split show ?thesis by (simp add: lines_inv_def)
  next
    case (Inr c)
    let ?w2 = "snd (session_write_finish q c w1)"
    have step: "session_step w q = ?w2"
      using check Inr by (simp add: session_step_def session_write_def split: prod.split)
    have target2: "session_target i (ds_limiter (sw_daemon ?w2)) = Some target"
      using write_finish [of q c w1] target1 by simp
    show ?thesis
    proof (cases "sr_channel q = None \<and> sr_id q = i")
      case False
      with write_finish [of q c w1] checked target2 inv split show ?thesis
        unfolding step by (auto simp: lines_inv_def)
    next
      case True
      let ?more = "split_completed_session_commands p (sr_input q)"
      have target: "target_of_session (sr_id q) w = target"
        using True inv(1) by (simp add: target_of_session_def)
      have shell: "sw_shell ?w2 i = sw_shell w i @ sr_input q" "sw_buffers ?w2 i = Some (snd ?more)"
        using True write_finish [of q c w1] checked Inr inv(2) by auto
      have new: "\<forall>line \<in> set (fst ?more). line_allowed q target line"
        using checked Inr inv(2) True target by auto
      have "q \<in> Q" using assms(2) by (simp add: session_enabled_def)
      with shell new inv(3) target2 split_fragments [OF split, of "sr_input q"]
      show ?thesis unfolding step lines_inv_def by auto
    qed
  qed
qed

interpretation session_writes: state_machine session_step "session_enabled Q" "lines_inv Q i target" for Q i target
  by unfold_locales (rule lines_inv_step)


section \<open>An example, and what escapes\<close>

lemma write_ok:
  assumes "session_write q w = Some (Inr (), w')"
  shows "sw_shell w' = (sw_shell w)(sr_id q := sw_shell w (sr_id q) @ sr_input q) \<and>
    sessions (ds_limiter (sw_daemon w')) = sessions (ds_limiter (sw_daemon w)) \<and>
    sw_buffers w' = (sw_buffers w)(sr_id q := Some (snd (split_completed_session_commands
      (case sw_buffers w (sr_id q) of Some p \<Rightarrow> p | None \<Rightarrow> []) (sr_input q))))"
proof -
  obtain res w1 where check: "session_write_check q w = Some (res, w1)"
    using assms by (auto simp: session_write_def)
  with assms obtain c where c: "res = Inr c" "session_write_finish q c w1 = (Inr (), w')"
    by (cases res) (auto simp: session_write_def)
  with write_check [OF check] write_finish [of q c w1] show ?thesis by simp
qed

definition quiet_daemon :: daemon_env where
  "quiet_daemon = demo_daemon\<lparr>de_limits_file := Some (default_limits\<lparr>enabled := False\<rparr>)\<rparr>"

definition demo_write :: "daemon_scope option \<Rightarrow> str \<Rightarrow> session_request" where
  "demo_write scope input =
     \<lparr>sr_env = quiet_daemon, sr_approver = (\<lambda>_ p w. (Inl [], w)), sr_scope = scope, sr_id = 5,
      sr_source = None, sr_input = input, sr_force = True, sr_channel = None, sr_elapsed = 1\<rparr>"

definition demo_session :: "str \<Rightarrow> session_world" where
  "demo_session host =
     \<lparr>sw_daemon = \<lparr>ds_audit = empty_world,
        ds_limiter = register_session 5 ''daemon'' host [] (new_limiter default_limits), ds_notices = []\<rparr>,
      sw_buffers = [5 \<mapsto> []], sw_shell = (\<lambda>_. [])\<rparr>"

lemma demo_session_target: "session_target 5 (ds_limiter (sw_daemon (demo_session ''web''))) = Some (''web'', [])"
  by code_simp

lemma demo_line_risk: "classify_risk (\<lambda>_. None) ''(('' = Some High"
  by code_simp

lemma demo_authorize_line:
  "c = ''ls (('' \<or> c = ''(('' \<Longrightarrow>
   authorize_command quiet_daemon n approver (session_input_of None ''daemon'' (''web'', []) c True) s =
     Some (Inr (High, False), s)"
  using demo_line_risk
  by (auto simp: authorize_command_def authorize_command_inner_def authorize_command_with_approval_def
      session_input_of_def quiet_daemon_def demo_daemon_def demo_ctx_def demo_checks opt_or_def
      check_daemon_scope_def effective_command_risk_def classify_effective_risk_def
      classify_with_user_rules_def check_approval_required_def Let_def)

lemma quiet_simps:
  "de_gate quiet_daemon = NoFile" "de_source_var quiet_daemon = None"
  "de_limits_file quiet_daemon = Some (default_limits\<lparr>enabled := False\<rparr>)"
  by (simp_all add: quiet_daemon_def demo_daemon_def Let_def)

lemma demo_check:
  assumes "sw_buffers w 5 = Some p" "split_completed_session_commands p input = (cs, r)"
    and "cs = [] \<or> (cs = [''ls ((''] \<or> cs = [''((''] ) \<and> scope = None \<and>
      session_target 5 (ds_limiter (sw_daemon w)) = Some (''web'', [])"
  shows "\<exists>w'. session_write_check (demo_write scope input) w =
    Some (Inr \<lparr>cw_source = ''daemon'', cw_target = target_of_session 5 w,
      cw_risks = map (\<lambda>c. (c, High)) cs, cw_pending = r\<rparr>, w')"
proof -
  have source: "source_or_env_for_request None None ''daemon'' = Inr ''daemon''" by (rule demo_checks)
  have lines: "authorize_lines quiet_daemon approver scope ''daemon'' (target_of_session 5 w) True 0 cs s =
      Some (Inr (map (\<lambda>c. (c, High)) cs), s)" for s approver
    using assms(3) by (auto simp: target_of_session_def demo_authorize_line)
  show ?thesis
    using assms(1,2)
    by (simp add: session_write_check_def demo_write_def quiet_simps source
        reject_if_rate_limited_def refresh_execution_limits_def apply_config_def check_execution_batch_def
        reject_if_gate_paused_def default_gate_def gate_blocks_source_def lines Let_def)
qed

lemma demo_write_ok:
  assumes "sw_buffers w 5 = Some p" "split_completed_session_commands p input = (cs, r)"
    and "cs = [] \<or> cs = [''ls ((''] \<and> scope = None \<and>
      session_target 5 (ds_limiter (sw_daemon w)) = Some (''web'', [])"
  shows "\<exists>w'. session_write (demo_write scope input) w = Some (Inr (), w')"
proof -
  obtain w1 where "session_write_check (demo_write scope input) w =
    Some (Inr \<lparr>cw_source = ''daemon'', cw_target = target_of_session 5 w,
      cw_risks = map (\<lambda>c. (c, High)) cs, cw_pending = r\<rparr>, w1)"
    using demo_check [OF assms(1,2)] assms(3) by blast
  then show ?thesis
    by (simp add: session_write_def session_write_finish_def demo_write_def Let_def)
qed

definition second_half :: str where
  "second_half = ''(('' @ [newline]"

lemma demo_splits:
  "split_completed_session_commands [] ''ls '' = ([], ''ls '')"
  "split_completed_session_commands ''ls '' second_half = ([''ls ((''], [])"
  "split_completed_session_commands [] (''ls '' @ second_half) = ([''ls ((''], [])"
  "split_completed_session_commands [] second_half = ([''((''], [])"
  by code_simp+


text \<open>
  The buffer is read and stored in two critical sections. Of two writes at once, both read the buffer
  before either stores it: the line that the shell gets was never authorized, only its second half was.
\<close>

lemma concurrent_writes_escape:
  "\<exists>c1 w1 c2 w2. session_write_check (demo_write None ''ls '') (demo_session ''web'') = Some (Inr c1, w1) \<and>
     session_write_check (demo_write None second_half) w1 = Some (Inr c2, w2) \<and>
     cw_risks c1 = [] \<and> map fst (cw_risks c2) = [''((''] \<and>
     sw_shell (snd (session_write_finish (demo_write None second_half) c2
       (snd (session_write_finish (demo_write None ''ls '') c1 w2)))) 5 = ''ls (('' @ [newline]"
proof -
  let ?w = "demo_session ''web''"
  have w0: "sw_buffers ?w 5 = Some []" "sw_shell ?w 5 = []" by (simp_all add: demo_session_def)
  obtain w1 where check1: "session_write_check (demo_write None ''ls '') ?w =
      Some (Inr \<lparr>cw_source = ''daemon'', cw_target = target_of_session 5 ?w, cw_risks = [],
        cw_pending = ''ls ''\<rparr>, w1)"
    using demo_check [OF w0(1) demo_splits(1)] by auto
  have w1: "sw_buffers w1 5 = Some []" "sw_shell w1 5 = []"
      "session_target 5 (ds_limiter (sw_daemon w1)) = Some (''web'', [])"
    using write_check [OF check1] w0 demo_session_target by (auto simp: session_target_def)
  obtain w2 where check2: "session_write_check (demo_write None second_half) w1 =
      Some (Inr \<lparr>cw_source = ''daemon'', cw_target = target_of_session 5 w1, cw_risks = [(''(('', High)],
        cw_pending = []\<rparr>, w2)"
    using demo_check [OF w1(1) demo_splits(4)] w1(3) by auto
  have "sw_shell w2 5 = []" using write_check [OF check2] w1(2) by simp
  then have "sw_shell (snd (session_write_finish (demo_write None second_half) c2
       (snd (session_write_finish (demo_write None ''ls '') c1 w2)))) 5 = ''ls (('' @ [newline]" for c1 c2
    by (simp add: write_finish demo_write_def second_half_def)
  with check1 check2 show ?thesis by fastforce
qed

text \<open>
  Only a completed line is checked against the scope: a token that may act on \<open>web\<close> alone types into
  a session of \<open>db\<close>, where the next line break of somebody else completes its text.
\<close>

definition only_web :: daemon_scope where
  "only_web = \<lparr>allowed_hosts = [''web''], allowed_tags = [], allowed_commands = [], denied_commands = []\<rparr>"

lemma unfinished_line_needs_no_scope:
  "\<exists>w'. session_write (demo_write (Some only_web) ''ls '') (demo_session ''db'') = Some (Inr (), w')"
  "target_of_session 5 (demo_session ''db'') = (''db'', [])"
  "check_daemon_scope (Some only_web) ''db'' [] ''ls '' = Inl (HostNotAllowed ''db'')"
proof -
  have "sw_buffers (demo_session ''db'') 5 = Some []" by (simp add: demo_session_def)
  from demo_write_ok [OF this demo_splits(1), of "Some only_web"]
  show "\<exists>w'. session_write (demo_write (Some only_web) ''ls '') (demo_session ''db'') = Some (Inr (), w')"
    by simp
qed code_simp+

text \<open>
  The limiter keeps the host in lower case, and the session is authorized against that name: the risk
  override of a host whose name has a capital is lost inside its sessions.
\<close>

lemma session_loses_host_override:
  "target_of_session 5 (demo_session ''Prod'') = (''prod'', [])"
  "host_risk_override (Some [demo_host\<lparr>hp_name := ''Prod'', hp_risk_override := Some Blocked\<rparr>]) ''Prod'' = Some Blocked"
  "host_risk_override (Some [demo_host\<lparr>hp_name := ''Prod'', hp_risk_override := Some Blocked\<rparr>]) ''prod'' = None"
  by code_simp+

text \<open>
  The approval of a line is noted for the line, the audit entry is written for \<open>session command\<close> and the
  line: the entry of an approved line says that a rule allowed it, and the approval stays for the next
  command with that text.
\<close>

lemma approved_line_audited_as_automatic:
  "let a = audit_lines (demo_write None second_half)
       \<lparr>cw_source = ''daemon'', cw_target = (''web'', []), cw_risks = [(''ls (('', High)], cw_pending = []\<rparr>
       (note_human_approval demo_env ''web'' ''ls (('' empty_world)
   in ae_decided_by (last_entry a) = Some ''rule'' \<and> ae_decision (last_entry a) = Some DAutoAllowed \<and>
      map ga_command (granted a) = [''ls (('']"
  by (simp add: audit_lines_def demo_write_def quiet_daemon_def demo_daemon_def append_operation_audit_def
      append_audit_def append_audit_with_decision_def refusal_result_def resolve_decision_def
      take_human_approval_def note_human_approval_def note_granted_def fresh_grants_def last_entry_def
      rotate_audit_if_needed_unlocked_def audit_entry_of_def empty_world_def demo_env_def
      GRANTED_APPROVAL_TTL_def Let_def)

section \<open>A session that is not opened\<close>

lemma reservation_returned:
  "map_of (sessions l) i = None \<Longrightarrow>
   sessions (unregister_session i (register_session i source host tags l)) = sessions l"
  by (simp add: register_session_def unregister_session_def map_of_eq_None_iff
      delete_update_same)

lemma reserved:
  assumes "register_limited_session_for_command e i source host tags command s = (x, s')"
    and "map_of (sessions (ds_limiter s)) i = None"
  shows "sessions (unregister_session i (ds_limiter s')) = sessions (ds_limiter s) \<and>
    (x \<noteq> None \<longrightarrow> sessions (ds_limiter s') = sessions (ds_limiter s))"
proof -
  have fresh: "sessions (refresh_execution_limits l0 (ds_limiter s)) = sessions (ds_limiter s)" for l0
    by (auto simp: refresh_execution_limits_def apply_config_def split: option.splits)
  show ?thesis
    using assms fresh reservation_returned
    by (auto simp: register_limited_session_for_command_def try_register_session_def
        write_limit_rejection_audit_def notify_def unregister_session_def map_of_eq_None_iff
        split: option.splits)
qed

text \<open>
  A session that could not be opened leaves nothing behind: whether a check, the approver or the
  transport refused it, the table of sessions and the buffers are as before, so that failed attempts
  never use up the sessions of a source or a host.
\<close>

theorem failed_open_leaves_nothing:
  assumes "session_open q reservation host opened w = Some (Inl r, w')"
    and "map_of (sessions (ds_limiter (sw_daemon w))) reservation = None"
  shows "sessions (ds_limiter (sw_daemon w')) = sessions (ds_limiter (sw_daemon w)) \<and>
    sw_buffers w' = sw_buffers w"
proof (cases "source_or_env_for_request (de_source_var (sr_env q)) (sr_source q) ''daemon''")
  case (Inl x)
  with assms(1) show ?thesis by (auto simp: session_open_def)
next
  case (Inr source)
  let ?tags = "host_tags (de_targets (sr_env q)) host"
  obtain x1 s1 where gate: "reject_if_gate_paused (sr_env q) source host ''session_open'' (sw_daemon w) = (x1, s1)"
    by fastforce
  then have lim1: "ds_limiter s1 = ds_limiter (sw_daemon w)"
    using gate_keeps_limiter [of "sr_env q" source host "''session_open''" "sw_daemon w"] by simp
  show ?thesis
  proof (cases "x1 = None \<and> check_daemon_scope (sr_scope q) host ?tags ''session_open'' = Inr ()")
    case False
    with assms(1) Inr gate lim1 show ?thesis
      by (auto simp: session_open_def Let_def split: option.splits sum.splits)
  next
    case open_gate: True
    obtain x2 s2 where reserve: "register_limited_session_for_command (sr_env q) reservation source host ?tags
        ''session_open'' s1 = (x2, s2)" by fastforce
    note table = reserved [OF reserve, unfolded lim1, OF assms(2)]
    show ?thesis
    proof (cases x2)
      case (Some x)
      with assms(1) Inr gate open_gate reserve table show ?thesis
        by (auto simp: session_open_def Let_def)
    next
      case None
      obtain res s3 where auth: "authorize_command (sr_env q) 0 (sr_approver q)
          (session_input_of (sr_scope q) source (host, ?tags) ''session_open'' False) s2 = Some (res, s3)"
        using assms(1) Inr gate open_gate reserve None
        by (auto simp: session_open_def Let_def split: option.splits)
      note lim3 = authorize_keeps_limiter [OF auth]
      show ?thesis
      proof (cases res)
        case (Inl x)
        with assms(1) Inr gate open_gate reserve None auth lim3 table show ?thesis
          by (auto simp: session_open_def with_limiter_def Let_def)
      next
        case (Inr a)
        with assms(1) \<open>source_or_env_for_request _ _ _ = Inr source\<close> gate open_gate reserve None auth
        obtain risk where "finish_open q reservation source host ?tags opened risk (w\<lparr>sw_daemon := s3\<rparr>) = (Inl r, w')"
          by (cases a) (auto simp: session_open_def Let_def)
        with lim3 table show ?thesis
          by (cases opened) (auto simp: finish_open_def with_limiter_def audit_session_def Let_def)
      qed
    qed
  qed
qed

end
