(* ===== verification/Terminal_Broadcast.thy ===== *)
theory Terminal_Broadcast
  imports Session_Input Terminal_Text
begin

text \<open>
  \<open>bin/agent2ssh-daemon.rs\<close>: one command line for many open terminals (\<open>terminal_broadcast_preview\<close>,
  \<open>terminal_broadcast_run\<close>). A terminal is addressed by its id; its endpoint says which client it belongs
  to and which host it is connected to. The registry of terminals is read for the preview and again after
  the approvals, so it is two arguments, and so are the outcome of each send, the parser of ids and the
  text of a refusal. A request is refused as a whole, or answered with one result for each target.
\<close>

section \<open>Requests\<close>

record broadcast_target =
  bt_terminal_id :: str
  bt_host :: str

record broadcast_request =
  bq_targets :: "broadcast_target list"
  bq_command :: str
  bq_force :: bool
  bq_all_or_nothing :: bool

record terminal_endpoint =
  te_host :: str
  te_tags :: "str list"
  te_principal :: str

type_synonym terminals = "session_id \<Rightarrow> terminal_endpoint option"

datatype broadcast_error =
    NotConnected
  | OtherClient
  | OtherHost
  | BroadcastScope scope_error
  | BroadcastPaused
  | BroadcastBlocked
  | PoliciesUnreadable str
  | BroadcastRefused refusal
  | CancelledByOthers
  | LostBeforeDelivery

record broadcast_result =
  bx_terminal_id :: str
  bx_host :: str
  bx_risk_level :: risk_level
  bx_requires_approval :: bool
  bx_matched_policy :: "str option"
  bx_authorized :: bool
  bx_approval_granted :: bool
  bx_sent :: bool
  bx_error :: "broadcast_error option"

record broadcast_response =
  bs_broadcast_id :: str
  bs_enqueued_any :: bool
  bs_all_or_nothing :: bool
  bs_targets :: "broadcast_result list"

datatype invalid_broadcast =
    BroadcastTooLong | EmptyBroadcast | ControlCharacters | TooFewTargets | TooManyTargets | RepeatedTarget

definition MAX_TERMINAL_BROADCAST_TARGETS :: nat where
  "MAX_TERMINAL_BROADCAST_TARGETS = 32"

definition validate_terminal_broadcast_request :: "broadcast_request \<Rightarrow> invalid_broadcast option" where
  "validate_terminal_broadcast_request r =
     (if ensure_command_length (bq_command r) \<noteq> None then Some BroadcastTooLong
      else if trim (bq_command r) = [] then Some EmptyBroadcast
      else if list_ex is_control_char (chars (bq_command r)) then Some ControlCharacters
      else if length (bq_targets r) < 2 then Some TooFewTargets
      else if length (bq_targets r) > MAX_TERMINAL_BROADCAST_TARGETS then Some TooManyTargets
      else if \<not> distinct (map bt_terminal_id (bq_targets r)) then Some RepeatedTarget
      else None)"

section \<open>Preview\<close>

definition BROADCAST_SOURCE :: str where
  "BROADCAST_SOURCE = ''daemon_terminal_broadcast''"

definition no_result :: "broadcast_target \<Rightarrow> broadcast_result" where
  "no_result t =
     \<lparr>bx_terminal_id = bt_terminal_id t, bx_host = bt_host t, bx_risk_level = Blocked,
      bx_requires_approval = False, bx_matched_policy = None, bx_authorized = False,
      bx_approval_granted = False, bx_sent = False, bx_error = None\<rparr>"

definition failed :: "broadcast_error \<Rightarrow> broadcast_result \<Rightarrow> broadcast_result" where
  "failed e r = r\<lparr>bx_error := Some e\<rparr>"

text \<open>One target. The gate is open when its file cannot be read.\<close>

definition preview_target ::
  "exec_ctx \<Rightarrow> execution_gate_status option \<Rightarrow> auth_context \<Rightarrow> str \<Rightarrow> bool \<Rightarrow> broadcast_target \<Rightarrow>
   terminal_endpoint option \<Rightarrow> broadcast_result option" where
  "preview_target ctx gate auth command force t endpoint =
     (case endpoint of
        None \<Rightarrow> Some (failed NotConnected (no_result t))
      | Some te \<Rightarrow>
          if te_principal te \<noteq> ac_principal auth then Some (failed OtherClient (no_result t))
          else if te_host te \<noteq> bt_host t then Some (failed OtherHost (no_result t))
          else case check_daemon_scope (ac_scope auth) (te_host te) (te_tags te) command of
            Inl e \<Rightarrow> Some (failed (BroadcastScope e) (no_result t))
          | Inr _ \<Rightarrow>
              if (case gate of None \<Rightarrow> False | Some status \<Rightarrow> gate_blocks_source status BROADCAST_SOURCE) then
                Some (failed BroadcastPaused (no_result t))
              else
                map_option (\<lambda>effective.
                    let risk = apply_risk_override effective (host_risk_override (ctx_config ctx) (te_host te));
                        r = (no_result t)\<lparr>bx_risk_level := risk\<rparr>
                    in if risk = Blocked then failed BroadcastBlocked r
                       else case check_approval_required (ctx_policies ctx) (te_host te) (te_tags te) command risk of
                         Inl e \<Rightarrow> failed (PoliciesUnreadable e) r
                       | Inr policy \<Rightarrow>
                           r\<lparr>bx_matched_policy := map_option policy_name policy,
                             bx_requires_approval := (policy \<noteq> None \<or> risk = High \<and> \<not> force),
                             bx_authorized := True\<rparr>)
                  (effective_command_risk ctx command))"

definition gate_status :: "gate_file \<Rightarrow> execution_gate_status option" where
  "gate_status f = (case load_execution_gate f of Inl _ \<Rightarrow> None | Inr status \<Rightarrow> Some status)"

text \<open>\<open>ctxs n\<close> is what the preview reads for the \<open>n\<close>th target.\<close>

fun preview_targets ::
  "(nat \<Rightarrow> exec_ctx) \<Rightarrow> nat \<Rightarrow> execution_gate_status option \<Rightarrow> auth_context \<Rightarrow> broadcast_request \<Rightarrow>
   (broadcast_target \<times> terminal_endpoint option) list \<Rightarrow> broadcast_result list option" where
  "preview_targets ctxs n gate auth r [] = Some []"
| "preview_targets ctxs n gate auth r ((t, endpoint) # ts) =
     do { x \<leftarrow> preview_target (ctxs n) gate auth (bq_command r) (bq_force r) t endpoint;
          xs \<leftarrow> preview_targets ctxs (n + 1) gate auth r ts;
          Some (x # xs) }"

definition endpoints_of ::
  "(str \<Rightarrow> session_id option) \<Rightarrow> terminals \<Rightarrow> broadcast_request \<Rightarrow> terminal_endpoint option list" where
  "endpoints_of parse_id registry r =
     map (\<lambda>t. Option.bind (parse_id (bt_terminal_id t)) registry) (bq_targets r)"

definition terminal_broadcast_preview_results ::
  "(nat \<Rightarrow> exec_ctx) \<Rightarrow> gate_file \<Rightarrow> (str \<Rightarrow> session_id option) \<Rightarrow> terminals \<Rightarrow> auth_context \<Rightarrow>
   broadcast_request \<Rightarrow> broadcast_result list option" where
  "terminal_broadcast_preview_results ctxs f parse_id registry auth r =
     preview_targets ctxs 0 (gate_status f) auth r (zip (bq_targets r) (endpoints_of parse_id registry r))"

definition respond_with :: "str \<Rightarrow> broadcast_request \<Rightarrow> broadcast_result list \<Rightarrow> broadcast_response" where
  "respond_with i r results =
     \<lparr>bs_broadcast_id = i, bs_enqueued_any = list_ex bx_sent results,
      bs_all_or_nothing = bq_all_or_nothing r, bs_targets = results\<rparr>"

definition terminal_broadcast_preview ::
  "(nat \<Rightarrow> exec_ctx) \<Rightarrow> gate_file \<Rightarrow> (str \<Rightarrow> session_id option) \<Rightarrow> terminals \<Rightarrow> auth_context \<Rightarrow> str \<Rightarrow>
   broadcast_request \<Rightarrow> (invalid_broadcast + broadcast_response) option" where
  "terminal_broadcast_preview ctxs f parse_id registry auth i r =
     (case validate_terminal_broadcast_request r of
        Some e \<Rightarrow> Some (Inl e)
      | None \<Rightarrow>
          map_option (\<lambda>results. Inr \<lparr>bs_broadcast_id = i, bs_enqueued_any = False,
              bs_all_or_nothing = bq_all_or_nothing r, bs_targets = results\<rparr>)
            (terminal_broadcast_preview_results ctxs f parse_id registry auth r))"

section \<open>Run\<close>

text \<open>The authorization of the results that passed the preview; \<open>n\<close> counts them.\<close>

definition broadcast_input :: "daemon_scope option \<Rightarrow> config option \<Rightarrow> broadcast_request \<Rightarrow> str \<Rightarrow> command_authorization_input" where
  "broadcast_input scope config r host =
     session_input_of scope BROADCAST_SOURCE (host, host_tags config host) (bq_command r) (bq_force r)"

fun authorize_results ::
  "daemon_env \<Rightarrow> approver \<Rightarrow> daemon_scope option \<Rightarrow> broadcast_request \<Rightarrow> nat \<Rightarrow> broadcast_result list \<Rightarrow>
   daemon_state \<Rightarrow> (broadcast_result list \<times> daemon_state) option" where
  "authorize_results e approver scope r n [] s = Some ([], s)"
| "authorize_results e approver scope r n (x # xs) s =
     (if \<not> bx_authorized x then
        map_option (\<lambda>(ys, s'). (x # ys, s')) (authorize_results e approver scope r n xs s)
      else
        do { (res, s1) \<leftarrow> authorize_command e n approver
               (broadcast_input scope (de_targets e) r (bx_host x)) s;
             (ys, s2) \<leftarrow> authorize_results e approver scope r (n + 1) xs s1;
             Some ((case res of
                 Inr (risk, agreed) \<Rightarrow> x\<lparr>bx_risk_level := risk, bx_approval_granted := agreed\<rparr>
               | Inl refused \<Rightarrow> x\<lparr>bx_authorized := False, bx_error := Some (BroadcastRefused refused)\<rparr>) # ys,
               s2) })"

definition broadcast_message :: "(broadcast_error \<Rightarrow> str) \<Rightarrow> broadcast_error \<Rightarrow> str" where
  "broadcast_message text_of e =
     (case e of
        NotConnected \<Rightarrow> ''terminal is not connected''
      | OtherClient \<Rightarrow> ''terminal belongs to a different authenticated client''
      | OtherHost \<Rightarrow> ''terminal host does not match the registered connection''
      | BroadcastPaused \<Rightarrow> ''execution gate paused''
      | BroadcastBlocked \<Rightarrow> ''command blocked by risk policy''
      | CancelledByOthers \<Rightarrow> ''broadcast cancelled because another target was denied''
      | LostBeforeDelivery \<Rightarrow> ''terminal disconnected before delivery''
      | e \<Rightarrow> text_of e)"

definition audit_target ::
  "daemon_env \<Rightarrow> str \<Rightarrow> broadcast_request \<Rightarrow> broadcast_result \<Rightarrow> str option \<Rightarrow> daemon_state \<Rightarrow> daemon_state" where
  "audit_target e i r x reason s =
     s\<lparr>ds_audit := append_operation_audit (de_audit e) BROADCAST_SOURCE (bx_host x)
         (''terminal broadcast '' @ i @ '' '' @ bq_command r) (bx_risk_level x) None 0 reason (ds_audit s)\<rparr>"

text \<open>A target the registry still gives for the same client and host gets the command and a return.\<close>

definition receiver :: "auth_context \<Rightarrow> broadcast_target \<Rightarrow> terminal_endpoint option \<Rightarrow> bool" where
  "receiver auth t endpoint =
     (case endpoint of
        None \<Rightarrow> False
      | Some te \<Rightarrow> te_principal te = ac_principal auth \<and> te_host te = bt_host t)"

definition broadcast_line :: "broadcast_request \<Rightarrow> str" where
  "broadcast_line r = bq_command r @ [CHR 0x0D]"

fun deliver ::
  "daemon_env \<Rightarrow> (broadcast_error \<Rightarrow> str) \<Rightarrow> str \<Rightarrow> broadcast_request \<Rightarrow>
   (broadcast_result \<times> bool \<times> bool) list \<Rightarrow> daemon_state \<Rightarrow> broadcast_result list \<times> daemon_state" where
  "deliver e text_of i r [] s = ([], s)"
| "deliver e text_of i r ((x, known, accepted) # xs) s =
     (if \<not> bx_authorized x then
        (case deliver e text_of i r xs s of (ys, s') \<Rightarrow> (x # ys, s'))
      else (let lost = \<not> (known \<and> accepted);
                y = (if lost then x\<lparr>bx_error := Some LostBeforeDelivery\<rparr> else x\<lparr>bx_sent := True\<rparr>);
                s1 = audit_target e i r y
                  (if lost then Some (broadcast_message text_of LostBeforeDelivery) else None) s
            in (case deliver e text_of i r xs s1 of (ys, s') \<Rightarrow> (y # ys, s'))))"

definition cancel_all ::
  "daemon_env \<Rightarrow> (broadcast_error \<Rightarrow> str) \<Rightarrow> str \<Rightarrow> broadcast_request \<Rightarrow> broadcast_result list \<Rightarrow>
   daemon_state \<Rightarrow> broadcast_result list \<times> daemon_state" where
  "cancel_all e text_of i r results s =
     (let cancelled = map (\<lambda>x. if bx_authorized x then failed CancelledByOthers x else x) results
      in (cancelled, foldl (\<lambda>s x. audit_target e i r x (map_option (broadcast_message text_of) (bx_error x)) s)
            s cancelled))"

text \<open>
  The registry after the approvals is \<open>later\<close>, \<open>accepted k\<close> the outcome of the \<open>k\<close>th send, \<open>text_of\<close> the
  text of the refusals that carry one.
\<close>

record broadcast_env =
  be_daemon :: daemon_env
  be_preview :: "nat \<Rightarrow> exec_ctx"
  be_parse_id :: "str \<Rightarrow> session_id option"
  be_registry :: terminals
  be_later :: terminals
  be_accepted :: "nat \<Rightarrow> bool"
  be_text :: "broadcast_error \<Rightarrow> str"
  be_id :: str

definition rate_targets :: "config option \<Rightarrow> broadcast_result list \<Rightarrow> (str \<times> str list) list" where
  "rate_targets config results =
     map (\<lambda>x. (bx_host x, host_tags config (bx_host x))) (filter bx_authorized results)"

definition broadcast_previewed ::
  "broadcast_env \<Rightarrow> approver \<Rightarrow> auth_context \<Rightarrow> broadcast_request \<Rightarrow> broadcast_result list \<Rightarrow>
   daemon_state \<Rightarrow> (broadcast_result list \<times> daemon_state) option" where
  "broadcast_previewed b approver auth r results s =
     (let e = be_daemon b in
      case reject_if_rate_limited e BROADCAST_SOURCE (rate_targets (de_targets e) results) (bq_command r) s of
        (Some refused, s1) \<Rightarrow>
          Some (map (\<lambda>x. if bx_authorized x
              then x\<lparr>bx_authorized := False, bx_error := Some (BroadcastRefused refused)\<rparr> else x) results, s1)
      | (None, s1) \<Rightarrow>
          map_option (\<lambda>(checked, s2).
              if bq_all_or_nothing r \<and> \<not> list_all bx_authorized checked then
                cancel_all e (be_text b) (be_id b) r checked s2
              else deliver e (be_text b) (be_id b) r
                (zip checked (zip (map (\<lambda>(t, te). receiver auth t te)
                     (zip (bq_targets r) (endpoints_of (be_parse_id b) (be_later b) r)))
                   (map (be_accepted b) [0..<length (bq_targets r)]))) s2)
            (authorize_results e approver (ac_scope auth) r 0 results s1))"

definition terminal_broadcast_run ::
  "broadcast_env \<Rightarrow> approver \<Rightarrow> auth_context \<Rightarrow> broadcast_request \<Rightarrow> daemon_state \<Rightarrow>
   ((invalid_broadcast + broadcast_response) \<times> daemon_state) option" where
  "terminal_broadcast_run b approver auth r s =
     (case validate_terminal_broadcast_request r of
        Some x \<Rightarrow> Some (Inl x, s)
      | None \<Rightarrow>
          do { results \<leftarrow> terminal_broadcast_preview_results (be_preview b) (de_gate (be_daemon b))
                 (be_parse_id b) (be_registry b) auth r;
               (if bq_all_or_nothing r \<and> \<not> list_all bx_authorized results then
                  Some (Inr (respond_with (be_id b) r results),
                    foldl (\<lambda>s x. audit_target (be_daemon b) (be_id b) r x
                        (Some (case bx_error x of Some m \<Rightarrow> broadcast_message (be_text b) m
                           | None \<Rightarrow> ''broadcast cancelled by all-or-nothing preflight'')) s) s results)
                else
                  map_option (\<lambda>(out, s'). (Inr (respond_with (be_id b) r out), s'))
                    (broadcast_previewed b approver auth r results s)) })"

section \<open>What reaches a terminal\<close>

lemma is_control_line_break: "is_line_break c \<Longrightarrow> is_control_char [c]"
  by (auto simp: is_line_break_def is_control_char_def)

lemma ascii_in_char:
  assumes "well_encoded s" "c \<in> set s" "is_ascii c" "\<not> is_cont_byte c"
  shows "[c] \<in> set (chars s)"
proof -
  have "c \<in> set (concat (chars s))" using assms(2) by simp
  then obtain ch where ch: "ch \<in> set (chars s)" "c \<in> set ch" by (auto simp del: concat_chars)
  obtain a as where a: "ch = a # as" using chars_tl_cont [OF ch(1)] by (cases ch) auto
  with chars_tl_cont [OF ch(1)] assms(4) have "c \<notin> set as" by (auto simp: list_all_iff)
  with ch(2) a have "a = c" by simp
  with assms(1,3) ch(1) a have "ch = [c]" by (auto simp: well_encoded_def list_all_iff)
  with ch(1) show ?thesis by simp
qed

lemma valid_command_is_one_line:
  assumes "validate_terminal_broadcast_request r = None" "well_encoded (bq_command r)"
  shows "split_completed_session_commands [] (broadcast_line r) = ([trim (bq_command r)], [])"
proof -
  have no_control: "\<not> list_ex is_control_char (chars (bq_command r))" "trim (bq_command r) \<noteq> []"
    using assms(1) by (auto simp: validate_terminal_broadcast_request_def split: if_splits)
  have breaks: "is_line_break (CHR 0x0D)" "is_ascii newline" "is_ascii (CHR 0x0D)" "\<not> is_cont_byte newline"
      "\<not> is_cont_byte (CHR 0x0D)"
    by code_simp+
  have "\<not> is_line_break c" if "c \<in> set (bq_command r)" for c
  proof
    assume c: "is_line_break c"
    then have "[c] \<in> set (chars (bq_command r))"
      using ascii_in_char [OF assms(2) that] breaks by (auto simp: is_line_break_def)
    with no_control(1) is_control_line_break [OF c] show False by (auto simp: list_ex_iff)
  qed
  then have "split_completed [] (bq_command r) = ([], bq_command r)"
    using split_plain [of "bq_command r" "[]"] by (simp add: list_all_iff)
  with no_control(2) breaks show ?thesis
    by (simp add: split_completed_session_commands_def broadcast_line_def split_completed_append)
qed

lemma line_passedI:
  assumes "authorize_command e n approver (session_input_of scope source target c force) s = Some (Inr (risk, agreed), s')"
  shows "line_passed e approver scope source target force c"
proof -
  have "authorize_lines e approver scope source target force n [c] s = Some (Inr [(c, risk)], s')"
    using assms by simp
  from authorize_lines_Inr [OF this] show ?thesis by simp
qed

lemma authorize_results_passed:
  assumes "authorize_results e approver scope r n xs s = Some (ys, s')"
  shows "length ys = length xs \<and> (\<forall>k < length xs. bx_host (ys ! k) = bx_host (xs ! k) \<and>
    bx_sent (ys ! k) = bx_sent (xs ! k) \<and>
    (bx_authorized (ys ! k) \<longrightarrow> line_passed e approver scope BROADCAST_SOURCE
       (bx_host (xs ! k), host_tags (de_targets e) (bx_host (xs ! k))) (bq_force r) (bq_command r)))"
  using assms
proof (induction xs arbitrary: n s ys)
  case (Cons x xs)
  show ?case
  proof (cases "bx_authorized x")
    case False
    with Cons.prems obtain zs where zs: "ys = x # zs" "authorize_results e approver scope r n xs s = Some (zs, s')"
      by auto
    with Cons.IH [OF zs(2)] False show ?thesis by (auto simp: nth_Cons split: nat.splits)
  next
    case True
    obtain res s1 where step: "authorize_command e n approver (broadcast_input scope (de_targets e) r (bx_host x)) s
        = Some (res, s1)"
      using True Cons.prems by (auto simp: bind_eq_Some_conv)
    with True Cons.prems obtain zs where zs: "authorize_results e approver scope r (n + 1) xs s1 = Some (zs, s')"
        "ys = (case res of
                 Inr (risk, agreed) \<Rightarrow> x\<lparr>bx_risk_level := risk, bx_approval_granted := agreed\<rparr>
               | Inl refused \<Rightarrow> x\<lparr>bx_authorized := False, bx_error := Some (BroadcastRefused refused)\<rparr>) # zs"
      by (auto simp: bind_eq_Some_conv)
    have "line_passed e approver scope BROADCAST_SOURCE (bx_host x, host_tags (de_targets e) (bx_host x))
        (bq_force r) (bq_command r)" if "res = Inr a" for a
      using line_passedI [of e n approver scope BROADCAST_SOURCE
          "(bx_host x, host_tags (de_targets e) (bx_host x))" "bq_command r" "bq_force r" s "fst a" "snd a" s1]
        step that by (simp add: broadcast_input_def)
    with Cons.IH [OF zs(1)] zs(2) show ?thesis
      by (cases res) (auto simp: nth_Cons split: nat.splits)
  qed
qed simp

lemma deliver_nth:
  assumes "deliver e text_of i r zs s = (ys, s')"
  shows "length ys = length zs \<and> (\<forall>k < length zs. case zs ! k of (x, known, accepted) \<Rightarrow>
    bx_authorized (ys ! k) = bx_authorized x \<and>
    (bx_sent (ys ! k) \<longrightarrow> bx_sent x \<or> bx_authorized x \<and> known \<and> accepted))"
  using assms
proof (induction zs arbitrary: s ys)
  case (Cons z zs)
  obtain x known accepted where z: "z = (x, known, accepted)" by (metis prod_cases3)
  from Cons.prems z obtain y s1 ws where ws: "deliver e text_of i r zs s1 = (ws, s')" "ys = y # ws"
      "bx_authorized y = bx_authorized x" "bx_sent y \<longrightarrow> bx_sent x \<or> bx_authorized x \<and> known \<and> accepted"
    by (auto simp: Let_def split: if_splits prod.splits)
  with Cons.IH [OF ws(1)] z show ?case by (auto simp: nth_Cons split: nat.splits)
qed simp

lemma preview_result:
  "preview_target ctx gate auth command force t endpoint = Some x \<Longrightarrow>
   bx_host x = bt_host t \<and> \<not> bx_sent x"
  by (auto simp: preview_target_def failed_def no_result_def Let_def
      split: option.splits if_splits sum.splits)

lemma preview_nth:
  assumes "preview_targets ctxs n gate auth r zs = Some xs"
  shows "length xs = length zs \<and> (\<forall>k < length zs. bx_host (xs ! k) = bt_host (fst (zs ! k)) \<and> \<not> bx_sent (xs ! k))"
  using assms
proof (induction zs arbitrary: n xs)
  case (Cons z zs)
  obtain t endpoint where z: "z = (t, endpoint)" by fastforce
  with Cons.prems obtain y ys where ys: "preview_target (ctxs n) gate auth (bq_command r) (bq_force r) t endpoint = Some y"
      "preview_targets ctxs (n + 1) gate auth r zs = Some ys" "xs = y # ys"
    by (auto simp: bind_eq_Some_conv)
  from preview_result [OF ys(1)] Cons.IH [OF ys(2)] ys(3) z show ?case
    by (auto simp: nth_Cons split: nat.splits)
qed simp

lemma previewed_unsent:
  assumes "terminal_broadcast_preview_results ctxs f parse_id registry auth r = Some xs"
  shows "length xs = length (bq_targets r) \<and>
    (\<forall>k < length (bq_targets r). bx_host (xs ! k) = bt_host (bq_targets r ! k) \<and> \<not> bx_sent (xs ! k))"
  using preview_nth [OF assms [unfolded terminal_broadcast_preview_results_def]]
  by (simp add: endpoints_of_def)

text \<open>What is known of a target that was sent the command.\<close>

definition target_reached ::
  "broadcast_env \<Rightarrow> approver \<Rightarrow> auth_context \<Rightarrow> broadcast_request \<Rightarrow> broadcast_target \<Rightarrow> bool" where
  "target_reached b approver auth r t \<longleftrightarrow>
     (\<exists>te. Option.bind (be_parse_id b (bt_terminal_id t)) (be_later b) = Some te \<and>
        te_principal te = ac_principal auth \<and> te_host te = bt_host t) \<and>
     line_passed (be_daemon b) approver (ac_scope auth) BROADCAST_SOURCE
       (bt_host t, host_tags (de_targets (be_daemon b)) (bt_host t)) (bq_force r) (bq_command r)"

lemma previewed_reaches:
  assumes "broadcast_previewed b approver auth r xs s = Some (ys, s')"
    and "length xs = length (bq_targets r)"
    and "\<forall>k < length (bq_targets r). bx_host (xs ! k) = bt_host (bq_targets r ! k) \<and> \<not> bx_sent (xs ! k)"
    and "k < length (bq_targets r)"
  shows "length ys = length xs \<and> (bx_sent (ys ! k) \<longrightarrow>
    target_reached b approver auth r (bq_targets r ! k) \<and>
    (bq_all_or_nothing r \<longrightarrow> list_all bx_authorized ys))"
proof -
  let ?e = "be_daemon b"
  obtain x1 s1 where limit: "reject_if_rate_limited ?e BROADCAST_SOURCE (rate_targets (de_targets ?e) xs)
      (bq_command r) s = (x1, s1)" by fastforce
  show ?thesis
  proof (cases x1)
    case (Some refused)
    with assms limit show ?thesis by (auto simp: broadcast_previewed_def Let_def split: if_splits)
  next
    case None
    obtain checked s2 where checked: "authorize_results ?e approver (ac_scope auth) r 0 xs s1 = Some (checked, s2)"
      using assms(1) limit None by (auto simp: broadcast_previewed_def Let_def)
    note passed = authorize_results_passed [OF checked]
    show ?thesis
    proof (cases "bq_all_or_nothing r \<and> \<not> list_all bx_authorized checked")
      case True
      with assms limit None checked passed show ?thesis
        by (auto simp: broadcast_previewed_def cancel_all_def failed_def Let_def split: if_splits)
    next
      case False
      define zs where "zs = zip checked (zip (map (\<lambda>(t, te). receiver auth t te)
          (zip (bq_targets r) (endpoints_of (be_parse_id b) (be_later b) r)))
        (map (be_accepted b) [0..<length (bq_targets r)]))"
      have out: "deliver ?e (be_text b) (be_id b) r zs s2 = (ys, s')"
        using assms(1) limit None checked False by (simp add: broadcast_previewed_def zs_def Let_def)
      have len: "length zs = length (bq_targets r)"
        using passed assms(2) by (simp add: zs_def endpoints_of_def)
      have at: "zs ! j = (checked ! j, receiver auth (bq_targets r ! j)
          (Option.bind (be_parse_id b (bt_terminal_id (bq_targets r ! j))) (be_later b)), be_accepted b j)"
        if "j < length (bq_targets r)" for j
        using that passed assms(2) by (simp add: zs_def endpoints_of_def)
      note delivered = deliver_nth [OF out, unfolded len]
      have "list_all bx_authorized ys" if "bq_all_or_nothing r"
        using False that delivered at passed assms(2) by (auto simp: list_all_length)
      moreover have "target_reached b approver auth r (bq_targets r ! k)" if sent: "bx_sent (ys ! k)"
      proof -
        let ?te = "Option.bind (be_parse_id b (bt_terminal_id (bq_targets r ! k))) (be_later b)"
        have checked_k: "\<not> bx_sent (checked ! k)" "bx_authorized (checked ! k) \<longrightarrow> line_passed ?e approver
            (ac_scope auth) BROADCAST_SOURCE (bt_host (bq_targets r ! k), host_tags (de_targets ?e)
            (bt_host (bq_targets r ! k))) (bq_force r) (bq_command r)"
          using passed assms(2,3,4) by auto
        have "bx_sent (ys ! k) \<longrightarrow> bx_sent (checked ! k) \<or> bx_authorized (checked ! k) \<and>
            receiver auth (bq_targets r ! k) ?te"
          using delivered assms(4) at [OF assms(4)] by fastforce
        with sent checked_k have "receiver auth (bq_targets r ! k) ?te"
            "line_passed ?e approver (ac_scope auth) BROADCAST_SOURCE (bt_host (bq_targets r ! k),
              host_tags (de_targets ?e) (bt_host (bq_targets r ! k))) (bq_force r) (bq_command r)" by auto
        then show ?thesis by (cases ?te) (simp_all add: target_reached_def receiver_def)
      qed
      ultimately show ?thesis using delivered assms(2) by simp
    qed
  qed
qed


section \<open>An example, and what passes\<close>

definition demo_terminal :: "nat \<Rightarrow> terminal_endpoint option" where
  "demo_terminal i =
     (if i \<in> {1, 2} then Some \<lparr>te_host = ''web'', te_tags = [], te_principal = ''agent''\<rparr> else None)"

definition demo_broadcasting :: "gate_file \<Rightarrow> (nat \<Rightarrow> bool) \<Rightarrow> broadcast_env" where
  "demo_broadcasting f accepted =
     \<lparr>be_daemon = quiet_daemon\<lparr>de_gate := f\<rparr>,
      be_preview = (\<lambda>_. demo_ctx\<lparr>ctx_config := Some [demo_host]\<rparr>),
      be_parse_id = (\<lambda>s. if s = ''a'' then Some 1 else if s = ''b'' then Some 2 else None),
      be_registry = demo_terminal, be_later = demo_terminal, be_accepted = accepted,
      be_text = (\<lambda>_. []), be_id = ''x''\<rparr>"

definition demo_broadcast :: broadcast_request where
  "demo_broadcast =
     \<lparr>bq_targets = [\<lparr>bt_terminal_id = ''a'', bt_host = ''web''\<rparr>, \<lparr>bt_terminal_id = ''b'', bt_host = ''web''\<rparr>],
      bq_command = ''ls (('', bq_force = True, bq_all_or_nothing = True\<rparr>"

definition demo_client :: auth_context where
  "demo_client = \<lparr>ac_scope = None, ac_principal = ''agent''\<rparr>"

lemma demo_broadcast_valid: "validate_terminal_broadcast_request demo_broadcast = None"
proof -
  have "length (bq_command demo_broadcast) = 5" by (simp add: demo_broadcast_def)
  then have "ensure_command_length (bq_command demo_broadcast) = None"
    by (simp add: ensure_command_length_def command_too_long_def MAX_COMMAND_BYTES_def)
  moreover have "trim ''ls (('' \<noteq> []" "\<not> list_ex is_control_char (chars ''ls ((''  )" by code_simp+
  ultimately show ?thesis
    by (simp add: validate_terminal_broadcast_request_def demo_broadcast_def
        MAX_TERMINAL_BROADCAST_TARGETS_def)
qed

definition previewed :: "str \<Rightarrow> broadcast_result" where
  "previewed i =
     \<lparr>bx_terminal_id = i, bx_host = ''web'', bx_risk_level = High, bx_requires_approval = False,
      bx_matched_policy = None, bx_authorized = True, bx_approval_granted = False, bx_sent = False,
      bx_error = None\<rparr>"

lemma demo_preview:
  assumes "f = NoFile \<or> f = Unreadable"
  shows "terminal_broadcast_preview_results (be_preview (demo_broadcasting f acc)) f
     (be_parse_id (demo_broadcasting f acc)) demo_terminal demo_client demo_broadcast =
     Some [previewed ''a'', previewed ''b'']"
proof -
  have gate: "gate_status f = None \<or> gate_status f = Some default_gate"
    using assms by (auto simp: gate_status_def)
  have "preview_target (demo_ctx\<lparr>ctx_config := Some [demo_host]\<rparr>) (gate_status f) demo_client ''ls (('' True
      \<lparr>bt_terminal_id = i, bt_host = ''web''\<rparr> (Some \<lparr>te_host = ''web'', te_tags = [], te_principal = ''agent''\<rparr>) =
      Some (previewed i)" for i
    using gate
    by (auto simp: preview_target_def demo_client_def check_daemon_scope_def default_gate_def
        gate_blocks_source_def effective_command_risk_def classify_effective_risk_def
        classify_with_user_rules_def check_approval_required_def demo_ctx_def demo_checks no_result_def
        previewed_def Let_def)
  then show ?thesis
    by (simp add: terminal_broadcast_preview_results_def endpoints_of_def demo_broadcasting_def
        demo_broadcast_def demo_terminal_def)
qed

lemma demo_authorize_broadcast:
  "authorize_command (quiet_daemon\<lparr>de_gate := f\<rparr>) n approver
     (broadcast_input None (Some [demo_host]) demo_broadcast ''web'') s = Some (Inr (High, False), s)"
proof -
  have source: "host_allows_source (Some [demo_host]) ''web'' BROADCAST_SOURCE"
    by (simp add: host_allows_source_def find_profile_def demo_host_def)
  show ?thesis
    using source
    by (simp add: authorize_command_def authorize_command_inner_def authorize_command_with_approval_def
        broadcast_input_def session_input_of_def demo_broadcast_def quiet_daemon_def demo_daemon_def
        demo_ctx_def demo_checks opt_or_def check_daemon_scope_def effective_command_risk_def
        classify_effective_risk_def classify_with_user_rules_def check_approval_required_def Let_def)
qed

lemma quiet_limits:
  "\<exists>s1. \<forall>ts c. reject_if_rate_limited (quiet_daemon\<lparr>de_gate := f\<rparr>) source ts c s = (None, s1)"
proof -
  have off: "\<not> enabled (limits (refresh_execution_limits (Some (default_limits\<lparr>enabled := False\<rparr>)) l))" for l
    by (auto simp: refresh_execution_limits_def apply_config_def)
  have "de_limits_file (quiet_daemon\<lparr>de_gate := f\<rparr>) = Some (default_limits\<lparr>enabled := False\<rparr>)"
    by (simp add: quiet_daemon_def)
  with off show ?thesis by (simp add: reject_if_rate_limited_def check_execution_batch_def)
qed

lemma previewed_simps:
  "bx_authorized (previewed i)" "bx_host (previewed i) = ''web''" "\<not> bx_sent (previewed i)"
  "(previewed i)\<lparr>bx_risk_level := High, bx_approval_granted := False\<rparr> = previewed i"
  by (simp_all add: previewed_def)

lemma demo_delivery:
  "map bx_sent (fst (deliver e text_of i r [(previewed x, True, a), (previewed y, True, b)] s)) = [a, b]"
  by (cases a; cases b) (simp_all add: previewed_simps Let_def split: prod.split)

lemma demo_previewed:
  "\<exists>ys s'. broadcast_previewed (demo_broadcasting f acc) approver demo_client demo_broadcast
      [previewed ''a'', previewed ''b''] s = Some (ys, s') \<and> map bx_sent ys = [acc 0, acc 1]"
proof -
  let ?b = "demo_broadcasting f acc" and ?e = "quiet_daemon\<lparr>de_gate := f\<rparr>"
  let ?checked = "[previewed ''a'', previewed ''b'']"
  have fields: "be_daemon ?b = ?e" "be_later ?b = demo_terminal" by (simp_all add: demo_broadcasting_def)
  have targets: "de_targets quiet_daemon = Some [demo_host]"
    by (simp add: quiet_daemon_def demo_daemon_def Let_def)
  obtain s1 where limit: "\<And>ts c. reject_if_rate_limited ?e BROADCAST_SOURCE ts c s = (None, s1)"
    using quiet_limits by blast
  have auth: "authorize_results ?e approver (ac_scope demo_client) demo_broadcast 0 ?checked s1 =
      Some (?checked, s1)"
    by (simp add: previewed_simps targets demo_client_def demo_authorize_broadcast)
  have receivers: "map (\<lambda>(t, te). receiver demo_client t te)
      (zip (bq_targets demo_broadcast) (endpoints_of (be_parse_id ?b) demo_terminal demo_broadcast)) = [True, True]"
    by (simp add: endpoints_of_def demo_broadcasting_def demo_broadcast_def demo_terminal_def receiver_def
        demo_client_def)
  have sends: "map (be_accepted ?b) [0..<length (bq_targets demo_broadcast)] = [acc 0, acc 1]"
    by (simp add: demo_broadcasting_def demo_broadcast_def upt_conv_Cons)
  have "broadcast_previewed ?b approver demo_client demo_broadcast ?checked s =
      Some (deliver ?e (be_text ?b) (be_id ?b) demo_broadcast
        [(previewed ''a'', True, acc 0), (previewed ''b'', True, acc 1)] s1)"
    unfolding broadcast_previewed_def Let_def fields limit prod.case option.case auth option.map receivers sends
    by (simp add: previewed_simps)
  with demo_delivery show ?thesis by (metis prod.collapse)
qed

lemma demo_broadcast_run:
  assumes "f = NoFile \<or> f = Unreadable"
  shows "\<exists>response s'. terminal_broadcast_run (demo_broadcasting f acc) approver demo_client demo_broadcast s =
      Some (Inr response, s') \<and> map bx_sent (bs_targets response) = [acc 0, acc 1]"
proof -
  let ?b = "demo_broadcasting f acc"
  have fields: "be_registry ?b = demo_terminal" "de_gate (be_daemon ?b) = f"
    by (simp_all add: demo_broadcasting_def)
  obtain ys s' where "broadcast_previewed ?b approver demo_client demo_broadcast
      [previewed ''a'', previewed ''b''] s = Some (ys, s')" "map bx_sent ys = [acc 0, acc 1]"
    using demo_previewed [of f acc approver s] by (elim exE conjE)
  then show ?thesis
    using demo_preview [OF assms, of acc]
    by (simp add: terminal_broadcast_run_def demo_broadcast_valid fields previewed_simps respond_with_def)
qed


text \<open>
  A gate file that cannot be read refuses every other command (\<open>GateUnreadable\<close>); a broadcast takes it
  for an open gate and is sent.
\<close>

lemma broadcast_passes_unreadable_gate:
  "\<exists>response s'. terminal_broadcast_run (demo_broadcasting Unreadable (\<lambda>_. True)) approver demo_client
      demo_broadcast s = Some (Inr response, s') \<and> map bx_sent (bs_targets response) = [True, True]"
  "fst (reject_if_gate_paused (be_daemon (demo_broadcasting Unreadable (\<lambda>_. True))) BROADCAST_SOURCE host command s)
     = Some GateUnreadable"
proof -
  show "\<exists>response s'. terminal_broadcast_run (demo_broadcasting Unreadable (\<lambda>_. True)) approver demo_client
      demo_broadcast s = Some (Inr response, s') \<and> map bx_sent (bs_targets response) = [True, True]"
    by (rule demo_broadcast_run) simp
  have "de_gate (be_daemon (demo_broadcasting Unreadable (\<lambda>_. True))) = Unreadable"
    by (simp add: demo_broadcasting_def)
  then show "fst (reject_if_gate_paused (be_daemon (demo_broadcasting Unreadable (\<lambda>_. True))) BROADCAST_SOURCE
      host command s) = Some GateUnreadable"
    by (simp add: reject_if_gate_paused_def)
qed

text \<open>All or nothing holds for the authorization: a terminal that is lost at the send does not stop the others.\<close>

lemma all_or_nothing_sends_to_some:
  "\<exists>response s'. terminal_broadcast_run (demo_broadcasting NoFile (\<lambda>k. k = 0)) approver demo_client
      demo_broadcast s = Some (Inr response, s') \<and> map bx_sent (bs_targets response) = [True, False]"
  "bq_all_or_nothing demo_broadcast"
proof -
  obtain response s' where "terminal_broadcast_run (demo_broadcasting NoFile (\<lambda>k. k = 0)) approver demo_client
      demo_broadcast s = Some (Inr response, s')" "map bx_sent (bs_targets response) = [0 = (0 :: nat), 1 = (0 :: nat)]"
    using demo_broadcast_run [OF disjI1 [OF refl], of "\<lambda>k. k = 0" approver s] by (elim exE conjE)
  then show "\<exists>response s'. terminal_broadcast_run (demo_broadcasting NoFile (\<lambda>k. k = 0)) approver demo_client
      demo_broadcast s = Some (Inr response, s') \<and> map bx_sent (bs_targets response) = [True, False]"
    by (intro exI [of _ response] exI [of _ s']) simp
qed (simp add: demo_broadcast_def)

end
