(* ===== verification/Local_Environments.thy ===== *)
theory Local_Environments
  imports Risk_Classify Host_Config Unix_Path
begin

text \<open>
  The shells of this machine and the environments a local command can run in: \<open>shell_list.rs\<close> (the scan
  for installed shells), the names of \<open>local_exec.rs\<close> (\<open>LocalEnvironment\<close>) and \<open>container_runtime.rs\<close>,
  and \<open>local_environments.rs\<close> (the environments that \<open>environments.toml\<close> defines, their validation and
  the registry of the process). The machine is a record: which files and directories exist, the
  variables of the process, the platform. The reader of TOML is a parameter; a panic of the classifier
  is \<open>None\<close>.
\<close>

section \<open>The machine\<close>

text \<open>
  The variables are a map from keys: names are compared without case on Windows. \<open>mc_path\<close> are the
  directories of \<open>PATH\<close>.
\<close>

record machine =
  mc_windows :: bool
  mc_macos :: bool
  mc_arch :: str
  mc_is_file :: "str \<Rightarrow> bool"
  mc_is_dir :: "str \<Rightarrow> bool"
  mc_is_executable :: "str \<Rightarrow> bool"
  mc_vars :: "str \<rightharpoonup> str"
  mc_path :: "str list"
  mc_etc_shells :: "str option"
  mc_home :: "str option"
  mc_vswhere :: "str \<Rightarrow> str option"

definition env_key :: "bool \<Rightarrow> str \<Rightarrow> str" where
  "env_key windows name = (if windows then to_lowercase name else name)"

definition env_var :: "machine \<Rightarrow> str \<Rightarrow> str option" where
  "env_var m name = mc_vars m (env_key (mc_windows m) name)"

section \<open>Paths\<close>

text \<open>
  \<open>Path\<close> on both platforms, as far as it is used here. A drive is the only prefix of a Windows path
  that is told from its components.
\<close>

definition has_drive :: "str \<Rightarrow> bool" where
  "has_drive p \<longleftrightarrow>
     (case p of c # d # _ \<Rightarrow> d = CHR '':'' \<and> is_ascii c \<and> (is_ascii_upper c \<or> is_ascii_lower c) | _ \<Rightarrow> False)"

definition slashes :: "str \<Rightarrow> str" where
  "slashes p = map (\<lambda>c. if c = bslash then CHR ''/'' else c) p"

definition path_components :: "bool \<Rightarrow> str \<Rightarrow> str list" where
  "path_components windows p =
     snd (components (if windows then slashes (if has_drive p then drop 2 p else p) else p))"

definition path_file_name :: "bool \<Rightarrow> str \<Rightarrow> str option" where
  "path_file_name windows p =
     (case rev (path_components windows p) of
        [] \<Rightarrow> None
      | c # _ \<Rightarrow> if c = ''.'' \<or> c = ''..'' then None else Some c)"

definition path_is_absolute :: "bool \<Rightarrow> str \<Rightarrow> bool" where
  "path_is_absolute windows p =
     (if windows then
        has_drive p \<and> starts_with (slashes (drop 2 p)) ''/'' \<or> starts_with (slashes p) ''//''
      else is_absolute p)"

definition path_join :: "bool \<Rightarrow> str \<Rightarrow> str \<Rightarrow> str" where
  "path_join windows base p =
     (if path_is_absolute windows p then p
      else if windows then
        (if has_drive p then p
         else if starts_with (slashes p) ''/'' then (if has_drive base then take 2 base else []) @ p
         else if base = [] \<or> last base \<in> {CHR ''/'', bslash} \<or> has_drive base \<and> length base = 2 then base @ p
         else base @ [bslash] @ p)
      else join_path base p)"

section \<open>Shells\<close>

datatype shell_family = Posix | CmdFamily | PowerShell

record shell_info =
  sh_name :: str
  sh_path :: str
  sh_family :: shell_family

definition UNIX_SHELLS :: "(str \<times> shell_family) list" where
  "UNIX_SHELLS =
     [(''bash'', Posix), (''zsh'', Posix), (''fish'', Posix), (''sh'', Posix), (''dash'', Posix),
      (''ksh'', Posix), (''tcsh'', Posix), (''csh'', Posix), (''pwsh'', PowerShell),
      (''pwsh-preview'', PowerShell)]"

definition WINDOWS_SHELLS :: "(str \<times> shell_family) list" where
  "WINDOWS_SHELLS =
     [(''pwsh.exe'', PowerShell), (''powershell.exe'', PowerShell), (''cmd.exe'', CmdFamily),
      (''bash.exe'', Posix), (''wsl.exe'', Posix)]"

definition find_shell :: "machine \<Rightarrow> str \<Rightarrow> str option" where
  "find_shell m name =
     find_map (\<lambda>dir.
         let candidate = path_join (mc_windows m) dir name;
             with_exe = path_join (mc_windows m) dir (name @ ''.exe'')
         in if mc_is_file m candidate then Some candidate
            else if mc_windows m \<and> \<not> ends_with name ''.exe'' \<and> mc_is_file m with_exe then Some with_exe
            else None)
       (mc_path m)"

definition parse_etc_shells :: "machine \<Rightarrow> str list" where
  "parse_etc_shells m =
     (case mc_etc_shells m of
        None \<Rightarrow> []
      | Some content \<Rightarrow>
          map trim (filter (\<lambda>line. \<not> starts_with line ''#'' \<and> trim line \<noteq> []) (str_lines content)))"

definition pretty_name :: "str \<Rightarrow> str \<Rightarrow> str" where
  "pretty_name name path =
     (let lower = to_lowercase name
      in if lower \<in> {''pwsh'', ''pwsh.exe'', ''pwsh-preview''} then ''PowerShell 7''
         else if lower = ''powershell.exe'' then ''Windows PowerShell''
         else if lower = ''cmd.exe'' then ''Command Prompt''
         else if lower \<in> {''bash'', ''bash.exe''} then
           (if contains (to_lowercase path) ''git'' then ''Git Bash'' else ''Bash'')
         else if lower = ''zsh'' then ''Zsh''
         else if lower = ''fish'' then ''Fish''
         else if lower = ''sh'' then ''POSIX Shell''
         else if lower = ''dash'' then ''Dash''
         else if lower = ''ksh'' then ''KornShell''
         else if lower = ''tcsh'' then ''TC Shell''
         else if lower = ''csh'' then ''C Shell''
         else if lower = ''wsl.exe'' then ''WSL''
         else name)"

definition add_shell :: "shell_info list \<Rightarrow> shell_info \<Rightarrow> shell_info list" where
  "add_shell shells s = (if list_ex (\<lambda>t. sh_path t = sh_path s) shells then shells else shells @ [s])"

definition shell_at :: "machine \<Rightarrow> str \<Rightarrow> shell_family \<Rightarrow> shell_info" where
  "shell_at m path family =
     \<lparr>sh_name = (case path_file_name (mc_windows m) path of Some n \<Rightarrow> n | None \<Rightarrow> path),
      sh_path = path, sh_family = family\<rparr>"

definition list_shells :: "machine \<Rightarrow> shell_info list" where
  "list_shells m =
     (let scanned = foldl (\<lambda>shells (name, family).
              case find_shell m name of
                None \<Rightarrow> shells
              | Some path \<Rightarrow>
                  add_shell shells \<lparr>sh_name = pretty_name name path, sh_path = path, sh_family = family\<rparr>)
            [] (if mc_windows m then WINDOWS_SHELLS else UNIX_SHELLS);
          shells = (if mc_windows m then scanned
            else foldl (\<lambda>shells path. if mc_is_file m path then add_shell shells (shell_at m path Posix) else shells)
              scanned (parse_etc_shells m))
      in if shells \<noteq> [] then shells
         else if mc_windows m then
           (case env_var m ''SystemRoot'' of
              None \<Rightarrow> []
            | Some root \<Rightarrow> [\<lparr>sh_name = ''Command Prompt'',
                sh_path = root @ [bslash] @ ''System32'' @ [bslash] @ ''cmd.exe'', sh_family = CmdFamily\<rparr>])
         else (case env_var m ''SHELL'' of
              None \<Rightarrow> []
            | Some shell \<Rightarrow> if shell = [] then [] else [shell_at m shell Posix]))"

definition default_shell :: "machine \<Rightarrow> shell_info option" where
  "default_shell m =
     (let shells = list_shells m;
          preferred = (if mc_windows m then List.find (\<lambda>s. sh_family s = PowerShell) shells
            else (case env_var m ''SHELL'' of
                    None \<Rightarrow> None
                  | Some v \<Rightarrow> List.find (\<lambda>s. sh_path s = v) shells))
      in case preferred of
           Some s \<Rightarrow> Some s
         | None \<Rightarrow> (case shells of [] \<Rightarrow> None | s # _ \<Rightarrow> Some s))"

section \<open>Names\<close>

datatype local_environment = Default | Pwsh | Cmd | GitBash | VsDevShell | Wsl

fun environment_id :: "local_environment \<Rightarrow> str" where
  "environment_id Default = ''local''"
| "environment_id Pwsh = ''pwsh''"
| "environment_id Cmd = ''cmd''"
| "environment_id GitBash = ''gitbash''"
| "environment_id VsDevShell = ''vs''"
| "environment_id Wsl = ''wsl''"

definition environment_from_id :: "str \<Rightarrow> local_environment option" where
  "environment_from_id i =
     (let name = to_lowercase (trim i)
      in if name \<in> {''pwsh'', ''powershell''} then Some Pwsh
         else if name = ''cmd'' then Some Cmd
         else if name \<in> {''gitbash'', ''bash''} then Some GitBash
         else if name \<in> {''vs'', ''vsdev''} then Some VsDevShell
         else if name = ''wsl'' then Some Wsl
         else None)"

fun is_bash_compatible :: "local_environment \<Rightarrow> bool" where
  "is_bash_compatible e = (e \<in> {Default, GitBash, Wsl})"

datatype container_runtime = Docker | Wslc | Apple

fun runtime_id :: "container_runtime \<Rightarrow> str" where
  "runtime_id Docker = ''docker''"
| "runtime_id Wslc = ''wslc''"
| "runtime_id Apple = ''apple''"

definition runtime_from_id :: "str \<Rightarrow> container_runtime option" where
  "runtime_from_id i = List.find (\<lambda>rt. runtime_id rt = to_lowercase (trim i)) [Docker, Wslc, Apple]"

definition is_reserved_id :: "str \<Rightarrow> bool" where
  "is_reserved_id i =
     (let folded = to_lowercase (trim i)
      in environment_from_id folded \<noteq> None \<or> runtime_from_id folded \<noteq> None \<or> folded \<in> {''local'', ''default''})"

section \<open>Definitions of environments\<close>

definition DEPTH_ENV :: str where
  "DEPTH_ENV = ''AGENT2SSH_LOCAL_EXEC_DEPTH''"

definition MAX_ID_LEN :: nat where "MAX_ID_LEN = 32"
definition MAX_ENV_VARS :: nat where "MAX_ENV_VARS = 64"
definition MAX_ENV_VALUE_LEN :: nat where "MAX_ENV_VALUE_LEN = 8 * 1024"
definition MAX_PRELUDE_LEN :: nat where "MAX_PRELUDE_LEN = 4 * 1024"

record raw_environment =
  re_id :: str
  re_description :: "str option"
  re_base :: "str option"
  re_distro :: "str option"
  re_cwd :: "str option"
  re_prelude :: "str option"
  re_env :: "(str \<times> str) list"

record custom_environment =
  ce_id :: str
  ce_description :: "str option"
  ce_base :: local_environment
  ce_distro :: "str option"
  ce_cwd :: "str option"
  ce_prelude :: "str option"
  ce_env :: "(str \<times> str) list"

datatype environment_error =
    InvalidId str
  | ReservedId str
  | UnknownBase str
  | DistroWithoutWsl
  | InvalidDistro str
  | TooManyVariables
  | WslVariables
  | InvalidVariable str
  | ReservedVariable str
  | InvalidValue str
  | EmptyCwd
  | NoHome
  | RelativeCwd str
  | EmptyPrelude
  | LongPrelude
  | MultiLinePrelude
  | RiskyPrelude risk_level
  | DuplicateId

definition id_char :: "char \<Rightarrow> bool" where
  "id_char c \<longleftrightarrow> is_ascii_lower c \<or> is_ascii_digit c"

definition validate_id :: "str \<Rightarrow> environment_error option" where
  "validate_id i =
     (if i = [] \<or> length i > MAX_ID_LEN \<or> \<not> id_char (hd i) \<or>
         \<not> list_all (\<lambda>c. id_char c \<or> c \<in> {CHR ''-'', CHR ''_''}) i then Some (InvalidId i)
      else if is_reserved_id i then Some (ReservedId i)
      else None)"

definition validate_env_name :: "str \<Rightarrow> environment_error option" where
  "validate_env_name name =
     (if name = [] \<or> is_ascii_digit (hd name) \<or>
         \<not> list_all (\<lambda>c. is_ascii_alphanumeric c \<or> c = CHR ''_'') name then Some (InvalidVariable name)
      else if eq_ignore_ascii_case name DEPTH_ENV then Some (ReservedVariable name)
      else None)"

definition container_char :: "char \<Rightarrow> bool" where
  "container_char c \<longleftrightarrow> is_ascii_alphanumeric c \<or> c \<in> {CHR ''.'', CHR ''_'', CHR ''-''}"

definition validate_distro :: "str \<Rightarrow> environment_error option" where
  "validate_distro d =
     (if d \<noteq> [] \<and> \<not> starts_with d ''-'' \<and> list_all container_char d then None else Some (InvalidDistro d))"

definition expand_cwd :: "machine \<Rightarrow> str \<Rightarrow> environment_error + str" where
  "expand_cwd m cwd =
     (if CHR 0x00 \<in> set cwd \<or> trim cwd = [] then Inl EmptyCwd
      else
        let in_home = (case strip_prefix cwd ''~/'' of
              Some rest \<Rightarrow> Some rest
            | None \<Rightarrow> strip_prefix cwd (CHR ''~'' # [bslash]))
        in case in_home of
             Some rest \<Rightarrow>
               (case mc_home m of
                  None \<Rightarrow> Inl NoHome
                | Some home \<Rightarrow>
                    let path = path_join (mc_windows m) home rest
                    in if path_is_absolute (mc_windows m) path then Inr path else Inl (RelativeCwd cwd))
           | None \<Rightarrow> if path_is_absolute (mc_windows m) cwd then Inr cwd else Inl (RelativeCwd cwd))"

definition classifier_understands :: "machine \<Rightarrow> local_environment \<Rightarrow> bool" where
  "classifier_understands m base =
     (case base of
        GitBash \<Rightarrow> True
      | Wsl \<Rightarrow> True
      | Default \<Rightarrow> \<not> mc_windows m
      | _ \<Rightarrow> False)"

definition validate_prelude ::
  "parser \<Rightarrow> machine \<Rightarrow> str \<Rightarrow> local_environment \<Rightarrow> (environment_error + str) option" where
  "validate_prelude parse m text_in base =
     (let prelude = trim text_in
      in if prelude = [] then Some (Inl EmptyPrelude)
         else if length prelude > MAX_PRELUDE_LEN then Some (Inl LongPrelude)
         else if list_ex (\<lambda>c. c \<in> {newline, CHR 0x0D, CHR 0x00}) prelude then Some (Inl MultiLinePrelude)
         else if \<not> classifier_understands m base then Some (Inr prelude)
         else map_option (\<lambda>risk. if risk \<in> {High, Blocked} then Inl (RiskyPrelude risk) else Inr prelude)
           (classify_risk parse prelude))"

definition validate_base :: "str option \<Rightarrow> environment_error + local_environment" where
  "validate_base written =
     (case map_option (\<lambda>b. to_lowercase (trim b)) written of
        None \<Rightarrow> Inr Default
      | Some base \<Rightarrow>
          if base = ''default'' then Inr Default
          else case environment_from_id base of None \<Rightarrow> Inl (UnknownBase base) | Some e \<Rightarrow> Inr e)"

definition validate_value :: "str \<times> str \<Rightarrow> environment_error option" where
  "validate_value nv =
     (case nv of (name, v) \<Rightarrow>
        (case validate_env_name name of
           Some e \<Rightarrow> Some e
         | None \<Rightarrow> if CHR 0x00 \<in> set v \<or> length v > MAX_ENV_VALUE_LEN then Some (InvalidValue name) else None))"

text \<open>The checks in front of the prelude, in their order.\<close>

definition validate_fields ::
  "machine \<Rightarrow> raw_environment \<Rightarrow> environment_error + custom_environment" where
  "validate_fields m raw =
     (case validate_id (re_id raw) of
        Some e \<Rightarrow> Inl e
      | None \<Rightarrow> (case validate_base (re_base raw) of
        Inl e \<Rightarrow> Inl e
      | Inr base \<Rightarrow>
          (case (case re_distro raw of
                   None \<Rightarrow> None
                 | Some d \<Rightarrow> if base \<noteq> Wsl then Some DistroWithoutWsl else validate_distro d) of
             Some e \<Rightarrow> Inl e
           | None \<Rightarrow>
               if length (re_env raw) > MAX_ENV_VARS then Inl TooManyVariables
               else if base = Wsl \<and> re_env raw \<noteq> [] then Inl WslVariables
               else (case find_map validate_value (re_env raw) of
                 Some e \<Rightarrow> Inl e
               | None \<Rightarrow>
                   map_sum id (\<lambda>cwd.
                       \<lparr>ce_id = re_id raw, ce_description = re_description raw, ce_base = base,
                        ce_distro = re_distro raw, ce_cwd = cwd, ce_prelude = None, ce_env = re_env raw\<rparr>)
                     (case re_cwd raw of
                        None \<Rightarrow> Inr None
                      | Some cwd \<Rightarrow> map_sum id Some (expand_cwd m cwd))))))"

definition validate ::
  "parser \<Rightarrow> machine \<Rightarrow> raw_environment \<Rightarrow> (environment_error + custom_environment) option" where
  "validate parse m raw =
     (case validate_fields m raw of
        Inl e \<Rightarrow> Some (Inl e)
      | Inr e \<Rightarrow>
          (case re_prelude raw of
             None \<Rightarrow> Some (Inr e)
           | Some p \<Rightarrow>
               map_option (map_sum id (\<lambda>prelude. e\<lparr>ce_prelude := Some prelude\<rparr>))
                 (validate_prelude parse m p (ce_base e))))"

section \<open>The registry\<close>

record environment_registry =
  er_environments :: "custom_environment list"
  er_rejected :: "(str \<times> environment_error) list"
  er_load_error :: "str option"

definition empty_registry :: environment_registry where
  "empty_registry = \<lparr>er_environments = [], er_rejected = [], er_load_error = None\<rparr>"

definition add_definition ::
  "parser \<Rightarrow> machine \<Rightarrow> environment_registry \<Rightarrow> raw_environment \<Rightarrow> environment_registry option" where
  "add_definition parse m reg raw =
     map_option (\<lambda>v.
         case v of
           Inl reason \<Rightarrow> reg\<lparr>er_rejected := er_rejected reg @ [(re_id raw, reason)]\<rparr>
         | Inr e \<Rightarrow>
             if ce_id e \<in> set (map ce_id (er_environments reg)) then
               reg\<lparr>er_rejected := er_rejected reg @ [(re_id raw, DuplicateId)]\<rparr>
             else reg\<lparr>er_environments := er_environments reg @ [e]\<rparr>)
       (validate parse m raw)"

definition parse_registry ::
  "(str \<Rightarrow> str + raw_environment list) \<Rightarrow> parser \<Rightarrow> machine \<Rightarrow> str \<Rightarrow> environment_registry option" where
  "parse_registry toml parse m content =
     (case toml content of
        Inl e \<Rightarrow> Some (empty_registry\<lparr>er_load_error := Some e\<rparr>)
      | Inr raws \<Rightarrow> foldM (add_definition parse m) empty_registry raws)"

definition get_environment :: "environment_registry \<Rightarrow> str \<Rightarrow> custom_environment option" where
  "get_environment reg i = List.find (\<lambda>e. ce_id e = i) (er_environments reg)"

definition rejection :: "environment_registry \<Rightarrow> str \<Rightarrow> environment_error option" where
  "rejection reg i = map_option snd (List.find (\<lambda>r. fst r = i) (er_rejected reg))"

text \<open>\<open>environments.toml\<close> as it is found, and the slot of the process.\<close>

datatype environments_file = NoConfigDir str | NoDefinitions | UnreadableDefinitions str | Definitions str

definition read_from_disk ::
  "(str \<Rightarrow> str + raw_environment list) \<Rightarrow> parser \<Rightarrow> machine \<Rightarrow> environments_file \<Rightarrow> environment_registry option" where
  "read_from_disk toml parse m f =
     (case f of
        NoConfigDir e \<Rightarrow> Some (empty_registry\<lparr>er_load_error := Some e\<rparr>)
      | NoDefinitions \<Rightarrow> Some empty_registry
      | UnreadableDefinitions e \<Rightarrow> Some (empty_registry\<lparr>er_load_error := Some e\<rparr>)
      | Definitions content \<Rightarrow> parse_registry toml parse m content)"

definition current_registry ::
  "environment_registry option \<Rightarrow> environment_registry option \<Rightarrow>
   (environment_registry \<times> environment_registry option) option" where
  "current_registry read slot =
     (case slot of
        Some reg \<Rightarrow> Some (reg, slot)
      | None \<Rightarrow> map_option (\<lambda>reg. (reg, Some reg)) read)"

definition reload_registry ::
  "environment_registry option \<Rightarrow> environment_registry option \<Rightarrow>
   (environment_registry \<times> environment_registry option) option" where
  "reload_registry read slot = map_option (\<lambda>reg. (reg, Some reg)) read"

end
