(* ===== verification/Local_Plan.thy ===== *)
theory Local_Plan
  imports Local_Environments Exec_Core
begin

text \<open>
  \<open>local_exec.rs\<close> up to the process: the environment a host id names, the plan for entering it, the
  command line that is spawned and the guard against nested executions. The spawned process is the
  value of \<open>spawn\<close>; what it prints is the transport of \<open>Exec_Core\<close>.
  \<open>path_resolver.rs\<close> finds the binary of a container runtime.
\<close>

section \<open>The guard against nested executions\<close>

definition MAX_LOCAL_EXEC_DEPTH :: nat where
  "MAX_LOCAL_EXEC_DEPTH = 1"

definition depth_from :: "str option \<Rightarrow> nat" where
  "depth_from v =
     (case v of
        None \<Rightarrow> 0
      | Some raw \<Rightarrow> (case from_str_radix 32 10 (trim raw) of None \<Rightarrow> 0 | Some n \<Rightarrow> n))"

definition current_exec_depth :: "machine \<Rightarrow> nat" where
  "current_exec_depth m = depth_from (env_var m DEPTH_ENV)"

text \<open>The depth of a child, or the depth at which this process refuses to start one.\<close>

definition check_exec_depth :: "machine \<Rightarrow> nat + nat" where
  "check_exec_depth m =
     (let depth = current_exec_depth m
      in if depth \<ge> MAX_LOCAL_EXEC_DEPTH then Inl depth else Inr (depth + 1))"

section \<open>The shell of plain local\<close>

definition SHELL_ENV :: str where
  "SHELL_ENV = ''AGENT2SSH_LOCAL_SHELL''"

definition file_stem_lower :: "machine \<Rightarrow> str \<Rightarrow> str" where
  "file_stem_lower m path =
     (let name = to_lowercase (case path_file_name (mc_windows m) path of None \<Rightarrow> [] | Some n \<Rightarrow> n)
      in case strip_suffix name ''.exe'' of None \<Rightarrow> name | Some stem \<Rightarrow> stem)"

definition family_for :: "machine \<Rightarrow> str \<Rightarrow> shell_family" where
  "family_for m path =
     (let stem = file_stem_lower m path
      in if stem \<in> {''pwsh'', ''pwsh-preview'', ''powershell''} then PowerShell
         else if stem = ''cmd'' then CmdFamily
         else Posix)"

definition shell_override :: "machine \<Rightarrow> str option" where
  "shell_override m =
     (case env_var m SHELL_ENV of
        None \<Rightarrow> None
      | Some raw \<Rightarrow> if trim raw = [] then None else Some (trim raw))"

text \<open>Two paths are the same when they have the same components; on Windows a drive is one of them.\<close>

definition paths_equal :: "machine \<Rightarrow> str \<Rightarrow> str \<Rightarrow> bool" where
  "paths_equal m p q \<longleftrightarrow>
     (if mc_windows m then
        path_components True p = path_components True q \<and> has_drive p = has_drive q \<and>
        (has_drive p \<longrightarrow> eq_ignore_ascii_case (take 1 p) (take 1 q)) \<and>
        path_is_absolute True p = path_is_absolute True q
      else same_path p q)"

definition describe_shell :: "machine \<Rightarrow> str \<Rightarrow> shell_info list \<Rightarrow> shell_info" where
  "describe_shell m requested installed =
     (case List.find (\<lambda>s. paths_equal m (sh_path s) requested \<or>
               file_stem_lower m (sh_path s) = file_stem_lower m requested) installed of
        Some found \<Rightarrow> found
      | None \<Rightarrow>
          \<lparr>sh_name = (case path_file_name (mc_windows m) requested of None \<Rightarrow> ''shell'' | Some n \<Rightarrow> n),
           sh_path = requested, sh_family = family_for m requested\<rparr>)"

definition platform_fallback :: "machine \<Rightarrow> str" where
  "platform_fallback m = (if mc_windows m then ''cmd.exe'' else ''/bin/sh'')"

definition resolve_shell :: "machine \<Rightarrow> shell_info" where
  "resolve_shell m =
     (case shell_override m of
        Some requested \<Rightarrow> describe_shell m requested (list_shells m)
      | None \<Rightarrow>
          (case default_shell m of
             Some s \<Rightarrow> s
           | None \<Rightarrow> describe_shell m (platform_fallback m) []))"

section \<open>What a host id names\<close>

record environment_request =
  eq_environment :: local_environment
  eq_distro :: "str option"

datatype plan_error =
    UnknownEnvironment str
  | NamesNoDistribution
  | TakesNoArgument str str
  | InvalidContainer str
  | RuntimeNotInstalled container_runtime
  | NotAShell str
  | ShellNotFound local_environment
  | DevShellNotFound
  | DevShellNeedsPowerShell
  | BaseUnusable str local_environment plan_error
  | NoSuchDirectory str str
  | RejectedDefinition str environment_error
  | Annotated plan_error "str list" "str option"

definition plain_request :: "local_environment \<Rightarrow> environment_request" where
  "plain_request e = \<lparr>eq_environment = e, eq_distro = None\<rparr>"

definition colon :: str where "colon = '':''"

definition environment_for_host :: "str \<Rightarrow> plan_error + environment_request" where
  "environment_for_host host =
     (case strip_prefix host LOCAL_ENV_PREFIX of
        None \<Rightarrow> Inr (plain_request Default)
      | Some i \<Rightarrow>
          let name = (case split_once colon i of None \<Rightarrow> i | Some (k, _) \<Rightarrow> k);
              argument = map_option snd (split_once colon i)
          in case environment_from_id name of
               None \<Rightarrow> Inl (UnknownEnvironment name)
             | Some e \<Rightarrow>
                 (case argument of
                    None \<Rightarrow> Inr (plain_request e)
                  | Some a \<Rightarrow>
                      if e = Wsl then
                        (if a = [] then Inl NamesNoDistribution
                         else Inr \<lparr>eq_environment = e, eq_distro = Some a\<rparr>)
                      else Inl (TakesNoArgument (environment_id e) a)))"

section \<open>Plans\<close>

datatype command_style = PosixDashC | CmdSlashC | PowerShellCommand | WslLoginShell

fun style_for_family :: "shell_family \<Rightarrow> command_style" where
  "style_for_family Posix = PosixDashC"
| "style_for_family CmdFamily = CmdSlashC"
| "style_for_family PowerShell = PowerShellCommand"

definition classifier_reads_this_language :: "command_style \<Rightarrow> bool" where
  "classifier_reads_this_language s \<longleftrightarrow> s \<in> {PosixDashC, WslLoginShell}"

definition prelude_separator :: "command_style \<Rightarrow> str" where
  "prelude_separator s = (if s = CmdSlashC then '' && '' else ''; '')"

definition CONTAINER_SHELL :: str where "CONTAINER_SHELL = ''/bin/sh''"
definition WSL_SHELL :: str where "WSL_SHELL = ''sh''"

text \<open>The flags of a style, and whether the command is still to be appended as it is.\<close>

fun invocation :: "command_style \<Rightarrow> str \<Rightarrow> str list \<times> bool" where
  "invocation PosixDashC command = ([''-c'', command], False)"
| "invocation CmdSlashC command = ([''/D'', ''/C''], True)"
| "invocation PowerShellCommand command =
     ([''-NoLogo'', ''-NoProfile'', ''-NonInteractive'', ''-Command'', command], False)"
| "invocation WslLoginShell command = ([''--shell-type'', ''login'', WSL_SHELL, ''-c'', command], False)"

record environment_plan =
  ep_program :: str
  ep_prefix :: "str list"
  ep_style :: command_style
  ep_prelude :: "str option"
  ep_forwards_stdin :: bool
  ep_label :: str
  ep_env :: "(str \<times> str) list"
  ep_cwd :: "str option"

definition risk_is_classifiable :: "environment_plan \<Rightarrow> bool" where
  "risk_is_classifiable p = classifier_reads_this_language (ep_style p)"

definition plain_plan :: "shell_info \<Rightarrow> environment_plan" where
  "plain_plan s =
     \<lparr>ep_program = sh_path s, ep_prefix = [], ep_style = style_for_family (sh_family s), ep_prelude = None,
      ep_forwards_stdin = True, ep_label = sh_name s, ep_env = [], ep_cwd = None\<rparr>"

definition shell_with_stem :: "machine \<Rightarrow> shell_info list \<Rightarrow> str list \<Rightarrow> shell_info option" where
  "shell_with_stem m installed stems =
     find_map (\<lambda>stem. List.find (\<lambda>s. file_stem_lower m (sh_path s) = stem) installed) stems"

definition git_bash :: "machine \<Rightarrow> shell_info list \<Rightarrow> shell_info option" where
  "git_bash m installed =
     (case List.find (\<lambda>s. file_stem_lower m (sh_path s) = ''bash'' \<and>
               contains (to_lowercase (sh_path s)) ''git'') installed of
        Some s \<Rightarrow> Some s
      | None \<Rightarrow> shell_with_stem m installed [''bash''])"

definition powershells :: "str list" where
  "powershells = [''pwsh'', ''pwsh-preview'', ''powershell'']"

definition msvc_arch :: "machine \<Rightarrow> str" where
  "msvc_arch m =
     (if mc_arch m = ''x86_64'' then ''x64''
      else if mc_arch m = ''aarch64'' then ''arm64''
      else mc_arch m)"

definition dev_shell_in :: "machine \<Rightarrow> str \<Rightarrow> str option" where
  "dev_shell_in m install =
     (let script = foldl (path_join True) install [''Common7'', ''Tools'', ''Launch-VsDevShell.ps1'']
      in if mc_is_file m script then Some script else None)"

text \<open>\<open>mc_vswhere\<close> is what a successful run of the program at that path prints.\<close>

definition vs_install_path :: "machine \<Rightarrow> str \<Rightarrow> str option" where
  "vs_install_path m root =
     (let vswhere = foldl (path_join True) root [''Installer'', ''vswhere.exe'']
      in if \<not> mc_is_file m vswhere then None
         else case mc_vswhere m vswhere of
           None \<Rightarrow> None
         | Some out \<Rightarrow> if trim out = [] then None else Some (trim out))"

definition find_vs_dev_shell_script :: "machine \<Rightarrow> str option" where
  "find_vs_dev_shell_script m =
     (if \<not> mc_windows m then None
      else case env_var m ''ProgramFiles(x86)'' of
        None \<Rightarrow> None
      | Some files \<Rightarrow>
          let root = path_join True files ''Microsoft Visual Studio'';
              versions = [(v, e). v \<leftarrow> [''18'', ''17''],
                e \<leftarrow> [''BuildTools'', ''Community'', ''Professional'', ''Enterprise'']]
          in case Option.bind (vs_install_path m root) (dev_shell_in m) of
               Some script \<Rightarrow> Some script
             | None \<Rightarrow> find_map (\<lambda>(v, e). dev_shell_in m (foldl (path_join True) root [v, e])) versions)"

definition double_quotes :: "str \<Rightarrow> str" where
  "double_quotes s = concat (map (\<lambda>c. if c = squote then [squote, squote] else [c]) s)"

definition vs_dev_shell_plan :: "machine \<Rightarrow> shell_info list \<Rightarrow> plan_error + environment_plan" where
  "vs_dev_shell_plan m installed =
     (case find_vs_dev_shell_script m of
        None \<Rightarrow> Inl DevShellNotFound
      | Some script \<Rightarrow>
          (case shell_with_stem m installed powershells of
             None \<Rightarrow> Inl DevShellNeedsPowerShell
           | Some s \<Rightarrow>
               Inr ((plain_plan s)
                 \<lparr>ep_prelude := Some (''& '' @ [squote] @ double_quotes script @ [squote] @
                      '' -SkipAutomaticLocation -Arch '' @ msvc_arch m @ '' -HostArch '' @ msvc_arch m),
                  ep_label := sh_name s @ '' + Visual Studio developer shell''\<rparr>)))"

definition wsl_plan :: "machine \<Rightarrow> str option \<Rightarrow> shell_info list \<Rightarrow> plan_error + environment_plan" where
  "wsl_plan m distro installed =
     (case shell_with_stem m installed [''wsl''] of
        None \<Rightarrow> Inl (ShellNotFound Wsl)
      | Some wsl \<Rightarrow>
          Inr \<lparr>ep_program = sh_path wsl,
               ep_prefix = (case distro of None \<Rightarrow> [] | Some d \<Rightarrow> [''-d'', d]),
               ep_style = WslLoginShell, ep_prelude = None, ep_forwards_stdin = True,
               ep_label = (case distro of
                   None \<Rightarrow> ''the default WSL distribution''
                 | Some d \<Rightarrow> ''WSL distribution '' @ [squote] @ d @ [squote]),
               ep_env = [], ep_cwd = None\<rparr>)"

definition planned :: "local_environment \<Rightarrow> shell_info option \<Rightarrow> plan_error + environment_plan" where
  "planned e s = (case s of None \<Rightarrow> Inl (ShellNotFound e) | Some s \<Rightarrow> Inr (plain_plan s))"

definition resolve_environment :: "machine \<Rightarrow> environment_request \<Rightarrow> plan_error + environment_plan" where
  "resolve_environment m q =
     (let installed = list_shells m
      in case eq_environment q of
           Default \<Rightarrow>
             (let s = resolve_shell m
              in if file_stem_lower m (sh_path s) = ''wsl'' then Inl (NotAShell (sh_path s))
                 else Inr (plain_plan s))
         | Pwsh \<Rightarrow> planned Pwsh (shell_with_stem m installed powershells)
         | Cmd \<Rightarrow> planned Cmd (shell_with_stem m installed [''cmd''])
         | GitBash \<Rightarrow> planned GitBash (git_bash m installed)
         | VsDevShell \<Rightarrow> vs_dev_shell_plan m installed
         | Wsl \<Rightarrow> wsl_plan m (eq_distro q) installed)"

section \<open>Containers\<close>

definition container_target_for_host :: "str \<Rightarrow> (container_runtime \<times> str) option" where
  "container_target_for_host host =
     do { rest \<leftarrow> strip_prefix host LOCAL_ENV_PREFIX;
          (name, container) \<leftarrow> split_once colon rest;
          runtime \<leftarrow> runtime_from_id name;
          Some (runtime, container) }"

definition MAX_CONTAINER_ID_LEN :: nat where "MAX_CONTAINER_ID_LEN = 128"

definition validate_container_id :: "str \<Rightarrow> bool" where
  "validate_container_id i \<longleftrightarrow>
     i \<noteq> [] \<and> length i \<le> MAX_CONTAINER_ID_LEN \<and> list_all container_char i"

definition supported_on_host :: "machine \<Rightarrow> container_runtime \<Rightarrow> bool" where
  "supported_on_host m rt =
     (case rt of Docker \<Rightarrow> True | Wslc \<Rightarrow> mc_windows m | Apple \<Rightarrow> mc_macos m)"

fun binary_name :: "container_runtime \<Rightarrow> str" where
  "binary_name Docker = ''docker''"
| "binary_name Wslc = ''wslc''"
| "binary_name Apple = ''container''"

fun extra_search_dirs :: "container_runtime \<Rightarrow> str list" where
  "extra_search_dirs Wslc = [''C:'' @ [bslash] @ ''Program Files'' @ [bslash] @ ''WSL'']"
| "extra_search_dirs _ = []"

text \<open>The names of the binaries have no extension.\<close>

definition resolve_in_dirs :: "machine \<Rightarrow> str \<Rightarrow> str list \<Rightarrow> str option" where
  "resolve_in_dirs m name dirs =
     find_map (\<lambda>path. if mc_is_file m path then Some path else None)
       [path_join (mc_windows m) dir candidate. dir \<leftarrow> dirs,
         candidate \<leftarrow> (if mc_windows m then [name, name @ ''.exe''] else [name])]"

definition platform_fallback_dirs :: "machine \<Rightarrow> str list" where
  "platform_fallback_dirs m =
     (if mc_windows m then
        [''C:'' @ [bslash] @ ''ProgramData'' @ [bslash] @ ''chocolatey'' @ [bslash] @ ''bin''] @
        (case mc_home m of None \<Rightarrow> [] | Some home \<Rightarrow> [foldl (path_join True) home [''scoop'', ''shims'']]) @
        [''C:'' @ [bslash] @ ''Windows'' @ [bslash] @ ''System32'', ''C:'' @ [bslash] @ ''Windows'']
      else
        [''/opt/homebrew/bin'', ''/usr/local/bin'', ''/snap/bin'', ''/var/lib/flatpak/exports/bin''] @
        (case mc_home m of None \<Rightarrow> [] | Some home \<Rightarrow> [foldl (path_join False) home [''.local'', ''bin'']]))"

definition is_executable :: "machine \<Rightarrow> str \<Rightarrow> bool" where
  "is_executable m p = (if mc_windows m then mc_is_file m p else mc_is_executable m p)"

text \<open>For a name without an extension.\<close>

definition resolve_executable_in :: "machine \<Rightarrow> str \<Rightarrow> str option" where
  "resolve_executable_in m name =
     (let file = (if mc_windows m then name @ ''.exe'' else name);
          dirs = foldl (\<lambda>ds d. if list_ex (paths_equal m d) ds then ds else ds @ [d]) (mc_path m)
            (platform_fallback_dirs m)
      in find_map (\<lambda>dir. let candidate = path_join (mc_windows m) dir file
           in if is_executable m candidate then Some candidate else None) dirs)"

definition resolve_runtime :: "machine \<Rightarrow> container_runtime \<Rightarrow> str option" where
  "resolve_runtime m rt =
     (if \<not> supported_on_host m rt then None
      else case resolve_executable_in m (binary_name rt) of
        Some path \<Rightarrow> Some path
      | None \<Rightarrow> resolve_in_dirs m (binary_name rt) (extra_search_dirs rt))"

fun display_name :: "container_runtime \<Rightarrow> str" where
  "display_name Docker = ''Docker''"
| "display_name Wslc = ''WSL containers (wslc)''"
| "display_name Apple = ''Apple container''"

definition exec_capture_args :: "str \<Rightarrow> str \<Rightarrow> str list" where
  "exec_capture_args container shell = [''exec'', container, shell]"

definition container_plan ::
  "machine \<Rightarrow> container_runtime \<Rightarrow> str \<Rightarrow> plan_error + environment_plan" where
  "container_plan m rt container =
     (if \<not> validate_container_id container then Inl (InvalidContainer container)
      else case resolve_runtime m rt of
        None \<Rightarrow> Inl (RuntimeNotInstalled rt)
      | Some binary \<Rightarrow>
          Inr \<lparr>ep_program = binary, ep_prefix = exec_capture_args container CONTAINER_SHELL,
               ep_style = PosixDashC, ep_prelude = None, ep_forwards_stdin = False,
               ep_label = display_name rt @ '' container '' @ container, ep_env = [], ep_cwd = None\<rparr>)"

section \<open>Environments of the user\<close>

definition layer_custom_environment :: "environment_plan \<Rightarrow> custom_environment \<Rightarrow> environment_plan" where
  "layer_custom_environment p e =
     p\<lparr>ep_prelude := (case (ep_prelude p, ce_prelude e) of
           (Some base, Some own) \<Rightarrow> Some (base @ prelude_separator (ep_style p) @ own)
         | (Some base, None) \<Rightarrow> Some base
         | (None, own) \<Rightarrow> own),
       ep_env := ce_env e, ep_cwd := ce_cwd e,
       ep_label := ''environment '' @ [squote] @ ce_id e @ [squote] @ '' ('' @ ep_label p @ '')''\<rparr>"

definition custom_environment_plan :: "machine \<Rightarrow> custom_environment \<Rightarrow> plan_error + environment_plan" where
  "custom_environment_plan m e =
     (case resolve_environment m \<lparr>eq_environment = ce_base e, eq_distro = ce_distro e\<rparr> of
        Inl err \<Rightarrow> Inl (BaseUnusable (ce_id e) (ce_base e) err)
      | Inr base \<Rightarrow>
          (case ce_cwd e of
             None \<Rightarrow> Inr (layer_custom_environment base e)
           | Some cwd \<Rightarrow>
               if mc_is_dir m cwd then Inr (layer_custom_environment base e)
               else Inl (NoSuchDirectory (ce_id e) cwd)))"

definition annotate_unknown :: "environment_registry \<Rightarrow> str \<Rightarrow> plan_error \<Rightarrow> plan_error" where
  "annotate_unknown reg name err =
     (if is_reserved_id name \<or> er_environments reg = [] \<and> er_load_error reg = None then err
      else Annotated err (map ce_id (er_environments reg)) (er_load_error reg))"

definition host_kind :: "str \<Rightarrow> str option" where
  "host_kind host =
     map_option (\<lambda>rest. case split_once colon rest of None \<Rightarrow> rest | Some (name, _) \<Rightarrow> name)
       (strip_prefix host LOCAL_ENV_PREFIX)"

definition builtin_plan_for_host ::
  "machine \<Rightarrow> environment_registry \<Rightarrow> str \<Rightarrow> plan_error + environment_plan" where
  "builtin_plan_for_host m reg host =
     map_sum (\<lambda>err. case host_kind host of None \<Rightarrow> err | Some name \<Rightarrow> annotate_unknown reg name err) id
       (case environment_for_host host of
          Inl err \<Rightarrow> Inl err
        | Inr q \<Rightarrow> resolve_environment m q)"

definition resolve_plan_for_host ::
  "machine \<Rightarrow> environment_registry \<Rightarrow> str \<Rightarrow> plan_error + environment_plan" where
  "resolve_plan_for_host m reg host =
     (case container_target_for_host host of
        Some (rt, container) \<Rightarrow> container_plan m rt container
      | None \<Rightarrow>
          (case host_kind host of
             None \<Rightarrow> builtin_plan_for_host m reg host
           | Some name \<Rightarrow>
               if is_reserved_id name then builtin_plan_for_host m reg host
               else case rejection reg name of
                 Some reason \<Rightarrow> Inl (RejectedDefinition name reason)
               | None \<Rightarrow>
                   (case get_environment reg name of
                      None \<Rightarrow> builtin_plan_for_host m reg host
                    | Some e \<Rightarrow>
                        (case Option.bind (strip_prefix host LOCAL_ENV_PREFIX) (split_once colon) of
                           Some (_, argument) \<Rightarrow> Inl (TakesNoArgument name argument)
                         | None \<Rightarrow> custom_environment_plan m e))))"

text \<open>The same question answered from the id alone, for refusals and approvals.\<close>

definition host_risk_is_classifiable :: "machine \<Rightarrow> environment_registry \<Rightarrow> str \<Rightarrow> bool" where
  "host_risk_is_classifiable m reg host =
     (if container_target_for_host host \<noteq> None then True
      else case host_kind host of
        Some name \<Rightarrow>
          (case get_environment reg name of
             Some e \<Rightarrow> is_bash_compatible (ce_base e)
           | None \<Rightarrow> (case environment_from_id name of Some e \<Rightarrow> is_bash_compatible e | None \<Rightarrow> True))
      | None \<Rightarrow> if is_local_host host then \<not> mc_windows m else True)"

section \<open>The process\<close>

definition with_prelude :: "environment_plan \<Rightarrow> str \<Rightarrow> str" where
  "with_prelude p command =
     (case ep_prelude p of
        None \<Rightarrow> command
      | Some prelude \<Rightarrow> prelude @ prelude_separator (ep_style p) @ command)"

text \<open>A spawned process: on Windows \<open>sp_raw\<close> is appended to the command line without quoting.\<close>

record spawned =
  sp_program :: str
  sp_args :: "str list"
  sp_raw :: "str option"
  sp_vars :: "str \<rightharpoonup> str"
  sp_cwd :: "str option"

definition set_var :: "bool \<Rightarrow> str \<Rightarrow> str \<Rightarrow> (str \<rightharpoonup> str) \<Rightarrow> str \<rightharpoonup> str" where
  "set_var windows name v vars = vars(env_key windows name \<mapsto> v)"

definition apply_plan_context :: "machine \<Rightarrow> environment_plan \<Rightarrow> spawned \<Rightarrow> spawned" where
  "apply_plan_context m p s =
     s\<lparr>sp_vars := foldl (\<lambda>vars (name, v). set_var (mc_windows m) name v vars) (sp_vars s) (ep_env p),
       sp_cwd := (case ep_cwd p of None \<Rightarrow> sp_cwd s | Some cwd \<Rightarrow> Some cwd)\<rparr>"

definition build_command :: "machine \<Rightarrow> environment_plan \<Rightarrow> str \<Rightarrow> spawned" where
  "build_command m p command =
     (let command = with_prelude p command;
          (args, raw) = invocation (ep_style p) command
      in apply_plan_context m p
           \<lparr>sp_program = ep_program p,
            sp_args = ep_prefix p @ args @ (if raw \<and> \<not> mc_windows m then [command] else []),
            sp_raw = (if raw \<and> mc_windows m then Some command else None),
            sp_vars = mc_vars m, sp_cwd = None\<rparr>)"

text \<open>The start of \<open>run_local_command_capture\<close>: the depth is checked first and set last.\<close>

definition spawn :: "machine \<Rightarrow> environment_plan \<Rightarrow> str \<Rightarrow> nat + spawned" where
  "spawn m p command =
     (case check_exec_depth m of
        Inl depth \<Rightarrow> Inl depth
      | Inr child_depth \<Rightarrow>
          (let s = build_command m p command
           in Inr (s\<lparr>sp_vars := set_var (mc_windows m) DEPTH_ENV (show_nat child_depth) (sp_vars s)\<rparr>)))"

text \<open>What the execution of \<open>core.rs\<close> asks of a plan.\<close>

definition local_plan_of :: "environment_plan \<Rightarrow> local_plan" where
  "local_plan_of p = \<lparr>forwards_stdin = ep_forwards_stdin p, plan_classifiable = risk_is_classifiable p\<rparr>"

end
