(* ===== verification/Local_Laws.thy ===== *)
theory Local_Laws
  imports Local_Plan Sample_Parser
begin

text \<open>
  What holds of the local environments: the registry has checked what it offers and keeps it, a host id
  runs in what it names or is refused, the command is one argument of the interpreter that was named,
  and a local execution cannot start another one.
\<close>

section \<open>The registry\<close>

definition well_formed_environment :: "parser \<Rightarrow> machine \<Rightarrow> custom_environment \<Rightarrow> bool" where
  "well_formed_environment parse m e \<longleftrightarrow>
     validate_id (ce_id e) = None \<and>
     (ce_distro e \<noteq> None \<longrightarrow> ce_base e = Wsl \<and> validate_distro (the (ce_distro e)) = None) \<and>
     (ce_base e = Wsl \<longrightarrow> ce_env e = []) \<and>
     list_all (\<lambda>nv. validate_value nv = None) (ce_env e) \<and>
     (\<forall>cwd. ce_cwd e = Some cwd \<longrightarrow> path_is_absolute (mc_windows m) cwd) \<and>
     (\<forall>p. ce_prelude e = Some p \<longrightarrow> p \<noteq> [] \<and> newline \<notin> set p \<and> CHR 0x0D \<notin> set p \<and>
        (classifier_understands m (ce_base e) \<longrightarrow>
           (\<exists>risk. classify_risk parse p = Some risk \<and> risk \<noteq> High \<and> risk \<noteq> Blocked)))"

definition sound_registry :: "parser \<Rightarrow> machine \<Rightarrow> environment_registry \<Rightarrow> bool" where
  "sound_registry parse m reg \<longleftrightarrow>
     list_all (well_formed_environment parse m) (er_environments reg) \<and>
     distinct (map ce_id (er_environments reg))"

lemma expand_cwd_absolute: "expand_cwd m cwd = Inr path \<Longrightarrow> path_is_absolute (mc_windows m) path"
  by (auto simp: expand_cwd_def Let_def split: if_splits option.splits)

lemma validate_fields_Inr:
  assumes "validate_fields m raw = Inr e"
  shows "ce_id e = re_id raw \<and> ce_prelude e = None \<and> well_formed_environment parse m e"
proof -
  have valid_id: "validate_id (re_id raw) = None"
    using assms by (cases "validate_id (re_id raw)") (auto simp: validate_fields_def)
  obtain base where base: "validate_base (re_base raw) = Inr base"
    using assms valid_id by (cases "validate_base (re_base raw)") (auto simp: validate_fields_def)
  have distro: "(case re_distro raw of None \<Rightarrow> None
      | Some d \<Rightarrow> if base \<noteq> Wsl then Some DistroWithoutWsl else validate_distro d) = None" (is "?d = None")
    using assms valid_id base by (cases ?d) (auto simp: validate_fields_def)
  have limits: "\<not> length (re_env raw) > MAX_ENV_VARS" "\<not> (base = Wsl \<and> re_env raw \<noteq> [])"
    using assms valid_id base distro by (auto simp: validate_fields_def split: if_splits)
  have vals: "find_map validate_value (re_env raw) = None"
    using assms valid_id base distro limits
    by (cases "find_map validate_value (re_env raw)") (auto simp: validate_fields_def)
  obtain cwd where cwd: "(case re_cwd raw of None \<Rightarrow> Inr None | Some cwd \<Rightarrow> map_sum id Some (expand_cwd m cwd)) = Inr cwd"
      (is "?c = _") "e = \<lparr>ce_id = re_id raw, ce_description = re_description raw, ce_base = base,
        ce_distro = re_distro raw, ce_cwd = cwd, ce_prelude = None, ce_env = re_env raw\<rparr>"
    using assms valid_id base distro limits vals
    by (cases ?c) (auto simp: validate_fields_def)
  have "path_is_absolute (mc_windows m) p" if "cwd = Some p" for p
  proof -
    from cwd(1) that obtain c where "expand_cwd m c = Inr p"
      by (auto simp: map_sum_def split: option.splits sum.splits)
    then show ?thesis by (rule expand_cwd_absolute)
  qed
  with cwd(2) valid_id distro limits vals show ?thesis
    by (auto simp: well_formed_environment_def find_map_None list_all_iff split: option.splits if_splits)
qed

lemma validate_prelude_Inr:
  assumes "validate_prelude parse m raw base = Some (Inr p)"
  shows "p \<noteq> [] \<and> newline \<notin> set p \<and> CHR 0x0D \<notin> set p \<and>
    (classifier_understands m base \<longrightarrow>
       (\<exists>risk. classify_risk parse p = Some risk \<and> risk \<noteq> High \<and> risk \<noteq> Blocked))"
  using assms by (auto simp: validate_prelude_def Let_def list_ex_iff split: if_splits)

lemma validate_Inr:
  assumes "validate parse m raw = Some (Inr e)"
  shows "ce_id e = re_id raw \<and> well_formed_environment parse m e"
proof -
  obtain e0 where e0: "validate_fields m raw = Inr e0"
    using assms by (cases "validate_fields m raw") (auto simp: validate_def)
  note ok = validate_fields_Inr [OF e0, of parse]
  show ?thesis
  proof (cases "re_prelude raw")
    case None
    with assms e0 ok show ?thesis by (auto simp: validate_def)
  next
    case (Some p)
    with assms e0 obtain r where r: "validate_prelude parse m p (ce_base e0) = Some r"
        "map_sum id (\<lambda>prelude. e0\<lparr>ce_prelude := Some prelude\<rparr>) r = Inr e"
      by (auto simp: validate_def)
    then obtain q where q: "r = Inr q" "e = e0\<lparr>ce_prelude := Some q\<rparr>" by (cases r) auto
    from validate_prelude_Inr [OF r(1) [unfolded q(1)]] ok show ?thesis
      by (auto simp: q(2) well_formed_environment_def)
  qed
qed

lemma add_definition_sound:
  assumes "add_definition parse m reg raw = Some reg'" "sound_registry parse m reg"
  shows "sound_registry parse m reg' \<and>
    length (er_environments reg') + length (er_rejected reg') =
      length (er_environments reg) + length (er_rejected reg) + 1 \<and>
    er_load_error reg' = er_load_error reg"
proof -
  obtain v where v: "validate parse m raw = Some v" using assms(1) by (auto simp: add_definition_def)
  show ?thesis
  proof (cases v)
    case (Inl reason)
    with assms v show ?thesis by (auto simp: add_definition_def sound_registry_def)
  next
    case (Inr e)
    with validate_Inr [of parse m raw e] v have "well_formed_environment parse m e" by simp
    with Inr assms v show ?thesis
      by (auto simp: add_definition_def sound_registry_def split: if_splits)
  qed
qed

lemma load_definitions_sound:
  assumes "foldM (add_definition parse m) reg raws = Some reg'" "sound_registry parse m reg"
  shows "sound_registry parse m reg' \<and>
    length (er_environments reg') + length (er_rejected reg') =
      length (er_environments reg) + length (er_rejected reg) + length raws \<and>
    er_load_error reg' = er_load_error reg"
  using assms
proof (induction raws arbitrary: reg)
  case (Cons raw raws)
  then obtain r1 where "add_definition parse m reg raw = Some r1"
      "foldM (add_definition parse m) r1 raws = Some reg'" by (auto simp: bind_eq_Some_conv)
  with add_definition_sound [of parse m reg raw r1] Cons.prems(2) Cons.IH [of r1] show ?case by auto
qed simp

lemma empty_registry_sound: "sound_registry parse m (empty_registry\<lparr>er_load_error := x\<rparr>)" "sound_registry parse m empty_registry"
  by (simp_all add: sound_registry_def empty_registry_def)

lemma read_sound:
  assumes "read_from_disk toml parse m f = Some reg"
  shows "sound_registry parse m reg"
  using assms empty_registry_sound load_definitions_sound [of parse m empty_registry]
  by (auto simp: read_from_disk_def parse_registry_def split: environments_file.splits sum.splits)

text \<open>
  A process that looks environments up and is told to read the file again, with the file as it is at
  each step. A step that panics leaves the slot as it was.
\<close>

datatype registry_step = Current environments_file | Reload environments_file

definition slot_step ::
  "(str \<Rightarrow> str + raw_environment list) \<Rightarrow> parser \<Rightarrow> machine \<Rightarrow> environment_registry option \<Rightarrow> registry_step \<Rightarrow>
   environment_registry option" where
  "slot_step toml parse m slot step =
     (case (case step of
              Current f \<Rightarrow> current_registry (read_from_disk toml parse m f) slot
            | Reload f \<Rightarrow> reload_registry (read_from_disk toml parse m f) slot) of
        None \<Rightarrow> slot
      | Some (_, slot') \<Rightarrow> slot')"

definition slot_sound :: "parser \<Rightarrow> machine \<Rightarrow> environment_registry option \<Rightarrow> bool" where
  "slot_sound parse m slot = (case slot of None \<Rightarrow> True | Some reg \<Rightarrow> sound_registry parse m reg)"

definition is_current :: "registry_step \<Rightarrow> bool" where
  "is_current step = (case step of Current _ \<Rightarrow> True | Reload _ \<Rightarrow> False)"

text \<open>While nobody reloads, a loaded registry stays what it is.\<close>

definition keeps_loaded :: "environment_registry option \<Rightarrow> environment_registry option \<Rightarrow> bool" where
  "keeps_loaded before now \<longleftrightarrow> before = None \<or> now = before"

interpretation registry_slot: state_machine "slot_step toml parse m" "\<lambda>_ _. True" "slot_sound parse m"
  for toml parse m
proof unfold_locales
  fix s e
  assume "slot_sound parse m s"
  then show "slot_sound parse m (slot_step toml parse m s e)"
    using read_sound [of toml parse m]
    by (auto simp: slot_step_def slot_sound_def current_registry_def reload_registry_def
        split: registry_step.splits option.splits)
qed

interpretation loaded_slot: progress_machine "slot_step toml parse m" "\<lambda>_ step. is_current step" "slot_sound parse m"
  keeps_loaded for toml parse m
proof unfold_locales
  fix s e
  assume "slot_sound parse m s"
  then show "slot_sound parse m (slot_step toml parse m s e)" by (rule registry_slot.step_inv) simp
next
  fix s e
  assume "is_current e"
  then show "keeps_loaded s (slot_step toml parse m s e)"
    by (auto simp: is_current_def keeps_loaded_def slot_step_def current_registry_def
        split: registry_step.splits option.splits)
qed (auto simp: keeps_loaded_def)

lemma admissible_True: "admissible step (\<lambda>_ _. True) s es"
  by (induction es arbitrary: s) auto

lemma admissible_event: "admissible step (\<lambda>_ e. P e) s es \<longleftrightarrow> list_all P es"
  by (induction es arbitrary: s) auto

text \<open>
  Property (C20): the environments of a process are checked and stay what they are. Whatever the file of
  definitions holds at each step, every environment the process offers has passed the validation, no
  two share an id, and a prelude the classifier can read is neither high nor blocked; and from a load on
  edits of the file change nothing until a reload.
\<close>

theorem environments_are_checked_and_kept:
  assumes "list_all is_current later"
  shows "slot_sound parse m (foldl (slot_step toml parse m) None (steps @ later)) \<and>
    keeps_loaded (foldl (slot_step toml parse m) None steps) (foldl (slot_step toml parse m) None (steps @ later))"
proof -
  have sound: "slot_sound parse m (foldl (slot_step toml parse m) None es)" for es
    using registry_slot.run_inv [of parse m None toml es] by (simp add: slot_sound_def admissible_True)
  with assms show ?thesis
    using loaded_slot.run_rel [of parse m "foldl (slot_step toml parse m) None steps" toml later] sound [of "steps @ later"]
    by (simp add: admissible_event)
qed

definition bare_machine :: machine where
  "bare_machine =
     \<lparr>mc_windows = False, mc_macos = False, mc_arch = ''x86_64'', mc_is_file = (\<lambda>_. False), mc_is_dir = (\<lambda>_. False),
      mc_is_executable = (\<lambda>_. False), mc_vars = Map.empty, mc_path = [], mc_etc_shells = None, mc_home = None,
      mc_vswhere = (\<lambda>_. None)\<rparr>"

definition evil_environment :: raw_environment where
  "evil_environment =
     \<lparr>re_id = ''evil'', re_description = None, re_base = None, re_distro = None, re_cwd = None,
      re_prelude = Some ''ls'', re_env = []\<rparr>"

text \<open>A definition that is written after the load is not picked up.\<close>

lemma environments_are_checked_and_kept_witness:
  "keeps_loaded (Some empty_registry)
     (foldl (slot_step (\<lambda>_. Inr [evil_environment]) sample_parse bare_machine) None
        [Reload NoDefinitions, Current (Definitions ''evil'')])"
  using environments_are_checked_and_kept [of "[Current (Definitions ''evil'')]" sample_parse bare_machine
      "\<lambda>_. Inr [evil_environment]" "[Reload NoDefinitions]"]
  by (simp add: is_current_def slot_step_def reload_registry_def read_from_disk_def)

end
