(* ===== verification/Local_Targets.thy ===== *)
theory Local_Targets
  imports Local_Laws
begin

text \<open>
  What a local host id leads to: the plan comes from what the id names, the command is one argument of
  its interpreter, the child may start no further local execution, and the flag for verdicts about
  another language, read from the plan and from the id. The last section shows where they part.
\<close>

section \<open>The plan of a host id\<close>

lemma resolve_environment_bare:
  assumes "resolve_environment m q = Inr p"
  shows "ep_env p = [] \<and> ep_cwd p = None \<and> ep_forwards_stdin p \<and>
    (eq_environment q \<noteq> VsDevShell \<longrightarrow> ep_prelude p = None)"
  using assms
  by (auto simp: resolve_environment_def planned_def vs_dev_shell_plan_def wsl_plan_def plain_plan_def Let_def
      split: local_environment.splits option.splits if_splits)

definition from_container :: "machine \<Rightarrow> str \<Rightarrow> environment_plan \<Rightarrow> bool" where
  "from_container m host p \<longleftrightarrow>
     (\<exists>rt container. container_target_for_host host = Some (rt, container) \<and> validate_container_id container \<and>
        resolve_runtime m rt = Some (ep_program p) \<and> ep_prefix p = [''exec'', container, ''/bin/sh''] \<and>
        ep_style p = PosixDashC \<and> ep_prelude p = None \<and> ep_env p = [] \<and> \<not> ep_forwards_stdin p)"

definition from_definition :: "machine \<Rightarrow> environment_registry \<Rightarrow> str \<Rightarrow> environment_plan \<Rightarrow> bool" where
  "from_definition m reg host p \<longleftrightarrow>
     (\<exists>e \<in> set (er_environments reg). host = ''local:'' @ ce_id e \<and> \<not> is_reserved_id (ce_id e) \<and>
        rejection reg (ce_id e) = None \<and>
        (\<exists>base. resolve_environment m \<lparr>eq_environment = ce_base e, eq_distro = ce_distro e\<rparr> = Inr base \<and>
           p = layer_custom_environment base e))"

definition from_builtin :: "machine \<Rightarrow> str \<Rightarrow> environment_plan \<Rightarrow> bool" where
  "from_builtin m host p \<longleftrightarrow>
     (\<exists>q. environment_for_host host = Inr q \<and> resolve_environment m q = Inr p \<and>
        (eq_environment q = Default \<longleftrightarrow> \<not> starts_with host ''local:''))"

lemma container_plan_Inr:
  assumes "container_target_for_host host = Some (rt, container)" "container_plan m rt container = Inr p"
  shows "from_container m host p"
  using assms by (auto simp: from_container_def container_plan_def exec_capture_args_def CONTAINER_SHELL_def
      split: if_splits option.splits)

lemma environment_from_id_named: "environment_from_id i = Some e \<Longrightarrow> e \<noteq> Default"
  by (auto simp: environment_from_id_def Let_def split: if_splits)

lemma strip_local: "strip_prefix host LOCAL_ENV_PREFIX = Some rest \<longleftrightarrow> host = ''local:'' @ rest"
  by (auto simp: strip_prefix_def LOCAL_ENV_PREFIX_def starts_with_prefix prefix_def)

lemma environment_for_host_default:
  assumes "environment_for_host host = Inr q"
  shows "eq_environment q = Default \<longleftrightarrow> \<not> starts_with host ''local:''"
proof (cases "strip_prefix host LOCAL_ENV_PREFIX")
  case None
  with assms show ?thesis
    by (auto simp: environment_for_host_def plain_request_def strip_prefix_def LOCAL_ENV_PREFIX_def split: if_splits)
next
  case (Some i)
  with assms have "eq_environment q \<noteq> Default"
    by (auto simp: environment_for_host_def plain_request_def Let_def dest!: environment_from_id_named
        split: option.splits if_splits)
  moreover have "starts_with host ''local:''" using Some by (simp add: strip_local starts_with_prefix)
  ultimately show ?thesis by simp
qed

lemma builtin_plan_Inr:
  assumes "builtin_plan_for_host m reg host = Inr p"
  shows "from_builtin m host p"
proof -
  obtain q where q: "environment_for_host host = Inr q"
    using assms by (cases "environment_for_host host") (auto simp: builtin_plan_for_host_def)
  with assms have "resolve_environment m q = Inr p"
    by (cases "resolve_environment m q") (auto simp: builtin_plan_for_host_def)
  with q environment_for_host_default [OF q] show ?thesis by (auto simp: from_builtin_def)
qed

lemma get_environment_Some:
  assumes "get_environment reg i = Some e"
  shows "e \<in> set (er_environments reg) \<and> ce_id e = i"
  using assms by (auto simp: get_environment_def find_Some_iff)

lemma custom_environment_plan_Inr:
  assumes "custom_environment_plan m e = Inr p"
  shows "\<exists>base. resolve_environment m \<lparr>eq_environment = ce_base e, eq_distro = ce_distro e\<rparr> = Inr base \<and>
    p = layer_custom_environment base e"
  using assms by (auto simp: custom_environment_plan_def split: sum.splits option.splits if_splits)

text \<open>A plan comes from a container, from a definition or from a built-in environment.\<close>

lemma plan_origin:
  assumes "resolve_plan_for_host m reg host = Inr p"
  shows "from_container m host p \<or> from_definition m reg host p \<or> from_builtin m host p"
proof (cases "container_target_for_host host")
  case (Some rc)
  with assms show ?thesis
    using container_plan_Inr [of host "fst rc" "snd rc" m p] by (auto simp: resolve_plan_for_host_def split: prod.splits)
next
  case None
  show ?thesis
  proof (cases "builtin_plan_for_host m reg host = Inr p")
    case True
    then show ?thesis using builtin_plan_Inr by blast
  next
    case False
    with assms None obtain name where name: "host_kind host = Some name" "\<not> is_reserved_id name" "rejection reg name = None"
      by (auto simp: resolve_plan_for_host_def split: option.splits if_splits)
    with assms None False obtain e where e: "get_environment reg name = Some e" "custom_environment_plan m e = Inr p"
        "Option.bind (strip_prefix host LOCAL_ENV_PREFIX) (split_once colon) = None"
      by (auto simp: resolve_plan_for_host_def split: option.splits)
    from name(1) obtain rest where rest: "strip_prefix host LOCAL_ENV_PREFIX = Some rest"
        "name = (case split_once colon rest of None \<Rightarrow> rest | Some (k, _) \<Rightarrow> k)"
      by (auto simp: host_kind_def)
    with e(3) have "host = ''local:'' @ name" by (auto simp: strip_local)
    with get_environment_Some [OF e(1)] name custom_environment_plan_Inr [OF e(2)]
    have "from_definition m reg host p" by (auto simp: from_definition_def)
    then show ?thesis by simp
  qed
qed

section \<open>The process of a plan\<close>

fun style_flags :: "command_style \<Rightarrow> str list" where
  "style_flags PosixDashC = [''-c'']"
| "style_flags CmdSlashC = [''/D'', ''/C'']"
| "style_flags PowerShellCommand = [''-NoLogo'', ''-NoProfile'', ''-NonInteractive'', ''-Command'']"
| "style_flags WslLoginShell = [''--shell-type'', ''login'', ''sh'', ''-c'']"

definition command_line :: "spawned \<Rightarrow> str list" where
  "command_line s = sp_args s @ (case sp_raw s of None \<Rightarrow> [] | Some c \<Rightarrow> [c])"

lemma spawn_Inr:
  assumes "spawn m p command = Inr s"
  shows "sp_program s = ep_program p \<and>
    command_line s = ep_prefix p @ style_flags (ep_style p) @ [with_prelude p command] \<and>
    (sp_raw s \<noteq> None \<longrightarrow> ep_style p = CmdSlashC) \<and> sp_cwd s = ep_cwd p \<and>
    current_exec_depth m = 0 \<and> sp_vars s (env_key (mc_windows m) DEPTH_ENV) = Some ''1''"
proof -
  have depth: "current_exec_depth m = 0" "check_exec_depth m = Inr 1"
    using assms by (auto simp: spawn_def check_exec_depth_def MAX_LOCAL_EXEC_DEPTH_def Let_def split: if_splits)
  have "show_nat 1 = ''1''" by code_simp
  with assms depth show ?thesis
    by (cases "ep_style p"; cases "mc_windows m")
       (auto simp: spawn_def build_command_def apply_plan_context_def set_var_def command_line_def WSL_SHELL_def Let_def
         split: option.splits)
qed

lemma nested_depth:
  assumes "env_var m' DEPTH_ENV = Some ''1''"
  shows "check_exec_depth m' = Inl 1"
proof -
  have one: "show_nat 1 = ''1''" "trim ''1'' = ''1''" by code_simp+
  have "from_str_radix 32 10 ''1'' = Some 1" using parse_show [of 1 32] unfolding one(1) by simp
  with one(2) have "depth_from (Some ''1'') = 1" by (simp add: depth_from_def)
  with assms show ?thesis by (simp add: check_exec_depth_def current_exec_depth_def MAX_LOCAL_EXEC_DEPTH_def)
qed


section \<open>The flag for another language\<close>

text \<open>
  What the answer from the id takes for granted: the scan gives every shell the family of its name, and
  plain \<open>local\<close> is a POSIX shell exactly off Windows.
\<close>

definition expected_shells :: "machine \<Rightarrow> bool" where
  "expected_shells m \<longleftrightarrow>
     list_all (\<lambda>s. sh_family s = family_for m (sh_path s)) (list_shells m) \<and>
     (sh_family (resolve_shell m) = Posix \<longleftrightarrow> \<not> mc_windows m)"

lemma shell_with_stem_Some:
  assumes "shell_with_stem m installed stems = Some s"
  shows "s \<in> set installed \<and> file_stem_lower m (sh_path s) \<in> set stems"
proof -
  from find_map_Some [OF assms [unfolded shell_with_stem_def]] show ?thesis by (auto simp: find_Some_iff)
qed

lemma git_bash_Some:
  assumes "git_bash m installed = Some s"
  shows "s \<in> set installed \<and> file_stem_lower m (sh_path s) = ''bash''"
  using assms shell_with_stem_Some [of m installed "[''bash'']" s]
  by (auto simp: git_bash_def find_Some_iff split: option.splits)

lemma family_of_stem:
  assumes "expected_shells m" "s \<in> set (list_shells m)"
  shows "file_stem_lower m (sh_path s) \<in> set powershells \<Longrightarrow> sh_family s = PowerShell"
    and "file_stem_lower m (sh_path s) = ''cmd'' \<Longrightarrow> sh_family s = CmdFamily"
    and "file_stem_lower m (sh_path s) = ''bash'' \<Longrightarrow> sh_family s = Posix"
  using assms by (auto simp: expected_shells_def list_all_iff family_for_def powershells_def Let_def)

text \<open>The plan of a built-in environment and the table of the id agree, off plain \<open>local\<close>.\<close>

lemma builtin_flag:
  assumes "expected_shells m" "resolve_environment m q = Inr p" "eq_environment q \<noteq> Default"
  shows "risk_is_classifiable p = is_bash_compatible (eq_environment q)"
proof (cases "eq_environment q")
  case Pwsh
  with assms obtain s where s: "shell_with_stem m (list_shells m) powershells = Some s" "p = plain_plan s"
    by (auto simp: resolve_environment_def planned_def split: option.splits)
  from shell_with_stem_Some [OF s(1)] have "sh_family s = PowerShell" using family_of_stem(1) [OF assms(1)] by blast
  with s(2) Pwsh show ?thesis by (simp add: plain_plan_def risk_is_classifiable_def classifier_reads_this_language_def)
next
  case Cmd
  with assms obtain s where s: "shell_with_stem m (list_shells m) [''cmd''] = Some s" "p = plain_plan s"
    by (auto simp: resolve_environment_def planned_def split: option.splits)
  from shell_with_stem_Some [OF s(1)] have "sh_family s = CmdFamily" using family_of_stem(2) [OF assms(1)] by auto
  with s(2) Cmd show ?thesis by (simp add: plain_plan_def risk_is_classifiable_def classifier_reads_this_language_def)
next
  case GitBash
  with assms obtain s where s: "git_bash m (list_shells m) = Some s" "p = plain_plan s"
    by (auto simp: resolve_environment_def planned_def split: option.splits)
  from git_bash_Some [OF s(1)] have "sh_family s = Posix" using family_of_stem(3) [OF assms(1)] by blast
  with s(2) GitBash show ?thesis by (simp add: plain_plan_def risk_is_classifiable_def classifier_reads_this_language_def)
next
  case VsDevShell
  with assms obtain s where s: "shell_with_stem m (list_shells m) powershells = Some s" "ep_style p = style_for_family (sh_family s)"
    by (auto simp: resolve_environment_def vs_dev_shell_plan_def plain_plan_def split: option.splits)
  from shell_with_stem_Some [OF s(1)] have "sh_family s = PowerShell" using family_of_stem(1) [OF assms(1)] by blast
  with s(2) VsDevShell show ?thesis by (simp add: risk_is_classifiable_def classifier_reads_this_language_def)
next
  case Wsl
  with assms show ?thesis
    by (auto simp: resolve_environment_def wsl_plan_def risk_is_classifiable_def classifier_reads_this_language_def
        split: option.splits)
qed (use assms(3) in simp)

lemma default_flag:
  assumes "expected_shells m" "resolve_environment m q = Inr p" "eq_environment q = Default"
  shows "risk_is_classifiable p \<longleftrightarrow> \<not> mc_windows m"
proof -
  from assms(2,3) have "p = plain_plan (resolve_shell m)" by (auto simp: resolve_environment_def Let_def split: if_splits)
  with assms(1) show ?thesis
    by (cases "sh_family (resolve_shell m)")
       (auto simp: expected_shells_def plain_plan_def risk_is_classifiable_def classifier_reads_this_language_def)
qed

lemma layered_flag: "risk_is_classifiable (layer_custom_environment base e) = risk_is_classifiable base"
  by (simp add: layer_custom_environment_def risk_is_classifiable_def)

lemma id_without_colon:
  assumes "validate_id i = None"
  shows "split_once colon i = None" "\<not> is_reserved_id i"
proof -
  have "CHR '':'' \<notin> set i"
  proof
    assume "CHR '':'' \<in> set i"
    moreover have "\<not> (id_char (CHR '':'') \<or> CHR '':'' \<in> {CHR ''-'', CHR ''_''})" by code_simp
    ultimately show False using assms by (auto simp: validate_id_def list_all_iff split: if_splits)
  qed
  then have "\<not> contains i colon"
    by (auto simp: colon_def contains_sublist sublist_def)
  then show "split_once colon i = None" by (simp add: split_once_None)
  show "\<not> is_reserved_id i" using assms by (simp add: validate_id_def split: if_splits)
qed

lemma definition_flag:
  assumes "expected_shells m" "sound_registry parse m reg" "from_definition m reg host p"
    and "\<not> (mc_windows m \<and> (\<exists>e \<in> set (er_environments reg). host = ''local:'' @ ce_id e \<and> ce_base e = Default))"
  shows "host_risk_is_classifiable m reg host = risk_is_classifiable p"
proof -
  from assms(3) obtain e base where e: "e \<in> set (er_environments reg)" "host = ''local:'' @ ce_id e" and
    base: "resolve_environment m \<lparr>eq_environment = ce_base e, eq_distro = ce_distro e\<rparr> = Inr base" and
    p: "p = layer_custom_environment base e"
    unfolding from_definition_def by blast
  from assms(2) e(1) have wf: "validate_id (ce_id e) = None" and ids: "distinct (map ce_id (er_environments reg))"
    by (auto simp: sound_registry_def list_all_iff well_formed_environment_def)
  have strip: "strip_prefix host LOCAL_ENV_PREFIX = Some (ce_id e)" using e(2) by (simp add: strip_local)
  have target: "container_target_for_host host = None"
    using id_without_colon(1) [OF wf] by (simp add: container_target_for_host_def strip)
  have name: "host_kind host = Some (ce_id e)" using id_without_colon(1) [OF wf] by (simp add: host_kind_def strip)
  have found: "get_environment reg (ce_id e) = Some e"
  proof -
    obtain e' where e': "get_environment reg (ce_id e) = Some e'"
      using e(1) by (cases "get_environment reg (ce_id e)") (auto simp: get_environment_def find_None_iff)
    from get_environment_Some [OF e'] e(1) ids have "e' = e" by (auto simp: distinct_map dest: inj_onD)
    with e' show ?thesis by simp
  qed
  have "risk_is_classifiable p = is_bash_compatible (ce_base e)"
  proof (cases "ce_base e = Default")
    case True
    with assms(4) e have "\<not> mc_windows m" by auto
    with True default_flag [OF assms(1) base] p show ?thesis by (simp add: layered_flag)
  next
    case False
    with builtin_flag [OF assms(1) base] p show ?thesis by (simp add: layered_flag)
  qed
  with target name found show ?thesis by (simp add: host_risk_is_classifiable_def)
qed

lemma environment_for_named_host:
  assumes "environment_for_host host = Inr q" "host_kind host = Some name"
  shows "environment_from_id name = Some (eq_environment q)"
proof -
  from assms(2) obtain rest where rest: "strip_prefix host LOCAL_ENV_PREFIX = Some rest"
      "name = (case split_once colon rest of None \<Rightarrow> rest | Some (k, _) \<Rightarrow> k)"
    by (auto simp: host_kind_def)
  with assms(1) obtain e where e: "environment_from_id name = Some e"
    by (cases "environment_from_id name") (auto simp: environment_for_host_def Let_def)
  with assms(1) rest have "eq_environment q = e"
    by (auto simp: environment_for_host_def plain_request_def Let_def split: option.splits if_splits)
  with e show ?thesis by simp
qed

lemma trim_lower: "trim (to_lowercase s) = to_lowercase (trim s)"
  by (simp add: trim_def trim_start_def trim_end_def to_lowercase_def dropWhile_map rev_map comp_def)

lemma named_is_reserved:
  assumes "environment_from_id name = Some e"
  shows "is_reserved_id name"
proof -
  have "environment_from_id (to_lowercase (trim name)) = environment_from_id name"
    by (simp add: environment_from_id_def trim_lower)
  with assms show ?thesis by (simp add: is_reserved_id_def Let_def)
qed

lemma builtin_host_flag:
  assumes "expected_shells m" "sound_registry parse m reg" "from_builtin m host p"
    and "container_target_for_host host = None" "is_local_host host"
  shows "host_risk_is_classifiable m reg host = risk_is_classifiable p"
proof -
  from assms(3) obtain q where q: "environment_for_host host = Inr q" "resolve_environment m q = Inr p"
      "eq_environment q = Default \<longleftrightarrow> \<not> starts_with host ''local:''"
    unfolding from_builtin_def by blast
  show ?thesis
  proof (cases "host_kind host")
    case None
    then have "eq_environment q = Default"
      using q(3) by (auto simp: host_kind_def strip_prefix_def LOCAL_ENV_PREFIX_def split: if_splits)
    with None assms(4,5) default_flag [OF assms(1) q(2)] show ?thesis by (simp add: host_risk_is_classifiable_def)
  next
    case (Some name)
    note named = environment_for_named_host [OF q(1) Some]
    have "get_environment reg name = None"
    proof (rule ccontr)
      assume "get_environment reg name \<noteq> None"
      then obtain e where "get_environment reg name = Some e" by auto
      from get_environment_Some [OF this] assms(2) have "validate_id name = None"
        by (auto simp: sound_registry_def list_all_iff well_formed_environment_def)
      with id_without_colon(2) named_is_reserved [OF named] show False by blast
    qed
    moreover have "eq_environment q \<noteq> Default" using environment_from_id_named [OF named] .
    ultimately show ?thesis
      using Some assms(4) named builtin_flag [OF assms(1) q(2)] by (simp add: host_risk_is_classifiable_def)
  qed
qed


section \<open>Examples\<close>

definition unix_box :: "(str \<rightharpoonup> str) \<Rightarrow> str option \<Rightarrow> machine" where
  "unix_box env shells =
     \<lparr>mc_windows = False, mc_macos = False, mc_arch = ''x86_64'',
      mc_is_file = (\<lambda>p. p \<in> {''/bin/bash'', ''/bin/pwsh'', ''/opt/pwsh''}), mc_is_dir = (\<lambda>p. p = ''/work''),
      mc_is_executable = (\<lambda>p. p = ''/bin/docker''), mc_vars = env, mc_path = [''/bin''],
      mc_etc_shells = shells, mc_home = None, mc_vswhere = (\<lambda>_. None)\<rparr>"

definition windows_box :: machine where
  "windows_box =
     \<lparr>mc_windows = True, mc_macos = False, mc_arch = ''x86_64'',
      mc_is_file = (\<lambda>p. p = ''C:'' @ [bslash] @ ''pwsh.exe''), mc_is_dir = (\<lambda>_. False),
      mc_is_executable = (\<lambda>_. False), mc_vars = Map.empty, mc_path = [''C:'' @ [bslash]],
      mc_etc_shells = None, mc_home = None, mc_vswhere = (\<lambda>_. None)\<rparr>"

definition raw_dev :: raw_environment where
  "raw_dev =
     \<lparr>re_id = ''dev'', re_description = None, re_base = None, re_distro = None, re_cwd = Some ''/work'',
      re_prelude = Some ''ls'', re_env = [(''A'', ''1'')]\<rparr>"

definition dev :: custom_environment where
  "dev = \<lparr>ce_id = ''dev'', ce_description = None, ce_base = Default, ce_distro = None, ce_cwd = Some ''/work'',
     ce_prelude = Some ''ls'', ce_env = [(''A'', ''1'')]\<rparr>"

definition dev_registry :: "custom_environment \<Rightarrow> environment_registry" where
  "dev_registry e = empty_registry\<lparr>er_environments := [e]\<rparr>"

lemma dev_validates: "validate sample_parse (unix_box Map.empty None) raw_dev = Some (Inr dev)"
  by code_simp

lemma dev_sound: "sound_registry sample_parse (unix_box Map.empty None) (dev_registry dev)"
  using validate_Inr [OF dev_validates] by (simp add: sound_registry_def dev_registry_def)

lemma dev_plan:
  "resolve_plan_for_host (unix_box Map.empty None) (dev_registry dev) ''local:dev'' =
     Inr \<lparr>ep_program = ''/bin/bash'', ep_prefix = [], ep_style = PosixDashC, ep_prelude = Some ''ls'',
       ep_forwards_stdin = True, ep_label = ''environment '' @ [squote] @ ''dev'' @ [squote] @ '' (Bash)'',
       ep_env = [(''A'', ''1'')], ep_cwd = Some ''/work''\<rparr>"
  by code_simp



section \<open>Where the id and the plan part, and other surprises\<close>

text \<open>
  On Windows an environment without a base runs in PowerShell, and the id says that its verdicts count;
  plain \<open>local\<close>, the same shell, says they do not.
\<close>

lemma windows_default_base_counts_as_bash:
  "(case resolve_plan_for_host windows_box (dev_registry (dev\<lparr>ce_cwd := None\<rparr>)) ''local:dev'' of
      Inl _ \<Rightarrow> False | Inr p \<Rightarrow> ep_style p = PowerShellCommand \<and> \<not> risk_is_classifiable p) \<and>
   host_risk_is_classifiable windows_box (dev_registry (dev\<lparr>ce_cwd := None\<rparr>)) ''local:dev'' \<and>
   \<not> host_risk_is_classifiable windows_box (dev_registry dev) ''local''"
  by code_simp

text \<open>The shell of plain \<open>local\<close> can be overridden; the answer from the id does not look.\<close>

lemma overridden_shell_counts_as_bash:
  "(case resolve_plan_for_host (unix_box [SHELL_ENV \<mapsto> ''pwsh''] None) empty_registry ''local'' of
      Inl _ \<Rightarrow> False | Inr p \<Rightarrow> \<not> risk_is_classifiable p) \<and>
   host_risk_is_classifiable (unix_box [SHELL_ENV \<mapsto> ''pwsh''] None) empty_registry ''local''"
  by code_simp

text \<open>A PowerShell that only \<open>/etc/shells\<close> names is scanned as a POSIX shell, and its verdicts count.\<close>

lemma registered_powershell_counts_as_bash:
  "(case resolve_plan_for_host (unix_box [''SHELL'' \<mapsto> ''/opt/pwsh''] (Some ''/opt/pwsh'')) empty_registry ''local'' of
      Inl _ \<Rightarrow> False
    | Inr p \<Rightarrow> ep_program p = ''/opt/pwsh'' \<and> ep_style p = PosixDashC \<and> risk_is_classifiable p)"
  by code_simp

text \<open>An environment has several ids; a policy that names one of them does not see the others.\<close>

lemma alias_escapes_policy:
  "(let m = unix_box Map.empty None;
        policy = \<lparr>policy_name = ''ps'', policy_hosts = [''local:pwsh''], policy_tags = [], min_risk = None,
          command_pattern = None, requires_approval = True, policy_ttl_secs = None\<rparr>
    in resolve_plan_for_host m empty_registry ''local:powershell'' = resolve_plan_for_host m empty_registry ''local:pwsh'' \<and>
       check_approval_required_with [policy] ''local:pwsh'' [] ''ls'' Low = Some policy \<and>
       check_approval_required_with [policy] ''local:powershell'' [] ''ls'' Low = None)"
  by code_simp

text \<open>A container id may start with a dash, unlike a distribution: the runtime takes it for an option.\<close>

lemma container_id_can_be_an_option:
  "(case resolve_plan_for_host (unix_box Map.empty None) empty_registry ''local:docker:--privileged'' of
      Inl _ \<Rightarrow> False | Inr p \<Rightarrow> ep_prefix p = [''exec'', ''--privileged'', ''/bin/sh'']) \<and>
   validate_distro ''--privileged'' \<noteq> None"
  by code_simp

text \<open>A prelude on which the classifier panics takes the whole file with it, the sound definitions too.\<close>

lemma panicking_prelude_loads_nothing:
  "parse_registry (\<lambda>_. Inr [raw_dev, raw_dev\<lparr>re_id := ''slow'', re_prelude := Some ''timeout 30''\<rparr>]) sample_parse
     (unix_box Map.empty None) content = None \<and>
   parse_registry (\<lambda>_. Inr [raw_dev]) sample_parse (unix_box Map.empty None) content = Some (dev_registry dev)"
  by code_simp

end
