(* ===== verification/Resident_Shell.thy ===== *)
theory Resident_Shell
  imports Local_Plan Audit_Query
begin

text \<open>
  \<open>resident_session.rs\<close>, one session: the frame a command is written in, the sentinel that marks its
  end, the rolling buffer of the output and the wait for a sentinel. The shell itself is a list of
  observations: what its readers have pushed, whether it has exited, whether the session was closed and
  the time, at each poll. Times are in milliseconds.
\<close>

section \<open>Frames\<close>

definition SENTINEL_PREFIX :: str where "SENTINEL_PREFIX = ''__A2S_DONE_''"
definition SESSION_MAX_OUTPUT :: nat where "SESSION_MAX_OUTPUT = 4 * 1024 * 1024"
definition EXIT_GRACE :: nat where "EXIT_GRACE = 2000"
definition OPEN_TIMEOUT_SECS :: nat where "OPEN_TIMEOUT_SECS = 120"

definition resident_args :: "command_style \<Rightarrow> str list" where
  "resident_args style =
     (case style of
        PowerShellCommand \<Rightarrow> [''-NoLogo'', ''-NoProfile'', ''-NonInteractive'', ''-Command'', ''-'']
      | CmdSlashC \<Rightarrow> [''/D'', ''/Q'']
      | PosixDashC \<Rightarrow> []
      | WslLoginShell \<Rightarrow> [])"

definition warmup_command :: "command_style \<Rightarrow> str" where
  "warmup_command style =
     (case style of
        PowerShellCommand \<Rightarrow> ''$null''
      | CmdSlashC \<Rightarrow> ''rem agent2ssh warmup''
      | PosixDashC \<Rightarrow> '':''
      | WslLoginShell \<Rightarrow> '':'')"

definition sentinel_marker :: "str \<Rightarrow> str" where
  "sentinel_marker nonce = SENTINEL_PREFIX @ nonce @ '':''"

definition crlf :: str where "crlf = [CHR 0x0D, newline]"

definition command_frame :: "command_style \<Rightarrow> str \<Rightarrow> str \<Rightarrow> str" where
  "command_frame style command nonce =
     (case style of
        PowerShellCommand \<Rightarrow>
          ''$global:LASTEXITCODE = $null'' @ [newline] @ command @ [newline] @
          ''Write-Output '' @ [dquote] @ sentinel_marker nonce @ ''$LASTEXITCODE'' @ [dquote, newline]
      | CmdSlashC \<Rightarrow>
          ''ver >nul'' @ crlf @ command @ crlf @ ''echo '' @ sentinel_marker nonce @ ''%ERRORLEVEL%'' @ crlf
      | _ \<Rightarrow>
          command @ [newline] @ ''printf '' @ [squote] @ sentinel_marker nonce @ ''%s'' @ [bslash] @ ''n'' @
          [squote] @ '' '' @ [dquote] @ ''$?'' @ [dquote, newline])"

section \<open>Sentinels\<close>

fun position_of :: "str \<Rightarrow> str \<Rightarrow> nat option" where
  "position_of p [] = (if p = [] then Some 0 else None)"
| "position_of p (c # s) = (if starts_with (c # s) p then Some 0 else map_option Suc (position_of p s))"

definition trim_cr :: "str \<Rightarrow> str" where
  "trim_cr s = rev (dropWhile (\<lambda>c. c = CHR 0x0D) (rev s))"

definition parse_i32 :: "str \<Rightarrow> int option" where
  "parse_i32 s =
     (case s of
        c # r \<Rightarrow>
          if c = CHR ''-'' then
            (case digits_value 10 0 r of
               None \<Rightarrow> None
             | Some n \<Rightarrow> if r = [] \<or> n > 2 ^ 31 then None else Some (- int n))
          else map_option int (from_str_radix 31 10 s)
      | [] \<Rightarrow> None)"

text \<open>The line after a marker and the exit code in it; the code may be missing.\<close>

definition line_after :: "str \<Rightarrow> nat \<Rightarrow> str" where
  "line_after data after = takeWhile (\<lambda>c. c \<noteq> newline) (drop after data)"

definition exit_value :: "str \<Rightarrow> int option option" where
  "exit_value line =
     (let v = trim_cr (if utf8_valid line then line else [])
      in if v = [] then Some None else map_option Some (parse_i32 v))"

definition end_of_line :: "str \<Rightarrow> nat \<Rightarrow> nat" where
  "end_of_line data after = min (after + length (line_after data after) + 1) (length data)"

lemma position_bound: "position_of p s = Some i \<Longrightarrow> i + length p \<le> length s"
proof (induction s arbitrary: i)
  case (Cons c s)
  show ?case
  proof (cases "starts_with (c # s) p")
    case True
    then have "length p \<le> length (c # s)" by (auto simp: starts_with_prefix dest: prefix_length_le)
    with True Cons.prems show ?thesis by simp
  next
    case False
    with Cons.prems obtain j where "position_of p s = Some j" "i = Suc j" by auto
    with Cons.IH show ?thesis by auto
  qed
qed (auto split: if_splits)

lemma marker_not_Nil: "sentinel_marker nonce \<noteq> []"
  by (simp add: sentinel_marker_def)

function find_from ::
  "str \<Rightarrow> str \<Rightarrow> nat \<Rightarrow> (nat \<times> nat \<times> int option) option \<Rightarrow> (nat \<times> nat \<times> int option) option" where
  "find_from data nonce pos best =
     (case position_of (sentinel_marker nonce) (drop pos data) of
        None \<Rightarrow> best
      | Some rel \<Rightarrow>
          let start = pos + rel;
              after = start + length (sentinel_marker nonce)
          in find_from data nonce (max after (start + 1))
               (case exit_value (line_after data after) of
                  None \<Rightarrow> best
                | Some code \<Rightarrow> Some (start, end_of_line data after, code)))"
  by auto
termination
proof (relation "measure (\<lambda>(data, _, pos, _). length data - pos)", goal_cases)
  case (2 data nonce pos best rel start after)
  obtain n where n: "length (sentinel_marker nonce) = Suc n" using marker_not_Nil by (cases "sentinel_marker nonce") auto
  with position_bound [OF 2(1)] 2(2,3) show ?case by auto
qed simp

declare find_from.simps [simp del]

definition find_sentinel :: "str \<Rightarrow> str \<Rightarrow> (nat \<times> nat \<times> int option) option" where
  "find_sentinel data nonce = find_from data nonce 0 None"

section \<open>The buffer\<close>

record session_buffer =
  sb_data :: str
  sb_max :: nat
  sb_total :: nat

definition new_buffer :: "nat \<Rightarrow> session_buffer" where
  "new_buffer n = \<lparr>sb_data = [], sb_max = n, sb_total = 0\<rparr>"

definition buffer_push :: "str \<Rightarrow> session_buffer \<Rightarrow> session_buffer" where
  "buffer_push chunk b =
     (let data = sb_data b @ chunk
      in b\<lparr>sb_total := sb_total b + length chunk,
           sb_data := (if length data > sb_max b then drop (length data - sb_max b) data else data)\<rparr>)"

definition buffer_truncated :: "session_buffer \<Rightarrow> bool" where
  "buffer_truncated b \<longleftrightarrow> sb_total b > sb_max b"

definition buffer_dropped :: "session_buffer \<Rightarrow> nat" where
  "buffer_dropped b = sb_total b - sb_max b"

definition buffer_consume :: "nat \<Rightarrow> session_buffer \<Rightarrow> session_buffer" where
  "buffer_consume through b = b\<lparr>sb_data := drop (min through (length (sb_data b))) (sb_data b)\<rparr>"

section \<open>The session\<close>

record resident =
  rs_host :: str
  rs_plan :: environment_plan
  rs_buffer :: session_buffer
  rs_last_active :: nat
  rs_dead :: bool
  rs_running :: bool
  rs_closed :: bool
  rs_tree_killed :: bool

datatype child_status = Alive | Exited "int option" | StatusUnknown str

record capture =
  cc_output :: str
  cc_exit_code :: "int option"
  cc_truncated :: bool
  cc_dropped_bytes :: nat

datatype wait_outcome = Completed capture | WaitTimedOut nat | ShellExited "int option" | WaitClosed

definition kill_tree :: "resident \<Rightarrow> resident" where
  "kill_tree h = h\<lparr>rs_tree_killed := True, rs_dead := True\<rparr>"

text \<open>One poll; \<open>exited\<close> is the time at which the exit of the shell was first seen.\<close>

definition poll_sentinel ::
  "nat \<Rightarrow> nat \<Rightarrow> nat \<Rightarrow> child_status \<Rightarrow> str \<Rightarrow> nat option \<Rightarrow> resident \<Rightarrow>
   (str + wait_outcome option) \<times> nat option \<times> resident" where
  "poll_sentinel now deadline timeout status nonce exited h =
     (if rs_closed h then (Inr (Some WaitClosed), exited, h)
      else case find_sentinel (sb_data (rs_buffer h)) nonce of
        Some (start, end_pos, code) \<Rightarrow>
          (Inr (Some (Completed \<lparr>cc_output = take start (sb_data (rs_buffer h)), cc_exit_code = code,
               cc_truncated = buffer_truncated (rs_buffer h), cc_dropped_bytes = buffer_dropped (rs_buffer h)\<rparr>)),
           exited, h\<lparr>rs_buffer := buffer_consume end_pos (rs_buffer h), rs_last_active := now\<rparr>)
      | None \<Rightarrow>
          let at_deadline = (\<lambda>exited h.
                if now \<ge> deadline then (Inr (Some (WaitTimedOut timeout)), exited, kill_tree h)
                else (Inr None, exited, h))
          in case status of
               StatusUnknown e \<Rightarrow> (Inl e, exited, h)
             | Alive \<Rightarrow> at_deadline exited h
             | Exited code \<Rightarrow>
                 let since = (case exited of None \<Rightarrow> now | Some t \<Rightarrow> t)
                 in if now - since > EXIT_GRACE then
                      (Inr (Some (ShellExited code)), Some since, h\<lparr>rs_dead := True\<rparr>)
                    else at_deadline (Some since) h)"

record observation =
  ob_chunks :: "str list"
  ob_closed :: bool
  ob_status :: child_status
  ob_now :: nat

definition observe :: "observation \<Rightarrow> resident \<Rightarrow> resident" where
  "observe ob h =
     (let h' = h\<lparr>rs_buffer := foldl (\<lambda>b c. buffer_push c b) (rs_buffer h) (ob_chunks ob)\<rparr>
      in if ob_closed ob then h'\<lparr>rs_closed := True, rs_dead := True\<rparr> else h')"

text \<open>The polling loop over what it observes; without an outcome it still waits (\<open>None\<close>).\<close>

fun wait_for_sentinel ::
  "nat \<Rightarrow> nat \<Rightarrow> str \<Rightarrow> nat option \<Rightarrow> observation list \<Rightarrow> resident \<Rightarrow> (str + wait_outcome) option \<times> resident" where
  "wait_for_sentinel deadline timeout nonce exited [] h = (None, h)"
| "wait_for_sentinel deadline timeout nonce exited (ob # obs) h =
     (case poll_sentinel (ob_now ob) deadline timeout (ob_status ob) nonce exited (observe ob h) of
        (Inl e, _, h') \<Rightarrow> (Some (Inl e), h')
      | (Inr (Some outcome), _, h') \<Rightarrow> (Some (Inr outcome), h')
      | (Inr None, exited', h') \<Rightarrow> wait_for_sentinel deadline timeout nonce exited' obs h')"

datatype resident_error = SessionClosed | SessionTimedOut nat | SessionShellExited "int option" | SessionDead | SessionIoFailed str

text \<open>
  \<open>exec_in_session\<close>: its first critical section, and its last one with what follows; \<open>written\<close> is the time
  at which the frame is in the pipe.
\<close>

definition begin_exec :: "nat \<Rightarrow> child_status \<Rightarrow> resident \<Rightarrow> resident_error option \<times> resident" where
  "begin_exec now status h =
     (if rs_closed h then (Some SessionClosed, h)
      else if rs_dead h then (Some SessionDead, h)
      else case status of
        Exited _ \<Rightarrow> (Some SessionDead, h\<lparr>rs_dead := True\<rparr>)
      | _ \<Rightarrow> (None, h\<lparr>rs_running := True, rs_last_active := now\<rparr>))"

definition end_exec :: "nat \<Rightarrow> str + wait_outcome \<Rightarrow> resident \<Rightarrow> (resident_error + capture) \<times> resident" where
  "end_exec now outcome h =
     (let h' = h\<lparr>rs_running := False, rs_last_active := now\<rparr>
      in if rs_closed h then (Inl SessionClosed, h')
         else (case outcome of
                 Inl e \<Rightarrow> Inl (SessionIoFailed e)
               | Inr (Completed c) \<Rightarrow> Inr c
               | Inr WaitClosed \<Rightarrow> Inl SessionClosed
               | Inr (WaitTimedOut t) \<Rightarrow> Inl (SessionTimedOut t)
               | Inr (ShellExited code) \<Rightarrow> Inl (SessionShellExited code), h'))"

definition exec_in_session ::
  "nat \<Rightarrow> child_status \<Rightarrow> str option \<Rightarrow> nat \<Rightarrow> nat \<Rightarrow> str \<Rightarrow> observation list \<Rightarrow> nat \<Rightarrow> resident \<Rightarrow>
   (resident_error + capture) option \<times> resident" where
  "exec_in_session now status write_error written timeout nonce obs finished h =
     (case begin_exec now status h of
        (Some e, h1) \<Rightarrow> (Some (Inl e), h1)
      | (None, h1) \<Rightarrow>
          (case (case write_error of
                   Some e \<Rightarrow> (Some (Inl e), h1)
                 | None \<Rightarrow> wait_for_sentinel (written + timeout * 1000) timeout nonce None obs h1) of
             (None, h2) \<Rightarrow> (None, h2)
           | (Some outcome, h2) \<Rightarrow> map_prod Some id (end_exec finished outcome h2)))"

text \<open>
  \<open>spawn_and_warm\<close> after the spawn: whatever the wait ends in, short of an error of the operating system,
  counts as warm.
\<close>

definition new_resident :: "str \<Rightarrow> environment_plan \<Rightarrow> nat \<Rightarrow> resident" where
  "new_resident host p now =
     \<lparr>rs_host = host, rs_plan = p, rs_buffer = new_buffer SESSION_MAX_OUTPUT, rs_last_active = now,
      rs_dead = False, rs_running = False, rs_closed = False, rs_tree_killed = False\<rparr>"

definition warm_command :: "environment_plan \<Rightarrow> str" where
  "warm_command p = (case ep_prelude p of Some prelude \<Rightarrow> prelude | None \<Rightarrow> warmup_command (ep_style p))"

definition spawn_and_warm ::
  "str \<Rightarrow> environment_plan \<Rightarrow> nat \<Rightarrow> str option \<Rightarrow> nat \<Rightarrow> str \<Rightarrow> observation list \<Rightarrow> (str + resident) option" where
  "spawn_and_warm host p now write_error written nonce obs =
     (case write_error of
        Some e \<Rightarrow> Some (Inl e)
      | None \<Rightarrow>
          (case wait_for_sentinel (written + OPEN_TIMEOUT_SECS * 1000) OPEN_TIMEOUT_SECS nonce None obs
                  (new_resident host p now) of
             (None, _) \<Rightarrow> None
           | (Some (Inl e), _) \<Rightarrow> Some (Inl e)
           | (Some (Inr _), h) \<Rightarrow> Some (Inr (h\<lparr>rs_last_active := now\<rparr>))))"

section \<open>The last sentinel is the one that is found\<close>

definition sentinel_at :: "str \<Rightarrow> str \<Rightarrow> nat \<Rightarrow> int option \<Rightarrow> bool" where
  "sentinel_at data nonce i code \<longleftrightarrow>
     starts_with (drop i data) (sentinel_marker nonce) \<and>
     exit_value (line_after data (i + length (sentinel_marker nonce))) = Some code"

lemma marker_position_None: "position_of p s = None \<longleftrightarrow> (\<forall>i. \<not> (i \<le> length s \<and> starts_with (drop i s) p))"
proof (induction s)
  case (Cons c s)
  have "(\<exists>i. i \<le> length (c # s) \<and> starts_with (drop i (c # s)) p) \<longleftrightarrow>
      starts_with (c # s) p \<or> (\<exists>i. i \<le> length s \<and> starts_with (drop i s) p)"
    by (metis drop0 drop_Suc_Cons length_Cons not_less_eq_eq not0_implies_Suc zero_le)
  with Cons.IH show ?case by (auto simp del: drop_Suc_Cons)
qed (auto simp: starts_with_prefix)

lemma marker_position_Some:
  "position_of p s = Some i \<Longrightarrow> starts_with (drop i s) p \<and> (\<forall>j < i. \<not> starts_with (drop j s) p)"
proof (induction s arbitrary: i)
  case (Cons c s)
  show ?case
  proof (cases "starts_with (c # s) p")
    case True
    with Cons.prems show ?thesis by simp
  next
    case False
    with Cons.prems obtain k where k: "position_of p s = Some k" "i = Suc k" by auto
    from Cons.IH [OF k(1)] have "\<not> starts_with (drop j (c # s)) p" if "j < i" for j
      using that False k(2) by (cases j) auto
    with Cons.IH [OF k(1)] k(2) show ?thesis by simp
  qed
qed (auto split: if_splits simp: starts_with_prefix)

end
