(* ===== verification/Resident_Laws.thy ===== *)
theory Resident_Laws
  imports Resident_Shell
begin

text \<open>
  What a resident session tells its caller: the sentinel that is found is the last one, the output and
  the exit code of an answered command are the shell's, a wait ends, and a command that was not answered
  leaves no session behind. The last section shows what a poll may take for an answer.
\<close>

section \<open>Sentinels do not overlap\<close>

lemma marker_colon:
  assumes "CHR '':'' \<notin> set nonce" "n < length (sentinel_marker nonce)"
  shows "sentinel_marker nonce ! n = CHR '':'' \<longleftrightarrow> n + 1 = length (sentinel_marker nonce)"
proof -
  let ?m = "SENTINEL_PREFIX @ nonce"
  have "CHR '':'' \<notin> set ?m" using assms(1) by (simp add: SENTINEL_PREFIX_def)
  then have "?m ! n \<noteq> CHR '':''" if "n < length ?m" using that nth_mem by metis
  then show ?thesis using assms(2) by (cases "n < length ?m") (auto simp: sentinel_marker_def nth_append)
qed

lemma starts_with_nth:
  assumes "starts_with (drop i s) p" "n < length p"
  shows "i + n < length s \<and> s ! (i + n) = p ! n"
proof -
  from assms(1) obtain r where r: "drop i s = p @ r" by (auto simp: starts_with_prefix prefix_def)
  from arg_cong [OF r, of length] assms(2) have "i + n < length s" by simp
  moreover have "drop i s ! n = p ! n" using r assms(2) by (simp add: nth_append)
  ultimately show ?thesis by simp
qed

lemma markers_apart:
  assumes "CHR '':'' \<notin> set nonce" "starts_with (drop i data) (sentinel_marker nonce)"
    and "starts_with (drop k data) (sentinel_marker nonce)" "i < k"
  shows "i + length (sentinel_marker nonce) \<le> k"
proof (rule ccontr)
  let ?m = "sentinel_marker nonce"
  assume "\<not> i + length ?m \<le> k"
  moreover obtain l where l: "length ?m = Suc l" using marker_not_Nil by (cases ?m) auto
  ultimately have n: "i + (length ?m - 1) = k + (i + l - k)" "(i + l - k) + 1 < length ?m"
    using assms(4) by simp_all
  have "data ! (i + (length ?m - 1)) = CHR '':''"
    using starts_with_nth [OF assms(2), of "length ?m - 1"] marker_colon [OF assms(1), of "length ?m - 1"] marker_not_Nil
    by simp
  moreover have "data ! (k + (i + l - k)) \<noteq> CHR '':''"
    using starts_with_nth [OF assms(3), of "i + l - k"] marker_colon [OF assms(1), of "i + l - k"] n(2) by simp
  ultimately show False using n(1) by simp
qed

text \<open>The search returns the last sentinel at or after its start, or what it started with.\<close>

lemma find_from_last:
  assumes "CHR '':'' \<notin> set nonce"
  shows "(find_from data nonce pos best = best \<and> (\<forall>k \<ge> pos. \<forall>c. \<not> sentinel_at data nonce k c)) \<or>
    (\<exists>i \<ge> pos. \<exists>c. sentinel_at data nonce i c \<and>
       find_from data nonce pos best = Some (i, end_of_line data (i + length (sentinel_marker nonce)), c) \<and>
       (\<forall>k > i. \<forall>c'. \<not> sentinel_at data nonce k c'))"
  using assms
proof (induction data nonce pos best rule: find_from.induct)
  case (1 data nonce pos best)
  let ?m = "sentinel_marker nonce"
  show ?case
  proof (cases "position_of ?m (drop pos data)")
    case None
    have "\<not> sentinel_at data nonce k c" if "k \<ge> pos" for k c
    proof
      assume "sentinel_at data nonce k c"
      then have st: "starts_with (drop (k - pos) (drop pos data)) ?m" using that by (simp add: sentinel_at_def)
      have "k - pos \<le> length (drop pos data)"
        using starts_with_nth [OF st, of 0] marker_not_Nil by simp
      with None st show False by (auto simp: marker_position_None)
    qed
    with None show ?thesis by (auto simp: find_from.simps)
  next
    case (Some rel)
    let ?start = "pos + rel" and ?next = "max (pos + rel + length ?m) (pos + rel + 1)"
    let ?best = "case exit_value (line_after data (pos + rel + length ?m)) of None \<Rightarrow> best
      | Some code \<Rightarrow> Some (?start, end_of_line data (pos + rel + length ?m), code)"
    have step: "find_from data nonce pos best = find_from data nonce ?next ?best"
      using Some by (subst find_from.simps) (simp add: Let_def)
    have here: "starts_with (drop ?start data) ?m" "\<forall>j < rel. \<not> starts_with (drop (pos + j) data) ?m"
      using marker_position_Some [OF Some] by (simp_all add: add.commute)
    have later: "k \<ge> ?next" if "sentinel_at data nonce k c" "k \<ge> pos" "k \<noteq> ?start" for k c
    proof -
      from that(1) have k: "starts_with (drop k data) ?m" by (simp add: sentinel_at_def)
      then have "\<not> k < ?start" using here(2) that(2) by (metis add_less_cancel_left le_Suc_ex)
      with that(3) have "?start < k" by simp
      with markers_apart [OF "1.prems" here(1) k] show ?thesis by simp
    qed
    have beyond: "?start < ?next" by simp
    from "1.IH" [OF Some refl refl "1.prems"]
    consider (none) "find_from data nonce ?next ?best = ?best" "\<forall>k \<ge> ?next. \<forall>c. \<not> sentinel_at data nonce k c"
      | (found) i c where "i \<ge> ?next" "sentinel_at data nonce i c"
          "find_from data nonce ?next ?best = Some (i, end_of_line data (i + length ?m), c)"
          "\<forall>k > i. \<forall>c'. \<not> sentinel_at data nonce k c'"
      by blast
    then show ?thesis
    proof cases
      case found
      then have "i \<ge> pos" by simp
      with found step show ?thesis by auto
    next
      case none
      show ?thesis
      proof (cases "exit_value (line_after data (pos + rel + length ?m))")
        case None
        then have "\<not> sentinel_at data nonce ?start c" for c by (simp add: sentinel_at_def)
        with none(2) later have "\<forall>k \<ge> pos. \<forall>c. \<not> sentinel_at data nonce k c" by blast
        with none(1) None step show ?thesis by simp
      next
        case (Some code)
        then have "sentinel_at data nonce ?start code" using here(1) by (simp add: sentinel_at_def)
        moreover have "\<forall>k > ?start. \<forall>c. \<not> sentinel_at data nonce k c"
          using none(2) later by (metis le_add1 less_le order_trans)
        ultimately show ?thesis using none(1) Some step by (intro disjI2 exI [of _ ?start]) auto
      qed
    qed
  qed
qed

lemma sentinel_at_code: "sentinel_at data nonce i c \<Longrightarrow> sentinel_at data nonce i c' \<Longrightarrow> c = c'"
  by (simp add: sentinel_at_def)

text \<open>
  The sentinel of a command is the last line that can be read as one. For a nonce without
  a colon the scan returns a position, the end of its line and an exit code exactly when a readable
  sentinel stands there and none after it; it returns nothing exactly when there is none.
\<close>

theorem find_sentinel_is_last:
  assumes "CHR '':'' \<notin> set nonce"
  shows "(find_sentinel data nonce = Some (i, j, c) \<longleftrightarrow>
      sentinel_at data nonce i c \<and> j = end_of_line data (i + length (sentinel_marker nonce)) \<and>
      (\<forall>k c'. sentinel_at data nonce k c' \<longrightarrow> k \<le> i)) \<and>
    (find_sentinel data nonce = None \<longleftrightarrow> (\<forall>k c'. \<not> sentinel_at data nonce k c'))"
proof -
  have "(find_sentinel data nonce = None \<and> (\<forall>k c'. \<not> sentinel_at data nonce k c')) \<or>
      (\<exists>i0 c0. sentinel_at data nonce i0 c0 \<and>
        find_sentinel data nonce = Some (i0, end_of_line data (i0 + length (sentinel_marker nonce)), c0) \<and>
        (\<forall>k > i0. \<forall>c'. \<not> sentinel_at data nonce k c'))"
    using find_from_last [OF assms, of data 0 None] by (simp add: find_sentinel_def)
  then show ?thesis
  proof (elim disjE exE conjE)
    assume "find_sentinel data nonce = None" "\<forall>k c'. \<not> sentinel_at data nonce k c'"
    then show ?thesis by auto
  next
    fix i0 c0
    assume found: "sentinel_at data nonce i0 c0"
        "find_sentinel data nonce = Some (i0, end_of_line data (i0 + length (sentinel_marker nonce)), c0)"
        "\<forall>k > i0. \<forall>c'. \<not> sentinel_at data nonce k c'"
    have "i = i0 \<and> c = c0" if "sentinel_at data nonce i c" "\<forall>k c'. sentinel_at data nonce k c' \<longrightarrow> k \<le> i"
    proof -
      have "i0 \<le> i" using that(2) found(1) by blast
      moreover have "\<not> i > i0" using found(3) that(1) by blast
      ultimately have "i = i0" by simp
      with that(1) found(1) sentinel_at_code show ?thesis by blast
    qed
    moreover have "\<forall>k c'. sentinel_at data nonce k c' \<longrightarrow> k \<le> i0" using found(3) by (meson not_le)
    ultimately show ?thesis using found(1,2) by auto
  qed
qed

section \<open>An answered command\<close>

lemma digits_of_nat: "list_all is_ascii_digit (show_nat n)"
proof (induction n rule: show_nat.induct)
  case (1 n)
  have "is_ascii_digit (digit_char d)" if "d < 10" for d
    using small_digit [OF that] by (elim insertE emptyE) (simp_all, code_simp+)
  with 1 show ?case by (subst show_nat.simps) auto
qed

lemma ascii_utf8: "list_all is_ascii_digit s \<Longrightarrow> utf8_valid s"
proof (induction s)
  case (Cons c s)
  then have "byte_in 0 0x7F c" by (simp add: is_ascii_digit_def byte_in_def)
  with Cons show ?case by simp
qed simp

lemma not_digits: "\<not> is_ascii_digit newline" "\<not> is_ascii_digit (CHR 0x0D)" "\<not> is_ascii_digit (CHR ''-'')" "\<not> is_ascii_digit (CHR ''_'')"
  by code_simp+

lemma exit_value_of_nat:
  assumes "n < 2 ^ 31"
  shows "exit_value (show_nat n) = Some (Some (int n))"
proof -
  obtain c r where cr: "show_nat n = c # r" by (cases "show_nat n") auto
  have digits: "\<forall>c \<in> set (show_nat n). is_ascii_digit c" using digits_of_nat by (simp add: list_all_iff)
  then have "c \<noteq> CHR ''-''" using cr not_digits(3) by auto
  then have "parse_i32 (show_nat n) = Some (int n)" using parse_show [OF assms] by (simp add: parse_i32_def cr)
  moreover have "trim_cr (show_nat n) = show_nat n"
  proof -
    have "last (show_nat n) \<noteq> CHR 0x0D" using digits not_digits(2) last_in_set [OF show_nat_not_Nil, of n] by metis
    then obtain q l where "show_nat n = q @ [l]" "l \<noteq> CHR 0x0D" by (metis append_butlast_last_id show_nat_not_Nil)
    then show ?thesis by (simp add: trim_cr_def)
  qed
  ultimately show ?thesis using ascii_utf8 [OF digits_of_nat] by (simp add: exit_value_def)
qed

text \<open>What a POSIX shell prints for the frame's \<open>printf\<close>.\<close>

definition answer :: "str \<Rightarrow> nat \<Rightarrow> str" where
  "answer nonce n = sentinel_marker nonce @ show_nat n @ [newline]"

lemma line_after_answer: "line_after (out @ answer nonce n @ rest) (length out + length (sentinel_marker nonce)) = show_nat n"
proof -
  have "\<forall>c \<in> set (show_nat n). c \<noteq> newline" using digits_of_nat not_digits(1) by (auto simp: list_all_iff)
  then show ?thesis by (simp add: line_after_def answer_def takeWhile_append2)
qed

lemma no_marker_after:
  assumes "CHR '':'' \<notin> set nonce" "CHR ''_'' \<notin> set t" "\<not> contains rest (sentinel_marker nonce)"
    and "k > length out"
  shows "\<not> starts_with (drop k (out @ sentinel_marker nonce @ t @ rest)) (sentinel_marker nonce)"
proof
  let ?m = "sentinel_marker nonce" and ?data = "out @ sentinel_marker nonce @ t @ rest"
  assume k: "starts_with (drop k ?data) ?m"
  have first: "starts_with (drop (length out) ?data) ?m" by (simp add: starts_with_prefix)
  from markers_apart [OF assms(1) first k assms(4)] have apart: "length out + length ?m \<le> k" .
  have head: "?m ! 0 = CHR ''_''" "0 < length ?m" by (simp_all add: sentinel_marker_def SENTINEL_PREFIX_def)
  have at: "?data ! k = CHR ''_''" using starts_with_nth [OF k head(2)] head(1) by simp
  define j where "j = k - (length out + length ?m)"
  have j: "k = length out + length ?m + j" using apart by (simp add: j_def)
  have "j \<ge> length t"
  proof (rule ccontr)
    assume "\<not> j \<ge> length t"
    then have "?data ! k \<in> set t" using j by (simp add: nth_append)
    with at assms(2) show False by simp
  qed
  then obtain i where "k = length out + length ?m + length t + i" using j by (auto dest: le_Suc_ex)
  with k have "starts_with (drop i rest) ?m" by simp
  then show False using assms(3) by (metis append_take_drop_id contains_append prefixE starts_with_prefix)
qed

lemma digits_no_underscore: "CHR ''_'' \<notin> set (show_nat n)"
  using digits_of_nat [of n] not_digits(4) by (auto simp: list_all_iff)

lemma answer_in_buffer:
  assumes "CHR '':'' \<notin> set nonce" "n < 2 ^ 31" "\<not> contains rest (sentinel_marker nonce)"
    and "\<not> rs_closed h" "sb_data (rs_buffer h) = out @ answer nonce n @ rest"
  shows "\<exists>c h'. poll_sentinel now deadline timeout status nonce exited h = (Inr (Some (Completed c)), exited, h') \<and>
    cc_output c = out \<and> cc_exit_code c = Some (int n) \<and> sb_data (rs_buffer h') = rest \<and> rs_dead h' = rs_dead h"
proof -
  let ?m = "sentinel_marker nonce" and ?data = "out @ answer nonce n @ rest"
  have here: "sentinel_at ?data nonce (length out) (Some (int n))"
    using line_after_answer exit_value_of_nat [OF assms(2)]
    by (simp add: sentinel_at_def answer_def starts_with_prefix)
  have "\<not> sentinel_at ?data nonce k c'" if "k > length out" for k c'
    using no_marker_after [of nonce "show_nat n @ [newline]" rest out k] assms(1,3) that digits_no_underscore
    by (simp add: sentinel_at_def answer_def)
  with find_from_last [OF assms(1), of ?data 0 None] here
  have "find_sentinel ?data nonce = Some (length out, end_of_line ?data (length out + length ?m), Some (int n))"
    unfolding find_sentinel_def by (metis le0 linorder_neqE_nat sentinel_at_code)
  moreover have "end_of_line ?data (length out + length ?m) = length out + length (answer nonce n)"
    by (simp add: end_of_line_def line_after_answer) (simp add: answer_def)
  ultimately show ?thesis
    using assms(4,5) by (simp add: poll_sentinel_def buffer_consume_def)
qed

text \<open>The buffer is a window on the end of what was pushed.\<close>

lemma push_window:
  "length (sb_data b) \<le> sb_max b \<Longrightarrow>
   sb_data (buffer_push c b) = drop (length (sb_data b @ c) - sb_max b) (sb_data b @ c) \<and>
   sb_max (buffer_push c b) = sb_max b \<and> sb_total (buffer_push c b) = sb_total b + length c \<and>
   length (sb_data (buffer_push c b)) \<le> sb_max b"
  by (auto simp: buffer_push_def Let_def)

lemma drop_window:
  "drop (length (drop (length u - m) u @ v) - m) (drop (length u - m) u @ v) = drop (length (u @ v) - m) (u @ v)"
proof (cases "length u \<le> m")
  case False
  then have "drop (length u - m) u @ v = drop (length u - m) (u @ v)" by simp
  with False show ?thesis by (simp add: add.commute)
qed simp

lemma pushes_window:
  assumes "length (sb_data b) \<le> sb_max b"
  shows "sb_data (foldl (\<lambda>b c. buffer_push c b) b cs) =
      drop (length (sb_data b @ concat cs) - sb_max b) (sb_data b @ concat cs) \<and>
    sb_max (foldl (\<lambda>b c. buffer_push c b) b cs) = sb_max b \<and>
    sb_total (foldl (\<lambda>b c. buffer_push c b) b cs) = sb_total b + length (concat cs)"
  using assms
proof (induction cs arbitrary: b)
  case (Cons c cs)
  note one = push_window [OF Cons.prems, of c]
  then have small: "length (sb_data (buffer_push c b)) \<le> sb_max (buffer_push c b)" by simp
  from Cons.IH [OF small] one drop_window [of "sb_data b @ c" "sb_max b" "concat cs"] show ?case by simp
qed simp

text \<open>
  Property (C15): an answered command is read exactly. When the readers of an open session have pushed, in
  whatever pieces, some output and then the shell's answer with the exit code, the poll returns that code
  and the output since the last command, without its oldest bytes if the buffer cannot hold them all;
  nothing the output contains is taken for the answer, and the buffer is empty for the next command.
\<close>

theorem answered_command_is_read:
  assumes "CHR '':'' \<notin> set nonce" "n < 2 ^ 31" "\<not> rs_closed h" "\<not> ob_closed ob"
    and "length (sb_data (rs_buffer h)) \<le> sb_max (rs_buffer h)" "length (answer nonce n) \<le> sb_max (rs_buffer h)"
    and "concat (ob_chunks ob) = out @ answer nonce n"
  shows "\<exists>c h'. poll_sentinel (ob_now ob) deadline timeout (ob_status ob) nonce exited (observe ob h) =
      (Inr (Some (Completed c)), exited, h') \<and>
    cc_exit_code c = Some (int n) \<and>
    cc_output c = drop (length (sb_data (rs_buffer h) @ out @ answer nonce n) - sb_max (rs_buffer h)) (sb_data (rs_buffer h) @ out) \<and>
    sb_data (rs_buffer h') = []"
proof -
  let ?b = "rs_buffer h" and ?a = "answer nonce n"
  let ?all = "sb_data ?b @ out @ ?a"
  have "sb_data (rs_buffer (observe ob h)) = drop (length ?all - sb_max ?b) ?all"
    using pushes_window [OF assms(5), of "ob_chunks ob"] assms(4,7) by (simp add: observe_def Let_def)
  also have "\<dots> = drop (length ?all - sb_max ?b) (sb_data ?b @ out) @ ?a @ []"
    using assms(6) by (simp add: append_assoc [symmetric] del: append_assoc)
  finally have data: "sb_data (rs_buffer (observe ob h)) = drop (length ?all - sb_max ?b) (sb_data ?b @ out) @ ?a @ []" .
  have "\<not> contains [] (sentinel_marker nonce)" by (simp add: contains_sublist marker_not_Nil)
  moreover have "\<not> rs_closed (observe ob h)" using assms(3,4) by (simp add: observe_def Let_def)
  ultimately show ?thesis
    using answer_in_buffer [OF assms(1,2) _ _ data, of "ob_now ob" deadline timeout "ob_status ob" exited] by blast
qed

section \<open>A wait ends\<close>

lemma kill_tree_dead: "rs_dead (kill_tree h)"
  by (simp add: kill_tree_def)

definition session_ok :: "resident \<Rightarrow> bool" where
  "session_ok h \<longleftrightarrow> (rs_closed h \<longrightarrow> rs_dead h)"

lemma observe_ok: "session_ok h \<Longrightarrow> session_ok (observe ob h)"
  by (simp add: session_ok_def observe_def Let_def)

lemma poll_outcome:
  assumes "poll_sentinel now deadline timeout status nonce exited h = (r, exited', h')" "session_ok h"
  shows "session_ok h' \<and>
    (case r of
       Inl e \<Rightarrow> status = StatusUnknown e
     | Inr None \<Rightarrow> now < deadline
     | Inr (Some out) \<Rightarrow> (\<exists>c. out = Completed c) \<or> rs_dead h')"
  using assms
  by (auto simp: poll_sentinel_def session_ok_def kill_tree_def Let_def
      split: if_splits option.splits prod.splits child_status.splits)

lemma wait_ends:
  assumes "wait_for_sentinel deadline timeout nonce exited obs h = (r, h')" "session_ok h"
  shows "session_ok h' \<and>
    (r = None \<longrightarrow> list_all (\<lambda>ob. ob_now ob < deadline) obs) \<and>
    (\<forall>out. r = Some (Inr out) \<longrightarrow> (\<exists>c. out = Completed c) \<or> rs_dead h')"
  using assms
proof (induction obs arbitrary: exited h)
  case (Cons ob obs)
  obtain p exited1 h1 where p: "poll_sentinel (ob_now ob) deadline timeout (ob_status ob) nonce exited (observe ob h) = (p, exited1, h1)"
    by (metis prod_cases3)
  note out = poll_outcome [OF p observe_ok [OF Cons.prems(2)]]
  show ?case
  proof (cases p)
    case (Inl e)
    with Cons.prems p out show ?thesis by auto
  next
    case (Inr o1)
    show ?thesis
    proof (cases o1)
      case None
      with Inr Cons.prems(1) p have "wait_for_sentinel deadline timeout nonce exited1 obs h1 = (r, h')" by simp
      from Cons.IH [OF this] out None Inr show ?thesis by simp
    next
      case (Some outcome)
      with Inr Cons.prems p out show ?thesis by auto
    qed
  qed
qed simp

text \<open>
  Property (C36): a command of a session ends by its deadline, and an unanswered one ends the session. With
  a poll at or after the deadline the execution returns; it returns a captured answer, or an error of the
  operating system, or the session is dead afterwards and takes no further command.
\<close>

theorem unanswered_command_ends_session:
  assumes "session_ok h" "ob \<in> set obs" "ob_now ob \<ge> written + timeout * 1000"
  shows "\<exists>r h'. exec_in_session now status write_error written timeout nonce obs finished h = (Some r, h') \<and>
    ((\<exists>c. r = Inr c) \<or> (\<exists>e. r = Inl (SessionIoFailed e)) \<or>
     (\<forall>now' status'. fst (begin_exec now' status' h') \<noteq> None))"
proof (cases "begin_exec now status h")
  case (Pair e h1)
  show ?thesis
  proof (cases e)
    case (Some err)
    with Pair have "rs_closed h1 \<or> rs_dead h1"
      by (auto simp: begin_exec_def split: if_splits child_status.splits)
    with Some Pair show ?thesis by (auto simp: exec_in_session_def begin_exec_def)
  next
    case None
    with Pair assms(1) have ok: "session_ok h1"
      by (auto simp: begin_exec_def session_ok_def split: if_splits child_status.splits)
    show ?thesis
    proof (cases write_error)
      case (Some w)
      with Pair None ok show ?thesis
        by (auto simp: exec_in_session_def end_exec_def begin_exec_def session_ok_def Let_def)
    next
      case no_error: None
      obtain r h2 where wait: "wait_for_sentinel (written + timeout * 1000) timeout nonce None obs h1 = (r, h2)"
        by fastforce
      note ended = wait_ends [OF wait ok]
      then obtain outcome where r: "r = Some outcome" using assms(2,3) by (cases r) (auto simp: list_all_iff)
      show ?thesis
      proof (cases outcome)
        case (Inl e)
        with Pair None no_error wait r ended show ?thesis
          by (auto simp: exec_in_session_def end_exec_def begin_exec_def session_ok_def Let_def)
      next
        case (Inr out)
        with Pair None no_error wait r ended show ?thesis
          by (cases out)
             (auto simp: exec_in_session_def end_exec_def begin_exec_def session_ok_def Let_def)
      qed
    qed
  qed
qed

section \<open>Examples, and what a poll believes\<close>

lemma find_sentinel_is_last_witness:
  "sentinel_at (sentinel_marker ''ab'' @ [newline] @ sentinel_marker ''ab'' @ [newline]) ''ab'' 15 None"
proof -
  let ?data = "sentinel_marker ''ab'' @ [newline] @ sentinel_marker ''ab'' @ [newline]"
  have "CHR '':'' \<notin> set ''ab''" by simp
  moreover have "find_sentinel ?data ''ab'' = Some (15, 30, None)" by code_simp
  ultimately show ?thesis using find_sentinel_is_last [of "''ab''" ?data 15 30 None] by blast
qed

definition demo_shell :: environment_plan where
  "demo_shell =
     \<lparr>ep_program = ''/bin/sh'', ep_prefix = [], ep_style = PosixDashC, ep_prelude = None, ep_forwards_stdin = True,
      ep_label = ''sh'', ep_env = [], ep_cwd = None\<rparr>"

definition demo_session :: resident where
  "demo_session = new_resident ''local'' demo_shell 0"

lemma demo_session_fields:
  "\<not> rs_closed demo_session" "\<not> rs_dead demo_session" "session_ok demo_session" "sb_data (rs_buffer demo_session) = []"
  "sb_max (rs_buffer demo_session) = SESSION_MAX_OUTPUT"
  by (simp_all add: demo_session_def new_resident_def new_buffer_def session_ok_def)

lemma answered_command_is_read_witness:
  "\<exists>c h'. poll_sentinel 5 100 60 Alive ''ab'' None
      (observe \<lparr>ob_chunks = [''h'', ''i'' @ answer ''ab'' 7], ob_closed = False, ob_status = Alive, ob_now = 5\<rparr> demo_session) =
      (Inr (Some (Completed c)), None, h') \<and> cc_exit_code c = Some 7 \<and> cc_output c = ''hi''"
proof -
  let ?ob = "\<lparr>ob_chunks = [''h'', ''i'' @ answer ''ab'' 7], ob_closed = False, ob_status = Alive, ob_now = 5\<rparr>"
  have len: "length (answer ''ab'' 7) = 16" by code_simp
  show ?thesis
    using answered_command_is_read [of "''ab''" 7 demo_session ?ob "''hi''" 100 60 None]
    by (auto simp: demo_session_fields len SESSION_MAX_OUTPUT_def)
qed

lemma unanswered_command_ends_session_witness:
  "\<exists>r h'. exec_in_session 0 Alive None 0 1 ''ab'' [\<lparr>ob_chunks = [], ob_closed = False, ob_status = Alive, ob_now = 1000\<rparr>] 1000
      demo_session = (Some r, h')"
  using unanswered_command_ends_session [OF demo_session_fields(3), of "\<lparr>ob_chunks = [], ob_closed = False, ob_status = Alive, ob_now = 1000\<rparr>"
      "[\<lparr>ob_chunks = [], ob_closed = False, ob_status = Alive, ob_now = 1000\<rparr>]" 0 1 0 Alive None "''ab''" 1000]
  by auto

text \<open>
  A poll does not wait for the end of the sentinel's line: when the readers have pushed only a part of the
  exit code, the part is the code, and the rest of the line is the output of the next command.
\<close>

lemma torn_answer:
  assumes "CHR '':'' \<notin> set nonce" "n < 2 ^ 31"
  shows "\<exists>j. find_sentinel (out @ sentinel_marker nonce @ show_nat n) nonce = Some (length out, j, Some (int n))"
proof -
  let ?data = "out @ sentinel_marker nonce @ show_nat n"
  have "line_after ?data (length out + length (sentinel_marker nonce)) = show_nat n"
    using digits_of_nat not_digits(1) by (auto simp: line_after_def list_all_iff takeWhile_eq_all_conv)
  then have here: "sentinel_at ?data nonce (length out) (Some (int n))"
    using exit_value_of_nat [OF assms(2)] by (simp add: sentinel_at_def starts_with_prefix)
  have "\<not> sentinel_at ?data nonce k c'" if "k > length out" for k c'
    using no_marker_after [of nonce "show_nat n" "[]" out k] assms(1) that digits_no_underscore
    by (simp add: sentinel_at_def contains_sublist marker_not_Nil)
  with find_from_last [OF assms(1), of ?data 0 None] here show ?thesis
    unfolding find_sentinel_def by (metis le0 linorder_neqE_nat sentinel_at_code)
qed

lemma torn_sentinel_is_believed:
  "(\<exists>j. find_sentinel (''hi'' @ sentinel_marker ''ab'' @ ''127'') ''ab'' = Some (2, j, Some 127)) \<and>
   (\<exists>j. find_sentinel (''hi'' @ sentinel_marker ''ab'' @ ''1'') ''ab'' = Some (2, j, Some 1)) \<and>
   (\<exists>j. find_sentinel (''hi'' @ sentinel_marker ''ab'') ''ab'' = Some (2, j, None))"
proof -
  have shown: "show_nat 127 = ''127''" "show_nat 1 = ''1''" by code_simp+
  have "find_sentinel (''hi'' @ sentinel_marker ''ab'') ''ab'' = Some (2, 16, None)" by code_simp
  moreover have two: "length ''hi'' = 2" by simp
  have "\<exists>j. find_sentinel (''hi'' @ sentinel_marker ''ab'' @ ''127'') ''ab'' = Some (2, j, Some 127)"
    using torn_answer [of "''ab''" 127 "''hi''"] unfolding shown two by simp
  moreover have "\<exists>j. find_sentinel (''hi'' @ sentinel_marker ''ab'' @ ''1'') ''ab'' = Some (2, j, Some 1)"
    using torn_answer [of "''ab''" 1 "''hi''"] unfolding shown two by simp
  ultimately show ?thesis by blast
qed

text \<open>
  Output that was consumed counts as dropped: once a session has printed more than its buffer holds, every
  later command is reported as truncated, although nothing it printed was lost.
\<close>

lemma consumed_output_counts_as_dropped:
  assumes "length u \<le> m" "length v \<le> m" "length u + length v > m"
  shows "(let b = buffer_push v (buffer_consume (length u) (buffer_push u (new_buffer m)))
    in sb_data b = v \<and> buffer_truncated b \<and> buffer_dropped b = length u + length v - m)"
  using assms
  by (simp add: buffer_push_def buffer_consume_def new_buffer_def buffer_truncated_def buffer_dropped_def Let_def)

text \<open>A shell that does not answer the warm-up in time is killed, and its session is opened all the same.\<close>

lemma failed_warmup_opens_session:
  "\<exists>h. spawn_and_warm host p 0 None 0 nonce
      [\<lparr>ob_chunks = [], ob_closed = False, ob_status = Alive, ob_now = OPEN_TIMEOUT_SECS * 1000\<rparr>] = Some (Inr h) \<and>
    rs_dead h \<and> rs_tree_killed h \<and> fst (begin_exec now status h) = Some SessionDead"
proof -
  have "position_of (sentinel_marker nonce) [] = None" using marker_not_Nil by simp
  then have "find_sentinel [] nonce = None" by (simp add: find_sentinel_def find_from.simps)
  then show ?thesis
    by (simp add: spawn_and_warm_def new_resident_def new_buffer_def observe_def poll_sentinel_def kill_tree_def
        begin_exec_def Let_def)
qed

end
