(* ===== verification/Resident_Registry.thy ===== *)
theory Resident_Registry
  imports Resident_Laws Lifecycle Request_Laws
begin

text \<open>
  The resident sessions of the daemon: the registry of \<open>resident_session.rs\<close> with its cap, its idle time
  and the lifecycle entry of each session, and the handlers of \<open>bin/agent2ssh-daemon.rs\<close>. What happens
  inside a session is \<open>Resident_Shell\<close>. The registry is the list of its entries; opening is two critical
  sections, with the warm-up of the shell between them.
\<close>

section \<open>Bytes shown as text\<close>

text \<open>
  \<open>String::from_utf8_lossy\<close>: every maximal piece that starts like a character but is none becomes one
  replacement character. \<open>utf8_step\<close> says whether a byte and what follows it start with a character, and how
  many of the following bytes belong to the character or to the broken piece.
\<close>

abbreviation cont :: "char \<Rightarrow> bool" where "cont \<equiv> byte_in 0x80 0xBF"

fun utf8_run :: "(char \<Rightarrow> bool) list \<Rightarrow> str \<Rightarrow> bool \<times> nat" where
  "utf8_run [] s = (True, 0)"
| "utf8_run (p # ps) [] = (False, 0)"
| "utf8_run (p # ps) (b # s) = (if p b then map_prod id Suc (utf8_run ps s) else (False, 0))"

definition utf8_step :: "char \<Rightarrow> str \<Rightarrow> bool \<times> nat" where
  "utf8_step a s =
     (if byte_in 0 0x7F a then (True, 0)
      else if byte_in 0xC2 0xDF a then utf8_run [cont] s
      else if byte_in 0xE0 0xE0 a then utf8_run [byte_in 0xA0 0xBF, cont] s
      else if byte_in 0xED 0xED a then utf8_run [byte_in 0x80 0x9F, cont] s
      else if byte_in 0xE1 0xEF a then utf8_run [cont, cont] s
      else if byte_in 0xF0 0xF0 a then utf8_run [byte_in 0x90 0xBF, cont, cont] s
      else if byte_in 0xF4 0xF4 a then utf8_run [byte_in 0x80 0x8F, cont, cont] s
      else if byte_in 0xF1 0xF3 a then utf8_run [cont, cont, cont] s
      else (False, 0))"

definition REPLACEMENT :: str where "REPLACEMENT = [CHR 0xEF, CHR 0xBF, CHR 0xBD]"

function from_utf8_lossy :: "str \<Rightarrow> str" where
  "from_utf8_lossy [] = []"
| "from_utf8_lossy (a # s) =
     (case utf8_step a s of
        (ok, n) \<Rightarrow> (if ok then a # take n s else REPLACEMENT) @ from_utf8_lossy (drop n s))"
  by pat_completeness auto
termination by (relation "measure length") auto

section \<open>The registry\<close>

definition MAX_SESSIONS_DEFAULT :: nat where "MAX_SESSIONS_DEFAULT = 8"
definition IDLE_TTL_DEFAULT :: nat where "IDLE_TTL_DEFAULT = 600"
definition MAX_SESSIONS_ENV :: str where "MAX_SESSIONS_ENV = ''AGENT2SSH_MAX_RESIDENT_SESSIONS''"
definition IDLE_TTL_ENV :: str where "IDLE_TTL_ENV = ''AGENT2SSH_RESIDENT_IDLE_TTL_SECS''"

definition env_count :: "machine \<Rightarrow> str \<Rightarrow> nat \<Rightarrow> nat" where
  "env_count m name n =
     (case Option.bind (env_var m name) (\<lambda>v. from_str_radix 64 10 (trim v)) of None \<Rightarrow> n | Some k \<Rightarrow> k)"

definition max_resident_sessions :: "machine \<Rightarrow> nat" where
  "max_resident_sessions m = env_count m MAX_SESSIONS_ENV MAX_SESSIONS_DEFAULT"

definition idle_ttl_secs :: "machine \<Rightarrow> nat" where
  "idle_ttl_secs m = env_count m IDLE_TTL_ENV IDLE_TTL_DEFAULT"

record resident_world =
  rw_sessions :: "(session_id \<times> resident) list"
  rw_life :: registry

datatype open_error =
    ContainerHost str
  | NoPlan plan_error
  | NestedTooDeep nat
  | SessionLimit nat nat
  | LifecycleRefused lifecycle_error
  | NotWarm str

definition reject_container_host :: "str \<Rightarrow> bool" where
  "reject_container_host host \<longleftrightarrow> container_target_for_host host \<noteq> None"

text \<open>What an opening reads and draws; \<open>oe_show\<close> writes a session id as a string.\<close>

record open_env =
  oe_machine :: machine
  oe_environments :: environment_registry
  oe_id :: session_id
  oe_show :: "session_id \<Rightarrow> str"
  oe_is_uuid :: "str \<Rightarrow> bool"
  oe_nonce :: nonce
  oe_owner :: nat
  oe_now :: nat

definition at_cap :: "machine \<Rightarrow> resident_world \<Rightarrow> bool" where
  "at_cap m w \<longleftrightarrow> max_resident_sessions m > 0 \<and> length (rw_sessions w) \<ge> max_resident_sessions m"

definition begin_open ::
  "open_env \<Rightarrow> str \<Rightarrow> resident_world \<Rightarrow> (open_error + environment_plan \<times> reservation) \<times> resident_world" where
  "begin_open o1 host w =
     (if reject_container_host host then (Inl (ContainerHost host), w)
      else case resolve_plan_for_host (oe_machine o1) (oe_environments o1) host of
        Inl e \<Rightarrow> (Inl (NoPlan e), w)
      | Inr p \<Rightarrow>
          (case check_exec_depth (oe_machine o1) of
             Inl depth \<Rightarrow> (Inl (NestedTooDeep depth), w)
           | Inr _ \<Rightarrow>
               if at_cap (oe_machine o1) w then
                 (Inl (SessionLimit (length (rw_sessions w)) (max_resident_sessions (oe_machine o1))), w)
               else
                 (case reserve (oe_is_uuid o1) (oe_nonce o1) (oe_now o1) (oe_show o1 (oe_id o1)) ResidentSession
                         (Headless (oe_owner o1)) (rw_life w) of
                    (Inl e, life) \<Rightarrow> (Inl (LifecycleRefused e), w\<lparr>rw_life := life\<rparr>)
                  | (Inr g, life) \<Rightarrow> (Inr (p, g), w\<lparr>rw_life := life\<rparr>))))"

text \<open>\<open>warm\<close> is what \<open>spawn_and_warm\<close> returned. A reservation that is not activated is dropped.\<close>

definition end_open ::
  "open_env \<Rightarrow> reservation \<Rightarrow> str + resident \<Rightarrow> resident_world \<Rightarrow> (open_error + resident) \<times> resident_world" where
  "end_open o1 g warm w =
     (case warm of
        Inl e \<Rightarrow> (Inl (NotWarm e), w\<lparr>rw_life := drop_guard g (rw_life w)\<rparr>)
      | Inr h \<Rightarrow>
          if at_cap (oe_machine o1) w then
            (Inl (SessionLimit (length (rw_sessions w)) (max_resident_sessions (oe_machine o1))),
             w\<lparr>rw_life := drop_guard g (rw_life w)\<rparr>)
          else
            (let w1 = w\<lparr>rw_sessions := AList.update (oe_id o1) h (rw_sessions w)\<rparr>
             in case activate_guard g (rw_life w) of
                  (Some e, life) \<Rightarrow> (Inl (LifecycleRefused e), w1\<lparr>rw_life := life\<rparr>)
                | (None, life) \<Rightarrow> (Inr h, w1\<lparr>rw_life := life\<rparr>)))"

text \<open>The whole opening; \<open>others\<close> is what the rest of the daemon does during the warm-up.\<close>

definition resident_open_core ::
  "open_env \<Rightarrow> (environment_plan \<Rightarrow> (str + resident) option) \<Rightarrow> (resident_world \<Rightarrow> resident_world) \<Rightarrow> str \<Rightarrow>
   resident_world \<Rightarrow> ((open_error + resident) \<times> resident_world) option" where
  "resident_open_core o1 spawn_shell others host w =
     (case begin_open o1 host w of
        (Inl e, w1) \<Rightarrow> Some (Inl e, w1)
      | (Inr (p, g), w1) \<Rightarrow> map_option (\<lambda>warm. end_open o1 g warm (others w1)) (spawn_shell p))"

definition session_host :: "session_id \<Rightarrow> resident_world \<Rightarrow> str option" where
  "session_host i w = map_option rs_host (map_of (rw_sessions w) i)"

definition resident_close_core ::
  "(session_id \<Rightarrow> str) \<Rightarrow> session_id \<Rightarrow> resident_world \<Rightarrow> str option \<times> resident_world" where
  "resident_close_core id_text i w =
     (case map_of (rw_sessions w) i of
        None \<Rightarrow> (None, w)
      | Some h \<Rightarrow>
          (Some (rs_host h),
           w\<lparr>rw_sessions := AList.delete i (rw_sessions w),
             rw_life := snd (close (id_text i) None (rw_life w))\<rparr>))"

definition expired_sessions :: "machine \<Rightarrow> nat \<Rightarrow> resident_world \<Rightarrow> session_id list" where
  "expired_sessions m now w =
     map fst (filter (\<lambda>(i, h). \<not> rs_dead h \<and> \<not> rs_running h \<and> now - rs_last_active h > idle_ttl_secs m * 1000)
       (rw_sessions w))"

fun close_each :: "(session_id \<Rightarrow> str) \<Rightarrow> session_id list \<Rightarrow> resident_world \<Rightarrow> nat \<times> resident_world" where
  "close_each id_text [] w = (0, w)"
| "close_each id_text (i # is) w =
     (case resident_close_core id_text i w of
        (closed, w1) \<Rightarrow>
          (case close_each id_text is w1 of
             (n, w2) \<Rightarrow> ((if closed = None then n else n + 1), w2)))"

text \<open>\<open>others\<close> is what happens between the look at the sessions and the closing.\<close>

definition reap_idle_sessions ::
  "machine \<Rightarrow> (session_id \<Rightarrow> str) \<Rightarrow> nat \<Rightarrow> (resident_world \<Rightarrow> resident_world) \<Rightarrow> resident_world \<Rightarrow>
   nat \<times> resident_world" where
  "reap_idle_sessions m id_text now others w = close_each id_text (expired_sessions m now w) (others w)"

text \<open>A read changes nothing; a shell that has exited is reported dead.\<close>

record resident_detail =
  rd_id :: session_id
  rd_host :: str
  rd_label :: str
  rd_idle_secs :: nat
  rd_dead :: bool
  rd_output :: str
  rd_truncated :: bool
  rd_dropped_bytes :: nat

definition resident_get_core :: "nat \<Rightarrow> session_id \<Rightarrow> child_status \<Rightarrow> resident_world \<Rightarrow> resident_detail option" where
  "resident_get_core now i status w =
     map_option (\<lambda>h. \<lparr>rd_id = i, rd_host = rs_host h, rd_label = ep_label (rs_plan h),
          rd_idle_secs = (now - rs_last_active h) div 1000,
          rd_dead = (rs_dead h \<or> (case status of Exited _ \<Rightarrow> True | _ \<Rightarrow> False)),
          rd_output = from_utf8_lossy (sb_data (rs_buffer h)), rd_truncated = buffer_truncated (rs_buffer h),
          rd_dropped_bytes = buffer_dropped (rs_buffer h)\<rparr>) (map_of (rw_sessions w) i)"

record resident_summary =
  rm_id :: session_id
  rm_host :: str
  rm_label :: str
  rm_idle_secs :: nat
  rm_dead :: bool

definition resident_list_core :: "nat \<Rightarrow> resident_world \<Rightarrow> resident_summary list" where
  "resident_list_core now w =
     map (\<lambda>(i, h). \<lparr>rm_id = i, rm_host = rs_host h, rm_label = ep_label (rs_plan h),
          rm_idle_secs = (now - rs_last_active h) div 1000, rm_dead = rs_dead h\<rparr>) (rw_sessions w)"

section \<open>Commands\<close>

text \<open>What a command meets: the arguments of \<open>exec_in_session\<close> and the measured duration.\<close>

record exec_io =
  xi_now :: nat
  xi_status :: child_status
  xi_write_error :: "str option"
  xi_written :: nat
  xi_nonce :: str
  xi_obs :: "observation list"
  xi_finished :: nat
  xi_duration :: nat

datatype resident_refusal = ResidentRefused refusal | UnknownSession | ResidentFailed resident_error | OpenFailed open_error

text \<open>The handle is shared: a session that was closed meanwhile is no longer in the registry.\<close>

definition store_handle :: "session_id \<Rightarrow> resident \<Rightarrow> (session_id \<times> resident) list \<Rightarrow> (session_id \<times> resident) list" where
  "store_handle i h ss = (if rs_closed h then AList.delete i ss else AList.update i h ss)"

definition resident_result ::
  "machine \<Rightarrow> environment_registry \<Rightarrow> str \<Rightarrow> str \<Rightarrow> risk_level \<Rightarrow> str option \<Rightarrow> nat \<Rightarrow> capture \<Rightarrow> exec_result" where
  "resident_result m envs host command risk side_effect duration c =
     \<lparr>er_host = host, er_command = command, er_exit_code = cc_exit_code c, er_stdout = from_utf8_lossy (cc_output c), er_stderr = [],
      er_duration_ms = duration, er_risk_level = risk, er_truncated = cc_truncated c,
      er_dropped_bytes = cc_dropped_bytes c, er_side_effect = side_effect,
      er_risk_unclassified = (\<not> host_risk_is_classifiable m envs host)\<rparr>"

definition resident_exec_core ::
  "machine \<Rightarrow> environment_registry \<Rightarrow> audit_env \<Rightarrow> session_id \<Rightarrow> exec_request \<Rightarrow> risk_level \<Rightarrow> str \<Rightarrow> exec_io \<Rightarrow>
   resident_world \<Rightarrow> audit_world \<Rightarrow> ((resident_refusal + exec_result) \<times> resident_world \<times> audit_world) option" where
  "resident_exec_core m envs audit i q risk source io w a =
     (case map_of (rw_sessions w) i of
        None \<Rightarrow> Some (Inl UnknownSession, w, a)
      | Some h \<Rightarrow>
          (case exec_in_session (xi_now io) (xi_status io) (xi_write_error io) (xi_written io)
                  (case rq_timeout_secs q of Some t \<Rightarrow> t | None \<Rightarrow> 60) (xi_nonce io) (xi_obs io) (xi_finished io) h of
             (None, _) \<Rightarrow> None
           | (Some outcome, h') \<Rightarrow>
               (let w' = w\<lparr>rw_sessions := store_handle i h' (rw_sessions w)\<rparr>
                in Some (case outcome of
                     Inl e \<Rightarrow> (Inl (ResidentFailed e), w', a)
                   | Inr c \<Rightarrow>
                       let r = resident_result m envs (rs_host h) (rq_command q) risk (rq_side_effect q) (xi_duration io) c
                       in (Inr r, w', append_audit audit r risk (rq_reason q) (rq_change_id q) (Some source) a)))))"

section \<open>Handlers\<close>

definition RESIDENT_OPEN_COMMAND :: str where "RESIDENT_OPEN_COMMAND = ''resident-session open''"
definition RESIDENT_READ_COMMAND :: str where "RESIDENT_READ_COMMAND = ''resident-session read''"
definition RESIDENT_CLOSE_COMMAND :: str where "RESIDENT_CLOSE_COMMAND = ''resident-session close''"

text \<open>
  \<open>q\<close> is the body of a request as an execution request; its host is that of the session. An opening is
  the request for the command \<open>resident-session open\<close>.
\<close>

definition resident_session_exec ::
  "daemon_env \<Rightarrow> machine \<Rightarrow> environment_registry \<Rightarrow> approver \<Rightarrow> daemon_scope option \<Rightarrow> session_id \<Rightarrow> exec_request \<Rightarrow>
   exec_io \<Rightarrow> (resident_world \<Rightarrow> resident_world) \<Rightarrow> resident_world \<Rightarrow> daemon_state \<Rightarrow>
   ((resident_refusal + exec_result) \<times> resident_world \<times> daemon_state) option" where
  "resident_session_exec e m envs approver scope i q io others w s =
     (case session_host i w of
        None \<Rightarrow> Some (Inl UnknownSession, w, s)
      | Some host \<Rightarrow>
          (case source_or_env_for_request (de_source_var e) (rq_source q) ''daemon'' of
             Inl r \<Rightarrow> Some (Inl (ResidentRefused r), w, s)
           | Inr source \<Rightarrow>
               (case ensure_command_length (rq_command q) of
                  Some r \<Rightarrow> Some (Inl (ResidentRefused r), w, s)
                | None \<Rightarrow>
                    (case preflight_guarded_request e approver (input_of e scope source (q\<lparr>rq_host := host\<rparr>)) s of
                       None \<Rightarrow> None
                     | Some (Inl r, s1) \<Rightarrow> Some (Inl (ResidentRefused r), w, s1)
                     | Some (Inr pf, s1) \<Rightarrow>
                         map_option (\<lambda>(result, w', a). (result, w', s1\<lparr>ds_audit := a\<rparr>))
                           (resident_exec_core m envs (de_audit e) i q (pf_risk pf) (pf_source pf) io (others w)
                              (ds_audit s1))))))"

definition resident_session_open ::
  "daemon_env \<Rightarrow> open_env \<Rightarrow> approver \<Rightarrow> daemon_scope option \<Rightarrow> exec_request \<Rightarrow>
   (environment_plan \<Rightarrow> (str + resident) option) \<Rightarrow> (resident_world \<Rightarrow> resident_world) \<Rightarrow> (open_error \<Rightarrow> str) \<Rightarrow> nat \<Rightarrow>
   resident_world \<Rightarrow> daemon_state \<Rightarrow> ((resident_refusal + resident) \<times> resident_world \<times> daemon_state) option" where
  "resident_session_open e o1 approver scope q spawn_shell others text_of duration w s =
     (if \<not> is_local_host (rq_host q) then Some (Inl (ResidentRefused (NotALocalTarget (rq_host q))), w, s)
      else case source_or_env_for_request (de_source_var e) (rq_source q) ''daemon'' of
        Inl r \<Rightarrow> Some (Inl (ResidentRefused r), w, s)
      | Inr source \<Rightarrow>
          (case preflight_guarded_request e approver
                  (input_of e scope source (q\<lparr>rq_command := RESIDENT_OPEN_COMMAND\<rparr>)) s of
             None \<Rightarrow> None
           | Some (Inl r, s1) \<Rightarrow> Some (Inl (ResidentRefused r), w, s1)
           | Some (Inr pf, s1) \<Rightarrow>
               map_option (\<lambda>(result, w').
                   (map_sum OpenFailed id result, w',
                    s1\<lparr>ds_audit := append_operation_audit (de_audit e) (pf_source pf) (rq_host q) RESIDENT_OPEN_COMMAND
                         (pf_risk pf) (case result of Inr _ \<Rightarrow> Some 0 | Inl _ \<Rightarrow> None) duration
                         (case result of Inr _ \<Rightarrow> None | Inl x \<Rightarrow> Some (text_of x)) (ds_audit s1)\<rparr>))
                 (resident_open_core o1 spawn_shell others (rq_host q) w)))"

text \<open>Reading and listing only ask for the scope of the token.\<close>

definition resident_session_get ::
  "daemon_env \<Rightarrow> daemon_scope option \<Rightarrow> nat \<Rightarrow> session_id \<Rightarrow> child_status \<Rightarrow> resident_world \<Rightarrow>
   resident_refusal + resident_detail" where
  "resident_session_get e scope now i status w =
     (case session_host i w of
        None \<Rightarrow> Inl UnknownSession
      | Some host \<Rightarrow>
          (case check_daemon_scope scope host (host_tags (de_targets e) host) RESIDENT_READ_COMMAND of
             Inl x \<Rightarrow> Inl (ResidentRefused (ScopeRefused x))
           | Inr _ \<Rightarrow> (case resident_get_core now i status w of None \<Rightarrow> Inl UnknownSession | Some d \<Rightarrow> Inr d)))"

definition resident_session_list :: "daemon_env \<Rightarrow> daemon_scope option \<Rightarrow> nat \<Rightarrow> resident_world \<Rightarrow> resident_summary list" where
  "resident_session_list e scope now w =
     filter (\<lambda>d. scope_allows_observe_host (de_targets e) scope (rm_host d)) (resident_list_core now w)"

definition resident_session_close ::
  "daemon_env \<Rightarrow> approver \<Rightarrow> daemon_scope option \<Rightarrow> (session_id \<Rightarrow> str) \<Rightarrow> session_id \<Rightarrow> exec_request \<Rightarrow>
   (resident_world \<Rightarrow> resident_world) \<Rightarrow> nat \<Rightarrow> resident_world \<Rightarrow> daemon_state \<Rightarrow>
   ((resident_refusal + unit) \<times> resident_world \<times> daemon_state) option" where
  "resident_session_close e approver scope id_text i q others duration w s =
     (case session_host i w of
        None \<Rightarrow> Some (Inl UnknownSession, w, s)
      | Some host \<Rightarrow>
          (case preflight_guarded_request e approver
                  (input_of e scope (source_from_env (de_source_var e) ''daemon'')
                    (q\<lparr>rq_host := host, rq_command := RESIDENT_CLOSE_COMMAND, rq_force := False,
                       rq_reason := None, rq_change_id := None\<rparr>)) s of
             None \<Rightarrow> None
           | Some (Inl r, s1) \<Rightarrow> Some (Inl (ResidentRefused r), w, s1)
           | Some (Inr pf, s1) \<Rightarrow>
               Some (case resident_close_core id_text i (others w) of
                   (None, w') \<Rightarrow> (Inl UnknownSession, w', s1)
                 | (Some h, w') \<Rightarrow>
                     (Inr (), w', s1\<lparr>ds_audit := append_operation_audit (de_audit e) (pf_source pf) h
                        RESIDENT_CLOSE_COMMAND (pf_risk pf) (Some 0) duration None (ds_audit s1)\<rparr>))))"

section \<open>Text is shown as it is\<close>

lemma valid_two:
  assumes "utf8_valid (a # s)" "byte_in 0xC2 0xDF a"
  shows "\<exists>n. utf8_step a s = (True, n) \<and> utf8_valid (drop n s)"
proof -
  have "\<not> byte_in 0 0x7F a" using assms(2) by (simp add: byte_in_def)
  with assms show ?thesis by (cases s) (auto simp: utf8_step_def)
qed

lemma valid_three:
  assumes "utf8_valid (a # s)" "byte_in 0xE0 0xEF a"
  shows "\<exists>n. utf8_step a s = (True, n) \<and> utf8_valid (drop n s)"
proof -
  have no: "\<not> byte_in 0 0x7F a" "\<not> byte_in 0xC2 0xDF a" using assms(2) by (simp_all add: byte_in_def)
  with assms obtain b c r where s: "s = b # c # r" by (auto split: list.splits)
  consider "byte_in 0xE0 0xE0 a" "\<not> byte_in 0xED 0xED a" | "\<not> byte_in 0xE0 0xE0 a" "byte_in 0xED 0xED a" |
      "\<not> byte_in 0xE0 0xE0 a" "\<not> byte_in 0xED 0xED a" "byte_in 0xE1 0xEF a"
    using assms(2) by (fastforce simp: byte_in_def)
  then show ?thesis using assms no s by cases (simp_all add: utf8_step_def)
qed

lemma valid_four:
  assumes "utf8_valid (a # s)" "byte_in 0xF0 0xF4 a"
  shows "\<exists>n. utf8_step a s = (True, n) \<and> utf8_valid (drop n s)"
proof -
  have no: "\<not> byte_in 0 0x7F a" "\<not> byte_in 0xC2 0xDF a" "\<not> byte_in 0xE0 0xEF a" "\<not> byte_in 0xE0 0xE0 a"
      "\<not> byte_in 0xED 0xED a" "\<not> byte_in 0xE1 0xEF a"
    using assms(2) by (simp_all add: byte_in_def)
  with assms obtain b c d r where s: "s = b # c # d # r" by (auto split: list.splits)
  consider "byte_in 0xF0 0xF0 a" "\<not> byte_in 0xF4 0xF4 a" | "\<not> byte_in 0xF0 0xF0 a" "byte_in 0xF4 0xF4 a" |
      "\<not> byte_in 0xF0 0xF0 a" "\<not> byte_in 0xF4 0xF4 a" "byte_in 0xF1 0xF3 a"
    using assms(2) by (fastforce simp: byte_in_def)
  then show ?thesis using assms no s by cases (simp_all add: utf8_step_def)
qed

lemma valid_step:
  assumes "utf8_valid (a # s)"
  shows "\<exists>n. utf8_step a s = (True, n) \<and> utf8_valid (drop n s)"
proof -
  consider "byte_in 0 0x7F a" | "byte_in 0xC2 0xDF a" | "byte_in 0xE0 0xEF a" | "byte_in 0xF0 0xF4 a"
    using assms by (auto split: if_splits)
  then show ?thesis
    using assms valid_two valid_three valid_four by cases (auto simp: utf8_step_def)
qed

lemma lossy_valid: "utf8_valid s \<Longrightarrow> from_utf8_lossy s = s"
proof (induction s rule: from_utf8_lossy.induct)
  case (2 a s)
  from valid_step [OF 2(2)] obtain n where n: "utf8_step a s = (True, n)" "utf8_valid (drop n s)" by blast
  from 2(1) [OF n(1) [symmetric] n(2)] n(1) show ?case by simp
qed simp

section \<open>The registry stays within its cap\<close>

text \<open>
  A run of the daemon with one setting of the environment variables: openings begin and end, with anything
  between, commands run, sessions close, the reaper looks and later closes what it saw.
\<close>

datatype resident_call =
    BeginOpen open_env str
  | EndOpen open_env reservation "str + resident"
  | RunCommand session_id "resident \<Rightarrow> resident"
  | CloseSession session_id
  | CloseExpired "session_id list"

fun resident_step :: "(session_id \<Rightarrow> str) \<Rightarrow> resident_world \<Rightarrow> resident_call \<Rightarrow> resident_world" where
  "resident_step id_text w (BeginOpen o1 host) = snd (begin_open o1 host w)"
| "resident_step id_text w (EndOpen o1 g warm) = snd (end_open o1 g warm w)"
| "resident_step id_text w (RunCommand i f) =
     (case map_of (rw_sessions w) i of
        None \<Rightarrow> w
      | Some h \<Rightarrow> w\<lparr>rw_sessions := store_handle i (f h) (rw_sessions w)\<rparr>)"
| "resident_step id_text w (CloseSession i) = snd (resident_close_core id_text i w)"
| "resident_step id_text w (CloseExpired is) = snd (close_each id_text is w)"

fun same_machine :: "machine \<Rightarrow> resident_world \<Rightarrow> resident_call \<Rightarrow> bool" where
  "same_machine m w (BeginOpen o1 host) \<longleftrightarrow> oe_machine o1 = m"
| "same_machine m w (EndOpen o1 g warm) \<longleftrightarrow> oe_machine o1 = m"
| "same_machine m w _ \<longleftrightarrow> True"

definition within_cap :: "machine \<Rightarrow> resident_world \<Rightarrow> bool" where
  "within_cap m w \<longleftrightarrow>
     distinct (map fst (rw_sessions w)) \<and>
     (max_resident_sessions m = 0 \<or> length (rw_sessions w) \<le> max_resident_sessions m)"

lemma length_update: "length (AList.update i h ss) = (if i \<in> fst ` set ss then length ss else Suc (length ss))"
  by (induction ss) auto

lemma begin_open_keeps [simp]: "rw_sessions (snd (begin_open o1 host w)) = rw_sessions w"
  by (auto simp: begin_open_def split: sum.splits prod.splits)

lemma length_delete: "length (AList.delete i ss) \<le> length ss"
  by (simp add: AList.delete_eq)

lemma within_cap_delete:
  "within_cap m w \<Longrightarrow> rw_sessions w' = AList.delete i (rw_sessions w) \<Longrightarrow> within_cap m w'"
  using length_delete [of i "rw_sessions w"] by (auto simp: within_cap_def distinct_delete)

lemma within_cap_cong: "rw_sessions w' = rw_sessions w \<Longrightarrow> within_cap m w' = within_cap m w"
  by (simp add: within_cap_def)

lemma end_open_sessions:
  "rw_sessions (snd (end_open o1 g warm w)) = rw_sessions w \<or>
   (\<exists>h. \<not> at_cap (oe_machine o1) w \<and>
      rw_sessions (snd (end_open o1 g warm w)) = AList.update (oe_id o1) h (rw_sessions w))"
  by (auto simp: end_open_def Let_def split: sum.splits prod.splits option.splits)

lemma close_core_cap: "within_cap m w \<Longrightarrow> within_cap m (snd (resident_close_core id_text i w))"
  by (cases "map_of (rw_sessions w) i")
    (auto simp: resident_close_core_def intro: within_cap_delete [where i = i])

lemma close_each_cap: "within_cap m w \<Longrightarrow> within_cap m (snd (close_each id_text is w))"
proof (induction "is" arbitrary: w)
  case (Cons i "is")
  from Cons.IH [OF close_core_cap [OF Cons.prems, of id_text i]] show ?case by (auto split: prod.splits)
qed simp

lemma resident_step_cap:
  assumes "within_cap m w" "same_machine m w c"
  shows "within_cap m (resident_step id_text w c)"
proof (cases c)
  case (BeginOpen o1 host)
  with assms show ?thesis using within_cap_cong [OF begin_open_keeps [of o1 host w]] by simp
next
  case (EndOpen o1 g warm)
  from end_open_sessions [of o1 g warm w] show ?thesis
  proof (elim disjE exE conjE)
    assume "rw_sessions (snd (end_open o1 g warm w)) = rw_sessions w"
    from within_cap_cong [OF this] assms(1) EndOpen show ?thesis by simp
  next
    fix h
    assume room: "\<not> at_cap (oe_machine o1) w"
      and new: "rw_sessions (snd (end_open o1 g warm w)) = AList.update (oe_id o1) h (rw_sessions w)"
    from room assms(2) EndOpen have "max_resident_sessions m = 0 \<or> length (rw_sessions w) < max_resident_sessions m"
      by (auto simp: at_cap_def)
    moreover have "length (AList.update (oe_id o1) h (rw_sessions w)) \<le> Suc (length (rw_sessions w))"
      by (simp add: length_update)
    ultimately have "max_resident_sessions m = 0 \<or> length (AList.update (oe_id o1) h (rw_sessions w)) \<le> max_resident_sessions m"
      by linarith
    with assms(1) EndOpen new show ?thesis by (simp add: within_cap_def distinct_update)
  qed
next
  case (RunCommand i f)
  show ?thesis
  proof (cases "map_of (rw_sessions w) i")
    case (Some h)
    then have "i \<in> fst ` set (rw_sessions w)" by (metis domI dom_map_of_conv_image_fst)
    with assms(1) RunCommand Some show ?thesis
      using length_delete [of i "rw_sessions w"]
      by (auto simp: within_cap_def store_handle_def length_update distinct_update distinct_delete)
  qed (use assms(1) RunCommand in simp)
qed (use assms(1) in \<open>simp_all add: close_core_cap close_each_cap\<close>)

interpretation resident_runs: state_machine "resident_step id_text" "same_machine m" "within_cap m" for id_text m
  by unfold_locales (rule resident_step_cap)

lemma run_command_step:
  assumes "resident_exec_core m envs audit i q risk source io w a = Some (result, w', a')"
  shows "\<exists>f. w' = resident_step id_text w (RunCommand i f)"
proof (cases "map_of (rw_sessions w) i")
  case None
  with assms show ?thesis by (auto simp: resident_exec_core_def)
next
  case (Some h)
  obtain r h' where run: "exec_in_session (xi_now io) (xi_status io) (xi_write_error io) (xi_written io)
      (case rq_timeout_secs q of Some t \<Rightarrow> t | None \<Rightarrow> 60) (xi_nonce io) (xi_obs io) (xi_finished io) h = (r, h')"
    by fastforce
  have "w' = resident_step id_text w (RunCommand i (\<lambda>_. h'))"
    using assms Some by (cases r) (auto simp: resident_exec_core_def run Let_def split: sum.splits)
  then show ?thesis by blast
qed

text \<open>
  Property (C32): the resident sessions stay within their cap. After any run of openings, commands, closings
  and reaps, however the two halves of the openings interleave, no more sessions are registered than the
  cap allows and no id is registered twice; and an opening that ends when the cap is reached is refused: it
  registers nothing and its reservation is dropped.
\<close>

theorem resident_sessions_are_capped:
  assumes "max_resident_sessions m > 0"
    and "admissible (resident_step id_text) (same_machine m) \<lparr>rw_sessions = [], rw_life = life\<rparr> calls"
    and "w = foldl (resident_step id_text) \<lparr>rw_sessions = [], rw_life = life\<rparr> calls"
  shows "length (rw_sessions w) \<le> max_resident_sessions m \<and> distinct (map fst (rw_sessions w)) \<and>
    (length (rw_sessions w) = max_resident_sessions m \<longrightarrow> oe_machine o1 = m \<longrightarrow>
       end_open o1 g (Inr h) w =
         (Inl (SessionLimit (max_resident_sessions m) (max_resident_sessions m)), w\<lparr>rw_life := drop_guard g (rw_life w)\<rparr>))"
proof -
  have "within_cap m \<lparr>rw_sessions = [], rw_life = life\<rparr>" by (simp add: within_cap_def)
  from resident_runs.run_inv [OF this assms(2)] have "within_cap m w" unfolding assms(3) .
  with assms(1) show ?thesis by (auto simp: within_cap_def end_open_def at_cap_def)
qed

section \<open>A command of a session is guarded like any other\<close>

lemma started_session:
  assumes "exec_in_session now status write_error written timeout nonce obs finished h = (Some (Inr c), h')"
  shows "\<not> rs_closed h \<and> \<not> rs_dead h"
  using assms by (auto simp: exec_in_session_def begin_exec_def split: if_splits)

lemma resident_exec_Inr:
  assumes "resident_exec_core m envs audit i q risk source io w a = Some (Inr r, w', a')"
  shows "\<exists>h. map_of (rw_sessions w) i = Some h \<and> \<not> rs_closed h \<and> \<not> rs_dead h \<and> er_host r = rs_host h \<and>
    er_command r = rq_command q \<and> er_risk_level r = risk \<and>
    a' = append_audit audit r risk (rq_reason q) (rq_change_id q) (Some source) a"
proof -
  obtain h where h: "map_of (rw_sessions w) i = Some h"
    using assms by (cases "map_of (rw_sessions w) i") (auto simp: resident_exec_core_def)
  obtain ran h' where run: "exec_in_session (xi_now io) (xi_status io) (xi_write_error io) (xi_written io)
      (case rq_timeout_secs q of Some t \<Rightarrow> t | None \<Rightarrow> 60) (xi_nonce io) (xi_obs io) (xi_finished io) h = (ran, h')"
    by fastforce
  with assms h obtain c where c: "ran = Some (Inr c)"
    by (cases ran) (auto simp: resident_exec_core_def Let_def split: sum.splits)
  have "r = resident_result m envs (rs_host h) (rq_command q) risk (rq_side_effect q) (xi_duration io) c \<and>
      a' = append_audit audit r risk (rq_reason q) (rq_change_id q) (Some source) a"
    using assms h run c by (auto simp: resident_exec_core_def Let_def)
  with h started_session [OF run [unfolded c]] show ?thesis by (auto simp: resident_result_def)
qed


section \<open>Examples, and a cap that does not recover\<close>

definition demo_box :: machine where
  "demo_box =
     \<lparr>mc_windows = False, mc_macos = False, mc_arch = ''x86_64'', mc_is_file = (\<lambda>_. False), mc_is_dir = (\<lambda>_. False),
      mc_is_executable = (\<lambda>_. False), mc_vars = [MAX_SESSIONS_ENV \<mapsto> ''1''], mc_path = [], mc_etc_shells = None,
      mc_home = None, mc_vswhere = (\<lambda>_. None)\<rparr>"

definition demo_opening :: "session_id \<Rightarrow> open_env" where
  "demo_opening i =
     \<lparr>oe_machine = demo_box, oe_environments = Local_Environments.empty_registry, oe_id = i, oe_show = show_nat, oe_is_uuid = (\<lambda>_. True),
      oe_nonce = 0, oe_owner = 0, oe_now = 0\<rparr>"

lemma demo_cap: "max_resident_sessions demo_box = 1"
proof -
  have one: "show_nat 1 = ''1''" "trim ''1'' = ''1''" by code_simp+
  have "from_str_radix 64 10 ''1'' = Some 1" using parse_show [of 1 64] unfolding one(1) by simp
  then show ?thesis by (simp add: max_resident_sessions_def env_count_def env_var_def env_key_def demo_box_def one)
qed

lemma resident_sessions_are_capped_witness:
  "\<exists>w. foldl (resident_step show_nat) \<lparr>rw_sessions = [], rw_life = []\<rparr>
         [EndOpen (demo_opening 1) \<lparr>held_id = ''1'', held_nonce = 0, armed = True\<rparr> (Inr demo_session)] = w \<and>
       fst (end_open (demo_opening 2) \<lparr>held_id = ''2'', held_nonce = 1, armed = True\<rparr> (Inr demo_session) w) =
         Inl (SessionLimit 1 1)"
proof -
  let ?calls = "[EndOpen (demo_opening 1) \<lparr>held_id = ''1'', held_nonce = 0, armed = True\<rparr> (Inr demo_session)]"
  let ?w = "foldl (resident_step show_nat) \<lparr>rw_sessions = [], rw_life = []\<rparr> ?calls"
  have box: "oe_machine (demo_opening j) = demo_box" for j by (simp add: demo_opening_def)
  have "length (rw_sessions ?w) = 1"
    by (simp add: end_open_def at_cap_def box demo_cap activate_guard_def activate_def)
  with resident_sessions_are_capped [of demo_box show_nat "[]" ?calls ?w "demo_opening 2"] show ?thesis
    by (simp add: box demo_cap)
qed

text \<open>
  Dead sessions count for the cap and are never reaped: when every session of a full registry has lost its
  shell, the reaper finds nothing to close and no new session opens, at any later time.
\<close>

lemma dead_sessions_fill_the_cap:
  assumes "list_all (\<lambda>(i, h). rs_dead h) (rw_sessions w)" "at_cap m w"
  shows "expired_sessions m now w = []"
    "oe_machine o1 = m \<Longrightarrow> \<exists>e. begin_open o1 host w = (Inl e, w)"
proof -
  show "expired_sessions m now w = []"
    using assms(1) by (auto simp: expired_sessions_def list_all_iff filter_empty_conv)
  show "\<exists>e. begin_open o1 host w = (Inl e, w)" if "oe_machine o1 = m"
    using assms(2) that by (auto simp: begin_open_def split: sum.splits)
qed

definition demo_resident_world :: resident_world where
  "demo_resident_world = \<lparr>rw_sessions = [(2, demo_session)], rw_life = []\<rparr>"

definition demo_resident_exec :: exec_request where
  "demo_resident_exec = demo_exec\<lparr>rq_host := ''elsewhere''\<rparr>"

definition demo_io :: exec_io where
  "demo_io =
     \<lparr>xi_now = 1, xi_status = Alive, xi_write_error = None, xi_written = 1, xi_nonce = ''ab'',
      xi_obs = [\<lparr>ob_chunks = [sentinel_marker ''ab'' @ [newline]], ob_closed = False, ob_status = Alive, ob_now = 2\<rparr>],
      xi_finished = 2, xi_duration = 1\<rparr>"

lemma demo_resident_run:
  "\<exists>r w' a'. resident_exec_core demo_box envs audit 2 demo_resident_exec High source demo_io demo_resident_world a =
     Some (Inr r, w', a') \<and> er_risk_level r = High"
proof -
  have found: "find_sentinel (sentinel_marker ''ab'' @ [newline]) ''ab'' = Some (0, 15, None)" by code_simp
  have len: "length (sentinel_marker ''ab'') = 14" by code_simp
  show ?thesis
    by (simp add: resident_exec_core_def demo_resident_world_def exec_in_session_def begin_exec_def demo_io_def
        demo_session_fields observe_def buffer_push_def poll_sentinel_def found len SESSION_MAX_OUTPUT_def
        end_exec_def resident_result_def Let_def)
qed

lemma demo_local_checks:
  "host_tags (Some [demo_host]) ''local'' = []"
  "host_risk_override (Some [demo_host]) ''local'' = None"
  "host_allows_source (Some [demo_host]) ''local'' ''daemon''"
  "check_execution_batch 0 0 ''daemon'' [(''local'', [])] (new_limiter default_limits) =
     (None, (new_limiter default_limits)\<lparr>recorded := [event_of 0 ''daemon'' (''local'', [])]\<rparr>)"
  by (simp add: host_tags_def command_authorization_target_def find_profile_def demo_host_def target_of_profile_def,
      simp add: host_risk_override_def command_authorization_target_def find_profile_def demo_host_def,
      code_simp, code_simp)

lemma demo_local_preflight:
  "\<exists>s1. preflight_guarded_request demo_daemon (\<lambda>_ p w. (Inr Execution_Control.Approved, w))
     (input_of demo_daemon None ''daemon'' (demo_resident_exec\<lparr>rq_host := ''local''\<rparr>)) demo_daemon_state =
     Some (Inr \<lparr>pf_source = ''daemon'', pf_risk = High, pf_approved = True, pf_command = None\<rparr>, s1)"
  by (simp add: preflight_guarded_request_def preflight_guarded_request_inner_def input_of_def
      demo_daemon_def demo_daemon_state_def demo_exec_def demo_resident_exec_def demo_checks demo_local_checks
      reject_if_gate_paused_def default_gate_def gate_blocks_source_def reject_if_rate_limited_def
      refresh_execution_limits_def authorize_command_inner_def authorize_command_with_approval_def
      check_daemon_scope_def effective_command_risk_def classify_effective_risk_def
      classify_with_user_rules_def check_approval_required_def conclude_def demo_ctx_def opt_or_def Let_def)


end
