(* ===== verification/Spec2Isabelle.thy ===== *)
theory Spec2Isabelle
  imports Risk_Rules Sample_Parser Exec_Gate Daemon_Scope Approval_Journal Approval_Races
    Authorization_Laws Exec_Core Exec_Limits Lifecycle Output_Capture Jump_Chain Result_Compare
    Host_Rename Audit_Metrics Playbook Snippets Ssh_Config Sync_Laws Policy Anomaly Ws_Drain Prompt_Waiter
    Request_Answer Daemon_Batch Daemon_Playbook Terminal_Broadcast Local_Targets Resident_Registry
begin

text \<open>
  A verification development for the Rust core of agent2ssh (\<open>src/src-tauri/src\<close>), the program through
  which a person and an AI agent run commands on remote and local hosts. It models the path a
  command takes before it reaches a transport, what is kept and written about it, and the
  configuration and the credentials it rests on.

  \<^bold>\<open>The program\<close>. A command arrives from a surface (desktop, CLI, MCP server, daemon) with a source
  and a host. It is classified as low, medium, high or blocked (\<open>core.rs\<close> \<open>classify_risk\<close>, with
  \<open>sanitize.rs\<close> for the syntax tree and \<open>risk_extra.rs\<close> for the word-level rules), raised by the
  user's rules (\<open>risk_config.rs\<close>) and by the override of the host. The authorization
  (\<open>execution_control.rs\<close>) checks the scope of the token (\<open>remote.rs\<close>), the human-only flag of the host,
  the risk and the approval policies (\<open>approval.rs\<close>), and asks an approver when it must. The approver
  works on the approval store (\<open>approval.rs\<close>), a map of requests with an append-only journal. The last
  gate in front of the transport (\<open>core.rs\<close> \<open>exec_ssh_core\<close>, \<open>exec_local_core\<close>) classifies again and
  refuses what is blocked, or high without force. Every outcome is written to the audit log
  (\<open>store.rs\<close>). The daemon also limits rates and open sessions (\<open>limits.rs\<close>), can be paused
  (\<open>gate.rs\<close>), and keeps a registry of its resources (\<open>lifecycle.rs\<close>). A command for many hosts is run
  in batches and its results are compared (\<open>core.rs\<close>). Hosts, proxies and groups are kept in a
  configuration file (\<open>store.rs\<close>) whose credentials live in an encrypted store (\<open>secrets.rs\<close>); the
  operations of \<open>core.rs\<close> that change a host change both. Playbooks (\<open>playbook.rs\<close>) run lists of
  commands through the same gate; hosts are exchanged with the SSH client's configuration
  (\<open>ssh_config.rs\<close>, \<open>core.rs\<close>); and the configuration directory is copied to snapshots and to a
  WebDAV server (\<open>webdav_sync.rs\<close>), encrypted (\<open>backup_crypto.rs\<close>). On the machine itself a command
  runs in a named environment or a container (\<open>local_exec.rs\<close>, \<open>local_environments.rs\<close>), in a process
  of its own or in a resident session (\<open>resident_session.rs\<close>).

  \<^bold>\<open>The theories\<close>, in the order in which they build on each other.

  \<^item> \<open>A2S_Prelude\<close>: loops that may panic (\<open>foldM\<close>, \<open>mapM\<close>, \<open>concatM\<close>, \<open>find_map\<close>) and the contracts
    shared by components as locales: \<open>state_machine\<close> (an invariant kept by every operation),
    \<open>progress_machine\<close> (and a relation every operation respects), \<open>first_match\<close> (an ordered rule list).
  \<^item> \<open>Rust_Text\<close>: the string operations of the standard library that the code uses.
  \<^item> \<open>Risk_Level\<close> (\<open>types.rs\<close>, \<open>approval.rs\<close>, \<open>core.rs\<close>): severities, their order, the override.
  \<^item> \<open>Glob\<close> (\<open>store.rs\<close> \<open>glob_match\<close>): the row-by-row matcher, its specification by segments, and the
    proof that they agree.
  \<^item> \<open>Syntax_Tree\<close>, \<open>Sanitize\<close>, \<open>Sanitize_Shapes\<close> (\<open>sanitize.rs\<close>): the syntax tree, the canonical head of
    a command behind its wrappers, redirects, shapes, \<open>analyze_command\<close> and \<open>split_commands\<close>.
  \<^item> \<open>Shell_Words\<close>, \<open>Risk_Extra\<close> (\<open>risk_extra.rs\<close>): word splitting, quoting, options, path predicates and
    the classifier of each command; the round trip of quoting and splitting.
  \<^item> \<open>Risk_Classify\<close> (\<open>core.rs\<close>), \<open>Sample_Parser\<close>, \<open>Risk_Laws\<close>: the recursive classifier; a small parser
    with which witnesses evaluate it; its specification (the strictest flat finding of the command
    lines an input exposes, the inductive relation \<open>exposes\<close>), the refinement, and what follows from
    it for destructive, deeply nested, unparsed, wrapped and piped commands.
  \<^item> \<open>Risk_Rules\<close> (\<open>risk_config.rs\<close>): the user's rules, which only escalate.
  \<^item> \<open>Exec_Gate\<close> (\<open>gate.rs\<close>), \<open>Daemon_Scope\<close> (\<open>remote.rs\<close>), \<open>Host_Config\<close> (\<open>types.rs\<close>, \<open>core.rs\<close>,
    \<open>session.rs\<close>): the pause switch, the token scope and version check, host profiles and selections.
  \<^item> \<open>Approval_Policy\<close>, \<open>Approval_Store\<close>, \<open>Approval_Laws\<close>, \<open>Approval_Races\<close>, \<open>Approval_Journal\<close>
    (\<open>approval.rs\<close>): the policies and the mode derived from them; the store, one operation per critical
    section, which returns the journal lines and events it emits once the lock is released; the life
    cycle of a request over any run of operations; what the gap between lock and append allows; and
    the files, with loading, migration and compaction.
  \<^item> \<open>Audit_Log\<close> (\<open>store.rs\<close>): grants of human approvals, verdicts, rotation, CSV fields.
  \<^item> \<open>Execution_Control\<close>, \<open>Authorization_Laws\<close> (\<open>execution_control.rs\<close>): the authorization as a function
    of what it reads from disk before and after the approver answers, of the approver and of the
    audit log; what an authorization that succeeds, and one that fails, implies.
  \<^item> \<open>Exec_Core\<close> (\<open>core.rs\<close>): previews and the execution gate, which agree.
  \<^item> \<open>Exec_Limits\<close> (\<open>limits.rs\<close>): the sliding window and the session table, over any run of calls.
  \<^item> \<open>Lifecycle\<close> (\<open>lifecycle.rs\<close>, \<open>app_state.rs\<close>): the registry and the guards of its reservations.
  \<^item> \<open>Output_Capture\<close> (\<open>exec_capture.rs\<close>), \<open>Jump_Chain\<close> (\<open>jump_chain.rs\<close>), \<open>Terminal_Text\<close>
    (\<open>url_safety.rs\<close>, \<open>osc_ipc.rs\<close>, \<open>shell_profile.rs\<close>): the bounded capture of output, the hops to a
    host, and the text that is written to terminals and shells.
  \<^item> \<open>Batch_Exec\<close>, \<open>Result_Compare\<close> (\<open>core.rs\<close>): batches of hosts with a permit limit, a failure limit and
    a size, over any interleaving of their tasks; the comparison of the results.
  \<^item> \<open>Vault\<close> (\<open>secrets.rs\<close>): the encrypted credential store over an abstract cipher. It refines a map
    from accounts to secrets that is open or closed.
  \<^item> \<open>Config_Normal\<close>, \<open>Config_Store\<close> (\<open>store.rs\<close>): the repair of a configuration, and loading and saving,
    which moves the credentials between the configuration and the vault.
  \<^item> \<open>Host_Admin\<close>, \<open>Host_Rename\<close> (\<open>core.rs\<close>): the operations on hosts, proxies and groups, as functions of
    the pair of configuration file and vault.
  \<^item> \<open>Audit_Query\<close>, \<open>Audit_Metrics\<close> (\<open>store.rs\<close>): the log read backwards in chunks, its filters, exports
    and figures.
  \<^item> \<open>Text_Split\<close>, \<open>Record_List\<close>, \<open>Unix_Path\<close>: lines and separators of texts, lists of records with a
    key, the components of a path.
  \<^item> \<open>Playbook\<close> (\<open>playbook.rs\<close>), \<open>Snippets\<close> (\<open>snippets.rs\<close>): templates and their parameters, the dry
    run and the run of a playbook over the execution of \<open>Exec_Core\<close>; the file of snippets as a map.
  \<^item> \<open>Ssh_Include\<close>, \<open>Ssh_Config\<close> (\<open>ssh_config.rs\<close>, \<open>core.rs\<close>): includes, parsing, import, comparison and
    export of the SSH client's configuration.
  \<^item> \<open>Backup_Crypto\<close> (\<open>backup_crypto.rs\<close>), \<open>Sync_Remote\<close>, \<open>Sync_Marker\<close>, \<open>Config_Snapshots\<close>, \<open>Webdav_Sync\<close>,
    \<open>Sync_Stores\<close>, \<open>Sync_Laws\<close> (\<open>webdav_sync.rs\<close>): the encrypted envelope; the requests of the WebDAV
    client and the contract of a versioned store; the marker, its digests and the state derived from
    them; snapshots, their restoration and templates; push, pull and status; the stores that satisfy
    the contract; and what push and pull guarantee over any of them.
  \<^item> \<open>Config_Cache\<close> (\<open>config_cache.rs\<close>): the cache of a file by its signature, as a state machine whose
    steps interleave with changes of the file.
  \<^item> \<open>Policy\<close> (\<open>policy.rs\<close>, \<open>approval.rs\<close>, \<open>risk_config.rs\<close>): the unified policy file and the separate
    ones behind their caches, saving and loading them, and the policy test of the command line, which
    predicts the authorization.
  \<^item> \<open>Anomaly\<close> (\<open>anomaly.rs\<close>): the scan of the commands of the audit log and the window of errors.
  \<^item> \<open>Ws_Drain\<close> (\<open>ws_drain.rs\<close>), \<open>Prompt_Waiter\<close> (\<open>prompt_waiter.rs\<close>): the shutdown token and the drain
    of open connections, and the registry of prompts, each as a state machine whose steps are the
    critical sections.
  \<^item> \<open>Daemon_Auth\<close> (\<open>remote.rs\<close>, \<open>bin/agent2ssh_daemon/auth.rs\<close>): the files of scoped tokens and remote
    daemons, and the authentication of a request to the daemon.
  \<^item> \<open>Daemon_Requests\<close>, \<open>Request_Laws\<close>, \<open>Request_Answer\<close>, \<open>Daemon_Batch\<close>, \<open>Daemon_Playbook\<close>
    (\<open>bin/agent2ssh-daemon.rs\<close>): the daemon's way from a request to a command on one host or on
    many, or to a playbook, through the source, the gate, the limiter, the authorization and the wait for
    an approver on the approval store; and what has been checked whenever a command runs.
  \<^item> \<open>Session_Input\<close> (\<open>session.rs\<close>, \<open>bin/agent2ssh-daemon.rs\<close>): interactive sessions, whose input is
    authorized line by line however it is cut into writes; and what two writes at once may do.
  \<^item> \<open>Terminal_Broadcast\<close> (\<open>bin/agent2ssh-daemon.rs\<close>): one command line for many open terminals, from the
    preview through the approvals to the sending; whose terminals it reaches and what it types there.
  \<^item> \<open>Local_Environments\<close>, \<open>Local_Plan\<close>, \<open>Local_Laws\<close>, \<open>Local_Targets\<close> (\<open>local_exec.rs\<close>,
    \<open>local_environments.rs\<close>, \<open>shell_list.rs\<close>, \<open>container_runtime.rs\<close>, \<open>path_resolver.rs\<close>): the shells
    of a machine, the environments a user defines and their cached registry, the plan that a local host
    id stands for and the process it starts; that what is loaded has been checked, that a command runs
    in what its id names as one argument, and that the flag of a verdict is that of the plan.
  \<^item> \<open>Resident_Shell\<close>, \<open>Resident_Laws\<close>, \<open>Resident_Registry\<close> (\<open>resident_session.rs\<close>,
    \<open>bin/agent2ssh-daemon.rs\<close>): the long-lived shells of the daemon, from the framing of a command and
    the search for its sentinel in the buffer to the registry and the handlers; what a command is
    answered, when it ends, how many sessions there are and what was checked before a command ran.

  \<^bold>\<open>Conventions\<close>. A Rust panic is \<open>None\<close> of an outer option; a \<open>Result\<close> is a sum with the error on the
  left, or an option of the error where the success carries nothing. A string is its list of bytes,
  in UTF-8; where the code walks over \<open>char\<close>s (\<open>chars\<close>) the model groups the bytes into them, and a
  slice at a byte that is not a boundary panics. Case conversion and white space are those of the
  ASCII range. Floating-point ratios are rational numbers. A hash map is a partial function, or the
  list of its entries in the order in which it is walked. Machine integers whose wrap-around matters are words (the elapsed seconds of an
  approval), others are numbers. A critical section of a lock is one step; a run is a list of steps,
  and what the environment guarantees of a step (fresh ids, a monotonic clock, a guard used while it
  is alive) is the \<open>enabled\<close> predicate of its state machine.

  \<^bold>\<open>Parameters\<close>. The tree-sitter grammar is the function \<open>parse\<close> from a command to its tree; the
  codecs of serde, the redaction of secrets, the clock, generated ids, the order of hash maps, the
  transports, what a local machine holds (its variables and files, as the record \<open>machine\<close>) and what a
  process writes are arguments too, and so are key derivation and authenticated encryption. Hypotheses state what the code relies on: that a codec reads back
  what it writes, that what was encrypted for an account opens with the same key and account only,
  or that the listed keys are all keys.

  \<^bold>\<open>Bounds\<close>. The classifier unwraps nested commands up to \<open>MAX_DEPTH = 4\<close>, as the code does; its
  recursion ends since the depth grows or the segment gets shorter, and \<open>deep_nesting_is_high\<close>
  shows that what lies deeper is high. \<open>approval_wait\<close> takes the list of instants at which it polls;
  \<open>approval_wait_ends\<close> shows that it returns once one of them is past the time to live. Nothing else
  needs fuel.

  \<^bold>\<open>Not modelled\<close>. The transports and their I/O, processes beyond what they print and when they exit,
  the cipher itself, the surfaces (Tauri commands, CLI, MCP) and the daemon's other handlers (SFTP,
  forwards, streams, settings, metrics), the discovery of containers, file permissions and locks (the
  lock file of a synchronization too), events and diagnostics, and the import of other clients' files.
  A regular file can always be read; what a failed snapshot leaves behind and links to directories are
  not modelled.
\<close>

end
